(* ===== verification/Go_Prelude.thy ===== *)
theory Go_Prelude
  imports Main "HOL-Library.Word" "HOL-Library.List_Lexorder" "HOL-Library.Char_ord"
    "HOL-Library.Product_Lexorder" "HOL-Library.AList" "HOL-Library.Sublist" "HOL-Library.Multiset"
begin

text \<open>
  The Go runtime as the gateway uses it: byte strings with \<open>strings.TrimSpace\<close>, UTF-8 runes and
  decimal printing, instants of \<open>time.Time\<close>, maps with an unspecified iteration order,
  \<open>slices.SortFunc\<close>, and the generic locales (orderings, tables, transition systems) that the
  component theories interpret. Nothing here is specific to one component.
\<close>

named_theorems store_frame \<open>facts that a step leaves a part of the state as it was\<close>
named_theorems go_string \<open>evaluation rules of the string functions\<close>

section \<open>Machine integers and instants\<close>

text \<open>
  An instant is a number of nanoseconds since Go's zero time, 0001-01-01 00:00:00 UTC, so
  \<open>IsZero\<close> is equality with 0 and \<open>UTC()\<close> is the identity. \<open>Truncate\<close> rounds down to a multiple
  of the duration counted from the zero time, which is what \<open>time.Time.Truncate\<close> does.
  Durations are \<open>int64\<close> nanoseconds; \<open>wrap64\<close> writes the wrap-around of the machine out.
\<close>

type_synonym gotime = int
type_synonym duration = int

abbreviation (input) IsZero :: "gotime \<Rightarrow> bool" where
  "IsZero t \<equiv> t = 0"

definition Truncate :: "gotime \<Rightarrow> duration \<Rightarrow> gotime" where
  "Truncate t d = t - t mod d"

definition wrap64 :: "int \<Rightarrow> int" where
  "wrap64 x = (x + 2 ^ 63) mod 2 ^ 64 - 2 ^ 63"

definition unix_epoch :: gotime where
  "unix_epoch = 62135596800 * 1000000000"

definition UnixNano :: "gotime \<Rightarrow> int" where
  "UnixNano t = wrap64 (t - unix_epoch)"

definition Unix :: "gotime \<Rightarrow> int" where
  "Unix t = (t - unix_epoch) div 1000000000"

lemma wrap64_id: "- (2 ^ 63) \<le> x \<Longrightarrow> x < 2 ^ 63 \<Longrightarrow> wrap64 x = x"
  by (simp add: wrap64_def)

lemma wrap64_range: "- (2 ^ 63) \<le> wrap64 x \<and> wrap64 x < 2 ^ 63"
  by (simp add: wrap64_def)

lemma wrap64_idem [simp]: "wrap64 (wrap64 x) = wrap64 x"
  using wrap64_range [of x] by (intro wrap64_id) auto

lemma Truncate_idem [simp]: "Truncate (Truncate t d) d = Truncate t d"
  by (simp add: Truncate_def mod_diff_left_eq [symmetric])

lemma Truncate_0 [simp]: "Truncate 0 d = 0"
  by (simp add: Truncate_def)

lemma Truncate_le: "0 < d \<Longrightarrow> Truncate t d \<le> t"
  by (simp add: Truncate_def)

lemma Truncate_mono:
  assumes "0 < d" and "s \<le> t"
  shows "Truncate s d \<le> Truncate t d"
proof -
  have "s div d \<le> t div d"
    using assms by (simp add: zdiv_mono1)
  then have "d * (s div d) \<le> d * (t div d)"
    using assms(1) by simp
  then show ?thesis
    by (simp add: Truncate_def minus_mod_eq_mult_div)
qed

lemma Truncate_add_multiple: "Truncate (t + d) d = Truncate t d + d"
  by (simp add: Truncate_def)

lemma Truncate_mod [simp]: "Truncate t d mod d = 0"
  by (simp add: Truncate_def mod_diff_left_eq [symmetric])

lemma Truncate_multiple: "t mod d = 0 \<Longrightarrow> Truncate t d = t"
  by (simp add: Truncate_def)

section \<open>Byte strings\<close>

text \<open>
  A Go string is its bytes. \<open>white_space\<close> lists the UTF-8 encodings of the code points with
  the Unicode property White_Space, in the order of \<open>unicode.White_Space\<close>;
  \<open>strings.TrimSpace\<close> removes them from both ends.
\<close>

definition white_space :: "string list" where
  "white_space =
    [[CHR 0x20], [CHR 0x09], [CHR 0x0A], [CHR 0x0B], [CHR 0x0C], [CHR 0x0D],
     [CHR 0xC2, CHR 0x85], [CHR 0xC2, CHR 0xA0], [CHR 0xE1, CHR 0x9A, CHR 0x80],
     [CHR 0xE2, CHR 0x80, CHR 0x80], [CHR 0xE2, CHR 0x80, CHR 0x81], [CHR 0xE2, CHR 0x80, CHR 0x82],
     [CHR 0xE2, CHR 0x80, CHR 0x83], [CHR 0xE2, CHR 0x80, CHR 0x84], [CHR 0xE2, CHR 0x80, CHR 0x85],
     [CHR 0xE2, CHR 0x80, CHR 0x86], [CHR 0xE2, CHR 0x80, CHR 0x87], [CHR 0xE2, CHR 0x80, CHR 0x88],
     [CHR 0xE2, CHR 0x80, CHR 0x89], [CHR 0xE2, CHR 0x80, CHR 0x8A], [CHR 0xE2, CHR 0x80, CHR 0xA8],
     [CHR 0xE2, CHR 0x80, CHR 0xA9], [CHR 0xE2, CHR 0x80, CHR 0xAF], [CHR 0xE2, CHR 0x81, CHR 0x9F],
     [CHR 0xE3, CHR 0x80, CHR 0x80]]"

fun strip_one :: "string list \<Rightarrow> string \<Rightarrow> string option" where
  "strip_one [] s = None"
| "strip_one (p # ps) s =
     (if p \<noteq> [] \<and> prefix p s then Some (drop (length p) s) else strip_one ps s)"

lemma strip_one_shorter: "strip_one ps s = Some t \<Longrightarrow> length t < length s"
  by (induction ps) (auto split: if_splits simp: prefix_def)

lemma strip_one_suffix: "strip_one ps s = Some t \<Longrightarrow> suffix t s"
  by (induction ps) (auto split: if_splits simp: suffix_drop)

lemma strip_one_None: "strip_one ps s = None \<longleftrightarrow> (\<forall>p \<in> set ps. p \<noteq> [] \<longrightarrow> \<not> prefix p s)"
  by (induction ps) auto

function strip_front :: "string list \<Rightarrow> string \<Rightarrow> string" where
  "strip_front ps s = (case strip_one ps s of None \<Rightarrow> s | Some t \<Rightarrow> strip_front ps t)"
  by pat_completeness auto
termination
  by (relation "measure (\<lambda>(ps, s). length s)") (auto dest: strip_one_shorter)

declare strip_front.simps [simp del]

definition strip_back :: "string list \<Rightarrow> string \<Rightarrow> string" where
  "strip_back ps s = rev (strip_front (map rev ps) (rev s))"

definition TrimSpace :: "string \<Rightarrow> string" where
  "TrimSpace s = strip_back white_space (strip_front white_space s)"

lemma strip_front_done: "strip_one ps (strip_front ps s) = None"
proof (induction ps s rule: strip_front.induct)
  case (1 ps s)
  then show ?case
    by (cases "strip_one ps s") (simp_all add: strip_front.simps [of ps s])
qed

lemma strip_front_fixed: "strip_one ps s = None \<Longrightarrow> strip_front ps s = s"
  by (simp add: strip_front.simps [of ps s])

lemma strip_front_idem [simp]: "strip_front ps (strip_front ps s) = strip_front ps s"
  by (rule strip_front_fixed) (rule strip_front_done)

lemma strip_front_suffix: "suffix (strip_front ps s) s"
proof (induction ps s rule: strip_front.induct)
  case (1 ps s)
  show ?case
  proof (cases "strip_one ps s")
    case None
    then show ?thesis by (simp add: strip_front.simps [of ps s])
  next
    case (Some t)
    then have "suffix t s" by (rule strip_one_suffix)
    with 1 Some show ?thesis
      using suffix_order.trans [of "strip_front ps t" t s]
      by (simp add: strip_front.simps [of ps s])
  qed
qed

lemma strip_back_prefix: "prefix (strip_back ps s) s"
  using strip_front_suffix [of "map rev ps" "rev s"]
  by (simp add: strip_back_def suffix_to_prefix)

lemma strip_back_idem [simp]: "strip_back ps (strip_back ps s) = strip_back ps s"
  by (simp add: strip_back_def)

lemma TrimSpace_idem [simp]: "TrimSpace (TrimSpace s) = TrimSpace s"
proof -
  let ?t = "strip_front white_space s" and ?u = "TrimSpace s"
  have "strip_one white_space ?u = None"
    using strip_front_done [of white_space s] strip_back_prefix [of white_space ?t]
    by (auto simp: strip_one_None TrimSpace_def dest: prefix_order.trans)
  then have "strip_front white_space ?u = ?u"
    by (rule strip_front_fixed)
  then show ?thesis
    by (simp add: TrimSpace_def)
qed

lemma TrimSpace_Nil [simp]: "TrimSpace [] = []"
  by (simp add: TrimSpace_def strip_back_def strip_front.simps white_space_def)

text \<open>
  \<open>strings.ToLower\<close>: on ASCII strings it maps \<open>A\<close>-\<open>Z\<close>; on the rest it consults the Unicode case
  tables, which are the parameter \<open>unicode\<close>.
\<close>

definition byte :: "char \<Rightarrow> nat" where
  "byte c = of_char c"

definition is_ascii :: "string \<Rightarrow> bool" where
  "is_ascii s \<longleftrightarrow> list_all (\<lambda>c. byte c < 128) s"

definition lower_byte :: "char \<Rightarrow> char" where
  "lower_byte c = (if 65 \<le> byte c \<and> byte c \<le> 90 then char_of (byte c + 32) else c)"

definition ToLower :: "(string \<Rightarrow> string) \<Rightarrow> string \<Rightarrow> string" where
  "ToLower unicode s = (if is_ascii s then map lower_byte s else unicode s)"

text \<open>\<open>strings.HasPrefix\<close>, \<open>strings.TrimSuffix\<close>.\<close>

definition TrimSuffix :: "string \<Rightarrow> string \<Rightarrow> string" where
  "TrimSuffix s p = (if suffix p s then take (length s - length p) s else s)"

text \<open>
  \<open>[]rune(s)\<close>: the UTF-8 decoder. \<open>rune_len\<close> is the length of the valid encoding at the head of the
  string, or 0; an invalid byte decodes to U+FFFD, whose encoding is \<open>replacement\<close>.
\<close>

definition cont :: "nat \<Rightarrow> nat \<Rightarrow> string \<Rightarrow> nat \<Rightarrow> bool" where
  "cont lo hi s i \<longleftrightarrow> i < length s \<and> lo \<le> byte (s ! i) \<and> byte (s ! i) \<le> hi"

definition rune_len :: "string \<Rightarrow> nat" where
  "rune_len s = (case s of [] \<Rightarrow> 0 | c # _ \<Rightarrow>
     let b = byte c in
     if b < 128 then 1
     else if 0xC2 \<le> b \<and> b \<le> 0xDF \<and> cont 0x80 0xBF s 1 then 2
     else if b = 0xE0 \<and> cont 0xA0 0xBF s 1 \<and> cont 0x80 0xBF s 2 then 3
     else if b = 0xED \<and> cont 0x80 0x9F s 1 \<and> cont 0x80 0xBF s 2 then 3
     else if 0xE1 \<le> b \<and> b \<le> 0xEF \<and> b \<noteq> 0xED \<and> cont 0x80 0xBF s 1 \<and> cont 0x80 0xBF s 2 then 3
     else if b = 0xF0 \<and> cont 0x90 0xBF s 1 \<and> cont 0x80 0xBF s 2 \<and> cont 0x80 0xBF s 3 then 4
     else if 0xF1 \<le> b \<and> b \<le> 0xF3 \<and> cont 0x80 0xBF s 1 \<and> cont 0x80 0xBF s 2 \<and> cont 0x80 0xBF s 3 then 4
     else if b = 0xF4 \<and> cont 0x80 0x8F s 1 \<and> cont 0x80 0xBF s 2 \<and> cont 0x80 0xBF s 3 then 4
     else 0)"

definition replacement :: string where
  "replacement = [CHR 0xEF, CHR 0xBF, CHR 0xBD]"

function runes :: "string \<Rightarrow> string list" where
  "runes s =
     (if s = [] then []
      else if rune_len s = 0 then replacement # runes (drop 1 s)
      else take (rune_len s) s # runes (drop (rune_len s) s))"
  by pat_completeness auto
termination
  by (relation "measure length") auto

declare runes.simps [simp del]

text \<open>\<open>utf8.ValidString\<close>: no rune is a replacement for an invalid byte.\<close>

definition ValidString :: "string \<Rightarrow> bool" where
  "ValidString s \<longleftrightarrow> concat (runes s) = s"

text \<open>\<open>fmt.Sprint\<close> of an integer, in decimal.\<close>

definition digit :: "nat \<Rightarrow> char" where
  "digit d = char_of (48 + d)"

fun show_nat :: "nat \<Rightarrow> string" where
  "show_nat n = (if n < 10 then [digit n] else show_nat (n div 10) @ [digit (n mod 10)])"

declare show_nat.simps [simp del]

definition show_int :: "int \<Rightarrow> string" where
  "show_int i = (if i < 0 then CHR ''-'' # show_nat (nat (- i)) else show_nat (nat i))"

lemma byte_digit: "d < 10 \<Longrightarrow> byte (digit d) = 48 + d"
  by (simp add: byte_def digit_def)

lemma digit_inj: "m < 10 \<Longrightarrow> n < 10 \<Longrightarrow> digit m = digit n \<longleftrightarrow> m = n"
  by (metis byte_digit add_left_imp_eq)

lemma show_nat_bytes: "c \<in> set (show_nat n) \<Longrightarrow> 48 \<le> byte c \<and> byte c < 58"
proof (induction n rule: show_nat.induct)
  case (1 n)
  then show ?case
    by (cases "n < 10") (auto simp: show_nat.simps [of n] byte_digit)
qed

lemma show_nat_inj: "show_nat m = show_nat n \<Longrightarrow> m = n"
proof (induction m arbitrary: n rule: show_nat.induct)
  case (1 m)
  have ne: "show_nat k \<noteq> []" for k
    by (simp add: show_nat.simps [of k])
  show ?case
  proof (cases "m < 10")
    case True
    with "1.prems" ne [of "n div 10"] have "n < 10"
      by (auto simp: show_nat.simps [of m] show_nat.simps [of n] split: if_splits)
    with True "1.prems" show ?thesis
      by (simp add: show_nat.simps [of m] show_nat.simps [of n] digit_inj)
  next
    case False
    with "1.prems" ne [of "m div 10"] have n: "\<not> n < 10"
      by (auto simp: show_nat.simps [of m] show_nat.simps [of n] split: if_splits)
    with False "1.prems" have "show_nat (m div 10) = show_nat (n div 10)"
      and "digit (m mod 10) = digit (n mod 10)"
      by (auto simp: show_nat.simps [of m] show_nat.simps [of n])
    with "1.IH" [OF False] have "m div 10 = n div 10" and "m mod 10 = n mod 10"
      by (auto simp: digit_inj)
    then show ?thesis
      by (metis div_mult_mod_eq)
  qed
qed

lemma show_int_inj: "show_int i = show_int j \<Longrightarrow> i = j"
proof -
  assume eq: "show_int i = show_int j"
  have minus: "CHR ''-'' # s \<noteq> show_nat n" for s n
    using show_nat_bytes [of "CHR ''-''" n] by (auto simp: byte_def dest: sym)
  from eq minus [of "show_nat (nat (- i))" "nat j"] minus [of "show_nat (nat (- j))" "nat i"]
  show ?thesis
    by (auto simp: show_int_def split: if_splits dest!: show_nat_inj)
qed

lemma show_int_no_underscore: "CHR ''_'' \<notin> set (show_int i)"
  using show_nat_bytes [of "CHR ''_''"] by (auto simp: show_int_def byte_def)

section \<open>Fresh identities\<close>

text \<open>
  \<open>app.NewID\<close> in \<open>internal/app/ids.go\<close>: the prefix, an underscore and 8 random bytes in hexadecimal. The
  outcome of \<open>rand.Read\<close> is the argument: \<open>None\<close> is its error.
\<close>

definition hex_digit :: "nat \<Rightarrow> char" where
  "hex_digit d = (if d < 10 then char_of (48 + d) else char_of (87 + d))"

definition hex_encode :: "8 word list \<Rightarrow> string" where
  "hex_encode bs = concat (map (\<lambda>b. [hex_digit (unat b div 16), hex_digit (unat b mod 16)]) bs)"

definition NewID :: "8 word list option \<Rightarrow> string \<Rightarrow> string" where
  "NewID random p = (case random of
     None \<Rightarrow> p @ ''_fallback''
   | Some b \<Rightarrow> TrimSuffix p ''_'' @ ''_'' @ hex_encode b)"

lemma NewID_nonempty [simp]: "NewID random p \<noteq> []"
  by (simp add: NewID_def split: option.splits)

section \<open>Maps\<close>

text \<open>
  A Go map is an association list with distinct keys. The position of an entry stands for the
  unspecified iteration order of \<open>range\<close>; results that must not depend on it are proved not to.
\<close>

type_synonym ('k, 'v) gomap = "('k \<times> 'v) list"

abbreviation mget :: "('k, 'v) gomap \<Rightarrow> 'k \<Rightarrow> 'v option" where
  "mget m k \<equiv> map_of m k"

abbreviation mput :: "'k \<Rightarrow> 'v \<Rightarrow> ('k, 'v) gomap \<Rightarrow> ('k, 'v) gomap" where
  "mput k v m \<equiv> AList.update k v m"

definition mvals :: "('k, 'v) gomap \<Rightarrow> 'v list" where
  "mvals m = map snd m"

lemma mvals_simps [simp]: "mvals [] = []" "mvals ((k, v) # m) = v # mvals m"
  by (simp_all add: mvals_def)

definition keyed :: "('r \<Rightarrow> 'k) \<Rightarrow> ('k, 'r) gomap \<Rightarrow> bool" where
  "keyed rid m \<longleftrightarrow> distinct (map fst m) \<and> (\<forall>(k, r) \<in> set m. rid r = k)"

lemma mget_mput: "mget (mput k v m) x = (if x = k then Some v else mget m x)"
  by (simp add: AList.update_conv')

lemma mget_mput_same [simp]: "mget (mput k v m) k = Some v"
  by (simp add: mget_mput)

lemma mget_mput_other [simp]: "x \<noteq> k \<Longrightarrow> mget (mput k v m) x = mget m x"
  by (simp add: mget_mput)

lemma keyed_Nil [simp]: "keyed rid []"
  by (simp add: keyed_def)

lemma keyed_get: "keyed rid m \<Longrightarrow> mget m k = Some r \<Longrightarrow> rid r = k"
  by (auto simp: keyed_def dest!: map_of_SomeD)

lemma keyed_vals: "keyed rid m \<Longrightarrow> r \<in> set (mvals m) \<longleftrightarrow> mget m (rid r) = Some r"
proof
  assume k: "keyed rid m" and "r \<in> set (mvals m)"
  then obtain key where "(key, r) \<in> set m" by (auto simp: mvals_def)
  with k show "mget m (rid r) = Some r"
    by (auto simp: keyed_def)
next
  assume "mget m (rid r) = Some r"
  then show "r \<in> set (mvals m)"
    by (force simp: mvals_def dest!: map_of_SomeD)
qed

lemma keyed_put: "keyed rid m \<Longrightarrow> rid r = k \<Longrightarrow> keyed rid (mput k r m)"
proof -
  assume "keyed rid m" and k: "rid r = k"
  then have d: "distinct (map fst m)" and m: "\<forall>(k, r) \<in> set m. rid r = k"
    by (auto simp: keyed_def)
  have "rid r' = k'" if "(k', r') \<in> set (mput k r m)" for k' r'
    using that d m k
    by (induction m) (auto split: if_splits)
  then show ?thesis
    using d by (auto simp: keyed_def AList.distinct_update)
qed

lemma keyed_distinct_vals: "keyed rid m \<Longrightarrow> distinct (map rid (mvals m))"
proof -
  assume k: "keyed rid m"
  then have "map rid (mvals m) = map fst m"
    by (auto simp: keyed_def mvals_def)
  moreover from k have "distinct (map fst m)"
    by (simp add: keyed_def)
  ultimately show ?thesis
    by (simp only:)
qed

lemma vals_put: "keyed rid m \<Longrightarrow> rid r = k \<Longrightarrow> x \<in> set (mvals (mput k r m)) \<longleftrightarrow> x = r \<or> (rid x \<noteq> k \<and> x \<in> set (mvals m))"
  using keyed_vals [of rid m x] keyed_vals [OF keyed_put, of rid m r k x] by (auto simp: mget_mput)

lemma all_vals_put:
  assumes "keyed rid m" and "\<forall>x \<in> set (mvals m). P x" and "P r"
  shows "\<forall>x \<in> set (mvals (mput (rid r) r m)). P x"
  using assms(2,3) by (auto simp: vals_put [OF assms(1) refl])

end
