(* ===== verification/App_Types.thy ===== *)
theory App_Types
  imports Complex_Main Go_Prelude
begin

text \<open>
  The data of \<open>internal/app\<close> that the modelled components exchange, field by field: tools and policy
  facts, approvals and their input forms, runs with their model calls, tool calls, feedback and
  episodes, reminders with their schedule, messages and deliveries. The string enumerations of the
  code stay strings, with an abbreviation for each constant the modelled code uses; pointers are
  options; a nil and an empty slice are identified, because the modelled code normalises one to the
  other or never tells them apart. Go integers are \<open>int\<close>; where the code computes with them the
  component writes the wrap-around out. \<open>goany\<close> is the part of \<open>any\<close> that reaches the modelled code.
\<close>

section \<open>Dynamic values\<close>

record VerifierDecision =
  vd_Verdict :: string
  vd_RiskLevel :: string
  vd_Lane :: string
  vd_Reason :: string
  vd_RequiredUserConfirmation :: bool
  vd_SafeNextAction :: string
  vd_CreatedAt :: gotime

text \<open>
  \<open>AnyStrings\<close> is a Go \<open>[]string\<close>, \<open>AnySlice\<close> a \<open>[]any\<close>, \<open>AnyMap\<close> a \<open>map[string]any\<close>. Numbers are
  taken to be representable as \<open>float64\<close>, which is how \<open>encoding/json\<close> decodes them.
\<close>

datatype goany =
    AnyNil
  | AnyBool bool
  | AnyNumber rat
  | AnyString string
  | AnyStrings "string list"
  | AnySlice "goany list"
  | AnyMap "(string \<times> goany) list"
  | AnyTime gotime
  | AnyVerifier VerifierDecision

section \<open>Tools and policy facts\<close>

abbreviation RiskRead :: string where "RiskRead \<equiv> ''read''"
abbreviation RiskDraft :: string where "RiskDraft \<equiv> ''draft''"
abbreviation RiskReversible :: string where "RiskReversible \<equiv> ''reversible''"
abbreviation RiskDangerous :: string where "RiskDangerous \<equiv> ''dangerous''"

abbreviation PolicyPrincipalExternalMCPAI :: string where
  "PolicyPrincipalExternalMCPAI \<equiv> ''external_mcp_ai''"
abbreviation PolicyResourceSparkClawWorkspaceData :: string where
  "PolicyResourceSparkClawWorkspaceData \<equiv> ''sparkclaw_workspace_data''"
abbreviation PolicyDeliveryExternalEndpoint :: string where
  "PolicyDeliveryExternalEndpoint \<equiv> ''external_endpoint''"

record MessageAuthorization =
  au_PrincipalID :: string
  au_Scope :: "string list"

record ReturnRoute =
  rr_Mode :: string
  rr_SourceEndpointID :: string
  rr_EndpointID :: string
  rr_SourceAdmitted :: bool

record MCPInvocationRef =
  mi_InvocationID :: string
  mi_OperationID :: string
  mi_BindingRef :: string
  mi_BindingRevision :: int
  mi_RequesterDeviceID :: string

record PolicyExecutionContext =
  pe_SchemaVersion :: int
  pe_PrincipalClass :: string
  pe_ResourceClass :: string
  pe_AccessClass :: string
  pe_RunID :: string
  pe_OwnerID :: string
  pe_Authorization :: MessageAuthorization
  pe_WorkflowID :: string
  pe_WorkflowRevision :: int
  pe_PlanDigest :: string
  pe_MCP :: "MCPInvocationRef option"
  pe_ReturnRoute :: ReturnRoute
  pe_OutputClass :: string
  pe_ContractDigest :: string
  pe_DeliveryClass :: string

text \<open>
  The declarative metadata of a tool (capabilities, outcome adapter, directory entry) is kept as
  dynamic values: policy never reads it.
\<close>

record ToolDefinition =
  td_Name :: string
  td_Title :: string
  td_Description :: string
  td_InputSchema :: "(string, goany) gomap"
  td_OutputSchema :: "(string, goany) gomap"
  td_Annotations :: "(string, goany) gomap"
  td_Risk :: string
  td_RequiresApproval :: bool
  td_ArgumentsImmutable :: bool
  td_Idempotent :: bool
  td_TimeoutMS :: int
  td_Sandbox :: string
  td_Audit :: string
  td_Capabilities :: "goany list"
  td_OutcomeAdapter :: goany
  td_Directory :: goany

section \<open>Runs\<close>

abbreviation ToolCallStatusCompleted :: string where "ToolCallStatusCompleted \<equiv> ''completed''"
abbreviation ToolCallStatusCompletedAfterApproval :: string where
  "ToolCallStatusCompletedAfterApproval \<equiv> ''completed_after_approval''"
abbreviation ToolCallStatusFailed :: string where "ToolCallStatusFailed \<equiv> ''failed''"
abbreviation ToolCallStatusFailedAfterApproval :: string where
  "ToolCallStatusFailedAfterApproval \<equiv> ''failed_after_approval''"

record ToolCall =
  tc_ID :: string
  tc_SessionID :: string
  tc_RunID :: string
  tc_Tool :: string
  tc_Risk :: string
  tc_Status :: string
  tc_Arguments :: goany
  tc_Result :: goany
  tc_Error :: string
  tc_ErrorCode :: string
  tc_ApprovalID :: string
  tc_StartedAt :: gotime
  tc_CompletedAt :: "gotime option"
  tc_ObservationRef :: string
  tc_ObservationSummary :: string
  tc_WorkflowID :: string
  tc_WorkflowNodeID :: string
  tc_ScopeRevision :: int
  tc_Capability :: string
  tc_PolicyContext :: "PolicyExecutionContext option"
  tc_Progress :: string

text \<open>
  The message context and the workflow state of a run belong to the agent runtime; the store copies
  them as JSON documents, so they are dynamic values here.
\<close>

record AgentRun =
  ru_ID :: string
  ru_SessionID :: string
  ru_State :: string
  ru_ModelLane :: string
  ru_Risk :: string
  ru_StartedAt :: gotime
  ru_CompletedAt :: "gotime option"
  ru_Summary :: string
  ru_MessageContext :: goany
  ru_Workflow :: goany

abbreviation ModelCallStatusFailed :: string where "ModelCallStatusFailed \<equiv> ''failed''"

record ModelCall =
  mc_ID :: string
  mc_SessionID :: string
  mc_RunID :: string
  mc_Lane :: string
  mc_Profile :: string
  mc_Model :: string
  mc_Operation :: string
  mc_Mock :: bool
  mc_Status :: string
  mc_PromptTokens :: int
  mc_ResponseTokens :: int
  mc_TotalTokens :: int
  mc_LatencyMS :: int
  mc_Error :: string
  mc_StartedAt :: gotime
  mc_CompletedAt :: "gotime option"

record ModelCallStatsRecord =
  ms_Count :: int
  ms_FailedCount :: int
  ms_LatencyMSTotal :: int
  ms_TotalTokens :: int

record RunFeedback =
  fb_ID :: string
  fb_SessionID :: string
  fb_RunID :: string
  fb_MessageID :: string
  fb_Rating :: string
  fb_Note :: string
  fb_Correction :: string
  fb_CreatedAt :: gotime
  fb_UpdatedAt :: gotime

record EpisodeSummary =
  ep_ID :: string
  ep_SessionID :: string
  ep_RunID :: string
  ep_Goal :: string
  ep_Outcome :: string
  ep_Risk :: string
  ep_ModelLane :: string
  ep_Tools :: "string list"
  ep_Approvals :: "string list"
  ep_Failures :: "string list"
  ep_RepairPerformed :: bool
  ep_Summary :: string
  ep_CreatedAt :: gotime

section \<open>Approvals and their input forms\<close>

abbreviation ApprovalStatusPending :: string where "ApprovalStatusPending \<equiv> ''pending''"
abbreviation ApprovalStatusApproved :: string where "ApprovalStatusApproved \<equiv> ''approved''"
abbreviation ApprovalStatusRejected :: string where "ApprovalStatusRejected \<equiv> ''rejected''"
abbreviation ApprovalStatusResolvedElsewhere :: string where
  "ApprovalStatusResolvedElsewhere \<equiv> ''resolved_elsewhere''"

abbreviation ApprovalSourceTool :: string where "ApprovalSourceTool \<equiv> ''tool''"
abbreviation ApprovalSourceHappyTeamPlan :: string where "ApprovalSourceHappyTeamPlan \<equiv> ''happy_team_plan''"

abbreviation (input) ApprovalInputSchemaVersion :: int where "ApprovalInputSchemaVersion \<equiv> 1"
abbreviation (input) ApprovalInputMaxBytes :: nat where "ApprovalInputMaxBytes \<equiv> 32768"

abbreviation ApprovalInputText :: string where "ApprovalInputText \<equiv> ''text''"
abbreviation ApprovalInputNumber :: string where "ApprovalInputNumber \<equiv> ''number''"
abbreviation ApprovalInputSelect :: string where "ApprovalInputSelect \<equiv> ''select''"
abbreviation ApprovalInputDateOrNone :: string where "ApprovalInputDateOrNone \<equiv> ''date_or_none''"

text \<open>A \<open>float64\<close>: a number or one of the values JSON cannot carry.\<close>

datatype gofloat = Finite rat | NaN | PosInf | NegInf

record ApprovalInputOption =
  io_Value :: string
  io_Label :: string

record ApprovalInputField =
  if_Name :: string
  if_Label :: string
  if_Type :: string
  if_Required :: bool
  if_Options :: "ApprovalInputOption list"
  if_Min :: "gofloat option"
  if_Max :: "gofloat option"
  if_MaxLength :: int

record ApprovalInputEntry =
  ie_ID :: string
  ie_Label :: string
  ie_Summary :: string
  ie_Fields :: "ApprovalInputField list"

record ApprovalInputForm =
  af_SchemaVersion :: int
  af_Entries :: "ApprovalInputEntry list"

type_synonym ApprovalInputValues = "(string, (string, goany) gomap) gomap"

record ApprovalInputSubmission =
  is_Digest :: string
  is_SchemaVersion :: int
  is_Inputs :: ApprovalInputValues

record ExternalApprovalContext =
  ec_Provider :: string
  ec_Title :: string
  ec_GoalPrompt :: string
  ec_Plan :: string
  ec_PlanAvailability :: string
  ec_PlanEdited :: bool

record MessageMediaLocator =
  ml_Path :: string
  ml_Name :: string
  ml_Query :: string
  ml_Caption :: string

record ApprovalPresentation =
  pr_Kind :: string
  pr_SessionID :: string
  pr_Requester :: string
  pr_Locators :: "MessageMediaLocator list"
  pr_LocatorStatus :: string
  pr_AccessClass :: string
  pr_OutputClass :: string
  pr_ReturnRoute :: ReturnRoute
  pr_Scope :: string

record Approval =
  ap_InputForm :: "ApprovalInputForm option"
  ap_InputFormDigest :: string
  ap_InputValues :: ApprovalInputValues
  ap_InputsDigest :: string
  ap_ID :: string
  ap_Source :: string
  ap_ExternalID :: string
  ap_ExternalContext :: "ExternalApprovalContext option"
  ap_SessionID :: string
  ap_RunID :: string
  ap_ToolCallID :: string
  ap_Tool :: string
  ap_Risk :: string
  ap_Status :: string
  ap_Summary :: string
  ap_Reason :: string
  ap_Resources :: "string list"
  ap_Arguments :: "(string, goany) gomap"
  ap_ArgumentsImmutable :: bool
  ap_CreatedAt :: gotime
  ap_ResolvedAt :: "gotime option"
  ap_ResolutionNote :: string
  ap_PolicyContext :: "PolicyExecutionContext option"
  ap_Presentation :: "ApprovalPresentation option"

section \<open>Messages, schedules and deliveries\<close>

record ResourceRef =
  rs_Kind :: string
  rs_Ref :: string
  rs_Provenance :: string
  rs_Attributes :: "(string, string) gomap"

record MessagePart =
  mp_ID :: string
  mp_Kind :: string
  mp_Disposition :: string
  mp_Text :: string
  mp_ArtifactID :: string
  mp_Resource :: "ResourceRef option"
  mp_Name :: string
  mp_ContentType :: string
  mp_Bytes :: int
  mp_Width :: int
  mp_Height :: int
  mp_SHA256 :: string
  mp_Caption :: string
  mp_DerivedFromPartID :: string

record MessageContent =
  ct_Parts :: "MessagePart list"

record SchedulePayload =
  sp_Content :: MessageContent

record ScheduleSpec =
  ss_WorkbenchOwned :: bool
  ss_SchemaVersion :: int
  ss_OwnerID :: string
  ss_ActorID :: string
  ss_Payload :: SchedulePayload
  ss_ReturnRoute :: ReturnRoute
  ss_Authorization :: MessageAuthorization

record Reminder =
  rm_ID :: string
  rm_SessionID :: string
  rm_RunID :: string
  rm_Text :: string
  rm_TextSummary :: string
  rm_DueTime :: gotime
  rm_Timezone :: string
  rm_Channel :: string
  rm_Recipient :: string
  rm_RecipientBinding :: string
  rm_BindingID :: string
  rm_CredentialRef :: string
  rm_BaseURL :: string
  rm_Recurrence :: string
  rm_DedupeKey :: string
  rm_Status :: string
  rm_LastDeliveryID :: string
  rm_LastError :: string
  rm_CreatedAt :: gotime
  rm_UpdatedAt :: gotime
  rm_SentAt :: "gotime option"
  rm_CanceledAt :: "gotime option"
  rm_DeliveryAttempt :: int
  rm_ScheduleSpec :: "ScheduleSpec option"

record ReminderFilter =
  rf_WorkbenchOnly :: bool
  rf_Status :: string
  rf_From :: "gotime option"
  rf_To :: "gotime option"
  rf_Limit :: int

record ReminderDelivery =
  rd_ID :: string
  rd_ReminderID :: string
  rd_Channel :: string
  rd_Provider :: string
  rd_Recipient :: string
  rd_Status :: string
  rd_ProviderStatus :: string
  rd_Error :: string
  rd_RetryState :: string
  rd_Attempt :: int
  rd_SentAt :: gotime
  rd_CreatedAt :: gotime

record WorkflowResultError =
  we_Code :: string
  we_Message :: string
  we_Retryable :: bool

record DeliveryRequest =
  dq_SchemaVersion :: int
  dq_ID :: string
  dq_IdempotencyKey :: string
  dq_ResultID :: string
  dq_ResultStatus :: string
  dq_ResultError :: "WorkflowResultError option"
  dq_RunID :: string
  dq_OwnerID :: string
  dq_ActorID :: string
  dq_Authorization :: MessageAuthorization
  dq_Target :: string
  dq_Content :: MessageContent
  dq_Origin :: string
  dq_SourceAdmitted :: bool
  dq_ApprovalSource :: string
  dq_ContentDigest :: string
  dq_CreatedAt :: gotime
  dq_MCP :: "MCPInvocationRef option"

record PartDeliveryReceipt =
  pd_PartID :: string
  pd_Status :: string
  pd_Representation :: string
  pd_ProviderRef :: string
  pd_ErrorCode :: string

record DeliveryReceipt =
  dr_DeliveryID :: string
  dr_EndpointID :: string
  dr_Status :: string
  dr_ProviderRef :: string
  dr_Error :: string
  dr_ErrorCode :: string
  dr_RetryState :: string
  dr_Attempt :: int
  dr_PartReceipts :: "PartDeliveryReceipt list"
  dr_AttemptedAt :: gotime
  dr_DeliveredAt :: "gotime option"

record DeliveryTargetSelection =
  ts_Status :: string
  ts_RequestedProviderKey :: string
  ts_RequestedRecipientText :: string
  ts_CandidateEndpointIDs :: "string list"
  ts_ResolvedEndpointID :: string
  ts_ResolutionRule :: string

record MessageLifecycleTransition =
  lt_Status :: string
  lt_At :: gotime

record MessageReceiveRecord =
  mr_ID :: string
  mr_Direction :: string
  mr_OwnerID :: string
  mr_ActorID :: string
  mr_ProviderKey :: string
  mr_SourceEndpointID :: string
  mr_NativeMessageID :: string
  mr_Status :: string
  mr_Transitions :: "MessageLifecycleTransition list"
  mr_LinkedMessageID :: string
  mr_LinkedRunID :: string
  mr_SoftwareDisplayName :: string
  mr_RecipientDisplayName :: string
  mr_AccountDisplayName :: string
  mr_CreatedAt :: gotime
  mr_UpdatedAt :: gotime

record MessageDeliveryRecord =
  md_ID :: string
  md_Direction :: string
  md_OwnerID :: string
  md_ActorID :: string
  md_Origin :: string
  md_Request :: DeliveryRequest
  md_TargetSelection :: DeliveryTargetSelection
  md_Status :: string
  md_ApprovalSource :: string
  md_ContentDigest :: string
  md_Receipt :: "DeliveryReceipt option"
  md_Attempts :: int
  md_SoftwareDisplayName :: string
  md_RecipientDisplayName :: string
  md_AccountDisplayName :: string
  md_CreatedAt :: gotime
  md_UpdatedAt :: gotime

record ChannelInboxUpdate =
  iu_ID :: string
  iu_BindingID :: string
  iu_Channel :: string
  iu_ExternalID :: string
  iu_ChatKey :: string
  iu_Payload :: string
  iu_Status :: string
  iu_Attempts :: int
  iu_AvailableAt :: gotime
  iu_LastError :: string
  iu_CreatedAt :: gotime
  iu_UpdatedAt :: gotime

section \<open>The log\<close>

record AuditEvent =
  ae_ID :: string
  ae_Time :: gotime
  ae_Type :: string
  ae_SessionID :: string
  ae_RunID :: string
  ae_Actor :: string
  ae_Summary :: string
  ae_Fields :: "(string, goany) gomap"

record Session =
  se_ID :: string
  se_OwnerID :: string
  se_WorkspaceRoot :: string
  se_Title :: string
  se_Source :: string
  se_Hidden :: bool
  se_CreatedAt :: gotime
  se_UpdatedAt :: gotime

record MessageAttachment =
  at_ArtifactID :: string
  at_Name :: string
  at_RelPath :: string
  at_URI :: string
  at_ContentType :: string
  at_Bytes :: int
  at_Width :: int
  at_Height :: int
  at_SHA256 :: string
  at_Source :: string
  at_Caption :: string
  at_Summary :: string

text \<open>The clarification record of a message is carried as its value.\<close>

record Message =
  msg_ID :: string
  msg_SessionID :: string
  msg_Role :: string
  msg_Content :: string
  msg_CreatedAt :: gotime
  msg_RunID :: string
  msg_Attachments :: "MessageAttachment list"
  msg_RequestedMedia :: "MessageMediaLocator list"
  msg_FilesUnavailable :: bool
  msg_Clarification :: "goany option"

record ExternalChatSession =
  cs_ID :: string
  cs_OwnerID :: string
  cs_AuthorizedOwnerID :: string
  cs_AuthorizedActorID :: string
  cs_WorkspaceRoot :: string
  cs_BindingID :: string
  cs_Channel :: string
  cs_Provider :: string
  cs_ExternalUserID :: string
  cs_ExternalChatID :: string
  cs_ExternalThreadID :: string
  cs_DisplayName :: string
  cs_LinkedSessionID :: string
  cs_Status :: string
  cs_ProviderCursor :: string
  cs_LastContextToken :: string
  cs_CreatedAt :: gotime
  cs_UpdatedAt :: gotime

record ExternalChatMessage =
  cm_ID :: string
  cm_ChatSessionID :: string
  cm_BindingID :: string
  cm_Channel :: string
  cm_Direction :: string
  cm_Role :: string
  cm_ExternalMessageID :: string
  cm_Content :: string
  cm_ContextToken :: string
  cm_LinkedRunID :: string
  cm_Status :: string
  cm_Error :: string
  cm_PendingReplyKind :: string
  cm_PendingReply :: string
  cm_DispatchAttempts :: int
  cm_CreatedAt :: gotime
  cm_UpdatedAt :: gotime

record NotificationBinding =
  nb_ID :: string
  nb_OwnerID :: string
  nb_ActorID :: string
  nb_Channel :: string
  nb_Provider :: string
  nb_Status :: string
  nb_DisplayName :: string
  nb_ExternalUserID :: string
  nb_ExternalChatID :: string
  nb_ExternalThreadID :: string
  nb_AccountID :: string
  nb_CredentialRef :: string
  nb_BaseURL :: string
  nb_ProviderSessionID :: string
  nb_ProviderState :: string
  nb_ContextToken :: string
  nb_ProviderCursor :: string
  nb_QRCodeURL :: string
  nb_QRCodeImage :: string
  nb_DefaultForChannel :: bool
  nb_Scopes :: "string list"
  nb_CreatedAt :: gotime
  nb_UpdatedAt :: gotime
  nb_ExpiresAt :: "gotime option"
  nb_RevokedAt :: "gotime option"
  nb_LastError :: string
  nb_Version :: int
  nb_CredentialKind :: string

abbreviation (input) NotificationBindingStarting :: string where "NotificationBindingStarting \<equiv> ''starting''"
abbreviation (input) NotificationBindingWaitingScan :: string where "NotificationBindingWaitingScan \<equiv> ''waiting_scan''"
abbreviation (input) NotificationBindingWaitingConfirm :: string where "NotificationBindingWaitingConfirm \<equiv> ''waiting_confirm''"
abbreviation (input) NotificationBindingCredentialPending :: string where "NotificationBindingCredentialPending \<equiv> ''credential_pending''"
abbreviation (input) NotificationBindingActive :: string where "NotificationBindingActive \<equiv> ''active''"
abbreviation (input) NotificationBindingRevoking :: string where "NotificationBindingRevoking \<equiv> ''revoking''"
abbreviation (input) NotificationBindingFailed :: string where "NotificationBindingFailed \<equiv> ''failed''"
abbreviation (input) NotificationBindingExpired :: string where "NotificationBindingExpired \<equiv> ''expired''"
abbreviation (input) NotificationBindingRevoked :: string where "NotificationBindingRevoked \<equiv> ''revoked''"

record ConnectorSetting =
  kn_OwnerID :: string
  kn_Channel :: string
  kn_Enabled :: bool
  kn_ISCPEnabled :: bool
  kn_LANAccessEnabled :: bool
  kn_Version :: int
  kn_UpdatedBy :: string
  kn_UpdatedAt :: gotime

text \<open>The payload of a store event: a value of one of the types the modelled operations publish.\<close>

datatype payload =
    PApproval Approval
  | PRun AgentRun
  | PModelCall ModelCall
  | PToolCall ToolCall
  | PRunFeedback RunFeedback
  | PEpisodeSummary EpisodeSummary
  | PReminder Reminder
  | PReminderDelivery ReminderDelivery
  | PAudit AuditEvent
  | PSession Session
  | PMessage Message
  | PConnectorSetting ConnectorSetting
  | PNotificationBinding NotificationBinding
  | PExternalChatSession ExternalChatSession
  | PExternalChatMessage ExternalChatMessage
  | POther goany

record Event =
  ev_ID :: string
  ev_Time :: gotime
  ev_Type :: string
  ev_SessionID :: string
  ev_RunID :: string
  ev_Payload :: payload

section \<open>Tool-call outcomes\<close>

definition Completed :: "string \<Rightarrow> bool" where
  "Completed s \<longleftrightarrow> s = ToolCallStatusCompleted \<or> s = ToolCallStatusCompletedAfterApproval"

definition Failed :: "string \<Rightarrow> bool" where
  "Failed s \<longleftrightarrow> s = ToolCallStatusFailed \<or> s = ToolCallStatusFailedAfterApproval"

end
