(* ===== verification/Policy.thy ===== *)
theory Policy
  imports App_Types
begin

text \<open>
  The approval-first policy engine, \<open>internal/policy\<close>, with the part of the configuration it reads
  (\<open>SecurityConfig\<close> and \<open>OperatorToolControls\<close> of \<open>internal/config\<close>): static exposure, the decision for one
  invocation, the verifier's verdict and the resources an approval shows. The lemmas show that denial
  is absolute, that invocation facts only strengthen a decision and that tightening the configuration
  only tightens decisions.
\<close>

section \<open>Configuration\<close>

record OperatorToolControls =
  oc_WebAccess :: "bool option"
  oc_WorkspaceFiles :: "bool option"
  oc_ShellCommands :: "bool option"
  oc_FileChanges :: string
  oc_ExternalActions :: string

record SecurityConfig =
  sc_ExternalContentUntrusted :: bool
  sc_ApprovalRequiredForDangerousTools :: bool
  sc_SandboxRequiredForMutatingTools :: bool
  sc_DangerousToolsRequireDeepVerification :: bool
  sc_DeniedTools :: "string list"
  sc_ApprovalRequiredTools :: "string list"
  sc_ToolPolicyPath :: string
  sc_BrowserReadAllowHosts :: "string list"
  sc_OperatorControls :: OperatorToolControls

definition Validate_controls :: "OperatorToolControls \<Rightarrow> bool" where
  "Validate_controls controls \<longleftrightarrow>
     \<not> (oc_FileChanges controls \<noteq> '''' \<and> oc_FileChanges controls \<noteq> ''default'' \<and> oc_FileChanges controls \<noteq> ''ask'' \<or>
        oc_ExternalActions controls \<noteq> '''' \<and> oc_ExternalActions controls \<noteq> ''current'' \<and>
        oc_ExternalActions controls \<noteq> ''ask'' \<and> oc_ExternalActions controls \<noteq> ''block'')"

text \<open>The zero \<open>config.Config\<close> that an engine without a published snapshot answers from.\<close>

definition zero_security :: SecurityConfig where
  "zero_security =
     \<lparr>sc_ExternalContentUntrusted = False, sc_ApprovalRequiredForDangerousTools = False,
      sc_SandboxRequiredForMutatingTools = False, sc_DangerousToolsRequireDeepVerification = False,
      sc_DeniedTools = [], sc_ApprovalRequiredTools = [], sc_ToolPolicyPath = [],
      sc_BrowserReadAllowHosts = [],
      sc_OperatorControls = \<lparr>oc_WebAccess = None, oc_WorkspaceFiles = None, oc_ShellCommands = None,
        oc_FileChanges = [], oc_ExternalActions = []\<rparr>\<rparr>"

section \<open>Operator controls\<close>

definition hasToolPrefix :: "string \<Rightarrow> string list \<Rightarrow> bool" where
  "hasToolPrefix name ps \<longleftrightarrow> list_ex (\<lambda>p. prefix p name) ps"

definition isWorkspaceFileTool :: "string \<Rightarrow> bool" where
  "isWorkspaceFileTool name \<longleftrightarrow>
     hasToolPrefix name [''file.'', ''files.'', ''docx.'', ''xlsx.'', ''pptx.'', ''office.'']"

definition isExternalActionTool :: "string \<Rightarrow> bool" where
  "isExternalActionTool name \<longleftrightarrow>
     name = ''browser.click'' \<or> name = ''browser.type'' \<or> name = ''browser.select'' \<or>
     hasToolPrefix name [''email.send'', ''message.send'', ''publish.'']"

definition operatorAllows :: "ToolDefinition \<Rightarrow> OperatorToolControls \<Rightarrow> bool" where
  "operatorAllows def controls =
     (let name = td_Name def in
      if oc_WebAccess controls = Some False \<and> hasToolPrefix name [''web.'', ''browser.'', ''weather.''] then False
      else if oc_WorkspaceFiles controls = Some False \<and> isWorkspaceFileTool name then False
      else if oc_ShellCommands controls = Some False \<and> prefix ''shell.'' name then False
      else oc_ExternalActions controls \<noteq> ''block'' \<or> \<not> isExternalActionTool name)"

definition operatorNeedsApproval :: "ToolDefinition \<Rightarrow> OperatorToolControls \<Rightarrow> bool" where
  "operatorNeedsApproval def controls \<longleftrightarrow>
     oc_FileChanges controls = ''ask'' \<and> isWorkspaceFileTool (td_Name def) \<and> td_Risk def \<noteq> RiskRead \<or>
     oc_ExternalActions controls = ''ask'' \<and> isExternalActionTool (td_Name def)"

section \<open>Decisions\<close>

record Decision =
  de_Allowed :: bool
  de_RequiresApproval :: bool
  de_RequiresSandbox :: bool
  de_RequiresDeep :: bool
  de_Reason :: string
  de_Resources :: "string list"

text \<open>
  The engine holds an atomic pointer to the published snapshot; \<open>None\<close> is the engine without one.
  \<open>Update\<close> clones the slices and pointers of the configuration, which for values is the identity.
\<close>

type_synonym Engine = "SecurityConfig option"

definition Update :: "SecurityConfig \<Rightarrow> Engine \<Rightarrow> Engine" where
  "Update cfg e = Some cfg"

definition New_engine :: "SecurityConfig \<Rightarrow> Engine" where
  "New_engine cfg = Update cfg None"

definition snapshot :: "Engine \<Rightarrow> SecurityConfig" where
  "snapshot e = (case e of None \<Rightarrow> zero_security | Some cfg \<Rightarrow> cfg)"

definition refusal :: "string \<Rightarrow> Decision" where
  "refusal reason = \<lparr>de_Allowed = False, de_RequiresApproval = False, de_RequiresSandbox = False,
     de_RequiresDeep = False, de_Reason = reason, de_Resources = []\<rparr>"

definition MayExpose :: "Engine \<Rightarrow> ToolDefinition \<Rightarrow> Decision" where
  "MayExpose e def =
     (let cfg = snapshot e in
      if td_Name def \<in> set (sc_DeniedTools cfg) \<or> \<not> operatorAllows def (sc_OperatorControls cfg)
      then refusal ''tool is denied by static exposure policy''
      else (refusal ''tool is statically exposable'')\<lparr>de_Allowed := True\<rparr>)"

text \<open>The string at a key of the arguments, with its key, when it is a non-empty string.\<close>

definition named_resource :: "(string, goany) gomap \<Rightarrow> string \<Rightarrow> string list" where
  "named_resource args key = (case mget args key of
     Some (AnyString v) \<Rightarrow> if v \<noteq> [] then [key @ '':'' @ v] else []
   | _ \<Rightarrow> [])"

fun any_text :: "goany \<Rightarrow> string option" where
  "any_text (AnyString v) = Some v"
| "any_text v = None"

definition recipients :: "(string, goany) gomap \<Rightarrow> string list" where
  "recipients args = (case mget args ''to'' of
     Some (AnyStrings values) \<Rightarrow> map ((@) ''to:'') (filter (\<lambda>v. v \<noteq> []) values)
   | Some (AnySlice values) \<Rightarrow> map ((@) ''to:'') (filter (\<lambda>v. v \<noteq> []) (List.map_filter any_text values))
   | _ \<Rightarrow> [])"

definition resourcesFromArgs :: "(string, goany) gomap \<Rightarrow> string list" where
  "resourcesFromArgs args =
     concat (map (named_resource args)
       [''path'', ''root'', ''url'', ''command'', ''recipient'', ''subject'', ''title'']) @ recipients args"

text \<open>The guards of \<open>Decide\<close>, each an \<open>if\<close> of the code.\<close>

definition base_approval :: "SecurityConfig \<Rightarrow> ToolDefinition \<Rightarrow> bool" where
  "base_approval cfg def \<longleftrightarrow>
     td_RequiresApproval def \<or> td_Name def \<in> set (sc_ApprovalRequiredTools cfg) \<or>
     td_Risk def = RiskDangerous \<and> sc_ApprovalRequiredForDangerousTools cfg \<or>
     operatorNeedsApproval def (sc_OperatorControls cfg)"

definition workspace_gate :: "PolicyExecutionContext \<Rightarrow> bool" where
  "workspace_gate x \<longleftrightarrow> pe_PrincipalClass x = PolicyPrincipalExternalMCPAI \<and>
     pe_ResourceClass x = PolicyResourceSparkClawWorkspaceData \<and> pe_AccessClass x \<noteq> []"

definition delivery_gate :: "PolicyExecutionContext \<Rightarrow> bool" where
  "delivery_gate x \<longleftrightarrow> pe_DeliveryClass x = PolicyDeliveryExternalEndpoint"

definition needs_sandbox :: "SecurityConfig \<Rightarrow> ToolDefinition \<Rightarrow> bool" where
  "needs_sandbox cfg def \<longleftrightarrow>
     td_Sandbox def = ''required'' \<or>
     td_Sandbox def \<noteq> ''remote'' \<and> (td_Risk def = RiskReversible \<or> td_Risk def = RiskDangerous) \<and>
       sc_SandboxRequiredForMutatingTools cfg"

definition Decide ::
  "Engine \<Rightarrow> ToolDefinition \<Rightarrow> (string, goany) gomap \<Rightarrow> PolicyExecutionContext \<Rightarrow> Decision" where
  "Decide e def args execution =
     (let cfg = snapshot e in
      if td_Name def \<in> set (sc_DeniedTools cfg) \<or> \<not> operatorAllows def (sc_OperatorControls cfg)
      then refusal ''tool is denied by policy''
      else
        let decision = (refusal ''allowed by default policy'')\<lparr>de_Allowed := True\<rparr>;
            decision = (if base_approval cfg def
              then decision\<lparr>de_RequiresApproval := True, de_Reason := ''approval required by risk policy''\<rparr>
              else decision);
            decision = (if workspace_gate execution
              then decision\<lparr>de_RequiresApproval := True,
                de_Reason := ''external MCP AI workspace data access requires owner approval''\<rparr>
              else decision);
            decision = (if delivery_gate execution
              then decision\<lparr>de_RequiresApproval := True, de_Reason :=
                ''scheduled delivery to another conversation requires owner approval of its target''\<rparr>
              else decision);
            decision = (if needs_sandbox cfg def then decision\<lparr>de_RequiresSandbox := True\<rparr> else decision);
            decision = (if td_Risk def = RiskDangerous \<and> sc_DangerousToolsRequireDeepVerification cfg
              then decision\<lparr>de_RequiresDeep := True\<rparr> else decision)
        in decision\<lparr>de_Resources := resourcesFromArgs args\<rparr>)"

section \<open>The verifier\<close>

definition verifierRiskLevel :: "string \<Rightarrow> string" where
  "verifierRiskLevel risk =
     (if risk = RiskDangerous then ''high'' else if risk = RiskReversible then ''medium'' else ''low'')"

text \<open>\<open>clock\<close> is the instant \<open>time.Now\<close> returns when the caller passes the zero time.\<close>

definition VerifierDecision_of ::
  "gotime \<Rightarrow> ToolDefinition \<Rightarrow> Decision \<Rightarrow> gotime \<Rightarrow> VerifierDecision option" where
  "VerifierDecision_of clock def decision now =
     (if \<not> de_RequiresApproval decision \<or> (\<not> de_RequiresDeep decision \<and> td_Risk def \<noteq> RiskReversible)
      then None
      else
        let now = (if IsZero now then clock else now)
        in Some \<lparr>vd_Verdict = ''ask_user'', vd_RiskLevel = verifierRiskLevel (td_Risk def), vd_Lane = ''deep'',
             vd_Reason = ''Policy requires owner confirmation before this action can execute.'',
             vd_RequiredUserConfirmation = True,
             vd_SafeNextAction = ''Queue approval and wait for the owner.'', vd_CreatedAt = now\<rparr>)"

definition AttachVerifier :: "(string, goany) gomap \<Rightarrow> VerifierDecision \<Rightarrow> (string, goany) gomap" where
  "AttachVerifier args decision = mput ''_verifier'' (AnyVerifier decision) args"

section \<open>Lemmas\<close>

definition denied :: "SecurityConfig \<Rightarrow> ToolDefinition \<Rightarrow> bool" where
  "denied cfg def \<longleftrightarrow> td_Name def \<in> set (sc_DeniedTools cfg) \<or> \<not> operatorAllows def (sc_OperatorControls cfg)"

lemma snapshot_Update [simp]: "snapshot (Update cfg e) = cfg" "snapshot (Some cfg) = cfg"
  by (simp_all add: Update_def snapshot_def)

lemma refusal_fields [simp]:
  "de_Allowed (refusal r) = False" "de_RequiresApproval (refusal r) = False"
  "de_RequiresSandbox (refusal r) = False" "de_RequiresDeep (refusal r) = False"
  "de_Reason (refusal r) = r" "de_Resources (refusal r) = []"
  by (simp_all add: refusal_def)

text \<open>Every field of a decision in closed form.\<close>

lemma Decide_fields:
  "de_Allowed (Decide e def args x) = (\<not> denied (snapshot e) def)"
  "de_RequiresApproval (Decide e def args x) =
     (\<not> denied (snapshot e) def \<and> (base_approval (snapshot e) def \<or> workspace_gate x \<or> delivery_gate x))"
  "de_RequiresSandbox (Decide e def args x) = (\<not> denied (snapshot e) def \<and> needs_sandbox (snapshot e) def)"
  "de_RequiresDeep (Decide e def args x) =
     (\<not> denied (snapshot e) def \<and> td_Risk def = RiskDangerous \<and>
      sc_DangerousToolsRequireDeepVerification (snapshot e))"
  "de_Resources (Decide e def args x) = (if denied (snapshot e) def then [] else resourcesFromArgs args)"
  by (simp_all add: Decide_def denied_def Let_def)

lemma MayExpose_Allowed: "de_Allowed (MayExpose e def) = (\<not> denied (snapshot e) def)"
  by (simp add: MayExpose_def denied_def Let_def)

text \<open>
  The order of strictness: the stricter decision allows nothing more, and where it still allows it
  asks for at least the approval, the sandbox and the deep verification of the other.
\<close>

definition stricter :: "Decision \<Rightarrow> Decision \<Rightarrow> bool" where
  "stricter d d' \<longleftrightarrow> de_Allowed d' \<longrightarrow>
     de_Allowed d \<and> (de_RequiresApproval d \<longrightarrow> de_RequiresApproval d') \<and>
     (de_RequiresSandbox d \<longrightarrow> de_RequiresSandbox d') \<and> (de_RequiresDeep d \<longrightarrow> de_RequiresDeep d')"

lemma stricter_refl [simp]: "stricter d d"
  by (simp add: stricter_def)

lemma stricter_trans: "stricter a b \<Longrightarrow> stricter b c \<Longrightarrow> stricter a c"
  by (auto simp: stricter_def)

text \<open>A configuration that forbids and asks at least as much as another.\<close>

definition switch_tighter :: "bool option \<Rightarrow> bool option \<Rightarrow> bool" where
  "switch_tighter a b \<longleftrightarrow> a = Some False \<longrightarrow> b = Some False"

definition controls_tighter :: "OperatorToolControls \<Rightarrow> OperatorToolControls \<Rightarrow> bool" where
  "controls_tighter a b \<longleftrightarrow>
     switch_tighter (oc_WebAccess a) (oc_WebAccess b) \<and>
     switch_tighter (oc_WorkspaceFiles a) (oc_WorkspaceFiles b) \<and>
     switch_tighter (oc_ShellCommands a) (oc_ShellCommands b) \<and>
     (oc_FileChanges a = ''ask'' \<longrightarrow> oc_FileChanges b = ''ask'') \<and>
     (oc_ExternalActions a = ''ask'' \<longrightarrow> oc_ExternalActions b = ''ask'' \<or> oc_ExternalActions b = ''block'') \<and>
     (oc_ExternalActions a = ''block'' \<longrightarrow> oc_ExternalActions b = ''block'')"

definition tighter :: "SecurityConfig \<Rightarrow> SecurityConfig \<Rightarrow> bool" where
  "tighter a b \<longleftrightarrow>
     set (sc_DeniedTools a) \<subseteq> set (sc_DeniedTools b) \<and>
     set (sc_ApprovalRequiredTools a) \<subseteq> set (sc_ApprovalRequiredTools b) \<and>
     (sc_ApprovalRequiredForDangerousTools a \<longrightarrow> sc_ApprovalRequiredForDangerousTools b) \<and>
     (sc_SandboxRequiredForMutatingTools a \<longrightarrow> sc_SandboxRequiredForMutatingTools b) \<and>
     (sc_DangerousToolsRequireDeepVerification a \<longrightarrow> sc_DangerousToolsRequireDeepVerification b) \<and>
     controls_tighter (sc_OperatorControls a) (sc_OperatorControls b)"

lemma operatorAllows_iff:
  "operatorAllows def c \<longleftrightarrow>
     (oc_WebAccess c = Some False \<longrightarrow> \<not> hasToolPrefix (td_Name def) [''web.'', ''browser.'', ''weather.'']) \<and>
     (oc_WorkspaceFiles c = Some False \<longrightarrow> \<not> isWorkspaceFileTool (td_Name def)) \<and>
     (oc_ShellCommands c = Some False \<longrightarrow> \<not> prefix ''shell.'' (td_Name def)) \<and>
     (oc_ExternalActions c = ''block'' \<longrightarrow> \<not> isExternalActionTool (td_Name def))"
  unfolding operatorAllows_def Let_def by argo

lemma operatorAllows_tighter: "controls_tighter a b \<Longrightarrow> operatorAllows def b \<Longrightarrow> operatorAllows def a"
  unfolding operatorAllows_iff controls_tighter_def switch_tighter_def by blast

lemma denied_tighter: "tighter a b \<Longrightarrow> denied a def \<Longrightarrow> denied b def"
  using operatorAllows_tighter by (auto simp: tighter_def denied_def)

lemma base_approval_tighter:
  assumes "tighter a b" and "\<not> denied b def" and "base_approval a def"
  shows "base_approval b def"
proof -
  have "operatorNeedsApproval def (sc_OperatorControls b)"
    if "operatorNeedsApproval def (sc_OperatorControls a)"
    using that assms(1,2)
    unfolding operatorNeedsApproval_def tighter_def controls_tighter_def denied_def operatorAllows_iff
    by blast
  with assms(1,3) show ?thesis
    unfolding base_approval_def tighter_def by blast
qed

lemma needs_sandbox_tighter: "tighter a b \<Longrightarrow> needs_sandbox a def \<Longrightarrow> needs_sandbox b def"
  by (auto simp: tighter_def needs_sandbox_def)

lemma resource_named: "r \<in> set (named_resource args key) \<longleftrightarrow> (\<exists>v. mget args key = Some (AnyString v) \<and> v \<noteq> [] \<and> r = key @ '':'' @ v)"
  by (auto simp: named_resource_def split: option.splits goany.splits)

lemma set_map_filter: "set (List.map_filter f xs) = {y. \<exists>x \<in> set xs. f x = Some y}"
  by (induction xs) (auto simp: List.map_filter_def split: option.splits)

lemma any_text_Some: "any_text v = Some t \<longleftrightarrow> v = AnyString t"
  by (cases v) auto

lemma resource_recipient:
  "r \<in> set (recipients args) \<longleftrightarrow>
     (\<exists>v. v \<noteq> [] \<and> r = ''to:'' @ v \<and>
       ((\<exists>vs. mget args ''to'' = Some (AnyStrings vs) \<and> v \<in> set vs) \<or>
        (\<exists>vs. mget args ''to'' = Some (AnySlice vs) \<and> AnyString v \<in> set vs)))"
proof (cases "mget args ''to''")
  case None
  then show ?thesis by (simp add: recipients_def)
next
  case (Some a)
  have texts: "set (List.map_filter any_text vs) = {v. AnyString v \<in> set vs}" for vs
    unfolding set_map_filter any_text_Some by blast
  show ?thesis
  proof (cases a)
    case (AnyStrings vs)
    with Some show ?thesis
      unfolding recipients_def by (simp only: option.case goany.case set_map set_filter option.inject goany.inject
          goany.distinct) blast
  next
    case (AnySlice vs)
    with Some show ?thesis
      unfolding recipients_def by (simp only: option.case goany.case set_map set_filter option.inject goany.inject
          goany.distinct texts mem_Collect_eq) blast
  qed (use Some in \<open>simp_all add: recipients_def\<close>)
qed

definition zero_execution :: PolicyExecutionContext where
  "zero_execution = \<lparr>pe_SchemaVersion = 0, pe_PrincipalClass = [], pe_ResourceClass = [], pe_AccessClass = [],
     pe_RunID = [], pe_OwnerID = [], pe_Authorization = \<lparr>au_PrincipalID = [], au_Scope = []\<rparr>,
     pe_WorkflowID = [], pe_WorkflowRevision = 0, pe_PlanDigest = [], pe_MCP = None,
     pe_ReturnRoute = \<lparr>rr_Mode = [], rr_SourceEndpointID = [], rr_EndpointID = [], rr_SourceAdmitted = False\<rparr>,
     pe_OutputClass = [], pe_ContractDigest = [], pe_DeliveryClass = []\<rparr>"

lemma zero_execution_gates [simp]: "\<not> workspace_gate zero_execution" "\<not> delivery_gate zero_execution"
  by (simp_all add: zero_execution_def workspace_gate_def delivery_gate_def)

section \<open>Properties\<close>

text \<open>C1: the tools the model is shown and the tools an invocation may run are the same ones, for every
  configuration, argument list and caller: a tool named in the deny list or switched off by the owner's
  controls is neither exposed nor decided, and its refusal carries no approval that could release it.\<close>

theorem policy_denial_absolute:
  "(de_Allowed (Decide e def args x) \<longleftrightarrow> de_Allowed (MayExpose e def)) \<and>
   (de_Allowed (Decide e def args x) \<longleftrightarrow>
      td_Name def \<notin> set (sc_DeniedTools (snapshot e)) \<and> operatorAllows def (sc_OperatorControls (snapshot e))) \<and>
   (de_Allowed (Decide e def args x) \<or>
      Decide e def args x = refusal ''tool is denied by policy'')"
  by (simp add: Decide_fields MayExpose_Allowed denied_def) (simp add: Decide_def Let_def)

text \<open>The facts of an invocation only strengthen the decision of the tool. Against the owner-principal
  zero context, any context decides at least as strictly, and asks for approval in exactly the cases the
  risk policy does, the external AI reaches workspace data, or the delivery target is another endpoint;
  everything else of the decision is the same.\<close>

theorem policy_context_only_strengthens:
  "stricter (Decide e def args zero_execution) (Decide e def args x) \<and>
   (de_Allowed (Decide e def args x) \<longleftrightarrow> de_Allowed (Decide e def args zero_execution)) \<and>
   (de_RequiresApproval (Decide e def args x) \<longleftrightarrow>
      de_Allowed (Decide e def args x) \<and>
      (de_RequiresApproval (Decide e def args zero_execution) \<or> workspace_gate x \<or> delivery_gate x)) \<and>
   de_RequiresSandbox (Decide e def args x) = de_RequiresSandbox (Decide e def args zero_execution) \<and>
   de_RequiresDeep (Decide e def args x) = de_RequiresDeep (Decide e def args zero_execution)"
  by (auto simp: stricter_def Decide_fields)

text \<open>C2: publishing a tighter configuration (more denied or approval-bound tools, more safety switches,
  stricter owner controls, where blocking external actions is stricter than asking) never loosens a
  decision: what it still allows was allowed, with no approval, sandbox or deep verification dropped.\<close>

theorem policy_tightening_monotone:
  assumes "tighter a b"
  shows "stricter (Decide (Update a e) def args x) (Decide (Update b e) def args x)"
proof -
  have "sc_DangerousToolsRequireDeepVerification a \<Longrightarrow> sc_DangerousToolsRequireDeepVerification b"
    using assms by (simp add: tighter_def)
  then show ?thesis
    using denied_tighter [OF assms] base_approval_tighter [OF assms] needs_sandbox_tighter [OF assms]
    by (auto simp: stricter_def Decide_fields)
qed

definition shell_tool :: ToolDefinition where
  "shell_tool = \<lparr>td_Name = ''shell.run'', td_Title = [], td_Description = [], td_InputSchema = [],
     td_OutputSchema = [], td_Annotations = [], td_Risk = RiskDangerous, td_RequiresApproval = False,
     td_ArgumentsImmutable = False, td_Idempotent = False, td_TimeoutMS = 0, td_Sandbox = [], td_Audit = [],
     td_Capabilities = [], td_OutcomeAdapter = AnyNil, td_Directory = AnyNil\<rparr>"

lemma policy_tightening_monotone_witness:
  "stricter (Decide (Update zero_security None) shell_tool [] zero_execution)
     (Decide (Update (zero_security\<lparr>sc_ApprovalRequiredForDangerousTools := True\<rparr>) None) shell_tool [] zero_execution)"
  by (rule policy_tightening_monotone)
     (simp add: tighter_def controls_tighter_def switch_tighter_def zero_security_def)

text \<open>The verifier asks the owner exactly for the allowed actions that need approval and are either
  reversible or dangerous under deep verification; its verdict always requires the owner's confirmation
  and is dated, by the clock when the caller gives no time.\<close>

theorem policy_verifier_asks_owner:
  "(VerifierDecision_of clock def (Decide e def args x) now \<noteq> None \<longleftrightarrow>
      de_RequiresApproval (Decide e def args x) \<and>
      (td_Risk def = RiskReversible \<or>
       td_Risk def = RiskDangerous \<and> sc_DangerousToolsRequireDeepVerification (snapshot e))) \<and>
   (case VerifierDecision_of clock def (Decide e def args x) now of
      None \<Rightarrow> True
    | Some v \<Rightarrow> de_Allowed (Decide e def args x) \<and> vd_Verdict v = ''ask_user'' \<and> vd_RequiredUserConfirmation v \<and>
        vd_RiskLevel v = (if td_Risk def = RiskReversible then ''medium'' else ''high'') \<and>
        vd_CreatedAt v = (if now = 0 then clock else now))"
  by (auto simp: VerifierDecision_of_def Decide_fields verifierRiskLevel_def Let_def)

text \<open>The resources the owner is shown with an allowed action are exactly the non-empty strings the
  arguments hold under the seven named keys, and the non-empty recipients under \<open>to\<close>, whether those are
  a string slice or the strings of a dynamic slice.\<close>

theorem policy_resources_exact:
  "r \<in> set (de_Resources (Decide e def args x)) \<longleftrightarrow>
     de_Allowed (Decide e def args x) \<and>
     (\<exists>key v. v \<noteq> [] \<and> r = key @ '':'' @ v \<and>
        (key \<in> {''path'', ''root'', ''url'', ''command'', ''recipient'', ''subject'', ''title''} \<and>
           mget args key = Some (AnyString v) \<or>
         key = ''to'' \<and> ((\<exists>vs. mget args key = Some (AnyStrings vs) \<and> v \<in> set vs) \<or>
                          (\<exists>vs. mget args key = Some (AnySlice vs) \<and> AnyString v \<in> set vs))))"
proof -
  have named: "(\<exists>key \<in> K. r \<in> set (named_resource args key)) \<longleftrightarrow>
      (\<exists>key v. v \<noteq> [] \<and> r = key @ '':'' @ v \<and> key \<in> K \<and> mget args key = Some (AnyString v))" for K
    unfolding resource_named by blast
  define K where "K = set [''path'', ''root'', ''url'', ''command'', ''recipient'', ''subject'', ''title'']"
  have "r \<in> set (resourcesFromArgs args) \<longleftrightarrow>
      (\<exists>key \<in> K. r \<in> set (named_resource args key)) \<or> r \<in> set (recipients args)"
    unfolding K_def resourcesFromArgs_def set_append set_concat set_map by blast
  moreover have "r = ''to:'' @ v \<longleftrightarrow> r = ''to'' @ '':'' @ v" for v
    by simp
  ultimately have "r \<in> set (resourcesFromArgs args) \<longleftrightarrow>
      (\<exists>key v. v \<noteq> [] \<and> r = key @ '':'' @ v \<and>
        (key \<in> K \<and> mget args key = Some (AnyString v) \<or>
         key = ''to'' \<and> ((\<exists>vs. mget args key = Some (AnyStrings vs) \<and> v \<in> set vs) \<or>
                          (\<exists>vs. mget args key = Some (AnySlice vs) \<and> AnyString v \<in> set vs))))"
    unfolding named resource_recipient by blast
  moreover have "r \<in> set (de_Resources (Decide e def args x)) \<longleftrightarrow>
      de_Allowed (Decide e def args x) \<and> r \<in> set (resourcesFromArgs args)"
    by (simp add: Decide_fields)
  ultimately show ?thesis
    unfolding K_def set_simps by (simp only:)
qed

end
