(* ===== verification/Go_Contracts.thy ===== *)
theory Go_Contracts
  imports Go_Prelude
begin

text \<open>
  The contracts the component theories share, as locales: a comparator of \<open>slices.SortFunc\<close> that
  realises a linear order, a table whose listing does not depend on the map's iteration order, a
  fallible operation that leaves the state alone when it fails, and an invariant of a step relation.
  Each is interpreted on the model's own definitions where the component provides them.
\<close>

section \<open>Comparison and sorting\<close>

text \<open>\<open>strings.Compare\<close> (bytewise) and \<open>time.Time.Compare\<close> return -1, 0 or 1.\<close>

definition str_cmp :: "string \<Rightarrow> string \<Rightarrow> int" where
  "str_cmp a b = (if a = b then 0 else if a < b then - 1 else 1)"

definition time_cmp :: "gotime \<Rightarrow> gotime \<Rightarrow> int" where
  "time_cmp a b = (if a < b then - 1 else if b < a then 1 else 0)"

lemma str_cmp_le: "str_cmp a b \<le> 0 \<longleftrightarrow> a \<le> b"
  by (auto simp: str_cmp_def)

lemma str_cmp_eq: "str_cmp a b = 0 \<longleftrightarrow> a = b"
  by (simp add: str_cmp_def)

lemma str_cmp_swap: "str_cmp b a = - str_cmp a b"
  by (auto simp: str_cmp_def)

lemma time_cmp_le: "time_cmp a b \<le> 0 \<longleftrightarrow> a \<le> b"
  by (simp add: time_cmp_def)

lemma time_cmp_eq: "time_cmp a b = 0 \<longleftrightarrow> a = b"
  by (simp add: time_cmp_def)

text \<open>
  \<open>slices.SortFunc\<close>: any algorithm that returns the arguments in the comparator's order returns
  this list when the comparator is a linear order of them (lemma \<open>sorted_unique\<close> below).
\<close>

fun cmp_insert :: "('r \<Rightarrow> 'r \<Rightarrow> int) \<Rightarrow> 'r \<Rightarrow> 'r list \<Rightarrow> 'r list" where
  "cmp_insert cmp x [] = [x]"
| "cmp_insert cmp x (y # ys) = (if cmp x y \<le> 0 then x # y # ys else y # cmp_insert cmp x ys)"

definition SortFunc :: "('r \<Rightarrow> 'r \<Rightarrow> int) \<Rightarrow> 'r list \<Rightarrow> 'r list" where
  "SortFunc cmp xs = foldr (cmp_insert cmp) xs []"

lemma set_cmp_insert [simp]: "set (cmp_insert cmp x xs) = insert x (set xs)"
  by (induction xs) auto

lemma mset_cmp_insert [simp]: "mset (cmp_insert cmp x xs) = add_mset x (mset xs)"
  by (induction xs) auto

lemma mset_SortFunc [simp]: "mset (SortFunc cmp xs) = mset xs"
  by (induction xs) (auto simp: SortFunc_def)

lemma set_SortFunc [simp]: "set (SortFunc cmp xs) = set xs"
  by (metis mset_SortFunc set_mset_mset)

lemma length_SortFunc [simp]: "length (SortFunc cmp xs) = length xs"
  by (metis mset_SortFunc size_mset)

lemma distinct_SortFunc [simp]: "distinct (SortFunc cmp xs) = distinct xs"
  by (metis mset_SortFunc mset_eq_imp_distinct_iff)

lemma SortFunc_Nil [simp]: "SortFunc cmp [] = []"
  by (simp add: SortFunc_def)

text \<open>The first \<open>limit\<close> of a list, as the code's \<open>if len(out) > limit { out = out[:limit] }\<close>.\<close>

definition clip :: "int \<Rightarrow> 'a list \<Rightarrow> 'a list" where
  "clip limit xs = (if int (length xs) > limit then take (nat limit) xs else xs)"

lemma clip_take: "0 \<le> limit \<Longrightarrow> clip limit xs = take (nat limit) xs"
  by (simp add: clip_def)

lemma set_clip_subset: "set (clip limit xs) \<subseteq> set xs"
  by (auto simp: clip_def dest: in_set_takeD)

lemma length_clip: "0 \<le> limit \<Longrightarrow> int (length (clip limit xs)) \<le> limit"
  by (auto simp: clip_def)

lemma distinct_clip: "distinct xs \<Longrightarrow> distinct (clip limit xs)"
  by (simp add: clip_def)

text \<open>The order of the listings: the newest first, then by identity.\<close>

definition newest_first :: "gotime \<Rightarrow> string \<Rightarrow> int \<times> string" where
  "newest_first at' i = (- at', i)"

lemma newest_first_cmp:
  "(let order = time_cmp v u in if order \<noteq> 0 then order else str_cmp i j) \<le> 0 \<longleftrightarrow> newest_first u i \<le> newest_first v j"
  by (auto simp: newest_first_def time_cmp_def str_cmp_def Let_def less_eq_prod_def)

text \<open>A comparator that realises the linear order of a key.\<close>

locale sort_order =
  fixes cmp :: "'r \<Rightarrow> 'r \<Rightarrow> int"
    and key :: "'r \<Rightarrow> 'k :: linorder"
  assumes cmp_key: "cmp x y \<le> 0 \<longleftrightarrow> key x \<le> key y"
begin

lemma cmp_insert_eq: "cmp_insert cmp x xs = insort_key key x xs"
  by (induction xs) (auto simp: cmp_key)

lemma SortFunc_eq: "SortFunc cmp xs = sort_key key xs"
  by (induction xs) (auto simp: SortFunc_def cmp_insert_eq)

lemma sorted_SortFunc: "sorted (map key (SortFunc cmp xs))"
  by (simp add: SortFunc_eq)

lemma sorted_unique:
  assumes "mset ys = mset xs" and "sorted (map key ys)" and "inj_on key (set xs)"
  shows "ys = SortFunc cmp xs"
proof -
  have "mset ys = mset (SortFunc cmp xs)"
    using assms(1) by simp
  then have "mset (map key ys) = mset (map key (SortFunc cmp xs))"
    by (metis mset_map)
  then have "map key ys = map key (SortFunc cmp xs)"
    using assms(2) sorted_SortFunc [of xs] by (metis properties_for_sort)
  moreover have "inj_on key (set ys \<union> set (SortFunc cmp xs))"
    using assms(1,3) mset_eq_setD [OF assms(1)] by simp
  ultimately show ?thesis
    by (metis map_inj_on)
qed

lemma head_minimal:
  assumes "SortFunc cmp xs = y # ys" and "x \<in> set xs"
  shows "key y \<le> key x"
proof -
  have "x \<in> set (y # ys)"
    using assms by (metis set_SortFunc)
  moreover have "sorted (map key (y # ys))"
    using sorted_SortFunc [of xs] assms(1) by simp
  ultimately show ?thesis
    by auto
qed

lemma clip_minimal:
  assumes "x \<in> set (clip limit (SortFunc cmp xs))" and "y \<in> set xs"
    and "y \<notin> set (clip limit (SortFunc cmp xs))"
  shows "key x \<le> key y"
proof -
  let ?s = "SortFunc cmp xs"
  have short: "int (length ?s) > limit"
    using assms(2,3) by (auto simp: clip_def split: if_splits)
  then have x: "x \<in> set (take (nat limit) ?s)"
    using assms(1) by (simp add: clip_def)
  have "y \<in> set (take (nat limit) ?s @ drop (nat limit) ?s)"
    using assms(2) by simp
  then have "y \<in> set (drop (nat limit) ?s)"
    using assms(3) short by (simp add: clip_def del: append_take_drop_id)
  moreover have "sorted (map key (take (nat limit) ?s) @ map key (drop (nat limit) ?s))"
    using sorted_SortFunc [of xs] by (simp flip: map_append)
  ultimately show ?thesis
    using x by (auto simp: sorted_append)
qed

end

text \<open>
  A table of records listed in a linear order that tells records with different identities apart.
  The listing is then a function of the map's content alone.
\<close>

locale record_table = sort_order cmp key
  for cmp :: "'r \<Rightarrow> 'r \<Rightarrow> int" and key :: "'r \<Rightarrow> 'k :: linorder" +
  fixes rid :: "'r \<Rightarrow> string"
  assumes key_rid: "key x = key y \<Longrightarrow> rid x = rid y"
begin

lemma key_inj: "keyed rid m \<Longrightarrow> inj_on key (set (mvals m))"
proof (rule inj_onI)
  fix x y
  assume k: "keyed rid m" and xy: "x \<in> set (mvals m)" "y \<in> set (mvals m)" and same: "key x = key y"
  from same have "rid x = rid y" by (rule key_rid)
  with k xy show "x = y"
    using keyed_vals [OF k, of x] keyed_vals [OF k, of y] by simp
qed

lemma same_vals:
  assumes "keyed rid m" and "keyed rid m'" and "\<And>k. mget m k = mget m' k"
  shows "mset (mvals m) = mset (mvals m')"
proof -
  have "set (mvals m) = set (mvals m')"
    by (rule set_eqI) (simp add: keyed_vals [OF assms(1)] keyed_vals [OF assms(2)] assms(3))
  moreover have "distinct (mvals m)" and "distinct (mvals m')"
    using keyed_distinct_vals [OF assms(1)] keyed_distinct_vals [OF assms(2)]
    by (simp_all add: distinct_map)
  ultimately show ?thesis
    by (simp only: set_eq_iff_mset_eq_distinct)
qed

lemma listing_unique:
  assumes "keyed rid m" and "keyed rid m'" and "\<And>k. mget m k = mget m' k"
  shows "SortFunc cmp (filter P (mvals m)) = SortFunc cmp (filter P (mvals m'))"
proof (rule sorted_unique)
  show "mset (SortFunc cmp (filter P (mvals m))) = mset (filter P (mvals m'))"
    using same_vals [OF assms] by (simp only: mset_SortFunc mset_filter)
  show "sorted (map key (SortFunc cmp (filter P (mvals m))))"
    by (rule sorted_SortFunc)
  show "inj_on key (set (filter P (mvals m')))"
    by (rule inj_on_subset [OF key_inj [OF assms(2)]]) auto
qed

lemma listing_members:
  assumes "keyed rid m"
  shows "r \<in> set (SortFunc cmp (filter P (mvals m))) \<longleftrightarrow> mget m (rid r) = Some r \<and> P r"
  using assms keyed_vals by fastforce

lemma listing_distinct: "keyed rid m \<Longrightarrow> distinct (map rid (SortFunc cmp (filter P (mvals m))))"
proof -
  assume k: "keyed rid m"
  have "distinct (mvals m)"
    using keyed_distinct_vals [OF k] by (simp add: distinct_map)
  moreover have "inj_on rid (set (mvals m))"
    using keyed_distinct_vals [OF k] by (simp add: distinct_map)
  ultimately show ?thesis
    by (simp add: distinct_map inj_on_subset)
qed

end

section \<open>Operations and step relations\<close>

text \<open>
  A fallible operation on a state that changes nothing when it returns an error; \<open>ok\<close> is what the
  environment of the call must satisfy (a clock JSON can print, for the operations that copy records
  through it).
\<close>

locale failing_operation =
  fixes run :: "'s \<Rightarrow> ('e + 'a) \<times> 's"
    and ok :: bool
  assumes error_frame: "ok \<Longrightarrow> run s = (Inl e, s') \<Longrightarrow> s' = s"
begin

lemma changed_ok: "ok \<Longrightarrow> run s = (r, s') \<Longrightarrow> s' \<noteq> s \<Longrightarrow> \<exists>v. r = Inr v"
  using error_frame by (cases r) auto

lemma preserves:
  assumes "ok" and "I s" and "\<And>v s'. run s = (Inr v, s') \<Longrightarrow> I s'" and "run s = (r, s')"
  shows "I s'"
  using assms error_frame by (cases r) auto

end

text \<open>States reachable from the initial ones, and the invariants of a step relation.\<close>

inductive reach :: "('s \<Rightarrow> bool) \<Rightarrow> ('s \<Rightarrow> 's \<Rightarrow> bool) \<Rightarrow> 's \<Rightarrow> bool"
  for init :: "'s \<Rightarrow> bool" and step :: "'s \<Rightarrow> 's \<Rightarrow> bool" where
  reach_init: "init s \<Longrightarrow> reach init step s"
| reach_step: "reach init step s \<Longrightarrow> step s t \<Longrightarrow> reach init step t"

locale invariant_system =
  fixes init :: "'s \<Rightarrow> bool" and step :: "'s \<Rightarrow> 's \<Rightarrow> bool" and inv :: "'s \<Rightarrow> bool"
  assumes inv_init: "init s \<Longrightarrow> inv s"
    and inv_step: "step s t \<Longrightarrow> inv s \<Longrightarrow> inv t"
begin

lemma reach_inv: "reach init step s \<Longrightarrow> inv s"
  by (induction rule: reach.induct) (auto intro: inv_init inv_step)

lemma steps_inv: "step\<^sup>*\<^sup>* s t \<Longrightarrow> inv s \<Longrightarrow> inv t"
  by (induction rule: rtranclp_induct) (auto intro: inv_step)

end

end
