(* ===== verification/Go_Errors.thy ===== *)
theory Go_Errors
  imports Go_Contracts
begin

text \<open>
  Go errors as values: texts and sentinels, wrapped errors, joined errors and the store's typed error
  (\<open>StoreError\<close> of \<open>internal/store/operation.go\<close>), with \<open>errors.Is\<close> and \<open>errors.As\<close> over them, and the
  locale of the reconciliation of a write whose outcome is unknown.
\<close>

datatype StoreErrorCode =
    StoreErrorNone
  | StoreErrorNotFound
  | StoreErrorConflict
  | StoreErrorInvalid
  | StoreErrorCanceled
  | StoreErrorTimeout
  | StoreErrorUnavailable
  | StoreErrorDurability
  | StoreErrorUnknownOutcome
  | StoreErrorCorrupt
  | StoreErrorInternal

text \<open>The text of a code; the zero value \<open>StoreErrorNone\<close> is the empty string.\<close>

fun code_text :: "StoreErrorCode \<Rightarrow> string" where
  "code_text StoreErrorNone = []"
| "code_text StoreErrorNotFound = ''not_found''"
| "code_text StoreErrorConflict = ''conflict''"
| "code_text StoreErrorInvalid = ''invalid''"
| "code_text StoreErrorCanceled = ''canceled''"
| "code_text StoreErrorTimeout = ''timeout''"
| "code_text StoreErrorUnavailable = ''unavailable''"
| "code_text StoreErrorDurability = ''durability_failed''"
| "code_text StoreErrorUnknownOutcome = ''unknown_outcome''"
| "code_text StoreErrorCorrupt = ''corrupt''"
| "code_text StoreErrorInternal = ''internal''"

text \<open>
  \<open>Err\<close> is a leaf error or a sentinel, told apart by its text; \<open>Retryable\<close> is an error of a provider
  that implements \<open>RetryState() string\<close>.
\<close>

datatype go_error =
    Err string
  | Wrap string go_error
  | StoreErr StoreErrorCode string go_error
  | Joined "go_error list"
  | Retryable string string

abbreviation "Canceled \<equiv> Err ''context canceled''"
abbreviation "DeadlineExceeded \<equiv> Err ''context deadline exceeded''"
abbreviation "ErrRuntimeClosing \<equiv> Err ''store runtime is closing''"
abbreviation "ErrReminderConflict \<equiv> Err ''pending reminder changed or is no longer available''"
abbreviation "ErrMessageReceiveConflict \<equiv> Err ''message receive identity conflicts with the persisted record''"
abbreviation "ErrMessageDeliveryConflict \<equiv> Err ''delivery idempotency key was reused with a different request''"
abbreviation "ErrChannelInboxUpdateConflict \<equiv> Err ''channel inbox identity conflicts with the persisted update''"
abbreviation "ErrApprovalConflict \<equiv> Err ''approval changed or was already resolved''"
abbreviation "ErrApprovalNotFound \<equiv> Err ''approval not found''"

text \<open>\<open>errors.Is\<close> against a leaf error.\<close>

fun err_is :: "go_error \<Rightarrow> go_error \<Rightarrow> bool" where
  "err_is (Wrap m e) t \<longleftrightarrow> Wrap m e = t \<or> err_is e t"
| "err_is (StoreErr c op e) t \<longleftrightarrow> StoreErr c op e = t \<or> err_is e t"
| "err_is (Joined es) t \<longleftrightarrow> (\<exists>e \<in> set es. err_is e t)"
| "err_is e t \<longleftrightarrow> e = t"

text \<open>\<open>errors.As\<close> for \<open>*StoreError\<close>: the code of the first one in the tree, depth first.\<close>

fun store_code :: "go_error \<Rightarrow> StoreErrorCode option" where
  "store_code (StoreErr c op e) = Some c"
| "store_code (Wrap m e) = store_code e"
| "store_code (Joined es) = (case filter (\<lambda>x. x \<noteq> None) (map store_code es) of [] \<Rightarrow> None | x # _ \<Rightarrow> x)"
| "store_code e = None"

definition StoreErrorCodeOf :: "go_error \<Rightarrow> StoreErrorCode" where
  "StoreErrorCodeOf e = (case store_code e of None \<Rightarrow> StoreErrorNone | Some c \<Rightarrow> c)"

text \<open>\<open>StoreError.Error\<close>; the texts of the other errors are their own.\<close>

fun error_text :: "go_error \<Rightarrow> string" where
  "error_text (Err m) = m"
| "error_text (Wrap m e) = m @ '': '' @ error_text e"
| "error_text (StoreErr c op e) = ''store '' @ op @ '' failed: '' @ code_text c @ '': '' @ error_text e"
| "error_text (Joined es) =
     (case map error_text es of [] \<Rightarrow> [] | t # ts \<Rightarrow> t @ concat (map ((@) [CHR 0x0A]) ts))"
| "error_text (Retryable m r) = m"

text \<open>\<open>errors.As\<close> for the interface \<open>RetryState() string\<close>.\<close>

fun retry_state_of :: "go_error \<Rightarrow> string option" where
  "retry_state_of (Retryable m r) = Some r"
| "retry_state_of (Wrap m e) = retry_state_of e"
| "retry_state_of (StoreErr c op e) = retry_state_of e"
| "retry_state_of (Joined es) =
     (case filter (\<lambda>x. x \<noteq> None) (map retry_state_of es) of [] \<Rightarrow> None | x # _ \<Rightarrow> x)"
| "retry_state_of e = None"

lemma StoreErrorCodeOf_StoreErr [simp]: "StoreErrorCodeOf (StoreErr c op e) = c"
  by (simp add: StoreErrorCodeOf_def)

section \<open>Reconciling a write\<close>

text \<open>
  The shape of \<open>Reconcile...Write\<close>: a write that reports success stands; a write that failed for a known
  reason stays failed; a write of unknown outcome is read back and stands exactly when the stored record
  agrees with the candidate. \<open>lookup\<close> is the repository's read, \<open>agrees stored candidate\<close> the comparison,
  \<open>identified\<close> the check that the candidate can be looked up at all.
\<close>

definition reconcile_write ::
  "('r \<Rightarrow> go_error + 'r option) \<Rightarrow> ('r \<Rightarrow> 'r \<Rightarrow> bool) \<Rightarrow> ('r \<Rightarrow> bool) \<Rightarrow> 'r \<Rightarrow> go_error option \<Rightarrow> go_error + 'r" where
  "reconcile_write lookup agrees identified candidate writeErr = (case writeErr of
     None \<Rightarrow> Inr candidate
   | Some e \<Rightarrow>
       if StoreErrorCodeOf e \<noteq> StoreErrorUnknownOutcome \<or> \<not> identified candidate then Inl e
       else (case lookup candidate of
           Inl err \<Rightarrow> Inl (Joined [e, err])
         | Inr None \<Rightarrow> Inl e
         | Inr (Some current) \<Rightarrow> if agrees current candidate then Inr current else Inl e))"

locale reconciler =
  fixes run :: "'r \<Rightarrow> go_error option \<Rightarrow> go_error + 'r"
    and lookup :: "'r \<Rightarrow> go_error + 'r option"
    and agrees :: "'r \<Rightarrow> 'r \<Rightarrow> bool"
    and identified :: "'r \<Rightarrow> bool"
  assumes run_eq: "run candidate writeErr = reconcile_write lookup agrees identified candidate writeErr"
begin

lemma success_stands: "run candidate None = Inr candidate"
  by (simp add: run_eq reconcile_write_def)

lemma known_failure_stands:
  "StoreErrorCodeOf e \<noteq> StoreErrorUnknownOutcome \<Longrightarrow> run candidate (Some e) = Inl e"
  by (simp add: run_eq reconcile_write_def)

lemma unknown_success_sound:
  assumes "run candidate (Some e) = Inr r"
  shows "lookup candidate = Inr (Some r)" and "agrees r candidate"
    and "StoreErrorCodeOf e = StoreErrorUnknownOutcome"
  using assms by (auto simp: run_eq reconcile_write_def split: if_splits sum.splits option.splits)

lemma unknown_success_complete:
  assumes "lookup candidate = Inr (Some r)" and "agrees r candidate" and "identified candidate"
    and "StoreErrorCodeOf e = StoreErrorUnknownOutcome"
  shows "run candidate (Some e) = Inr r"
  using assms by (simp add: run_eq reconcile_write_def)

lemma failure_keeps_cause:
  assumes "run candidate (Some e) = Inl err"
  shows "err = e \<or> (\<exists>e'. err = Joined [e, e'])"
  using assms by (auto simp: run_eq reconcile_write_def split: if_splits sum.splits option.splits)

end

end
