(* ===== verification/Operation_Specs.thy ===== *)
theory Operation_Specs
  imports Go_Prelude
begin

text \<open>
  The registry of store operations, \<open>operationSpecs\<close> in \<open>internal/store/operation.go\<close>: for every operation
  the repository and method that implement it, whether it reads or writes and the class of its timeout.
  The table is the code's, entry by entry, in five stretches. The timeouts and the deadline of an
  operation's context follow.
\<close>

datatype operationMode = operationRead | operationWrite
datatype operationTimeoutClass = timeoutRead | timeoutWrite | timeoutTransaction

record operationSpec =
  sp_ID :: string
  sp_Repository :: string
  sp_Method :: string
  sp_Mode :: operationMode
  sp_Timeout :: operationTimeoutClass

definition entry :: "string \<Rightarrow> string \<Rightarrow> string \<Rightarrow> operationMode \<Rightarrow> operationTimeoutClass \<Rightarrow> string \<times> operationSpec" where
  "entry op repository meth mode timeout =
     (op, \<lparr>sp_ID = op, sp_Repository = repository, sp_Method = meth, sp_Mode = mode, sp_Timeout = timeout\<rparr>)"

definition operationSpecs_1 :: "(string, operationSpec) gomap" where
  "operationSpecs_1 = [
    entry ''medicine.read'' ''MedicineRepository'' ''ReadMedicineBox'' operationRead timeoutRead,
    entry ''medicine.apply'' ''MedicineRepository'' ''ApplyMedicineBatch'' operationWrite timeoutTransaction,
    entry ''medicine.import'' ''MedicineRepository'' ''ImportMedicines'' operationWrite timeoutTransaction,
    entry ''medicine.operation_get'' ''MedicineRepository'' ''GetMedicineOperation'' operationRead timeoutRead,
    entry ''email_management.ReadEmailPresentations'' ''EmailPresentationRepository'' ''ReadEmailPresentations'' operationRead timeoutRead,
    entry ''email_management.EnsureEmailPresentations'' ''EmailPresentationRepository'' ''EnsureEmailPresentations'' operationWrite timeoutTransaction,
    entry ''email_management.GetEmailPresentation'' ''EmailPresentationRepository'' ''GetEmailPresentation'' operationRead timeoutRead,
    entry ''email_management.PublishEmailPresentation'' ''EmailPresentationRepository'' ''PublishEmailPresentation'' operationWrite timeoutTransaction,
    entry ''email_management.ChangeEmailDraft'' ''EmailRepository'' ''ChangeEmailDraft'' operationWrite timeoutTransaction,
    entry ''email_management.ListEmailDraftPage'' ''EmailRepository'' ''ListEmailDraftPage'' operationRead timeoutRead,
    entry ''email_management.ListEmailDrafts'' ''EmailRepository'' ''ListEmailDrafts'' operationRead timeoutRead,
    entry ''email_management.GetEmailThread'' ''EmailRepository'' ''GetEmailThread'' operationRead timeoutRead,
    entry ''email_management.GetEmailProviderVersions'' ''EmailRepository'' ''GetEmailProviderVersions'' operationRead timeoutRead,
    entry ''email_management.ResolveEmailIntake'' ''EmailRepository'' ''ResolveEmailIntake'' operationWrite timeoutTransaction,
    entry ''email_management.BindEmailMailbox'' ''EmailRepository'' ''BindEmailMailbox'' operationWrite timeoutTransaction,
    entry ''email_management.PauseEmailMailbox'' ''EmailRepository'' ''PauseEmailMailbox'' operationWrite timeoutTransaction,
    entry ''email_management.GetEmailOwnerStatus'' ''EmailRepository'' ''GetEmailOwnerStatus'' operationRead timeoutRead,
    entry ''email_management.ListEmailMailboxes'' ''EmailRepository'' ''ListEmailMailboxes'' operationRead timeoutRead,
    entry ''email_management.GetEmailMailbox'' ''EmailRepository'' ''GetEmailMailbox'' operationRead timeoutRead,
    entry ''email_management.BeginEmailSync'' ''EmailRepository'' ''BeginEmailSync'' operationWrite timeoutTransaction,
    entry ''email_management.CommitEmailSync'' ''EmailRepository'' ''CommitEmailSync'' operationWrite timeoutTransaction,
    entry ''email_management.ReportEmailSourceFailure'' ''EmailRepository'' ''ReportEmailSourceFailure'' operationWrite timeoutTransaction,
    entry ''email_management.ListEmailSyncWarnings'' ''EmailRepository'' ''ListEmailSyncWarnings'' operationRead timeoutRead,
    entry ''email_management.AcknowledgeEmailSyncWarning'' ''EmailRepository'' ''AcknowledgeEmailSyncWarning'' operationWrite timeoutTransaction,
    entry ''email_management.AdmitEmailDiscovery'' ''EmailRepository'' ''AdmitEmailDiscovery'' operationWrite timeoutTransaction,
    entry ''email_management.RequestEmailJob'' ''EmailRepository'' ''RequestEmailJob'' operationWrite timeoutTransaction,
    entry ''email_management.ApplyEmailObserver'' ''EmailRepository'' ''ApplyEmailObserver'' operationWrite timeoutTransaction,
    entry ''email_management.ClaimEmailJob'' ''EmailRepository'' ''ClaimEmailJob'' operationWrite timeoutTransaction,
    entry ''email_management.RenewEmailJob'' ''EmailRepository'' ''RenewEmailJob'' operationWrite timeoutTransaction,
    entry ''email_management.FinishEmailJob'' ''EmailRepository'' ''FinishEmailJob'' operationWrite timeoutTransaction,
    entry ''email_management.PublishEmailCapture'' ''EmailRepository'' ''PublishEmailCapture'' operationWrite timeoutTransaction,
    entry ''email_management.PublishEmailRepresentation'' ''EmailRepository'' ''PublishEmailRepresentation'' operationWrite timeoutTransaction,
    entry ''email_management.PublishEmailRenderPreview'' ''EmailRepository'' ''PublishEmailRenderPreview'' operationWrite timeoutTransaction,
    entry ''email_management.PublishEmailContext'' ''EmailRepository'' ''PublishEmailContext'' operationWrite timeoutTransaction,
    entry ''email_management.ExpandEmailRefresh'' ''EmailRepository'' ''ExpandEmailRefresh'' operationWrite timeoutTransaction,
    entry ''email_management.CommitEmailAssignment'' ''EmailRepository'' ''CommitEmailAssignment'' operationWrite timeoutTransaction,
    entry ''email_management.PublishEmailConcern'' ''EmailRepository'' ''PublishEmailConcern'' operationWrite timeoutTransaction,
    entry ''email_management.PublishEmailClassification'' ''EmailRepository'' ''PublishEmailClassification'' operationWrite timeoutTransaction,
    entry ''email_management.ActivateEmailEventPolicy'' ''EmailRepository'' ''ActivateEmailEventPolicy'' operationWrite timeoutTransaction,
    entry ''email_management.ActivateEmailTimelinePolicy'' ''EmailRepository'' ''ActivateEmailTimelinePolicy'' operationWrite timeoutTransaction,
    entry ''email_management.ChangeEmailAssignment'' ''EmailRepository'' ''ChangeEmailAssignment'' operationWrite timeoutTransaction,
    entry ''email_management.RenameEmailConversation'' ''EmailRepository'' ''RenameEmailConversation'' operationWrite timeoutTransaction,
    entry ''email_management.DeleteEmailConversation'' ''EmailRepository'' ''DeleteEmailConversation'' operationWrite timeoutTransaction,
    entry ''email_management.OverrideEmailClassification'' ''EmailRepository'' ''OverrideEmailClassification'' operationWrite timeoutTransaction,
    entry ''email_management.PurgeEmailCaptures'' ''EmailRepository'' ''PurgeEmailCaptures'' operationWrite timeoutTransaction,
    entry ''email_management.ScanEmailCaptures'' ''EmailRepository'' ''ScanEmailCaptures'' operationRead timeoutRead,
    entry ''email_management.AdoptEmailCapture'' ''EmailRepository'' ''AdoptEmailCapture'' operationWrite timeoutTransaction,
    entry ''email_management.UpdateEmailSenderRule'' ''EmailRepository'' ''UpdateEmailSenderRule'' operationWrite timeoutTransaction,
    entry ''email_management.ListEmailSenderRules'' ''EmailRepository'' ''ListEmailSenderRules'' operationRead timeoutRead,
    entry ''email_management.PublishEmailSummary'' ''EmailRepository'' ''PublishEmailSummary'' operationWrite timeoutTransaction,
    entry ''email_management.MarkEmailMailsViewed'' ''EmailRepository'' ''MarkEmailMailsViewed'' operationWrite timeoutTransaction,
    entry ''email_management.ListEmailMails'' ''EmailRepository'' ''ListEmailMails'' operationRead timeoutRead,
    entry ''email_management.GetEmailMail'' ''EmailRepository'' ''GetEmailMail'' operationRead timeoutRead,
    entry ''email_management.GetEmailCapture'' ''EmailRepository'' ''GetEmailCapture'' operationRead timeoutRead,
    entry ''email_management.GetEmailRepresentation'' ''EmailRepository'' ''GetEmailRepresentation'' operationRead timeoutRead,
    entry ''email_management.GetEmailRenderPreview'' ''EmailRepository'' ''GetEmailRenderPreview'' operationRead timeoutRead,
    entry ''email_management.GetEmailContext'' ''EmailRepository'' ''GetEmailContext'' operationRead timeoutRead,
    entry ''email_management.GetEmailConversation'' ''EmailRepository'' ''GetEmailConversation'' operationRead timeoutRead,
    entry ''email_management.ReconcileEmailCommand'' ''EmailRepository'' ''ReconcileEmailCommand'' operationRead timeoutRead,
    entry ''email_management.ListEmailConversations'' ''EmailRepository'' ''ListEmailConversations'' operationRead timeoutRead,
    entry ''email_management.FindEmailCandidates'' ''EmailRepository'' ''FindEmailCandidates'' operationRead timeoutRead,
    entry ''email_management.GetEmailAnalysisTarget'' ''EmailRepository'' ''GetEmailAnalysisTarget'' operationRead timeoutRead,
    entry ''email_management.ListEmailConcerns'' ''EmailRepository'' ''ListEmailConcerns'' operationRead timeoutRead,
    entry ''email_management.ListEmailJobs'' ''EmailRepository'' ''ListEmailJobs'' operationRead timeoutRead,
    entry ''email_management.ListEmailThreads'' ''EmailRepository'' ''ListEmailThreads'' operationRead timeoutRead,
    entry ''email_management.ListEmailSyncRuns'' ''EmailRepository'' ''ListEmailSyncRuns'' operationRead timeoutRead,
    entry ''iscp_onboarding.save'' ''ISCPOnboardingRepository'' ''SaveISCPOnboarding'' operationWrite timeoutWrite,
    entry ''iscp_onboarding.get'' ''ISCPOnboardingRepository'' ''GetISCPOnboarding'' operationRead timeoutRead,
    entry ''iscp_onboarding.list'' ''ISCPOnboardingRepository'' ''ListISCPOnboardings'' operationRead timeoutRead,
    entry ''session.create'' ''SessionRepository'' ''CreateSession'' operationWrite timeoutTransaction,
    entry ''session.create_with_scope'' ''SessionRepository'' ''CreateSessionWithScope'' operationWrite timeoutTransaction,
    entry ''session.list'' ''SessionRepository'' ''ListSessions'' operationRead timeoutRead,
    entry ''session.get'' ''SessionRepository'' ''GetSession'' operationRead timeoutRead,
    entry ''session.update_title'' ''SessionRepository'' ''UpdateSessionTitle'' operationWrite timeoutTransaction,
    entry ''workbench_draft.get'' ''SessionRepository'' ''GetWorkbenchDraft'' operationRead timeoutRead,
    entry ''workbench_draft.save'' ''SessionRepository'' ''SaveWorkbenchDraft'' operationWrite timeoutTransaction,
    entry ''session.delete'' ''SessionRepository'' ''DeleteSession'' operationWrite timeoutTransaction,
    entry ''conversation.add_message'' ''ConversationRepository'' ''AddMessage'' operationWrite timeoutTransaction,
    entry ''conversation.list_messages'' ''ConversationRepository'' ''ListMessages'' operationRead timeoutRead,
    entry ''conversation.list_recent_messages'' ''ConversationRepository'' ''ListRecentMessages'' operationRead timeoutRead,
    entry ''conversation.message_event_head'' ''ConversationRepository'' ''MessageEventHead'' operationRead timeoutRead,
    entry ''conversation.message_events_after'' ''ConversationRepository'' ''MessageEventsAfter'' operationRead timeoutRead,
    entry ''conversation.count_visible_messages'' ''ConversationRepository'' ''CountVisibleMessages'' operationRead timeoutRead,
    entry ''run_feedback.save'' ''RunRepository'' ''SaveRunFeedback'' operationWrite timeoutTransaction,
    entry ''run_feedback.list'' ''RunRepository'' ''ListRunFeedback'' operationRead timeoutRead,
    entry ''run.save'' ''RunRepository'' ''SaveRun'' operationWrite timeoutTransaction]"

definition operationSpecs_2 :: "(string, operationSpec) gomap" where
  "operationSpecs_2 = [
    entry ''run.get'' ''RunRepository'' ''GetRun'' operationRead timeoutRead,
    entry ''run.list'' ''RunRepository'' ''ListRuns'' operationRead timeoutRead,
    entry ''run.count_visible'' ''RunRepository'' ''CountVisibleRuns'' operationRead timeoutRead,
    entry ''model_call.save'' ''RunRepository'' ''SaveModelCall'' operationWrite timeoutTransaction,
    entry ''model_call.list'' ''RunRepository'' ''ListModelCalls'' operationRead timeoutRead,
    entry ''model_call.latest_by_lane'' ''RunRepository'' ''LatestModelCallsByLane'' operationRead timeoutRead,
    entry ''model_call.stats'' ''RunRepository'' ''ModelCallStats'' operationRead timeoutRead,
    entry ''tool_call.save'' ''RunRepository'' ''SaveToolCall'' operationWrite timeoutTransaction,
    entry ''tool_call.get'' ''RunRepository'' ''GetToolCall'' operationRead timeoutRead,
    entry ''tool_call.list'' ''RunRepository'' ''ListToolCalls'' operationRead timeoutRead,
    entry ''tool_call.list_recent'' ''RunRepository'' ''ListRecentToolCalls'' operationRead timeoutRead,
    entry ''tool_call.count'' ''RunRepository'' ''CountToolCalls'' operationRead timeoutRead,
    entry ''episode_summary.save'' ''RunRepository'' ''SaveEpisodeSummary'' operationWrite timeoutTransaction,
    entry ''episode_summary.list'' ''RunRepository'' ''ListEpisodeSummaries'' operationRead timeoutRead,
    entry ''episode_summary.list_recent'' ''RunRepository'' ''ListRecentEpisodeSummaries'' operationRead timeoutRead,
    entry ''episode_summary.count'' ''RunRepository'' ''CountEpisodeSummaries'' operationRead timeoutRead,
    entry ''document_record.save'' ''DocumentRepository'' ''SaveDocumentRecord'' operationWrite timeoutTransaction,
    entry ''document_record.get'' ''DocumentRepository'' ''GetDocumentRecord'' operationRead timeoutRead,
    entry ''document_record.list'' ''DocumentRepository'' ''ListDocumentRecords'' operationRead timeoutRead,
    entry ''approval.save'' ''ApprovalRepository'' ''SaveApproval'' operationWrite timeoutTransaction,
    entry ''approval.get'' ''ApprovalRepository'' ''GetApproval'' operationRead timeoutRead,
    entry ''approval.find_external_ref'' ''ApprovalRepository'' ''FindApprovalByExternalRef'' operationRead timeoutRead,
    entry ''approval.update_pending'' ''ApprovalRepository'' ''UpdatePendingApproval'' operationWrite timeoutTransaction,
    entry ''approval.resolve'' ''ApprovalRepository'' ''ResolveApproval'' operationWrite timeoutTransaction,
    entry ''approval.resolve_inputs'' ''ApprovalRepository'' ''ResolveApprovalWithInputs'' operationWrite timeoutTransaction,
    entry ''approval.list'' ''ApprovalRepository'' ''ListApprovals'' operationRead timeoutRead,
    entry ''audit.add'' ''AuditRepository'' ''AddAudit'' operationWrite timeoutWrite,
    entry ''audit.list'' ''AuditRepository'' ''ListAudit'' operationRead timeoutRead,
    entry ''audit.event_window'' ''AuditRepository'' ''ReadEventWindow'' operationRead timeoutRead,
    entry ''audit.events_after'' ''AuditRepository'' ''EventsAfter'' operationRead timeoutRead,
    entry ''evaluation.save'' ''EvaluationRepository'' ''SaveEvalRun'' operationWrite timeoutTransaction,
    entry ''evaluation.get'' ''EvaluationRepository'' ''GetEvalRun'' operationRead timeoutRead,
    entry ''evaluation.list'' ''EvaluationRepository'' ''ListEvalRuns'' operationRead timeoutRead,
    entry ''artifact_metadata.save'' ''ArtifactMetadataRepository'' ''SaveArtifactObject'' operationWrite timeoutTransaction,
    entry ''artifact_metadata.list'' ''ArtifactMetadataRepository'' ''ListArtifactObjects'' operationRead timeoutRead,
    entry ''artifact_metadata.find_by_uri'' ''ArtifactMetadataRepository'' ''FindArtifactObjectByURI'' operationRead timeoutRead,
    entry ''browser_auth.save'' ''BrowserStateRepository'' ''SaveBrowserAuthRecord'' operationWrite timeoutTransaction]"

definition operationSpecs_3 :: "(string, operationSpec) gomap" where
  "operationSpecs_3 = [
    entry ''browser_auth.get'' ''BrowserStateRepository'' ''GetBrowserAuthRecord'' operationRead timeoutRead,
    entry ''browser_auth.find'' ''BrowserStateRepository'' ''FindBrowserAuthRecord'' operationRead timeoutRead,
    entry ''browser_auth.list'' ''BrowserStateRepository'' ''ListBrowserAuthRecords'' operationRead timeoutRead,
    entry ''browser_auth.revoke'' ''BrowserStateRepository'' ''RevokeBrowserAuthRecord'' operationWrite timeoutTransaction,
    entry ''browser_login_block.save'' ''BrowserStateRepository'' ''SaveBrowserLoginBlock'' operationWrite timeoutTransaction,
    entry ''browser_login_block.update'' ''BrowserStateRepository'' ''UpdateBrowserLoginBlock'' operationWrite timeoutTransaction,
    entry ''browser_login_block.get'' ''BrowserStateRepository'' ''GetBrowserLoginBlock'' operationRead timeoutRead,
    entry ''browser_login_block.find_active'' ''BrowserStateRepository'' ''FindActiveBrowserLoginBlock'' operationRead timeoutRead,
    entry ''browser_login_block.list'' ''BrowserStateRepository'' ''ListBrowserLoginBlocks'' operationRead timeoutRead,
    entry ''memory_candidate.add'' ''MemoryRepository'' ''AddMemoryCandidate'' operationWrite timeoutTransaction,
    entry ''memory_candidate.resolve'' ''MemoryRepository'' ''ResolveMemoryCandidate'' operationWrite timeoutTransaction,
    entry ''memory_candidate.list'' ''MemoryRepository'' ''ListMemoryCandidates'' operationRead timeoutRead,
    entry ''memory.search'' ''MemoryRepository'' ''SearchMemories'' operationRead timeoutRead,
    entry ''memory.update'' ''MemoryRepository'' ''UpdateMemory'' operationWrite timeoutTransaction,
    entry ''memory.delete'' ''MemoryRepository'' ''DeleteMemory'' operationWrite timeoutTransaction,
    entry ''memory.prune'' ''MemoryRepository'' ''PruneMemories'' operationWrite timeoutTransaction,
    entry ''reminder.save'' ''ScheduleRepository'' ''SaveReminder'' operationWrite timeoutTransaction,
    entry ''reminder.update_pending'' ''ScheduleRepository'' ''UpdatePendingReminder'' operationWrite timeoutTransaction,
    entry ''reminder.get'' ''ScheduleRepository'' ''GetReminder'' operationRead timeoutRead,
    entry ''reminder.list'' ''ScheduleRepository'' ''ListReminders'' operationRead timeoutRead,
    entry ''workbench_schedule.advance'' ''ScheduleRepository'' ''AdvanceWorkbenchSchedule'' operationWrite timeoutTransaction,
    entry ''reminder.claim_due'' ''ScheduleRepository'' ''ClaimDueReminders'' operationWrite timeoutWrite,
    entry ''reminder_delivery.save'' ''ScheduleRepository'' ''SaveReminderDelivery'' operationWrite timeoutTransaction,
    entry ''reminder_delivery.list'' ''ScheduleRepository'' ''ListReminderDeliveries'' operationRead timeoutRead,
    entry ''passive_notification.create'' ''PassiveNotificationRepository'' ''CreatePassiveNotification'' operationWrite timeoutTransaction,
    entry ''passive_notification.get'' ''PassiveNotificationRepository'' ''GetPassiveNotification'' operationRead timeoutRead,
    entry ''passive_notification.list'' ''PassiveNotificationRepository'' ''ListPassiveNotifications'' operationRead timeoutRead,
    entry ''passive_notification.count_unread'' ''PassiveNotificationRepository'' ''CountUnreadPassiveNotifications'' operationRead timeoutRead,
    entry ''passive_notification.mark_read'' ''PassiveNotificationRepository'' ''MarkPassiveNotificationRead'' operationWrite timeoutWrite,
    entry ''passive_notification.mark_all_read'' ''PassiveNotificationRepository'' ''MarkAllPassiveNotificationsRead'' operationWrite timeoutWrite,
    entry ''passive_notification.prune'' ''PassiveNotificationRepository'' ''PrunePassiveNotifications'' operationWrite timeoutTransaction,
    entry ''passive_notification.revision'' ''PassiveNotificationRepository'' ''PassiveNotificationRevision'' operationRead timeoutRead,
    entry ''message_receive.save'' ''DeliveryRecordRepository'' ''SaveMessageReceive'' operationWrite timeoutTransaction,
    entry ''message_receive.get'' ''DeliveryRecordRepository'' ''GetMessageReceive'' operationRead timeoutRead,
    entry ''message_receive.find'' ''DeliveryRecordRepository'' ''FindMessageReceive'' operationRead timeoutRead,
    entry ''message_receive.list'' ''DeliveryRecordRepository'' ''ListMessageReceives'' operationRead timeoutRead,
    entry ''message_delivery.save'' ''DeliveryRecordRepository'' ''SaveMessageDelivery'' operationWrite timeoutTransaction]"

definition operationSpecs_4 :: "(string, operationSpec) gomap" where
  "operationSpecs_4 = [
    entry ''message_delivery.get'' ''DeliveryRecordRepository'' ''GetMessageDelivery'' operationRead timeoutRead,
    entry ''message_delivery.find_idempotency'' ''DeliveryRecordRepository'' ''FindMessageDeliveryByIdempotency'' operationRead timeoutRead,
    entry ''message_delivery.list'' ''DeliveryRecordRepository'' ''ListMessageDeliveries'' operationRead timeoutRead,
    entry ''channel_inbox_update.save'' ''DeliveryRecordRepository'' ''SaveChannelInboxUpdate'' operationWrite timeoutTransaction,
    entry ''channel_inbox_update.get'' ''DeliveryRecordRepository'' ''GetChannelInboxUpdate'' operationRead timeoutRead,
    entry ''channel_inbox_update.find'' ''DeliveryRecordRepository'' ''FindChannelInboxUpdate'' operationRead timeoutRead,
    entry ''channel_inbox_update.list'' ''DeliveryRecordRepository'' ''ListChannelInboxUpdates'' operationRead timeoutRead,
    entry ''owner_profile.get'' ''OwnerRepository'' ''GetOwnerProfile'' operationRead timeoutRead,
    entry ''owner_profile.update'' ''OwnerRepository'' ''UpdateOwnerProfile'' operationWrite timeoutTransaction,
    entry ''owner_profile.get_by_id'' ''OwnerRepository'' ''GetOwnerProfileByID'' operationRead timeoutRead,
    entry ''owner_profile.save'' ''OwnerRepository'' ''SaveOwnerProfile'' operationWrite timeoutTransaction,
    entry ''owner_profile.list'' ''OwnerRepository'' ''ListOwnerProfiles'' operationRead timeoutRead,
    entry ''owner_profile.find_external_ref'' ''OwnerRepository'' ''FindOwnerProfileByExternalRef'' operationRead timeoutRead,
    entry ''client.get'' ''ClientRepository'' ''GetClient'' operationRead timeoutRead,
    entry ''client.list'' ''ClientRepository'' ''ListClients'' operationRead timeoutRead,
    entry ''client.register'' ''ClientRepository'' ''RegisterClient'' operationWrite timeoutTransaction,
    entry ''client.revoke'' ''ClientRepository'' ''RevokeClient'' operationWrite timeoutTransaction,
    entry ''client.delete'' ''ClientRepository'' ''DeleteClient'' operationWrite timeoutTransaction,
    entry ''client.find_token_hash'' ''ClientRepository'' ''FindClientByTokenHash'' operationRead timeoutRead,
    entry ''client.touch'' ''ClientRepository'' ''TouchClient'' operationWrite timeoutTransaction,
    entry ''pairing_code.save'' ''ClientRepository'' ''SavePairingCode'' operationWrite timeoutTransaction,
    entry ''pairing_code.get'' ''ClientRepository'' ''GetPairingCode'' operationRead timeoutRead,
    entry ''pairing_code.claim'' ''ClientRepository'' ''ClaimPairingCode'' operationWrite timeoutTransaction,
    entry ''credential_secret.save'' ''CredentialRepository'' ''SaveCredentialSecret'' operationWrite timeoutTransaction,
    entry ''credential_secret.get'' ''CredentialRepository'' ''GetCredentialSecret'' operationRead timeoutRead,
    entry ''credential_secret.list'' ''CredentialRepository'' ''ListCredentialSecrets'' operationRead timeoutRead,
    entry ''credential_secret.delete'' ''CredentialRepository'' ''DeleteCredentialSecret'' operationWrite timeoutTransaction,
    entry ''connector_setting.get'' ''ConnectorRepository'' ''GetConnectorSetting'' operationRead timeoutRead,
    entry ''connector_setting.list'' ''ConnectorRepository'' ''ListConnectorSettings'' operationRead timeoutRead,
    entry ''connector_setting.list_all'' ''ConnectorRepository'' ''ListAllConnectorSettings'' operationRead timeoutRead,
    entry ''connector_setting.update'' ''ConnectorRepository'' ''UpdateConnectorSetting'' operationWrite timeoutTransaction,
    entry ''email_provider_setting.get'' ''ConnectorRepository'' ''GetEmailProviderSetting'' operationRead timeoutRead,
    entry ''email_provider_setting.list'' ''ConnectorRepository'' ''ListEmailProviderSettings'' operationRead timeoutRead,
    entry ''email_provider_setting.update'' ''ConnectorRepository'' ''UpdateEmailProviderSetting'' operationWrite timeoutTransaction,
    entry ''notification_binding.create'' ''ConnectorRepository'' ''CreateNotificationBinding'' operationWrite timeoutTransaction,
    entry ''notification_binding.get'' ''ConnectorRepository'' ''GetNotificationBinding'' operationRead timeoutRead,
    entry ''notification_binding.list'' ''ConnectorRepository'' ''ListNotificationBindings'' operationRead timeoutRead]"

definition operationSpecs_5 :: "(string, operationSpec) gomap" where
  "operationSpecs_5 = [
    entry ''notification_binding.update'' ''ConnectorRepository'' ''UpdateNotificationBinding'' operationWrite timeoutTransaction,
    entry ''external_chat_session.save'' ''ExternalChatRepository'' ''SaveExternalChatSession'' operationWrite timeoutTransaction,
    entry ''external_chat_session.get'' ''ExternalChatRepository'' ''GetExternalChatSession'' operationRead timeoutRead,
    entry ''external_chat_session.list'' ''ExternalChatRepository'' ''ListExternalChatSessions'' operationRead timeoutRead,
    entry ''external_chat_session.find'' ''ExternalChatRepository'' ''FindExternalChatSession'' operationRead timeoutRead,
    entry ''external_chat_session.find_linked_session'' ''ExternalChatRepository'' ''FindExternalChatSessionByLinkedSessionID'' operationRead timeoutRead,
    entry ''external_chat_message.save'' ''ExternalChatRepository'' ''SaveExternalChatMessage'' operationWrite timeoutTransaction,
    entry ''external_chat_message.get'' ''ExternalChatRepository'' ''GetExternalChatMessage'' operationRead timeoutRead,
    entry ''external_chat_message.find_external_id'' ''ExternalChatRepository'' ''FindExternalChatMessageByExternalID'' operationRead timeoutRead,
    entry ''external_chat_message.list'' ''ExternalChatRepository'' ''ListExternalChatMessages'' operationRead timeoutRead,
    entry ''mcp_access_ticket.save'' ''MCPRepository'' ''SaveMCPAccessTicket'' operationWrite timeoutTransaction,
    entry ''mcp_invocation_session.delete'' ''MCPRepository'' ''DeleteMCPInvocationSession'' operationWrite timeoutTransaction,
    entry ''mcp_access_ticket.get'' ''MCPRepository'' ''GetMCPAccessTicket'' operationRead timeoutRead,
    entry ''mcp_access_ticket.find_secret_hash'' ''MCPRepository'' ''FindMCPAccessTicketBySecretHash'' operationRead timeoutRead,
    entry ''mcp_access_ticket.list'' ''MCPRepository'' ''ListMCPAccessTickets'' operationRead timeoutRead,
    entry ''mcp_access_ticket.redeem'' ''MCPRepository'' ''RedeemMCPAccessTicket'' operationWrite timeoutTransaction,
    entry ''mcp_access_ticket.revoke'' ''MCPRepository'' ''RevokeMCPAccessTicket'' operationWrite timeoutTransaction,
    entry ''mcp_access_ticket.delete'' ''MCPRepository'' ''DeleteMCPAccessTicket'' operationWrite timeoutTransaction,
    entry ''mcp_binding.get'' ''MCPRepository'' ''GetMCPBinding'' operationRead timeoutRead,
    entry ''mcp_binding.find_peer'' ''MCPRepository'' ''FindMCPBindingForPeer'' operationRead timeoutRead,
    entry ''mcp_binding.list'' ''MCPRepository'' ''ListMCPBindings'' operationRead timeoutRead,
    entry ''mcp_binding.revoke'' ''MCPRepository'' ''RevokeMCPBinding'' operationWrite timeoutTransaction,
    entry ''mcp_binding.delete'' ''MCPRepository'' ''DeleteMCPBinding'' operationWrite timeoutTransaction,
    entry ''mcp_access_records.delete'' ''MCPRepository'' ''DeleteMCPAccessRecords'' operationWrite timeoutTransaction,
    entry ''mcp_binding.touch'' ''MCPRepository'' ''TouchMCPBinding'' operationWrite timeoutTransaction,
    entry ''mcp_operation.create'' ''MCPRepository'' ''CreateMCPOperation'' operationWrite timeoutTransaction,
    entry ''mcp_operation.get'' ''MCPRepository'' ''GetMCPOperation'' operationRead timeoutRead,
    entry ''mcp_operation.find_idempotency'' ''MCPRepository'' ''FindMCPOperationByIdempotency'' operationRead timeoutRead,
    entry ''mcp_operation.list'' ''MCPRepository'' ''ListMCPOperations'' operationRead timeoutRead,
    entry ''mcp_operation.update'' ''MCPRepository'' ''UpdateMCPOperation'' operationWrite timeoutTransaction]"

definition operationSpecs :: "(string, operationSpec) gomap" where
  "operationSpecs = operationSpecs_1 @ operationSpecs_2 @ operationSpecs_3 @ operationSpecs_4 @ operationSpecs_5"

definition registered :: "string \<Rightarrow> bool" where
  "registered op \<longleftrightarrow> mget operationSpecs op \<noteq> None"

section \<open>Timeouts\<close>

record OperationTimeouts =
  ot_Read :: duration
  ot_Write :: duration
  ot_Transaction :: duration

definition defaultOperationTimeouts :: OperationTimeouts where
  "defaultOperationTimeouts = \<lparr>ot_Read = 10 * 1000000000, ot_Write = 30 * 1000000000, ot_Transaction = 60 * 1000000000\<rparr>"

definition normalizeOperationTimeouts :: "OperationTimeouts \<Rightarrow> OperationTimeouts" where
  "normalizeOperationTimeouts t =
     (let t = (if ot_Read t \<le> 0 then t\<lparr>ot_Read := ot_Read defaultOperationTimeouts\<rparr> else t);
          t = (if ot_Write t \<le> 0 then t\<lparr>ot_Write := ot_Write defaultOperationTimeouts\<rparr> else t)
      in (if ot_Transaction t \<le> 0 then t\<lparr>ot_Transaction := ot_Transaction defaultOperationTimeouts\<rparr> else t))"

text \<open>The timeout of an operation; one that is not registered has the zero spec and reads.\<close>

definition operation_timeout :: "OperationTimeouts \<Rightarrow> string \<Rightarrow> duration" where
  "operation_timeout t op = (case mget operationSpecs op of
     None \<Rightarrow> ot_Read t
   | Some spec \<Rightarrow> (case sp_Timeout spec of
        timeoutWrite \<Rightarrow> ot_Write t | timeoutTransaction \<Rightarrow> ot_Transaction t | timeoutRead \<Rightarrow> ot_Read t))"

text \<open>The deadline of the context an operation runs under: the parent's when it is near enough.\<close>

definition operation_deadline :: "gotime \<Rightarrow> gotime option \<Rightarrow> duration \<Rightarrow> gotime" where
  "operation_deadline now parent timeout = (case parent of
     Some deadline \<Rightarrow> if deadline - now \<le> timeout then deadline else now + timeout
   | None \<Rightarrow> now + timeout)"

lemma operation_deadline_min:
  "operation_deadline now parent timeout =
     (case parent of None \<Rightarrow> now + timeout | Some deadline \<Rightarrow> min deadline (now + timeout))"
  by (auto simp: operation_deadline_def split: option.splits)

lemma normalized_positive:
  "0 < ot_Read (normalizeOperationTimeouts t)" "0 < ot_Write (normalizeOperationTimeouts t)"
  "0 < ot_Transaction (normalizeOperationTimeouts t)"
  by (simp_all add: normalizeOperationTimeouts_def defaultOperationTimeouts_def Let_def)

text \<open>Every read has the read timeout and no write does.\<close>

definition well_timed :: "string \<times> operationSpec \<Rightarrow> bool" where
  "well_timed e \<longleftrightarrow> sp_ID (snd e) = fst e \<and> (sp_Mode (snd e) = operationRead \<longleftrightarrow> sp_Timeout (snd e) = timeoutRead)"

lemma well_timed_entry [simp]:
  "well_timed (entry op r m mode timeout) \<longleftrightarrow> (mode = operationRead \<longleftrightarrow> timeout = timeoutRead)"
  by (simp add: well_timed_def entry_def)

lemma specs_well_timed:
  "list_all well_timed operationSpecs_1"
  "list_all well_timed operationSpecs_2"
  "list_all well_timed operationSpecs_3"
  "list_all well_timed operationSpecs_4"
  "list_all well_timed operationSpecs_5"
  by (simp_all add: operationSpecs_1_def operationSpecs_2_def operationSpecs_3_def operationSpecs_4_def operationSpecs_5_def)

lemma operationSpecs_well_timed: "list_all well_timed operationSpecs"
  by (simp add: operationSpecs_def specs_well_timed)

lemma registered_entry: "entry op r m mode timeout \<in> set operationSpecs \<Longrightarrow> registered op"
  by (force simp: registered_def entry_def map_of_eq_None_iff)

lemma registered_run_get [simp]: "registered ''run.get''"
proof (rule registered_entry)
  show "entry ''run.get'' ''RunRepository'' ''GetRun'' operationRead timeoutRead \<in> set operationSpecs"
    unfolding operationSpecs_def operationSpecs_2_def set_append set_simps Un_iff insert_iff by blast
qed

end
