(* ===== verification/Supervisor.thy ===== *)
theory Supervisor
  imports Go_Errors Operation_Specs
begin

text \<open>
  The runtime supervisor of the store, \<open>internal/store/supervisor.go\<close>: admission of operations, the spans
  that account for them, outcome metrics, readiness with its failure streaks, probes and the shutdown
  protocol. The state is the \<open>Supervisor\<close> struct under its mutex together with the spans handed out and the
  idle channels made so far; a step is one method call, so any interleaving of goroutines is a sequence
  of steps. \<open>operationSpan.finish\<close> is one step too, although it sets the flag of the span before it enters the mutex of the
  supervisor. Closing a channel twice panics in Go: the model returns \<open>None\<close>, and reachable runtimes never do.
\<close>

section \<open>State\<close>

datatype BackendKind = BackendMemory | BackendFile | BackendPostgres

datatype RuntimeState = RuntimeStateStarting | RuntimeStateReady | RuntimeStateUnready
  | RuntimeStateClosing | RuntimeStateClosed

record operationMetricValue =
  mv_count :: "64 word"
  mv_duration :: duration

text \<open>\<open>sv_idle\<close> names the current idle channel; \<open>sv_chans\<close> tells for every channel made whether it is closed.\<close>

record Supervisor =
  sv_backend :: BackendKind
  sv_durable :: bool
  sv_state :: RuntimeState
  sv_ready :: bool
  sv_reasonCode :: string
  sv_startedAt :: gotime
  sv_lastProbeAt :: "gotime option"
  sv_degradedAt :: "gotime option"
  sv_lastRecoveredAt :: "gotime option"
  sv_closing :: bool
  sv_active :: int
  sv_idle :: nat
  sv_chans :: "bool list"
  sv_metrics :: "(string \<times> string, operationMetricValue) gomap"
  sv_failureStreaks :: "(string, int) gomap"

record operationSpan =
  os_operation :: string
  os_startedAt :: gotime
  os_code :: StoreErrorCode
  os_finished :: bool

abbreviation (input) readinessFailureThreshold :: int where "readinessFailureThreshold \<equiv> 3"

definition newSupervisor :: "BackendKind \<Rightarrow> gotime \<Rightarrow> Supervisor" where
  "newSupervisor backend now =
     \<lparr>sv_backend = backend, sv_durable = (backend \<noteq> BackendMemory), sv_state = RuntimeStateStarting,
      sv_ready = False, sv_reasonCode = [], sv_startedAt = now, sv_lastProbeAt = None, sv_degradedAt = None,
      sv_lastRecoveredAt = None, sv_closing = False, sv_active = 0, sv_idle = 0, sv_chans = [True],
      sv_metrics = [], sv_failureStreaks = []\<rparr>"

section \<open>Operations\<close>

definition begin_span :: "gotime \<Rightarrow> string \<Rightarrow> Supervisor \<Rightarrow> (operationSpan \<times> Supervisor) option" where
  "begin_span now operation s =
     (if sv_closing s then None
      else
        let s = (if sv_active s = 0
              then s\<lparr>sv_idle := length (sv_chans s), sv_chans := sv_chans s @ [False]\<rparr> else s)
        in Some (\<lparr>os_operation = operation, os_startedAt = now, os_code = StoreErrorNone, os_finished = False\<rparr>,
             s\<lparr>sv_active := sv_active s + 1\<rparr>))"

definition degradeLocked :: "StoreErrorCode \<Rightarrow> gotime \<Rightarrow> Supervisor \<Rightarrow> Supervisor" where
  "degradeLocked code now s =
     (if \<not> sv_ready s then s
      else s\<lparr>sv_ready := False, sv_state := RuntimeStateUnready, sv_reasonCode := code_text code,
             sv_degradedAt := Some now\<rparr>)"

definition streak :: "Supervisor \<Rightarrow> string \<Rightarrow> int" where
  "streak s operation = (case mget (sv_failureStreaks s) operation of None \<Rightarrow> 0 | Some n \<Rightarrow> n)"

definition observeHealthLocked :: "string \<Rightarrow> StoreErrorCode \<Rightarrow> gotime \<Rightarrow> Supervisor \<Rightarrow> Supervisor" where
  "observeHealthLocked operation code now s =
     (if \<not> registered operation \<or> sv_closing s then s
      else
        let s = (if code \<noteq> StoreErrorTimeout \<and> code \<noteq> StoreErrorUnavailable
              then s\<lparr>sv_failureStreaks := AList.delete operation (sv_failureStreaks s)\<rparr> else s)
        in if \<not> sv_ready s then s
           else if code = StoreErrorCorrupt then degradeLocked code now s
           else if code = StoreErrorDurability \<or> code = StoreErrorUnknownOutcome
             then (if sv_durable s then degradeLocked code now s else s)
           else if code = StoreErrorTimeout \<or> code = StoreErrorUnavailable
             then (let s = s\<lparr>sv_failureStreaks := mput operation (streak s operation + 1) (sv_failureStreaks s)\<rparr>
                   in if readinessFailureThreshold \<le> streak s operation then degradeLocked code now s else s)
           else s)"

definition zero_metric :: operationMetricValue where
  "zero_metric = \<lparr>mv_count = 0, mv_duration = 0\<rparr>"

definition metric_at :: "Supervisor \<Rightarrow> string \<times> string \<Rightarrow> operationMetricValue" where
  "metric_at s k = (case mget (sv_metrics s) k of None \<Rightarrow> zero_metric | Some v \<Rightarrow> v)"

definition outcome_text :: "StoreErrorCode \<Rightarrow> string" where
  "outcome_text code = (if code = StoreErrorNone then ''success'' else code_text code)"

text \<open>\<open>Supervisor.finish\<close>; \<open>None\<close> is the panic of closing a closed channel.\<close>

definition finish :: "gotime \<Rightarrow> operationSpan \<Rightarrow> StoreErrorCode \<Rightarrow> Supervisor \<Rightarrow> Supervisor option" where
  "finish now span code s =
     (let duration = max 0 (now - os_startedAt span);
          key = (os_operation span, outcome_text code);
          metric = metric_at s key;
          s = s\<lparr>sv_metrics := mput key (metric\<lparr>mv_count := mv_count metric + 1,
                 mv_duration := wrap64 (mv_duration metric + duration)\<rparr>) (sv_metrics s)\<rparr>;
          s = observeHealthLocked (os_operation span) code now s;
          s = s\<lparr>sv_active := sv_active s - 1\<rparr>
      in if sv_active s = 0
         then (if sv_chans s ! sv_idle s then None
               else Some (s\<lparr>sv_chans := (sv_chans s)[sv_idle s := True]\<rparr>))
         else Some s)"

definition probeReasonCode :: "go_error \<Rightarrow> string" where
  "probeReasonCode err =
     (if err_is err Canceled then code_text StoreErrorCanceled
      else if err_is err DeadlineExceeded then code_text StoreErrorTimeout
      else code_text StoreErrorUnavailable)"

definition recordProbe :: "gotime \<Rightarrow> go_error option \<Rightarrow> Supervisor \<Rightarrow> Supervisor" where
  "recordProbe now err s =
     (let s = s\<lparr>sv_lastProbeAt := Some now\<rparr>
      in if sv_closing s then s
         else (case err of
             Some e \<Rightarrow>
               let s = s\<lparr>sv_ready := False, sv_state := RuntimeStateUnready, sv_reasonCode := probeReasonCode e\<rparr>
               in if sv_degradedAt s = None then s\<lparr>sv_degradedAt := Some now\<rparr> else s
           | None \<Rightarrow> s\<lparr>sv_ready := True, sv_state := RuntimeStateReady, sv_reasonCode := [],
               sv_failureStreaks := [], sv_lastRecoveredAt := Some now\<rparr>))"

definition startClose :: "Supervisor \<Rightarrow> Supervisor" where
  "startClose s = s\<lparr>sv_closing := True, sv_ready := False, sv_state := RuntimeStateClosing,
     sv_reasonCode := ''closing''\<rparr>"

definition finishClose :: "Supervisor \<Rightarrow> Supervisor" where
  "finishClose s = s\<lparr>sv_state := RuntimeStateClosed, sv_reasonCode := ''closed''\<rparr>"

text \<open>
  \<open>wait\<close> captures the idle channel under the lock and then blocks on it: it can return nil as soon as the
  captured channel is closed, and the context's error when that is set.
\<close>

definition wait_captures :: "Supervisor \<Rightarrow> nat" where
  "wait_captures s = sv_idle s"

definition wait_may_return :: "nat \<Rightarrow> Supervisor \<Rightarrow> bool" where
  "wait_may_return channel s \<longleftrightarrow> sv_chans s ! channel"

record RuntimeStatus =
  sa_Backend :: BackendKind
  sa_State :: RuntimeState
  sa_Ready :: bool
  sa_Durable :: bool
  sa_ReasonCode :: string
  sa_Active :: int
  sa_StartedAt :: gotime
  sa_LastProbeAt :: "gotime option"
  sa_DegradedAt :: "gotime option"
  sa_LastRecovered :: "gotime option"

definition Status :: "Supervisor \<Rightarrow> RuntimeStatus" where
  "Status s = \<lparr>sa_Backend = sv_backend s, sa_State = sv_state s, sa_Ready = sv_ready s, sa_Durable = sv_durable s,
     sa_ReasonCode = sv_reasonCode s, sa_Active = sv_active s, sa_StartedAt = sv_startedAt s,
     sa_LastProbeAt = sv_lastProbeAt s, sa_DegradedAt = sv_degradedAt s, sa_LastRecovered = sv_lastRecoveredAt s\<rparr>"

text \<open>A reported metric; the duration stays in nanoseconds, which the code prints as seconds.\<close>

record OperationMetric =
  om_Operation :: string
  om_Repository :: string
  om_Mode :: string
  om_Outcome :: string
  om_Count :: "64 word"
  om_Duration :: duration

fun mode_text :: "operationMode \<Rightarrow> string" where
  "mode_text operationRead = ''read''"
| "mode_text operationWrite = ''write''"

definition metric_row :: "(string \<times> string) \<times> operationMetricValue \<Rightarrow> OperationMetric" where
  "metric_row e = (case e of ((operation, outcome), v) \<Rightarrow>
     \<lparr>om_Operation = operation,
      om_Repository = (case mget operationSpecs operation of None \<Rightarrow> [] | Some spec \<Rightarrow> sp_Repository spec),
      om_Mode = (case mget operationSpecs operation of None \<Rightarrow> [] | Some spec \<Rightarrow> mode_text (sp_Mode spec)),
      om_Outcome = outcome, om_Count = mv_count v, om_Duration = mv_duration v\<rparr>)"

definition metric_cmp :: "OperationMetric \<Rightarrow> OperationMetric \<Rightarrow> int" where
  "metric_cmp a b = (if om_Operation a \<noteq> om_Operation b then str_cmp (om_Operation a) (om_Operation b)
     else str_cmp (om_Outcome a) (om_Outcome b))"

definition Metrics :: "Supervisor \<Rightarrow> OperationMetric list" where
  "Metrics s = SortFunc metric_cmp (map metric_row (sv_metrics s))"

interpretation metric_order: sort_order metric_cmp "\<lambda>m. (om_Operation m, om_Outcome m)"
  by unfold_locales (auto simp: metric_cmp_def str_cmp_def less_eq_prod_def)

section \<open>Spans\<close>

fun operationOutcomePriority :: "StoreErrorCode \<Rightarrow> int" where
  "operationOutcomePriority StoreErrorDurability = 4"
| "operationOutcomePriority StoreErrorUnknownOutcome = 4"
| "operationOutcomePriority StoreErrorCorrupt = 4"
| "operationOutcomePriority StoreErrorTimeout = 3"
| "operationOutcomePriority StoreErrorUnavailable = 3"
| "operationOutcomePriority StoreErrorInternal = 3"
| "operationOutcomePriority StoreErrorCanceled = 2"
| "operationOutcomePriority StoreErrorNotFound = 1"
| "operationOutcomePriority StoreErrorConflict = 1"
| "operationOutcomePriority StoreErrorInvalid = 1"
| "operationOutcomePriority StoreErrorNone = 0"

definition mark :: "StoreErrorCode \<Rightarrow> operationSpan \<Rightarrow> operationSpan" where
  "mark code span =
     (if code = StoreErrorNone then span
      else if operationOutcomePriority (os_code span) \<le> operationOutcomePriority code
      then span\<lparr>os_code := code\<rparr> else span)"

definition span_outcome :: "go_error option \<Rightarrow> operationSpan \<Rightarrow> StoreErrorCode" where
  "span_outcome ctx_err span =
     (if os_code span = StoreErrorNone
      then (case ctx_err of
          None \<Rightarrow> StoreErrorNone
        | Some e \<Rightarrow> if err_is e Canceled then StoreErrorCanceled
            else if err_is e DeadlineExceeded then StoreErrorTimeout else StoreErrorNone)
      else os_code span)"

text \<open>The supervisor with the spans it has handed out, in the order of their admission.\<close>

record Runtime =
  rt_sup :: Supervisor
  rt_spans :: "operationSpan list"

text \<open>\<open>operationSpan.finish\<close>: only the first call of a span reaches the supervisor.\<close>

definition span_finish :: "gotime \<Rightarrow> go_error option \<Rightarrow> nat \<Rightarrow> Runtime \<Rightarrow> Runtime option" where
  "span_finish now ctx_err i rt =
     (let span = rt_spans rt ! i
      in if os_finished span then Some rt
         else (case finish now span (span_outcome ctx_err span) (rt_sup rt) of
             None \<Rightarrow> None
           | Some s \<Rightarrow> Some (rt\<lparr>rt_sup := s, rt_spans := (rt_spans rt)[i := span\<lparr>os_finished := True\<rparr>]\<rparr>)))"

text \<open>\<open>operationContext\<close>: an operation nested in a span of the same operation joins it; otherwise it asks
  the supervisor, and a refusal is attached to its context.\<close>

definition operationContext ::
  "gotime \<Rightarrow> string \<Rightarrow> nat option \<Rightarrow> Runtime \<Rightarrow> (go_error option \<times> nat option) \<times> Runtime" where
  "operationContext now operation parent rt =
     (case parent of
        Some i \<Rightarrow>
          if os_operation (rt_spans rt ! i) = operation then ((None, parent), rt)
          else (case begin_span now operation (rt_sup rt) of
              None \<Rightarrow> ((Some ErrRuntimeClosing, parent), rt)
            | Some (span, s) \<Rightarrow> ((None, Some (length (rt_spans rt))), rt\<lparr>rt_sup := s, rt_spans := rt_spans rt @ [span]\<rparr>))
      | None \<Rightarrow> (case begin_span now operation (rt_sup rt) of
            None \<Rightarrow> ((Some ErrRuntimeClosing, None), rt)
          | Some (span, s) \<Rightarrow> ((None, Some (length (rt_spans rt))), rt\<lparr>rt_sup := s, rt_spans := rt_spans rt @ [span]\<rparr>)))"

section \<open>Steps\<close>

definition init_runtime :: "Runtime \<Rightarrow> bool" where
  "init_runtime rt \<longleftrightarrow> (\<exists>backend now. rt = \<lparr>rt_sup = newSupervisor backend now, rt_spans = []\<rparr>)"

inductive runtime_step :: "Runtime \<Rightarrow> Runtime \<Rightarrow> bool" where
  step_open: "operationContext now operation parent rt = (r, rt') \<Longrightarrow>
    (case parent of None \<Rightarrow> True | Some i \<Rightarrow> i < length (rt_spans rt)) \<Longrightarrow> runtime_step rt rt'"
| step_mark: "i < length (rt_spans rt) \<Longrightarrow>
    runtime_step rt (rt\<lparr>rt_spans := (rt_spans rt)[i := mark code (rt_spans rt ! i)]\<rparr>)"
| step_finish: "i < length (rt_spans rt) \<Longrightarrow> span_finish now ctx_err i rt = Some rt' \<Longrightarrow> runtime_step rt rt'"
| step_probe: "runtime_step rt (rt\<lparr>rt_sup := recordProbe now err (rt_sup rt)\<rparr>)"
| step_startClose: "runtime_step rt (rt\<lparr>rt_sup := startClose (rt_sup rt)\<rparr>)"
| step_finishClose: "runtime_step rt (rt\<lparr>rt_sup := finishClose (rt_sup rt)\<rparr>)"

inductive_cases runtime_stepE: "runtime_step rt rt'"

abbreviation reachable_runtime :: "Runtime \<Rightarrow> bool" where
  "reachable_runtime \<equiv> reach init_runtime runtime_step"

section \<open>What the methods leave alone\<close>

lemma degrade_frame [simp]:
  "sv_active (degradeLocked c t s) = sv_active s" "sv_idle (degradeLocked c t s) = sv_idle s"
  "sv_chans (degradeLocked c t s) = sv_chans s" "sv_metrics (degradeLocked c t s) = sv_metrics s"
  "sv_closing (degradeLocked c t s) = sv_closing s" "sv_durable (degradeLocked c t s) = sv_durable s"
  "sv_failureStreaks (degradeLocked c t s) = sv_failureStreaks s"
  "sv_ready (degradeLocked c t s) = False"
  by (simp_all add: degradeLocked_def)

lemma observe_frame [simp]:
  "sv_active (observeHealthLocked op c t s) = sv_active s" "sv_idle (observeHealthLocked op c t s) = sv_idle s"
  "sv_chans (observeHealthLocked op c t s) = sv_chans s" "sv_metrics (observeHealthLocked op c t s) = sv_metrics s"
  "sv_closing (observeHealthLocked op c t s) = sv_closing s" "sv_durable (observeHealthLocked op c t s) = sv_durable s"
  by (simp_all add: observeHealthLocked_def Let_def)

lemma probe_frame [simp]:
  "sv_active (recordProbe t e s) = sv_active s" "sv_idle (recordProbe t e s) = sv_idle s"
  "sv_chans (recordProbe t e s) = sv_chans s" "sv_metrics (recordProbe t e s) = sv_metrics s"
  "sv_closing (recordProbe t e s) = sv_closing s"
  by (simp_all add: recordProbe_def Let_def split: option.splits)

lemma close_frame [simp]:
  "sv_active (startClose s) = sv_active s" "sv_idle (startClose s) = sv_idle s"
  "sv_chans (startClose s) = sv_chans s" "sv_metrics (startClose s) = sv_metrics s" "sv_closing (startClose s)"
  "sv_active (finishClose s) = sv_active s" "sv_idle (finishClose s) = sv_idle s"
  "sv_chans (finishClose s) = sv_chans s" "sv_metrics (finishClose s) = sv_metrics s"
  "sv_closing (finishClose s) = sv_closing s"
  by (simp_all add: startClose_def finishClose_def)

lemma mark_frame [simp]: "os_operation (mark c sp) = os_operation sp" "os_finished (mark c sp) = os_finished sp"
  by (simp_all add: mark_def)

lemma observe_ready_mono: "sv_ready (observeHealthLocked op c t s) \<Longrightarrow> sv_ready s"
  by (auto simp: observeHealthLocked_def Let_def split: if_splits)

section \<open>Accounting\<close>

definition pending :: "Runtime \<Rightarrow> nat" where
  "pending rt = length (filter (\<lambda>sp. \<not> os_finished sp) (rt_spans rt))"

definition finished_of :: "string \<Rightarrow> Runtime \<Rightarrow> nat" where
  "finished_of op rt = length (filter (\<lambda>sp. os_finished sp \<and> os_operation sp = op) (rt_spans rt))"

definition op_total :: "(string \<times> string, operationMetricValue) gomap \<Rightarrow> string \<Rightarrow> 64 word" where
  "op_total m op = sum_list (map (\<lambda>(k, v). if fst k = op then mv_count v else 0) m)"

lemma op_total_count:
  assumes "v = (case mget m k of None \<Rightarrow> zero_metric | Some v \<Rightarrow> v)" and "mv_count w = mv_count v + 1"
  shows "op_total (mput k w m) op = op_total m op + (if fst k = op then 1 else 0)"
  using assms(1)
proof (induction m)
  case Nil
  then show ?case
    using assms(2) by (simp add: op_total_def zero_metric_def)
next
  case (Cons e m)
  then show ?case
    using assms(2) by (cases e) (auto simp: op_total_def split: if_splits)
qed

lemma length_filter_update:
  "i < length xs \<Longrightarrow> length (filter P (xs[i := x])) + (if P (xs ! i) then 1 else 0) =
     length (filter P xs) + (if P x then 1 else 0)"
proof (induction xs arbitrary: i)
  case (Cons y ys)
  then show ?case
    by (cases i) auto
qed simp

definition accounted :: "Runtime \<Rightarrow> bool" where
  "accounted rt \<longleftrightarrow>
     sv_active (rt_sup rt) = int (pending rt) \<and>
     sv_idle (rt_sup rt) < length (sv_chans (rt_sup rt)) \<and>
     (sv_chans (rt_sup rt) ! sv_idle (rt_sup rt) \<longleftrightarrow> sv_active (rt_sup rt) = 0) \<and>
     (\<forall>op. op_total (sv_metrics (rt_sup rt)) op = of_nat (finished_of op rt)) \<and>
     (sv_closing (rt_sup rt) \<longrightarrow> \<not> sv_ready (rt_sup rt))"

lemma finish_fields:
  assumes "finish now span code s = Some s'"
  shows "sv_active s' = sv_active s - 1" and "sv_idle s' = sv_idle s" and "sv_closing s' = sv_closing s"
    and "op_total (sv_metrics s') op = op_total (sv_metrics s) op + (if os_operation span = op then 1 else 0)"
    and "sv_chans s' = (if sv_active s = 1 then (sv_chans s)[sv_idle s := True] else sv_chans s)"
    and "sv_ready s' \<Longrightarrow> sv_ready s"
proof -
  let ?key = "(os_operation span, outcome_text code)"
  let ?m = "mput ?key ((metric_at s ?key)\<lparr>mv_count := mv_count (metric_at s ?key) + 1,
    mv_duration := wrap64 (mv_duration (metric_at s ?key) + max 0 (now - os_startedAt span))\<rparr>) (sv_metrics s)"
  have m: "sv_metrics s' = ?m"
    using assms by (auto simp: finish_def Let_def split: if_splits)
  show "op_total (sv_metrics s') op = op_total (sv_metrics s) op + (if os_operation span = op then 1 else 0)"
    unfolding m by (subst op_total_count [where v = "metric_at s ?key"]) (simp_all add: metric_at_def)
  show "sv_active s' = sv_active s - 1" "sv_idle s' = sv_idle s" "sv_closing s' = sv_closing s"
    "sv_chans s' = (if sv_active s = 1 then (sv_chans s)[sv_idle s := True] else sv_chans s)"
    using assms by (auto simp: finish_def Let_def split: if_splits)
  show "sv_ready s' \<Longrightarrow> sv_ready s"
    using assms by (auto simp: finish_def Let_def split: if_splits dest!: observe_ready_mono)
qed

lemma accounted_init: "init_runtime rt \<Longrightarrow> accounted rt"
  by (auto simp: init_runtime_def accounted_def newSupervisor_def pending_def finished_of_def op_total_def)

lemma accounted_open:
  assumes "accounted rt" and "begin_span now operation (rt_sup rt) = Some (span, s)"
  shows "accounted (rt\<lparr>rt_sup := s, rt_spans := rt_spans rt @ [span]\<rparr>)"
  using assms by (auto simp: accounted_def begin_span_def pending_def finished_of_def Let_def nth_append split: if_splits)

lemma accounted_finish:
  assumes "accounted rt" and "i < length (rt_spans rt)" and "span_finish now ctx_err i rt = Some rt'"
  shows "accounted rt'"
proof (cases "os_finished (rt_spans rt ! i)")
  case True
  with assms show ?thesis by (simp add: span_finish_def Let_def)
next
  case False
  let ?sp = "rt_spans rt ! i"
  obtain s where s: "finish now ?sp (span_outcome ctx_err ?sp) (rt_sup rt) = Some s"
    and rt': "rt' = rt\<lparr>rt_sup := s, rt_spans := (rt_spans rt)[i := ?sp\<lparr>os_finished := True\<rparr>]\<rparr>"
    using assms(3) False by (auto simp: span_finish_def Let_def split: option.splits)
  have pending: "pending rt' + 1 = pending rt"
    using length_filter_update [OF assms(2), of "\<lambda>sp. \<not> os_finished sp" "?sp\<lparr>os_finished := True\<rparr>"] False
    by (simp add: pending_def rt')
  have fin: "finished_of op rt' = finished_of op rt + (if os_operation ?sp = op then 1 else 0)" for op
    using length_filter_update [OF assms(2), of "\<lambda>sp. os_finished sp \<and> os_operation sp = op" "?sp\<lparr>os_finished := True\<rparr>"] False
    by (auto simp: finished_of_def rt')
  have "sv_active (rt_sup rt) \<ge> 1"
    using assms(1) pending by (simp add: accounted_def)
  then show ?thesis
    using assms(1) pending fin finish_fields [OF s]
    by (auto simp: accounted_def rt')
qed

lemma accounted_mark:
  assumes "accounted rt" and "i < length (rt_spans rt)"
  shows "accounted (rt\<lparr>rt_spans := (rt_spans rt)[i := mark c (rt_spans rt ! i)]\<rparr>)"
  using assms length_filter_update [OF assms(2), of "\<lambda>sp. \<not> os_finished sp" "mark c (rt_spans rt ! i)"]
    length_filter_update [OF assms(2), of "\<lambda>sp. os_finished sp \<and> os_operation sp = op" "mark c (rt_spans rt ! i)" for op]
  by (auto simp: accounted_def pending_def finished_of_def)

lemma operationContext_cases:
  assumes "operationContext now operation parent rt = (r, rt')"
  obtains "rt' = rt"
  | span s where "begin_span now operation (rt_sup rt) = Some (span, s)"
      and "rt' = rt\<lparr>rt_sup := s, rt_spans := rt_spans rt @ [span]\<rparr>"
  using assms by (auto simp: operationContext_def split: option.splits if_splits)

lemma accounted_step: "runtime_step rt rt' \<Longrightarrow> accounted rt \<Longrightarrow> accounted rt'"
proof (induction rule: runtime_step.induct)
  case (step_open now operation parent rt r rt')
  show ?case
    by (rule operationContext_cases [OF step_open(1)]) (use step_open(3) accounted_open in auto)
next
  case (step_finish i rt now ctx_err rt')
  then show ?case using accounted_finish by blast
next
  case (step_mark i rt code)
  then show ?case using accounted_mark by blast
next
  case (step_probe rt now err)
  then show ?case
    by (auto simp: accounted_def pending_def finished_of_def recordProbe_def Let_def split: option.splits)
next
  case (step_startClose rt)
  then show ?case
    by (simp add: accounted_def pending_def finished_of_def startClose_def)
next
  case (step_finishClose rt)
  then show ?case
    by (simp add: accounted_def pending_def finished_of_def finishClose_def)
qed

interpretation runtime: invariant_system init_runtime runtime_step accounted
  by unfold_locales (fact accounted_init, fact accounted_step)

section \<open>Shutdown\<close>

lemma closing_step:
  assumes "runtime_step rt rt'" and "sv_closing (rt_sup rt)"
  shows "sv_closing (rt_sup rt') \<and> length (rt_spans rt') = length (rt_spans rt) \<and>
    sv_active (rt_sup rt') \<le> sv_active (rt_sup rt) \<and> sv_idle (rt_sup rt') = sv_idle (rt_sup rt)"
  using assms
proof (induction rule: runtime_step.induct)
  case (step_open now operation parent rt r rt')
  then show ?case
    by (auto elim!: operationContext_cases simp: begin_span_def)
next
  case (step_finish i rt now ctx_err rt')
  then show ?case
    by (auto simp: span_finish_def Let_def finish_fields split: if_splits option.splits)
qed simp_all

lemma closing_steps:
  assumes "runtime_step\<^sup>*\<^sup>* rt rt'" and "sv_closing (rt_sup rt)"
  shows "sv_closing (rt_sup rt') \<and> length (rt_spans rt') = length (rt_spans rt) \<and>
    sv_active (rt_sup rt') \<le> sv_active (rt_sup rt) \<and> sv_idle (rt_sup rt') = sv_idle (rt_sup rt)"
  using assms by (induction rule: rtranclp_induct) (force dest: closing_step)+

section \<open>Readiness\<close>

text \<open>
  A history of finished operations, oldest first, with their outcomes and times, and the reference rule
  for when its last entry takes the runtime out of readiness: corruption always, a durability failure or
  an unknown outcome on a durable backend, and the third consecutive timeout or unavailability of the
  same operation.
\<close>

type_synonym health_history = "(string \<times> StoreErrorCode \<times> gotime) list"

definition transient :: "StoreErrorCode \<Rightarrow> bool" where
  "transient c \<longleftrightarrow> c = StoreErrorTimeout \<or> c = StoreErrorUnavailable"

definition trailing_failures :: "string \<Rightarrow> health_history \<Rightarrow> nat" where
  "trailing_failures op h =
     length (takeWhile (\<lambda>e. transient (fst (snd e))) (rev (filter (\<lambda>e. fst e = op) h)))"

definition trips :: "bool \<Rightarrow> health_history \<Rightarrow> bool" where
  "trips durable h = (case rev h of [] \<Rightarrow> False
     | (op, c, t) # _ \<Rightarrow> registered op \<and>
         (c = StoreErrorCorrupt \<or>
          durable \<and> (c = StoreErrorDurability \<or> c = StoreErrorUnknownOutcome) \<or>
          transient c \<and> 3 \<le> trailing_failures op h))"

definition observe_all :: "health_history \<Rightarrow> Supervisor \<Rightarrow> Supervisor" where
  "observe_all h s = fold (\<lambda>(op, c, t). observeHealthLocked op c t) h s"

lemma trailing_failures_snoc:
  "trailing_failures op (h @ [(op', c, t)]) =
     (if op' \<noteq> op then trailing_failures op h else if transient c then Suc (trailing_failures op h) else 0)"
  by (simp add: trailing_failures_def)

lemma observe_all_frame [simp]:
  "sv_closing (observe_all h s) = sv_closing s" "sv_durable (observe_all h s) = sv_durable s"
  by (induction h arbitrary: s) (auto simp: observe_all_def)

lemma streak_simps [simp]:
  "streak (s\<lparr>sv_failureStreaks := AList.delete op m\<rparr>) op' =
     (if op' = op then 0 else streak (s\<lparr>sv_failureStreaks := m\<rparr>) op')"
  "streak (s\<lparr>sv_failureStreaks := mput op n m\<rparr>) op' =
     (if op' = op then n else streak (s\<lparr>sv_failureStreaks := m\<rparr>) op')"
  "streak (s\<lparr>sv_failureStreaks := sv_failureStreaks s\<rparr>) op' = streak s op'"
  "streak (degradeLocked c t s) op = streak s op"
  by (auto simp: streak_def AList.delete_conv' mget_mput)

lemma observe_health:
  assumes "registered op" and "\<not> sv_closing s" and "sv_ready s"
  shows "sv_ready (observeHealthLocked op c t s) \<longleftrightarrow>
      c \<noteq> StoreErrorCorrupt \<and>
      \<not> (sv_durable s \<and> (c = StoreErrorDurability \<or> c = StoreErrorUnknownOutcome)) \<and>
      \<not> (transient c \<and> 3 \<le> streak s op + 1)"
    and "streak (observeHealthLocked op c t s) op' =
      (if op' \<noteq> op then streak s op' else if transient c then streak s op + 1 else 0)"
  using assms by (auto simp: observeHealthLocked_def transient_def Let_def)

lemma observe_other:
  "\<not> registered op \<Longrightarrow> observeHealthLocked op c t s = s"
  by (simp add: observeHealthLocked_def)

lemma readiness:
  assumes "\<not> sv_closing s" and "sv_ready s" and "\<And>op. streak s op = 0"
  shows "(sv_ready (observe_all h s) \<longleftrightarrow> (\<forall>n \<le> length h. \<not> trips (sv_durable s) (take n h))) \<and>
    (sv_ready (observe_all h s) \<longrightarrow>
      (\<forall>op. registered op \<longrightarrow> streak (observe_all h s) op = int (trailing_failures op h)))"
proof (induction h rule: rev_induct)
  case Nil
  then show ?case
    using assms by (simp add: observe_all_def trips_def trailing_failures_def)
next
  case (snoc e h)
  obtain op c t where e: "e = (op, c, t)" by (cases e)
  have step: "observe_all (h @ [(op, c, t)]) s = observeHealthLocked op c t (observe_all h s)"
    by (simp add: observe_all_def)
  have prefixes: "(\<forall>n \<le> length (h @ [(op, c, t)]). \<not> trips d (take n (h @ [(op, c, t)]))) \<longleftrightarrow>
      (\<forall>n \<le> length h. \<not> trips d (take n h)) \<and> \<not> trips d (h @ [(op, c, t)])" for d
    by (auto simp: le_Suc_eq)
  show ?case
  proof (cases "sv_ready (observe_all h s)")
    case False
    then show ?thesis
      using snoc.IH observe_ready_mono [of op c t "observe_all h s"] unfolding e prefixes step by blast
  next
    case ready: True
    show ?thesis
    proof (cases "registered op")
      case False
      then show ?thesis
        using snoc.IH ready unfolding e prefixes step observe_other [OF False]
        by (auto simp: trips_def trailing_failures_snoc)
    next
      case True
      have "streak (observe_all h s) op = int (trailing_failures op h)"
        using snoc.IH ready True by simp
      then have "sv_ready (observe_all (h @ [(op, c, t)]) s) \<longleftrightarrow> \<not> trips (sv_durable s) (h @ [(op, c, t)])"
        using observe_health(1) [OF True, of "observe_all h s" c t] ready assms(1) True
        by (auto simp: step trips_def trailing_failures_snoc transient_def)
      moreover have "streak (observe_all (h @ [(op, c, t)]) s) op' = int (trailing_failures op' (h @ [(op, c, t)]))"
        if "registered op'" for op'
        using observe_health(2) [OF True, of "observe_all h s" c t op'] ready assms(1) that snoc.IH
        by (auto simp: step trailing_failures_snoc)
      ultimately show ?thesis
        using snoc.IH ready unfolding e prefixes by blast
    qed
  qed
qed

section \<open>Outcomes of a span\<close>

lemma priority_range: "0 \<le> operationOutcomePriority c" "operationOutcomePriority c = 0 \<longleftrightarrow> c = StoreErrorNone"
  by (cases c; simp)+

definition last_strongest :: "StoreErrorCode \<Rightarrow> StoreErrorCode list \<Rightarrow> bool" where
  "last_strongest c cs \<longleftrightarrow>
     (if c = StoreErrorNone then set cs \<subseteq> {StoreErrorNone}
      else \<exists>before after. cs = before @ c # after \<and>
        (\<forall>d \<in> set before. operationOutcomePriority d \<le> operationOutcomePriority c) \<and>
        (\<forall>d \<in> set after. operationOutcomePriority d < operationOutcomePriority c))"

lemma last_strongest_replace:
  assumes "last_strongest c cs" and "operationOutcomePriority c \<le> operationOutcomePriority d" and "d \<noteq> StoreErrorNone"
  shows "last_strongest d (cs @ [d])"
proof -
  have "operationOutcomePriority x \<le> operationOutcomePriority d" if "x \<in> set cs" for x
  proof (cases "c = StoreErrorNone")
    case True
    with assms(1) that have "x = StoreErrorNone" by (auto simp: last_strongest_def)
    then show ?thesis using priority_range(1) [of d] by simp
  next
    case False
    with assms(1) that have "operationOutcomePriority x \<le> operationOutcomePriority c"
      by (fastforce simp: last_strongest_def intro: less_imp_le)
    with assms(2) show ?thesis by simp
  qed
  with assms(3) show ?thesis
    unfolding last_strongest_def by (simp add: exI [of _ cs])
qed

lemma last_strongest_keep:
  assumes "last_strongest c cs" and "d = StoreErrorNone \<or> operationOutcomePriority d < operationOutcomePriority c"
  shows "last_strongest c (cs @ [d])"
proof (cases "c = StoreErrorNone")
  case True
  with assms priority_range(1) [of d] show ?thesis
    by (auto simp: last_strongest_def)
next
  case False
  then have "operationOutcomePriority d < operationOutcomePriority c"
    using assms(2) priority_range [of c] by auto
  moreover obtain before after where cs: "cs = before @ c # after"
      and "\<forall>d \<in> set before. operationOutcomePriority d \<le> operationOutcomePriority c"
      and "\<forall>d \<in> set after. operationOutcomePriority d < operationOutcomePriority c"
    using assms(1) False by (auto simp: last_strongest_def)
  moreover have "cs @ [d] = before @ c # (after @ [d])"
    by (simp add: cs)
  ultimately have "\<exists>after'. cs @ [d] = before @ c # after' \<and>
      (\<forall>d \<in> set before. operationOutcomePriority d \<le> operationOutcomePriority c) \<and>
      (\<forall>d \<in> set after'. operationOutcomePriority d < operationOutcomePriority c)"
    by (intro exI [of _ "after @ [d]"]) simp
  then show ?thesis
    using False unfolding last_strongest_def by auto
qed

lemma mark_code:
  "os_code (mark d sp) =
     (if d \<noteq> StoreErrorNone \<and> operationOutcomePriority (os_code sp) \<le> operationOutcomePriority d then d else os_code sp)"
  by (simp add: mark_def)

lemma mark_last_strongest:
  "os_code sp = StoreErrorNone \<Longrightarrow> last_strongest (os_code (fold mark cs sp)) cs"
proof (induction cs rule: rev_induct)
  case Nil
  then show ?case by (simp add: last_strongest_def)
next
  case (snoc d cs)
  then have IH: "last_strongest (os_code (fold mark cs sp)) cs" by simp
  show ?case
    using last_strongest_replace [OF IH, of d] last_strongest_keep [OF IH, of d]
    by (auto simp: mark_code)
qed

section \<open>Properties\<close>

definition sample_runtime :: Runtime where
  "sample_runtime = snd (operationContext 5 ''run.save'' None
     (snd (operationContext 3 ''run.get'' None \<lparr>rt_sup = newSupervisor BackendFile 1, rt_spans = []\<rparr>)))"

lemma sample_runtime_spans:
  "rt_spans sample_runtime =
     [\<lparr>os_operation = ''run.get'', os_startedAt = 3, os_code = StoreErrorNone, os_finished = False\<rparr>,
      \<lparr>os_operation = ''run.save'', os_startedAt = 5, os_code = StoreErrorNone, os_finished = False\<rparr>]"
  by (simp add: sample_runtime_def operationContext_def begin_span_def newSupervisor_def Let_def)

lemma sample_runtime_reachable: "reachable_runtime sample_runtime"
proof -
  let ?a = "\<lparr>rt_sup = newSupervisor BackendFile 1, rt_spans = []\<rparr>"
  let ?b = "snd (operationContext 3 ''run.get'' None ?a)"
  have "reachable_runtime ?a"
    by (rule reach_init) (auto simp: init_runtime_def)
  then have "reachable_runtime ?b"
    by (rule reach_step) (rule step_open [where now = 3 and operation = "''run.get''" and parent = None]; simp add: prod_eq_iff)
  then show ?thesis
    unfolding sample_runtime_def
    by (rule reach_step) (rule step_open [where now = 5 and operation = "''run.save''" and parent = None]; simp add: prod_eq_iff)
qed

text \<open>C36: in every reachable runtime the active counter is the number of spans handed out and not yet
  finished, the idle channel is closed exactly when that number is zero, and for every operation the
  metrics count each of its finished spans once (modulo the width of the counter), whatever its outcome;
  a closing runtime is never reported ready.\<close>

theorem supervisor_accounts:
  assumes "reachable_runtime rt"
  shows "sv_active (rt_sup rt) = int (length (filter (\<lambda>sp. \<not> os_finished sp) (rt_spans rt))) \<and>
    (sv_chans (rt_sup rt) ! sv_idle (rt_sup rt) \<longleftrightarrow> sv_active (rt_sup rt) = 0) \<and>
    (\<forall>op. op_total (sv_metrics (rt_sup rt)) op =
       of_nat (length (filter (\<lambda>sp. os_finished sp \<and> os_operation sp = op) (rt_spans rt)))) \<and>
    \<not> (sv_closing (rt_sup rt) \<and> sv_ready (rt_sup rt))"
  using runtime.reach_inv [OF assms] by (simp add: accounted_def pending_def finished_of_def)

lemma supervisor_accounts_witness:
  "sv_active (rt_sup sample_runtime) = 2"
  using supervisor_accounts [OF sample_runtime_reachable] by (simp add: sample_runtime_spans)

text \<open>Finishing a span never panics. In every reachable runtime each span can be finished at any time
  and under any context error, also a second time, which changes nothing; the idle channel is never closed twice.\<close>

theorem finish_never_panics:
  assumes "reachable_runtime rt" and "i < length (rt_spans rt)"
  shows "\<exists>rt'. span_finish now ctx_err i rt = Some rt' \<and> os_finished (rt_spans rt' ! i) \<and>
    span_finish now' ctx_err' i rt' = Some rt'"
proof (cases "os_finished (rt_spans rt ! i)")
  case True
  then show ?thesis by (simp add: span_finish_def Let_def)
next
  case False
  note inv = runtime.reach_inv [OF assms(1)]
  have "0 < pending rt"
    using False assms(2) by (force simp: pending_def filter_empty_conv)
  then have "sv_active (rt_sup rt) \<noteq> 0"
    using inv by (simp add: accounted_def)
  then have "\<not> sv_chans (rt_sup rt) ! sv_idle (rt_sup rt)"
    using inv by (simp add: accounted_def)
  then have "\<exists>s. finish now (rt_spans rt ! i) (span_outcome ctx_err (rt_spans rt ! i)) (rt_sup rt) = Some s"
    by (simp add: finish_def Let_def)
  then show ?thesis
    using False assms(2) by (auto simp: span_finish_def Let_def)
qed

lemma finish_never_panics_witness:
  "\<exists>rt'. span_finish 9 (Some Canceled) 1 sample_runtime = Some rt' \<and> os_finished (rt_spans rt' ! 1) \<and>
     span_finish 10 None 1 rt' = Some rt'"
  by (rule finish_never_panics) (simp_all add: sample_runtime_reachable sample_runtime_spans)

text \<open>C37: shutdown drains. Once closing has started, no later step admits an operation or makes the runtime
  ready again, the active count only falls, and a waiter that captured the idle channel after the start of
  closing is released exactly when no operation is active any more.\<close>

theorem shutdown_drains:
  assumes "reachable_runtime rt" and "sv_closing (rt_sup rt)" and "runtime_step\<^sup>*\<^sup>* rt rt'"
  shows "sv_closing (rt_sup rt') \<and> \<not> sv_ready (rt_sup rt') \<and> length (rt_spans rt') = length (rt_spans rt) \<and>
    fst (operationContext now operation None rt') = (Some ErrRuntimeClosing, None) \<and>
    sv_active (rt_sup rt') \<le> sv_active (rt_sup rt) \<and>
    (wait_may_return (wait_captures (rt_sup rt)) (rt_sup rt') \<longleftrightarrow> sv_active (rt_sup rt') = 0)"
proof -
  have "accounted rt'"
    using runtime.steps_inv [OF assms(3)] runtime.reach_inv [OF assms(1)] by blast
  then show ?thesis
    using closing_steps [OF assms(3,2)]
    by (auto simp: accounted_def wait_may_return_def wait_captures_def operationContext_def begin_span_def)
qed

lemma shutdown_drains_witness:
  "\<not> wait_may_return (wait_captures (startClose (rt_sup sample_runtime)))
      (startClose (rt_sup sample_runtime))"
proof -
  let ?rt = "sample_runtime\<lparr>rt_sup := startClose (rt_sup sample_runtime)\<rparr>"
  have "reachable_runtime ?rt"
    by (rule reach_step [OF sample_runtime_reachable step_startClose])
  from shutdown_drains [OF this, of ?rt] show ?thesis
    using supervisor_accounts [OF sample_runtime_reachable] by (simp add: sample_runtime_spans)
qed

text \<open>Readiness follows the health rule exactly. From a runtime a probe has just found healthy, after
  any history of finished operations it is still ready if and only if no finished operation corrupted the
  store, lost durability or its outcome on a durable backend, or was the third timeout or unavailability in
  a row of the same registered operation.\<close>

theorem readiness_rule:
  assumes "\<not> sv_closing s"
  shows "sv_ready (observe_all h (recordProbe t None s)) \<longleftrightarrow>
    (\<forall>n \<le> length h. \<not> trips (sv_durable s) (take n h))"
  using readiness [of "recordProbe t None s" h] assms
  by (simp add: recordProbe_def streak_def Let_def)

lemma readiness_rule_witness:
  "\<not> sv_ready (observe_all [(''run.get'', StoreErrorTimeout, 1), (''run.save'', StoreErrorNone, 2),
      (''run.get'', StoreErrorUnavailable, 3), (''run.get'', StoreErrorTimeout, 4)]
      (recordProbe 0 None (newSupervisor BackendMemory 0)))"
proof -
  let ?h = "[(''run.get'', StoreErrorTimeout, 1), (''run.save'', StoreErrorNone, 2),
      (''run.get'', StoreErrorUnavailable, 3), (''run.get'', StoreErrorTimeout, 4)]"
  have "trips False (take 4 ?h)"
    by (simp add: trips_def transient_def trailing_failures_def)
  then have "\<not> (\<forall>n \<le> length ?h. \<not> trips (sv_durable (newSupervisor BackendMemory 0)) (take n ?h))"
    by (auto simp: newSupervisor_def intro!: exI [of _ 4])
  moreover have "\<not> sv_closing (newSupervisor BackendMemory 0)"
    by (simp add: newSupervisor_def)
  ultimately show ?thesis
    using readiness_rule [of "newSupervisor BackendMemory 0" ?h 0] by blast
qed

text \<open>The outcome a span reports is the last of the strongest codes marked on it: a weaker code marked
  later never hides a stronger one, and only a span without any code takes its outcome from the context.\<close>

theorem span_reports_strongest:
  assumes "os_code sp = StoreErrorNone"
  shows "last_strongest (os_code (fold mark cs sp)) cs \<and>
    (span_outcome ctx_err (fold mark cs sp) =
       (if set cs \<subseteq> {StoreErrorNone} then span_outcome ctx_err sp else os_code (fold mark cs sp)))"
proof -
  have strongest: "last_strongest (os_code (fold mark cs sp)) cs"
    by (rule mark_last_strongest [OF assms])
  then have "os_code (fold mark cs sp) = StoreErrorNone \<longleftrightarrow> set cs \<subseteq> {StoreErrorNone}"
    unfolding last_strongest_def by (metis in_set_conv_decomp singletonD subsetD)
  with strongest show ?thesis
    using assms by (auto simp: span_outcome_def)
qed

lemma span_reports_strongest_witness:
  "span_outcome (Some Canceled) (fold mark [StoreErrorInvalid, StoreErrorCorrupt, StoreErrorTimeout] (rt_spans sample_runtime ! 0)) =
     StoreErrorCorrupt"
proof -
  have "os_code (rt_spans sample_runtime ! 0) = StoreErrorNone"
    by (simp add: sample_runtime_spans)
  from span_reports_strongest [OF this, of "[StoreErrorInvalid, StoreErrorCorrupt, StoreErrorTimeout]" "Some Canceled"]
  show ?thesis
    by (simp add: sample_runtime_spans mark_def)
qed

text \<open>A failed probe after a recovery reports the time of an earlier degradation. \<open>degradedAt\<close> is kept
  when it is set, and a successful probe does not clear it, so the status of a runtime that was degraded,
  recovered and then failed a probe says it has been degraded since before its last recovery.\<close>

theorem stale_degradation_time:
  assumes "sv_degradedAt s = Some t0" and "\<not> sv_closing s"
  shows "sa_DegradedAt (Status (recordProbe t2 (Some e) (recordProbe t1 None s))) = Some t0 \<and>
    sa_LastRecovered (Status (recordProbe t2 (Some e) (recordProbe t1 None s))) = Some t1 \<and>
    \<not> sa_Ready (Status (recordProbe t2 (Some e) (recordProbe t1 None s)))"
  using assms by (simp add: recordProbe_def Status_def Let_def)

lemma stale_degradation_time_witness:
  "sa_DegradedAt (Status (recordProbe 30 (Some Canceled) (recordProbe 20 None
     (recordProbe 10 (Some Canceled) (newSupervisor BackendPostgres 0))))) = Some 10"
  using stale_degradation_time [of "recordProbe 10 (Some Canceled) (newSupervisor BackendPostgres 0)" 10 30 Canceled 20]
  by (simp add: newSupervisor_def recordProbe_def Let_def)

text \<open>An operation's context is never open-ended and never outlives its caller: with normalised
  timeouts every operation gets a deadline after now at the latest its class allows (reads the read timeout,
  the registered writes one of the write timeouts) and never later than the caller's own deadline.\<close>

theorem operation_deadline_bounded:
  "operation_deadline now parent (operation_timeout (normalizeOperationTimeouts t) op) \<le>
     now + operation_timeout (normalizeOperationTimeouts t) op \<and>
   0 < operation_timeout (normalizeOperationTimeouts t) op \<and>
   (case parent of None \<Rightarrow> True
    | Some d \<Rightarrow> operation_deadline now parent (operation_timeout (normalizeOperationTimeouts t) op) \<le> d) \<and>
   (case mget operationSpecs op of None \<Rightarrow> True
    | Some spec \<Rightarrow> operation_timeout (normalizeOperationTimeouts t) op =
        (if sp_Mode spec = operationRead then ot_Read (normalizeOperationTimeouts t)
         else if sp_Timeout spec = timeoutWrite then ot_Write (normalizeOperationTimeouts t)
         else ot_Transaction (normalizeOperationTimeouts t)))"
proof -
  have "sp_Mode spec = operationRead \<longleftrightarrow> sp_Timeout spec = timeoutRead" if "mget operationSpecs op = Some spec" for spec
    using operationSpecs_well_timed map_of_SomeD [OF that] by (auto simp: list_all_iff well_timed_def)
  then show ?thesis
    using normalized_positive [of t]
    by (auto simp: operation_deadline_min operation_timeout_def split: option.splits operationTimeoutClass.splits)
qed

end
