(* ===== verification/Go_Time.thy ===== *)
theory Go_Time
  imports Go_Prelude
begin

text \<open>
  The calendar of package \<open>time\<close>: the proleptic Gregorian date of an instant, \<open>time.Date\<close> with its
  normalisation of out-of-range months and days, \<open>time.Time.AddDate\<close> in a location, and the RFC 3339
  text of an instant in UTC. Calendar arithmetic is exact (no instant leaves the range of \<open>int64\<close>
  seconds for dates a schedule can hold).
\<close>

abbreviation second :: duration where "second \<equiv> 1000000000"
abbreviation day_seconds :: int where "day_seconds \<equiv> 86400"

text \<open>Days since 0001-01-01 of a civil date; the day of the month may be any integer.\<close>

definition days_before_month :: "int \<Rightarrow> int" where
  "days_before_month mp = (153 * mp + 2) div 5"

definition days_of_civil :: "int \<Rightarrow> int \<Rightarrow> int \<Rightarrow> int" where
  "days_of_civil y m d =
     (let y' = (if m \<le> 2 then y - 1 else y); era = y' div 400; yoe = y' mod 400;
          mp = (m + 9) mod 12
      in era * 146097 + yoe * 365 + yoe div 4 - yoe div 100 + days_before_month mp + d - 1 - 306)"

text \<open>The civil date of a day number.\<close>

definition civil_of_days :: "int \<Rightarrow> int \<times> int \<times> int" where
  "civil_of_days z =
     (let z' = z + 306; era = z' div 146097; doe = z' mod 146097;
          yoe = (doe - doe div 1460 + doe div 36524 - doe div 146096) div 365;
          doy = doe - (365 * yoe + yoe div 4 - yoe div 100);
          mp = (5 * doy + 2) div 153;
          m = (if mp < 10 then mp + 3 else mp - 9)
      in (yoe + era * 400 + (if m \<le> 2 then 1 else 0), m, doy - days_before_month mp + 1))"

lemma days_of_civil_day: "days_of_civil y m (d + n) = days_of_civil y m d + n"
  by (simp add: days_of_civil_def Let_def)

lemma int_div_bounds: "0 < (k :: int) \<Longrightarrow> k * (x div k) \<le> x \<and> x < k * (x div k) + k"
  using pos_mod_bound [of k x] pos_mod_sign [of k x] mult_div_mod_eq [of k x] by linarith

lemma yoe_bounds:
  assumes "0 \<le> doe" and "doe < (146097 :: int)"
  defines "yoe \<equiv> (doe - doe div 1460 + doe div 36524 - doe div 146096) div 365"
  shows "0 \<le> yoe" and "yoe < 400"
    and "0 \<le> doe - (365 * yoe + yoe div 4 - yoe div 100)"
    and "doe - (365 * yoe + yoe div 4 - yoe div 100) \<le> 365"
proof -
  define a b c where "a = doe div 1460" and "b = doe div 36524" and "c = doe div 146096"
  have abc: "1460 * a \<le> doe" "doe < 1460 * a + 1460" "36524 * b \<le> doe" "doe < 36524 * b + 36524"
    "146096 * c \<le> doe" "doe < 146096 * c + 146096" "0 \<le> a" "0 \<le> b" "0 \<le> c"
    using assms(1,2) int_div_bounds [of 1460 doe] int_div_bounds [of 36524 doe]
      int_div_bounds [of 146096 doe]
    unfolding a_def b_def c_def by (auto intro: pos_imp_zdiv_nonneg_iff [THEN iffD2])
  have y: "365 * yoe \<le> doe - a + b - c" "doe - a + b - c < 365 * yoe + 365"
    using int_div_bounds [of 365 "doe - a + b - c"]
    unfolding yoe_def a_def b_def c_def by simp_all
  have c: "c = 0 \<or> c = 1" and b4: "b \<le> 4" using abc assms(2) by linarith+
  show "0 \<le> yoe" using abc y c by linarith
  show lt: "yoe < 400" using abc y c assms(2) by linarith
  define q h where "q = yoe div 4" and "h = yoe div 100"
  have qh: "4 * q \<le> yoe" "yoe < 4 * q + 4" "100 * h \<le> yoe" "yoe < 100 * h + 100"
    using int_div_bounds [of 4 yoe] int_div_bounds [of 100 yoe] unfolding q_def h_def by simp_all
  have h: "0 \<le> h" "h \<le> 3" using qh lt \<open>0 \<le> yoe\<close> by linarith+
  have b: "b = 0 \<or> b = 1 \<or> b = 2 \<or> b = 3 \<or> b = 4" using abc b4 by linarith
  have h': "h = 0 \<or> h = 1 \<or> h = 2 \<or> h = 3" using h by linarith
  show "0 \<le> doe - (365 * yoe + yoe div 4 - yoe div 100)"
    unfolding q_def [symmetric] h_def [symmetric] using b h' c abc y qh assms(2) lt
    by (elim disjE) linarith+
  show "doe - (365 * yoe + yoe div 4 - yoe div 100) \<le> 365"
    unfolding q_def [symmetric] h_def [symmetric] using b h' c abc y qh assms(2) lt
    by (elim disjE) linarith+
qed

lemma mod_add_mult: "0 \<le> r \<Longrightarrow> r < (k :: int) \<Longrightarrow> (r + q * k) mod k = r \<and> (r + q * k) div k = q"
  by simp

lemma civil_month_bounds:
  assumes "0 \<le> doy" and "doy \<le> (365 :: int)"
  shows "0 \<le> (5 * doy + 2) div 153" and "(5 * doy + 2) div 153 \<le> 11"
proof -
  have "0 \<le> 5 * doy + 2" and "5 * doy + 2 < 12 * 153"
    using assms by simp_all
  then show "0 \<le> (5 * doy + 2) div 153" and "(5 * doy + 2) div 153 \<le> 11"
    using int_div_bounds [of 153 "5 * doy + 2"] by linarith+
qed

lemma month_shift:
  assumes "0 \<le> mp" and "mp \<le> (11 :: int)"
  defines "m \<equiv> (if mp < 10 then mp + 3 else mp - 9)"
  shows "(m + 9) mod 12 = mp" and "m \<le> 2 \<longleftrightarrow> 10 \<le> mp" and "1 \<le> m" and "m \<le> 12"
proof -
  have "mp = 0 \<or> mp = 1 \<or> mp = 2 \<or> mp = 3 \<or> mp = 4 \<or> mp = 5 \<or> mp = 6 \<or> mp = 7 \<or>
      mp = 8 \<or> mp = 9 \<or> mp = 10 \<or> mp = 11"
    using assms(1,2) by presburger
  then show "(m + 9) mod 12 = mp" and "m \<le> 2 \<longleftrightarrow> 10 \<le> mp" and "1 \<le> m" and "m \<le> 12"
    unfolding m_def by auto
qed

text \<open>The civil date of a day number denotes that day.\<close>

lemma days_of_civil_of_days:
  "(case civil_of_days z of (y, m, d) \<Rightarrow> days_of_civil y m d) = z"
proof -
  define era doe where "era = (z + 306) div 146097" and "doe = (z + 306) mod 146097"
  define yoe where "yoe = (doe - doe div 1460 + doe div 36524 - doe div 146096) div 365"
  define doy where "doy = doe - (365 * yoe + yoe div 4 - yoe div 100)"
  define mp where "mp = (5 * doy + 2) div 153"
  define m where "m = (if mp < 10 then mp + 3 else mp - 9)"
  have doe: "0 \<le> doe" "doe < 146097" by (simp_all add: doe_def)
  note yoe = yoe_bounds [OF doe, folded yoe_def, folded doy_def]
  note mp = civil_month_bounds [OF yoe(3,4), folded mp_def]
  note m = month_shift [OF mp, folded m_def]
  have z: "era * 146097 + doe = z + 306"
    unfolding era_def doe_def by (rule div_mult_mod_eq)
  define y where "y = yoe + era * 400 + (if m \<le> 2 then 1 else 0)"
  have y: "(if m \<le> 2 then y - 1 else y) = yoe + era * 400"
    by (simp add: y_def)
  have c: "civil_of_days z = (y, m, doy - days_before_month mp + 1)"
    unfolding civil_of_days_def Let_def y_def m_def mp_def doy_def yoe_def doe_def era_def by (rule refl)
  have "days_of_civil y m (doy - days_before_month mp + 1) =
      era * 146097 + yoe * 365 + yoe div 4 - yoe div 100 + doy - 306"
    using mod_add_mult [OF yoe(1,2)] by (simp add: days_of_civil_def Let_def y m(1))
  also have "\<dots> = z"
    using z by (simp add: doy_def)
  finally show ?thesis
    by (simp add: c)
qed

lemma civil_month_range: "civil_of_days z = (y, m, d) \<Longrightarrow> 1 \<le> m \<and> m \<le> 12"
proof -
  assume c: "civil_of_days z = (y, m, d)"
  define doe where "doe = (z + 306) mod 146097"
  define yoe where "yoe = (doe - doe div 1460 + doe div 36524 - doe div 146096) div 365"
  define doy where "doy = doe - (365 * yoe + yoe div 4 - yoe div 100)"
  define mp where "mp = (5 * doy + 2) div 153"
  have doe: "0 \<le> doe" "doe < 146097" by (simp_all add: doe_def)
  note yoe = yoe_bounds [OF doe, folded yoe_def, folded doy_def]
  note mp = civil_month_bounds [OF yoe(3,4), folded mp_def]
  have "m = (if mp < 10 then mp + 3 else mp - 9)"
    using c unfolding civil_of_days_def Let_def mp_def [symmetric] doy_def [symmetric] yoe_def [symmetric]
      doe_def [symmetric] prod.inject by blast
  with month_shift(3,4) [OF mp] show ?thesis by simp
qed

section \<open>Instants in a location\<close>

text \<open>
  A \<open>time.Location\<close> is its \<open>lookup\<close>: for a Unix second, the zone offset in seconds and the half-open
  range of Unix seconds in which that zone is in use. The tz database that defines it is not part of
  the repository.
\<close>

type_synonym location = "int \<Rightarrow> int \<times> int \<times> int"

definition UTC :: location where
  "UTC u = (0, 0, 0)"

abbreviation day_ns :: int where "day_ns \<equiv> 86400000000000"
abbreviation epoch_seconds :: int where "epoch_seconds \<equiv> 62135596800"

definition offset_at :: "location \<Rightarrow> gotime \<Rightarrow> int" where
  "offset_at loc t = fst (loc (t div second - epoch_seconds))"

definition local_seconds :: "location \<Rightarrow> gotime \<Rightarrow> int" where
  "local_seconds loc t = t div second + offset_at loc t"

text \<open>\<open>time.Date\<close>: the month is normalised into the year, the day of the month counts linearly, and the
  zone in use at the wall-clock time is the one looked up first, or the one at the instant it gives.\<close>

definition Date :: "location \<Rightarrow> int \<Rightarrow> int \<Rightarrow> int \<Rightarrow> int \<Rightarrow> int \<Rightarrow> gotime" where
  "Date loc year month day secs nsec =
     (let y = year + (month - 1) div 12; m = (month - 1) mod 12 + 1;
          abs = days_of_civil y m day * day_seconds + secs;
          unix = abs - epoch_seconds
      in (case loc unix of (offset, start, stop) \<Rightarrow>
            let adjust = (if offset = 0 then 0
              else if unix - offset < start \<or> stop \<le> unix - offset then fst (loc (unix - offset))
              else offset)
            in (abs - adjust) * second + nsec))"

definition AddDate :: "location \<Rightarrow> int \<Rightarrow> int \<Rightarrow> int \<Rightarrow> gotime \<Rightarrow> gotime" where
  "AddDate loc years months days t =
     (case civil_of_days (local_seconds loc t div day_seconds) of (y, m, d) \<Rightarrow>
        Date loc (y + years) (m + months) (d + days) (local_seconds loc t mod day_seconds) (t mod second))"

lemma AddDate_UTC_days: "AddDate UTC 0 0 n t = t + n * day_ns"
proof -
  obtain y m d where c: "civil_of_days (t div second div day_seconds) = (y, m, d)"
    by (metis prod_cases3)
  have "1 \<le> m" "m \<le> 12" using civil_month_range [OF c] by auto
  then have m: "(m - 1) mod 12 + 1 = m" "(m - 1) div 12 = 0"
    by (simp_all add: div_pos_pos_trivial)
  have days: "days_of_civil y m (d + n) = t div second div day_seconds + n"
    using days_of_civil_of_days [of "t div second div day_seconds"] by (simp add: c days_of_civil_day)
  define q where "q = t div second"
  have "q = day_seconds * (q div day_seconds) + q mod day_seconds"
    by simp
  moreover have "t = second * q + t mod second"
    by (simp add: q_def)
  ultimately have t: "day_ns * (q div day_seconds) + (q mod day_seconds * second + t mod second) = t"
    by linarith
  show ?thesis
    using t by (simp add: AddDate_def Date_def UTC_def local_seconds_def offset_at_def c m days q_def Let_def)
qed

section \<open>RFC 3339\<close>

definition Year :: "gotime \<Rightarrow> int" where
  "Year t = fst (civil_of_days (t div day_ns))"

lemma div_Truncate: "0 < d \<Longrightarrow> 0 \<le> k \<Longrightarrow> Truncate t d div (d * k) = t div (d * k)"
proof -
  assume d: "0 < d" and k: "0 \<le> k"
  have "Truncate t d = d * (t div d)"
    by (simp add: Truncate_def minus_mod_eq_mult_div)
  then have "Truncate t d div d = t div d"
    using d by simp
  then show ?thesis
    by (simp only: zdiv_zmult2_eq [OF k])
qed

lemma Year_Truncate [simp]: "Year (Truncate t 1000) = Year t"
  using div_Truncate [of 1000 86400000000 t] by (simp add: Year_def)

text \<open>\<open>time.Time.MarshalJSON\<close> refuses years outside [0, 9999].\<close>

definition json_time_ok :: "gotime \<Rightarrow> bool" where
  "json_time_ok t \<longleftrightarrow> 0 \<le> Year t \<and> Year t \<le> 9999"

lemma json_time_ok_Truncate [simp]: "json_time_ok (Truncate t 1000) = json_time_ok t"
  by (simp add: json_time_ok_def)

lemma json_time_ok_0 [simp]: "json_time_ok 0"
  by code_simp

text \<open>The text of an instant in UTC: \<open>Format(time.RFC3339)\<close>, and with the significant digits of the
  fraction, which is the JSON text of a \<open>time.Time\<close>.\<close>

definition pad :: "nat \<Rightarrow> int \<Rightarrow> string" where
  "pad w n = (let s = show_int n in replicate (w - length s) (CHR ''0'') @ s)"

definition rfc3339_date :: "gotime \<Rightarrow> string" where
  "rfc3339_date t = (case civil_of_days (t div day_ns) of (y, m, d) \<Rightarrow>
     (if y < 0 then ''-'' @ pad 4 (- y) else pad 4 y) @ ''-'' @ pad 2 m @ ''-'' @ pad 2 d)"

definition rfc3339_seconds :: "gotime \<Rightarrow> string" where
  "rfc3339_seconds t =
     (let s = t div second mod day_seconds
      in rfc3339_date t @ ''T'' @ pad 2 (s div 3600) @ '':'' @ pad 2 (s div 60 mod 60) @ '':'' @ pad 2 (s mod 60))"

definition RFC3339 :: "gotime \<Rightarrow> string" where
  "RFC3339 t = rfc3339_seconds t @ ''Z''"

definition trim_zeros :: "string \<Rightarrow> string" where
  "trim_zeros s = rev (dropWhile (\<lambda>c. c = CHR ''0'') (rev s))"

definition RFC3339Nano :: "gotime \<Rightarrow> string" where
  "RFC3339Nano t =
     rfc3339_seconds t @ (if t mod second = 0 then [] else ''.'' @ trim_zeros (pad 9 (t mod second))) @ ''Z''"

end
