(* ===== verification/App_JSON.thy ===== *)
theory App_JSON
  imports App_Types Go_Time Go_Errors
begin

text \<open>
  What \<open>encoding/json\<close> does to the records the store copies through it: an encode fails on an instant
  whose year JSON cannot carry and on a number that is not finite; a decode of its text turns dynamic
  values into their JSON normal form (slices of strings into dynamic slices, structs into maps, instants
  into text) and leaves typed fields as they are. Map entries are kept in key order, so that equality of
  normal forms is \<open>reflect.DeepEqual\<close>. Strings are taken to be valid UTF-8, which \<open>encoding/json\<close> keeps.
\<close>

section \<open>Dynamic values\<close>

definition sort_keys :: "(string \<times> 'a) list \<Rightarrow> (string \<times> 'a) list" where
  "sort_keys m = sort_key fst m"

definition verifier_json :: "VerifierDecision \<Rightarrow> goany" where
  "verifier_json v = AnyMap (sort_keys
     [(''verdict'', AnyString (vd_Verdict v)), (''risk_level'', AnyString (vd_RiskLevel v)),
      (''lane'', AnyString (vd_Lane v)), (''reason'', AnyString (vd_Reason v)),
      (''required_user_confirmation'', AnyBool (vd_RequiredUserConfirmation v)),
      (''safe_next_action'', AnyString (vd_SafeNextAction v)),
      (''created_at'', AnyString (RFC3339Nano (vd_CreatedAt v)))])"

primrec any_ok :: "goany \<Rightarrow> bool" where
  "any_ok AnyNil = True"
| "any_ok (AnyBool b) = True"
| "any_ok (AnyNumber n) = True"
| "any_ok (AnyString s) = True"
| "any_ok (AnyStrings ss) = True"
| "any_ok (AnySlice vs) = list_all (\<lambda>b. b) (map any_ok vs)"
| "any_ok (AnyMap m) = list_all snd (map (map_prod id any_ok) m)"
| "any_ok (AnyTime t) = json_time_ok t"
| "any_ok (AnyVerifier v) = json_time_ok (vd_CreatedAt v)"

primrec any_norm :: "goany \<Rightarrow> goany" where
  "any_norm AnyNil = AnyNil"
| "any_norm (AnyBool b) = AnyBool b"
| "any_norm (AnyNumber n) = AnyNumber n"
| "any_norm (AnyString s) = AnyString s"
| "any_norm (AnyStrings ss) = AnySlice (map AnyString ss)"
| "any_norm (AnySlice vs) = AnySlice (map any_norm vs)"
| "any_norm (AnyMap m) = AnyMap (sort_keys (map (map_prod id any_norm) m))"
| "any_norm (AnyTime t) = AnyString (RFC3339Nano t)"
| "any_norm (AnyVerifier v) = verifier_json v"

definition map_ok :: "(string, goany) gomap \<Rightarrow> bool" where
  "map_ok m \<longleftrightarrow> list_all (\<lambda>(k, v). any_ok v) m"

definition map_norm :: "(string, goany) gomap \<Rightarrow> (string, goany) gomap" where
  "map_norm m = sort_keys (map (\<lambda>(k, v). (k, any_norm v)) m)"

lemma set_sort_keys [simp]: "set (sort_keys m) = set m"
  by (simp add: sort_keys_def)

lemma sort_keys_map: "sort_keys (map (\<lambda>(k, v). (k, f v)) m) = map (\<lambda>(k, v). (k, f v)) (sort_keys m)"
proof -
  have insort: "insort_key fst (k, f v) (map (\<lambda>(k, v). (k, f v)) xs) = map (\<lambda>(k, v). (k, f v)) (insort_key fst (k, v) xs)"
    for k v xs by (induction xs) auto
  show ?thesis
    unfolding sort_keys_def
  proof (induction m)
    case (Cons p m)
    then show ?case
      by (cases p) (simp add: insort)
  qed simp
qed

lemma sort_keys_idem [simp]: "sort_keys (sort_keys m) = sort_keys m"
  by (simp add: sort_keys_def sort_key_id_if_sorted)

lemma map_prod_pair: "map_prod id f = (\<lambda>(k, v). (k, f v))"
  by auto

lemma any_norm_idem [simp]: "any_norm (any_norm v) = any_norm v"
proof (induction v)
  case (AnyMap m)
  then have "map (\<lambda>(k, v). (k, any_norm v)) (map (\<lambda>(k, v). (k, any_norm v)) m) = map (\<lambda>(k, v). (k, any_norm v)) m"
    by auto
  then show ?case
    by (simp only: any_norm.simps map_prod_pair sort_keys_map [symmetric] sort_keys_idem)
next
  case (AnyVerifier v)
  have "map (map_prod id any_norm)
      [(''verdict'', AnyString (vd_Verdict v)), (''risk_level'', AnyString (vd_RiskLevel v)),
      (''lane'', AnyString (vd_Lane v)), (''reason'', AnyString (vd_Reason v)),
      (''required_user_confirmation'', AnyBool (vd_RequiredUserConfirmation v)),
      (''safe_next_action'', AnyString (vd_SafeNextAction v)),
      (''created_at'', AnyString (RFC3339Nano (vd_CreatedAt v)))] =
      [(''verdict'', AnyString (vd_Verdict v)), (''risk_level'', AnyString (vd_RiskLevel v)),
      (''lane'', AnyString (vd_Lane v)), (''reason'', AnyString (vd_Reason v)),
      (''required_user_confirmation'', AnyBool (vd_RequiredUserConfirmation v)),
      (''safe_next_action'', AnyString (vd_SafeNextAction v)),
      (''created_at'', AnyString (RFC3339Nano (vd_CreatedAt v)))]"
    by simp
  then show ?case
    by (simp only: any_norm.simps verifier_json_def map_prod_pair sort_keys_map [symmetric] sort_keys_idem)
qed simp_all

lemma map_norm_idem [simp]: "map_norm (map_norm m) = map_norm m"
proof -
  have "map (\<lambda>(k, v). (k, any_norm v)) (map (\<lambda>(k, v). (k, any_norm v)) m) = map (\<lambda>(k, v). (k, any_norm v)) m"
    by auto
  then show ?thesis
    by (simp only: map_norm_def sort_keys_map [symmetric] sort_keys_idem)
qed

lemma any_ok_norm [simp]: "any_ok (any_norm v)"
proof (induction v)
  case (AnyMap m)
  then show ?case
    by (auto simp: list_all_iff)
next
  case (AnyVerifier v)
  then show ?case
    by (simp only: any_norm.simps verifier_json_def any_ok.simps list_all_iff set_map set_sort_keys)
       simp
qed (auto simp: list_all_iff)

lemma map_ok_norm [simp]: "map_ok (map_norm m)"
  by (auto simp: map_ok_def map_norm_def list_all_iff)

end
