(* ===== verification/App_Records.thy ===== *)
theory App_Records
  imports App_JSON
begin

text \<open>
  More records of \<open>internal/app\<close>: access tickets, bindings and operations of external agents (MCP), and the records
  that belong to a session and go with it when it is deleted.
\<close>

section \<open>Access of external agents\<close>

abbreviation (input) MCPAccessTicketSchemaVersion :: int where "MCPAccessTicketSchemaVersion \<equiv> 2"
abbreviation (input) MCPBindingSchemaVersion :: int where "MCPBindingSchemaVersion \<equiv> 2"
abbreviation (input) MCPInvocationSchemaVersion :: int where "MCPInvocationSchemaVersion \<equiv> 2"
abbreviation (input) MCPOperationSchemaVersion :: int where "MCPOperationSchemaVersion \<equiv> 1"

abbreviation (input) DefaultOwnerID :: string where "DefaultOwnerID \<equiv> ''owner''"

abbreviation (input) MCPAccessConversation :: string where "MCPAccessConversation \<equiv> ''conversation''"
abbreviation (input) MCPAccessPending :: string where "MCPAccessPending \<equiv> ''pending''"
abbreviation (input) MCPAccessConsumed :: string where "MCPAccessConsumed \<equiv> ''consumed''"
abbreviation (input) MCPAccessRevoked :: string where "MCPAccessRevoked \<equiv> ''revoked''"
abbreviation (input) MCPBindingActive :: string where "MCPBindingActive \<equiv> ''active''"
abbreviation (input) MCPBindingRevoked :: string where "MCPBindingRevoked \<equiv> ''revoked''"
abbreviation (input) MCPOperationRunning :: string where "MCPOperationRunning \<equiv> ''running''"
abbreviation (input) MCPOperationApprovalRequired :: string where "MCPOperationApprovalRequired \<equiv> ''approval_required''"
abbreviation (input) MCPOperationSucceeded :: string where "MCPOperationSucceeded \<equiv> ''succeeded''"
abbreviation (input) MCPOperationFailed :: string where "MCPOperationFailed \<equiv> ''failed''"
abbreviation (input) MCPOperationCancelled :: string where "MCPOperationCancelled \<equiv> ''cancelled''"
abbreviation (input) MCPOperationRevoked :: string where "MCPOperationRevoked \<equiv> ''revoked''"

record MCPAccessTicket =
  ti_SchemaVersion :: int
  ti_ID :: string
  ti_SecretHash :: string
  ti_OwnerID :: string
  ti_ActorID :: string
  ti_DomainID :: string
  ti_AuthorizationRevision :: int
  ti_Scope :: string
  ti_Status :: string
  ti_MaxUses :: int
  ti_UseCount :: int
  ti_IssuedAt :: gotime
  ti_ExpiresAt :: gotime
  ti_ConsumedAt :: "gotime option"
  ti_RevokedAt :: "gotime option"

record MCPBinding =
  bi_SchemaVersion :: int
  bi_ID :: string
  bi_OwnerID :: string
  bi_ActorID :: string
  bi_DomainID :: string
  bi_RequesterDeviceID :: string
  bi_RequesterKeyThumbprint :: string
  bi_AuthorizationRevision :: int
  bi_Scope :: string
  bi_Status :: string
  bi_LinkedSessionID :: string
  bi_LatestISCPSessionID :: string
  bi_CreatedAt :: gotime
  bi_UpdatedAt :: gotime
  bi_LastUsedAt :: "gotime option"
  bi_RevokedAt :: "gotime option"

record MCPPeerIdentity =
  pi_DomainID :: string
  pi_DeviceID :: string
  pi_KeyThumbprint :: string
  pi_ISCPSessionID :: string

record MCPInvocationRef =
  ir_InvocationID :: string
  ir_OperationID :: string
  ir_BindingRef :: string
  ir_BindingRevision :: int
  ir_RequesterDeviceID :: string

record MCPInvocationContext =
  in_SchemaVersion :: int
  in_ID :: string
  in_MCPRequestID :: string
  in_MCPSessionID :: string
  in_ISCPSessionID :: string
  in_OperationID :: string
  in_RequesterDeviceID :: string
  in_RequesterKeyThumbprint :: string
  in_BindingRef :: string
  in_BindingRevision :: int
  in_OwnerID :: string
  in_ActorID :: string
  in_ToolName :: string
  in_Arguments :: "(string, goany) gomap"
  in_ArgumentDigest :: string
  in_IdempotencyKey :: string
  in_Deadline :: gotime
  in_MessageID :: string
  in_RunID :: string
  in_DeliveryID :: string
  in_CreatedAt :: gotime

record MCPOperation =
  mo_SchemaVersion :: int
  mo_ID :: string
  mo_BindingID :: string
  mo_IdempotencyKey :: string
  mo_Fingerprint :: string
  mo_Invocation :: MCPInvocationContext
  mo_State :: string
  mo_Result :: string
  mo_ErrorCode :: string
  mo_ErrorMessage :: string
  mo_Version :: int
  mo_CreatedAt :: gotime
  mo_UpdatedAt :: gotime
  mo_CompletedAt :: "gotime option"

section \<open>Records of a session\<close>

record WorkbenchDraft =
  wd_Content :: string
  wd_AttachmentIDs :: "string list"
  wd_Revision :: int
  wd_UpdatedAt :: gotime

record Memory =
  mm_ID :: string
  mm_Kind :: string
  mm_Content :: string
  mm_SourceID :: string
  mm_CreatedAt :: gotime

record MemoryCandidate =
  mn_ID :: string
  mn_SessionID :: string
  mn_RunID :: string
  mn_Kind :: string
  mn_Content :: string
  mn_Sensitivity :: string
  mn_Status :: string
  mn_Reason :: string
  mn_CreatedAt :: gotime
  mn_ResolvedAt :: "gotime option"

record DocumentRecord =
  dr_ID :: string
  dr_OwnerID :: string
  dr_SessionID :: string
  dr_GovernedPath :: string
  dr_Name :: string
  dr_ContentType :: string
  dr_Format :: string
  dr_SizeBytes :: int
  dr_SHA256 :: string
  dr_Status :: string
  dr_Source :: string
  dr_SourceMessageID :: string
  dr_SourceRunID :: string
  dr_SourceToolCallID :: string
  dr_ParentDocumentID :: string
  dr_LastActivity :: string
  dr_LastActivityID :: string
  dr_LastActivityAt :: gotime
  dr_CreatedAt :: gotime
  dr_UpdatedAt :: gotime

record ArtifactObject =
  ao_ID :: string
  ao_Kind :: string
  ao_RunID :: string
  ao_EvalID :: string
  ao_SessionID :: string
  ao_Backend :: string
  ao_Bucket :: string
  ao_Key :: string
  ao_URI :: string
  ao_Path :: string
  ao_ContentType :: string
  ao_Bytes :: int
  ao_CreatedAt :: gotime

text \<open>The browser target and the evidence of a login block are carried as their values.\<close>

record BrowserLoginBlock =
  lb_SchemaVersion :: int
  lb_Version :: int
  lb_TransitionOwnerID :: string
  lb_TransitionLeaseUntil :: "gotime option"
  lb_ID :: string
  lb_SessionID :: string
  lb_RunID :: string
  lb_WorkflowID :: string
  lb_WorkflowRevision :: int
  lb_WorkflowNodeID :: string
  lb_SessionGeneration :: int
  lb_Status :: string
  lb_OriginalGoal :: string
  lb_ResumeTool :: string
  lb_ResumeArgs :: "(string, goany) gomap"
  lb_LastToolCallID :: string
  lb_LoginHandoffURL :: string
  lb_LoginHandoffPageID :: string
  lb_LastVisiblePageID :: string
  lb_OwnerID :: string
  lb_BrowserProfileID :: string
  lb_SiteOrigin :: string
  lb_SiteRealm :: string
  lb_AccountHint :: string
  lb_BrowserAuthStatus :: string
  lb_Target :: goany
  lb_VisibleEvidence :: "goany option"
  lb_LastUserReply :: string
  lb_LastError :: string
  lb_CreatedAt :: gotime
  lb_UpdatedAt :: gotime
  lb_ResolvedAt :: "gotime option"

end
