(* ===== verification/Store_State.thy ===== *)
theory Store_State
  imports App_Records
begin

text \<open>
  The state of \<open>MemoryStore\<close> (\<open>internal/store/memory.go\<close>), as far as the modelled repositories use it, the
  frame every repository operation has (the supervised context checked on entry and again under the
  lock, the optional admission of transient content), the audit log and the event log with their
  readers. An operation is a function from the store to a result and the next store; the mutex makes it
  atomic, so concurrent callers interleave whole operations.
\<close>

section \<open>State\<close>

record MemoryStore =
  st_transientContentAdmission :: "(payload \<Rightarrow> go_error option) option"
  st_workbenchDrafts :: "(string \<times> string, WorkbenchDraft) gomap"
  st_sessions :: "(string, Session) gomap"
  st_sessionWriteHighWater :: "(string, gotime) gomap"
  st_mcpAccessTickets :: "(string, MCPAccessTicket) gomap"
  st_mcpBindings :: "(string, MCPBinding) gomap"
  st_mcpOperations :: "(string, MCPOperation) gomap"
  st_connectorSettings :: "(string, ConnectorSetting) gomap"
  st_connectorSettingWriteHighWater :: "(string, gotime) gomap"
  st_notificationBindings :: "(string, NotificationBinding) gomap"
  st_notificationBindingWriteHighWater :: "(string, gotime) gomap"
  st_messages :: "(string, Message list) gomap"
  st_toolCallIDsBySession :: "(string, string list) gomap"
  st_episodeIDsBySession :: "(string, string list) gomap"
  st_runFeedback :: "(string, RunFeedback list) gomap"
  st_runs :: "(string, AgentRun) gomap"
  st_modelCalls :: "(string, ModelCall) gomap"
  st_toolCalls :: "(string, ToolCall) gomap"
  st_documentRecords :: "(string, DocumentRecord) gomap"
  st_approvals :: "(string, Approval) gomap"
  st_reminders :: "(string, Reminder) gomap"
  st_reminderDelivery :: "(string, ReminderDelivery) gomap"
  st_externalChatSessions :: "(string, ExternalChatSession) gomap"
  st_externalChatMessages :: "(string, ExternalChatMessage) gomap"
  st_messageReceives :: "(string, MessageReceiveRecord) gomap"
  st_messageDeliveries :: "(string, MessageDeliveryRecord) gomap"
  st_channelInboxUpdates :: "(string, ChannelInboxUpdate) gomap"
  st_browserLoginBlocks :: "(string, BrowserLoginBlock) gomap"
  st_memories :: "(string, Memory) gomap"
  st_memoryCandidates :: "(string, MemoryCandidate) gomap"
  st_auditEvents :: "AuditEvent list"
  st_events :: "Event list"
  st_artifactObjects :: "(string, ArtifactObject) gomap"
  st_artifactObjectIDsByURI :: "(string, string list) gomap"
  st_episodeSummaries :: "(string, EpisodeSummary) gomap"

text \<open>The key of a draft is the JSON text of owner and session, which determines the two; the keys of a set of artifact
  identifiers are a list.\<close>

definition NewMemoryStore :: MemoryStore where
  "NewMemoryStore = \<lparr>st_transientContentAdmission = None, st_workbenchDrafts = [], st_sessions = [], st_sessionWriteHighWater = [],
     st_mcpAccessTickets = [], st_mcpBindings = [], st_mcpOperations = [],
     st_connectorSettings = [], st_connectorSettingWriteHighWater = [], st_notificationBindings = [],
     st_notificationBindingWriteHighWater = [], st_messages = [], st_toolCallIDsBySession = [],
     st_episodeIDsBySession = [], st_runFeedback = [], st_runs = [], st_modelCalls = [], st_toolCalls = [],
     st_documentRecords = [], st_approvals = [], st_reminders = [], st_reminderDelivery = [], st_externalChatSessions = [],
     st_externalChatMessages = [], st_messageReceives = [], st_messageDeliveries = [], st_channelInboxUpdates = [],
     st_browserLoginBlocks = [], st_memories = [], st_memoryCandidates = [], st_auditEvents = [], st_events = [],
     st_artifactObjects = [], st_artifactObjectIDsByURI = [], st_episodeSummaries = []\<rparr>"

definition WithTransientContentAdmission ::
  "(payload \<Rightarrow> go_error option) option \<Rightarrow> MemoryStore \<Rightarrow> MemoryStore" where
  "WithTransientContentAdmission admit s = s\<lparr>st_transientContentAdmission := admit\<rparr>"

definition admitTransientContent :: "payload \<Rightarrow> MemoryStore \<Rightarrow> go_error option" where
  "admitTransientContent v s = (case st_transientContentAdmission s of None \<Rightarrow> None | Some admit \<Rightarrow> admit v)"

section \<open>The operation frame\<close>

text \<open>
  The context of one call: the cause attached when the supervisor refused the operation, and what
  \<open>ctx.Err()\<close> returns on entry, under the lock and at the end of a scan (later observations may differ,
  because deadlines pass). The environment: the instants \<open>time.Now\<close> returns and the outcomes of
  \<open>rand.Read\<close> for the record, its audit entry and its event.
\<close>

record op_ctx =
  cx_denied :: "go_error option"
  cx_entry :: "go_error option"
  cx_locked :: "go_error option"
  cx_exit :: "go_error option"

record op_env =
  en_now :: gotime
  en_rand :: "8 word list option"
  en_audit_now :: gotime
  en_audit_rand :: "8 word list option"
  en_event_now :: gotime
  en_event_rand :: "8 word list option"

definition storeError :: "string \<Rightarrow> StoreErrorCode \<Rightarrow> go_error \<Rightarrow> go_error" where
  "storeError op code cause = StoreErr code op cause"

definition context_code :: "go_error option \<Rightarrow> go_error \<Rightarrow> StoreErrorCode" where
  "context_code ctx_err cause =
     (if err_is cause Canceled \<or> (case ctx_err of None \<Rightarrow> False | Some e \<Rightarrow> err_is e Canceled) then StoreErrorCanceled
      else if err_is cause DeadlineExceeded \<or> (case ctx_err of None \<Rightarrow> False | Some e \<Rightarrow> err_is e DeadlineExceeded)
      then StoreErrorTimeout else StoreErrorInternal)"

definition contextStoreError :: "string \<Rightarrow> go_error option \<Rightarrow> go_error \<Rightarrow> go_error" where
  "contextStoreError op ctx_err cause = StoreErr (context_code ctx_err cause) op cause"

definition operationContextError :: "string \<Rightarrow> go_error option \<Rightarrow> go_error option \<Rightarrow> go_error option" where
  "operationContextError op denied ctx_err = (case denied of
     Some cause \<Rightarrow> Some (storeError op StoreErrorUnavailable cause)
   | None \<Rightarrow> (case ctx_err of Some e \<Rightarrow> Some (contextStoreError op ctx_err e) | None \<Rightarrow> None))"

abbreviation entry_error :: "string \<Rightarrow> op_ctx \<Rightarrow> go_error option" where
  "entry_error op cx \<equiv> operationContextError op (cx_denied cx) (cx_entry cx)"

abbreviation locked_error :: "string \<Rightarrow> op_ctx \<Rightarrow> go_error option" where
  "locked_error op cx \<equiv> operationContextError op (cx_denied cx) (cx_locked cx)"

type_synonym 'a outcome = "(go_error + 'a) \<times> MemoryStore"

text \<open>\<open>if err := check; err != nil { return ..., err }\<close>.\<close>

definition checked :: "go_error option \<Rightarrow> (MemoryStore \<Rightarrow> 'a outcome) \<Rightarrow> MemoryStore \<Rightarrow> 'a outcome" where
  "checked check body s = (case check of Some e \<Rightarrow> (Inl e, s) | None \<Rightarrow> body s)"

text \<open>Entry check, lock, second check, body: the frame most operations have.\<close>

definition framed :: "string \<Rightarrow> op_ctx \<Rightarrow> (MemoryStore \<Rightarrow> 'a outcome) \<Rightarrow> MemoryStore \<Rightarrow> 'a outcome" where
  "framed op cx body = checked (entry_error op cx) (checked (locked_error op cx) body)"

lemma checked_error:
  "checked c body s = (Inl e, s') \<longleftrightarrow> (c = Some e \<and> s' = s) \<or> (c = None \<and> body s = (Inl e, s'))"
  by (auto simp: checked_def split: option.splits)

lemma checked_ok: "checked c body s = (Inr v, s') \<longleftrightarrow> c = None \<and> body s = (Inr v, s')"
  by (auto simp: checked_def split: option.splits)

lemma framed_error:
  "framed op cx body s = (Inl e, s') \<longleftrightarrow>
     (entry_error op cx = Some e \<and> s' = s) \<or>
     (entry_error op cx = None \<and> locked_error op cx = Some e \<and> s' = s) \<or>
     (entry_error op cx = None \<and> locked_error op cx = None \<and> body s = (Inl e, s'))"
  by (auto simp: framed_def checked_error)

lemma framed_ok:
  "framed op cx body s = (Inr v, s') \<longleftrightarrow>
     entry_error op cx = None \<and> locked_error op cx = None \<and> body s = (Inr v, s')"
  by (auto simp: framed_def checked_ok)

lemma checked_cases: "checked c body s = (r, s') \<Longrightarrow> (s' = s \<and> (\<exists>e. r = Inl e)) \<or> body s = (r, s')"
  by (simp add: checked_def split: option.splits) auto

lemma framed_cases: "framed op cx body s = (r, s') \<Longrightarrow> (s' = s \<and> (\<exists>e. r = Inl e)) \<or> body s = (r, s')"
  unfolding framed_def by (blast dest: checked_cases)

lemma framed_frame: "(\<And>e s'. body s = (Inl e, s') \<Longrightarrow> s' = s) \<Longrightarrow> framed op cx body s = (Inl e, s') \<Longrightarrow> s' = s"
  by (auto simp: framed_error)

section \<open>Repository times\<close>

definition postgresTime :: "gotime \<Rightarrow> gotime" where
  "postgresTime t = Truncate t 1000"

text \<open>\<open>normalizeSessionTime\<close> of \<open>session_contract.go\<close>; every time of the model is in UTC.\<close>

definition normalizeSessionTime :: "gotime \<Rightarrow> gotime" where
  "normalizeSessionTime t = Truncate t 1000"

fun nextRepositoryTime_from :: "gotime \<Rightarrow> gotime list \<Rightarrow> gotime" where
  "nextRepositoryTime_from candidate [] = candidate"
| "nextRepositoryTime_from candidate (previous # highWater) =
     (if previous < candidate then nextRepositoryTime_from candidate highWater
      else nextRepositoryTime_from (Truncate previous 1000 + 1000) highWater)"

definition nextRepositoryTime :: "gotime \<Rightarrow> gotime list \<Rightarrow> gotime" where
  "nextRepositoryTime now highWater = nextRepositoryTime_from (postgresTime now) highWater"

lemma postgresTime_idem [simp]: "postgresTime (postgresTime t) = postgresTime t"
  by (simp add: postgresTime_def)

lemma postgresTime_zero [simp]: "postgresTime 0 = 0"
  by (simp add: postgresTime_def)

lemma postgresTime_next: "postgresTime (Truncate t 1000 + 1000) = Truncate t 1000 + 1000"
  unfolding postgresTime_def Truncate_add_multiple by simp

lemma nextRepositoryTime_single:
  "nextRepositoryTime now [previous] =
     (if previous < postgresTime now then postgresTime now else postgresTime previous + 1000)"
  by (simp add: nextRepositoryTime_def postgresTime_def)

lemma nextRepositoryTime_after: "previous < nextRepositoryTime now [previous]"
proof -
  have "previous < Truncate previous 1000 + 1000"
    using pos_mod_bound [of 1000 previous] by (simp add: Truncate_def)
  then show ?thesis
    by (simp add: nextRepositoryTime_single postgresTime_def)
qed

lemma nextRepositoryTime_whole [simp]: "postgresTime (nextRepositoryTime now [previous]) = nextRepositoryTime now [previous]"
  by (simp add: nextRepositoryTime_single postgresTime_next postgresTime_def [of previous])

section \<open>The logs\<close>

text \<open>\<open>appendAuditLocked\<close>: both the deep copy and its shallow fallback leave the value of the fields.\<close>

definition appendAuditLockedAt ::
  "gotime \<Rightarrow> 8 word list option \<Rightarrow> string \<Rightarrow> string \<Rightarrow> string \<Rightarrow> string \<Rightarrow> string \<Rightarrow> (string, goany) gomap \<Rightarrow>
   MemoryStore \<Rightarrow> MemoryStore" where
  "appendAuditLockedAt moment random typ sessionID runID actor summary flds s =
     s\<lparr>st_auditEvents := st_auditEvents s @
       [\<lparr>ae_ID = NewID random ''audit'', ae_Time = moment, ae_Type = typ, ae_SessionID = sessionID,
         ae_RunID = runID, ae_Actor = actor, ae_Summary = summary, ae_Fields = flds\<rparr>]\<rparr>"

definition appendAuditLocked ::
  "op_env \<Rightarrow> string \<Rightarrow> string \<Rightarrow> string \<Rightarrow> string \<Rightarrow> string \<Rightarrow> (string, goany) gomap \<Rightarrow> MemoryStore \<Rightarrow> MemoryStore" where
  "appendAuditLocked env = appendAuditLockedAt (en_audit_now env) (en_audit_rand env)"

definition appendEventLockedAt ::
  "gotime \<Rightarrow> 8 word list option \<Rightarrow> string \<Rightarrow> string \<Rightarrow> string \<Rightarrow> payload \<Rightarrow> MemoryStore \<Rightarrow> MemoryStore" where
  "appendEventLockedAt moment random typ sessionID runID value s =
     s\<lparr>st_events := st_events s @
       [\<lparr>ev_ID = NewID random ''evt'', ev_Time = moment, ev_Type = typ, ev_SessionID = sessionID,
         ev_RunID = runID, ev_Payload = value\<rparr>]\<rparr>"

definition appendEventLocked ::
  "op_env \<Rightarrow> string \<Rightarrow> string \<Rightarrow> string \<Rightarrow> payload \<Rightarrow> MemoryStore \<Rightarrow> MemoryStore" where
  "appendEventLocked env = appendEventLockedAt (en_event_now env) (en_event_rand env)"

text \<open>What a step may do to the logs: append.\<close>

definition logs_extend :: "MemoryStore \<Rightarrow> MemoryStore \<Rightarrow> bool" where
  "logs_extend s t \<longleftrightarrow> prefix (st_auditEvents s) (st_auditEvents t) \<and> prefix (st_events s) (st_events t)"

lemma logs_extend_refl [simp]: "logs_extend s s"
  by (simp add: logs_extend_def)

lemma logs_extend_trans: "logs_extend s t \<Longrightarrow> logs_extend t u \<Longrightarrow> logs_extend s u"
  by (auto simp: logs_extend_def intro: prefix_order.trans)

lemma append_logs [simp]:
  "logs_extend s (appendAuditLocked env a b c d e f s)" "logs_extend s (appendEventLocked env a b c v s)"
  by (simp_all add: logs_extend_def appendAuditLocked_def appendAuditLockedAt_def appendEventLocked_def
      appendEventLockedAt_def)

text \<open>Appending to a log leaves the tables alone.\<close>

lemma append_frame [simp, store_frame]:
  "st_approvals (appendAuditLocked env a b c d e f s) = st_approvals s"
  "st_approvals (appendEventLocked env a b c v s) = st_approvals s"
  "st_runs (appendAuditLocked env a b c d e f s) = st_runs s"
  "st_runs (appendEventLocked env a b c v s) = st_runs s"
  "st_modelCalls (appendAuditLocked env a b c d e f s) = st_modelCalls s"
  "st_modelCalls (appendEventLocked env a b c v s) = st_modelCalls s"
  "st_toolCalls (appendAuditLocked env a b c d e f s) = st_toolCalls s"
  "st_toolCalls (appendEventLocked env a b c v s) = st_toolCalls s"
  "st_toolCallIDsBySession (appendAuditLocked env a b c d e f s) = st_toolCallIDsBySession s"
  "st_toolCallIDsBySession (appendEventLocked env a b c v s) = st_toolCallIDsBySession s"
  "st_episodeSummaries (appendAuditLocked env a b c d e f s) = st_episodeSummaries s"
  "st_episodeSummaries (appendEventLocked env a b c v s) = st_episodeSummaries s"
  "st_episodeIDsBySession (appendAuditLocked env a b c d e f s) = st_episodeIDsBySession s"
  "st_episodeIDsBySession (appendEventLocked env a b c v s) = st_episodeIDsBySession s"
  "st_runFeedback (appendAuditLocked env a b c d e f s) = st_runFeedback s"
  "st_runFeedback (appendEventLocked env a b c v s) = st_runFeedback s"
  "st_sessions (appendAuditLocked env a b c d e f s) = st_sessions s"
  "st_sessions (appendEventLocked env a b c v s) = st_sessions s"
  "st_reminders (appendAuditLocked env a b c d e f s) = st_reminders s"
  "st_reminders (appendEventLocked env a b c v s) = st_reminders s"
  "st_reminderDelivery (appendAuditLocked env a b c d e f s) = st_reminderDelivery s"
  "st_reminderDelivery (appendEventLocked env a b c v s) = st_reminderDelivery s"
  "st_messageReceives (appendAuditLocked env a b c d e f s) = st_messageReceives s"
  "st_messageReceives (appendEventLocked env a b c v s) = st_messageReceives s"
  "st_messageDeliveries (appendAuditLocked env a b c d e f s) = st_messageDeliveries s"
  "st_messageDeliveries (appendEventLocked env a b c v s) = st_messageDeliveries s"
  "st_channelInboxUpdates (appendAuditLocked env a b c d e f s) = st_channelInboxUpdates s"
  "st_channelInboxUpdates (appendEventLocked env a b c v s) = st_channelInboxUpdates s"
  "st_workbenchDrafts (appendAuditLocked env a b c d e f s) = st_workbenchDrafts s"
  "st_workbenchDrafts (appendEventLocked env a b c v s) = st_workbenchDrafts s"
  "st_sessionWriteHighWater (appendAuditLocked env a b c d e f s) = st_sessionWriteHighWater s"
  "st_sessionWriteHighWater (appendEventLocked env a b c v s) = st_sessionWriteHighWater s"
  "st_mcpAccessTickets (appendAuditLocked env a b c d e f s) = st_mcpAccessTickets s"
  "st_mcpAccessTickets (appendEventLocked env a b c v s) = st_mcpAccessTickets s"
  "st_mcpBindings (appendAuditLocked env a b c d e f s) = st_mcpBindings s"
  "st_mcpBindings (appendEventLocked env a b c v s) = st_mcpBindings s"
  "st_mcpOperations (appendAuditLocked env a b c d e f s) = st_mcpOperations s"
  "st_mcpOperations (appendEventLocked env a b c v s) = st_mcpOperations s"
  "st_connectorSettings (appendAuditLocked env a b c d e f s) = st_connectorSettings s"
  "st_connectorSettings (appendEventLocked env a b c v s) = st_connectorSettings s"
  "st_connectorSettingWriteHighWater (appendAuditLocked env a b c d e f s) = st_connectorSettingWriteHighWater s"
  "st_connectorSettingWriteHighWater (appendEventLocked env a b c v s) = st_connectorSettingWriteHighWater s"
  "st_notificationBindings (appendAuditLocked env a b c d e f s) = st_notificationBindings s"
  "st_notificationBindings (appendEventLocked env a b c v s) = st_notificationBindings s"
  "st_notificationBindingWriteHighWater (appendAuditLocked env a b c d e f s) = st_notificationBindingWriteHighWater s"
  "st_notificationBindingWriteHighWater (appendEventLocked env a b c v s) = st_notificationBindingWriteHighWater s"
  "st_messages (appendAuditLocked env a b c d e f s) = st_messages s"
  "st_messages (appendEventLocked env a b c v s) = st_messages s"
  "st_documentRecords (appendAuditLocked env a b c d e f s) = st_documentRecords s"
  "st_documentRecords (appendEventLocked env a b c v s) = st_documentRecords s"
  "st_externalChatSessions (appendAuditLocked env a b c d e f s) = st_externalChatSessions s"
  "st_externalChatSessions (appendEventLocked env a b c v s) = st_externalChatSessions s"
  "st_externalChatMessages (appendAuditLocked env a b c d e f s) = st_externalChatMessages s"
  "st_externalChatMessages (appendEventLocked env a b c v s) = st_externalChatMessages s"
  "st_browserLoginBlocks (appendAuditLocked env a b c d e f s) = st_browserLoginBlocks s"
  "st_browserLoginBlocks (appendEventLocked env a b c v s) = st_browserLoginBlocks s"
  "st_memories (appendAuditLocked env a b c d e f s) = st_memories s"
  "st_memories (appendEventLocked env a b c v s) = st_memories s"
  "st_memoryCandidates (appendAuditLocked env a b c d e f s) = st_memoryCandidates s"
  "st_memoryCandidates (appendEventLocked env a b c v s) = st_memoryCandidates s"
  "st_artifactObjects (appendAuditLocked env a b c d e f s) = st_artifactObjects s"
  "st_artifactObjects (appendEventLocked env a b c v s) = st_artifactObjects s"
  "st_artifactObjectIDsByURI (appendAuditLocked env a b c d e f s) = st_artifactObjectIDsByURI s"
  "st_artifactObjectIDsByURI (appendEventLocked env a b c v s) = st_artifactObjectIDsByURI s"
  "st_transientContentAdmission (appendAuditLocked env a b c d e f s) = st_transientContentAdmission s"
  "st_transientContentAdmission (appendEventLocked env a b c v s) = st_transientContentAdmission s"
  "st_auditEvents (appendEventLocked env a b c v s) = st_auditEvents s"
  "st_events (appendAuditLocked env a b c d e f s) = st_events s"
  by (simp_all add: appendAuditLocked_def appendAuditLockedAt_def appendEventLocked_def
      appendEventLockedAt_def)

section \<open>Starting points\<close>

text \<open>The stores a process starts with, the context no check refuses, and a sample environment for examples.\<close>

definition empty_store :: "MemoryStore \<Rightarrow> bool" where
  "empty_store s \<longleftrightarrow> (\<exists>admit. s = WithTransientContentAdmission admit NewMemoryStore)"

lemma empty_store_New: "empty_store NewMemoryStore"
  by (auto simp: empty_store_def WithTransientContentAdmission_def NewMemoryStore_def)

lemma empty_store_tables:
  assumes "empty_store s"
  shows "st_approvals s = []" "st_runs s = []" "st_modelCalls s = []" "st_toolCalls s = []" "st_toolCallIDsBySession s = []"
    "st_episodeSummaries s = []" "st_episodeIDsBySession s = []" "st_runFeedback s = []" "st_reminders s = []"
    "st_reminderDelivery s = []" "st_messageReceives s = []" "st_messageDeliveries s = []" "st_channelInboxUpdates s = []"
    "st_auditEvents s = []" "st_events s = []" "st_sessions s = []"
    "st_workbenchDrafts s = []" "st_sessionWriteHighWater s = []" "st_mcpAccessTickets s = []"
    "st_mcpBindings s = []" "st_mcpOperations s = []" "st_messages s = []" "st_connectorSettings s = []"
    "st_connectorSettingWriteHighWater s = []" "st_notificationBindings s = []" "st_notificationBindingWriteHighWater s = []"
    "st_documentRecords s = []" "st_externalChatSessions s = []" "st_externalChatMessages s = []"
    "st_browserLoginBlocks s = []" "st_memories s = []" "st_memoryCandidates s = []"
    "st_artifactObjects s = []" "st_artifactObjectIDsByURI s = []"
  using assms by (auto simp: empty_store_def WithTransientContentAdmission_def NewMemoryStore_def)

definition open_ctx :: op_ctx where
  "open_ctx = \<lparr>cx_denied = None, cx_entry = None, cx_locked = None, cx_exit = None\<rparr>"

lemma open_ctx_passes [simp]:
  "operationContextError op (cx_denied open_ctx) (cx_entry open_ctx) = None"
  "operationContextError op (cx_denied open_ctx) (cx_locked open_ctx) = None"
  "operationContextError op (cx_denied open_ctx) (cx_exit open_ctx) = None"
  by (simp_all add: open_ctx_def operationContextError_def)

definition sample_env :: op_env where
  "sample_env = \<lparr>en_now = 5000, en_rand = None, en_audit_now = 5000, en_audit_rand = None, en_event_now = 5000, en_event_rand = None\<rparr>"

lemma sample_clock [simp]: "json_time_ok (en_now sample_env)" "json_time_ok 1000" "json_time_ok 5000"
  by code_simp+

lemma sample_admit [simp]: "admitTransientContent v NewMemoryStore = None"
  by (simp add: admitTransientContent_def NewMemoryStore_def)

lemma New_tables [simp]:
  "st_approvals NewMemoryStore = []" "st_runs NewMemoryStore = []" "st_modelCalls NewMemoryStore = []"
  "st_toolCalls NewMemoryStore = []" "st_toolCallIDsBySession NewMemoryStore = []" "st_episodeSummaries NewMemoryStore = []"
  "st_episodeIDsBySession NewMemoryStore = []" "st_runFeedback NewMemoryStore = []" "st_reminders NewMemoryStore = []"
  "st_reminderDelivery NewMemoryStore = []" "st_messageReceives NewMemoryStore = []" "st_messageDeliveries NewMemoryStore = []"
  "st_channelInboxUpdates NewMemoryStore = []" "st_events NewMemoryStore = []" "st_auditEvents NewMemoryStore = []"
  "st_sessions NewMemoryStore = []"
  "st_workbenchDrafts NewMemoryStore = []" "st_sessionWriteHighWater NewMemoryStore = []" "st_mcpAccessTickets NewMemoryStore = []"
  "st_mcpBindings NewMemoryStore = []" "st_mcpOperations NewMemoryStore = []" "st_messages NewMemoryStore = []"
  "st_connectorSettings NewMemoryStore = []" "st_connectorSettingWriteHighWater NewMemoryStore = []"
  "st_notificationBindings NewMemoryStore = []" "st_notificationBindingWriteHighWater NewMemoryStore = []"
  "st_documentRecords NewMemoryStore = []" "st_externalChatSessions NewMemoryStore = []" "st_externalChatMessages NewMemoryStore = []"
  "st_browserLoginBlocks NewMemoryStore = []" "st_memories NewMemoryStore = []" "st_memoryCandidates NewMemoryStore = []"
  "st_artifactObjects NewMemoryStore = []" "st_artifactObjectIDsByURI NewMemoryStore = []"
  by (simp_all add: NewMemoryStore_def)

end
