(* ===== verification/Audit_Log.thy ===== *)
theory Audit_Log
  imports Store_State
begin

text \<open>
  The audit repository: \<open>AddAudit\<close>, \<open>ListAudit\<close> and \<open>EventsAfter\<close> (\<open>internal/store/audit_memory.go\<close>,
  \<open>audit_contract.go\<close>) and the bounded \<open>ReadEventWindow\<close> (\<open>event_window.go\<close>). The lemmas show that a
  client that follows windows reads the event log exactly once and in order.
\<close>

section \<open>Audit events\<close>

abbreviation "errAuditFieldsJSONDecode \<equiv> Err ''decode audit fields JSON''"

text \<open>The deep copy of the fields is the fields; it is refused when JSON cannot encode them.\<close>

definition cloneAuditFields :: "(string, goany) gomap \<Rightarrow> go_error + (string, goany) gomap" where
  "cloneAuditFields m = (if map_ok m then Inr m else Inl errAuditFieldsJSONDecode)"

definition cloneAuditEvent :: "AuditEvent \<Rightarrow> go_error + AuditEvent" where
  "cloneAuditEvent event = (case cloneAuditFields (ae_Fields event) of
     Inl e \<Rightarrow> Inl e | Inr m \<Rightarrow> Inr (event\<lparr>ae_Fields := m\<rparr>))"

definition prepareAuditEvent :: "8 word list option \<Rightarrow> AuditEvent \<Rightarrow> gotime \<Rightarrow> go_error + AuditEvent" where
  "prepareAuditEvent random event now =
     (let event = (if ae_ID event = [] then event\<lparr>ae_ID := NewID random ''audit''\<rparr> else event);
          event = (if IsZero (ae_Time event) then event\<lparr>ae_Time := now\<rparr> else event);
          event = event\<lparr>ae_Time := postgresTime (ae_Time event)\<rparr>
      in case cloneAuditFields (ae_Fields event) of
           Inl e \<Rightarrow> Inl e | Inr m \<Rightarrow> Inr (event\<lparr>ae_Fields := m\<rparr>))"

definition AddAudit :: "op_ctx \<Rightarrow> op_env \<Rightarrow> AuditEvent \<Rightarrow> MemoryStore \<Rightarrow> unit outcome" where
  "AddAudit cx env event s =
     checked (admitTransientContent (PAudit event) s)
       (framed ''audit.add'' cx (\<lambda>s.
          case prepareAuditEvent (en_rand env) event (en_now env) of
            Inl e \<Rightarrow> (Inl (storeError ''audit.add'' StoreErrorInvalid e), s)
          | Inr prepared \<Rightarrow> (Inr (), s\<lparr>st_auditEvents := st_auditEvents s @ [prepared]\<rparr>))) s"

definition audit_cmp :: "AuditEvent \<Rightarrow> AuditEvent \<Rightarrow> int" where
  "audit_cmp a b = (let order = time_cmp (ae_Time b) (ae_Time a)
     in if order \<noteq> 0 then order else str_cmp (ae_ID a) (ae_ID b))"

text \<open>A loop that clones every record stops at the first failure.\<close>

fun clone_all :: "('a \<Rightarrow> go_error + 'b) \<Rightarrow> 'a list \<Rightarrow> go_error + 'b list" where
  "clone_all f [] = Inr []"
| "clone_all f (x # xs) = (case f x of Inl e \<Rightarrow> Inl e
     | Inr y \<Rightarrow> (case clone_all f xs of Inl e \<Rightarrow> Inl e | Inr ys \<Rightarrow> Inr (y # ys)))"

definition ListAudit :: "op_ctx \<Rightarrow> string \<Rightarrow> MemoryStore \<Rightarrow> AuditEvent list outcome" where
  "ListAudit cx sessionID = framed ''audit.list'' cx (\<lambda>s.
     case clone_all cloneAuditEvent
         (filter (\<lambda>e. sessionID = [] \<or> ae_SessionID e = sessionID) (st_auditEvents s)) of
       Inl e \<Rightarrow> (Inl (storeError ''audit.list'' StoreErrorCorrupt e), s)
     | Inr out \<Rightarrow> (Inr (SortFunc audit_cmp out), s))"

section \<open>Reading events\<close>

fun events_after :: "string \<Rightarrow> string \<Rightarrow> bool \<Rightarrow> Event list \<Rightarrow> Event list" where
  "events_after sessionID after started [] = []"
| "events_after sessionID after started (event # events) =
     (if \<not> started then events_after sessionID after (ev_ID event = after) events
      else if sessionID = [] \<or> ev_SessionID event = sessionID
      then event # events_after sessionID after started events
      else events_after sessionID after started events)"

definition EventsAfter :: "op_ctx \<Rightarrow> string \<Rightarrow> string \<Rightarrow> MemoryStore \<Rightarrow> Event list outcome" where
  "EventsAfter cx sessionID after = framed ''audit.events_after'' cx (\<lambda>s.
     (Inr (events_after sessionID after (after = []) (st_events s)), s))"

record EventWindow =
  ew_Events :: "Event list"
  ew_Cursor :: string
  ew_CursorFound :: bool
  ew_More :: bool

abbreviation EventWindowLimit :: int where "EventWindowLimit \<equiv> 512"

text \<open>The loop of \<open>ReadEventWindow\<close> over the log, with its \<open>continue\<close> and its \<open>break\<close>.\<close>

fun scan_window :: "string \<Rightarrow> int \<Rightarrow> EventWindow \<Rightarrow> Event list \<Rightarrow> EventWindow" where
  "scan_window after limit out [] = out"
| "scan_window after limit out (event # events) =
     (if \<not> ew_CursorFound out
      then scan_window after limit (if ev_ID event = after then out\<lparr>ew_CursorFound := True\<rparr> else out) events
      else if int (length (ew_Events out)) = limit then out\<lparr>ew_More := True\<rparr>
      else scan_window after limit
             (out\<lparr>ew_Events := ew_Events out @ [event], ew_Cursor := ev_ID event\<rparr>) events)"

definition ReadEventWindow :: "op_ctx \<Rightarrow> string \<Rightarrow> int \<Rightarrow> bool \<Rightarrow> MemoryStore \<Rightarrow> EventWindow outcome" where
  "ReadEventWindow cx after limit tail =
     checked (entry_error ''audit.event_window'' cx) (\<lambda>s.
       if limit < 1 \<or> limit > EventWindowLimit
       then (Inl (storeError ''audit.event_window'' StoreErrorInvalid (Err ''invalid event window limit'')), s)
       else checked (locked_error ''audit.event_window'' cx) (\<lambda>s.
         let out = \<lparr>ew_Events = [], ew_Cursor = after, ew_CursorFound = (after = []), ew_More = False\<rparr>
         in if tail
            then (Inr (out\<lparr>ew_CursorFound := True,
                ew_Cursor := (if st_events s \<noteq> [] then ev_ID (last (st_events s)) else after)\<rparr>), s)
            else (case operationContextError ''audit.event_window'' (cx_denied cx) (cx_exit cx) of
                Some e \<Rightarrow> (Inl e, s)
              | None \<Rightarrow> (Inr (scan_window after limit out (st_events s)), s))) s)"

section \<open>Lemmas\<close>

lemma clone_all_Inr: "clone_all f xs = Inr ys \<longleftrightarrow> map f xs = map Inr ys"
proof (induction xs arbitrary: ys)
  case (Cons x xs)
  show ?case
    by (cases ys) (auto split: sum.splits simp flip: Cons.IH)
qed auto

lemma cloneAuditEvent_eq: "cloneAuditEvent e = (if map_ok (ae_Fields e) then Inr e else Inl errAuditFieldsJSONDecode)"
  by (simp add: cloneAuditEvent_def cloneAuditFields_def)

lemma AddAudit_error_frame: "AddAudit cx env event s = (Inl e, s') \<Longrightarrow> s' = s"
  by (auto simp: AddAudit_def checked_error framed_error split: sum.splits)

lemma AddAudit_logs: "logs_extend s (snd (AddAudit cx env event s))"
  by (auto simp: AddAudit_def checked_def framed_def logs_extend_def split: option.splits sum.splits)

interpretation add_audit: failing_operation "AddAudit cx env event" True
  by unfold_locales (rule AddAudit_error_frame)

interpretation audit_order: sort_order audit_cmp "\<lambda>e. (- ae_Time e, ae_ID e)"
  by unfold_locales (auto simp: audit_cmp_def time_cmp_def str_cmp_def Let_def less_eq_prod_def)

text \<open>The readers leave the store alone.\<close>

lemma audit_readers_pure [store_frame]:
  "snd (ListAudit cx sid s) = s" "snd (EventsAfter cx sid after s) = s"
  "snd (ReadEventWindow cx after limit tail s) = s"
  by (auto simp: ListAudit_def EventsAfter_def ReadEventWindow_def framed_def checked_def Let_def
      split: option.splits sum.splits)

text \<open>The scan once the cursor is found takes the next \<open>limit\<close> events and says whether some are left.\<close>

lemma scan_window_found:
  assumes "ew_CursorFound out" and "0 \<le> k" and "int (length (ew_Events out)) + k = limit"
  shows "scan_window after limit out events =
    out\<lparr>ew_Events := ew_Events out @ take (nat k) events,
        ew_Cursor := (if events = [] \<or> k = 0 then ew_Cursor out else ev_ID (last (take (nat k) events))),
        ew_More := ew_More out \<or> nat k < length events\<rparr>"
  using assms
proof (induction events arbitrary: out k)
  case (Cons event events)
  show ?case
  proof (cases "k = 0")
    case False
    with Cons.prems have "scan_window after limit out (event # events) =
        scan_window after limit (out\<lparr>ew_Events := ew_Events out @ [event], ew_Cursor := ev_ID event\<rparr>) events"
      by auto
    also have "\<dots> = (out\<lparr>ew_Events := ew_Events out @ [event], ew_Cursor := ev_ID event\<rparr>)
        \<lparr>ew_Events := (ew_Events out @ [event]) @ take (nat (k - 1)) events,
         ew_Cursor := (if events = [] \<or> k - 1 = 0 then ev_ID event else ev_ID (last (take (nat (k - 1)) events))),
         ew_More := ew_More out \<or> nat (k - 1) < length events\<rparr>"
      using Cons.IH [of "out\<lparr>ew_Events := ew_Events out @ [event], ew_Cursor := ev_ID event\<rparr>" "k - 1"]
        Cons.prems False by simp
    finally show ?thesis
      using False Cons.prems(2) by (cases "nat k") (auto simp: nat_diff_distrib' Suc_nat_eq_nat_zadd1)
  qed (use Cons.prems in auto)
qed simp

fun drop_past :: "string \<Rightarrow> Event list \<Rightarrow> Event list option" where
  "drop_past after [] = None"
| "drop_past after (event # events) = (if ev_ID event = after then Some events else drop_past after events)"

definition suffix_after :: "string \<Rightarrow> Event list \<Rightarrow> Event list option" where
  "suffix_after after events = (if after = [] then Some events else drop_past after events)"

lemma scan_window_seek:
  assumes "\<not> ew_CursorFound out"
  shows "scan_window after limit out events = (case drop_past after events of
     None \<Rightarrow> out | Some rest \<Rightarrow> scan_window after limit (out\<lparr>ew_CursorFound := True\<rparr>) rest)"
  using assms by (induction events) auto

lemma events_after_started: "events_after [] after True events = events"
  by (induction events) auto

lemma events_after_seek: "events_after [] after False events = (case drop_past after events of None \<Rightarrow> [] | Some rest \<Rightarrow> rest)"
  by (induction events) (auto simp: events_after_started)

lemma events_after_suffix:
  "events_after [] after (after = []) events = (case suffix_after after events of None \<Rightarrow> [] | Some rest \<Rightarrow> rest)"
  by (auto simp: suffix_after_def events_after_started events_after_seek)

text \<open>One window in closed form.\<close>

lemma scan_window_eq:
  assumes "1 \<le> limit"
  shows "scan_window after limit
      \<lparr>ew_Events = [], ew_Cursor = after, ew_CursorFound = (after = []), ew_More = False\<rparr> events =
    (case suffix_after after events of
       None \<Rightarrow> \<lparr>ew_Events = [], ew_Cursor = after, ew_CursorFound = False, ew_More = False\<rparr>
     | Some rest \<Rightarrow> \<lparr>ew_Events = take (nat limit) rest,
         ew_Cursor = (if rest = [] then after else ev_ID (last (take (nat limit) rest))),
         ew_CursorFound = True, ew_More = (nat limit < length rest)\<rparr>)"
  using assms by (auto simp: suffix_after_def scan_window_seek scan_window_found [where k = limit] split: option.splits)

lemma drop_past_split:
  "distinct (map ev_ID (xs @ e # ys)) \<Longrightarrow> drop_past (ev_ID e) (xs @ e # ys) = Some ys"
  by (induction xs) auto

text \<open>A client that follows the cursor while a window says there is more. \<open>fuel\<close> bounds the number of
  windows; one window per event of the log is enough.\<close>

fun follow_windows :: "op_ctx \<Rightarrow> nat \<Rightarrow> int \<Rightarrow> string \<Rightarrow> MemoryStore \<Rightarrow> Event list" where
  "follow_windows cx 0 limit after s = []"
| "follow_windows cx (Suc fuel) limit after s = (case fst (ReadEventWindow cx after limit False s) of
     Inl e \<Rightarrow> []
   | Inr w \<Rightarrow> ew_Events w @ (if ew_More w then follow_windows cx fuel limit (ew_Cursor w) s else []))"

lemma follow_windows_suffix:
  assumes "distinct (map ev_ID (st_events s))" and "[] \<notin> set (map ev_ID (st_events s))"
    and "1 \<le> limit" and "limit \<le> EventWindowLimit"
    and "suffix_after after (st_events s) = Some rest" and "st_events s = front @ rest"
    and "length rest \<le> fuel" and "0 < fuel"
  shows "follow_windows open_ctx fuel limit after s = rest"
  using assms(5-8)
proof (induction fuel arbitrary: after rest front)
  case (Suc fuel)
  let ?t = "take (nat limit) rest" and ?d = "drop (nat limit) rest"
  have w: "fst (ReadEventWindow open_ctx after limit False s) =
      Inr \<lparr>ew_Events = ?t, ew_Cursor = (if rest = [] then after else ev_ID (last ?t)),
           ew_CursorFound = True, ew_More = (nat limit < length rest)\<rparr>"
    using assms(3,4) Suc.prems(1) by (simp add: ReadEventWindow_def checked_def scan_window_eq)
  show ?case
  proof (cases "nat limit < length rest")
    case False
    then show ?thesis by (simp add: w)
  next
    case True
    then have ne: "?t \<noteq> []" using assms(3) by auto
    have "rest = butlast ?t @ last ?t # ?d"
      using ne by (metis append_butlast_last_id append.assoc append_Cons append_Nil append_take_drop_id)
    then have split: "st_events s = (front @ butlast ?t) @ last ?t # ?d"
      using Suc.prems(2) by simp
    then have "drop_past (ev_ID (last ?t)) (st_events s) = Some ?d"
      using assms(1) by (metis drop_past_split)
    moreover have "ev_ID (last ?t) \<noteq> []"
      using assms(2) split by auto
    ultimately have "suffix_after (ev_ID (last ?t)) (st_events s) = Some ?d"
      by (simp add: suffix_after_def)
    moreover have "st_events s = (front @ ?t) @ ?d"
      using Suc.prems(2) by simp
    moreover have "length ?d \<le> fuel" and "0 < fuel"
      using Suc.prems(3) True assms(3) by auto
    ultimately have "follow_windows open_ctx fuel limit (ev_ID (last ?t)) s = ?d"
      using Suc.IH by blast
    with True ne show ?thesis
      by (auto simp: w)
  qed
qed simp

section \<open>Properties\<close>

definition sample_event :: "string \<Rightarrow> Event" where
  "sample_event i = \<lparr>ev_ID = i, ev_Time = 0, ev_Type = ''run.done'', ev_SessionID = ''s'', ev_RunID = [], ev_Payload = POther AnyNil\<rparr>"

definition sample_store :: MemoryStore where
  "sample_store = NewMemoryStore\<lparr>st_events := map sample_event [''a'', ''b'', ''c'', ''d'']\<rparr>"

text \<open>Bounded reading of the event log loses and repeats nothing. When event identities are distinct and
  non-empty, a client that starts behind any event of the log (or at its beginning), asks for windows of
  any allowed size and continues from the returned cursor while a window says there is more, receives
  exactly what \<open>EventsAfter\<close> returns in one unbounded read; as many windows as the log has events suffice.\<close>

theorem windows_reproduce_log:
  assumes "distinct (map ev_ID (st_events s))" and "[] \<notin> set (map ev_ID (st_events s))"
    and "after = [] \<or> after \<in> set (map ev_ID (st_events s))"
    and "1 \<le> limit" and "limit \<le> EventWindowLimit"
  shows "EventsAfter open_ctx [] after s =
     (Inr (follow_windows open_ctx (Suc (length (st_events s))) limit after s), s)"
proof -
  obtain front rest where "suffix_after after (st_events s) = Some rest" and "st_events s = front @ rest"
  proof (cases "after = []")
    case True
    then show thesis using that [of "st_events s" "[]"] by (simp add: suffix_after_def)
  next
    case False
    with assms(3) obtain e where e: "e \<in> set (st_events s)" "after = ev_ID e" by auto
    then obtain xs ys where xs: "st_events s = xs @ e # ys" by (meson split_list)
    with assms(1) have "drop_past after (st_events s) = Some ys"
      using drop_past_split e(2) by metis
    with False xs show thesis using that [of ys "xs @ [e]"] by (simp add: suffix_after_def)
  qed
  then show ?thesis
    using follow_windows_suffix [OF assms(1,2,4,5), of after rest front "Suc (length (st_events s))"]
    by (simp add: EventsAfter_def framed_def checked_def events_after_suffix)
qed

lemma windows_reproduce_log_witness:
  "EventsAfter open_ctx [] ''b'' sample_store =
     (Inr (follow_windows open_ctx (Suc (length (st_events sample_store))) 1 ''b'' sample_store), sample_store)"
  by (rule windows_reproduce_log) (simp_all add: sample_store_def sample_event_def)

text \<open>Every single window is the next stretch of the log: at most \<open>limit\<close> events, in log order, directly
  behind the cursor, with a cursor that names the last of them (or stays when there are none) and a flag
  that says exactly whether the log goes on; an unknown cursor is reported as a gap with no events, and
  the tail request returns the current end without any event.\<close>

theorem window_is_next_stretch:
  assumes "ReadEventWindow open_ctx after limit tail s = (Inr w, s')"
  shows "s' = s \<and> length (ew_Events w) \<le> nat limit \<and>
    (if tail then ew_Events w = [] \<and> ew_CursorFound w \<and>
        ew_Cursor w = (if st_events s = [] then after else ev_ID (last (st_events s)))
     else case suffix_after after (st_events s) of
        None \<Rightarrow> \<not> ew_CursorFound w \<and> ew_Events w = [] \<and> ew_Cursor w = after \<and> \<not> ew_More w
      | Some rest \<Rightarrow> ew_CursorFound w \<and> (\<exists>left. rest = ew_Events w @ left \<and> (ew_More w \<longleftrightarrow> left \<noteq> [])) \<and>
          ew_Cursor w = (if ew_Events w = [] then after else ev_ID (last (ew_Events w))))"
proof -
  have limit: "1 \<le> limit"
    using assms by (auto simp: ReadEventWindow_def checked_def split: if_splits)
  have more: "\<exists>left. rest = take (nat limit) rest @ left \<and> (nat limit < length rest \<longleftrightarrow> left \<noteq> [])" for rest :: "Event list"
    by (intro exI [of _ "drop (nat limit) rest"]) auto
  show ?thesis
  proof (cases tail)
    case True
    with assms limit show ?thesis
      by (auto simp: ReadEventWindow_def checked_def Let_def split: if_splits)
  next
    case False
    with assms limit have "s' = s"
      and w: "w = scan_window after limit
        \<lparr>ew_Events = [], ew_Cursor = after, ew_CursorFound = (after = []), ew_More = False\<rparr> (st_events s)"
      by (auto simp: ReadEventWindow_def checked_def Let_def split: if_splits)
    then show ?thesis
      using False limit more
      by (cases "suffix_after after (st_events s)") (auto simp: w scan_window_eq [OF limit])
  qed
qed

lemma window_is_next_stretch_witness:
  "\<exists>w. ReadEventWindow open_ctx ''a'' 1 False sample_store = (Inr w, sample_store) \<and> length (ew_Events w) \<le> nat 1"
proof -
  obtain w where w: "ReadEventWindow open_ctx ''a'' 1 False sample_store = (Inr w, sample_store)"
    by (simp add: ReadEventWindow_def checked_def)
  from window_is_next_stretch [OF w] w show ?thesis by blast
qed

end
