(* ===== verification/JSON_Text.thy ===== *)
theory JSON_Text
  imports Go_Prelude
begin

text \<open>
  \<open>json.Valid\<close> and \<open>json.Compact\<close> on raw bytes: the scanner of \<open>encoding/json\<close> as a state machine over a
  stack of open objects and arrays, with its nesting limit. Compacting keeps exactly the bytes the scanner
  does not skip. The lemmas: compacting a valid text gives a valid text that compacts to itself.
\<close>

section \<open>The scanner\<close>

datatype jparse = ObjectKey | ObjectValue | ArrayValue

text \<open>The scanner's step functions; \<open>EscU n\<close> awaits \<open>n\<close> more hexadecimal digits, \<open>Lit w\<close> the letters \<open>w\<close> of a literal.\<close>

datatype jmode = BeginValue | BeginValueOrEmpty | BeginStringOrEmpty | BeginString | EndValue | EndTop
  | InString | InStringEsc | EscU nat | Neg | Digits | AfterZero | Dot | DotDigits | Exponent | ExpSign | ExpDigits
  | Lit string

type_synonym jstate = "jmode \<times> jparse list"

definition json_space :: "char \<Rightarrow> bool" where
  "json_space c \<longleftrightarrow> c = CHR 0x20 \<or> c = CHR 0x09 \<or> c = CHR 0x0D \<or> c = CHR 0x0A"

definition json_digit :: "char \<Rightarrow> bool" where
  "json_digit c \<longleftrightarrow> 48 \<le> byte c \<and> byte c \<le> 57"

definition json_hex :: "char \<Rightarrow> bool" where
  "json_hex c \<longleftrightarrow> json_digit c \<or> (97 \<le> byte c \<and> byte c \<le> 102) \<or> (65 \<le> byte c \<and> byte c \<le> 70)"

abbreviation (input) maxNestingDepth :: nat where "maxNestingDepth \<equiv> 10000"

text \<open>The value of a step says whether the byte is kept (\<open>False\<close> for a skipped space) and the next state.\<close>

definition push_parse :: "jmode \<Rightarrow> jparse \<Rightarrow> jparse list \<Rightarrow> (bool \<times> jstate) option" where
  "push_parse m p ps = (if length ps < maxNestingDepth then Some (True, m, p # ps) else None)"

definition pop_parse :: "jparse list \<Rightarrow> jstate" where
  "pop_parse ps = (if ps = [] then EndTop else EndValue, ps)"

fun end_value :: "jparse list \<Rightarrow> char \<Rightarrow> (bool \<times> jstate) option" where
  "end_value [] c = (if json_space c then Some (False, EndTop, []) else None)"
| "end_value (p # ps) c =
     (if json_space c then Some (False, EndValue, p # ps)
      else case p of
        ObjectKey \<Rightarrow> if c = CHR '':'' then Some (True, BeginValue, ObjectValue # ps) else None
      | ObjectValue \<Rightarrow>
          if c = CHR '','' then Some (True, BeginString, ObjectKey # ps)
          else if c = CHR ''}'' then Some (True, pop_parse ps) else None
      | ArrayValue \<Rightarrow>
          if c = CHR '','' then Some (True, BeginValue, ArrayValue # ps)
          else if c = CHR '']'' then Some (True, pop_parse ps) else None)"

definition begin_value :: "jmode \<Rightarrow> jparse list \<Rightarrow> char \<Rightarrow> (bool \<times> jstate) option" where
  "begin_value m ps c =
     (if json_space c then Some (False, m, ps)
      else if c = CHR ''{'' then push_parse BeginStringOrEmpty ObjectKey ps
      else if c = CHR ''['' then push_parse BeginValueOrEmpty ArrayValue ps
      else if c = CHR 0x22 then Some (True, InString, ps)
      else if c = CHR ''-'' then Some (True, Neg, ps)
      else if c = CHR ''0'' then Some (True, AfterZero, ps)
      else if c = CHR ''t'' then Some (True, Lit ''rue'', ps)
      else if c = CHR ''f'' then Some (True, Lit ''alse'', ps)
      else if c = CHR ''n'' then Some (True, Lit ''ull'', ps)
      else if json_digit c then Some (True, Digits, ps)
      else None)"

definition begin_string :: "jmode \<Rightarrow> jparse list \<Rightarrow> char \<Rightarrow> (bool \<times> jstate) option" where
  "begin_string m ps c =
     (if json_space c then Some (False, m, ps) else if c = CHR 0x22 then Some (True, InString, ps) else None)"

definition after_zero :: "jparse list \<Rightarrow> char \<Rightarrow> (bool \<times> jstate) option" where
  "after_zero ps c =
     (if c = CHR ''.'' then Some (True, Dot, ps)
      else if c = CHR ''e'' \<or> c = CHR ''E'' then Some (True, Exponent, ps) else end_value ps c)"

definition exp_sign :: "jparse list \<Rightarrow> char \<Rightarrow> (bool \<times> jstate) option" where
  "exp_sign ps c = (if json_digit c then Some (True, ExpDigits, ps) else None)"

fun jstep :: "jstate \<Rightarrow> char \<Rightarrow> (bool \<times> jstate) option" where
  "jstep (BeginValue, ps) c = begin_value BeginValue ps c"
| "jstep (BeginValueOrEmpty, ps) c = (if c = CHR '']'' then end_value ps c else begin_value BeginValueOrEmpty ps c)"
| "jstep (BeginStringOrEmpty, ps) c =
     (if c = CHR ''}'' then (case ps of [] \<Rightarrow> None | p # ps \<Rightarrow> end_value (ObjectValue # ps) c)
      else begin_string BeginStringOrEmpty ps c)"
| "jstep (BeginString, ps) c = begin_string BeginString ps c"
| "jstep (EndValue, ps) c = end_value ps c"
| "jstep (EndTop, ps) c = (if json_space c then Some (False, EndTop, ps) else None)"
| "jstep (InString, ps) c =
     (if c = CHR 0x22 then Some (True, EndValue, ps)
      else if c = CHR 0x5C then Some (True, InStringEsc, ps)
      else if byte c < 32 then None else Some (True, InString, ps))"
| "jstep (InStringEsc, ps) c =
     (if c \<in> {CHR ''b'', CHR ''f'', CHR ''n'', CHR ''r'', CHR ''t'', CHR 0x5C, CHR ''/'', CHR 0x22} then Some (True, InString, ps)
      else if c = CHR ''u'' then Some (True, EscU 4, ps) else None)"
| "jstep (EscU n, ps) c = (if json_hex c then Some (True, if n \<le> 1 then InString else EscU (n - 1), ps) else None)"
| "jstep (Neg, ps) c =
     (if c = CHR ''0'' then Some (True, AfterZero, ps) else if json_digit c then Some (True, Digits, ps) else None)"
| "jstep (Digits, ps) c = (if json_digit c then Some (True, Digits, ps) else after_zero ps c)"
| "jstep (AfterZero, ps) c = after_zero ps c"
| "jstep (Dot, ps) c = (if json_digit c then Some (True, DotDigits, ps) else None)"
| "jstep (DotDigits, ps) c =
     (if json_digit c then Some (True, DotDigits, ps)
      else if c = CHR ''e'' \<or> c = CHR ''E'' then Some (True, Exponent, ps) else end_value ps c)"
| "jstep (Exponent, ps) c = (if c = CHR ''+'' \<or> c = CHR ''-'' then Some (True, ExpSign, ps) else exp_sign ps c)"
| "jstep (ExpSign, ps) c = exp_sign ps c"
| "jstep (ExpDigits, ps) c = (if json_digit c then Some (True, ExpDigits, ps) else end_value ps c)"
| "jstep (Lit w, ps) c = (case w of [] \<Rightarrow> None | x # xs \<Rightarrow>
     if c = x then Some (True, if xs = [] then EndValue else Lit xs, ps) else None)"

definition at_end :: "jstate \<Rightarrow> bool" where
  "at_end st \<longleftrightarrow> fst st = EndTop \<or> (case jstep st (CHR 0x20) of None \<Rightarrow> False | Some (k, st') \<Rightarrow> fst st' = EndTop)"

text \<open>The bytes kept from a text and the state after it; \<open>None\<close> for a text the scanner refuses.\<close>

fun jscan :: "jstate \<Rightarrow> string \<Rightarrow> string option" where
  "jscan st [] = (if at_end st then Some [] else None)"
| "jscan st (c # cs) = (case jstep st c of
     None \<Rightarrow> None
   | Some (kept, st') \<Rightarrow> (case jscan st' cs of None \<Rightarrow> None | Some out \<Rightarrow> Some (if kept then c # out else out)))"

definition json_Compact :: "string \<Rightarrow> string option" where
  "json_Compact text = jscan (BeginValue, []) text"

definition json_Valid :: "string \<Rightarrow> bool" where
  "json_Valid text \<longleftrightarrow> json_Compact text \<noteq> None"

section \<open>Compacting\<close>

lemma end_value_chars:
  "end_value ps d = Some r \<Longrightarrow> \<not> json_digit d \<and> d \<noteq> CHR ''.'' \<and> d \<noteq> CHR ''e'' \<and> d \<noteq> CHR ''E''"
  by (cases ps) (auto simp: json_space_def json_digit_def byte_def split: if_splits jparse.splits)

lemma end_value_skip:
  assumes "end_value ps c = Some (False, st')" and "jstep st' d = Some r"
  shows "end_value ps d = Some r"
proof (cases ps)
  case Nil
  then show ?thesis using assms by (auto split: if_splits)
next
  case (Cons p qs)
  then have "st' = (EndValue, ps)"
    using assms(1) by (auto simp: pop_parse_def split: if_splits jparse.splits)
  then show ?thesis using assms(2) by simp
qed

text \<open>A skipped space does not matter to what follows it.\<close>

lemma skip_step:
  assumes "jstep st c = Some (False, st')" and "jstep st' d = Some r"
  shows "jstep st d = Some r"
proof -
  obtain m ps where st: "st = (m, ps)" by (cases st)
  have same: "st' = st \<or> end_value ps c = Some (False, st') \<and> m \<in> {EndValue, Digits, AfterZero, DotDigits, ExpDigits}"
    if "m \<noteq> BeginStringOrEmpty" "m \<noteq> BeginValueOrEmpty"
    using assms(1) that unfolding st
    by (cases m) (auto simp: begin_value_def begin_string_def push_parse_def after_zero_def exp_sign_def
        split: if_splits list.splits)
  show ?thesis
  proof (cases "m = BeginStringOrEmpty \<or> m = BeginValueOrEmpty")
    case True
    then have "st' = st"
      using assms(1) unfolding st
      by (auto simp: begin_value_def begin_string_def push_parse_def json_space_def pop_parse_def
          split: if_splits list.splits jparse.splits elim!: end_value.elims)
    then show ?thesis using assms(2) by simp
  next
    case False
    with same consider "st' = st"
      | "end_value ps c = Some (False, st')" "m \<in> {EndValue, Digits, AfterZero, DotDigits, ExpDigits}" by blast
    then show ?thesis
    proof cases
      case 1
      then show ?thesis using assms(2) by simp
    next
      case 2
      have e: "end_value ps d = Some r" by (rule end_value_skip [OF 2(1) assms(2)])
      note end_value_chars [OF e]
      with e 2(2) show ?thesis unfolding st by (auto simp: after_zero_def)
    qed
  qed
qed

lemma skip_end: "jstep st c = Some (False, st') \<Longrightarrow> at_end st' \<Longrightarrow> at_end st"
proof -
  assume s: "jstep st c = Some (False, st')" and e: "at_end st'"
  show "at_end st"
  proof (cases "jstep st' (CHR 0x20)")
    case (Some r)
    have "jstep st (CHR 0x20) = Some r" by (rule skip_step [OF s Some])
    moreover have "fst (snd r) = EndTop"
    proof (cases "fst st' = EndTop")
      case True
      then show ?thesis using Some by (cases st') (auto simp: json_space_def)
    next
      case False
      then show ?thesis using e Some by (auto simp: at_end_def)
    qed
    ultimately show ?thesis by (cases r) (simp add: at_end_def)
  next
    case None
    then have "fst st' = EndTop" using e by (simp add: at_end_def)
    then show ?thesis using None by (cases st') (simp add: json_space_def)
  qed
qed

lemma skip_scan: "jstep st c = Some (False, st') \<Longrightarrow> jscan st' cs = Some out \<Longrightarrow> jscan st cs = Some out"
proof (cases cs)
  case Nil
  then show "jstep st c = Some (False, st') \<Longrightarrow> jscan st' cs = Some out \<Longrightarrow> jscan st cs = Some out"
    by (simp add: skip_end split: if_splits)
next
  case (Cons d ds)
  then show "jstep st c = Some (False, st') \<Longrightarrow> jscan st' cs = Some out \<Longrightarrow> jscan st cs = Some out"
    using skip_step [of st c st' d] by (auto split: option.splits)
qed

lemma jscan_idem: "jscan st cs = Some out \<Longrightarrow> jscan st out = Some out"
proof (induction cs arbitrary: st out)
  case (Cons c cs)
  then obtain kept st' out' where step: "jstep st c = Some (kept, st')" and scan: "jscan st' cs = Some out'"
    and out: "out = (if kept then c # out' else out')"
    by (auto split: option.splits)
  have rec: "jscan st' out' = Some out'" by (rule Cons.IH [OF scan])
  show ?case
  proof (cases kept)
    case True
    then show ?thesis using out step rec by simp
  next
    case False
    then have "jstep st c = Some (False, st')" using step by simp
    from skip_scan [OF this rec] show ?thesis using out False by simp
  qed
qed (auto split: if_splits)

lemma json_Compact_idem: "json_Compact t = Some c \<Longrightarrow> json_Compact c = Some c"
  unfolding json_Compact_def by (rule jscan_idem)

lemma json_Compact_Valid: "json_Compact t = Some c \<Longrightarrow> json_Valid c"
  by (simp add: json_Valid_def json_Compact_idem)

lemma json_Compact_empty [simp]: "json_Compact [] = None"
  by (simp add: json_Compact_def at_end_def begin_value_def json_space_def)

end
