(* ===== verification/Delivery_Operations.thy ===== *)
theory Delivery_Operations
  imports Audit_Log JSON_Text
begin

text \<open>
  The message ledger: the contract of \<open>internal/store/delivery_record_contract.go\<close> and every operation of
  \<open>delivery_record_memory.go\<close> over received messages, deliveries and the channel inbox. Deep copies are the
  identity on values; what a clone normalises is kept. A missing current record is \<open>None\<close> where the code passes
  the zero record, whose identity is empty. The theory \<open>Deliveries\<close> shows what the operations guarantee.
\<close>

abbreviation (input) defaultDeliveryRecordLimit :: int where "defaultDeliveryRecordLimit \<equiv> 100"

definition sameOptionalString :: "string \<Rightarrow> string \<Rightarrow> bool" where
  "sameOptionalString current candidate \<longleftrightarrow> current = [] \<or> candidate = [] \<or> current = candidate"

definition normalizeDeliveryRecordLimit :: "int \<Rightarrow> int" where
  "normalizeDeliveryRecordLimit limit = (if limit \<le> 0 then defaultDeliveryRecordLimit else limit)"

text \<open>\<open>current.ID != ""\<close>, and the update time of a current record that may be the zero one.\<close>

definition identified :: "('r \<Rightarrow> string) \<Rightarrow> 'r option \<Rightarrow> 'r option" where
  "identified rid current = (case current of None \<Rightarrow> None | Some c \<Rightarrow> if rid c \<noteq> [] then Some c else None)"

definition high_water :: "('r \<Rightarrow> gotime) \<Rightarrow> 'r option \<Rightarrow> gotime" where
  "high_water updated current = (case current of None \<Rightarrow> 0 | Some c \<Rightarrow> updated c)"

section \<open>Received messages\<close>

definition normalize_transitions :: "MessageLifecycleTransition list \<Rightarrow> MessageLifecycleTransition list" where
  "normalize_transitions = map (\<lambda>t. t\<lparr>lt_At := postgresTime (lt_At t)\<rparr>)"

definition cloneMessageReceive :: "MessageReceiveRecord \<Rightarrow> MessageReceiveRecord" where
  "cloneMessageReceive r = r\<lparr>mr_CreatedAt := postgresTime (mr_CreatedAt r), mr_UpdatedAt := postgresTime (mr_UpdatedAt r),
     mr_Transitions := normalize_transitions (mr_Transitions r)\<rparr>"

definition messageReceiveIdentityCompatible :: "MessageReceiveRecord \<Rightarrow> MessageReceiveRecord \<Rightarrow> bool" where
  "messageReceiveIdentityCompatible current candidate \<longleftrightarrow>
     sameOptionalString (mr_OwnerID current) (mr_OwnerID candidate) \<and>
     sameOptionalString (mr_ActorID current) (mr_ActorID candidate) \<and>
     sameOptionalString (mr_ProviderKey current) (mr_ProviderKey candidate) \<and>
     mr_SourceEndpointID current = mr_SourceEndpointID candidate \<and> mr_NativeMessageID current = mr_NativeMessageID candidate"

definition trim_receive :: "MessageReceiveRecord \<Rightarrow> MessageReceiveRecord" where
  "trim_receive r = r\<lparr>mr_ID := TrimSpace (mr_ID r), mr_OwnerID := TrimSpace (mr_OwnerID r), mr_ActorID := TrimSpace (mr_ActorID r),
     mr_ProviderKey := TrimSpace (mr_ProviderKey r), mr_SourceEndpointID := TrimSpace (mr_SourceEndpointID r),
     mr_NativeMessageID := TrimSpace (mr_NativeMessageID r), mr_Status := TrimSpace (mr_Status r)\<rparr>"

text \<open>What an update inherits from the record it updates.\<close>

definition inherit_receive :: "MessageReceiveRecord \<Rightarrow> MessageReceiveRecord \<Rightarrow> MessageReceiveRecord" where
  "inherit_receive c r =
     (let r = (if mr_OwnerID r = [] then r\<lparr>mr_OwnerID := mr_OwnerID c\<rparr> else r);
          r = (if mr_ActorID r = [] then r\<lparr>mr_ActorID := mr_ActorID c\<rparr> else r);
          r = (if mr_ProviderKey r = [] then r\<lparr>mr_ProviderKey := mr_ProviderKey c\<rparr> else r)
      in r\<lparr>mr_ID := mr_ID c, mr_CreatedAt := mr_CreatedAt c, mr_Transitions := mr_Transitions c\<rparr>)"

text \<open>The defaults, the times and the transition to the record's status, from the identity on.\<close>

definition finish_receive ::
  "8 word list option \<Rightarrow> MessageReceiveRecord \<Rightarrow> gotime \<Rightarrow> gotime \<Rightarrow> go_error + MessageReceiveRecord" where
  "finish_receive random r previous now =
     (let r = (if mr_ID r = [] then r\<lparr>mr_ID := NewID random ''recv''\<rparr> else r);
          r = (if mr_Direction r = [] then r\<lparr>mr_Direction := ''receive''\<rparr> else r)
      in if mr_Direction r \<noteq> ''receive'' then Inl (Err ''receive record direction must be receive'')
         else
           let r = (if IsZero (mr_CreatedAt r) then r\<lparr>mr_CreatedAt := now\<rparr> else r);
               r = r\<lparr>mr_CreatedAt := postgresTime (mr_CreatedAt r), mr_UpdatedAt := nextRepositoryTime now [previous],
                     mr_Transitions := normalize_transitions (mr_Transitions r)\<rparr>;
               r = (if mr_Transitions r = [] \<or> lt_Status (last (mr_Transitions r)) \<noteq> mr_Status r
                    then r\<lparr>mr_Transitions := mr_Transitions r @ [\<lparr>lt_Status = mr_Status r, lt_At = mr_UpdatedAt r\<rparr>]\<rparr> else r)
           in Inr (cloneMessageReceive r))"

definition prepareMessageReceive ::
  "8 word list option \<Rightarrow> MessageReceiveRecord \<Rightarrow> MessageReceiveRecord option \<Rightarrow> gotime \<Rightarrow> go_error + MessageReceiveRecord" where
  "prepareMessageReceive random record current now =
     (let r = trim_receive record
      in if mr_SourceEndpointID r = [] \<or> mr_NativeMessageID r = [] \<or> mr_Status r = []
         then Inl (Err ''receive endpoint, native message ID, and status are required'')
         else case identified mr_ID current of
           None \<Rightarrow> finish_receive random r (high_water mr_UpdatedAt current) now
         | Some c \<Rightarrow>
             if \<not> messageReceiveIdentityCompatible c r then Inl ErrMessageReceiveConflict
             else finish_receive random (inherit_receive c r) (high_water mr_UpdatedAt current) now)"

text \<open>The record with the endpoint and the native identity of \<open>r\<close>, in the order of the iteration.\<close>

definition receive_with :: "string \<Rightarrow> string \<Rightarrow> MemoryStore \<Rightarrow> MessageReceiveRecord option" where
  "receive_with endpoint native s =
     find (\<lambda>c. mr_SourceEndpointID c = endpoint \<and> mr_NativeMessageID c = native) (mvals (st_messageReceives s))"

text \<open>The code of an error of a prepare function: conflict for the sentinel, invalid otherwise.\<close>

definition prepare_error :: "string \<Rightarrow> go_error \<Rightarrow> go_error \<Rightarrow> go_error" where
  "prepare_error op conflict e = storeError op (if err_is e conflict then StoreErrorConflict else StoreErrorInvalid) e"

definition record_receive :: "op_env \<Rightarrow> MessageReceiveRecord \<Rightarrow> MemoryStore \<Rightarrow> MemoryStore" where
  "record_receive env p s =
     appendAuditLocked env (''message.receive.'' @ mr_Status p) [] (mr_LinkedRunID p) ''gateway'' (mr_ProviderKey p)
       [(''receive_id'', AnyString (mr_ID p)), (''endpoint_id'', AnyString (mr_SourceEndpointID p))]
       (s\<lparr>st_messageReceives := mput (mr_ID p) p (st_messageReceives s)\<rparr>)"

definition SaveMessageReceive :: "op_ctx \<Rightarrow> op_env \<Rightarrow> MessageReceiveRecord \<Rightarrow> MemoryStore \<Rightarrow> MessageReceiveRecord outcome" where
  "SaveMessageReceive cx env record = framed ''message_receive.save'' cx (\<lambda>s.
     let r = record\<lparr>mr_ID := TrimSpace (mr_ID record), mr_SourceEndpointID := TrimSpace (mr_SourceEndpointID record),
               mr_NativeMessageID := TrimSpace (mr_NativeMessageID record)\<rparr>;
         byID = mget (st_messageReceives s) (mr_ID r);
         same = receive_with (mr_SourceEndpointID r) (mr_NativeMessageID r) s;
         current = (case same of None \<Rightarrow> byID | Some c \<Rightarrow> Some c)
     in if (case (byID, same) of (Some b, Some c) \<Rightarrow> mr_ID b \<noteq> mr_ID c | _ \<Rightarrow> False)
        then (Inl (storeError ''message_receive.save'' StoreErrorConflict ErrMessageReceiveConflict), s)
        else case prepareMessageReceive (en_rand env) r current (en_now env) of
          Inl e \<Rightarrow> (Inl (prepare_error ''message_receive.save'' ErrMessageReceiveConflict e), s)
        | Inr p \<Rightarrow> (Inr (cloneMessageReceive p), record_receive env (cloneMessageReceive p) s))"

definition GetMessageReceive :: "op_ctx \<Rightarrow> string \<Rightarrow> MemoryStore \<Rightarrow> MessageReceiveRecord option outcome" where
  "GetMessageReceive cx i = framed ''message_receive.get'' cx (\<lambda>s.
     (Inr (map_option cloneMessageReceive (mget (st_messageReceives s) (TrimSpace i))), s))"

definition FindMessageReceive :: "op_ctx \<Rightarrow> string \<Rightarrow> string \<Rightarrow> MemoryStore \<Rightarrow> MessageReceiveRecord option outcome" where
  "FindMessageReceive cx endpoint native = framed ''message_receive.find'' cx (\<lambda>s.
     (Inr (map_option cloneMessageReceive (receive_with (TrimSpace endpoint) (TrimSpace native) s)), s))"

definition receive_cmp :: "MessageReceiveRecord \<Rightarrow> MessageReceiveRecord \<Rightarrow> int" where
  "receive_cmp a b = (let order = time_cmp (mr_UpdatedAt b) (mr_UpdatedAt a)
     in if order \<noteq> 0 then order else str_cmp (mr_ID a) (mr_ID b))"

definition ListMessageReceives :: "op_ctx \<Rightarrow> string \<Rightarrow> string \<Rightarrow> int \<Rightarrow> MemoryStore \<Rightarrow> MessageReceiveRecord list outcome" where
  "ListMessageReceives cx ownerID actorID limit = framed ''message_receive.list'' cx (\<lambda>s.
     let owner = TrimSpace ownerID; actor = TrimSpace actorID
     in (Inr (clip (normalizeDeliveryRecordLimit limit) (SortFunc receive_cmp (map cloneMessageReceive
          (filter (\<lambda>r. \<not> (owner \<noteq> [] \<and> mr_OwnerID r \<noteq> owner) \<and> \<not> (actor \<noteq> [] \<and> mr_ActorID r \<noteq> actor))
            (mvals (st_messageReceives s)))))), s))"

definition ReconcileMessageReceiveWrite ::
  "op_ctx \<Rightarrow> MemoryStore \<Rightarrow> MessageReceiveRecord \<Rightarrow> go_error option \<Rightarrow> go_error + MessageReceiveRecord" where
  "ReconcileMessageReceiveWrite cx s candidate writeErr = (case writeErr of
     None \<Rightarrow> Inr candidate
   | Some e \<Rightarrow>
       if StoreErrorCodeOf e \<noteq> StoreErrorUnknownOutcome then Inl e
       else (case fst (FindMessageReceive cx (mr_SourceEndpointID candidate) (mr_NativeMessageID candidate) s) of
           Inl err \<Rightarrow> Inl (Joined [e, err])
         | Inr None \<Rightarrow> Inl e
         | Inr (Some actual) \<Rightarrow> if actual = cloneMessageReceive candidate then Inr actual else Inl e))"

section \<open>Deliveries\<close>

definition cloneDeliveryRequest :: "DeliveryRequest \<Rightarrow> DeliveryRequest" where
  "cloneDeliveryRequest q = q\<lparr>dq_CreatedAt := postgresTime (dq_CreatedAt q)\<rparr>"

definition clone_receipt :: "DeliveryReceipt \<Rightarrow> DeliveryReceipt" where
  "clone_receipt r = r\<lparr>dr_AttemptedAt := postgresTime (dr_AttemptedAt r),
     dr_DeliveredAt := map_option postgresTime (dr_DeliveredAt r)\<rparr>"

definition cloneMessageDelivery :: "MessageDeliveryRecord \<Rightarrow> MessageDeliveryRecord" where
  "cloneMessageDelivery r = r\<lparr>md_CreatedAt := postgresTime (md_CreatedAt r), md_UpdatedAt := postgresTime (md_UpdatedAt r),
     md_Request := cloneDeliveryRequest (md_Request r), md_Receipt := map_option clone_receipt (md_Receipt r)\<rparr>"

definition messageDeliveryIdentityEqual :: "MessageDeliveryRecord \<Rightarrow> MessageDeliveryRecord \<Rightarrow> bool" where
  "messageDeliveryIdentityEqual current candidate \<longleftrightarrow>
     md_OwnerID current = md_OwnerID candidate \<and> md_ActorID current = md_ActorID candidate \<and>
     dq_IdempotencyKey (md_Request current) = dq_IdempotencyKey (md_Request candidate) \<and>
     dq_Target (md_Request current) = dq_Target (md_Request candidate) \<and> md_ContentDigest current = md_ContentDigest candidate"

definition trim_delivery :: "MessageDeliveryRecord \<Rightarrow> MessageDeliveryRecord" where
  "trim_delivery r = r\<lparr>md_ID := TrimSpace (md_ID r), md_OwnerID := TrimSpace (md_OwnerID r), md_ActorID := TrimSpace (md_ActorID r),
     md_Request := (md_Request r)\<lparr>dq_IdempotencyKey := TrimSpace (dq_IdempotencyKey (md_Request r)),
       dq_Target := TrimSpace (dq_Target (md_Request r))\<rparr>,
     md_Status := TrimSpace (md_Status r)\<rparr>"

definition fill_digest :: "MessageDeliveryRecord \<Rightarrow> MessageDeliveryRecord" where
  "fill_digest r =
     (let r = (if md_ContentDigest r = [] then r\<lparr>md_ContentDigest := TrimSpace (dq_ContentDigest (md_Request r))\<rparr> else r)
      in if dq_ContentDigest (md_Request r) = [] then r\<lparr>md_Request := (md_Request r)\<lparr>dq_ContentDigest := md_ContentDigest r\<rparr>\<rparr> else r)"

definition finish_delivery ::
  "8 word list option \<Rightarrow> MessageDeliveryRecord \<Rightarrow> gotime \<Rightarrow> gotime \<Rightarrow> go_error + MessageDeliveryRecord" where
  "finish_delivery random r previous now =
     (let r = (if md_ID r = [] then r\<lparr>md_ID := NewID random ''del''\<rparr> else r);
          r = (if dq_ID (md_Request r) = [] then r\<lparr>md_Request := (md_Request r)\<lparr>dq_ID := md_ID r\<rparr>\<rparr> else r);
          r = (if md_Direction r = [] then r\<lparr>md_Direction := ''send''\<rparr> else r)
      in if md_Direction r \<noteq> ''send'' then Inl (Err ''delivery record direction must be send'')
         else
           let r = (if IsZero (md_CreatedAt r) then r\<lparr>md_CreatedAt := now\<rparr> else r);
               r = r\<lparr>md_CreatedAt := postgresTime (md_CreatedAt r), md_UpdatedAt := nextRepositoryTime now [previous]\<rparr>;
               q = (md_Request r)\<lparr>dq_CreatedAt := postgresTime (dq_CreatedAt (md_Request r))\<rparr>;
               q = (if IsZero (dq_CreatedAt q) then q\<lparr>dq_CreatedAt := md_CreatedAt r\<rparr> else q)
           in Inr (cloneMessageDelivery (r\<lparr>md_Request := q\<rparr>)))"

definition prepareMessageDelivery ::
  "8 word list option \<Rightarrow> MessageDeliveryRecord \<Rightarrow> MessageDeliveryRecord option \<Rightarrow> gotime \<Rightarrow> go_error + MessageDeliveryRecord" where
  "prepareMessageDelivery random record current now =
     (let r = trim_delivery record
      in if md_OwnerID r = [] \<or> md_ActorID r = [] \<or> dq_IdempotencyKey (md_Request r) = [] \<or> md_Status r = []
         then Inl (Err ''delivery owner, actor, idempotency key, and status are required'')
         else
           let r = fill_digest r
           in case identified md_ID current of
                None \<Rightarrow> finish_delivery random r (high_water md_UpdatedAt current) now
              | Some c \<Rightarrow>
                  if \<not> messageDeliveryIdentityEqual c r then Inl ErrMessageDeliveryConflict
                  else finish_delivery random (r\<lparr>md_ID := md_ID c, md_CreatedAt := md_CreatedAt c\<rparr>)
                    (high_water md_UpdatedAt current) now)"

definition delivery_with :: "string \<Rightarrow> string \<Rightarrow> string \<Rightarrow> MemoryStore \<Rightarrow> MessageDeliveryRecord option" where
  "delivery_with owner actor key s =
     find (\<lambda>c. md_OwnerID c = owner \<and> md_ActorID c = actor \<and> dq_IdempotencyKey (md_Request c) = key)
       (mvals (st_messageDeliveries s))"

definition record_delivery :: "op_env \<Rightarrow> MessageDeliveryRecord \<Rightarrow> MemoryStore \<Rightarrow> MemoryStore" where
  "record_delivery env p s =
     appendAuditLocked env (''message.send.'' @ md_Status p) [] (dq_RunID (md_Request p)) (md_ActorID p) (md_SoftwareDisplayName p)
       [(''delivery_id'', AnyString (md_ID p)), (''endpoint_id'', AnyString (dq_Target (md_Request p))),
        (''origin'', AnyString (md_Origin p))]
       (s\<lparr>st_messageDeliveries := mput (md_ID p) p (st_messageDeliveries s)\<rparr>)"

definition SaveMessageDelivery :: "op_ctx \<Rightarrow> op_env \<Rightarrow> MessageDeliveryRecord \<Rightarrow> MemoryStore \<Rightarrow> MessageDeliveryRecord outcome" where
  "SaveMessageDelivery cx env record = framed ''message_delivery.save'' cx (\<lambda>s.
     let r = record\<lparr>md_ID := TrimSpace (md_ID record)\<rparr>;
         byID = mget (st_messageDeliveries s) (md_ID r);
         conflict = (Inl (storeError ''message_delivery.save'' StoreErrorConflict ErrMessageDeliveryConflict), s);
         save = (\<lambda>current. case prepareMessageDelivery (en_rand env) r current (en_now env) of
             Inl e \<Rightarrow> (Inl (prepare_error ''message_delivery.save'' ErrMessageDeliveryConflict e), s)
           | Inr p \<Rightarrow> (Inr (cloneMessageDelivery p), record_delivery env (cloneMessageDelivery p) s))
     in case delivery_with (TrimSpace (md_OwnerID r)) (TrimSpace (md_ActorID r)) (TrimSpace (dq_IdempotencyKey (md_Request r))) s of
          None \<Rightarrow> save byID
        | Some c \<Rightarrow>
            if (case byID of None \<Rightarrow> False | Some b \<Rightarrow> md_ID b \<noteq> md_ID c) then conflict
            else if md_ID c \<noteq> md_ID r
            then (if \<not> messageDeliveryIdentityEqual c r then conflict else (Inr (cloneMessageDelivery c), s))
            else save (Some c))"

definition GetMessageDelivery :: "op_ctx \<Rightarrow> string \<Rightarrow> MemoryStore \<Rightarrow> MessageDeliveryRecord option outcome" where
  "GetMessageDelivery cx i = framed ''message_delivery.get'' cx (\<lambda>s.
     (Inr (map_option cloneMessageDelivery (mget (st_messageDeliveries s) (TrimSpace i))), s))"

definition FindMessageDeliveryByIdempotency ::
  "op_ctx \<Rightarrow> string \<Rightarrow> string \<Rightarrow> string \<Rightarrow> MemoryStore \<Rightarrow> MessageDeliveryRecord option outcome" where
  "FindMessageDeliveryByIdempotency cx ownerID actorID key = framed ''message_delivery.find_idempotency'' cx (\<lambda>s.
     (Inr (map_option cloneMessageDelivery (delivery_with (TrimSpace ownerID) (TrimSpace actorID) (TrimSpace key) s)), s))"

definition message_delivery_cmp :: "MessageDeliveryRecord \<Rightarrow> MessageDeliveryRecord \<Rightarrow> int" where
  "message_delivery_cmp a b = (let order = time_cmp (md_UpdatedAt b) (md_UpdatedAt a)
     in if order \<noteq> 0 then order else str_cmp (md_ID a) (md_ID b))"

definition ListMessageDeliveries :: "op_ctx \<Rightarrow> string \<Rightarrow> string \<Rightarrow> int \<Rightarrow> MemoryStore \<Rightarrow> MessageDeliveryRecord list outcome" where
  "ListMessageDeliveries cx ownerID actorID limit = framed ''message_delivery.list'' cx (\<lambda>s.
     let owner = TrimSpace ownerID; actor = TrimSpace actorID
     in (Inr (clip (normalizeDeliveryRecordLimit limit) (SortFunc message_delivery_cmp (map cloneMessageDelivery
          (filter (\<lambda>r. \<not> (owner \<noteq> [] \<and> md_OwnerID r \<noteq> owner) \<and> \<not> (actor \<noteq> [] \<and> md_ActorID r \<noteq> actor))
            (mvals (st_messageDeliveries s)))))), s))"

definition ReconcileMessageDeliveryWrite ::
  "op_ctx \<Rightarrow> MemoryStore \<Rightarrow> MessageDeliveryRecord \<Rightarrow> go_error option \<Rightarrow> go_error + MessageDeliveryRecord" where
  "ReconcileMessageDeliveryWrite cx s candidate writeErr = (case writeErr of
     None \<Rightarrow> Inr candidate
   | Some e \<Rightarrow>
       if StoreErrorCodeOf e \<noteq> StoreErrorUnknownOutcome then Inl e
       else (case fst (FindMessageDeliveryByIdempotency cx (md_OwnerID candidate) (md_ActorID candidate)
           (dq_IdempotencyKey (md_Request candidate)) s) of
           Inl err \<Rightarrow> Inl (Joined [e, err])
         | Inr None \<Rightarrow> Inl e
         | Inr (Some actual) \<Rightarrow> if actual = cloneMessageDelivery candidate then Inr actual else Inl e))"

section \<open>The channel inbox\<close>

definition cloneChannelInboxUpdate :: "ChannelInboxUpdate \<Rightarrow> ChannelInboxUpdate" where
  "cloneChannelInboxUpdate u =
     (let u = u\<lparr>iu_AvailableAt := postgresTime (iu_AvailableAt u), iu_CreatedAt := postgresTime (iu_CreatedAt u),
                iu_UpdatedAt := postgresTime (iu_UpdatedAt u)\<rparr>
      in if iu_Payload u \<noteq> [] then (case json_Compact (iu_Payload u) of Some out \<Rightarrow> u\<lparr>iu_Payload := out\<rparr> | None \<Rightarrow> u) else u)"

text \<open>The defaults and the times; \<open>unicode\<close> lowers text that is not ASCII.\<close>

definition finish_inbox :: "8 word list option \<Rightarrow> ChannelInboxUpdate \<Rightarrow> gotime \<Rightarrow> gotime \<Rightarrow> ChannelInboxUpdate" where
  "finish_inbox random u previous now =
     (let u = (if iu_ID u = [] then u\<lparr>iu_ID := NewID random ''inbox''\<rparr> else u);
          u = (if iu_Status u = [] then u\<lparr>iu_Status := ''pending''\<rparr> else u);
          u = (if IsZero (iu_AvailableAt u) then u\<lparr>iu_AvailableAt := now\<rparr> else u);
          u = (if IsZero (iu_CreatedAt u) then u\<lparr>iu_CreatedAt := now\<rparr> else u)
      in cloneChannelInboxUpdate (u\<lparr>iu_AvailableAt := postgresTime (iu_AvailableAt u), iu_CreatedAt := postgresTime (iu_CreatedAt u),
           iu_UpdatedAt := nextRepositoryTime now [previous]\<rparr>))"

definition prepareChannelInboxUpdate ::
  "(string \<Rightarrow> string) \<Rightarrow> 8 word list option \<Rightarrow> ChannelInboxUpdate \<Rightarrow> ChannelInboxUpdate option \<Rightarrow> gotime \<Rightarrow>
   go_error + ChannelInboxUpdate" where
  "prepareChannelInboxUpdate unicode random update current now =
     (let u = update\<lparr>iu_ID := TrimSpace (iu_ID update), iu_BindingID := TrimSpace (iu_BindingID update),
                iu_Channel := ToLower unicode (TrimSpace (iu_Channel update)), iu_ExternalID := TrimSpace (iu_ExternalID update),
                iu_Status := TrimSpace (iu_Status update)\<rparr>
      in if iu_BindingID u = [] \<or> iu_Channel u = [] \<or> iu_ExternalID u = []
         then Inl (Err ''inbox binding, channel, and external ID are required'')
         else if iu_Payload u \<noteq> [] \<and> \<not> json_Valid (iu_Payload u)
         then Inl (Joined [Err ''decode persisted channel inbox payload'', Err ''inbox payload must be valid JSON''])
         else case identified iu_ID current of
           None \<Rightarrow> Inr (finish_inbox random u (high_water iu_UpdatedAt current) now)
         | Some c \<Rightarrow>
             if iu_BindingID c \<noteq> iu_BindingID u \<or> iu_Channel c \<noteq> iu_Channel u \<or> iu_ExternalID c \<noteq> iu_ExternalID u
             then Inl ErrChannelInboxUpdateConflict
             else Inr (finish_inbox random (u\<lparr>iu_ID := iu_ID c, iu_CreatedAt := iu_CreatedAt c\<rparr>) (high_water iu_UpdatedAt current) now))"

definition inbox_with :: "string \<Rightarrow> string \<Rightarrow> MemoryStore \<Rightarrow> ChannelInboxUpdate option" where
  "inbox_with binding external s =
     find (\<lambda>c. iu_BindingID c = binding \<and> iu_ExternalID c = external) (mvals (st_channelInboxUpdates s))"

definition SaveChannelInboxUpdate ::
  "op_ctx \<Rightarrow> op_env \<Rightarrow> (string \<Rightarrow> string) \<Rightarrow> ChannelInboxUpdate \<Rightarrow> MemoryStore \<Rightarrow> ChannelInboxUpdate outcome" where
  "SaveChannelInboxUpdate cx env unicode update = framed ''channel_inbox_update.save'' cx (\<lambda>s.
     let u = update\<lparr>iu_ID := TrimSpace (iu_ID update), iu_BindingID := TrimSpace (iu_BindingID update),
               iu_Channel := ToLower unicode (TrimSpace (iu_Channel update)), iu_ExternalID := TrimSpace (iu_ExternalID update)\<rparr>;
         byID = mget (st_channelInboxUpdates s) (iu_ID u);
         conflict = (Inl (storeError ''channel_inbox_update.save'' StoreErrorConflict ErrChannelInboxUpdateConflict), s);
         save = (\<lambda>current. case prepareChannelInboxUpdate unicode (en_rand env) u current (en_now env) of
             Inl e \<Rightarrow> (Inl (prepare_error ''channel_inbox_update.save'' ErrChannelInboxUpdateConflict e), s)
           | Inr p \<Rightarrow> (Inr (cloneChannelInboxUpdate p),
               s\<lparr>st_channelInboxUpdates := mput (iu_ID p) (cloneChannelInboxUpdate p) (st_channelInboxUpdates s)\<rparr>))
     in case inbox_with (iu_BindingID u) (iu_ExternalID u) s of
          None \<Rightarrow> save byID
        | Some c \<Rightarrow>
            if (case byID of None \<Rightarrow> False | Some b \<Rightarrow> iu_ID b \<noteq> iu_ID c) then conflict
            else if iu_ID c \<noteq> iu_ID u
            then (if iu_Channel c \<noteq> iu_Channel u then conflict else (Inr (cloneChannelInboxUpdate c), s))
            else save (Some c))"

definition GetChannelInboxUpdate :: "op_ctx \<Rightarrow> string \<Rightarrow> MemoryStore \<Rightarrow> ChannelInboxUpdate option outcome" where
  "GetChannelInboxUpdate cx i = framed ''channel_inbox_update.get'' cx (\<lambda>s.
     (Inr (map_option cloneChannelInboxUpdate (mget (st_channelInboxUpdates s) (TrimSpace i))), s))"

definition FindChannelInboxUpdate :: "op_ctx \<Rightarrow> string \<Rightarrow> string \<Rightarrow> MemoryStore \<Rightarrow> ChannelInboxUpdate option outcome" where
  "FindChannelInboxUpdate cx bindingID externalID = framed ''channel_inbox_update.find'' cx (\<lambda>s.
     (Inr (map_option cloneChannelInboxUpdate (inbox_with (TrimSpace bindingID) (TrimSpace externalID) s)), s))"

definition inbox_cmp :: "ChannelInboxUpdate \<Rightarrow> ChannelInboxUpdate \<Rightarrow> int" where
  "inbox_cmp a b = (let order = time_cmp (iu_CreatedAt a) (iu_CreatedAt b)
     in if order \<noteq> 0 then order else str_cmp (iu_ID a) (iu_ID b))"

definition inbox_selected :: "string \<Rightarrow> string \<Rightarrow> gotime \<Rightarrow> ChannelInboxUpdate \<Rightarrow> bool" where
  "inbox_selected channel status readyBefore u \<longleftrightarrow>
     \<not> (channel \<noteq> [] \<and> iu_Channel u \<noteq> channel) \<and> \<not> (status \<noteq> [] \<and> iu_Status u \<noteq> status) \<and>
     \<not> (\<not> IsZero readyBefore \<and> readyBefore < iu_AvailableAt u)"

definition ListChannelInboxUpdates ::
  "op_ctx \<Rightarrow> (string \<Rightarrow> string) \<Rightarrow> string \<Rightarrow> string \<Rightarrow> gotime \<Rightarrow> int \<Rightarrow> MemoryStore \<Rightarrow> ChannelInboxUpdate list outcome" where
  "ListChannelInboxUpdates cx unicode channel status readyBefore limit = framed ''channel_inbox_update.list'' cx (\<lambda>s.
     (Inr (clip (normalizeDeliveryRecordLimit limit) (SortFunc inbox_cmp (map cloneChannelInboxUpdate
        (filter (inbox_selected (ToLower unicode (TrimSpace channel)) (TrimSpace status) (postgresTime readyBefore))
          (mvals (st_channelInboxUpdates s)))))), s))"

definition ReconcileChannelInboxUpdateWrite ::
  "op_ctx \<Rightarrow> MemoryStore \<Rightarrow> ChannelInboxUpdate \<Rightarrow> go_error option \<Rightarrow> go_error + ChannelInboxUpdate" where
  "ReconcileChannelInboxUpdateWrite cx s candidate writeErr = (case writeErr of
     None \<Rightarrow> Inr candidate
   | Some e \<Rightarrow>
       if StoreErrorCodeOf e \<noteq> StoreErrorUnknownOutcome then Inl e
       else (case fst (FindChannelInboxUpdate cx (iu_BindingID candidate) (iu_ExternalID candidate) s) of
           Inl err \<Rightarrow> Inl (Joined [e, err])
         | Inr None \<Rightarrow> Inl e
         | Inr (Some actual) \<Rightarrow> if actual = cloneChannelInboxUpdate candidate then Inr actual else Inl e))"

end
