(* ===== verification/Deliveries.thy ===== *)
theory Deliveries
  imports Delivery_Operations
begin

text \<open>
  What the message ledger guarantees: one record per received message, one delivery per idempotency key, one
  inbox update per provider update, whatever is saved and in whatever order; lookups by these natural keys are
  exact; the history of a received message only grows; a repeated save is absorbed or refused without effect.
\<close>

section \<open>Tables with a natural key\<close>

text \<open>A table keyed by identity whose records are normalised and have different natural keys.\<close>

definition ledger_ok :: "('r \<Rightarrow> string) \<Rightarrow> ('r \<Rightarrow> 'k) \<Rightarrow> ('r \<Rightarrow> bool) \<Rightarrow> (string, 'r) gomap \<Rightarrow> bool" where
  "ledger_ok rid nkey good m \<longleftrightarrow> keyed rid m \<and> (\<forall>r \<in> set (mvals m). good r) \<and> inj_on nkey (set (mvals m))"

locale ledger =
  fixes rid :: "'r \<Rightarrow> string" and nkey :: "'r \<Rightarrow> 'k" and good :: "'r \<Rightarrow> bool" and clone :: "'r \<Rightarrow> 'r"
  assumes clone_wf: "good r \<Longrightarrow> clone r = r"
    and wf_rid: "good r \<Longrightarrow> rid r \<noteq> []"
begin

lemma empty_ok: "ledger_ok rid nkey good []"
  by (simp add: ledger_ok_def)

lemma get_wf: "ledger_ok rid nkey good m \<Longrightarrow> mget m i = Some r \<Longrightarrow> rid r = i \<and> good r"
  using keyed_get [of rid m i r] keyed_vals [of rid m r] by (auto simp: ledger_ok_def)

lemma find_exact:
  assumes "ledger_ok rid nkey good m"
  shows "find (\<lambda>c. nkey c = k) (mvals m) = Some r \<longleftrightarrow> mget m (rid r) = Some r \<and> nkey r = k"
proof -
  have k: "keyed rid m" and inj: "inj_on nkey (set (mvals m))" using assms by (simp_all add: ledger_ok_def)
  show ?thesis
  proof
    assume "find (\<lambda>c. nkey c = k) (mvals m) = Some r"
    then have "r \<in> set (mvals m)" "nkey r = k" by (auto simp: find_Some_iff)
    then show "mget m (rid r) = Some r \<and> nkey r = k" using keyed_vals [OF k] by simp
  next
    assume r: "mget m (rid r) = Some r \<and> nkey r = k"
    then have mem: "r \<in> set (mvals m)" using keyed_vals [OF k] by simp
    then obtain x where x: "find (\<lambda>c. nkey c = k) (mvals m) = Some x"
      using r by (cases "find (\<lambda>c. nkey c = k) (mvals m)") (auto simp: find_None_iff)
    then have "x \<in> set (mvals m)" "nkey x = k" by (auto simp: find_Some_iff)
    then show "find (\<lambda>c. nkey c = k) (mvals m) = Some r" using x inj_onD [OF inj _ _ mem, of x] r by simp
  qed
qed

lemma find_missing:
  assumes "ledger_ok rid nkey good m"
  shows "find (\<lambda>c. nkey c = k) (mvals m) = None \<longleftrightarrow> (\<forall>i r. mget m i = Some r \<longrightarrow> nkey r \<noteq> k)"
proof -
  have k: "keyed rid m" using assms by (simp add: ledger_ok_def)
  show ?thesis
    using keyed_vals [OF k] get_wf [OF assms] by (auto simp: find_None_iff)
qed

text \<open>A record may be written when the record found under its natural key, if any, is the one it replaces.\<close>

lemma put_ok:
  assumes "ledger_ok rid nkey good m" and "good r"
    and "\<And>x. find (\<lambda>c. nkey c = nkey r) (mvals m) = Some x \<Longrightarrow> rid x = rid r"
  shows "ledger_ok rid nkey good (mput (rid r) r m)"
proof -
  have k: "keyed rid m" and w: "\<forall>r \<in> set (mvals m). good r" and inj: "inj_on nkey (set (mvals m))"
    using assms(1) by (simp_all add: ledger_ok_def)
  have fresh: "rid x = rid r" if "x \<in> set (mvals m)" "nkey x = nkey r" for x
    using assms(3) find_exact [OF assms(1)] keyed_vals [OF k] that by simp
  have "inj_on nkey (set (mvals (mput (rid r) r m)))"
  proof (rule inj_onI)
    fix x y assume "x \<in> set (mvals (mput (rid r) r m))" "y \<in> set (mvals (mput (rid r) r m))" and same: "nkey x = nkey y"
    then have "x = r \<or> rid x \<noteq> rid r \<and> x \<in> set (mvals m)" "y = r \<or> rid y \<noteq> rid r \<and> y \<in> set (mvals m)"
      by (simp_all only: vals_put [OF k refl])
    then show "x = y" using same fresh [of x] fresh [of y] inj_onD [OF inj same] by auto
  qed
  then show ?thesis
    using keyed_put [OF k refl] all_vals_put [OF k w assms(2)] by (simp add: ledger_ok_def)
qed

lemma find_put:
  assumes "ledger_ok rid nkey good (mput (rid r) r m)"
  shows "find (\<lambda>c. nkey c = nkey r) (mvals (mput (rid r) r m)) = Some r"
  using find_exact [OF assms] by simp

end

text \<open>The decision deliveries and inbox updates share: a clash of identities, a repeat of the natural key, or a write.\<close>

lemma keyed_save:
  assumes "(case found of None \<Rightarrow> save byID
     | Some c \<Rightarrow> if (case byID of None \<Rightarrow> False | Some b \<Rightarrow> rid b \<noteq> rid c) then conflict
         else if rid c \<noteq> i then (if \<not> same c then conflict else replay c) else save (Some c)) = out"
  shows "out = conflict \<or> (\<exists>c. found = Some c \<and> rid c \<noteq> i \<and> same c \<and> out = replay c) \<or>
    (out = save (case found of None \<Rightarrow> byID | Some c \<Rightarrow> Some c) \<and> (\<forall>c. found = Some c \<longrightarrow> rid c = i))"
proof (cases found)
  case (Some c)
  then show ?thesis
    using assms by (cases "case byID of None \<Rightarrow> False | Some b \<Rightarrow> rid b \<noteq> rid c"; cases "rid c = i"; cases "same c") simp_all
qed (use assms in simp)

section \<open>Received messages\<close>

definition receive_key :: "MessageReceiveRecord \<Rightarrow> string \<times> string" where
  "receive_key r = (mr_SourceEndpointID r, mr_NativeMessageID r)"

definition receive_wf :: "MessageReceiveRecord \<Rightarrow> bool" where
  "receive_wf r \<longleftrightarrow> cloneMessageReceive r = r \<and> mr_ID r \<noteq> [] \<and> TrimSpace (mr_SourceEndpointID r) = mr_SourceEndpointID r \<and>
     TrimSpace (mr_NativeMessageID r) = mr_NativeMessageID r \<and> mr_Transitions r \<noteq> [] \<and>
     lt_Status (last (mr_Transitions r)) = mr_Status r"

interpretation receive_ledger: ledger mr_ID receive_key receive_wf cloneMessageReceive
  by unfold_locales (simp_all add: receive_wf_def)

lemma receive_with_find: "receive_with e n s = find (\<lambda>c. receive_key c = (e, n)) (mvals (st_messageReceives s))"
  by (simp add: receive_with_def receive_key_def)

lemma normalize_transitions_idem [simp]: "normalize_transitions (normalize_transitions ts) = normalize_transitions ts"
  by (simp add: normalize_transitions_def)

lemma cloneMessageReceive_idem [simp]: "cloneMessageReceive (cloneMessageReceive r) = cloneMessageReceive r"
  by (simp add: cloneMessageReceive_def)

lemma finish_receive_ok:
  assumes "finish_receive random r previous now = Inr p"
  shows "cloneMessageReceive p = p" and "mr_ID p = (if mr_ID r = [] then NewID random ''recv'' else mr_ID r)"
    and "receive_key p = receive_key r" and "mr_Status p = mr_Status r" and "mr_UpdatedAt p = nextRepositoryTime now [previous]"
    and "mr_CreatedAt r \<noteq> 0 \<Longrightarrow> mr_CreatedAt p = postgresTime (mr_CreatedAt r)"
    and "mr_OwnerID p = mr_OwnerID r" and "mr_ActorID p = mr_ActorID r" and "mr_ProviderKey p = mr_ProviderKey r"
    and "mr_Transitions p \<noteq> []" and "lt_Status (last (mr_Transitions p)) = mr_Status p"
    and "\<exists>more. length more \<le> 1 \<and> mr_Transitions p = normalize_transitions (mr_Transitions r) @ more"
proof -
  let ?at = "nextRepositoryTime now [previous]"
  define r1 where "r1 = (if mr_ID r = [] then r\<lparr>mr_ID := NewID random ''recv''\<rparr> else r)"
  define r2 where "r2 = (if mr_Direction r1 = [] then r1\<lparr>mr_Direction := ''receive''\<rparr> else r1)"
  define r3 where "r3 = (if IsZero (mr_CreatedAt r2) then r2\<lparr>mr_CreatedAt := now\<rparr> else r2)"
  define r4 where "r4 = r3\<lparr>mr_CreatedAt := postgresTime (mr_CreatedAt r3), mr_UpdatedAt := ?at,
    mr_Transitions := normalize_transitions (mr_Transitions r3)\<rparr>"
  define more where "more = (if mr_Transitions r4 = [] \<or> lt_Status (last (mr_Transitions r4)) \<noteq> mr_Status r4
    then [\<lparr>lt_Status = mr_Status r4, lt_At = mr_UpdatedAt r4\<rparr>] else [])"
  have p: "p = cloneMessageReceive (r4\<lparr>mr_Transitions := mr_Transitions r4 @ more\<rparr>)"
    using assms unfolding finish_receive_def Let_def r1_def [symmetric] r2_def [symmetric] r3_def [symmetric]
      r4_def [symmetric] more_def by (auto split: if_splits)
  have r4: "mr_ID r4 = (if mr_ID r = [] then NewID random ''recv'' else mr_ID r)" "receive_key r4 = receive_key r"
    "mr_Status r4 = mr_Status r" "mr_UpdatedAt r4 = ?at" "mr_OwnerID r4 = mr_OwnerID r" "mr_ActorID r4 = mr_ActorID r"
    "mr_ProviderKey r4 = mr_ProviderKey r" "mr_CreatedAt r \<noteq> 0 \<Longrightarrow> mr_CreatedAt r4 = postgresTime (mr_CreatedAt r)"
    "mr_Transitions r4 = normalize_transitions (mr_Transitions r)"
    by (simp_all add: r4_def r3_def r2_def r1_def receive_key_def)
  have t: "normalize_transitions (mr_Transitions r4 @ more) = mr_Transitions r4 @ more"
    by (simp add: normalize_transitions_def more_def r4)
  show "cloneMessageReceive p = p" by (simp add: p)
  show "mr_ID p = (if mr_ID r = [] then NewID random ''recv'' else mr_ID r)" "receive_key p = receive_key r"
    "mr_Status p = mr_Status r" "mr_UpdatedAt p = ?at" "mr_OwnerID p = mr_OwnerID r" "mr_ActorID p = mr_ActorID r"
    "mr_ProviderKey p = mr_ProviderKey r" "mr_CreatedAt r \<noteq> 0 \<Longrightarrow> mr_CreatedAt p = postgresTime (mr_CreatedAt r)"
    using r4 by (simp_all add: p cloneMessageReceive_def receive_key_def)
  have ts: "mr_Transitions p = mr_Transitions r4 @ more" "mr_Status p = mr_Status r4" using t by (simp_all add: p cloneMessageReceive_def)
  show "mr_Transitions p \<noteq> []" "lt_Status (last (mr_Transitions p)) = mr_Status p"
    unfolding ts by (simp_all add: more_def)
  show "\<exists>more. length more \<le> 1 \<and> mr_Transitions p = normalize_transitions (mr_Transitions r) @ more"
    unfolding ts r4(9) by (intro exI [of _ more]) (simp add: more_def)
qed

lemma inherit_receive_fields:
  "mr_ID (inherit_receive c r) = mr_ID c" "mr_CreatedAt (inherit_receive c r) = mr_CreatedAt c"
  "mr_Transitions (inherit_receive c r) = mr_Transitions c" "receive_key (inherit_receive c r) = receive_key r"
  "mr_Status (inherit_receive c r) = mr_Status r"
  "messageReceiveIdentityCompatible c r \<Longrightarrow> mr_OwnerID c \<noteq> [] \<Longrightarrow> mr_OwnerID (inherit_receive c r) = mr_OwnerID c"
  "messageReceiveIdentityCompatible c r \<Longrightarrow> mr_ActorID c \<noteq> [] \<Longrightarrow> mr_ActorID (inherit_receive c r) = mr_ActorID c"
  by (auto simp: inherit_receive_def receive_key_def messageReceiveIdentityCompatible_def sameOptionalString_def Let_def)

text \<open>What the record written over \<open>c\<close> keeps of it.\<close>

definition receive_extends :: "MessageReceiveRecord \<Rightarrow> MessageReceiveRecord \<Rightarrow> bool" where
  "receive_extends c p \<longleftrightarrow> mr_ID p = mr_ID c \<and> receive_key p = receive_key c \<and>
     (mr_CreatedAt c \<noteq> 0 \<longrightarrow> mr_CreatedAt p = mr_CreatedAt c) \<and> (mr_OwnerID c \<noteq> [] \<longrightarrow> mr_OwnerID p = mr_OwnerID c) \<and>
     (mr_ActorID c \<noteq> [] \<longrightarrow> mr_ActorID p = mr_ActorID c) \<and> mr_UpdatedAt c < mr_UpdatedAt p \<and>
     (\<exists>more. length more \<le> 1 \<and> mr_Transitions p = mr_Transitions c @ more)"

lemma prepareMessageReceive_ok:
  assumes "prepareMessageReceive random r current now = Inr p"
  shows "receive_wf p" and "receive_key p = (TrimSpace (mr_SourceEndpointID r), TrimSpace (mr_NativeMessageID r))"
    and "current = None \<Longrightarrow> mr_ID p = (if TrimSpace (mr_ID r) = [] then NewID random ''recv'' else TrimSpace (mr_ID r))"
    and "current = Some c \<Longrightarrow> receive_wf c \<Longrightarrow> receive_extends c p"
proof -
  let ?r = "trim_receive r" and ?hw = "high_water mr_UpdatedAt current"
  have key: "receive_key ?r = (TrimSpace (mr_SourceEndpointID r), TrimSpace (mr_NativeMessageID r))"
    by (simp add: trim_receive_def receive_key_def)
  obtain q where q: "finish_receive random q ?hw now = Inr p" and qk: "receive_key q = receive_key ?r"
    and id0: "identified mr_ID current = None \<longrightarrow> q = ?r"
    and id1: "\<forall>c. identified mr_ID current = Some c \<longrightarrow> messageReceiveIdentityCompatible c ?r \<and> q = inherit_receive c ?r"
    using assms unfolding prepareMessageReceive_def Let_def
    by (auto simp: inherit_receive_fields split: if_splits option.splits)
  note f = finish_receive_ok [OF q]
  have "mr_ID p \<noteq> []" using f(2) by simp
  then show "receive_wf p"
    using f key qk by (simp add: receive_wf_def receive_key_def)
  show "receive_key p = (TrimSpace (mr_SourceEndpointID r), TrimSpace (mr_NativeMessageID r))"
    using f(3) qk key by simp
  show "mr_ID p = (if TrimSpace (mr_ID r) = [] then NewID random ''recv'' else TrimSpace (mr_ID r))" if "current = None"
    using f(2) id0 that by (simp add: identified_def trim_receive_def)
  assume c: "current = Some c" and good: "receive_wf c"
  have "identified mr_ID current = Some c" using c good by (simp add: identified_def receive_wf_def)
  then have ok: "messageReceiveIdentityCompatible c ?r" and qe: "q = inherit_receive c ?r" using id1 by blast+
  have norm: "postgresTime (mr_CreatedAt c) = mr_CreatedAt c" "normalize_transitions (mr_Transitions c) = mr_Transitions c"
  proof -
    have "cloneMessageReceive c = c" using good by (simp add: receive_wf_def)
    then have "mr_CreatedAt (cloneMessageReceive c) = mr_CreatedAt c" "mr_Transitions (cloneMessageReceive c) = mr_Transitions c"
      by simp_all
    then show "postgresTime (mr_CreatedAt c) = mr_CreatedAt c" "normalize_transitions (mr_Transitions c) = mr_Transitions c"
      by (simp_all add: cloneMessageReceive_def)
  qed
  have "mr_ID c \<noteq> []" using good by (simp add: receive_wf_def)
  moreover have "receive_key ?r = receive_key c"
    using ok by (simp add: messageReceiveIdentityCompatible_def receive_key_def)
  moreover have "mr_UpdatedAt c < mr_UpdatedAt p"
    using f(5) c nextRepositoryTime_after [of "mr_UpdatedAt c" now] by (simp only: high_water_def option.case)
  ultimately show "receive_extends c p"
    using f inherit_receive_fields [of c ?r] ok norm unfolding qe receive_extends_def by simp
qed


lemma SaveMessageReceive_cases:
  assumes "SaveMessageReceive cx env r s = (res, s')"
  defines "k \<equiv> (TrimSpace (mr_SourceEndpointID r), TrimSpace (mr_NativeMessageID r))"
  shows "(s' = s \<and> (\<exists>e. res = Inl e)) \<or>
    (\<exists>p. res = Inr p \<and> s' = record_receive env p s \<and> receive_wf p \<and> receive_key p = k \<and>
      (case receive_with (fst k) (snd k) s of
         Some c \<Rightarrow> receive_wf c \<longrightarrow> receive_extends c p
       | None \<Rightarrow> (case mget (st_messageReceives s) (TrimSpace (mr_ID r)) of
             Some b \<Rightarrow> receive_wf b \<longrightarrow> receive_extends b p
           | None \<Rightarrow> mr_ID p = (if TrimSpace (mr_ID r) = [] then NewID (en_rand env) ''recv'' else TrimSpace (mr_ID r)))))"
proof -
  define q where "q = r\<lparr>mr_ID := TrimSpace (mr_ID r), mr_SourceEndpointID := TrimSpace (mr_SourceEndpointID r),
    mr_NativeMessageID := TrimSpace (mr_NativeMessageID r)\<rparr>"
  have q: "mr_ID q = TrimSpace (mr_ID r)" "mr_SourceEndpointID q = fst k" "mr_NativeMessageID q = snd k"
    "TrimSpace (fst k) = fst k" "TrimSpace (snd k) = snd k"
    by (simp_all add: q_def k_def)
  let ?byID = "mget (st_messageReceives s) (TrimSpace (mr_ID r))" and ?same = "receive_with (fst k) (snd k) s"
  let ?cur = "case ?same of None \<Rightarrow> ?byID | Some c \<Rightarrow> Some c"
  let ?clash = "case (?byID, ?same) of (Some b, Some c) \<Rightarrow> mr_ID b \<noteq> mr_ID c | _ \<Rightarrow> False"
  let ?p = "prepareMessageReceive (en_rand env) q ?cur (en_now env)"
  have *: "(s' = s \<and> (\<exists>e. res = Inl e)) \<or>
      (if ?clash then (Inl (storeError ''message_receive.save'' StoreErrorConflict ErrMessageReceiveConflict), s)
       else case ?p of Inl e \<Rightarrow> (Inl (prepare_error ''message_receive.save'' ErrMessageReceiveConflict e), s)
        | Inr p \<Rightarrow> (Inr (cloneMessageReceive p), record_receive env (cloneMessageReceive p) s)) = (res, s')"
    using framed_cases [OF assms(1) [unfolded SaveMessageReceive_def Let_def, folded q_def, unfolded q]] .
  show ?thesis
  proof (cases "?clash \<or> (\<exists>e. ?p = Inl e)")
    case True
    then have "s' = s \<and> (\<exists>e. res = Inl e)"
    proof
      assume ?clash
      with * show ?thesis by (simp only: if_True) blast
    next
      assume "\<exists>e. ?p = Inl e"
      with * show ?thesis by (cases ?clash) (simp only: if_True, blast, simp only: if_False, elim exE, simp, blast)
    qed
    then show ?thesis by blast
  next
    case False
    then obtain p where p: "?p = Inr p" and nc: "\<not> ?clash" by (cases ?p) auto
    note ok = prepareMessageReceive_ok [OF p]
    have c: "cloneMessageReceive p = p" using ok(1) by (simp add: receive_wf_def)
    have k': "receive_key p = k" using ok(2) by (simp add: q)
    from * nc p c have r: "(s' = s \<and> (\<exists>e. res = Inl e)) \<or> res = Inr p \<and> s' = record_receive env p s"
      by (simp only: if_False sum.case Pair_inject) blast
    have "case ?same of Some c \<Rightarrow> receive_wf c \<longrightarrow> receive_extends c p
       | None \<Rightarrow> (case ?byID of Some b \<Rightarrow> receive_wf b \<longrightarrow> receive_extends b p
           | None \<Rightarrow> mr_ID p = (if TrimSpace (mr_ID r) = [] then NewID (en_rand env) ''recv'' else TrimSpace (mr_ID r)))"
    proof (cases ?same)
      case (Some c)
      then show ?thesis using ok(4) [of c] by simp
    next
      case None
      then show ?thesis using ok(3) ok(4) by (cases ?byID) (simp_all add: q)
    qed
    with r ok(1) k' show ?thesis by blast
  qed
qed

section \<open>Deliveries\<close>

definition delivery_key :: "MessageDeliveryRecord \<Rightarrow> string \<times> string \<times> string" where
  "delivery_key r = (md_OwnerID r, md_ActorID r, dq_IdempotencyKey (md_Request r))"

definition delivery_wf :: "MessageDeliveryRecord \<Rightarrow> bool" where
  "delivery_wf r \<longleftrightarrow> cloneMessageDelivery r = r \<and> md_ID r \<noteq> [] \<and> TrimSpace (md_OwnerID r) = md_OwnerID r \<and>
     TrimSpace (md_ActorID r) = md_ActorID r \<and> TrimSpace (dq_IdempotencyKey (md_Request r)) = dq_IdempotencyKey (md_Request r)"

interpretation delivery_ledger: ledger md_ID delivery_key delivery_wf cloneMessageDelivery
  by unfold_locales (simp_all add: delivery_wf_def)

lemma delivery_with_find: "delivery_with o' a k s = find (\<lambda>c. delivery_key c = (o', a, k)) (mvals (st_messageDeliveries s))"
  by (simp add: delivery_with_def delivery_key_def)

lemma cloneMessageDelivery_idem [simp]: "cloneMessageDelivery (cloneMessageDelivery r) = cloneMessageDelivery r"
  by (cases "md_Receipt r")
     (simp_all add: cloneMessageDelivery_def cloneDeliveryRequest_def clone_receipt_def option.map_comp comp_def)

lemma fill_digest_fields:
  "md_ID (fill_digest r) = md_ID r" "delivery_key (fill_digest r) = delivery_key r"
  "dq_Target (md_Request (fill_digest r)) = dq_Target (md_Request r)" "md_CreatedAt (fill_digest r) = md_CreatedAt r"
  "md_ContentDigest (fill_digest r) =
     (if md_ContentDigest r = [] then TrimSpace (dq_ContentDigest (md_Request r)) else md_ContentDigest r)"
  by (simp_all add: fill_digest_def delivery_key_def Let_def)

lemma trim_delivery_fields:
  "md_ID (trim_delivery r) = TrimSpace (md_ID r)"
  "delivery_key (trim_delivery r) = (TrimSpace (md_OwnerID r), TrimSpace (md_ActorID r), TrimSpace (dq_IdempotencyKey (md_Request r)))"
  "dq_Target (md_Request (trim_delivery r)) = TrimSpace (dq_Target (md_Request r))"
  "md_ContentDigest (trim_delivery r) = md_ContentDigest r" "md_CreatedAt (trim_delivery r) = md_CreatedAt r"
  "dq_ContentDigest (md_Request (trim_delivery r)) = dq_ContentDigest (md_Request r)"
  by (simp_all add: trim_delivery_def delivery_key_def)

lemma finish_delivery_ok:
  assumes "finish_delivery random r previous now = Inr p"
  shows "cloneMessageDelivery p = p" and "md_ID p = (if md_ID r = [] then NewID random ''del'' else md_ID r)"
    and "delivery_key p = delivery_key r" and "dq_Target (md_Request p) = dq_Target (md_Request r)"
    and "md_ContentDigest p = md_ContentDigest r" and "md_UpdatedAt p = nextRepositoryTime now [previous]"
    and "md_CreatedAt r \<noteq> 0 \<Longrightarrow> md_CreatedAt p = postgresTime (md_CreatedAt r)"
proof -
  define r1 where "r1 = (if md_ID r = [] then r\<lparr>md_ID := NewID random ''del''\<rparr> else r)"
  define r2 where "r2 = (if dq_ID (md_Request r1) = [] then r1\<lparr>md_Request := (md_Request r1)\<lparr>dq_ID := md_ID r1\<rparr>\<rparr> else r1)"
  define r3 where "r3 = (if md_Direction r2 = [] then r2\<lparr>md_Direction := ''send''\<rparr> else r2)"
  define r4 where "r4 = (if IsZero (md_CreatedAt r3) then r3\<lparr>md_CreatedAt := now\<rparr> else r3)"
  define r5 where "r5 = r4\<lparr>md_CreatedAt := postgresTime (md_CreatedAt r4), md_UpdatedAt := nextRepositoryTime now [previous]\<rparr>"
  define q1 where "q1 = (md_Request r5)\<lparr>dq_CreatedAt := postgresTime (dq_CreatedAt (md_Request r5))\<rparr>"
  define q2 where "q2 = (if IsZero (dq_CreatedAt q1) then q1\<lparr>dq_CreatedAt := md_CreatedAt r5\<rparr> else q1)"
  have p: "p = cloneMessageDelivery (r5\<lparr>md_Request := q2\<rparr>)"
    using assms unfolding finish_delivery_def Let_def r1_def [symmetric] r2_def [symmetric] r3_def [symmetric]
      r4_def [symmetric] r5_def [symmetric] q1_def [symmetric] q2_def [symmetric] by (auto split: if_splits)
  have r5: "md_ID r5 = (if md_ID r = [] then NewID random ''del'' else md_ID r)" "delivery_key r5 = delivery_key r"
    "dq_Target (md_Request r5) = dq_Target (md_Request r)" "md_ContentDigest r5 = md_ContentDigest r"
    "md_UpdatedAt r5 = nextRepositoryTime now [previous]"
    "md_CreatedAt r \<noteq> 0 \<Longrightarrow> md_CreatedAt r5 = postgresTime (md_CreatedAt r)"
    by (simp_all add: r5_def r4_def r3_def r2_def r1_def delivery_key_def)
  have q2: "dq_Target q2 = dq_Target (md_Request r5)" "dq_IdempotencyKey q2 = dq_IdempotencyKey (md_Request r5)"
    by (simp_all add: q2_def q1_def)
  show "cloneMessageDelivery p = p" by (simp add: p)
  show "md_ID p = (if md_ID r = [] then NewID random ''del'' else md_ID r)" "delivery_key p = delivery_key r"
    "dq_Target (md_Request p) = dq_Target (md_Request r)" "md_ContentDigest p = md_ContentDigest r"
    "md_UpdatedAt p = nextRepositoryTime now [previous]" "md_CreatedAt r \<noteq> 0 \<Longrightarrow> md_CreatedAt p = postgresTime (md_CreatedAt r)"
    using r5 q2 by (simp_all add: p cloneMessageDelivery_def cloneDeliveryRequest_def delivery_key_def)
qed

text \<open>What the record written over \<open>c\<close> keeps of it: everything the idempotency key stands for.\<close>

definition delivery_extends :: "MessageDeliveryRecord \<Rightarrow> MessageDeliveryRecord \<Rightarrow> bool" where
  "delivery_extends c p \<longleftrightarrow> md_ID p = md_ID c \<and> delivery_key p = delivery_key c \<and> md_UpdatedAt c < md_UpdatedAt p \<and>
     (md_CreatedAt c \<noteq> 0 \<longrightarrow> md_CreatedAt p = md_CreatedAt c) \<and>
     dq_Target (md_Request p) = dq_Target (md_Request c) \<and> md_ContentDigest p = md_ContentDigest c"

lemma prepareMessageDelivery_ok:
  assumes "prepareMessageDelivery random r current now = Inr p"
  shows "delivery_wf p"
    and "delivery_key p = (TrimSpace (md_OwnerID r), TrimSpace (md_ActorID r), TrimSpace (dq_IdempotencyKey (md_Request r)))"
    and "dq_Target (md_Request p) = TrimSpace (dq_Target (md_Request r))"
    and "md_ContentDigest p = (if md_ContentDigest r = [] then TrimSpace (dq_ContentDigest (md_Request r)) else md_ContentDigest r)"
    and "current = None \<Longrightarrow> md_ID p = (if TrimSpace (md_ID r) = [] then NewID random ''del'' else TrimSpace (md_ID r))"
    and "current = Some c \<Longrightarrow> delivery_wf c \<Longrightarrow> delivery_extends c p"
proof -
  let ?r = "fill_digest (trim_delivery r)" and ?hw = "high_water md_UpdatedAt current"
  obtain q where q: "finish_delivery random q ?hw now = Inr p"
    and qk: "delivery_key q = delivery_key ?r" "dq_Target (md_Request q) = dq_Target (md_Request ?r)" "md_ContentDigest q = md_ContentDigest ?r"
    and id0: "identified md_ID current = None \<longrightarrow> q = ?r"
    and id1: "\<forall>c. identified md_ID current = Some c \<longrightarrow>
      messageDeliveryIdentityEqual c ?r \<and> md_ID q = md_ID c \<and> md_CreatedAt q = md_CreatedAt c"
    using assms unfolding prepareMessageDelivery_def Let_def
    by (auto simp: delivery_key_def split: if_splits option.splits)
  note f = finish_delivery_ok [OF q]
  have id: "md_ID p \<noteq> []" using f(2) by simp
  show key: "delivery_key p = (TrimSpace (md_OwnerID r), TrimSpace (md_ActorID r), TrimSpace (dq_IdempotencyKey (md_Request r)))"
    using f(3) qk(1) by (simp add: fill_digest_fields trim_delivery_fields)
  show "delivery_wf p"
    using f(1) id key by (simp add: delivery_wf_def delivery_key_def)
  show "dq_Target (md_Request p) = TrimSpace (dq_Target (md_Request r))"
    "md_ContentDigest p = (if md_ContentDigest r = [] then TrimSpace (dq_ContentDigest (md_Request r)) else md_ContentDigest r)"
    using f(4,5) qk(2,3) by (simp_all add: fill_digest_fields trim_delivery_fields)
  show "md_ID p = (if TrimSpace (md_ID r) = [] then NewID random ''del'' else TrimSpace (md_ID r))" if "current = None"
    using f(2) id0 that by (simp add: identified_def fill_digest_fields trim_delivery_fields)
  assume c: "current = Some c" and good: "delivery_wf c"
  have "identified md_ID current = Some c" using c good by (simp add: identified_def delivery_wf_def)
  then have ok: "messageDeliveryIdentityEqual c ?r" and same: "md_ID q = md_ID c" "md_CreatedAt q = md_CreatedAt c" using id1 by blast+
  have "md_CreatedAt (cloneMessageDelivery c) = md_CreatedAt c" using good by (simp add: delivery_wf_def)
  then have "postgresTime (md_CreatedAt c) = md_CreatedAt c" by (simp add: cloneMessageDelivery_def)
  moreover have "md_UpdatedAt c < md_UpdatedAt p"
    using f(6) c nextRepositoryTime_after [of "md_UpdatedAt c" now] by (simp only: high_water_def option.case)
  moreover have "md_ID c \<noteq> []" using good by (simp add: delivery_wf_def)
  moreover have "delivery_key ?r = delivery_key c" "dq_Target (md_Request ?r) = dq_Target (md_Request c)" "md_ContentDigest ?r = md_ContentDigest c"
    using ok by (simp_all add: messageDeliveryIdentityEqual_def delivery_key_def)
  ultimately show "delivery_extends c p"
    using f(2,3,4,5,7) same qk unfolding delivery_extends_def by simp
qed

text \<open>What a save does: it refuses, it answers with the stored delivery of the key, or it writes one.\<close>

definition trimmed_key :: "MessageDeliveryRecord \<Rightarrow> string \<times> string \<times> string" where
  "trimmed_key r = (TrimSpace (md_OwnerID r), TrimSpace (md_ActorID r), TrimSpace (dq_IdempotencyKey (md_Request r)))"

abbreviation delivery_for :: "MessageDeliveryRecord \<Rightarrow> MemoryStore \<Rightarrow> MessageDeliveryRecord option" where
  "delivery_for r s \<equiv> delivery_with (TrimSpace (md_OwnerID r)) (TrimSpace (md_ActorID r)) (TrimSpace (dq_IdempotencyKey (md_Request r))) s"

definition save_delivery :: "op_env \<Rightarrow> MessageDeliveryRecord \<Rightarrow> MemoryStore \<Rightarrow> MessageDeliveryRecord option \<Rightarrow> MessageDeliveryRecord outcome" where
  "save_delivery env r s current = (case prepareMessageDelivery (en_rand env) r current (en_now env) of
     Inl e \<Rightarrow> (Inl (prepare_error ''message_delivery.save'' ErrMessageDeliveryConflict e), s)
   | Inr p \<Rightarrow> (Inr (cloneMessageDelivery p), record_delivery env (cloneMessageDelivery p) s))"

abbreviation delivery_conflict :: go_error where
  "delivery_conflict \<equiv> storeError ''message_delivery.save'' StoreErrorConflict ErrMessageDeliveryConflict"

lemma save_delivery_cases:
  assumes "save_delivery env r s current = (res, s')"
  shows "(s' = s \<and> (\<exists>e. res = Inl e)) \<or>
    (\<exists>p. prepareMessageDelivery (en_rand env) r current (en_now env) = Inr p \<and> res = Inr p \<and> s' = record_delivery env p s)"
proof (cases "prepareMessageDelivery (en_rand env) r current (en_now env)")
  case (Inr p)
  then have "cloneMessageDelivery p = p" using prepareMessageDelivery_ok(1) by (simp add: delivery_wf_def)
  then have "res = Inr p" "s' = record_delivery env p s" using assms Inr by (simp_all add: save_delivery_def)
  then show ?thesis using Inr by blast
qed (use assms in \<open>auto simp: save_delivery_def\<close>)

lemma SaveMessageDelivery_body:
  assumes "SaveMessageDelivery cx env r s = (res, s')"
  defines "q \<equiv> r\<lparr>md_ID := TrimSpace (md_ID r)\<rparr>"
  shows "(s' = s \<and> (\<exists>e. res = Inl e)) \<or>
    (case delivery_for r s of
       None \<Rightarrow> save_delivery env q s (mget (st_messageDeliveries s) (TrimSpace (md_ID r)))
     | Some c \<Rightarrow>
         if (case mget (st_messageDeliveries s) (TrimSpace (md_ID r)) of None \<Rightarrow> False | Some b \<Rightarrow> md_ID b \<noteq> md_ID c)
         then (Inl delivery_conflict, s)
         else if md_ID c \<noteq> TrimSpace (md_ID r)
         then (if \<not> messageDeliveryIdentityEqual c r then (Inl delivery_conflict, s) else (Inr (cloneMessageDelivery c), s))
         else save_delivery env q s (Some c)) = (res, s')"
proof -
  have q: "md_ID q = TrimSpace (md_ID r)" "md_OwnerID q = md_OwnerID r" "md_ActorID q = md_ActorID r" "md_Request q = md_Request r"
    by (simp_all add: q_def)
  have i: "messageDeliveryIdentityEqual c q = messageDeliveryIdentityEqual c r" for c
    by (simp add: messageDeliveryIdentityEqual_def q_def)
  show ?thesis
    using framed_cases [OF assms(1) [unfolded SaveMessageDelivery_def Let_def, folded q_def, folded save_delivery_def, unfolded q i]] .
qed

lemma SaveMessageDelivery_cases:
  assumes "SaveMessageDelivery cx env r s = (res, s')"
  shows "(s' = s \<and> (\<exists>e. res = Inl e)) \<or>
    (\<exists>c. delivery_for r s = Some c \<and> md_ID c \<noteq> TrimSpace (md_ID r) \<and> messageDeliveryIdentityEqual c r \<and>
      res = Inr (cloneMessageDelivery c) \<and> s' = s) \<or>
    (\<exists>p. res = Inr p \<and> s' = record_delivery env p s \<and> delivery_wf p \<and> delivery_key p = trimmed_key r \<and>
      dq_Target (md_Request p) = TrimSpace (dq_Target (md_Request r)) \<and>
      md_ContentDigest p = (if md_ContentDigest r = [] then TrimSpace (dq_ContentDigest (md_Request r)) else md_ContentDigest r) \<and>
      (case delivery_for r s of
         Some c \<Rightarrow> md_ID c = TrimSpace (md_ID r) \<and> (delivery_wf c \<longrightarrow> delivery_extends c p)
       | None \<Rightarrow> (case mget (st_messageDeliveries s) (TrimSpace (md_ID r)) of
             Some b \<Rightarrow> delivery_wf b \<longrightarrow> delivery_extends b p
           | None \<Rightarrow> md_ID p = (if TrimSpace (md_ID r) = [] then NewID (en_rand env) ''del'' else TrimSpace (md_ID r)))))"
    (is "_ \<or> _ \<or> ?written")
proof -
  let ?q = "r\<lparr>md_ID := TrimSpace (md_ID r)\<rparr>" and ?byID = "mget (st_messageDeliveries s) (TrimSpace (md_ID r))"
  note body = SaveMessageDelivery_body [OF assms]
  have written: "(s' = s \<and> (\<exists>e. res = Inl e)) \<or> ?written"
    if sv: "save_delivery env ?q s cur = (res, s')"
      and cur: "cur = (case delivery_for r s of None \<Rightarrow> ?byID | Some c \<Rightarrow> Some c)"
      and here: "\<forall>c. delivery_for r s = Some c \<longrightarrow> md_ID c = TrimSpace (md_ID r)" for cur
    using save_delivery_cases [OF sv]
  proof (elim disjE exE conjE)
    fix p assume p: "prepareMessageDelivery (en_rand env) ?q cur (en_now env) = Inr p" "res = Inr p" "s' = record_delivery env p s"
    note ok = prepareMessageDelivery_ok [OF p(1)]
    have "case delivery_for r s of
         Some c \<Rightarrow> md_ID c = TrimSpace (md_ID r) \<and> (delivery_wf c \<longrightarrow> delivery_extends c p)
       | None \<Rightarrow> (case ?byID of Some b \<Rightarrow> delivery_wf b \<longrightarrow> delivery_extends b p
           | None \<Rightarrow> md_ID p = (if TrimSpace (md_ID r) = [] then NewID (en_rand env) ''del'' else TrimSpace (md_ID r)))"
    proof (cases "delivery_for r s")
      case (Some c)
      then show ?thesis using here ok(6) [of c] cur by simp
    next
      case None
      then show ?thesis using ok(5) ok(6) cur by (cases ?byID) simp_all
    qed
    moreover have "delivery_key p = trimmed_key r" "dq_Target (md_Request p) = TrimSpace (dq_Target (md_Request r))"
      "md_ContentDigest p = (if md_ContentDigest r = [] then TrimSpace (dq_ContentDigest (md_Request r)) else md_ContentDigest r)"
      using ok(2,3,4) by (simp_all add: trimmed_key_def)
    ultimately have ?written using p(2,3) ok(1) by blast
    then show ?thesis ..
  next
    fix e assume "s' = s" "res = Inl e"
    then show ?thesis by blast
  qed
  from body show ?thesis
  proof
    assume "s' = s \<and> (\<exists>e. res = Inl e)"
    then show ?thesis ..
  next
    assume "(case delivery_for r s of None \<Rightarrow> save_delivery env ?q s ?byID
      | Some c \<Rightarrow> if (case ?byID of None \<Rightarrow> False | Some b \<Rightarrow> md_ID b \<noteq> md_ID c) then (Inl delivery_conflict, s)
          else if md_ID c \<noteq> TrimSpace (md_ID r)
          then (if \<not> messageDeliveryIdentityEqual c r then (Inl delivery_conflict, s) else (Inr (cloneMessageDelivery c), s))
          else save_delivery env ?q s (Some c)) = (res, s')"
    from keyed_save [OF this] show ?thesis
      using written [OF sym refl] by blast
  qed
qed

section \<open>The channel inbox\<close>

definition inbox_key :: "ChannelInboxUpdate \<Rightarrow> string \<times> string" where
  "inbox_key u = (iu_BindingID u, iu_ExternalID u)"

definition inbox_wf :: "ChannelInboxUpdate \<Rightarrow> bool" where
  "inbox_wf u \<longleftrightarrow> cloneChannelInboxUpdate u = u \<and> iu_ID u \<noteq> [] \<and> TrimSpace (iu_BindingID u) = iu_BindingID u \<and>
     TrimSpace (iu_ExternalID u) = iu_ExternalID u \<and> (iu_Payload u = [] \<or> json_Compact (iu_Payload u) = Some (iu_Payload u)) \<and>
     iu_BindingID u \<noteq> [] \<and> iu_ExternalID u \<noteq> [] \<and> iu_Channel u \<noteq> [] \<and> iu_Status u \<noteq> [] \<and>
     TrimSpace (iu_Status u) = iu_Status u"

interpretation inbox_ledger: ledger iu_ID inbox_key inbox_wf cloneChannelInboxUpdate
  by unfold_locales (simp_all add: inbox_wf_def)

lemma inbox_with_find: "inbox_with b e s = find (\<lambda>c. inbox_key c = (b, e)) (mvals (st_channelInboxUpdates s))"
  by (simp add: inbox_with_def inbox_key_def)

text \<open>The payload a clone carries.\<close>

definition compacted :: "string \<Rightarrow> string" where
  "compacted payload = (case json_Compact payload of Some out \<Rightarrow> out | None \<Rightarrow> payload)"

lemma compacted_idem [simp]: "compacted (compacted t) = compacted t"
  by (cases "json_Compact t") (simp_all add: compacted_def json_Compact_idem)

lemma clone_inbox_eq:
  "cloneChannelInboxUpdate u = u\<lparr>iu_AvailableAt := postgresTime (iu_AvailableAt u), iu_CreatedAt := postgresTime (iu_CreatedAt u),
     iu_UpdatedAt := postgresTime (iu_UpdatedAt u), iu_Payload := compacted (iu_Payload u)\<rparr>"
proof -
  have "u\<lparr>iu_Payload := iu_Payload u\<rparr> = u" by (cases u) simp
  then show ?thesis
    by (cases u) (auto simp: cloneChannelInboxUpdate_def compacted_def Let_def split: option.splits)
qed

lemma clone_inbox_idem [simp]: "cloneChannelInboxUpdate (cloneChannelInboxUpdate u) = cloneChannelInboxUpdate u"
  by (simp add: clone_inbox_eq)

lemma finish_inbox_eq:
  "finish_inbox random u previous now = cloneChannelInboxUpdate (u\<lparr>
     iu_ID := (if iu_ID u = [] then NewID random ''inbox'' else iu_ID u),
     iu_Status := (if iu_Status u = [] then ''pending'' else iu_Status u),
     iu_AvailableAt := (if IsZero (iu_AvailableAt u) then now else iu_AvailableAt u),
     iu_CreatedAt := (if IsZero (iu_CreatedAt u) then now else iu_CreatedAt u),
     iu_UpdatedAt := nextRepositoryTime now [previous]\<rparr>)"
  by (cases u) (simp add: finish_inbox_def clone_inbox_eq Let_def)

text \<open>What the update written over \<open>c\<close> keeps of it.\<close>

definition inbox_extends :: "ChannelInboxUpdate \<Rightarrow> ChannelInboxUpdate \<Rightarrow> bool" where
  "inbox_extends c p \<longleftrightarrow> iu_ID p = iu_ID c \<and> inbox_key p = inbox_key c \<and> iu_Channel p = iu_Channel c \<and>
     iu_UpdatedAt c < iu_UpdatedAt p \<and> (iu_CreatedAt c \<noteq> 0 \<longrightarrow> iu_CreatedAt p = iu_CreatedAt c)"

lemma pending_trimmed: "TrimSpace ''pending'' = ''pending''"
  by code_simp

lemma prepareChannelInboxUpdate_ok:
  assumes "prepareChannelInboxUpdate unicode random u current now = Inr p"
  shows "inbox_wf p" and "inbox_key p = (TrimSpace (iu_BindingID u), TrimSpace (iu_ExternalID u))"
    and "iu_Channel p = ToLower unicode (TrimSpace (iu_Channel u))"
    and "current = None \<Longrightarrow> iu_ID p = (if TrimSpace (iu_ID u) = [] then NewID random ''inbox'' else TrimSpace (iu_ID u))"
    and "current = Some c \<Longrightarrow> inbox_wf c \<Longrightarrow> inbox_extends c p"
proof -
  define v where "v = u\<lparr>iu_ID := TrimSpace (iu_ID u), iu_BindingID := TrimSpace (iu_BindingID u),
    iu_Channel := ToLower unicode (TrimSpace (iu_Channel u)), iu_ExternalID := TrimSpace (iu_ExternalID u),
    iu_Status := TrimSpace (iu_Status u)\<rparr>"
  have v: "iu_ID v = TrimSpace (iu_ID u)" "inbox_key v = (TrimSpace (iu_BindingID u), TrimSpace (iu_ExternalID u))"
    "iu_Channel v = ToLower unicode (TrimSpace (iu_Channel u))" "iu_Payload v = iu_Payload u"
    by (simp_all add: v_def inbox_key_def)
  let ?hw = "high_water iu_UpdatedAt current"
  have st: "TrimSpace (iu_Status v) = iu_Status v" by (simp add: v_def)
  have filled: "iu_BindingID v \<noteq> []" "iu_ExternalID v \<noteq> []" "iu_Channel v \<noteq> []"
    using assms unfolding prepareChannelInboxUpdate_def Let_def v_def [symmetric] by (simp_all split: if_splits)
  have pay: "iu_Payload v = [] \<or> json_Valid (iu_Payload v)"
    using assms unfolding prepareChannelInboxUpdate_def Let_def v_def [symmetric] by (auto split: if_splits)
  obtain q where q: "p = finish_inbox random q ?hw now" and qk: "inbox_key q = inbox_key v" "iu_Channel q = iu_Channel v" "iu_Payload q = iu_Payload v"
    "iu_Status q = iu_Status v"
    and id0: "identified iu_ID current = None \<longrightarrow> q = v"
    and id1: "\<forall>c. identified iu_ID current = Some c \<longrightarrow>
      inbox_key c = inbox_key v \<and> iu_Channel c = iu_Channel v \<and> iu_ID q = iu_ID c \<and> iu_CreatedAt q = iu_CreatedAt c"
  proof (cases "identified iu_ID current")
    case None
    then have "p = finish_inbox random v ?hw now"
      using assms unfolding prepareChannelInboxUpdate_def Let_def v_def [symmetric] by (simp split: if_splits)
    then show thesis by (rule that) (simp_all add: None)
  next
    case (Some c)
    let ?q = "v\<lparr>iu_ID := iu_ID c, iu_CreatedAt := iu_CreatedAt c\<rparr>"
    have "p = finish_inbox random ?q ?hw now"
      and "iu_BindingID c = iu_BindingID v" "iu_Channel c = iu_Channel v" "iu_ExternalID c = iu_ExternalID v"
      using assms Some unfolding prepareChannelInboxUpdate_def Let_def v_def [symmetric] by (simp_all split: if_splits)
    then show thesis by (intro that [of ?q]) (simp_all add: Some inbox_key_def)
  qed
  have p: "iu_ID p = (if iu_ID q = [] then NewID random ''inbox'' else iu_ID q)" "inbox_key p = inbox_key q" "iu_Channel p = iu_Channel q"
    "iu_UpdatedAt p = nextRepositoryTime now [?hw]" "iu_CreatedAt q \<noteq> 0 \<Longrightarrow> iu_CreatedAt p = postgresTime (iu_CreatedAt q)"
    "iu_Payload p = compacted (iu_Payload q)" "cloneChannelInboxUpdate p = p" "iu_Status p = (if iu_Status q = [] then ''pending'' else iu_Status q)"
    by (simp_all add: q finish_inbox_eq clone_inbox_eq inbox_key_def)
  have "iu_Payload p = [] \<or> json_Compact (iu_Payload p) = Some (iu_Payload p)"
  proof (cases "iu_Payload v = []")
    case False
    then obtain out where out: "json_Compact (iu_Payload v) = Some out" using pay by (auto simp: json_Valid_def)
    then have "iu_Payload p = out" using p(6) qk(3) by (simp add: compacted_def)
    then show ?thesis using json_Compact_idem [OF out] by simp
  qed (use p(6) qk(3) in \<open>simp add: compacted_def\<close>)
  moreover have "iu_ID p \<noteq> []" using p(1) by simp
  moreover have "TrimSpace (iu_Status p) = iu_Status p" "iu_Status p \<noteq> []" using p(8) qk(4) st pending_trimmed by simp_all
  moreover have "iu_BindingID p = iu_BindingID v" "iu_ExternalID p = iu_ExternalID v" "iu_Channel p = iu_Channel v"
    using p(2,3) qk(1,2) by (simp_all add: inbox_key_def)
  ultimately show "inbox_wf p" using p(2,7) qk(1) v(2) filled by (simp add: inbox_wf_def inbox_key_def)
  show "inbox_key p = (TrimSpace (iu_BindingID u), TrimSpace (iu_ExternalID u))" "iu_Channel p = ToLower unicode (TrimSpace (iu_Channel u))"
    using p(2,3) qk(1,2) v(2,3) by simp_all
  show "iu_ID p = (if TrimSpace (iu_ID u) = [] then NewID random ''inbox'' else TrimSpace (iu_ID u))" if "current = None"
    using p(1) id0 that v(1) by (simp add: identified_def)
  assume c: "current = Some c" and good: "inbox_wf c"
  have "identified iu_ID current = Some c" using c good by (simp add: identified_def inbox_wf_def)
  then have same: "inbox_key c = inbox_key v" "iu_Channel c = iu_Channel v" "iu_ID q = iu_ID c" "iu_CreatedAt q = iu_CreatedAt c"
    using id1 by blast+
  have "iu_CreatedAt (cloneChannelInboxUpdate c) = iu_CreatedAt c" using good by (simp add: inbox_wf_def)
  then have "postgresTime (iu_CreatedAt c) = iu_CreatedAt c" by (simp add: clone_inbox_eq)
  moreover have "iu_UpdatedAt c < iu_UpdatedAt p"
    using p(4) c nextRepositoryTime_after [of "iu_UpdatedAt c" now] by (simp only: high_water_def option.case)
  moreover have "iu_ID c \<noteq> []" using good by (simp add: inbox_wf_def)
  ultimately show "inbox_extends c p"
    using p(1,2,3,5) same qk by (simp add: inbox_extends_def)
qed

abbreviation inbox_for :: "ChannelInboxUpdate \<Rightarrow> MemoryStore \<Rightarrow> ChannelInboxUpdate option" where
  "inbox_for u s \<equiv> inbox_with (TrimSpace (iu_BindingID u)) (TrimSpace (iu_ExternalID u)) s"

abbreviation inbox_conflict :: go_error where
  "inbox_conflict \<equiv> storeError ''channel_inbox_update.save'' StoreErrorConflict ErrChannelInboxUpdateConflict"

definition record_inbox :: "ChannelInboxUpdate \<Rightarrow> MemoryStore \<Rightarrow> MemoryStore" where
  "record_inbox p s = s\<lparr>st_channelInboxUpdates := mput (iu_ID p) p (st_channelInboxUpdates s)\<rparr>"

definition save_inbox ::
  "op_env \<Rightarrow> (string \<Rightarrow> string) \<Rightarrow> ChannelInboxUpdate \<Rightarrow> MemoryStore \<Rightarrow> ChannelInboxUpdate option \<Rightarrow> ChannelInboxUpdate outcome" where
  "save_inbox env unicode u s current = (case prepareChannelInboxUpdate unicode (en_rand env) u current (en_now env) of
     Inl e \<Rightarrow> (Inl (prepare_error ''channel_inbox_update.save'' ErrChannelInboxUpdateConflict e), s)
   | Inr p \<Rightarrow> (Inr (cloneChannelInboxUpdate p),
       s\<lparr>st_channelInboxUpdates := mput (iu_ID p) (cloneChannelInboxUpdate p) (st_channelInboxUpdates s)\<rparr>))"

lemma SaveChannelInboxUpdate_cases:
  assumes "SaveChannelInboxUpdate cx env unicode u s = (res, s')"
  defines "channel \<equiv> ToLower unicode (TrimSpace (iu_Channel u))"
  shows "(s' = s \<and> (\<exists>e. res = Inl e)) \<or>
    (\<exists>c. inbox_for u s = Some c \<and> iu_ID c \<noteq> TrimSpace (iu_ID u) \<and> iu_Channel c = channel \<and>
      res = Inr (cloneChannelInboxUpdate c) \<and> s' = s) \<or>
    (\<exists>p. res = Inr p \<and> s' = record_inbox p s \<and> inbox_wf p \<and> inbox_key p = (TrimSpace (iu_BindingID u), TrimSpace (iu_ExternalID u)) \<and>
      iu_Channel p = ToLower unicode (TrimSpace channel) \<and>
      (case inbox_for u s of
         Some c \<Rightarrow> iu_ID c = TrimSpace (iu_ID u) \<and> (inbox_wf c \<longrightarrow> inbox_extends c p)
       | None \<Rightarrow> (case mget (st_channelInboxUpdates s) (TrimSpace (iu_ID u)) of
             Some b \<Rightarrow> inbox_wf b \<longrightarrow> inbox_extends b p
           | None \<Rightarrow> iu_ID p = (if TrimSpace (iu_ID u) = [] then NewID (en_rand env) ''inbox'' else TrimSpace (iu_ID u)))))"
    (is "_ \<or> _ \<or> ?written")
proof -
  define q where "q = u\<lparr>iu_ID := TrimSpace (iu_ID u), iu_BindingID := TrimSpace (iu_BindingID u),
    iu_Channel := ToLower unicode (TrimSpace (iu_Channel u)), iu_ExternalID := TrimSpace (iu_ExternalID u)\<rparr>"
  have q: "iu_ID q = TrimSpace (iu_ID u)" "iu_BindingID q = TrimSpace (iu_BindingID u)" "iu_ExternalID q = TrimSpace (iu_ExternalID u)"
    "iu_Channel q = channel"
    by (simp_all add: q_def channel_def)
  let ?byID = "mget (st_channelInboxUpdates s) (TrimSpace (iu_ID u))"
  have body: "(s' = s \<and> (\<exists>e. res = Inl e)) \<or>
      (case inbox_for u s of None \<Rightarrow> save_inbox env unicode q s ?byID
       | Some c \<Rightarrow> if (case ?byID of None \<Rightarrow> False | Some b \<Rightarrow> iu_ID b \<noteq> iu_ID c) then (Inl inbox_conflict, s)
           else if iu_ID c \<noteq> TrimSpace (iu_ID u)
           then (if \<not> iu_Channel c = channel then (Inl inbox_conflict, s) else (Inr (cloneChannelInboxUpdate c), s))
           else save_inbox env unicode q s (Some c)) = (res, s')"
    using framed_cases [OF assms(1) [unfolded SaveChannelInboxUpdate_def Let_def, folded q_def save_inbox_def, unfolded q]] .
  have written: "(s' = s \<and> (\<exists>e. res = Inl e)) \<or> ?written"
    if sv: "(res, s') = save_inbox env unicode q s (case inbox_for u s of None \<Rightarrow> ?byID | Some c \<Rightarrow> Some c)"
      and here: "\<forall>c. inbox_for u s = Some c \<longrightarrow> iu_ID c = TrimSpace (iu_ID u)"
  proof (cases "prepareChannelInboxUpdate unicode (en_rand env) q (case inbox_for u s of None \<Rightarrow> ?byID | Some c \<Rightarrow> Some c) (en_now env)")
    case (Inl e)
    then show ?thesis using sv by (simp add: save_inbox_def)
  next
    case (Inr p)
    note ok = prepareChannelInboxUpdate_ok [OF Inr]
    have "cloneChannelInboxUpdate p = p" using ok(1) by (simp add: inbox_wf_def)
    then have p: "res = Inr p" "s' = record_inbox p s" using sv Inr by (simp_all add: save_inbox_def record_inbox_def)
    have "case inbox_for u s of
         Some c \<Rightarrow> iu_ID c = TrimSpace (iu_ID u) \<and> (inbox_wf c \<longrightarrow> inbox_extends c p)
       | None \<Rightarrow> (case ?byID of Some b \<Rightarrow> inbox_wf b \<longrightarrow> inbox_extends b p
           | None \<Rightarrow> iu_ID p = (if TrimSpace (iu_ID u) = [] then NewID (en_rand env) ''inbox'' else TrimSpace (iu_ID u)))"
    proof (cases "inbox_for u s")
      case (Some c)
      then show ?thesis using here ok(5) [of c] by simp
    next
      case None
      then show ?thesis using ok(4) ok(5) q(1) by (cases ?byID) simp_all
    qed
    moreover have "inbox_key p = (TrimSpace (iu_BindingID u), TrimSpace (iu_ExternalID u))" "iu_Channel p = ToLower unicode (TrimSpace channel)"
      using ok(2,3) by (simp_all add: q)
    ultimately have ?written using p ok(1) by blast
    then show ?thesis ..
  qed
  from body show ?thesis
  proof
    assume "s' = s \<and> (\<exists>e. res = Inl e)"
    then show ?thesis ..
  qed (drule keyed_save [where rid = iu_ID and same = "\<lambda>c. iu_Channel c = channel" and save = "save_inbox env unicode q s"
      and conflict = "(Inl inbox_conflict, s)" and replay = "\<lambda>c. (Inr (cloneChannelInboxUpdate c), s)"], use written in blast)
qed

section \<open>Steps\<close>

definition deliveries_inv :: "MemoryStore \<Rightarrow> bool" where
  "deliveries_inv s \<longleftrightarrow> ledger_ok mr_ID receive_key receive_wf (st_messageReceives s) \<and>
     ledger_ok md_ID delivery_key delivery_wf (st_messageDeliveries s) \<and>
     ledger_ok iu_ID inbox_key inbox_wf (st_channelInboxUpdates s)"

lemma deliveries_inv_tables:
  assumes "deliveries_inv s"
  shows "ledger_ok mr_ID receive_key receive_wf (st_messageReceives s)"
    and "ledger_ok md_ID delivery_key delivery_wf (st_messageDeliveries s)"
    and "ledger_ok iu_ID inbox_key inbox_wf (st_channelInboxUpdates s)"
  using assms by (simp_all add: deliveries_inv_def)

inductive delivery_step :: "MemoryStore \<Rightarrow> MemoryStore \<Rightarrow> bool" where
  step_receive: "SaveMessageReceive cx env r s = (res, s') \<Longrightarrow> delivery_step s s'"
| step_delivery: "SaveMessageDelivery cx env d s = (res, s') \<Longrightarrow> delivery_step s s'"
| step_inbox: "SaveChannelInboxUpdate cx env unicode u s = (res, s') \<Longrightarrow> delivery_step s s'"

inductive_cases delivery_stepE: "delivery_step s s'"

text \<open>The tables after a write.\<close>

lemma record_tables:
  "st_messageReceives (record_receive env p s) = mput (mr_ID p) p (st_messageReceives s)"
  "st_messageDeliveries (record_receive env p s) = st_messageDeliveries s"
  "st_channelInboxUpdates (record_receive env p s) = st_channelInboxUpdates s"
  "st_messageReceives (record_delivery env d s) = st_messageReceives s"
  "st_messageDeliveries (record_delivery env d s) = mput (md_ID d) d (st_messageDeliveries s)"
  "st_channelInboxUpdates (record_delivery env d s) = st_channelInboxUpdates s"
  "st_messageReceives (record_inbox u s) = st_messageReceives s"
  "st_messageDeliveries (record_inbox u s) = st_messageDeliveries s"
  "st_channelInboxUpdates (record_inbox u s) = mput (iu_ID u) u (st_channelInboxUpdates s)"
  by (simp_all add: record_receive_def record_delivery_def record_inbox_def)

lemma receive_written:
  assumes "deliveries_inv s" and "receive_wf p" and "receive_with e n s = None \<or> (\<exists>c. receive_with e n s = Some c \<and> mr_ID c = mr_ID p)"
    and "receive_key p = (e, n)"
  shows "deliveries_inv (record_receive env p s)" and "receive_with e n (record_receive env p s) = Some p"
proof -
  have ok: "ledger_ok mr_ID receive_key receive_wf (mput (mr_ID p) p (st_messageReceives s))"
    by (rule receive_ledger.put_ok [OF deliveries_inv_tables(1) [OF assms(1)] assms(2)])
       (use assms(3,4) in \<open>auto simp: receive_with_find\<close>)
  then show "deliveries_inv (record_receive env p s)"
    using assms(1) by (simp add: deliveries_inv_def record_tables)
  show "receive_with e n (record_receive env p s) = Some p"
    using receive_ledger.find_put [OF ok] assms(4) by (simp add: receive_with_find record_tables)
qed

lemma delivery_written:
  assumes "deliveries_inv s" and "delivery_wf p"
    and "delivery_with o' a k s = None \<or> (\<exists>c. delivery_with o' a k s = Some c \<and> md_ID c = md_ID p)"
    and "delivery_key p = (o', a, k)"
  shows "deliveries_inv (record_delivery env p s)" and "delivery_with o' a k (record_delivery env p s) = Some p"
proof -
  have ok: "ledger_ok md_ID delivery_key delivery_wf (mput (md_ID p) p (st_messageDeliveries s))"
    by (rule delivery_ledger.put_ok [OF deliveries_inv_tables(2) [OF assms(1)] assms(2)])
       (use assms(3,4) in \<open>auto simp: delivery_with_find\<close>)
  then show "deliveries_inv (record_delivery env p s)"
    using assms(1) by (simp add: deliveries_inv_def record_tables)
  show "delivery_with o' a k (record_delivery env p s) = Some p"
    using delivery_ledger.find_put [OF ok] assms(4) by (simp add: delivery_with_find record_tables)
qed

lemma inbox_written:
  assumes "deliveries_inv s" and "inbox_wf p" and "inbox_with b e s = None \<or> (\<exists>c. inbox_with b e s = Some c \<and> iu_ID c = iu_ID p)"
    and "inbox_key p = (b, e)"
  shows "deliveries_inv (record_inbox p s)" and "inbox_with b e (record_inbox p s) = Some p"
proof -
  have ok: "ledger_ok iu_ID inbox_key inbox_wf (mput (iu_ID p) p (st_channelInboxUpdates s))"
    by (rule inbox_ledger.put_ok [OF deliveries_inv_tables(3) [OF assms(1)] assms(2)])
       (use assms(3,4) in \<open>auto simp: inbox_with_find\<close>)
  then show "deliveries_inv (record_inbox p s)"
    using assms(1) by (simp add: deliveries_inv_def record_tables)
  show "inbox_with b e (record_inbox p s) = Some p"
    using inbox_ledger.find_put [OF ok] assms(4) by (simp add: inbox_with_find record_tables)
qed

text \<open>What a lookup by natural key finds is well formed and has that key.\<close>

lemma found_receive:
  "deliveries_inv s \<Longrightarrow> receive_with e n s = Some c \<Longrightarrow> receive_wf c \<and> receive_key c = (e, n) \<and> mget (st_messageReceives s) (mr_ID c) = Some c"
  using receive_ledger.find_exact [OF deliveries_inv_tables(1)] receive_ledger.get_wf [OF deliveries_inv_tables(1)]
  by (auto simp: receive_with_find)

lemma found_delivery:
  "deliveries_inv s \<Longrightarrow> delivery_with o' a k s = Some c \<Longrightarrow> delivery_wf c \<and> delivery_key c = (o', a, k) \<and> mget (st_messageDeliveries s) (md_ID c) = Some c"
  using delivery_ledger.find_exact [OF deliveries_inv_tables(2)] delivery_ledger.get_wf [OF deliveries_inv_tables(2)]
  by (auto simp: delivery_with_find)

lemma found_inbox:
  "deliveries_inv s \<Longrightarrow> inbox_with b e s = Some c \<Longrightarrow> inbox_wf c \<and> inbox_key c = (b, e) \<and> mget (st_channelInboxUpdates s) (iu_ID c) = Some c"
  using inbox_ledger.find_exact [OF deliveries_inv_tables(3)] inbox_ledger.get_wf [OF deliveries_inv_tables(3)]
  by (auto simp: inbox_with_find)

text \<open>A successful save in a store that satisfies the invariant, per table.\<close>

lemma receive_saved:
  assumes "deliveries_inv s" and "SaveMessageReceive cx env r s = (Inr p, s')"
  defines "e \<equiv> TrimSpace (mr_SourceEndpointID r)" and "n \<equiv> TrimSpace (mr_NativeMessageID r)"
  shows "s' = record_receive env p s" and "receive_wf p" and "receive_key p = (e, n)" and "deliveries_inv s'"
    and "receive_with e n s' = Some p" and "receive_with e n s = Some c \<Longrightarrow> receive_extends c p"
proof -
  have *: "s' = record_receive env p s" "receive_wf p" "receive_key p = (e, n)"
    and **: "\<And>c. receive_with e n s = Some c \<Longrightarrow> receive_wf c \<Longrightarrow> receive_extends c p"
    using SaveMessageReceive_cases [OF assms(2), folded e_def n_def] by auto
  show "receive_extends c p" if "receive_with e n s = Some c" for c
    using ** [OF that] found_receive [OF assms(1) that] by blast
  then have "receive_with e n s = None \<or> (\<exists>c. receive_with e n s = Some c \<and> mr_ID c = mr_ID p)"
    by (cases "receive_with e n s") (auto simp: receive_extends_def)
  note w = receive_written [OF assms(1) *(2) this *(3)]
  show "s' = record_receive env p s" "receive_wf p" "receive_key p = (e, n)" "deliveries_inv s'" "receive_with e n s' = Some p"
    using * w by simp_all
qed

lemma delivery_saved:
  assumes "deliveries_inv s" and "SaveMessageDelivery cx env r s = (Inr p, s')"
  shows "delivery_wf p" and "delivery_key p = trimmed_key r" and "deliveries_inv s'" and "delivery_for r s' = Some p"
    and "s' = s \<or> s' = record_delivery env p s"
    and "delivery_for r s = Some c \<Longrightarrow> p = c \<and> s' = s \<or> delivery_extends c p \<and> s' = record_delivery env p s"
    and "delivery_for r s = None \<Longrightarrow> s' = record_delivery env p s \<and>
      md_ContentDigest p = (if md_ContentDigest r = [] then TrimSpace (dq_ContentDigest (md_Request r)) else md_ContentDigest r)"
proof -
  consider c where "delivery_for r s = Some c" "p = cloneMessageDelivery c" "s' = s"
    | "s' = record_delivery env p s" "delivery_wf p" "delivery_key p = trimmed_key r"
      "\<forall>c. delivery_for r s = Some c \<longrightarrow> delivery_wf c \<longrightarrow> delivery_extends c p"
      "md_ContentDigest p = (if md_ContentDigest r = [] then TrimSpace (dq_ContentDigest (md_Request r)) else md_ContentDigest r)"
    using SaveMessageDelivery_cases [OF assms(2)] by (cases "delivery_for r s") auto
  then have "delivery_wf p \<and> delivery_key p = trimmed_key r \<and> deliveries_inv s' \<and> delivery_for r s' = Some p \<and>
    (s' = s \<or> s' = record_delivery env p s) \<and>
    (\<forall>c. delivery_for r s = Some c \<longrightarrow> p = c \<and> s' = s \<or> delivery_extends c p \<and> s' = record_delivery env p s) \<and>
    (delivery_for r s = None \<longrightarrow> s' = record_delivery env p s \<and>
      md_ContentDigest p = (if md_ContentDigest r = [] then TrimSpace (dq_ContentDigest (md_Request r)) else md_ContentDigest r))"
  proof cases
    case (1 c)
    note f = found_delivery [OF assms(1) 1(1)]
    then have "p = c" using 1(2) by (simp add: delivery_wf_def)
    then show ?thesis using 1(1,3) f assms(1) by (simp add: trimmed_key_def)
  next
    case 2
    have ext: "delivery_extends c p" if "delivery_for r s = Some c" for c
      using 2(4) that found_delivery [OF assms(1) that] by blast
    then have "delivery_for r s = None \<or> (\<exists>c. delivery_for r s = Some c \<and> md_ID c = md_ID p)"
      by (cases "delivery_for r s") (auto simp: delivery_extends_def)
    from delivery_written [OF assms(1) 2(2) this 2(3) [unfolded trimmed_key_def], of env] ext 2 show ?thesis by simp
  qed
  then show "delivery_wf p" "delivery_key p = trimmed_key r" "deliveries_inv s'" "delivery_for r s' = Some p"
    "s' = s \<or> s' = record_delivery env p s"
    "delivery_for r s = Some c \<Longrightarrow> p = c \<and> s' = s \<or> delivery_extends c p \<and> s' = record_delivery env p s"
    "delivery_for r s = None \<Longrightarrow> s' = record_delivery env p s \<and>
      md_ContentDigest p = (if md_ContentDigest r = [] then TrimSpace (dq_ContentDigest (md_Request r)) else md_ContentDigest r)"
    by blast+
qed

lemma inbox_saved:
  assumes "deliveries_inv s" and "SaveChannelInboxUpdate cx env unicode u s = (Inr p, s')"
  shows "inbox_wf p" and "inbox_key p = (TrimSpace (iu_BindingID u), TrimSpace (iu_ExternalID u))" and "deliveries_inv s'"
    and "inbox_for u s' = Some p" and "s' = s \<or> s' = record_inbox p s"
    and "inbox_for u s = Some c \<Longrightarrow> p = c \<and> s' = s \<or> inbox_extends c p \<and> s' = record_inbox p s"
proof -
  consider c where "inbox_for u s = Some c" "p = cloneChannelInboxUpdate c" "s' = s"
    | "s' = record_inbox p s" "inbox_wf p" "inbox_key p = (TrimSpace (iu_BindingID u), TrimSpace (iu_ExternalID u))"
      "\<forall>c. inbox_for u s = Some c \<longrightarrow> inbox_wf c \<longrightarrow> inbox_extends c p"
    using SaveChannelInboxUpdate_cases [OF assms(2)] by (cases "inbox_for u s") auto
  then have "inbox_wf p \<and> inbox_key p = (TrimSpace (iu_BindingID u), TrimSpace (iu_ExternalID u)) \<and> deliveries_inv s' \<and>
    inbox_for u s' = Some p \<and> (s' = s \<or> s' = record_inbox p s) \<and>
    (\<forall>c. inbox_for u s = Some c \<longrightarrow> p = c \<and> s' = s \<or> inbox_extends c p \<and> s' = record_inbox p s)"
  proof cases
    case (1 c)
    note f = found_inbox [OF assms(1) 1(1)]
    then have "p = c" using 1(2) by (simp add: inbox_wf_def)
    then show ?thesis using 1(1,3) f assms(1) by simp
  next
    case 2
    have ext: "inbox_extends c p" if "inbox_for u s = Some c" for c
      using 2(4) that found_inbox [OF assms(1) that] by blast
    then have "inbox_for u s = None \<or> (\<exists>c. inbox_for u s = Some c \<and> iu_ID c = iu_ID p)"
      by (cases "inbox_for u s") (auto simp: inbox_extends_def)
    from inbox_written [OF assms(1) 2(2) this 2(3)] ext 2 show ?thesis by simp
  qed
  then show "inbox_wf p" "inbox_key p = (TrimSpace (iu_BindingID u), TrimSpace (iu_ExternalID u))" "deliveries_inv s'"
    "inbox_for u s' = Some p" "s' = s \<or> s' = record_inbox p s"
    "inbox_for u s = Some c \<Longrightarrow> p = c \<and> s' = s \<or> inbox_extends c p \<and> s' = record_inbox p s"
    by blast+
qed

interpretation save_receive: failing_operation "SaveMessageReceive cx env r" True
  by unfold_locales (auto dest: SaveMessageReceive_cases)

interpretation save_message_delivery: failing_operation "SaveMessageDelivery cx env d" True
  by unfold_locales (auto dest: SaveMessageDelivery_cases)

interpretation save_inbox_update: failing_operation "SaveChannelInboxUpdate cx env unicode u" True
  by unfold_locales (auto dest: SaveChannelInboxUpdate_cases)

lemma delivery_step_inv: "delivery_step s s' \<Longrightarrow> deliveries_inv s \<Longrightarrow> deliveries_inv s'"
proof (erule delivery_stepE)
  fix cx env r res assume "SaveMessageReceive cx env r s = (res, s')" "deliveries_inv s"
  then show "deliveries_inv s'"
    using save_receive.preserves [OF TrueI, of deliveries_inv s cx env r] receive_saved(4) by blast
next
  fix cx env d res assume "SaveMessageDelivery cx env d s = (res, s')" "deliveries_inv s"
  then show "deliveries_inv s'"
    using save_message_delivery.preserves [OF TrueI, of deliveries_inv s cx env d] delivery_saved(3) by blast
next
  fix cx env unicode u res assume "SaveChannelInboxUpdate cx env unicode u s = (res, s')" "deliveries_inv s"
  then show "deliveries_inv s'"
    using save_inbox_update.preserves [OF TrueI, of deliveries_inv s cx env unicode u] inbox_saved(3) by blast
qed

lemma deliveries_inv_empty: "empty_store s \<Longrightarrow> deliveries_inv s"
  by (simp add: deliveries_inv_def empty_store_tables receive_ledger.empty_ok delivery_ledger.empty_ok inbox_ledger.empty_ok)

interpretation ledgers: invariant_system empty_store delivery_step deliveries_inv
  by unfold_locales (fact deliveries_inv_empty, fact delivery_step_inv)

lemma record_logs: "logs_extend s (record_receive env p s)" "logs_extend s (record_delivery env d s)" "logs_extend s (record_inbox u s)"
  by (simp_all add: record_receive_def record_delivery_def record_inbox_def logs_extend_def appendAuditLocked_def appendAuditLockedAt_def)

lemma delivery_step_logs: "delivery_step s s' \<Longrightarrow> logs_extend s s'"
  by (erule delivery_stepE)
     (use record_logs logs_extend_refl in \<open>blast dest: SaveMessageReceive_cases SaveMessageDelivery_cases SaveChannelInboxUpdate_cases\<close>)+

interpretation receive_writes: reconciler "ReconcileMessageReceiveWrite cx s"
  "\<lambda>c. fst (FindMessageReceive cx (mr_SourceEndpointID c) (mr_NativeMessageID c) s)" "\<lambda>a c. a = cloneMessageReceive c" "\<lambda>c. True"
  by unfold_locales (simp only: ReconcileMessageReceiveWrite_def reconcile_write_def not_True_eq_False simp_thms)

interpretation delivery_writes: reconciler "ReconcileMessageDeliveryWrite cx s"
  "\<lambda>c. fst (FindMessageDeliveryByIdempotency cx (md_OwnerID c) (md_ActorID c) (dq_IdempotencyKey (md_Request c)) s)"
  "\<lambda>a c. a = cloneMessageDelivery c" "\<lambda>c. True"
  by unfold_locales (simp only: ReconcileMessageDeliveryWrite_def reconcile_write_def not_True_eq_False simp_thms)

interpretation inbox_writes: reconciler "ReconcileChannelInboxUpdateWrite cx s"
  "\<lambda>c. fst (FindChannelInboxUpdate cx (iu_BindingID c) (iu_ExternalID c) s)" "\<lambda>a c. a = cloneChannelInboxUpdate c" "\<lambda>c. True"
  by unfold_locales (simp only: ReconcileChannelInboxUpdateWrite_def reconcile_write_def not_True_eq_False simp_thms)

section \<open>Properties\<close>

definition sample_receive :: MessageReceiveRecord where
  "sample_receive = \<lparr>mr_ID = [], mr_Direction = [], mr_OwnerID = ''o1'', mr_ActorID = [], mr_ProviderKey = ''telegram'',
     mr_SourceEndpointID = ''e1'', mr_NativeMessageID = ''n1'', mr_Status = ''received'', mr_Transitions = [],
     mr_LinkedMessageID = [], mr_LinkedRunID = [], mr_SoftwareDisplayName = [], mr_RecipientDisplayName = [],
     mr_AccountDisplayName = [], mr_CreatedAt = 0, mr_UpdatedAt = 0\<rparr>"

definition sample_delivery :: MessageDeliveryRecord where
  "sample_delivery = \<lparr>md_ID = [], md_Direction = [], md_OwnerID = ''o1'', md_ActorID = ''a1'', md_Origin = ''agent'',
     md_Request = \<lparr>dq_SchemaVersion = 1, dq_ID = [], dq_IdempotencyKey = ''k1'', dq_ResultID = [], dq_ResultStatus = [],
       dq_ResultError = None, dq_RunID = [], dq_OwnerID = ''o1'', dq_ActorID = ''a1'',
       dq_Authorization = \<lparr>au_PrincipalID = [], au_Scope = []\<rparr>, dq_Target = ''e1'', dq_Content = \<lparr>ct_Parts = []\<rparr>,
       dq_Origin = ''agent'', dq_SourceAdmitted = True, dq_ApprovalSource = [], dq_ContentDigest = ''d1'', dq_CreatedAt = 0,
       dq_MCP = None\<rparr>,
     md_TargetSelection = \<lparr>ts_Status = [], ts_RequestedProviderKey = [], ts_RequestedRecipientText = [],
       ts_CandidateEndpointIDs = [], ts_ResolvedEndpointID = [], ts_ResolutionRule = []\<rparr>,
     md_Status = ''pending'', md_ApprovalSource = [], md_ContentDigest = [], md_Receipt = None, md_Attempts = 0,
     md_SoftwareDisplayName = [], md_RecipientDisplayName = [], md_AccountDisplayName = [], md_CreatedAt = 0, md_UpdatedAt = 0\<rparr>"

definition sample_inbox :: ChannelInboxUpdate where
  "sample_inbox = \<lparr>iu_ID = [], iu_BindingID = ''b1'', iu_Channel = ''telegram'', iu_ExternalID = ''7'', iu_ChatKey = [],
     iu_Payload = ''[1, 2]'', iu_Status = [], iu_Attempts = 0, iu_AvailableAt = 0, iu_LastError = [], iu_CreatedAt = 0, iu_UpdatedAt = 0\<rparr>"

definition saved_receive :: MessageReceiveRecord where
  "saved_receive = (case fst (SaveMessageReceive open_ctx sample_env sample_receive NewMemoryStore) of Inr p \<Rightarrow> p | Inl e \<Rightarrow> sample_receive)"

definition saved_delivery :: MessageDeliveryRecord where
  "saved_delivery = (case fst (SaveMessageDelivery open_ctx sample_env sample_delivery NewMemoryStore) of Inr p \<Rightarrow> p | Inl e \<Rightarrow> sample_delivery)"

definition saved_inbox :: ChannelInboxUpdate where
  "saved_inbox = (case fst (SaveChannelInboxUpdate open_ctx sample_env id sample_inbox NewMemoryStore) of Inr p \<Rightarrow> p | Inl e \<Rightarrow> sample_inbox)"

lemma sample_trimmed:
  "TrimSpace ''o1'' = ''o1''" "TrimSpace ''a1'' = ''a1''" "TrimSpace ''e1'' = ''e1''" "TrimSpace ''n1'' = ''n1''"
  "TrimSpace ''k1'' = ''k1''" "TrimSpace ''d1'' = ''d1''" "TrimSpace ''b1'' = ''b1''" "TrimSpace ''7'' = ''7''"
  "TrimSpace ''telegram'' = ''telegram''" "TrimSpace ''received'' = ''received''" "TrimSpace ''pending'' = ''pending''"
  "ToLower id ''telegram'' = ''telegram''" "json_Compact ''[1, 2]'' = Some ''[1,2]''"
  by code_simp+

lemma sample_saves:
  "\<exists>p. fst (SaveMessageReceive open_ctx sample_env sample_receive NewMemoryStore) = Inr p"
  "\<exists>p. fst (SaveMessageDelivery open_ctx sample_env sample_delivery NewMemoryStore) = Inr p"
  "\<exists>p. fst (SaveChannelInboxUpdate open_ctx sample_env id sample_inbox NewMemoryStore) = Inr p"
proof -
  show "\<exists>p. fst (SaveMessageReceive open_ctx sample_env sample_receive NewMemoryStore) = Inr p"
    by (simp add: SaveMessageReceive_def framed_def checked_def sample_receive_def sample_trimmed receive_with_def
        prepareMessageReceive_def trim_receive_def identified_def finish_receive_def Let_def)
  show "\<exists>p. fst (SaveMessageDelivery open_ctx sample_env sample_delivery NewMemoryStore) = Inr p"
    by (simp add: SaveMessageDelivery_def framed_def checked_def sample_delivery_def sample_trimmed delivery_with_def
        prepareMessageDelivery_def trim_delivery_def fill_digest_def identified_def finish_delivery_def Let_def)
  show "\<exists>p. fst (SaveChannelInboxUpdate open_ctx sample_env id sample_inbox NewMemoryStore) = Inr p"
    by (simp add: SaveChannelInboxUpdate_def framed_def checked_def sample_inbox_def sample_trimmed inbox_with_def
        prepareChannelInboxUpdate_def json_Valid_def identified_def Let_def)
qed

lemma saved_samples:
  shows "\<exists>s. SaveMessageReceive open_ctx sample_env sample_receive NewMemoryStore = (Inr saved_receive, s)"
    and "\<exists>s. SaveMessageDelivery open_ctx sample_env sample_delivery NewMemoryStore = (Inr saved_delivery, s)"
    and "\<exists>s. SaveChannelInboxUpdate open_ctx sample_env id sample_inbox NewMemoryStore = (Inr saved_inbox, s)"
  using sample_saves
  by (cases "SaveMessageReceive open_ctx sample_env sample_receive NewMemoryStore", auto simp: saved_receive_def)
     (cases "SaveMessageDelivery open_ctx sample_env sample_delivery NewMemoryStore", auto simp: saved_delivery_def,
      cases "SaveChannelInboxUpdate open_ctx sample_env id sample_inbox NewMemoryStore", auto simp: saved_inbox_def)

lemma New_reach: "reach empty_store step NewMemoryStore"
  by (rule reach_init) (rule empty_store_New)

lemma cloned_finds:
  "deliveries_inv s \<Longrightarrow> FindMessageReceive open_ctx e n s = (Inr (receive_with (TrimSpace e) (TrimSpace n) s), s)"
  "deliveries_inv s \<Longrightarrow> FindMessageDeliveryByIdempotency open_ctx o' a k s =
     (Inr (delivery_with (TrimSpace o') (TrimSpace a) (TrimSpace k) s), s)"
  "deliveries_inv s \<Longrightarrow> FindChannelInboxUpdate open_ctx b e s = (Inr (inbox_with (TrimSpace b) (TrimSpace e) s), s)"
proof -
  show "FindMessageReceive open_ctx e n s = (Inr (receive_with (TrimSpace e) (TrimSpace n) s), s)" if "deliveries_inv s"
    using found_receive [OF that, of "TrimSpace e" "TrimSpace n"]
    by (cases "receive_with (TrimSpace e) (TrimSpace n) s")
       (simp_all add: FindMessageReceive_def framed_def checked_def receive_wf_def)
  show "FindMessageDeliveryByIdempotency open_ctx o' a k s = (Inr (delivery_with (TrimSpace o') (TrimSpace a) (TrimSpace k) s), s)"
    if "deliveries_inv s"
    using found_delivery [OF that, of "TrimSpace o'" "TrimSpace a" "TrimSpace k"]
    by (cases "delivery_with (TrimSpace o') (TrimSpace a) (TrimSpace k) s")
       (simp_all add: FindMessageDeliveryByIdempotency_def framed_def checked_def delivery_wf_def)
  show "FindChannelInboxUpdate open_ctx b e s = (Inr (inbox_with (TrimSpace b) (TrimSpace e) s), s)" if "deliveries_inv s"
    using found_inbox [OF that, of "TrimSpace b" "TrimSpace e"]
    by (cases "inbox_with (TrimSpace b) (TrimSpace e) s")
       (simp_all add: FindChannelInboxUpdate_def framed_def checked_def inbox_wf_def)
qed

text \<open>A save that names no identity, when its natural key is taken.\<close>

lemma repeated_delivery:
  assumes "deliveries_inv s" and "delivery_for q s = Some p" and "TrimSpace (md_ID q) = []"
  shows "SaveMessageDelivery open_ctx env q s = (if messageDeliveryIdentityEqual p q then Inr p else Inl delivery_conflict, s)"
proof -
  have p: "md_ID p \<noteq> []" "cloneMessageDelivery p = p" using found_delivery [OF assms(1,2)] by (simp_all add: delivery_wf_def)
  have "mget (st_messageDeliveries s) [] = None"
    using delivery_ledger.get_wf [OF deliveries_inv_tables(2) [OF assms(1)], of "[]"] delivery_ledger.wf_rid
    by (cases "mget (st_messageDeliveries s) []") auto
  moreover have "messageDeliveryIdentityEqual p (q\<lparr>md_ID := []\<rparr>) = messageDeliveryIdentityEqual p q"
    by (simp add: messageDeliveryIdentityEqual_def)
  ultimately show ?thesis
    using assms(2,3) p by (simp add: SaveMessageDelivery_def framed_def checked_def Let_def)
qed

lemma repeated_inbox:
  assumes "deliveries_inv s" and "inbox_for u s = Some p" and "TrimSpace (iu_ID u) = []"
  shows "SaveChannelInboxUpdate open_ctx env unicode u s =
    (if iu_Channel p = ToLower unicode (TrimSpace (iu_Channel u)) then Inr p else Inl inbox_conflict, s)"
proof -
  have p: "iu_ID p \<noteq> []" "cloneChannelInboxUpdate p = p" using found_inbox [OF assms(1,2)] by (simp_all add: inbox_wf_def)
  have "mget (st_channelInboxUpdates s) [] = None"
    using inbox_ledger.get_wf [OF deliveries_inv_tables(3) [OF assms(1)], of "[]"] inbox_ledger.wf_rid
    by (cases "mget (st_channelInboxUpdates s) []") auto
  then show ?thesis
    using assms(2,3) p by (simp add: SaveChannelInboxUpdate_def framed_def checked_def Let_def)
qed

text \<open>C27: a message is recorded once. After a successful \<open>SaveMessageReceive\<close> in a reachable store the lookup by endpoint and
  native identity finds the saved record; when the message was recorded before, the save keeps its identity, owner,
  actor and creation time, moves its update time strictly forward and appends at most one transition to its history,
  which ends in the current status; no two records are about the same message.\<close>

theorem receive_recorded_once:
  assumes "reach empty_store delivery_step s" and "SaveMessageReceive cx env r s = (Inr p, s')"
  shows "FindMessageReceive open_ctx (mr_SourceEndpointID r) (mr_NativeMessageID r) s' = (Inr (Some p), s') \<and>
    (\<forall>c. FindMessageReceive open_ctx (mr_SourceEndpointID r) (mr_NativeMessageID r) s = (Inr (Some c), s) \<longrightarrow>
      mr_ID p = mr_ID c \<and> mr_UpdatedAt c < mr_UpdatedAt p \<and> (mr_CreatedAt c \<noteq> 0 \<longrightarrow> mr_CreatedAt p = mr_CreatedAt c) \<and>
      (mr_OwnerID c \<noteq> [] \<longrightarrow> mr_OwnerID p = mr_OwnerID c) \<and> (mr_ActorID c \<noteq> [] \<longrightarrow> mr_ActorID p = mr_ActorID c) \<and>
      (\<exists>more. length more \<le> 1 \<and> mr_Transitions p = mr_Transitions c @ more)) \<and>
    mr_Transitions p \<noteq> [] \<and> lt_Status (last (mr_Transitions p)) = mr_Status p \<and>
    (\<forall>x \<in> set (mvals (st_messageReceives s')). \<forall>y \<in> set (mvals (st_messageReceives s')).
      mr_SourceEndpointID x = mr_SourceEndpointID y \<and> mr_NativeMessageID x = mr_NativeMessageID y \<longrightarrow> x = y)"
proof -
  have inv: "deliveries_inv s" using ledgers.reach_inv [OF assms(1)] .
  note sv = receive_saved [OF inv assms(2)]
  have found: "FindMessageReceive open_ctx (mr_SourceEndpointID r) (mr_NativeMessageID r) s' = (Inr (Some p), s')"
    using sv(5) by (simp add: cloned_finds(1) [OF sv(4)])
  have history: "mr_Transitions p \<noteq> [] \<and> lt_Status (last (mr_Transitions p)) = mr_Status p"
    using sv(2) by (simp add: receive_wf_def)
  have extends: "mr_ID p = mr_ID c \<and> mr_UpdatedAt c < mr_UpdatedAt p \<and> (mr_CreatedAt c \<noteq> 0 \<longrightarrow> mr_CreatedAt p = mr_CreatedAt c) \<and>
      (mr_OwnerID c \<noteq> [] \<longrightarrow> mr_OwnerID p = mr_OwnerID c) \<and> (mr_ActorID c \<noteq> [] \<longrightarrow> mr_ActorID p = mr_ActorID c) \<and>
      (\<exists>more. length more \<le> 1 \<and> mr_Transitions p = mr_Transitions c @ more)"
    if "FindMessageReceive open_ctx (mr_SourceEndpointID r) (mr_NativeMessageID r) s = (Inr (Some c), s)" for c
    using sv(6) [of c] that by (simp add: cloned_finds(1) [OF inv] receive_extends_def)
  have "inj_on receive_key (set (mvals (st_messageReceives s')))"
    using deliveries_inv_tables(1) [OF sv(4)] by (simp add: ledger_ok_def)
  then have unique: "\<forall>x \<in> set (mvals (st_messageReceives s')). \<forall>y \<in> set (mvals (st_messageReceives s')).
      mr_SourceEndpointID x = mr_SourceEndpointID y \<and> mr_NativeMessageID x = mr_NativeMessageID y \<longrightarrow> x = y"
    by (simp add: inj_on_def receive_key_def)
  show ?thesis using found history extends unique by blast
qed

lemma receive_recorded_once_witness:
  "\<exists>s. FindMessageReceive open_ctx ''e1'' ''n1'' s = (Inr (Some saved_receive), s)"
proof -
  obtain s where "SaveMessageReceive open_ctx sample_env sample_receive NewMemoryStore = (Inr saved_receive, s)"
    using saved_samples(1) by blast
  from receive_recorded_once [OF New_reach this] show ?thesis by (auto simp: sample_receive_def)
qed

text \<open>C28: an idempotency key stands for one delivery. A delivery is stored under the owner, actor and key it names, without blanks
  around them. Whatever is saved later under the same owner, actor and key without naming an identity writes nothing: a record
  whose owner, actor, key, target and content digest are those stored gets the stored delivery back, and one that differs in any
  of them, be it only in blanks or because it carries its digest in the request alone, is refused as a conflict.\<close>

theorem delivery_idempotent:
  assumes "reach empty_store delivery_step s" and "SaveMessageDelivery cx env r s = (Inr p, s')"
    and "trimmed_key q = trimmed_key r" and "TrimSpace (md_ID q) = []"
  shows "md_OwnerID p = TrimSpace (md_OwnerID r) \<and> md_ActorID p = TrimSpace (md_ActorID r) \<and>
    dq_IdempotencyKey (md_Request p) = TrimSpace (dq_IdempotencyKey (md_Request r)) \<and>
    SaveMessageDelivery open_ctx env' q s' =
    (if md_OwnerID q = md_OwnerID p \<and> md_ActorID q = md_ActorID p \<and>
        dq_IdempotencyKey (md_Request q) = dq_IdempotencyKey (md_Request p) \<and>
        dq_Target (md_Request q) = dq_Target (md_Request p) \<and> md_ContentDigest q = md_ContentDigest p
     then Inr p
     else Inl (storeError ''message_delivery.save'' StoreErrorConflict ErrMessageDeliveryConflict), s')"
proof -
  have inv: "deliveries_inv s" using ledgers.reach_inv [OF assms(1)] .
  note sv = delivery_saved [OF inv assms(2)]
  have "delivery_for q s' = Some p" using sv(4) assms(3) by (simp add: trimmed_key_def)
  from repeated_delivery [OF sv(3) this assms(4)] sv(2) show ?thesis
    by (auto simp: messageDeliveryIdentityEqual_def delivery_key_def trimmed_key_def)
qed

lemma delivery_idempotent_witness:
  "\<exists>s. SaveMessageDelivery open_ctx sample_env sample_delivery NewMemoryStore = (Inr saved_delivery, s) \<and>
     SaveMessageDelivery open_ctx sample_env (saved_delivery\<lparr>md_ID := []\<rparr>) s = (Inr saved_delivery, s) \<and>
     SaveMessageDelivery open_ctx sample_env (saved_delivery\<lparr>md_ID := [], md_ContentDigest := ''d2''\<rparr>) s =
       (Inl (storeError ''message_delivery.save'' StoreErrorConflict ErrMessageDeliveryConflict), s)"
proof -
  obtain s where s: "SaveMessageDelivery open_ctx sample_env sample_delivery NewMemoryStore = (Inr saved_delivery, s)"
    using saved_samples(2) by blast
  note sv = delivery_saved [OF ledgers.reach_inv [OF New_reach] s]
  have "delivery_for sample_delivery NewMemoryStore = None" by (simp add: delivery_with_def)
  then have digest: "md_ContentDigest saved_delivery = ''d1''" using sv(7) by (simp add: sample_delivery_def sample_trimmed)
  have key: "trimmed_key saved_delivery = trimmed_key sample_delivery"
    using sv(2) by (simp add: delivery_key_def trimmed_key_def)
  have t: "trimmed_key (saved_delivery\<lparr>md_ID := [], md_ContentDigest := d\<rparr>) = trimmed_key sample_delivery" for d
    using key by (simp add: trimmed_key_def)
  have again: "trimmed_key (saved_delivery\<lparr>md_ID := []\<rparr>) = trimmed_key sample_delivery" using key by (simp add: trimmed_key_def)
  have blank: "TrimSpace (md_ID (saved_delivery\<lparr>md_ID := []\<rparr>)) = []"
    "TrimSpace (md_ID (saved_delivery\<lparr>md_ID := [], md_ContentDigest := ''d2''\<rparr>)) = []" by simp_all
  from delivery_idempotent [OF New_reach s again blank(1), of sample_env] delivery_idempotent [OF New_reach s t blank(2), of sample_env] s
  show ?thesis by (simp add: digest)
qed

text \<open>Repeating a first save may be refused. A delivery that carries its digest in the request only is stored with that
  digest, but the repeat of the very same save is compared before the digest is filled in and reported as a conflict
  with a different request.\<close>

theorem delivery_retry_refused:
  assumes "reach empty_store delivery_step s" and "SaveMessageDelivery cx env r s = (Inr p, s')"
    and "FindMessageDeliveryByIdempotency open_ctx (md_OwnerID r) (md_ActorID r) (dq_IdempotencyKey (md_Request r)) s = (Inr None, s)"
    and "TrimSpace (md_ID r) = []" and "md_ContentDigest r = []" and "TrimSpace (dq_ContentDigest (md_Request r)) \<noteq> []"
  shows "SaveMessageDelivery open_ctx env' r s' =
    (Inl (storeError ''message_delivery.save'' StoreErrorConflict ErrMessageDeliveryConflict), s')"
proof -
  have inv: "deliveries_inv s" using ledgers.reach_inv [OF assms(1)] .
  have "delivery_for r s = None" using assms(3) by (simp add: cloned_finds(2) [OF inv])
  then have "md_ContentDigest p \<noteq> md_ContentDigest r"
    using delivery_saved(7) [OF inv assms(2)] assms(5,6) by simp
  then have "\<not> messageDeliveryIdentityEqual p r" by (simp add: messageDeliveryIdentityEqual_def)
  then show ?thesis
    using repeated_delivery [OF delivery_saved(3,4) [OF inv assms(2)] assms(4)] by simp
qed

lemma delivery_retry_refused_witness:
  "\<exists>s. SaveMessageDelivery open_ctx sample_env sample_delivery s =
     (Inl (storeError ''message_delivery.save'' StoreErrorConflict ErrMessageDeliveryConflict), s)"
proof -
  obtain s where s: "SaveMessageDelivery open_ctx sample_env sample_delivery NewMemoryStore = (Inr saved_delivery, s)"
    using saved_samples(2) by blast
  have "SaveMessageDelivery open_ctx sample_env sample_delivery s =
      (Inl (storeError ''message_delivery.save'' StoreErrorConflict ErrMessageDeliveryConflict), s)"
    by (rule delivery_retry_refused [OF New_reach s])
       (simp_all add: sample_delivery_def FindMessageDeliveryByIdempotency_def framed_def checked_def delivery_with_def sample_trimmed)
  then show ?thesis ..
qed

text \<open>Provider updates enter the inbox once. When a channel delivers an update again, whatever its status, payload or attempt
  count, the inbox answers with the stored update and changes nothing, so an update that is being worked on or done is
  never put back; the same identifiers on another channel are refused.\<close>

theorem inbox_redelivery_absorbed:
  assumes "reach empty_store delivery_step s" and "SaveChannelInboxUpdate cx env unicode u s = (Inr p, s')"
    and "TrimSpace (iu_BindingID v) = TrimSpace (iu_BindingID u)" and "TrimSpace (iu_ExternalID v) = TrimSpace (iu_ExternalID u)"
    and "TrimSpace (iu_ID v) = []"
  shows "SaveChannelInboxUpdate open_ctx env' unicode v s' =
    (if iu_Channel p = ToLower unicode (TrimSpace (iu_Channel v)) then Inr p
     else Inl (storeError ''channel_inbox_update.save'' StoreErrorConflict ErrChannelInboxUpdateConflict), s')"
proof -
  have inv: "deliveries_inv s" using ledgers.reach_inv [OF assms(1)] .
  note sv = inbox_saved [OF inv assms(2)]
  have "inbox_for v s' = Some p" using sv(4) assms(3,4) by simp
  then show ?thesis by (rule repeated_inbox [OF sv(3) _ assms(5)])
qed

lemma inbox_redelivery_absorbed_witness:
  "\<exists>s. SaveChannelInboxUpdate open_ctx sample_env id (sample_inbox\<lparr>iu_Status := ''pending'', iu_Attempts := 3\<rparr>) s =
     (if iu_Channel saved_inbox = ''telegram'' then Inr saved_inbox
      else Inl (storeError ''channel_inbox_update.save'' StoreErrorConflict ErrChannelInboxUpdateConflict), s)"
proof -
  obtain s where "SaveChannelInboxUpdate open_ctx sample_env id sample_inbox NewMemoryStore = (Inr saved_inbox, s)"
    using saved_samples(3) by blast
  from inbox_redelivery_absorbed [OF New_reach this, of "sample_inbox\<lparr>iu_Status := ''pending'', iu_Attempts := 3\<rparr>" sample_env]
  show ?thesis by (auto simp: sample_inbox_def sample_trimmed)
qed

text \<open>C39: reading an inbox update and saving it back is lossless. The payload a save stored is valid compact JSON, and saving the
  update as it was returned changes nothing in it but its update time, which moves strictly forward.\<close>

theorem inbox_roundtrip:
  assumes "reach empty_store delivery_step s" and "SaveChannelInboxUpdate cx env unicode u s = (Inr p, s')"
    and "ToLower unicode (TrimSpace (iu_Channel p)) = iu_Channel p" and "TrimSpace (iu_ID p) = iu_ID p"
    and "iu_AvailableAt p \<noteq> 0" and "iu_CreatedAt p \<noteq> 0"
  shows "(iu_Payload p \<noteq> [] \<longrightarrow> json_Valid (iu_Payload p) \<and> json_Compact (iu_Payload p) = Some (iu_Payload p)) \<and>
    SaveChannelInboxUpdate open_ctx env' unicode p s' =
      (Inr (p\<lparr>iu_UpdatedAt := nextRepositoryTime (en_now env') [iu_UpdatedAt p]\<rparr>),
       s'\<lparr>st_channelInboxUpdates := mput (iu_ID p) (p\<lparr>iu_UpdatedAt := nextRepositoryTime (en_now env') [iu_UpdatedAt p]\<rparr>)
         (st_channelInboxUpdates s')\<rparr>)"
proof -
  have inv: "deliveries_inv s" using ledgers.reach_inv [OF assms(1)] .
  note sv = inbox_saved [OF inv assms(2)]
  have good: "cloneChannelInboxUpdate p = p" "iu_ID p \<noteq> []" "iu_Payload p = [] \<or> json_Compact (iu_Payload p) = Some (iu_Payload p)"
    "TrimSpace (iu_Status p) = iu_Status p" "iu_Status p \<noteq> []" "iu_BindingID p \<noteq> []" "iu_ExternalID p \<noteq> []" "iu_Channel p \<noteq> []"
    and trim: "TrimSpace (iu_BindingID p) = iu_BindingID p" "TrimSpace (iu_ExternalID p) = iu_ExternalID p"
    using sv(1) by (simp_all add: inbox_wf_def)
  have payload: "iu_Payload p \<noteq> [] \<Longrightarrow> json_Valid (iu_Payload p) \<and> json_Compact (iu_Payload p) = Some (iu_Payload p)"
    using good(3) by (auto simp: json_Valid_def)
  have found: "inbox_with (iu_BindingID p) (iu_ExternalID p) s' = Some p"
    using sv(2,4) trim by (simp add: inbox_key_def)
  then have byID: "mget (st_channelInboxUpdates s') (iu_ID p) = Some p" using found_inbox [OF sv(3)] by simp
  let ?n = "p\<lparr>iu_UpdatedAt := nextRepositoryTime (en_now env') [iu_UpdatedAt p]\<rparr>"
  have same: "p\<lparr>iu_ID := iu_ID p, iu_BindingID := iu_BindingID p, iu_Channel := iu_Channel p, iu_ExternalID := iu_ExternalID p\<rparr> = p"
    "p\<lparr>iu_ID := iu_ID p, iu_BindingID := iu_BindingID p, iu_Channel := iu_Channel p, iu_ExternalID := iu_ExternalID p, iu_Status := iu_Status p\<rparr> = p"
    "p\<lparr>iu_ID := iu_ID p, iu_CreatedAt := iu_CreatedAt p\<rparr> = p"
    by (cases p, simp)+
  have "iu_AvailableAt (cloneChannelInboxUpdate p) = iu_AvailableAt p" "iu_CreatedAt (cloneChannelInboxUpdate p) = iu_CreatedAt p"
    using good(1) by simp_all
  then have t: "postgresTime (iu_AvailableAt p) = iu_AvailableAt p" "postgresTime (iu_CreatedAt p) = iu_CreatedAt p" "compacted (iu_Payload p) = iu_Payload p"
    using good(3) by (auto simp: clone_inbox_eq compacted_def)
  have clone: "cloneChannelInboxUpdate ?n = ?n"
    using t by (cases p) (simp add: clone_inbox_eq)
  have "finish_inbox r p (iu_UpdatedAt p) (en_now env') = cloneChannelInboxUpdate ?n" for r
    using assms(5,6) good(2,5) by (cases p) (simp add: finish_inbox_eq)
  then have "prepareChannelInboxUpdate unicode (en_rand env') p (Some p) (en_now env') = Inr ?n"
    using assms(3,4) good trim clone same
    by (auto simp: prepareChannelInboxUpdate_def Let_def identified_def high_water_def json_Valid_def)
  then have saved_back: "SaveChannelInboxUpdate open_ctx env' unicode p s' =
      (Inr ?n, s'\<lparr>st_channelInboxUpdates := mput (iu_ID p) ?n (st_channelInboxUpdates s')\<rparr>)"
    using found byID assms(3,4) trim same clone by (simp add: SaveChannelInboxUpdate_def framed_def checked_def Let_def)
  show ?thesis using payload saved_back by blast
qed

lemma inbox_roundtrip_witness:
  "\<exists>s. SaveChannelInboxUpdate open_ctx sample_env id saved_inbox s =
     (Inr (saved_inbox\<lparr>iu_UpdatedAt := 6000\<rparr>),
      s\<lparr>st_channelInboxUpdates := mput (iu_ID saved_inbox) (saved_inbox\<lparr>iu_UpdatedAt := 6000\<rparr>) (st_channelInboxUpdates s)\<rparr>)"
proof -
  obtain s where s: "SaveChannelInboxUpdate open_ctx sample_env id sample_inbox NewMemoryStore = (Inr saved_inbox, s)"
    using saved_samples(3) by blast
  have i: "NewID None ''inbox'' = ''inbox_fallback''" by code_simp
  have p: "prepareChannelInboxUpdate id None sample_inbox None 5000 = Inr (sample_inbox\<lparr>iu_ID := ''inbox_fallback'', iu_Payload := ''[1,2]'',
      iu_Status := ''pending'', iu_AvailableAt := 5000, iu_CreatedAt := 5000, iu_UpdatedAt := 5000\<rparr>)"
    by (simp add: prepareChannelInboxUpdate_def sample_inbox_def sample_trimmed json_Valid_def identified_def high_water_def finish_inbox_eq
        clone_inbox_eq compacted_def i nextRepositoryTime_single postgresTime_def Truncate_def Let_def)
  have "sample_inbox\<lparr>iu_ID := TrimSpace (iu_ID sample_inbox), iu_BindingID := TrimSpace (iu_BindingID sample_inbox),
      iu_Channel := ToLower id (TrimSpace (iu_Channel sample_inbox)), iu_ExternalID := TrimSpace (iu_ExternalID sample_inbox)\<rparr> = sample_inbox"
    by (simp add: sample_inbox_def sample_trimmed)
  then have f: "saved_inbox = cloneChannelInboxUpdate (sample_inbox\<lparr>iu_ID := ''inbox_fallback'', iu_Payload := ''[1,2]'',
      iu_Status := ''pending'', iu_AvailableAt := 5000, iu_CreatedAt := 5000, iu_UpdatedAt := 5000\<rparr>)"
    using s p by (simp add: SaveChannelInboxUpdate_def framed_def checked_def Let_def inbox_with_def sample_env_def)
  have "TrimSpace ''inbox_fallback'' = ''inbox_fallback''" by code_simp
  then have "SaveChannelInboxUpdate open_ctx sample_env id saved_inbox s =
      (Inr (saved_inbox\<lparr>iu_UpdatedAt := nextRepositoryTime (en_now sample_env) [iu_UpdatedAt saved_inbox]\<rparr>),
       s\<lparr>st_channelInboxUpdates := mput (iu_ID saved_inbox) (saved_inbox\<lparr>iu_UpdatedAt := nextRepositoryTime (en_now sample_env) [iu_UpdatedAt saved_inbox]\<rparr>)
         (st_channelInboxUpdates s)\<rparr>)"
    by (intro inbox_roundtrip [THEN conjunct2, OF New_reach s])
       (simp_all add: f clone_inbox_eq sample_inbox_def sample_trimmed postgresTime_def Truncate_def)
  moreover have "nextRepositoryTime (en_now sample_env) [iu_UpdatedAt saved_inbox] = 6000"
    by (simp add: f clone_inbox_eq sample_env_def nextRepositoryTime_single postgresTime_def Truncate_def)
  ultimately show ?thesis by auto
qed

text \<open>Lookups by natural key are exact. In every reachable store the lookup of a received message, a delivery or an inbox
  update by its natural key finds a record exactly when the store holds it under its identity with that key, so the
  answer does not depend on the order in which Go iterates over the map.\<close>

theorem ledger_lookups_exact:
  assumes "reach empty_store delivery_step s"
  shows "(\<forall>e n r. FindMessageReceive open_ctx e n s = (Inr (Some r), s) \<longleftrightarrow>
      mget (st_messageReceives s) (mr_ID r) = Some r \<and> mr_SourceEndpointID r = TrimSpace e \<and> mr_NativeMessageID r = TrimSpace n) \<and>
    (\<forall>o' a k d. FindMessageDeliveryByIdempotency open_ctx o' a k s = (Inr (Some d), s) \<longleftrightarrow>
      mget (st_messageDeliveries s) (md_ID d) = Some d \<and> md_OwnerID d = TrimSpace o' \<and> md_ActorID d = TrimSpace a \<and>
      dq_IdempotencyKey (md_Request d) = TrimSpace k) \<and>
    (\<forall>b x u. FindChannelInboxUpdate open_ctx b x s = (Inr (Some u), s) \<longleftrightarrow>
      mget (st_channelInboxUpdates s) (iu_ID u) = Some u \<and> iu_BindingID u = TrimSpace b \<and> iu_ExternalID u = TrimSpace x)"
proof -
  have inv: "deliveries_inv s" using ledgers.reach_inv [OF assms] .
  note t = deliveries_inv_tables [OF inv]
  have receives: "(FindMessageReceive open_ctx e n s = (Inr (Some r), s)) =
      (mget (st_messageReceives s) (mr_ID r) = Some r \<and> mr_SourceEndpointID r = TrimSpace e \<and> mr_NativeMessageID r = TrimSpace n)" for e n r
    by (simp add: cloned_finds(1) [OF inv] receive_with_find receive_ledger.find_exact [OF t(1)]) (simp add: receive_key_def)
  have deliveries: "(FindMessageDeliveryByIdempotency open_ctx o' a k s = (Inr (Some d), s)) =
      (mget (st_messageDeliveries s) (md_ID d) = Some d \<and> md_OwnerID d = TrimSpace o' \<and> md_ActorID d = TrimSpace a \<and>
       dq_IdempotencyKey (md_Request d) = TrimSpace k)" for o' a k d
    by (simp add: cloned_finds(2) [OF inv] delivery_with_find delivery_ledger.find_exact [OF t(2)]) (simp add: delivery_key_def)
  have inbox: "(FindChannelInboxUpdate open_ctx b x s = (Inr (Some u), s)) =
      (mget (st_channelInboxUpdates s) (iu_ID u) = Some u \<and> iu_BindingID u = TrimSpace b \<and> iu_ExternalID u = TrimSpace x)" for b x u
    by (simp add: cloned_finds(3) [OF inv] inbox_with_find inbox_ledger.find_exact [OF t(3)]) (simp add: inbox_key_def)
  show ?thesis using receives deliveries inbox by blast
qed

lemma ledger_lookups_exact_witness:
  "\<exists>s. FindMessageReceive open_ctx ''e1'' ''n1'' s = (Inr (Some saved_receive), s) \<and>
     mget (st_messageReceives s) (mr_ID saved_receive) = Some saved_receive"
proof -
  obtain s where s: "SaveMessageReceive open_ctx sample_env sample_receive NewMemoryStore = (Inr saved_receive, s)"
    using saved_samples(1) by blast
  have r: "reach empty_store delivery_step s" by (rule reach_step [OF New_reach step_receive]) (rule s)
  note sv = receive_saved [OF deliveries_inv_empty [OF empty_store_New] s]
  have "FindMessageReceive open_ctx ''e1'' ''n1'' s = (Inr (Some saved_receive), s)"
    using sv(5) by (simp add: cloned_finds(1) [OF sv(4)] sample_receive_def)
  then show ?thesis using ledger_lookups_exact [OF r] by blast
qed

text \<open>Reconciliation recognises committed ledger writes. A save that returned a record and is reported with unknown outcome
  reconciles to that record, for received messages, deliveries and inbox updates alike; a save reported as failed for a
  known reason stays failed.\<close>

theorem ledger_writes_reconciled:
  assumes "reach empty_store delivery_step s"
  shows "(SaveMessageReceive cx env r s = (Inr p, s') \<longrightarrow>
      ReconcileMessageReceiveWrite open_ctx s' p (Some (StoreErr StoreErrorUnknownOutcome op cause)) = Inr p) \<and>
    (SaveMessageDelivery cx env d s = (Inr q, s') \<longrightarrow>
      ReconcileMessageDeliveryWrite open_ctx s' q (Some (StoreErr StoreErrorUnknownOutcome op cause)) = Inr q) \<and>
    (SaveChannelInboxUpdate cx env unicode u s = (Inr v, s') \<longrightarrow>
      ReconcileChannelInboxUpdateWrite open_ctx s' v (Some (StoreErr StoreErrorUnknownOutcome op cause)) = Inr v) \<and>
    (StoreErrorCodeOf e \<noteq> StoreErrorUnknownOutcome \<longrightarrow> ReconcileMessageDeliveryWrite cx s q (Some e) = Inl e)"
proof -
  have inv: "deliveries_inv s" using ledgers.reach_inv [OF assms] .
  have receives: "ReconcileMessageReceiveWrite open_ctx s' p (Some (StoreErr StoreErrorUnknownOutcome op cause)) = Inr p"
    if "SaveMessageReceive cx env r s = (Inr p, s')"
    using receive_saved [OF inv that]
    by (intro receive_writes.unknown_success_complete) (simp_all add: cloned_finds(1) receive_wf_def receive_key_def)
  have deliveries: "ReconcileMessageDeliveryWrite open_ctx s' q (Some (StoreErr StoreErrorUnknownOutcome op cause)) = Inr q"
    if "SaveMessageDelivery cx env d s = (Inr q, s')"
    using delivery_saved(1-4) [OF inv that]
    by (intro delivery_writes.unknown_success_complete) (simp_all add: cloned_finds(2) delivery_wf_def delivery_key_def trimmed_key_def)
  have inbox: "ReconcileChannelInboxUpdateWrite open_ctx s' v (Some (StoreErr StoreErrorUnknownOutcome op cause)) = Inr v"
    if "SaveChannelInboxUpdate cx env unicode u s = (Inr v, s')"
    using inbox_saved(1-4) [OF inv that]
    by (intro inbox_writes.unknown_success_complete) (simp_all add: cloned_finds(3) inbox_wf_def inbox_key_def)
  have known: "ReconcileMessageDeliveryWrite cx s q (Some e) = Inl e" if "StoreErrorCodeOf e \<noteq> StoreErrorUnknownOutcome"
    by (rule delivery_writes.known_failure_stands [OF that])
  show ?thesis using receives deliveries inbox known by blast
qed

lemma ledger_writes_reconciled_witness:
  "\<exists>s. ReconcileMessageDeliveryWrite open_ctx s saved_delivery (Some (StoreErr StoreErrorUnknownOutcome ''op'' Canceled)) = Inr saved_delivery"
proof -
  obtain s where "SaveMessageDelivery open_ctx sample_env sample_delivery NewMemoryStore = (Inr saved_delivery, s)"
    using saved_samples(2) by blast
  with ledger_writes_reconciled [OF New_reach] show ?thesis by blast
qed

end
