(* ===== verification/Go_Maps.thy ===== *)
theory Go_Maps
  imports Go_Contracts
begin

text \<open>
  Deleting from a Go map, and the loops \<open>for k, v := range m\<close> that delete or rewrite entries of the map they range over:
  what is found in the map afterwards, and that a keyed map stays keyed.
\<close>

text \<open>\<open>delete(m, k)\<close>; the loop that deletes every entry a condition does not spare; the loop that rewrites every value.\<close>

definition mdel :: "'k \<Rightarrow> ('k, 'v) gomap \<Rightarrow> ('k, 'v) gomap" where
  "mdel k m = filter (\<lambda>(k', _). k' \<noteq> k) m"

definition mretain :: "('v \<Rightarrow> bool) \<Rightarrow> ('k, 'v) gomap \<Rightarrow> ('k, 'v) gomap" where
  "mretain P m = filter (\<lambda>(_, v). P v) m"

definition mrewrite :: "('v \<Rightarrow> 'v) \<Rightarrow> ('k, 'v) gomap \<Rightarrow> ('k, 'v) gomap" where
  "mrewrite f m = map (\<lambda>(k, v). (k, f v)) m"

lemma mdel_Nil [simp]: "mdel k [] = []" "mretain P [] = []" "mrewrite f [] = []"
  by (simp_all add: mdel_def mretain_def mrewrite_def)

lemma mget_mdel: "mget (mdel k m) x = (if x = k then None else mget m x)"
  by (induction m) (auto simp: mdel_def)

lemma mget_mrewrite: "mget (mrewrite f m) x = map_option f (mget m x)"
  by (induction m) (auto simp: mrewrite_def)

lemma distinct_filter_keys: "distinct (map fst m) \<Longrightarrow> distinct (map fst (filter P m))"
  by (induction m) auto

lemma mget_mretain:
  assumes "distinct (map fst m)"
  shows "mget (mretain P m) x = (case mget m x of None \<Rightarrow> None | Some v \<Rightarrow> if P v then Some v else None)"
  using assms
proof (induction m)
  case (Cons p m)
  have "mget (mretain P m) (fst p) = None"
    using Cons.prems by (auto simp: mretain_def map_of_eq_None_iff)
  then show ?case
    using Cons by (cases p) (auto simp: mretain_def map_of_eq_None_iff split: option.splits)
qed (simp add: mretain_def)

lemma keyed_mget_mretain:
  "keyed rid m \<Longrightarrow> mget (mretain P m) x = (case mget m x of None \<Rightarrow> None | Some v \<Rightarrow> if P v then Some v else None)"
  by (rule mget_mretain) (simp add: keyed_def)

lemma keyed_filter: "keyed rid m \<Longrightarrow> keyed rid (filter P m)"
  by (auto simp: keyed_def distinct_filter_keys)

lemma keyed_mdel [simp]: "keyed rid m \<Longrightarrow> keyed rid (mdel k m)"
  by (simp add: mdel_def keyed_filter)

lemma keyed_mretain [simp]: "keyed rid m \<Longrightarrow> keyed rid (mretain P m)"
  by (simp add: mretain_def keyed_filter)

lemma mkeys_mrewrite [simp]: "map fst (mrewrite f m) = map fst m"
  by (induction m) (auto simp: mrewrite_def)

lemma keyed_mrewrite: "keyed rid m \<Longrightarrow> (\<And>r. rid (f r) = rid r) \<Longrightarrow> keyed rid (mrewrite f m)"
  unfolding keyed_def mkeys_mrewrite by (auto simp: mrewrite_def)

lemma vals_mretain [simp]: "mvals (mretain P m) = filter P (mvals m)"
  by (induction m) (auto simp: mretain_def)

lemma vals_mrewrite [simp]: "mvals (mrewrite f m) = map f (mvals m)"
  by (induction m) (auto simp: mrewrite_def)

lemma vals_mdel_subset: "set (mvals (mdel k m)) \<subseteq> set (mvals m)"
  by (auto simp: mdel_def mvals_def)

lemma vals_mdel: "keyed rid m \<Longrightarrow> x \<in> set (mvals (mdel k m)) \<longleftrightarrow> x \<in> set (mvals m) \<and> rid x \<noteq> k"
  using keyed_vals [of rid m x] keyed_vals [of rid "mdel k m" x] by (auto simp: mget_mdel)

text \<open>The first entry of a keyed map with a property of its value is the first value with it.\<close>

lemma find_entry:
  assumes "keyed rid m"
  shows "find (\<lambda>(_, v). P v) m = map_option (\<lambda>v. (rid v, v)) (find P (mvals m))"
  using assms
proof (induction m)
  case (Cons p m)
  have "keyed rid m" using Cons.prems by (auto simp: keyed_def)
  then show ?case using Cons by (cases p) (auto simp: keyed_def)
qed simp

text \<open>Keys as a list, for the sets of identities a handler collects; \<open>len\<close> of what a filter deletes.\<close>

definition mkeys :: "('k, 'v) gomap \<Rightarrow> 'k list" where
  "mkeys m = map fst m"

lemma in_mkeys: "i \<in> set (mkeys m) \<longleftrightarrow> mget m i \<noteq> None"
  by (simp add: mkeys_def map_of_eq_None_iff)

end
