(* ===== verification/Session_Index.thy ===== *)
theory Session_Index
  imports Go_Contracts
begin

text \<open>
  The slice functions behind the per-session indexes of the memory store (\<open>slices.BinarySearchFunc\<close>,
  \<open>slices.Insert\<close>, \<open>slices.Delete\<close>) and the contract of such an index as a locale: \<open>place\<close> moves one record's
  identity to its position before the record is written. The locale shows that an index kept this way is
  always the session's identities in the order of the comparator, so that walking it is the same as sorting.
\<close>

section \<open>Slices\<close>

text \<open>The search halves \<open>[i, j)\<close> while it is not empty; \<open>f x\<close> is \<open>cmp(x, target)\<close>.\<close>

function bsearch :: "('a \<Rightarrow> int) \<Rightarrow> 'a list \<Rightarrow> nat \<Rightarrow> nat \<Rightarrow> nat" where
  "bsearch f xs i j =
     (if i < j
      then (let h = (i + j) div 2 in if f (xs ! h) < 0 then bsearch f xs (h + 1) j else bsearch f xs i h)
      else i)"
  by pat_completeness auto
termination
  by (relation "measure (\<lambda>(f, xs, i, j). j - i)") auto

declare bsearch.simps [simp del]

definition BinarySearchFunc :: "('a \<Rightarrow> int) \<Rightarrow> 'a list \<Rightarrow> nat \<times> bool" where
  "BinarySearchFunc f xs =
     (let i = bsearch f xs 0 (length xs) in (i, i < length xs \<and> f (xs ! i) = 0))"

definition Insert :: "'a list \<Rightarrow> nat \<Rightarrow> 'a \<Rightarrow> 'a list" where
  "Insert xs i x = take i xs @ x # drop i xs"

definition Delete :: "'a list \<Rightarrow> nat \<Rightarrow> nat \<Rightarrow> 'a list" where
  "Delete xs i j = take i xs @ drop j xs"

text \<open>On a slice that is first below the target and then not, the search returns the border.\<close>

lemma bsearch_border:
  assumes "k \<le> length xs" and "\<And>h. h < k \<Longrightarrow> f (xs ! h) < 0" and "\<And>h. k \<le> h \<Longrightarrow> h < length xs \<Longrightarrow> \<not> f (xs ! h) < 0"
  shows "i \<le> k \<Longrightarrow> k \<le> j \<Longrightarrow> j \<le> length xs \<Longrightarrow> bsearch f xs i j = k"
proof (induction "j - i" arbitrary: i j rule: less_induct)
  case less
  show ?case
  proof (cases "i < j")
    case True
    define h where "h = (i + j) div 2"
    have h: "i \<le> h" "h < j" using True by (auto simp: h_def)
    have step: "bsearch f xs i j = (if f (xs ! h) < 0 then bsearch f xs (h + 1) j else bsearch f xs i h)"
      using True by (simp add: bsearch.simps [of f xs i j] h_def Let_def)
    show ?thesis
    proof (cases "f (xs ! h) < 0")
      case True
      then have "h < k" using assms(3) [of h] h less.prems(3) by (meson leI less_le_trans)
      then show ?thesis using less.hyps [of j "h + 1"] less.prems h True by (simp add: step)
    next
      case False
      then have "k \<le> h" using assms(2) [of h] by (meson not_le)
      then show ?thesis using less.hyps [of h i] less.prems h False by (simp add: step)
    qed
  qed (use less.prems in \<open>simp add: bsearch.simps [of f xs i j]\<close>)
qed

lemma BinarySearch_split:
  assumes "\<And>x. x \<in> set as \<Longrightarrow> f x < 0" and "\<And>x. x \<in> set bs \<Longrightarrow> 0 \<le> f x"
  shows "BinarySearchFunc f (as @ bs) = (length as, bs \<noteq> [] \<and> f (hd bs) = 0)"
proof -
  have "bsearch f (as @ bs) 0 (length (as @ bs)) = length as"
    by (rule bsearch_border) (use assms in \<open>auto simp: nth_append not_less\<close>)
  then show ?thesis
    by (auto simp: BinarySearchFunc_def nth_append hd_conv_nth)
qed

lemma Insert_split [simp]: "Insert (as @ bs) (length as) x = as @ x # bs"
  by (simp add: Insert_def)

lemma Delete_split [simp]: "Delete (as @ b # bs) (length as) (length as + 1) = as @ bs"
  by (simp add: Delete_def)

section \<open>The index of a session\<close>

definition ids_at :: "(string, string list) gomap \<Rightarrow> string \<Rightarrow> string list" where
  "ids_at idx sid = (case mget idx sid of None \<Rightarrow> [] | Some ids \<Rightarrow> ids)"

text \<open>Reading a missing record gives the zero value of its type.\<close>

definition rec_at :: "'r \<Rightarrow> (string, 'r) gomap \<Rightarrow> string \<Rightarrow> 'r" where
  "rec_at zero recs i = (case mget recs i of None \<Rightarrow> zero | Some r \<Rightarrow> r)"

lemma ids_at_put [simp]: "ids_at (mput k ids idx) sid = (if sid = k then ids else ids_at idx sid)"
  by (simp add: ids_at_def mget_mput)

lemma ids_at_Nil [simp]: "ids_at [] sid = []"
  by (simp add: ids_at_def)

lemma rec_at_put: "rec_at zero (mput k r recs) i = (if i = k then r else rec_at zero recs i)"
  by (simp add: rec_at_def mget_mput)

text \<open>What an index promises: in every session exactly the identities of its records, in strict order of their keys.\<close>

definition indexed ::
  "('r \<Rightarrow> 'k :: linorder) \<Rightarrow> ('r \<Rightarrow> string) \<Rightarrow> ('r \<Rightarrow> string) \<Rightarrow> 'r \<Rightarrow> (string, 'r) gomap \<Rightarrow> (string, string list) gomap \<Rightarrow> bool" where
  "indexed key rid sess zero recs idx \<longleftrightarrow> keyed rid recs \<and>
     (\<forall>sid. (\<forall>i. i \<in> set (ids_at idx sid) \<longleftrightarrow> (\<exists>r. mget recs i = Some r \<and> sess r = sid)) \<and>
       sorted_wrt (<) (map (\<lambda>i. key (rec_at zero recs i)) (ids_at idx sid)))"

lemma indexed_empty [simp]: "indexed key rid sess zero [] []"
  by (simp add: indexed_def)

lemma sorted_split:
  assumes "sorted_wrt (<) (map g xs)"
  shows "xs = takeWhile (\<lambda>i. g i < k) xs @ dropWhile (\<lambda>i. g i < k) xs"
    and "\<And>i. i \<in> set (takeWhile (\<lambda>i. g i < k) xs) \<Longrightarrow> g i < k"
    and "\<And>i. i \<in> set (dropWhile (\<lambda>i. g i < k) xs) \<Longrightarrow> \<not> g i < (k :: 'k :: linorder)"
proof -
  let ?d = "dropWhile (\<lambda>i. g i < k) xs"
  show "xs = takeWhile (\<lambda>i. g i < k) xs @ ?d" by simp
  show "g i < k" if "i \<in> set (takeWhile (\<lambda>i. g i < k) xs)" for i
    using set_takeWhileD [OF that] by simp
  show "\<not> g i < k" if i: "i \<in> set ?d" for i
  proof (cases ?d)
    case Nil
    with i show ?thesis by simp
  next
    case (Cons y ys)
    then have y: "\<not> g y < k" by (metis dropWhile_eq_Cons_conv)
    have "sorted_wrt (<) (map g (takeWhile (\<lambda>i. g i < k) xs @ y # ys))"
      using assms Cons by (metis takeWhile_dropWhile_id)
    then have "\<forall>z \<in> set ys. g y < g z"
      by (auto simp: sorted_wrt_append)
    with y i Cons show ?thesis by auto
  qed
qed

locale session_index = record_table cmp key rid
  for cmp :: "'r \<Rightarrow> 'r \<Rightarrow> int" and key :: "'r \<Rightarrow> 'k :: linorder" and rid :: "'r \<Rightarrow> string" +
  fixes sess :: "'r \<Rightarrow> string" and zero :: 'r
    and place :: "(string, 'r) gomap \<Rightarrow> (string, string list) gomap \<Rightarrow> 'r \<Rightarrow> (string, string list) gomap"
  assumes cmp_zero: "cmp x y = 0 \<longleftrightarrow> key x = key y"
    and place_new: "mget recs (rid r) = None \<Longrightarrow>
      place recs idx r = mput (sess r)
        (Insert (ids_at idx (sess r)) (fst (BinarySearchFunc (\<lambda>i. cmp (rec_at zero recs i) r) (ids_at idx (sess r)))) (rid r)) idx"
    and place_same: "mget recs (rid r) = Some p \<Longrightarrow> sess p = sess r \<Longrightarrow> cmp p r = 0 \<Longrightarrow> place recs idx r = idx"
    and place_move: "mget recs (rid r) = Some p \<Longrightarrow> \<not> (sess p = sess r \<and> cmp p r = 0) \<Longrightarrow>
      BinarySearchFunc (\<lambda>i. cmp (rec_at zero recs i) p) (ids_at idx (sess p)) = (n, True) \<Longrightarrow>
      idx' = mput (sess p) (Delete (ids_at idx (sess p)) n (n + 1)) idx \<Longrightarrow>
      place recs idx r = mput (sess r)
        (Insert (ids_at idx' (sess r)) (fst (BinarySearchFunc (\<lambda>i. cmp (rec_at zero recs i) r) (ids_at idx' (sess r)))) (rid r)) idx'"
begin

lemma cmp_less: "cmp x y < 0 \<longleftrightarrow> key x < key y"
  using cmp_key [of x y] cmp_zero [of x y] by (auto simp: less_le)

lemma cmp_ge: "0 \<le> cmp x y \<longleftrightarrow> \<not> key x < key y"
  using cmp_less [of x y] by linarith

lemma search_split:
  assumes "sorted_wrt (<) (map (\<lambda>i. key (rec_at zero recs i)) ids)"
  obtains as bs where "ids = as @ bs" and "\<And>i. i \<in> set as \<Longrightarrow> key (rec_at zero recs i) < key r"
    and "\<And>i. i \<in> set bs \<Longrightarrow> \<not> key (rec_at zero recs i) < key r"
    and "BinarySearchFunc (\<lambda>i. cmp (rec_at zero recs i) r) ids = (length as, bs \<noteq> [] \<and> key (rec_at zero recs (hd bs)) = key r)"
proof -
  note sp = sorted_split [OF assms, where k = "key r"]
  let ?as = "takeWhile (\<lambda>i. key (rec_at zero recs i) < key r) ids"
  let ?bs = "dropWhile (\<lambda>i. key (rec_at zero recs i) < key r) ids"
  have "BinarySearchFunc (\<lambda>i. cmp (rec_at zero recs i) r) (?as @ ?bs) = (length ?as, ?bs \<noteq> [] \<and> cmp (rec_at zero recs (hd ?bs)) r = 0)"
  proof (rule BinarySearch_split)
    show "cmp (rec_at zero recs i) r < 0" if "i \<in> set ?as" for i
      unfolding cmp_less by (rule sp(2) [OF that])
    show "0 \<le> cmp (rec_at zero recs i) r" if "i \<in> set ?bs" for i
      unfolding cmp_ge by (rule sp(3) [OF that])
  qed
  then have "BinarySearchFunc (\<lambda>i. cmp (rec_at zero recs i) r) ids = (length ?as, ?bs \<noteq> [] \<and> key (rec_at zero recs (hd ?bs)) = key r)"
    by (simp only: takeWhile_dropWhile_id cmp_zero)
  from that [OF sp(1) sp(2) sp(3) this] show thesis .
qed

lemma insert_sorted:
  assumes "sorted_wrt (<) (map (\<lambda>i. key (rec_at zero recs i)) ids)" and "rid r \<notin> set ids"
    and "\<And>i. i \<in> set ids \<Longrightarrow> rid (rec_at zero recs i) = i"
    and "n = fst (BinarySearchFunc (\<lambda>i. cmp (rec_at zero recs i) r) ids)"
  shows "set (Insert ids n (rid r)) = insert (rid r) (set ids)"
    and "sorted_wrt (<) (map (\<lambda>i. key (rec_at zero (mput (rid r) r recs) i)) (Insert ids n (rid r)))"
proof -
  obtain as bs where ids: "ids = as @ bs" and as: "\<And>i. i \<in> set as \<Longrightarrow> key (rec_at zero recs i) < key r"
    and bs: "\<And>i. i \<in> set bs \<Longrightarrow> \<not> key (rec_at zero recs i) < key r"
    and n: "BinarySearchFunc (\<lambda>i. cmp (rec_at zero recs i) r) ids = (length as, bs \<noteq> [] \<and> key (rec_at zero recs (hd bs)) = key r)"
    using search_split [OF assms(1)] by metis
  have ins: "Insert ids n (rid r) = as @ rid r # bs"
    by (simp add: assms(4) n) (simp add: ids)
  then show "set (Insert ids n (rid r)) = insert (rid r) (set ids)"
    by (simp add: ids)
  have other: "rec_at zero (mput (rid r) r recs) i = rec_at zero recs i" if "i \<in> set ids" for i
    using that assms(2) by (auto simp: rec_at_put)
  have above: "key r < key (rec_at zero recs i)" if "i \<in> set bs" for i
  proof -
    have "rid (rec_at zero recs i) \<noteq> rid r"
      using assms(2) assms(3) [of i] that ids by auto
    then have "key (rec_at zero recs i) \<noteq> key r" using key_rid by blast
    with bs [OF that] show ?thesis by auto
  qed
  have "map (\<lambda>i. key (rec_at zero (mput (rid r) r recs) i)) (as @ bs) = map (\<lambda>i. key (rec_at zero recs i)) (as @ bs)"
    by (rule map_cong [OF refl]) (simp only: other ids)
  then have "sorted_wrt (<) (map (\<lambda>i. key (rec_at zero (mput (rid r) r recs) i)) (as @ bs))"
    using assms(1) by (simp only: ids)
  then show "sorted_wrt (<) (map (\<lambda>i. key (rec_at zero (mput (rid r) r recs) i)) (Insert ids n (rid r)))"
    unfolding ins using as above other by (auto simp: sorted_wrt_append ids rec_at_put)
qed

lemma delete_found:
  assumes "sorted_wrt (<) (map (\<lambda>i. key (rec_at zero recs i)) ids)" and "rid p \<in> set ids" and "rec_at zero recs (rid p) = p"
  obtains as bs where "ids = as @ rid p # bs" and "BinarySearchFunc (\<lambda>i. cmp (rec_at zero recs i) p) ids = (length as, True)"
proof -
  obtain as bs where ids: "ids = as @ bs" and as: "\<And>i. i \<in> set as \<Longrightarrow> key (rec_at zero recs i) < key p"
    and bs: "\<And>i. i \<in> set bs \<Longrightarrow> \<not> key (rec_at zero recs i) < key p"
    and n: "BinarySearchFunc (\<lambda>i. cmp (rec_at zero recs i) p) ids = (length as, bs \<noteq> [] \<and> key (rec_at zero recs (hd bs)) = key p)"
    using search_split [OF assms(1)] by metis
  have "rid p \<in> set bs" using assms(2) assms(3) as [of "rid p"] ids by auto
  then obtain b bs' where b: "bs = b # bs'" by (cases bs) auto
  have "b = rid p"
  proof (rule ccontr)
    assume "b \<noteq> rid p"
    with \<open>rid p \<in> set bs\<close> b have "rid p \<in> set bs'" by auto
    then have "key (rec_at zero recs b) < key p"
      using assms(1,3) b ids by (auto simp: sorted_wrt_append)
    with bs [of b] b show False by simp
  qed
  with that [of as bs'] ids b n assms(3) show thesis by simp
qed

lemma place_indexed:
  assumes "indexed key rid sess zero recs idx"
  shows "indexed key rid sess zero (mput (rid r) r recs) (place recs idx r)"
proof -
  have k: "keyed rid recs" and mem: "\<And>sid i. i \<in> set (ids_at idx sid) \<longleftrightarrow> (\<exists>r. mget recs i = Some r \<and> sess r = sid)"
    and sorted: "\<And>sid. sorted_wrt (<) (map (\<lambda>i. key (rec_at zero recs i)) (ids_at idx sid))"
    using assms by (auto simp: indexed_def)
  have k': "keyed rid (mput (rid r) r recs)" using keyed_put [OF k] by simp
  have rids: "rid (rec_at zero recs i) = i" if "i \<in> set (ids_at idx (sess r))" for i
    using that mem keyed_get [OF k] by (auto simp: rec_at_def)
  show ?thesis
  proof (cases "mget recs (rid r)")
    case None
    then have new: "rid r \<notin> set (ids_at idx sid)" for sid using mem by simp
    note ins = insert_sorted [OF sorted [of "sess r"] new rids refl]
    have "map (\<lambda>i. key (rec_at zero (mput (rid r) r recs) i)) (ids_at idx sid) = map (\<lambda>i. key (rec_at zero recs i)) (ids_at idx sid)" for sid
      using new by (auto simp: rec_at_put)
    then have other: "sorted_wrt (<) (map (\<lambda>i. key (rec_at zero (mput (rid r) r recs) i)) (ids_at idx sid))" for sid
      by (simp only: sorted)
    show ?thesis
      unfolding indexed_def place_new [OF None]
      using k' ins mem other None by (auto simp: mget_mput)
  next
    case (Some p)
    have p: "rid p = rid r" using keyed_get [OF k Some] .
    show ?thesis
    proof (cases "sess p = sess r \<and> cmp p r = 0")
      case True
      then have "key p = key r" by (simp add: cmp_zero)
      then have "map (\<lambda>i. key (rec_at zero (mput (rid r) r recs) i)) (ids_at idx sid) = map (\<lambda>i. key (rec_at zero recs i)) (ids_at idx sid)" for sid
        using Some by (auto simp: rec_at_def mget_mput)
      then have "sorted_wrt (<) (map (\<lambda>i. key (rec_at zero (mput (rid r) r recs) i)) (ids_at idx sid))" for sid
        by (simp only: sorted)
      moreover have "place recs idx r = idx" using place_same [OF Some] True by simp
      ultimately show ?thesis
        unfolding indexed_def using k' mem True Some by (auto simp: mget_mput)
    next
      case False
      have inp: "rid p \<in> set (ids_at idx (sess p))" using mem Some p by simp
      have recp: "rec_at zero recs (rid p) = p" using Some p by (simp add: rec_at_def)
      obtain as bs where ids: "ids_at idx (sess p) = as @ rid p # bs"
        and found: "BinarySearchFunc (\<lambda>i. cmp (rec_at zero recs i) p) (ids_at idx (sess p)) = (length as, True)"
        using delete_found [OF sorted inp recp] by metis
      define idx' where "idx' = mput (sess p) (Delete (ids_at idx (sess p)) (length as) (length as + 1)) idx"
      have at': "ids_at idx' sid = (if sid = sess p then as @ bs else ids_at idx sid)" for sid
        by (simp only: idx'_def ids_at_put ids Delete_split)
      have "distinct (map (\<lambda>i. key (rec_at zero recs i)) (as @ rid p # bs))"
        using sorted [of "sess p"] unfolding ids by (simp only: strict_sorted_iff)
      then have notin: "rid p \<notin> set (as @ bs)" by auto
      have mem': "i \<in> set (ids_at idx' sid) \<longleftrightarrow> i \<noteq> rid r \<and> (\<exists>x. mget recs i = Some x \<and> sess x = sid)" for i sid
      proof (cases "sid = sess p")
        case True
        have "i \<in> set (as @ rid p # bs) \<longleftrightarrow> (\<exists>x. mget recs i = Some x \<and> sess x = sid)"
          using mem [of i "sess p"] by (simp only: ids True)
        then show ?thesis using True notin p by (auto simp: at')
      next
        case False
        then show ?thesis using mem [of i sid] Some by (auto simp: at')
      qed
      have sorted': "sorted_wrt (<) (map (\<lambda>i. key (rec_at zero recs i)) (ids_at idx' sid))" for sid
        using sorted [of sid] ids by (auto simp: at' sorted_wrt_append)
      have new: "rid r \<notin> set (ids_at idx' sid)" for sid using mem' by simp
      have rids': "rid (rec_at zero recs i) = i" if "i \<in> set (ids_at idx' (sess r))" for i
        using that mem' keyed_get [OF k] by (auto simp: rec_at_def)
      note ins = insert_sorted [OF sorted' [of "sess r"] new rids' refl]
      have "map (\<lambda>i. key (rec_at zero (mput (rid r) r recs) i)) (ids_at idx' sid) = map (\<lambda>i. key (rec_at zero recs i)) (ids_at idx' sid)" for sid
        using new by (auto simp: rec_at_put)
      then have other: "sorted_wrt (<) (map (\<lambda>i. key (rec_at zero (mput (rid r) r recs) i)) (ids_at idx' sid))" for sid
        by (simp only: sorted')
      show ?thesis
        unfolding indexed_def place_move [OF Some False found idx'_def]
        using k' ins mem' other by (auto simp: mget_mput)
    qed
  qed
qed

text \<open>The index of a session, read as records, is its part of the table sorted by the comparator.\<close>

lemma indexed_listing:
  assumes "indexed key rid sess zero recs idx"
  shows "map (rec_at zero recs) (ids_at idx sid) = SortFunc cmp (filter (\<lambda>r. sess r = sid) (mvals recs))"
proof (rule sorted_unique)
  let ?rs = "map (rec_at zero recs) (ids_at idx sid)"
  have k: "keyed rid recs" and mem: "\<And>i. i \<in> set (ids_at idx sid) \<longleftrightarrow> (\<exists>r. mget recs i = Some r \<and> sess r = sid)"
    and sorted: "sorted_wrt (<) (map key ?rs)"
    using assms by (auto simp: indexed_def comp_def)
  show "sorted (map key ?rs)"
    using sorted by (simp only: strict_sorted_iff)
  show "inj_on key (set (filter (\<lambda>r. sess r = sid) (mvals recs)))"
    by (rule inj_on_subset [OF key_inj [OF k]]) auto
  have "distinct (map key ?rs)" using sorted by (simp only: strict_sorted_iff)
  then have "distinct ?rs" by (simp only: distinct_map)
  moreover have "distinct (filter (\<lambda>r. sess r = sid) (mvals recs))"
    using keyed_distinct_vals [OF k] by (simp add: distinct_map)
  moreover have "set ?rs = set (filter (\<lambda>r. sess r = sid) (mvals recs))"
  proof (intro equalityI subsetI)
    fix r assume "r \<in> set ?rs"
    then obtain i where "i \<in> set (ids_at idx sid)" "r = rec_at zero recs i" by auto
    then have "mget recs i = Some r" "sess r = sid" using mem by (auto simp: rec_at_def)
    then show "r \<in> set (filter (\<lambda>r. sess r = sid) (mvals recs))"
      using keyed_get [OF k] keyed_vals [OF k, of r] by simp
  next
    fix r assume "r \<in> set (filter (\<lambda>r. sess r = sid) (mvals recs))"
    then have "mget recs (rid r) = Some r" "sess r = sid" using keyed_vals [OF k, of r] by auto
    then show "r \<in> set ?rs" using mem [of "rid r"] by (force simp: rec_at_def)
  qed
  ultimately show "mset ?rs = mset (filter (\<lambda>r. sess r = sid) (mvals recs))"
    by (simp only: set_eq_iff_mset_eq_distinct)
qed

end

end
