(* ===== verification/Run_Operations.thy ===== *)
theory Run_Operations
  imports Session_Index Audit_Log
begin

text \<open>
  The run repository: preparation and reconciliation rules of \<open>internal/store/run_contract.go\<close>, the query
  check of \<open>history_recent.go\<close> and every operation of \<open>run_memory.go\<close> over runs, model calls, tool calls, run
  feedback and episode summaries. The theory \<open>Runs\<close> shows what they keep and what the readers return.
\<close>

section \<open>The contract\<close>

definition normalizeRunTime :: "gotime \<Rightarrow> gotime" where
  "normalizeRunTime t = (if IsZero t then t else Truncate t 1000)"

definition normalizeRunTimePointer :: "gotime option \<Rightarrow> gotime option" where
  "normalizeRunTimePointer t = (case t of None \<Rightarrow> None | Some t \<Rightarrow> Some (normalizeRunTime t))"

definition time_pointer_ok :: "gotime option \<Rightarrow> bool" where
  "time_pointer_ok t = (case t of None \<Rightarrow> True | Some t \<Rightarrow> json_time_ok t)"

text \<open>\<open>cloneRunJSON\<close> at its two types: refused when JSON cannot carry the record, else its normal form.\<close>

definition cloneRun :: "AgentRun \<Rightarrow> go_error + AgentRun" where
  "cloneRun run =
     (if json_time_ok (ru_StartedAt run) \<and> time_pointer_ok (ru_CompletedAt run) \<and>
         any_ok (ru_MessageContext run) \<and> any_ok (ru_Workflow run)
      then Inr (run\<lparr>ru_MessageContext := any_norm (ru_MessageContext run), ru_Workflow := any_norm (ru_Workflow run)\<rparr>)
      else Inl (Err ''json: unsupported value''))"

definition cloneToolCall :: "ToolCall \<Rightarrow> go_error + ToolCall" where
  "cloneToolCall call =
     (if json_time_ok (tc_StartedAt call) \<and> time_pointer_ok (tc_CompletedAt call) \<and>
         any_ok (tc_Arguments call) \<and> any_ok (tc_Result call)
      then Inr (call\<lparr>tc_Arguments := any_norm (tc_Arguments call), tc_Result := any_norm (tc_Result call)\<rparr>)
      else Inl (Err ''json: unsupported value''))"

definition prepareRun :: "AgentRun \<Rightarrow> gotime \<Rightarrow> go_error + AgentRun" where
  "prepareRun run now =
     (if TrimSpace (ru_ID run) = [] then Inl (Err ''run ID is required'')
      else
        let run = (if IsZero (ru_StartedAt run) then run\<lparr>ru_StartedAt := now\<rparr> else run);
            run = run\<lparr>ru_StartedAt := normalizeRunTime (ru_StartedAt run),
                      ru_CompletedAt := normalizeRunTimePointer (ru_CompletedAt run)\<rparr>
        in cloneRun run)"

definition prepareRunFeedback ::
  "8 word list option \<Rightarrow> RunFeedback \<Rightarrow> RunFeedback option \<Rightarrow> gotime \<Rightarrow> go_error + RunFeedback" where
  "prepareRunFeedback random feedback existing now =
     (if TrimSpace (fb_RunID feedback) = [] then Inl (Err ''run feedback run ID is required'')
      else
        let feedback = (if fb_ID feedback = [] then feedback\<lparr>fb_ID := NewID random ''fb''\<rparr> else feedback);
            feedback = (case existing of
                Some current \<Rightarrow> feedback\<lparr>fb_ID := fb_ID current, fb_CreatedAt := fb_CreatedAt current\<rparr>
              | None \<Rightarrow> if IsZero (fb_CreatedAt feedback) then feedback\<lparr>fb_CreatedAt := now\<rparr> else feedback)
        in Inr (feedback\<lparr>fb_CreatedAt := normalizeRunTime (fb_CreatedAt feedback), fb_UpdatedAt := normalizeRunTime now,
             fb_Rating := TrimSpace (fb_Rating feedback), fb_Note := TrimSpace (fb_Note feedback),
             fb_Correction := TrimSpace (fb_Correction feedback)\<rparr>))"

definition prepareModelCall :: "8 word list option \<Rightarrow> ModelCall \<Rightarrow> gotime \<Rightarrow> ModelCall" where
  "prepareModelCall random call now =
     (let call = (if mc_ID call = [] then call\<lparr>mc_ID := NewID random ''mc''\<rparr> else call);
          call = (if IsZero (mc_StartedAt call) then call\<lparr>mc_StartedAt := now\<rparr> else call)
      in call\<lparr>mc_StartedAt := normalizeRunTime (mc_StartedAt call),
              mc_CompletedAt := normalizeRunTimePointer (mc_CompletedAt call)\<rparr>)"

definition modelCallIsLater :: "ModelCall \<Rightarrow> ModelCall \<Rightarrow> bool" where
  "modelCallIsLater candidate current =
     (let order = time_cmp (mc_StartedAt candidate) (mc_StartedAt current)
      in if order \<noteq> 0 then 0 < order else mc_ID current < mc_ID candidate)"

definition modelCallFailed :: "ModelCall \<Rightarrow> bool" where
  "modelCallFailed call \<longleftrightarrow> mc_Status call = ModelCallStatusFailed"

definition prepareToolCall :: "ToolCall \<Rightarrow> gotime \<Rightarrow> go_error + ToolCall" where
  "prepareToolCall call now =
     (if TrimSpace (tc_ID call) = [] then Inl (Err ''tool call ID is required'')
      else
        let call = (if IsZero (tc_StartedAt call) then call\<lparr>tc_StartedAt := now\<rparr> else call);
            call = call\<lparr>tc_StartedAt := normalizeRunTime (tc_StartedAt call),
                        tc_CompletedAt := normalizeRunTimePointer (tc_CompletedAt call)\<rparr>
        in cloneToolCall call)"

text \<open>\<open>cloneEpisodeSummary\<close> only turns nil lists into empty ones, which are the same value here.\<close>

definition prepareEpisodeSummary :: "8 word list option \<Rightarrow> EpisodeSummary \<Rightarrow> gotime \<Rightarrow> EpisodeSummary" where
  "prepareEpisodeSummary random summary now =
     (let summary = (if ep_ID summary = [] then summary\<lparr>ep_ID := NewID random ''ep''\<rparr> else summary);
          summary = (if IsZero (ep_CreatedAt summary) then summary\<lparr>ep_CreatedAt := now\<rparr> else summary)
      in summary\<lparr>ep_CreatedAt := normalizeRunTime (ep_CreatedAt summary)\<rparr>)"

text \<open>\<open>runRecordsEqual\<close> compares the JSON texts, which agree exactly when the normal forms do.\<close>

definition runRecordsEqual :: "('r \<Rightarrow> go_error + 'r) \<Rightarrow> 'r \<Rightarrow> 'r \<Rightarrow> bool" where
  "runRecordsEqual clone left right = (case (clone left, clone right) of (Inr l, Inr r) \<Rightarrow> l = r | _ \<Rightarrow> False)"

abbreviation (input) MaxRecentHistoryScanLimit :: int where "MaxRecentHistoryScanLimit \<equiv> 4096"

definition validateRecentHistoryQuery :: "string \<Rightarrow> gotime \<Rightarrow> int \<Rightarrow> go_error option" where
  "validateRecentHistoryQuery sessionID cutoff scanLimit =
     (if TrimSpace sessionID = [] then Some (Err ''recent history session ID is required'')
      else if IsZero cutoff then Some (Err ''recent history cutoff is required'')
      else if scanLimit \<le> 0 \<or> scanLimit > MaxRecentHistoryScanLimit
      then Some (Err ''recent history scan limit must be between 1 and 4096'') else None)"

section \<open>Feedback\<close>

definition feedback_matches :: "RunFeedback \<Rightarrow> RunFeedback \<Rightarrow> bool" where
  "feedback_matches feedback current \<longleftrightarrow>
     fb_ID current = fb_ID feedback \<or> (fb_MessageID current \<noteq> [] \<and> fb_MessageID current = fb_MessageID feedback)"

fun first_index :: "('a \<Rightarrow> bool) \<Rightarrow> 'a list \<Rightarrow> nat option" where
  "first_index P [] = None"
| "first_index P (x # xs) = (if P x then Some 0 else map_option Suc (first_index P xs))"

definition feedback_at :: "MemoryStore \<Rightarrow> string \<Rightarrow> RunFeedback list" where
  "feedback_at s runID = (case mget (st_runFeedback s) runID of None \<Rightarrow> [] | Some items \<Rightarrow> items)"

definition SaveRunFeedback :: "op_ctx \<Rightarrow> op_env \<Rightarrow> RunFeedback \<Rightarrow> MemoryStore \<Rightarrow> RunFeedback outcome" where
  "SaveRunFeedback cx env feedback = framed ''run_feedback.save'' cx (\<lambda>s.
     let items = feedback_at s (fb_RunID feedback);
         existingIndex = first_index (feedback_matches feedback) items
     in case prepareRunFeedback (en_rand env) feedback (map_option ((!) items) existingIndex) (en_now env) of
          Inl e \<Rightarrow> (Inl (storeError ''run_feedback.save'' StoreErrorInvalid e), s)
        | Inr f \<Rightarrow>
            let items = (case existingIndex of Some i \<Rightarrow> items[i := f] | None \<Rightarrow> items @ [f])
            in (Inr f, appendEventLocked env ''run_feedback.saved'' (fb_SessionID f) (fb_RunID f) (PRunFeedback f)
                 (appendAuditLocked env ''run_feedback.saved'' (fb_SessionID f) (fb_RunID f) ''owner'' (fb_Rating f)
                   [(''feedback_id'', AnyString (fb_ID f)), (''message_id'', AnyString (fb_MessageID f)),
                    (''has_note'', AnyBool (fb_Note f \<noteq> [])), (''has_correction'', AnyBool (fb_Correction f \<noteq> []))]
                   (s\<lparr>st_runFeedback := mput (fb_RunID f) items (st_runFeedback s)\<rparr>))))"

definition feedback_cmp :: "RunFeedback \<Rightarrow> RunFeedback \<Rightarrow> int" where
  "feedback_cmp a b = (let order = time_cmp (fb_UpdatedAt b) (fb_UpdatedAt a)
     in if order \<noteq> 0 then order else str_cmp (fb_ID a) (fb_ID b))"

definition ListRunFeedback :: "op_ctx \<Rightarrow> string \<Rightarrow> MemoryStore \<Rightarrow> RunFeedback list outcome" where
  "ListRunFeedback cx runID = framed ''run_feedback.list'' cx (\<lambda>s.
     (Inr (SortFunc feedback_cmp
        (if runID \<noteq> [] then feedback_at s runID else concat (mvals (st_runFeedback s)))), s))"

section \<open>Runs\<close>

definition SaveRun :: "op_ctx \<Rightarrow> op_env \<Rightarrow> AgentRun \<Rightarrow> MemoryStore \<Rightarrow> AgentRun outcome" where
  "SaveRun cx env run s =
     checked (admitTransientContent (PRun run) s) (checked (entry_error ''run.save'' cx) (\<lambda>s.
       case prepareRun run (en_now env) of
         Inl e \<Rightarrow> (Inl (storeError ''run.save'' StoreErrorInvalid e), s)
       | Inr run \<Rightarrow> checked (locked_error ''run.save'' cx) (\<lambda>s.
           (cloneRun run, appendEventLocked env (''run.'' @ ru_State run) (ru_SessionID run) (ru_ID run) (PRun run)
             (s\<lparr>st_runs := mput (ru_ID run) run (st_runs s)\<rparr>))) s)) s"

definition GetRun :: "op_ctx \<Rightarrow> string \<Rightarrow> MemoryStore \<Rightarrow> AgentRun option outcome" where
  "GetRun cx i = framed ''run.get'' cx (\<lambda>s. case mget (st_runs s) i of
     None \<Rightarrow> (Inr None, s)
   | Some run \<Rightarrow> (case cloneRun run of
         Inl e \<Rightarrow> (Inl (storeError ''run.get'' StoreErrorCorrupt e), s)
       | Inr run \<Rightarrow> (Inr (Some run), s)))"

definition run_cmp :: "AgentRun \<Rightarrow> AgentRun \<Rightarrow> int" where
  "run_cmp a b = (let order = time_cmp (ru_StartedAt b) (ru_StartedAt a)
     in if order \<noteq> 0 then order else str_cmp (ru_ID a) (ru_ID b))"

definition ListRuns :: "op_ctx \<Rightarrow> string \<Rightarrow> MemoryStore \<Rightarrow> AgentRun list outcome" where
  "ListRuns cx sessionID = framed ''run.list'' cx (\<lambda>s.
     case clone_all cloneRun (filter (\<lambda>r. sessionID = [] \<or> ru_SessionID r = sessionID) (mvals (st_runs s))) of
       Inl e \<Rightarrow> (Inl (storeError ''run.list'' StoreErrorCorrupt e), s)
     | Inr out \<Rightarrow> (Inr (SortFunc run_cmp out), s))"

definition CountVisibleRuns :: "op_ctx \<Rightarrow> MemoryStore \<Rightarrow> int outcome" where
  "CountVisibleRuns cx = framed ''run.count_visible'' cx (\<lambda>s.
     (Inr (int (length (filter (\<lambda>r. case mget (st_sessions s) (ru_SessionID r) of
        None \<Rightarrow> False | Some session \<Rightarrow> \<not> se_Hidden session) (mvals (st_runs s))))), s))"

definition ReconcileRunWrite :: "op_ctx \<Rightarrow> MemoryStore \<Rightarrow> AgentRun \<Rightarrow> go_error option \<Rightarrow> go_error + AgentRun" where
  "ReconcileRunWrite cx s candidate writeErr = (case writeErr of
     None \<Rightarrow> Inr candidate
   | Some e \<Rightarrow>
       if StoreErrorCodeOf e \<noteq> StoreErrorUnknownOutcome \<or> TrimSpace (ru_ID candidate) = [] then Inl e
       else (case fst (GetRun cx (ru_ID candidate) s) of
           Inl err \<Rightarrow> Inl (Joined [e, err])
         | Inr None \<Rightarrow> Inl e
         | Inr (Some current) \<Rightarrow> if runRecordsEqual cloneRun current candidate then Inr current else Inl e))"

section \<open>Model calls\<close>

definition SaveModelCall :: "op_ctx \<Rightarrow> op_env \<Rightarrow> ModelCall \<Rightarrow> MemoryStore \<Rightarrow> ModelCall outcome" where
  "SaveModelCall cx env call s =
     checked (admitTransientContent (PModelCall call) s) (checked (entry_error ''model_call.save'' cx) (\<lambda>s.
       let call = prepareModelCall (en_rand env) call (en_now env)
       in checked (locked_error ''model_call.save'' cx) (\<lambda>s.
         (Inr call, appendEventLocked env (''model_call.'' @ mc_Status call) (mc_SessionID call) (mc_RunID call) (PModelCall call)
           (appendAuditLocked env (''model_call.'' @ mc_Status call) (mc_SessionID call) (mc_RunID call) ''model-router'' (mc_Model call)
             [(''lane'', AnyString (mc_Lane call)), (''profile'', AnyString (mc_Profile call)),
              (''operation'', AnyString (mc_Operation call)), (''latency_ms'', AnyNumber (of_int (mc_LatencyMS call)))]
             (s\<lparr>st_modelCalls := mput (mc_ID call) call (st_modelCalls s)\<rparr>)))) s)) s"

definition modelcall_cmp :: "ModelCall \<Rightarrow> ModelCall \<Rightarrow> int" where
  "modelcall_cmp a b = (let order = time_cmp (mc_StartedAt a) (mc_StartedAt b)
     in if order \<noteq> 0 then order else str_cmp (mc_ID a) (mc_ID b))"

definition ListModelCalls :: "op_ctx \<Rightarrow> string \<Rightarrow> string \<Rightarrow> MemoryStore \<Rightarrow> ModelCall list outcome" where
  "ListModelCalls cx sessionID runID = framed ''model_call.list'' cx (\<lambda>s.
     (Inr (SortFunc modelcall_cmp (filter (\<lambda>c. (sessionID = [] \<or> mc_SessionID c = sessionID) \<and>
        (runID = [] \<or> mc_RunID c = runID)) (mvals (st_modelCalls s)))), s))"

fun latest_by_lane :: "(string, ModelCall) gomap \<Rightarrow> ModelCall list \<Rightarrow> (string, ModelCall) gomap" where
  "latest_by_lane latest [] = latest"
| "latest_by_lane latest (call # calls) =
     latest_by_lane
       (if (case mget latest (mc_Lane call) of None \<Rightarrow> True | Some current \<Rightarrow> modelCallIsLater call current)
        then mput (mc_Lane call) call latest else latest) calls"

definition LatestModelCallsByLane :: "op_ctx \<Rightarrow> MemoryStore \<Rightarrow> (string, ModelCall) gomap outcome" where
  "LatestModelCallsByLane cx = framed ''model_call.latest_by_lane'' cx (\<lambda>s.
     (Inr (latest_by_lane [] (mvals (st_modelCalls s))), s))"

text \<open>The counters are Go \<open>int\<close> and \<open>int64\<close>, so every addition wraps at 64 bits.\<close>

definition add_stats :: "ModelCall \<Rightarrow> ModelCallStatsRecord \<Rightarrow> ModelCallStatsRecord" where
  "add_stats call stats = \<lparr>ms_Count = wrap64 (ms_Count stats + 1),
     ms_FailedCount = (if modelCallFailed call then wrap64 (ms_FailedCount stats + 1) else ms_FailedCount stats),
     ms_LatencyMSTotal = wrap64 (ms_LatencyMSTotal stats + mc_LatencyMS call),
     ms_TotalTokens = wrap64 (ms_TotalTokens stats + mc_TotalTokens call)\<rparr>"

definition ModelCallStats :: "op_ctx \<Rightarrow> MemoryStore \<Rightarrow> ModelCallStatsRecord outcome" where
  "ModelCallStats cx = framed ''model_call.stats'' cx (\<lambda>s.
     (Inr (fold add_stats (mvals (st_modelCalls s))
        \<lparr>ms_Count = 0, ms_FailedCount = 0, ms_LatencyMSTotal = 0, ms_TotalTokens = 0\<rparr>), s))"

section \<open>Tool calls\<close>

definition compareToolCallsAscending :: "ToolCall \<Rightarrow> ToolCall \<Rightarrow> int" where
  "compareToolCallsAscending left right = (let order = time_cmp (tc_StartedAt left) (tc_StartedAt right)
     in if order \<noteq> 0 then order else str_cmp (tc_ID left) (tc_ID right))"

definition zero_ToolCall :: ToolCall where
  "zero_ToolCall = \<lparr>tc_ID = [], tc_SessionID = [], tc_RunID = [], tc_Tool = [], tc_Risk = [], tc_Status = [],
     tc_Arguments = AnyNil, tc_Result = AnyNil, tc_Error = [], tc_ErrorCode = [], tc_ApprovalID = [], tc_StartedAt = 0,
     tc_CompletedAt = None, tc_ObservationRef = [], tc_ObservationSummary = [], tc_WorkflowID = [],
     tc_WorkflowNodeID = [], tc_ScopeRevision = 0, tc_Capability = [], tc_PolicyContext = None, tc_Progress = []\<rparr>"

text \<open>The move of one identity in the per-session index, with the index returned; \<open>calls\<close> is \<open>s.toolCalls\<close>
  before the record is replaced.\<close>

definition indexToolCallLocked ::
  "(string, ToolCall) gomap \<Rightarrow> (string, string list) gomap \<Rightarrow> ToolCall \<Rightarrow> (string, string list) gomap" where
  "indexToolCallLocked calls idx call =
     (let compare = (\<lambda>target i. compareToolCallsAscending (rec_at zero_ToolCall calls i) target);
          insert_id = (\<lambda>idx. let ids = ids_at idx (tc_SessionID call); index = fst (BinarySearchFunc (compare call) ids)
             in mput (tc_SessionID call) (Insert ids index (tc_ID call)) idx)
      in case mget calls (tc_ID call) of
           Some previous \<Rightarrow>
             if tc_SessionID previous = tc_SessionID call \<and> compareToolCallsAscending previous call = 0 then idx
             else (let previousIDs = ids_at idx (tc_SessionID previous)
                   in case BinarySearchFunc (compare previous) previousIDs of (index, found) \<Rightarrow>
                        insert_id (if found then mput (tc_SessionID previous) (Delete previousIDs index (index + 1)) idx else idx))
         | None \<Rightarrow> insert_id idx)"

definition SaveToolCall :: "op_ctx \<Rightarrow> op_env \<Rightarrow> ToolCall \<Rightarrow> MemoryStore \<Rightarrow> ToolCall outcome" where
  "SaveToolCall cx env call s =
     checked (admitTransientContent (PToolCall call) s) (checked (entry_error ''tool_call.save'' cx) (\<lambda>s.
       case prepareToolCall call (en_now env) of
         Inl e \<Rightarrow> (Inl (storeError ''tool_call.save'' StoreErrorInvalid e), s)
       | Inr call \<Rightarrow> checked (locked_error ''tool_call.save'' cx) (\<lambda>s.
           (cloneToolCall call,
            appendEventLocked env (''tool_call.'' @ tc_Status call) (tc_SessionID call) (tc_RunID call) (PToolCall call)
              (appendAuditLocked env (''tool_call.'' @ tc_Status call) (tc_SessionID call) (tc_RunID call) ''agent'' (tc_Tool call)
                [(''risk'', AnyString (tc_Risk call)), (''id'', AnyString (tc_ID call))]
                (s\<lparr>st_toolCallIDsBySession := indexToolCallLocked (st_toolCalls s) (st_toolCallIDsBySession s) call,
                   st_toolCalls := mput (tc_ID call) call (st_toolCalls s)\<rparr>)))) s)) s"

definition GetToolCall :: "op_ctx \<Rightarrow> string \<Rightarrow> MemoryStore \<Rightarrow> ToolCall option outcome" where
  "GetToolCall cx i = framed ''tool_call.get'' cx (\<lambda>s. case mget (st_toolCalls s) i of
     None \<Rightarrow> (Inr None, s)
   | Some call \<Rightarrow> (case cloneToolCall call of
         Inl e \<Rightarrow> (Inl (storeError ''tool_call.get'' StoreErrorCorrupt e), s)
       | Inr call \<Rightarrow> (Inr (Some call), s)))"

definition ListToolCalls :: "op_ctx \<Rightarrow> string \<Rightarrow> MemoryStore \<Rightarrow> ToolCall list outcome" where
  "ListToolCalls cx sessionID = framed ''tool_call.list'' cx (\<lambda>s.
     case clone_all cloneToolCall (filter (\<lambda>c. sessionID = [] \<or> tc_SessionID c = sessionID) (mvals (st_toolCalls s))) of
       Inl e \<Rightarrow> (Inl (storeError ''tool_call.list'' StoreErrorCorrupt e), s)
     | Inr out \<Rightarrow> (Inr (SortFunc compareToolCallsAscending out), s))"

text \<open>The loop of \<open>ListRecentToolCalls\<close> over the index, newest identity first; \<open>n\<close> is the room left.\<close>

definition recent_tool_call :: "gotime \<Rightarrow> string \<Rightarrow> ToolCall \<Rightarrow> bool" where
  "recent_tool_call cutoff excludeRunID call \<longleftrightarrow>
     \<not> (tc_RunID call = excludeRunID \<or> cutoff < tc_StartedAt call \<or>
        (case tc_CompletedAt call of None \<Rightarrow> True | Some t \<Rightarrow> cutoff < t))"

fun scan_recent :: "(ToolCall \<Rightarrow> bool) \<Rightarrow> (string, ToolCall) gomap \<Rightarrow> nat \<Rightarrow> string list \<Rightarrow> go_error + ToolCall list" where
  "scan_recent keep calls 0 ids = Inr []"
| "scan_recent keep calls (Suc n) [] = Inr []"
| "scan_recent keep calls (Suc n) (i # ids) =
     (let call = rec_at zero_ToolCall calls i
      in if \<not> keep call then scan_recent keep calls (Suc n) ids
         else (case cloneToolCall call of
             Inl e \<Rightarrow> Inl e
           | Inr c \<Rightarrow> (case scan_recent keep calls n ids of Inl e \<Rightarrow> Inl e | Inr cs \<Rightarrow> Inr (c # cs))))"

definition ListRecentToolCalls ::
  "op_ctx \<Rightarrow> string \<Rightarrow> gotime \<Rightarrow> string \<Rightarrow> int \<Rightarrow> MemoryStore \<Rightarrow> ToolCall list outcome" where
  "ListRecentToolCalls cx sessionID cutoff excludeRunID scanLimit =
     checked (entry_error ''tool_call.list_recent'' cx) (\<lambda>s.
       case validateRecentHistoryQuery sessionID cutoff scanLimit of
         Some e \<Rightarrow> (Inl (storeError ''tool_call.list_recent'' StoreErrorInvalid e), s)
       | None \<Rightarrow> checked (locked_error ''tool_call.list_recent'' cx) (\<lambda>s.
           case scan_recent (recent_tool_call cutoff excludeRunID) (st_toolCalls s) (nat scanLimit)
               (rev (ids_at (st_toolCallIDsBySession s) sessionID)) of
             Inl e \<Rightarrow> (Inl (storeError ''tool_call.list_recent'' StoreErrorCorrupt e), s)
           | Inr out \<Rightarrow> (Inr out, s)) s)"

definition CountToolCalls :: "op_ctx \<Rightarrow> MemoryStore \<Rightarrow> int outcome" where
  "CountToolCalls cx = framed ''tool_call.count'' cx (\<lambda>s. (Inr (int (length (st_toolCalls s))), s))"

definition ReconcileToolCallWrite :: "op_ctx \<Rightarrow> MemoryStore \<Rightarrow> ToolCall \<Rightarrow> go_error option \<Rightarrow> go_error + ToolCall" where
  "ReconcileToolCallWrite cx s candidate writeErr = (case writeErr of
     None \<Rightarrow> Inr candidate
   | Some e \<Rightarrow>
       if StoreErrorCodeOf e \<noteq> StoreErrorUnknownOutcome \<or> TrimSpace (tc_ID candidate) = [] then Inl e
       else (case fst (GetToolCall cx (tc_ID candidate) s) of
           Inl err \<Rightarrow> Inl (Joined [e, err])
         | Inr None \<Rightarrow> Inl e
         | Inr (Some current) \<Rightarrow> if runRecordsEqual cloneToolCall current candidate then Inr current else Inl e))"

section \<open>Episode summaries\<close>

definition compareEpisodeSummariesNewestFirst :: "EpisodeSummary \<Rightarrow> EpisodeSummary \<Rightarrow> int" where
  "compareEpisodeSummariesNewestFirst left right = (let order = time_cmp (ep_CreatedAt right) (ep_CreatedAt left)
     in if order \<noteq> 0 then order else str_cmp (ep_ID left) (ep_ID right))"

definition zero_EpisodeSummary :: EpisodeSummary where
  "zero_EpisodeSummary = \<lparr>ep_ID = [], ep_SessionID = [], ep_RunID = [], ep_Goal = [], ep_Outcome = [], ep_Risk = [],
     ep_ModelLane = [], ep_Tools = [], ep_Approvals = [], ep_Failures = [], ep_RepairPerformed = False, ep_Summary = [],
     ep_CreatedAt = 0\<rparr>"

definition indexEpisodeSummaryLocked ::
  "(string, EpisodeSummary) gomap \<Rightarrow> (string, string list) gomap \<Rightarrow> EpisodeSummary \<Rightarrow> (string, string list) gomap" where
  "indexEpisodeSummaryLocked summaries idx summary =
     (let compare = (\<lambda>target i. compareEpisodeSummariesNewestFirst (rec_at zero_EpisodeSummary summaries i) target);
          insert_id = (\<lambda>idx. let ids = ids_at idx (ep_SessionID summary); index = fst (BinarySearchFunc (compare summary) ids)
             in mput (ep_SessionID summary) (Insert ids index (ep_ID summary)) idx)
      in case mget summaries (ep_ID summary) of
           Some previous \<Rightarrow>
             if ep_SessionID previous = ep_SessionID summary \<and> compareEpisodeSummariesNewestFirst previous summary = 0 then idx
             else (let previousIDs = ids_at idx (ep_SessionID previous)
                   in case BinarySearchFunc (compare previous) previousIDs of (index, found) \<Rightarrow>
                        insert_id (if found then mput (ep_SessionID previous) (Delete previousIDs index (index + 1)) idx else idx))
         | None \<Rightarrow> insert_id idx)"

definition SaveEpisodeSummary :: "op_ctx \<Rightarrow> op_env \<Rightarrow> EpisodeSummary \<Rightarrow> MemoryStore \<Rightarrow> EpisodeSummary outcome" where
  "SaveEpisodeSummary cx env summary =
     checked (entry_error ''episode_summary.save'' cx) (\<lambda>s.
       let summary = prepareEpisodeSummary (en_rand env) summary (en_now env)
       in checked (locked_error ''episode_summary.save'' cx) (\<lambda>s.
         (Inr summary,
          appendEventLocked env ''episode_summary.saved'' (ep_SessionID summary) (ep_RunID summary) (PEpisodeSummary summary)
            (appendAuditLocked env ''episode_summary.saved'' (ep_SessionID summary) (ep_RunID summary) ''runtime'' (ep_Outcome summary)
              [(''tools'', AnyStrings (ep_Tools summary)), (''repair_performed'', AnyBool (ep_RepairPerformed summary))]
              (s\<lparr>st_episodeIDsBySession := indexEpisodeSummaryLocked (st_episodeSummaries s) (st_episodeIDsBySession s) summary,
                 st_episodeSummaries := mput (ep_ID summary) summary (st_episodeSummaries s)\<rparr>)))) s)"

definition ListEpisodeSummaries :: "op_ctx \<Rightarrow> string \<Rightarrow> MemoryStore \<Rightarrow> EpisodeSummary list outcome" where
  "ListEpisodeSummaries cx sessionID = framed ''episode_summary.list'' cx (\<lambda>s.
     (Inr (SortFunc compareEpisodeSummariesNewestFirst
        (filter (\<lambda>e. sessionID = [] \<or> ep_SessionID e = sessionID) (mvals (st_episodeSummaries s)))), s))"

fun scan_episodes :: "gotime \<Rightarrow> (string, EpisodeSummary) gomap \<Rightarrow> nat \<Rightarrow> string list \<Rightarrow> EpisodeSummary list" where
  "scan_episodes cutoff summaries 0 ids = []"
| "scan_episodes cutoff summaries (Suc n) [] = []"
| "scan_episodes cutoff summaries (Suc n) (i # ids) =
     (let summary = rec_at zero_EpisodeSummary summaries i
      in if cutoff < ep_CreatedAt summary then scan_episodes cutoff summaries (Suc n) ids
         else summary # scan_episodes cutoff summaries n ids)"

definition ListRecentEpisodeSummaries ::
  "op_ctx \<Rightarrow> string \<Rightarrow> gotime \<Rightarrow> int \<Rightarrow> MemoryStore \<Rightarrow> EpisodeSummary list outcome" where
  "ListRecentEpisodeSummaries cx sessionID cutoff scanLimit =
     checked (entry_error ''episode_summary.list_recent'' cx) (\<lambda>s.
       case validateRecentHistoryQuery sessionID cutoff scanLimit of
         Some e \<Rightarrow> (Inl (storeError ''episode_summary.list_recent'' StoreErrorInvalid e), s)
       | None \<Rightarrow> checked (locked_error ''episode_summary.list_recent'' cx) (\<lambda>s.
           (Inr (scan_episodes cutoff (st_episodeSummaries s) (nat scanLimit) (ids_at (st_episodeIDsBySession s) sessionID)), s)) s)"

definition CountEpisodeSummaries :: "op_ctx \<Rightarrow> MemoryStore \<Rightarrow> int outcome" where
  "CountEpisodeSummaries cx = framed ''episode_summary.count'' cx (\<lambda>s. (Inr (int (length (st_episodeSummaries s))), s))"

end
