(* ===== verification/Session_Operations.thy ===== *)
theory Session_Operations
  imports Go_Maps Run_Operations
begin

text \<open>
  Sessions and their conversations: \<open>internal/store/session_contract.go\<close>, \<open>session_memory.go\<close>, \<open>conversation_contract.go\<close>,
  \<open>conversation_memory.go\<close> and \<open>workbench_draft.go\<close>. Deleting a session is one operation that removes what the session owns from
  every table. The theory \<open>Sessions\<close> shows what the operations guarantee.
\<close>

section \<open>Session records\<close>

text \<open>The error texts leave out the two values that the code formats into the first one. Every time of the model is in UTC.\<close>

definition validSessionTime :: "gotime \<Rightarrow> bool" where
  "validSessionTime t \<longleftrightarrow> \<not> IsZero t \<and> t mod second mod 1000 = 0"

definition validatePersistedSession :: "string \<Rightarrow> Session \<Rightarrow> go_error option" where
  "validatePersistedSession key se =
     (if TrimSpace key = [] \<or> key \<noteq> se_ID se then Some (Err ''session key does not match embedded ID'')
      else if length (se_ID se) > 256 then Some (Err ''session ID exceeds 256 bytes'')
      else if TrimSpace (se_OwnerID se) = [] \<or> TrimSpace (se_Title se) = [] \<or> TrimSpace (se_Source se) = []
      then Some (Err ''session owner, title, and source are required'')
      else if se_OwnerID se \<noteq> TrimSpace (se_OwnerID se) \<or> se_Source se \<noteq> TrimSpace (se_Source se) \<or>
        se_WorkspaceRoot se \<noteq> TrimSpace (se_WorkspaceRoot se)
      then Some (Err ''session owner, source, and workspace must be normalized'')
      else if \<not> validSessionTime (se_CreatedAt se) \<or> \<not> validSessionTime (se_UpdatedAt se)
      then Some (Err ''session timestamps must be nonzero UTC microseconds'')
      else if se_UpdatedAt se < se_CreatedAt se then Some (Err ''session update time precedes creation time'')
      else None)"

fun nextSessionTime_from :: "gotime \<Rightarrow> gotime list \<Rightarrow> gotime" where
  "nextSessionTime_from t [] = t"
| "nextSessionTime_from t (f # fs) = nextSessionTime_from (if \<not> normalizeSessionTime f < t then normalizeSessionTime f + 1000 else t) fs"

definition nextSessionTime :: "gotime \<Rightarrow> gotime list \<Rightarrow> gotime" where
  "nextSessionTime now floors = nextSessionTime_from (normalizeSessionTime now) floors"

definition prepareSession ::
  "8 word list option \<Rightarrow> string \<Rightarrow> string \<Rightarrow> string \<Rightarrow> string \<Rightarrow> bool \<Rightarrow> gotime \<Rightarrow> go_error + Session" where
  "prepareSession random title ownerID workspaceRoot source hidden now =
     (let se = \<lparr>se_ID = NewID random ''s'',
            se_OwnerID = (if TrimSpace ownerID = [] then ''owner'' else TrimSpace ownerID),
            se_WorkspaceRoot = TrimSpace workspaceRoot,
            se_Title = (if TrimSpace title = [] then ''New SparkClaw Session'' else title),
            se_Source = (if TrimSpace source = [] then ''webchat'' else TrimSpace source),
            se_Hidden = hidden, se_CreatedAt = normalizeSessionTime now, se_UpdatedAt = normalizeSessionTime now\<rparr>
      in case validatePersistedSession (se_ID se) se of Some e \<Rightarrow> Inl e | None \<Rightarrow> Inr se)"

text \<open>\<open>s.sessionWriteHighWater[id]\<close>; a missing entry is the zero time.\<close>

definition session_floor :: "MemoryStore \<Rightarrow> string \<Rightarrow> gotime" where
  "session_floor s i = (case mget (st_sessionWriteHighWater s) i of None \<Rightarrow> 0 | Some t \<Rightarrow> t)"

definition put_session :: "string \<Rightarrow> Session \<Rightarrow> MemoryStore \<Rightarrow> MemoryStore" where
  "put_session i se s = s\<lparr>st_sessionWriteHighWater := mput i (se_UpdatedAt se) (st_sessionWriteHighWater s),
     st_sessions := mput i se (st_sessions s)\<rparr>"

definition createSession ::
  "op_ctx \<Rightarrow> op_env \<Rightarrow> string \<Rightarrow> string \<Rightarrow> string \<Rightarrow> string \<Rightarrow> string \<Rightarrow> bool \<Rightarrow> MemoryStore \<Rightarrow> Session outcome" where
  "createSession cx env operation title ownerID workspaceRoot source hidden = checked (entry_error operation cx) (\<lambda>s.
     case prepareSession (en_rand env) title ownerID workspaceRoot source hidden (en_now env) of
       Inl e \<Rightarrow> (Inl (storeError operation StoreErrorInvalid e), s)
     | Inr se \<Rightarrow> checked (locked_error operation cx) (\<lambda>s.
         if mget (st_sessions s) (se_ID se) \<noteq> None
         then (Inl (storeError operation StoreErrorConflict (Err ''session ID already exists'')), s)
         else (Inr se, appendEventLocked env ''session.created'' (se_ID se) [] (PSession se)
           (appendAuditLocked env ''session.created'' (se_ID se) [] ''system'' ''Session created''
             [(''title'', AnyString (se_Title se)), (''owner_id'', AnyString (se_OwnerID se))]
             (put_session (se_ID se) se s)))) s)"

definition CreateSession :: "op_ctx \<Rightarrow> op_env \<Rightarrow> string \<Rightarrow> MemoryStore \<Rightarrow> Session outcome" where
  "CreateSession cx env title = createSession cx env ''session.create'' title ''owner'' [] ''webchat'' False"

definition CreateSessionWithScope ::
  "op_ctx \<Rightarrow> op_env \<Rightarrow> string \<Rightarrow> string \<Rightarrow> string \<Rightarrow> string \<Rightarrow> bool \<Rightarrow> MemoryStore \<Rightarrow> Session outcome" where
  "CreateSessionWithScope cx env title ownerID workspaceRoot source hidden =
     createSession cx env ''session.create_with_scope'' title ownerID workspaceRoot source hidden"

definition session_cmp :: "Session \<Rightarrow> Session \<Rightarrow> int" where
  "session_cmp a b = (let order = time_cmp (se_UpdatedAt b) (se_UpdatedAt a)
     in if order \<noteq> 0 then order else str_cmp (se_ID a) (se_ID b))"

definition ListSessions :: "op_ctx \<Rightarrow> MemoryStore \<Rightarrow> Session list outcome" where
  "ListSessions cx = framed ''session.list'' cx (\<lambda>s.
     case List.map_filter (\<lambda>(i, se). validatePersistedSession i se) (st_sessions s) of
       e # _ \<Rightarrow> (Inl (storeError ''session.list'' StoreErrorCorrupt e), s)
     | [] \<Rightarrow> (Inr (SortFunc session_cmp (filter (\<lambda>se. \<not> se_Hidden se) (mvals (st_sessions s)))), s))"

definition GetSession :: "op_ctx \<Rightarrow> string \<Rightarrow> MemoryStore \<Rightarrow> Session option outcome" where
  "GetSession cx i = framed ''session.get'' cx (\<lambda>s.
     case mget (st_sessions s) i of
       None \<Rightarrow> (Inr None, s)
     | Some se \<Rightarrow> (case validatePersistedSession i se of
         Some e \<Rightarrow> (Inl (storeError ''session.get'' StoreErrorCorrupt e), s)
       | None \<Rightarrow> (Inr (Some se), s)))"

definition UpdateSessionTitle :: "op_ctx \<Rightarrow> op_env \<Rightarrow> string \<Rightarrow> string \<Rightarrow> MemoryStore \<Rightarrow> Session outcome" where
  "UpdateSessionTitle cx env i title = checked (entry_error ''session.update_title'' cx) (\<lambda>s.
     if TrimSpace i = [] then (Inl (storeError ''session.update_title'' StoreErrorInvalid (Err ''session ID is required'')), s)
     else if TrimSpace title = [] then (Inl (storeError ''session.update_title'' StoreErrorInvalid (Err ''session title is required'')), s)
     else checked (locked_error ''session.update_title'' cx) (\<lambda>s.
       case mget (st_sessions s) i of
         None \<Rightarrow> (Inl (storeError ''session.update_title'' StoreErrorNotFound (Err ''session not found'')), s)
       | Some se \<Rightarrow> (case validatePersistedSession i se of
           Some e \<Rightarrow> (Inl (storeError ''session.update_title'' StoreErrorCorrupt e), s)
         | None \<Rightarrow>
             if TrimSpace (se_Source se) = ''mcp''
             then (Inl (storeError ''session.update_title'' StoreErrorConflict (Err ''MCP session title is binding-owned'')), s)
             else let se = se\<lparr>se_Title := TrimSpace title,
                    se_UpdatedAt := nextSessionTime (en_now env) [se_UpdatedAt se, session_floor s i]\<rparr>
                  in (Inr se, appendEventLocked env ''session.updated'' i [] (PSession se)
                        (appendAuditLocked env ''session.updated'' i [] ''owner'' ''Session renamed''
                          [(''title'', AnyString (TrimSpace title))] (put_session i se s))))) s)"

definition sessionsEqual :: "Session \<Rightarrow> Session \<Rightarrow> bool" where
  "sessionsEqual left right \<longleftrightarrow> se_ID left = se_ID right \<and> se_OwnerID left = se_OwnerID right \<and>
     se_WorkspaceRoot left = se_WorkspaceRoot right \<and> se_Title left = se_Title right \<and> se_Source left = se_Source right \<and>
     se_Hidden left = se_Hidden right \<and> se_CreatedAt left = se_CreatedAt right \<and> se_UpdatedAt left = se_UpdatedAt right"

definition ReconcileSessionWrite :: "op_ctx \<Rightarrow> MemoryStore \<Rightarrow> Session \<Rightarrow> go_error option \<Rightarrow> go_error + Session" where
  "ReconcileSessionWrite cx s candidate writeErr = (case writeErr of
     None \<Rightarrow> Inr candidate
   | Some e \<Rightarrow>
       if StoreErrorCodeOf e \<noteq> StoreErrorUnknownOutcome \<or> TrimSpace (se_ID candidate) = [] then Inl e
       else (case fst (GetSession cx (se_ID candidate) s) of
           Inl err \<Rightarrow> Inl (Joined [e, err])
         | Inr None \<Rightarrow> Inl e
         | Inr (Some stored) \<Rightarrow> if sessionsEqual stored candidate then Inr stored else Inl e))"

definition ReconcileSessionDelete :: "op_ctx \<Rightarrow> MemoryStore \<Rightarrow> Session \<Rightarrow> go_error option \<Rightarrow> go_error + Session" where
  "ReconcileSessionDelete cx s candidate deleteErr = (case deleteErr of
     None \<Rightarrow> Inr candidate
   | Some e \<Rightarrow>
       if StoreErrorCodeOf e \<noteq> StoreErrorUnknownOutcome \<or> TrimSpace (se_ID candidate) = [] then Inl e
       else (case fst (GetSession cx (se_ID candidate) s) of
           Inl err \<Rightarrow> Inl (Joined [e, err])
         | Inr None \<Rightarrow> Inr candidate
         | Inr (Some _) \<Rightarrow> Inl e))"

section \<open>Drafts of the workbench\<close>

abbreviation (input) MaxWorkbenchDraftBytes :: nat where "MaxWorkbenchDraftBytes \<equiv> 65536"
abbreviation (input) MaxWorkbenchDraftAttachments :: nat where "MaxWorkbenchDraftAttachments \<equiv> 32"

definition validateWorkbenchDraftScope :: "string \<Rightarrow> string \<Rightarrow> go_error option" where
  "validateWorkbenchDraftScope ownerID sessionID =
     (if ownerID = [] \<or> ownerID \<noteq> TrimSpace ownerID \<or> sessionID \<noteq> TrimSpace sessionID \<or> length ownerID > 256 \<or>
        length sessionID > 256 \<or> CHR 0x00 \<in> set (ownerID @ sessionID)
      then Some (Err ''invalid workbench draft scope'') else None)"

definition validateWorkbenchDraft :: "WorkbenchDraft \<Rightarrow> go_error option" where
  "validateWorkbenchDraft d =
     (if \<not> ValidString (wd_Content d) \<or> CHR 0x00 \<in> set (wd_Content d) \<or> wd_Revision d < 0 \<or>
        wd_Revision d \<ge> 9007199254740991 \<or> length (wd_Content d) > MaxWorkbenchDraftBytes \<or>
        length (wd_AttachmentIDs d) > MaxWorkbenchDraftAttachments
      then Some (Err ''workbench draft exceeds its content, attachment or revision limit'')
      else if \<exists>i \<in> set (wd_AttachmentIDs d). i = [] \<or> \<not> ValidString i \<or> length i > 4096 \<or> CHR 0x00 \<in> set i
      then Some (Err ''invalid draft attachment reference'') else None)"

text \<open>\<open>errors.Join\<close> of two errors that may be nil.\<close>

definition join2 :: "go_error option \<Rightarrow> go_error option \<Rightarrow> go_error option" where
  "join2 a b = (case (a, b) of (None, None) \<Rightarrow> None | (Some x, None) \<Rightarrow> Some (Joined [x]) | (None, Some y) \<Rightarrow> Some (Joined [y])
     | (Some x, Some y) \<Rightarrow> Some (Joined [x, y]))"

definition draftSessionLocked :: "string \<Rightarrow> string \<Rightarrow> MemoryStore \<Rightarrow> bool" where
  "draftSessionLocked ownerID sessionID s \<longleftrightarrow> sessionID = [] \<or>
     (case mget (st_sessions s) sessionID of None \<Rightarrow> False | Some se \<Rightarrow> se_OwnerID se = ownerID \<and> se_Source se \<noteq> ''mcp'')"

definition draft_at :: "string \<Rightarrow> string \<Rightarrow> MemoryStore \<Rightarrow> WorkbenchDraft" where
  "draft_at ownerID sessionID s = (case mget (st_workbenchDrafts s) (ownerID, sessionID) of
     None \<Rightarrow> \<lparr>wd_Content = [], wd_AttachmentIDs = [], wd_Revision = 0, wd_UpdatedAt = 0\<rparr> | Some d \<Rightarrow> d)"

definition GetWorkbenchDraft :: "op_ctx \<Rightarrow> string \<Rightarrow> string \<Rightarrow> MemoryStore \<Rightarrow> WorkbenchDraft outcome" where
  "GetWorkbenchDraft cx ownerID sessionID = checked (entry_error ''workbench_draft.get'' cx) (\<lambda>s.
     case validateWorkbenchDraftScope ownerID sessionID of
       Some e \<Rightarrow> (Inl (storeError ''workbench_draft.get'' StoreErrorInvalid e), s)
     | None \<Rightarrow> checked (locked_error ''workbench_draft.get'' cx) (\<lambda>s.
         if \<not> draftSessionLocked ownerID sessionID s
         then (Inl (storeError ''workbench_draft.get'' StoreErrorNotFound (Err ''draft session not found'')), s)
         else (Inr (draft_at ownerID sessionID s), s)) s)"

definition SaveWorkbenchDraft ::
  "op_ctx \<Rightarrow> op_env \<Rightarrow> string \<Rightarrow> string \<Rightarrow> WorkbenchDraft \<Rightarrow> MemoryStore \<Rightarrow> WorkbenchDraft outcome" where
  "SaveWorkbenchDraft cx env ownerID sessionID draft = checked (entry_error ''workbench_draft.save'' cx) (\<lambda>s.
     case join2 (validateWorkbenchDraftScope ownerID sessionID) (validateWorkbenchDraft draft) of
       Some e \<Rightarrow> (Inl (storeError ''workbench_draft.save'' StoreErrorInvalid e), s)
     | None \<Rightarrow> checked (locked_error ''workbench_draft.save'' cx) (\<lambda>s.
         if \<not> draftSessionLocked ownerID sessionID s
         then (Inl (storeError ''workbench_draft.save'' StoreErrorNotFound (Err ''draft session not found'')), s)
         else
           let current = draft_at ownerID sessionID s
           in if wd_Revision current \<noteq> wd_Revision draft
              then (Inl (storeError ''workbench_draft.save'' StoreErrorConflict (Err ''workbench draft revision changed'')), s)
              else let d = draft\<lparr>wd_Revision := wd_Revision draft + 1,
                         wd_UpdatedAt := nextRepositoryTime (en_now env) [wd_UpdatedAt current]\<rparr>
                   in (Inr d, s\<lparr>st_workbenchDrafts := mput (ownerID, sessionID) d (st_workbenchDrafts s)\<rparr>)) s)"

section \<open>Conversations\<close>

definition prepareMessage :: "8 word list option \<Rightarrow> Message \<Rightarrow> gotime \<Rightarrow> go_error + Message" where
  "prepareMessage random m now =
     (if TrimSpace (msg_SessionID m) = [] then Inl (Err ''message session ID is required'')
      else Inr (m\<lparr>msg_ID := (if TrimSpace (msg_ID m) = [] then NewID random ''m'' else msg_ID m),
        msg_CreatedAt := Truncate (if IsZero (msg_CreatedAt m) then now else msg_CreatedAt m) 1000\<rparr>))"

definition findMessageByID :: "(string, Message list) gomap \<Rightarrow> string \<Rightarrow> Message option" where
  "findMessageByID values' i = find (\<lambda>m. msg_ID m = i) (concat (mvals values'))"

definition compareMessagesAscending :: "Message \<Rightarrow> Message \<Rightarrow> int" where
  "compareMessagesAscending left right = (let compared = time_cmp (msg_CreatedAt left) (msg_CreatedAt right)
     in if compared \<noteq> 0 then compared else str_cmp (msg_ID left) (msg_ID right))"

definition messages_at :: "string \<Rightarrow> MemoryStore \<Rightarrow> Message list" where
  "messages_at sessionID s = (case mget (st_messages s) sessionID of None \<Rightarrow> [] | Some ms \<Rightarrow> ms)"

definition deriveTitle :: "string \<Rightarrow> string" where
  "deriveTitle content =
     (let content = TrimSpace content; rs = runes content
      in if content = [] then ''New SparkClaw Session''
         else if length rs > 42 then concat (take 42 rs) @ ''...'' else content)"

text \<open>What a message makes of its session: a later update time and, for a visible session without one, a title.\<close>

definition messaged_session :: "MemoryStore \<Rightarrow> Message \<Rightarrow> Session \<Rightarrow> Session" where
  "messaged_session s m se = se\<lparr>se_UpdatedAt := nextSessionTime (msg_CreatedAt m) [se_UpdatedAt se, session_floor s (se_ID se)],
     se_Title := (if \<not> se_Hidden se \<and> (se_Title se = [] \<or> se_Title se = ''New SparkClaw Session'')
       then deriveTitle (msg_Content m) else se_Title se)\<rparr>"

definition AddMessage :: "op_ctx \<Rightarrow> op_env \<Rightarrow> Message \<Rightarrow> MemoryStore \<Rightarrow> Message outcome" where
  "AddMessage cx env message s = checked (admitTransientContent (PMessage message) s)
     (checked (entry_error ''conversation.add_message'' cx) (\<lambda>s.
       case prepareMessage (en_rand env) message (en_now env) of
         Inl e \<Rightarrow> (Inl (storeError ''conversation.add_message'' StoreErrorInvalid e), s)
       | Inr m \<Rightarrow> checked (locked_error ''conversation.add_message'' cx) (\<lambda>s.
           case findMessageByID (st_messages s) (msg_ID m) of
             Some existing \<Rightarrow> (Inr existing, s)
           | None \<Rightarrow>
               (case mget (st_sessions s) (msg_SessionID m) of
                  None \<Rightarrow> (Inl (storeError ''conversation.add_message'' StoreErrorNotFound (Err ''message session not found'')), s)
                | Some se \<Rightarrow> (case validatePersistedSession (msg_SessionID m) se of
                    Some e \<Rightarrow> (Inl (storeError ''conversation.add_message'' StoreErrorCorrupt e), s)
                  | None \<Rightarrow>
                      (Inr m, appendEventLocked env ''message.created'' (msg_SessionID m) (msg_RunID m) (PMessage m)
                         (put_session (msg_SessionID m) (messaged_session s m se)
                           (s\<lparr>st_messages := mput (msg_SessionID m)
                               (SortFunc compareMessagesAscending (messages_at (msg_SessionID m) s @ [m])) (st_messages s)\<rparr>)))))) s)) s"

definition ListMessages :: "op_ctx \<Rightarrow> string \<Rightarrow> MemoryStore \<Rightarrow> Message list outcome" where
  "ListMessages cx sessionID = framed ''conversation.list_messages'' cx (\<lambda>s.
     (Inr (SortFunc compareMessagesAscending (messages_at sessionID s)), s))"

text \<open>The loop from the newest message back, with its \<open>continue\<close> and its bound.\<close>

fun recent_messages :: "gotime \<Rightarrow> string \<Rightarrow> nat \<Rightarrow> Message list \<Rightarrow> Message list" where
  "recent_messages cutoff exclude 0 ms = []"
| "recent_messages cutoff exclude (Suc n) [] = []"
| "recent_messages cutoff exclude (Suc n) (m # ms) =
     (if cutoff < msg_CreatedAt m \<or> msg_ID m = exclude then recent_messages cutoff exclude (Suc n) ms
      else m # recent_messages cutoff exclude n ms)"

definition ListRecentMessages :: "op_ctx \<Rightarrow> string \<Rightarrow> gotime \<Rightarrow> string \<Rightarrow> int \<Rightarrow> MemoryStore \<Rightarrow> Message list outcome" where
  "ListRecentMessages cx sessionID cutoff excludeMessageID scanLimit =
     checked (entry_error ''conversation.list_recent_messages'' cx) (\<lambda>s.
       case validateRecentHistoryQuery sessionID cutoff scanLimit of
         Some e \<Rightarrow> (Inl (storeError ''conversation.list_recent_messages'' StoreErrorInvalid e), s)
       | None \<Rightarrow> checked (locked_error ''conversation.list_recent_messages'' cx) (\<lambda>s.
           (Inr (recent_messages cutoff excludeMessageID (nat scanLimit) (rev (messages_at sessionID s))), s)) s)"

definition message_event :: "string \<Rightarrow> Event \<Rightarrow> bool" where
  "message_event sessionID e \<longleftrightarrow> ev_SessionID e = sessionID \<and> ev_Type e = ''message.created''"

definition MessageEventHead :: "op_ctx \<Rightarrow> string \<Rightarrow> MemoryStore \<Rightarrow> string outcome" where
  "MessageEventHead cx sessionID = framed ''conversation.message_event_head'' cx (\<lambda>s.
     (Inr (case find (message_event sessionID) (rev (st_events s)) of None \<Rightarrow> [] | Some e \<Rightarrow> ev_ID e), s))"

abbreviation (input) MessageEventPageLimit :: int where "MessageEventPageLimit \<equiv> 100"

record MessageEventPage =
  mp_Events :: "Event list"
  mp_NextCursor :: string
  mp_HasMore :: bool

text \<open>The events behind the cursor: \<open>None\<close> when the first event with that identity is not a message event of the session.\<close>

fun events_behind :: "string \<Rightarrow> string \<Rightarrow> Event list \<Rightarrow> Event list option" where
  "events_behind sessionID after [] = None"
| "events_behind sessionID after (e # es) =
     (if ev_ID e \<noteq> after then events_behind sessionID after es
      else if \<not> message_event sessionID e then None else Some es)"

definition MessageEventsAfter :: "op_ctx \<Rightarrow> string \<Rightarrow> string \<Rightarrow> int \<Rightarrow> MemoryStore \<Rightarrow> MessageEventPage outcome" where
  "MessageEventsAfter cx sessionID after limit = framed ''conversation.message_events_after'' cx (\<lambda>s.
     let limit = (if limit \<le> 0 \<or> limit > MessageEventPageLimit then MessageEventPageLimit else limit)
     in case (if after = [] then Some (st_events s) else events_behind sessionID after (st_events s)) of
          None \<Rightarrow> (Inl (storeError ''conversation.message_events_after'' StoreErrorInvalid
            (Err ''message event cursor is not valid for this session'')), s)
        | Some es \<Rightarrow>
            let matching = take (nat limit + 1) (filter (message_event sessionID) es);
                more = int (length matching) > limit;
                page = (if more then take (nat limit) matching else matching)
            in (Inr \<lparr>mp_Events = page, mp_NextCursor = (if page \<noteq> [] then ev_ID (last page) else after), mp_HasMore = more\<rparr>, s))"

definition CountVisibleMessages :: "op_ctx \<Rightarrow> MemoryStore \<Rightarrow> int outcome" where
  "CountVisibleMessages cx = framed ''conversation.count_visible_messages'' cx (\<lambda>s.
     (Inr (\<Sum>(i, se) \<leftarrow> st_sessions s. if \<not> se_Hidden se then int (length (messages_at i s)) else 0), s))"

section \<open>Deleting a session\<close>

definition filterAuditEvents :: "AuditEvent list \<Rightarrow> string \<Rightarrow> AuditEvent list" where
  "filterAuditEvents events sessionID = filter (\<lambda>e. ae_SessionID e \<noteq> sessionID) events"

definition filterEvents :: "Event list \<Rightarrow> string \<Rightarrow> Event list" where
  "filterEvents events sessionID = filter (\<lambda>e. ev_SessionID e \<noteq> sessionID) events"

definition unindexArtifactObjectLocked :: "ArtifactObject \<Rightarrow> (string, string list) gomap \<Rightarrow> (string, string list) gomap" where
  "unindexArtifactObjectLocked ob idx =
     (let ids = removeAll (ao_ID ob) (case mget idx (ao_URI ob) of None \<Rightarrow> [] | Some ids \<Rightarrow> ids)
      in if ids = [] then mdel (ao_URI ob) idx else mput (ao_URI ob) ids idx)"

text \<open>The feedback that is left of each run: none for the runs of the session, no entry of the session for the others.\<close>

definition strip_feedback :: "string \<Rightarrow> (string, RunFeedback list) gomap \<Rightarrow> (string, RunFeedback list) gomap" where
  "strip_feedback sessionID m =
     mretain (\<lambda>items. items \<noteq> []) (mrewrite (filter (\<lambda>f. fb_SessionID f \<noteq> sessionID)) m)"

definition mdel_all :: "'k list \<Rightarrow> ('k, 'v) gomap \<Rightarrow> ('k, 'v) gomap" where
  "mdel_all ks m = filter (\<lambda>(k, _). k \<notin> set ks) m"

definition erase_session :: "Session \<Rightarrow> string \<Rightarrow> MemoryStore \<Rightarrow> MemoryStore" where
  "erase_session se i s =
     (let runIDs = mkeys (mretain (\<lambda>r. ru_SessionID r = i) (st_runs s));
          reminderIDs = mkeys (mretain (\<lambda>r. rm_SessionID r = i) (st_reminders s));
          chatIDs = mkeys (mretain (\<lambda>c. cs_LinkedSessionID c = i) (st_externalChatSessions s))
      in s\<lparr>st_workbenchDrafts := mdel (se_OwnerID se, i) (st_workbenchDrafts s),
           st_sessions := mdel i (st_sessions s),
           st_messages := mdel i (st_messages s),
           st_toolCallIDsBySession := mdel i (st_toolCallIDsBySession s),
           st_episodeIDsBySession := mdel i (st_episodeIDsBySession s),
           st_runFeedback := strip_feedback i (mdel_all runIDs (st_runFeedback s)),
           st_runs := mretain (\<lambda>r. ru_SessionID r \<noteq> i) (mdel_all runIDs (st_runs s)),
           st_browserLoginBlocks := mretain (\<lambda>b. lb_SessionID b \<noteq> i) (st_browserLoginBlocks s),
           st_memories := mretain (\<lambda>m. mm_SourceID m \<notin> set runIDs) (st_memories s),
           st_modelCalls := mretain (\<lambda>c. mc_SessionID c \<noteq> i) (st_modelCalls s),
           st_toolCalls := mretain (\<lambda>c. tc_SessionID c \<noteq> i) (st_toolCalls s),
           st_documentRecords := mretain (\<lambda>d. dr_SessionID d \<noteq> i) (st_documentRecords s),
           st_approvals := mretain (\<lambda>a. ap_SessionID a \<noteq> i) (st_approvals s),
           st_reminders := mretain (\<lambda>r. rm_SessionID r \<noteq> i) (st_reminders s),
           st_reminderDelivery := mretain (\<lambda>d. rd_ReminderID d \<notin> set reminderIDs) (st_reminderDelivery s),
           st_memoryCandidates := mretain (\<lambda>c. mn_SessionID c \<noteq> i) (st_memoryCandidates s),
           st_artifactObjects := mretain (\<lambda>ob. ao_SessionID ob \<noteq> i) (st_artifactObjects s),
           st_artifactObjectIDsByURI := fold unindexArtifactObjectLocked
             (filter (\<lambda>ob. ao_SessionID ob = i) (mvals (st_artifactObjects s))) (st_artifactObjectIDsByURI s),
           st_episodeSummaries := mretain (\<lambda>e. ep_SessionID e \<noteq> i) (st_episodeSummaries s),
           st_externalChatSessions := mretain (\<lambda>c. cs_LinkedSessionID c \<noteq> i) (st_externalChatSessions s),
           st_externalChatMessages := mretain (\<lambda>m. cm_ChatSessionID m \<notin> set chatIDs) (st_externalChatMessages s),
           st_auditEvents := filterAuditEvents (st_auditEvents s) i,
           st_events := filterEvents (st_events s) i\<rparr>)"

definition deleteSession :: "op_ctx \<Rightarrow> op_env \<Rightarrow> string \<Rightarrow> string \<Rightarrow> bool \<Rightarrow> MemoryStore \<Rightarrow> Session outcome" where
  "deleteSession cx env operation i mcpInvocation = checked (entry_error operation cx) (\<lambda>s.
     if TrimSpace i = [] then (Inl (storeError operation StoreErrorInvalid (Err ''session ID is required'')), s)
     else checked (locked_error operation cx) (\<lambda>s.
       case mget (st_sessions s) i of
         None \<Rightarrow> (Inl (storeError operation StoreErrorNotFound (Err ''session not found'')), s)
       | Some se \<Rightarrow> (case validatePersistedSession i se of
           Some e \<Rightarrow> (Inl (storeError operation StoreErrorCorrupt e), s)
         | None \<Rightarrow>
             if TrimSpace (se_Source se) = ''mcp'' \<and> \<not> mcpInvocation
             then (Inl (storeError operation StoreErrorConflict (Err ''MCP session history is binding-owned'')), s)
             else if mcpInvocation \<and> (TrimSpace (se_Source se) \<noteq> ''mcp'' \<or> \<not> se_Hidden se)
             then (Inl (storeError operation StoreErrorConflict (Err ''only hidden MCP invocation sessions can be deleted internally'')), s)
             else if mcpInvocation \<and> (\<exists>b \<in> set (mvals (st_mcpBindings s)). bi_LinkedSessionID b = i)
             then (Inl (storeError operation StoreErrorConflict (Err ''MCP binding anchors cannot be deleted as invocation sessions'')), s)
             else (Inr se,
               if mcpInvocation then erase_session se i s
               else appendEventLocked env ''session.deleted'' [] [] (PSession se)
                 (appendAuditLocked env ''session.deleted'' [] [] ''owner'' ''Session deleted''
                   [(''session_id'', AnyString i), (''title'', AnyString (se_Title se))] (erase_session se i s))))) s)"

definition DeleteSession :: "op_ctx \<Rightarrow> op_env \<Rightarrow> string \<Rightarrow> MemoryStore \<Rightarrow> Session outcome" where
  "DeleteSession cx env i = deleteSession cx env ''session.delete'' i False"

definition DeleteMCPInvocationSession :: "op_ctx \<Rightarrow> op_env \<Rightarrow> string \<Rightarrow> MemoryStore \<Rightarrow> Session outcome" where
  "DeleteMCPInvocationSession cx env i = deleteSession cx env ''mcp_invocation_session.delete'' i True"

end
