(* ===== verification/Sessions.thy ===== *)
theory Sessions
  imports Session_Operations
begin

text \<open>
  What sessions and conversations guarantee: stored sessions are valid and their clocks move forward, a message is stored once and
  in order, following the pages of message events loses nothing, and drafts are saved optimistically. What a deletion does to the
  rest of the store is shown in the theory \<open>Session_Deletion\<close>.
\<close>

section \<open>Session times\<close>

lemma sessionTime_le: "normalizeSessionTime t \<le> t"
  by (simp add: normalizeSessionTime_def Truncate_le)

lemma nextSessionTime_from_bounds:
  "t \<le> nextSessionTime_from t fs \<and> (\<forall>f \<in> set fs. normalizeSessionTime f < nextSessionTime_from t fs)"
proof (induction fs arbitrary: t)
  case (Cons f fs)
  let ?t = "if \<not> normalizeSessionTime f < t then normalizeSessionTime f + 1000 else t"
  have "t \<le> ?t" "normalizeSessionTime f < ?t" by auto
  with Cons [of ?t] show ?case by auto
qed simp

lemma nextSessionTime_from_whole: "t mod 1000 = 0 \<Longrightarrow> nextSessionTime_from t fs mod 1000 = 0"
proof (induction fs arbitrary: t)
  case (Cons f fs)
  have "(normalizeSessionTime f + 1000) mod 1000 = 0" by (simp add: normalizeSessionTime_def)
  with Cons show ?case by simp
qed simp

lemma nextSessionTime_after: "f \<in> set fs \<Longrightarrow> normalizeSessionTime f < nextSessionTime now fs"
  using nextSessionTime_from_bounds [of "normalizeSessionTime now" fs] by (simp add: nextSessionTime_def)

lemma nextSessionTime_least: "normalizeSessionTime now \<le> nextSessionTime now fs"
  using nextSessionTime_from_bounds [of "normalizeSessionTime now" fs] by (simp add: nextSessionTime_def)

lemma nextSessionTime_whole: "nextSessionTime now fs mod 1000 = 0"
  by (simp add: nextSessionTime_def nextSessionTime_from_whole normalizeSessionTime_def)

lemma validSessionTime_whole: "validSessionTime t \<longleftrightarrow> t \<noteq> 0 \<and> t mod 1000 = 0"
  using mod_mod_cancel [of 1000 "1000000000 :: int" t] by (simp add: validSessionTime_def)

lemma sessionTime_fixed: "t mod 1000 = 0 \<Longrightarrow> normalizeSessionTime t = t"
  by (simp add: normalizeSessionTime_def Truncate_multiple)

section \<open>Trimming keeps what is not white space\<close>

lemma strip_one_kept: "strip_one ps s = Some t \<Longrightarrow> c \<in> set s \<Longrightarrow> \<forall>p \<in> set ps. c \<notin> set p \<Longrightarrow> c \<in> set t"
  by (induction ps) (auto split: if_splits simp: prefix_def)

lemma strip_front_kept: "c \<in> set s \<Longrightarrow> \<forall>p \<in> set ps. c \<notin> set p \<Longrightarrow> c \<in> set (strip_front ps s)"
proof (induction ps s rule: strip_front.induct)
  case (1 ps s)
  then show ?case
    using strip_one_kept [of ps s _ c] by (cases "strip_one ps s") (simp_all add: strip_front.simps [of ps s])
qed

lemma TrimSpace_kept: "c \<in> set s \<Longrightarrow> \<forall>p \<in> set white_space. c \<notin> set p \<Longrightarrow> c \<in> set (TrimSpace s)"
  using strip_front_kept [of c s white_space] strip_front_kept [of c "rev (strip_front white_space s)" "map rev white_space"]
  by (simp add: TrimSpace_def strip_back_def)

lemma deriveTitle_filled: "TrimSpace (deriveTitle content) \<noteq> []"
proof -
  have dot: "TrimSpace (x @ ''...'') \<noteq> []" for x
    using TrimSpace_kept [of "CHR ''.''" "x @ ''...''"] by (auto simp: white_space_def)
  have "TrimSpace ''New SparkClaw Session'' \<noteq> []"
    using TrimSpace_kept [of "CHR ''N''" "''New SparkClaw Session''"] by (auto simp: white_space_def)
  with dot show ?thesis by (simp add: deriveTitle_def Let_def)
qed

section \<open>The invariant\<close>

definition message_key :: "Message \<Rightarrow> gotime \<times> string" where
  "message_key m = (msg_CreatedAt m, msg_ID m)"

interpretation message_order: sort_order compareMessagesAscending message_key
  by unfold_locales (auto simp: compareMessagesAscending_def message_key_def time_cmp_def str_cmp_def Let_def less_eq_prod_def)

interpretation session_table: record_table session_cmp "\<lambda>se. (- se_UpdatedAt se, se_ID se)" se_ID
  by unfold_locales (auto simp: session_cmp_def time_cmp_def str_cmp_def Let_def less_eq_prod_def)

definition session_wf :: "Session \<Rightarrow> bool" where
  "session_wf se \<longleftrightarrow> validatePersistedSession (se_ID se) se = None \<and> 0 < se_CreatedAt se"

text \<open>The messages of one session: its own, in strict order, none after the session's update time.\<close>

definition conversation_ok :: "Session \<Rightarrow> Message list \<Rightarrow> bool" where
  "conversation_ok se ms \<longleftrightarrow> (\<forall>m \<in> set ms. msg_SessionID m = se_ID se \<and> TrimSpace (msg_ID m) \<noteq> [] \<and> msg_CreatedAt m \<le> se_UpdatedAt se) \<and>
     sorted_wrt (<) (map message_key ms)"

definition sessions_inv :: "MemoryStore \<Rightarrow> bool" where
  "sessions_inv s \<longleftrightarrow> keyed se_ID (st_sessions s) \<and> (\<forall>se \<in> set (mvals (st_sessions s)). session_wf se) \<and>
     (\<forall>i se. mget (st_sessions s) i = Some se \<longrightarrow> session_floor s i = se_UpdatedAt se) \<and>
     distinct (map fst (st_messages s)) \<and>
     (\<forall>i ms. mget (st_messages s) i = Some ms \<longrightarrow> (\<exists>se. mget (st_sessions s) i = Some se \<and> conversation_ok se ms)) \<and>
     distinct (map msg_ID (concat (mvals (st_messages s))))"

lemma sessions_inv_get:
  assumes "sessions_inv s" and "mget (st_sessions s) i = Some se"
  shows "se_ID se = i" and "session_wf se" and "validatePersistedSession i se = None" and "session_floor s i = se_UpdatedAt se"
    and "se_UpdatedAt se mod 1000 = 0" and "0 < se_UpdatedAt se"
proof -
  have k: "keyed se_ID (st_sessions s)" using assms(1) by (simp add: sessions_inv_def)
  show i: "se_ID se = i" by (rule keyed_get [OF k assms(2)])
  with assms show wf: "session_wf se" using keyed_vals [OF k, of se] by (simp add: sessions_inv_def)
  then show "validatePersistedSession i se = None" using i by (simp add: session_wf_def)
  show "session_floor s i = se_UpdatedAt se" using assms by (simp add: sessions_inv_def)
  show "se_UpdatedAt se mod 1000 = 0" "0 < se_UpdatedAt se"
    using wf by (auto simp: session_wf_def validatePersistedSession_def validSessionTime_whole split: if_splits)
qed

text \<open>A session with a new title and a later whole update time is still valid.\<close>

lemma session_wf_update:
  assumes "session_wf se" and "TrimSpace title \<noteq> []" and "u mod 1000 = 0" and "se_UpdatedAt se \<le> u"
  shows "session_wf (se\<lparr>se_Title := title, se_UpdatedAt := u\<rparr>)"
  using assms by (auto simp: session_wf_def validatePersistedSession_def validSessionTime_whole split: if_splits)

lemma prepareSession_ok:
  assumes "prepareSession random title owner wroot source hidden now = Inr se" and "0 \<le> now"
  shows "session_wf se" and "se_ID se = NewID random ''s''"
proof -
  have v: "validatePersistedSession (se_ID se) se = None" and i: "se_ID se = NewID random ''s''" and c: "se_CreatedAt se = normalizeSessionTime now"
    using assms(1) by (auto simp: prepareSession_def Let_def split: option.splits)
  have "se_CreatedAt se \<noteq> 0" using v by (auto simp: validatePersistedSession_def validSessionTime_whole split: if_splits)
  moreover have "0 \<le> normalizeSessionTime now" using Truncate_mono [of 1000 0 now] assms(2) by (simp add: normalizeSessionTime_def)
  ultimately show "session_wf se" using v c by (simp add: session_wf_def)
  show "se_ID se = NewID random ''s''" by (rule i)
qed

section \<open>What each write does\<close>

definition created_store :: "op_env \<Rightarrow> Session \<Rightarrow> MemoryStore \<Rightarrow> MemoryStore" where
  "created_store env se s = appendEventLocked env ''session.created'' (se_ID se) [] (PSession se)
     (appendAuditLocked env ''session.created'' (se_ID se) [] ''system'' ''Session created''
       [(''title'', AnyString (se_Title se)), (''owner_id'', AnyString (se_OwnerID se))] (put_session (se_ID se) se s))"

lemma createSession_cases:
  assumes "createSession cx env op title owner wroot source hidden s = (res, s')"
  shows "(s' = s \<and> (\<exists>e. res = Inl e)) \<or>
    (\<exists>se. prepareSession (en_rand env) title owner wroot source hidden (en_now env) = Inr se \<and>
      mget (st_sessions s) (se_ID se) = None \<and> res = Inr se \<and> s' = created_store env se s)"
  using assms by (auto simp: createSession_def checked_def created_store_def split: option.splits sum.splits if_splits)

definition renamed_store :: "op_env \<Rightarrow> string \<Rightarrow> Session \<Rightarrow> MemoryStore \<Rightarrow> MemoryStore" where
  "renamed_store env i se s = appendEventLocked env ''session.updated'' i [] (PSession se)
     (appendAuditLocked env ''session.updated'' i [] ''owner'' ''Session renamed'' [(''title'', AnyString (se_Title se))]
       (put_session i se s))"

lemma UpdateSessionTitle_cases:
  assumes "UpdateSessionTitle cx env i title s = (res, s')"
  shows "(s' = s \<and> (\<exists>e. res = Inl e)) \<or>
    (\<exists>se u. mget (st_sessions s) i = Some se \<and> validatePersistedSession i se = None \<and> TrimSpace (se_Source se) \<noteq> ''mcp'' \<and>
      TrimSpace title \<noteq> [] \<and>
      u = se\<lparr>se_Title := TrimSpace title, se_UpdatedAt := nextSessionTime (en_now env) [se_UpdatedAt se, session_floor s i]\<rparr> \<and>
      res = Inr u \<and> s' = renamed_store env i u s)"
  using assms
  by (auto simp: UpdateSessionTitle_def checked_def renamed_store_def Let_def split: option.splits if_splits)

definition messaged_store :: "op_env \<Rightarrow> Message \<Rightarrow> Session \<Rightarrow> MemoryStore \<Rightarrow> MemoryStore" where
  "messaged_store env m se s = appendEventLocked env ''message.created'' (msg_SessionID m) (msg_RunID m) (PMessage m)
     (put_session (msg_SessionID m) (messaged_session s m se)
       (s\<lparr>st_messages := mput (msg_SessionID m) (SortFunc compareMessagesAscending (messages_at (msg_SessionID m) s @ [m])) (st_messages s)\<rparr>))"

lemma AddMessage_cases:
  assumes "AddMessage cx env message s = (res, s')"
  shows "(s' = s \<and> (\<exists>e. res = Inl e)) \<or>
    (\<exists>m. prepareMessage (en_rand env) message (en_now env) = Inr m \<and>
      ((\<exists>old. findMessageByID (st_messages s) (msg_ID m) = Some old \<and> res = Inr old \<and> s' = s) \<or>
       (\<exists>se. findMessageByID (st_messages s) (msg_ID m) = None \<and> mget (st_sessions s) (msg_SessionID m) = Some se \<and>
         validatePersistedSession (msg_SessionID m) se = None \<and> res = Inr m \<and> s' = messaged_store env m se s)))"
  using assms
  by (auto simp: AddMessage_def checked_def messaged_store_def
      split: option.splits sum.splits)

definition drafted_store :: "string \<Rightarrow> string \<Rightarrow> WorkbenchDraft \<Rightarrow> MemoryStore \<Rightarrow> MemoryStore" where
  "drafted_store owner sid d s = s\<lparr>st_workbenchDrafts := mput (owner, sid) d (st_workbenchDrafts s)\<rparr>"

lemma SaveWorkbenchDraft_cases:
  assumes "SaveWorkbenchDraft cx env owner sid draft s = (res, s')"
  shows "(s' = s \<and> (\<exists>e. res = Inl e)) \<or>
    (\<exists>d. wd_Revision (draft_at owner sid s) = wd_Revision draft \<and> validateWorkbenchDraft draft = None \<and>
      d = draft\<lparr>wd_Revision := wd_Revision draft + 1, wd_UpdatedAt := nextRepositoryTime (en_now env) [wd_UpdatedAt (draft_at owner sid s)]\<rparr> \<and>
      draftSessionLocked owner sid s \<and> res = Inr d \<and> s' = drafted_store owner sid d s)"
  using assms
  by (auto simp: SaveWorkbenchDraft_def checked_def drafted_store_def join2_def Let_def split: option.splits if_splits)

inductive session_step :: "MemoryStore \<Rightarrow> MemoryStore \<Rightarrow> bool" where
  step_create: "0 \<le> en_now env \<Longrightarrow> createSession cx env op title owner wroot source hidden s = (res, s') \<Longrightarrow> session_step s s'"
| step_rename: "UpdateSessionTitle cx env i title s = (res, s') \<Longrightarrow> session_step s s'"
| step_message: "AddMessage cx env m s = (res, s') \<Longrightarrow> session_step s s'"
| step_draft: "SaveWorkbenchDraft cx env owner sid d s = (res, s') \<Longrightarrow> session_step s s'"

inductive_cases session_stepE: "session_step s s'"

section \<open>Every write keeps the invariant\<close>

lemma sessions_inv_tables:
  assumes "st_sessions s' = st_sessions s" and "st_messages s' = st_messages s" and "st_sessionWriteHighWater s' = st_sessionWriteHighWater s"
  shows "sessions_inv s' = sessions_inv s"
  using assms by (simp add: sessions_inv_def session_floor_def)

lemma sessions_inv_append [simp]:
  "sessions_inv (appendAuditLocked env a b c d e f s) = sessions_inv s" "sessions_inv (appendEventLocked env a b c v s) = sessions_inv s"
  by (rule sessions_inv_tables; simp)+

lemma conversation_later: "conversation_ok se ms \<Longrightarrow> se_ID se' = se_ID se \<Longrightarrow> se_UpdatedAt se \<le> se_UpdatedAt se' \<Longrightarrow> conversation_ok se' ms"
  by (auto simp: conversation_ok_def)

lemma put_session_inv:
  assumes inv: "sessions_inv s" and wf: "session_wf se" and i: "se_ID se = i"
    and later: "\<And>old. mget (st_sessions s) i = Some old \<Longrightarrow> se_UpdatedAt old \<le> se_UpdatedAt se"
  shows "sessions_inv (put_session i se s)"
proof -
  have k: "keyed se_ID (st_sessions s)" and all: "\<forall>se \<in> set (mvals (st_sessions s)). session_wf se"
    and conv: "\<And>j ms. mget (st_messages s) j = Some ms \<Longrightarrow> \<exists>se. mget (st_sessions s) j = Some se \<and> conversation_ok se ms"
    using inv by (simp_all add: sessions_inv_def)
  have "\<exists>x. mget (mput i se (st_sessions s)) j = Some x \<and> conversation_ok x ms" if "mget (st_messages s) j = Some ms" for j ms
  proof -
    from conv [OF that] obtain x where x: "mget (st_sessions s) j = Some x" "conversation_ok x ms" by blast
    show ?thesis
    proof (cases "j = i")
      case True
      then show ?thesis using x conversation_later [OF x(2), of se] later i sessions_inv_get(1) [OF inv x(1)] by simp
    next
      case False
      then show ?thesis using x by simp
    qed
  qed
  then show ?thesis
    using inv keyed_put [OF k i] all_vals_put [OF k all wf] i
    by (auto simp: sessions_inv_def put_session_def session_floor_def mget_mput)
qed

lemma messages_at_inv:
  assumes "sessions_inv s" and "mget (st_sessions s) i = Some se"
  shows "conversation_ok se (messages_at i s)"
proof (cases "mget (st_messages s) i")
  case None
  then show ?thesis by (simp add: messages_at_def conversation_ok_def)
next
  case (Some ms)
  then obtain x where "mget (st_sessions s) i = Some x" "conversation_ok x ms" using assms(1) unfolding sessions_inv_def by blast
  then show ?thesis using assms(2) Some by (simp add: messages_at_def)
qed

lemma set_concat_put:
  assumes "distinct (map fst m)"
  shows "mset (concat (mvals (mput k xs m))) + mset (case mget m k of None \<Rightarrow> [] | Some ys \<Rightarrow> ys) = mset (concat (mvals m)) + mset xs"
  using assms
proof (induction m)
  case (Cons p m)
  obtain k' ys where p: "p = (k', ys)" by (cases p)
  have "mget m k' = None" using Cons.prems p by (auto simp: map_of_eq_None_iff)
  then show ?case using Cons p by (cases "k' = k") (auto simp: ac_simps)
qed simp

lemma value_distinct: "distinct (map f (concat (mvals m))) \<Longrightarrow> mget m k = Some xs \<Longrightarrow> distinct (map f xs)"
  by (induction m) (auto split: if_splits)

lemma findMessage_None: "findMessageByID m i = None \<longleftrightarrow> i \<notin> set (map msg_ID (concat (mvals m)))"
  by (auto simp: findMessageByID_def find_None_iff)

lemma findMessage_Some:
  assumes "distinct (map msg_ID (concat (mvals m)))"
  shows "findMessageByID m i = Some x \<longleftrightarrow> x \<in> set (concat (mvals m)) \<and> msg_ID x = i"
proof
  assume "findMessageByID m i = Some x"
  then show "x \<in> set (concat (mvals m)) \<and> msg_ID x = i"
    unfolding findMessageByID_def find_Some_iff by (metis nth_mem)
next
  assume x: "x \<in> set (concat (mvals m)) \<and> msg_ID x = i"
  then obtain y where y: "findMessageByID m i = Some y" using findMessage_None [of m i] by (cases "findMessageByID m i") auto
  then have "y \<in> set (concat (mvals m))" "msg_ID y = i"
    unfolding findMessageByID_def find_Some_iff by (metis nth_mem)+
  then show "findMessageByID m i = Some x" using x y assms by (metis distinct_map inj_onD)
qed

lemma prepareMessage_ok:
  assumes "prepareMessage random message now = Inr m"
  shows "TrimSpace (msg_ID m) \<noteq> []" and "msg_CreatedAt m mod 1000 = 0" and "msg_SessionID m = msg_SessionID message"
    and "TrimSpace (msg_ID message) \<noteq> [] \<Longrightarrow> msg_ID m = msg_ID message"
proof -
  have "TrimSpace (NewID random ''m'') \<noteq> []"
  proof (rule notI)
    assume "TrimSpace (NewID random ''m'') = []"
    moreover have "CHR ''m'' \<in> set (NewID random ''m'')"
      by (simp add: NewID_def TrimSuffix_def suffix_def split: option.splits)
    ultimately show False using TrimSpace_kept [of "CHR ''m''" "NewID random ''m''"] by (simp add: white_space_def)
  qed
  then show "TrimSpace (msg_ID m) \<noteq> []" "msg_CreatedAt m mod 1000 = 0" "msg_SessionID m = msg_SessionID message"
    "TrimSpace (msg_ID message) \<noteq> [] \<Longrightarrow> msg_ID m = msg_ID message"
    using assms by (auto simp: prepareMessage_def split: if_splits)
qed

lemma messaged_session_ok:
  assumes "sessions_inv s" and "mget (st_sessions s) i = Some se" and "msg_CreatedAt m mod 1000 = 0"
  shows "session_wf (messaged_session s m se)" and "se_ID (messaged_session s m se) = i"
    and "se_UpdatedAt se < se_UpdatedAt (messaged_session s m se)" and "msg_CreatedAt m \<le> se_UpdatedAt (messaged_session s m se)"
    and "se_OwnerID (messaged_session s m se) = se_OwnerID se"
proof -
  note g = sessions_inv_get [OF assms(1,2)]
  let ?u = "nextSessionTime (msg_CreatedAt m) [se_UpdatedAt se, session_floor s (se_ID se)]"
  have u: "se_UpdatedAt se < ?u" using nextSessionTime_after [of "se_UpdatedAt se"] sessionTime_fixed [OF g(5)] by simp
  have "msg_CreatedAt m \<le> ?u" using nextSessionTime_least [of "msg_CreatedAt m"] sessionTime_fixed [OF assms(3)] by simp
  moreover have "TrimSpace (se_Title se) \<noteq> []" using g(3) by (auto simp: validatePersistedSession_def split: if_splits)
  then have "session_wf (messaged_session s m se)"
  proof -
    let ?title = "if \<not> se_Hidden se \<and> (se_Title se = [] \<or> se_Title se = ''New SparkClaw Session'')
      then deriveTitle (msg_Content m) else se_Title se"
    assume "TrimSpace (se_Title se) \<noteq> []"
    then have "TrimSpace ?title \<noteq> []" using deriveTitle_filled by (cases "se_Hidden se") simp_all
    then have "session_wf (se\<lparr>se_Title := ?title, se_UpdatedAt := ?u\<rparr>)"
      using u nextSessionTime_whole by (intro session_wf_update [OF g(2)]) simp_all
    moreover have "messaged_session s m se = se\<lparr>se_Title := ?title, se_UpdatedAt := ?u\<rparr>"
      unfolding messaged_session_def by (cases se) simp
    ultimately show ?thesis by (simp only:)
  qed
  ultimately show "session_wf (messaged_session s m se)" "se_ID (messaged_session s m se) = i"
    "se_UpdatedAt se < se_UpdatedAt (messaged_session s m se)" "msg_CreatedAt m \<le> se_UpdatedAt (messaged_session s m se)"
    "se_OwnerID (messaged_session s m se) = se_OwnerID se"
    using u g(1) by (simp_all add: messaged_session_def)
qed

lemma sorted_messages:
  assumes "distinct (map msg_ID ms)"
  shows "sorted_wrt (<) (map message_key (SortFunc compareMessagesAscending ms))"
proof -
  let ?s = "SortFunc compareMessagesAscending ms"
  have "mset (map msg_ID ?s) = mset (map msg_ID ms)" by (simp only: mset_map mset_SortFunc)
  then have "distinct (map msg_ID ?s)" using assms by (metis mset_eq_imp_distinct_iff)
  then have "distinct (map message_key ?s)" by (auto simp: distinct_map message_key_def inj_on_def)
  moreover have "sorted (map message_key ?s)" by (rule message_order.sorted_SortFunc)
  ultimately show ?thesis by (simp add: strict_sorted_iff)
qed

lemma put_messages_inv:
  assumes inv: "sessions_inv t" and u: "mget (st_sessions t) i = Some u" and ok: "conversation_ok u ms"
    and ids: "distinct (map msg_ID (concat (mvals (mput i ms (st_messages t)))))"
  shows "sessions_inv (t\<lparr>st_messages := mput i ms (st_messages t)\<rparr>)"
proof -
  have "\<exists>se. mget (st_sessions t) j = Some se \<and> conversation_ok se xs"
    if "mget (mput i ms (st_messages t)) j = Some xs" for j xs
  proof (cases "j = i")
    case True
    then show ?thesis using that u ok by simp
  next
    case False
    then have "mget (st_messages t) j = Some xs" using that by simp
    then show ?thesis using inv unfolding sessions_inv_def by blast
  qed
  moreover have "distinct (map fst (mput i ms (st_messages t)))"
    using inv by (simp add: sessions_inv_def AList.distinct_update)
  ultimately show ?thesis
    using inv ids by (simp add: sessions_inv_def session_floor_def del: map_of_eq_Some_iff)
qed

lemma messaged_inv:
  assumes inv: "sessions_inv s" and se: "mget (st_sessions s) (msg_SessionID m) = Some se"
    and new: "findMessageByID (st_messages s) (msg_ID m) = None" and m: "msg_CreatedAt m mod 1000 = 0" "TrimSpace (msg_ID m) \<noteq> []"
  shows "sessions_inv (messaged_store env m se s)"
proof -
  let ?i = "msg_SessionID m" and ?u = "messaged_session s m se"
  let ?ms = "messages_at ?i s"
  let ?new = "SortFunc compareMessagesAscending (?ms @ [m])"
  let ?t = "put_session ?i ?u s"
  note u = messaged_session_ok [OF inv se m(1)]
  have t: "sessions_inv ?t"
    by (rule put_session_inv [OF inv u(1,2)]) (use se u(3) in simp)
  have u_at: "mget (st_sessions ?t) ?i = Some ?u" by (simp add: put_session_def)
  have old: "conversation_ok ?u ?ms"
    using messages_at_inv [OF t u_at] by (simp add: put_session_def messages_at_def)
  have d: "distinct (map fst (st_messages s))" "distinct (map msg_ID (concat (mvals (st_messages s))))"
    using inv by (simp_all add: sessions_inv_def)
  have cat: "mset (concat (mvals (mput ?i ?new (st_messages s)))) = mset (concat (mvals (st_messages s)) @ [m])"
    using set_concat_put [OF d(1), of ?i ?new] by (simp add: messages_at_def)
  have ids: "distinct (map msg_ID (concat (mvals (st_messages s)) @ [m]))"
    using d(2) new by (auto simp: findMessage_None)
  have "mset (map msg_ID (concat (mvals (mput ?i ?new (st_messages s))))) = mset (map msg_ID (concat (mvals (st_messages s)) @ [m]))"
    using cat by (metis mset_map)
  then have distinct_new: "distinct (map msg_ID (concat (mvals (mput ?i ?new (st_messages s)))))"
    using ids by (metis mset_eq_imp_distinct_iff)
  have "distinct (map msg_ID ?new)"
    by (rule value_distinct [OF distinct_new mget_mput_same])
  then have "distinct (map msg_ID (?ms @ [m]))"
    by (metis mset_SortFunc mset_map mset_eq_imp_distinct_iff)
  then have "conversation_ok ?u ?new"
    using old sorted_messages [of "?ms @ [m]"] u(2,4) m(2) by (auto simp: conversation_ok_def)
  then have "sessions_inv (?t\<lparr>st_messages := mput ?i ?new (st_messages ?t)\<rparr>)"
    using distinct_new by (intro put_messages_inv [OF t u_at]) (simp_all add: put_session_def)
  then have "sessions_inv (?t\<lparr>st_messages := mput ?i ?new (st_messages s)\<rparr>)"
    by (simp add: put_session_def)
  moreover have "?t\<lparr>st_messages := mput ?i ?new (st_messages s)\<rparr> = put_session ?i ?u (s\<lparr>st_messages := mput ?i ?new (st_messages s)\<rparr>)"
    by (simp add: put_session_def)
  ultimately show ?thesis by (simp add: messaged_store_def)
qed

lemma sessions_inv_step: "session_step s s' \<Longrightarrow> sessions_inv s \<Longrightarrow> sessions_inv s'"
proof (induction rule: session_step.induct)
  case (step_create env cx op title owner wroot source hidden s res s')
  from createSession_cases [OF step_create(2)] show ?case
  proof (elim disjE exE conjE)
    fix se assume se: "prepareSession (en_rand env) title owner wroot source hidden (en_now env) = Inr se"
      and new: "mget (st_sessions s) (se_ID se) = None" and s': "s' = created_store env se s"
    have "sessions_inv (put_session (se_ID se) se s)"
      by (rule put_session_inv [OF step_create(3) prepareSession_ok(1) [OF se step_create(1)] refl]) (simp add: new)
    then show ?thesis by (simp add: s' created_store_def)
  qed (use step_create(3) in simp)
next
  case (step_rename cx env i title s res s')
  from UpdateSessionTitle_cases [OF step_rename(1)] show ?case
  proof (elim disjE exE conjE)
    fix se u assume se: "mget (st_sessions s) i = Some se" and title: "TrimSpace title \<noteq> []"
      and u: "u = se\<lparr>se_Title := TrimSpace title, se_UpdatedAt := nextSessionTime (en_now env) [se_UpdatedAt se, session_floor s i]\<rparr>"
      and s': "s' = renamed_store env i u s"
    note g = sessions_inv_get [OF step_rename(2) se]
    have later: "se_UpdatedAt se < se_UpdatedAt u"
      using nextSessionTime_after [of "se_UpdatedAt se"] sessionTime_fixed [OF g(5)] by (simp add: u)
    then have wf: "session_wf u"
      using session_wf_update [OF g(2), of "TrimSpace title" "se_UpdatedAt u"] title nextSessionTime_whole by (simp add: u)
    have "sessions_inv (put_session i u s)"
      by (rule put_session_inv [OF step_rename(2) wf]) (use g(1) se later in \<open>simp_all add: u\<close>)
    then show ?thesis by (simp add: s' renamed_store_def)
  qed (use step_rename(2) in simp)
next
  case (step_message cx env message s res s')
  from AddMessage_cases [OF step_message(1)] show ?case
  proof (elim disjE exE conjE)
    fix m se assume m: "prepareMessage (en_rand env) message (en_now env) = Inr m" and s': "s' = messaged_store env m se s"
      and new: "findMessageByID (st_messages s) (msg_ID m) = None" and se: "mget (st_sessions s) (msg_SessionID m) = Some se"
    show ?thesis unfolding s' by (rule messaged_inv [OF step_message(2) se new prepareMessage_ok(2,1) [OF m]])
  qed (use step_message(2) in simp_all)
next
  case (step_draft cx env owner sid d s res s')
  from SaveWorkbenchDraft_cases [OF step_draft(1)] show ?case
  proof (elim disjE exE conjE)
    fix x assume "s' = drafted_store owner sid x s"
    then have "sessions_inv s' = sessions_inv s" by (intro sessions_inv_tables) (simp_all add: drafted_store_def)
    then show ?thesis using step_draft(2) by simp
  qed (use step_draft(2) in simp)
qed

lemma sessions_inv_empty: "empty_store s \<Longrightarrow> sessions_inv s"
  by (simp add: sessions_inv_def empty_store_tables)

interpretation conversations: invariant_system empty_store session_step sessions_inv
  by unfold_locales (auto simp: sessions_inv_empty dest: sessions_inv_step)

section \<open>Messages\<close>

abbreviation stored_messages :: "MemoryStore \<Rightarrow> Message list" where
  "stored_messages s \<equiv> concat (mvals (st_messages s))"

lemma messaged_mset:
  assumes "sessions_inv s"
  shows "mset (stored_messages (messaged_store env m se s)) = mset (stored_messages s @ [m])"
  using assms set_concat_put [of "st_messages s" "msg_SessionID m" "SortFunc compareMessagesAscending (messages_at (msg_SessionID m) s @ [m])"]
  by (simp add: sessions_inv_def messages_at_def messaged_store_def put_session_def)

lemma messages_kept: "session_step s s' \<Longrightarrow> sessions_inv s \<Longrightarrow> set (stored_messages s) \<subseteq> set (stored_messages s')"
proof (induction rule: session_step.induct)
  case (step_create env cx op title owner wroot source hidden s res s')
  from createSession_cases [OF step_create(2)] show ?case by (auto simp: created_store_def put_session_def)
next
  case (step_rename cx env i title s res s')
  from UpdateSessionTitle_cases [OF step_rename(1)] show ?case by (auto simp: renamed_store_def put_session_def)
next
  case (step_message cx env message s res s')
  from AddMessage_cases [OF step_message(1)] show ?case
  proof (elim disjE exE conjE)
    fix m se assume "s' = messaged_store env m se s"
    then have "set_mset (mset (stored_messages s')) = set_mset (mset (stored_messages s @ [m]))"
      using messaged_mset [OF step_message(2)] by (simp only:)
    then show ?thesis unfolding set_mset_mset set_append by blast
  qed simp_all
next
  case (step_draft cx env owner sid d s res s')
  from SaveWorkbenchDraft_cases [OF step_draft(1)] show ?case by (auto simp: drafted_store_def)
qed

lemma messages_kept_steps: "session_step\<^sup>*\<^sup>* s t \<Longrightarrow> sessions_inv s \<Longrightarrow> set (stored_messages s) \<subseteq> set (stored_messages t)"
proof (induction rule: rtranclp_induct)
  case (step t u)
  then show ?case using messages_kept [OF step(2) conversations.steps_inv [OF step(1)]] by blast
qed simp

lemma added_stored:
  assumes "sessions_inv s" and "AddMessage cx env message s = (Inr q, s')"
  shows "q \<in> set (stored_messages s')" and "TrimSpace (msg_ID q) \<noteq> []"
proof -
  have ids: "distinct (map msg_ID (stored_messages s))" using assms(1) by (simp add: sessions_inv_def)
  obtain m where m: "prepareMessage (en_rand env) message (en_now env) = Inr m"
    and c: "(findMessageByID (st_messages s) (msg_ID m) = Some q \<and> s' = s) \<or> (\<exists>se. q = m \<and> s' = messaged_store env m se s)"
    using AddMessage_cases [OF assms(2)] by auto
  from c show "q \<in> set (stored_messages s')"
  proof (elim disjE exE conjE)
    fix se assume "q = m" "s' = messaged_store env m se s"
    then have "set_mset (mset (stored_messages s')) = set_mset (mset (stored_messages s @ [q]))"
      using messaged_mset [OF assms(1)] by (simp only:)
    then show ?thesis unfolding set_mset_mset set_append by simp
  qed (use findMessage_Some [OF ids] in simp)
  show "TrimSpace (msg_ID q) \<noteq> []"
    using c prepareMessage_ok(1) [OF m] findMessage_Some [OF ids, of "msg_ID m" q] by auto
qed

definition sample_session_store :: MemoryStore where
  "sample_session_store = snd (CreateSession open_ctx sample_env ''Plans'' NewMemoryStore)"

definition sample_message :: "string \<Rightarrow> string \<Rightarrow> Message" where
  "sample_message i content = \<lparr>msg_ID = i, msg_SessionID = ''s_fallback'', msg_Role = ''user'', msg_Content = content, msg_CreatedAt = 7000,
     msg_RunID = [], msg_Attachments = [], msg_RequestedMedia = [], msg_FilesUnavailable = False, msg_Clarification = None\<rparr>"

definition message_store :: MemoryStore where
  "message_store = snd (AddMessage open_ctx sample_env (sample_message ''m1'' ''hello'') sample_session_store)"

definition sample_session :: Session where
  "sample_session = \<lparr>se_ID = ''s_fallback'', se_OwnerID = ''owner'', se_WorkspaceRoot = [], se_Title = ''Plans'', se_Source = ''webchat'',
     se_Hidden = False, se_CreatedAt = 5000, se_UpdatedAt = 5000\<rparr>"

lemma sample_session_prepared:
  "prepareSession None ''Plans'' ''owner'' [] ''webchat'' False 5000 = Inr sample_session"
  by code_simp

lemma sample_session_created:
  "CreateSession open_ctx sample_env ''Plans'' NewMemoryStore = (Inr sample_session, sample_session_store)"
  "mget (st_sessions sample_session_store) ''s_fallback'' = Some sample_session" "st_messages sample_session_store = []"
  "st_transientContentAdmission sample_session_store = None" "mget (st_workbenchDrafts sample_session_store) x = None"
  by (simp_all add: sample_session_store_def CreateSession_def createSession_def checked_def sample_session_prepared sample_env_def put_session_def)
     (simp_all add: sample_session_def NewMemoryStore_def)

lemma sample_session_stored: "sample_session_store = created_store sample_env sample_session NewMemoryStore"
  using createSession_cases [OF sample_session_created(1) [unfolded CreateSession_def]] by auto

lemma sample_session_reach: "reach empty_store session_step sample_session_store"
proof (rule reach_step)
  show "reach empty_store session_step NewMemoryStore" by (rule reach.intros(1)) (rule empty_store_New)
  show "session_step NewMemoryStore sample_session_store"
    by (rule step_create [of sample_env, OF _ sample_session_created(1) [unfolded CreateSession_def]]) (simp add: sample_env_def)
qed

lemma sample_message_prepared:
  "prepareMessage None (sample_message ''m1'' c) 5000 = Inr (sample_message ''m1'' c)"
  "validatePersistedSession ''s_fallback'' sample_session = None"
proof -
  have "TrimSpace ''s_fallback'' = ''s_fallback''" "TrimSpace ''m1'' = ''m1''" by code_simp+
  then show "prepareMessage None (sample_message ''m1'' c) 5000 = Inr (sample_message ''m1'' c)"
    by (simp add: prepareMessage_def sample_message_def Truncate_def)
  show "validatePersistedSession ''s_fallback'' sample_session = None" by code_simp
qed

lemma sample_message_added:
  "AddMessage open_ctx sample_env (sample_message ''m1'' ''hello'') sample_session_store = (Inr (sample_message ''m1'' ''hello''), message_store)"
proof -
  have "msg_SessionID (sample_message ''m1'' ''hello'') = ''s_fallback''" by (simp add: sample_message_def)
  then show ?thesis
    using sample_session_created(2-4) sample_message_prepared
    by (simp add: message_store_def AddMessage_def checked_def admitTransientContent_def sample_env_def findMessageByID_def)
qed

lemma sample_message_stored:
  "message_store = messaged_store sample_env (sample_message ''m1'' ''hello'') sample_session sample_session_store"
proof -
  have i: "msg_SessionID (sample_message ''m1'' ''hello'') = ''s_fallback''" by (simp add: sample_message_def)
  have none: "findMessageByID (st_messages sample_session_store) j = None" for j
    by (simp add: findMessageByID_def sample_session_created(3))
  obtain m se where m: "prepareMessage (en_rand sample_env) (sample_message ''m1'' ''hello'') (en_now sample_env) = Inr m"
    "mget (st_sessions sample_session_store) (msg_SessionID m) = Some se" "message_store = messaged_store sample_env m se sample_session_store"
    using AddMessage_cases [OF sample_message_added] none by auto
  have "m = sample_message ''m1'' ''hello''" using m(1) sample_message_prepared(1) by (simp add: sample_env_def)
  then show ?thesis using m(2,3) i sample_session_created(2) by simp
qed

text \<open>C29: a message is stored once. After a message was added, adding a message with its identity again, with whatever content,
  for whatever session and after whatever other writes, answers with the stored message and changes nothing.\<close>

theorem message_added_once:
  assumes "reach empty_store session_step s" and "AddMessage cx env message s = (Inr q, s')" and "session_step\<^sup>*\<^sup>* s' t"
    and "msg_ID m = msg_ID q" and "TrimSpace (msg_SessionID m) \<noteq> []" and "admitTransientContent (PMessage m) t = None"
  shows "AddMessage open_ctx env' m t = (Inr q, t)"
proof -
  have inv: "sessions_inv s" using conversations.reach_inv [OF assms(1)] .
  have inv': "sessions_inv s'" by (rule sessions_inv_step [OF step_message [OF assms(2)] inv])
  have "sessions_inv t" by (rule conversations.steps_inv [OF assms(3) inv'])
  then have ids: "distinct (map msg_ID (stored_messages t))" by (simp add: sessions_inv_def)
  have "q \<in> set (stored_messages t)" using messages_kept_steps [OF assms(3) inv'] added_stored(1) [OF inv assms(2)] by blast
  then have "findMessageByID (st_messages t) (msg_ID q) = Some q" using findMessage_Some [OF ids] by simp
  moreover obtain x where "prepareMessage (en_rand env') m (en_now env') = Inr x" "msg_ID x = msg_ID q"
    using assms(4,5) added_stored(2) [OF inv assms(2)] by (simp add: prepareMessage_def)
  ultimately show ?thesis using assms(6) by (simp add: AddMessage_def checked_def)
qed

lemma message_added_once_witness:
  "AddMessage open_ctx sample_env ((sample_message ''m1'' ''other'')\<lparr>msg_SessionID := ''another''\<rparr>) message_store =
     (Inr (sample_message ''m1'' ''hello''), message_store)"
proof (rule message_added_once [OF sample_session_reach sample_message_added])
  have "TrimSpace ''another'' \<noteq> []" by code_simp
  then show "TrimSpace (msg_SessionID ((sample_message ''m1'' ''other'')\<lparr>msg_SessionID := ''another''\<rparr>)) \<noteq> []" by simp
  have "st_transientContentAdmission message_store = st_transientContentAdmission sample_session_store"
    unfolding sample_message_stored by (simp add: messaged_store_def put_session_def)
  then show "admitTransientContent (PMessage ((sample_message ''m1'' ''other'')\<lparr>msg_SessionID := ''another''\<rparr>)) message_store = None"
    by (simp add: admitTransientContent_def sample_session_created(4))
qed (simp_all add: sample_message_def)

text \<open>C31: conversations are listed in order and in full. In every reachable store the messages of a session come back in strict order
  of time and identity, they are exactly the stored messages that name the session, none is later than the session's update
  time, and the bounded reading of the newest ones is the reversed listing without the excluded ones, cut at the limit.\<close>

theorem conversation_listed:
  assumes "reach empty_store session_step s" and "validateRecentHistoryQuery i cutoff n = None"
  shows "ListMessages open_ctx i s = (Inr (messages_at i s), s) \<and>
    sorted_wrt (<) (map message_key (messages_at i s)) \<and>
    (\<forall>m. m \<in> set (messages_at i s) \<longleftrightarrow> m \<in> set (stored_messages s) \<and> msg_SessionID m = i) \<and>
    (\<forall>se m. mget (st_sessions s) i = Some se \<longrightarrow> m \<in> set (messages_at i s) \<longrightarrow> msg_CreatedAt m \<le> se_UpdatedAt se) \<and>
    ListRecentMessages open_ctx i cutoff x n s =
      (Inr (take (nat n) (filter (\<lambda>m. msg_CreatedAt m \<le> cutoff \<and> msg_ID m \<noteq> x) (rev (messages_at i s)))), s)"
proof -
  have inv: "sessions_inv s" using conversations.reach_inv [OF assms(1)] .
  have conv: "\<exists>se. mget (st_sessions s) j = Some se \<and> conversation_ok se ms" if "mget (st_messages s) j = Some ms" for j ms
    using inv that unfolding sessions_inv_def by blast
  have strict: "sorted_wrt (<) (map message_key (messages_at i s))"
    using conv [of i] by (cases "mget (st_messages s) i") (auto simp: messages_at_def conversation_ok_def)
  then have "sorted (map message_key (messages_at i s))" by (simp add: strict_sorted_iff)
  then have listed: "ListMessages open_ctx i s = (Inr (messages_at i s), s)"
    by (simp add: ListMessages_def framed_def checked_def message_order.SortFunc_eq sort_key_id_if_sorted)
  have own: "msg_SessionID m = j" if "mget (st_messages s) j = Some ms" "m \<in> set ms" for j ms m
    using conv [OF that(1)] sessions_inv_get(1) [OF inv] that(2) by (auto simp: conversation_ok_def)
  have at: "m \<in> set (messages_at i s) \<longleftrightarrow> m \<in> set (stored_messages s) \<and> msg_SessionID m = i" for m
  proof
    assume "m \<in> set (messages_at i s)"
    then obtain ms where ms: "mget (st_messages s) i = Some ms" "m \<in> set ms"
      by (cases "mget (st_messages s) i") (auto simp: messages_at_def simp del: map_of_eq_Some_iff)
    then have "ms \<in> set (mvals (st_messages s))" by (force simp: mvals_def dest!: map_of_SomeD)
    then show "m \<in> set (stored_messages s) \<and> msg_SessionID m = i" using ms own by auto
  next
    assume m: "m \<in> set (stored_messages s) \<and> msg_SessionID m = i"
    then obtain j ms where jm: "(j, ms) \<in> set (st_messages s)" "m \<in> set ms" by (auto simp: mvals_def)
    have "distinct (map fst (st_messages s))" using inv by (simp add: sessions_inv_def)
    then have "mget (st_messages s) j = Some ms" using jm(1) by simp
    then show "m \<in> set (messages_at i s)" using own jm(2) m by (simp add: messages_at_def)
  qed
  have clock: "msg_CreatedAt m \<le> se_UpdatedAt se" if "mget (st_sessions s) i = Some se" "m \<in> set (messages_at i s)" for se m
    using messages_at_inv [OF inv that(1)] that(2) by (simp add: conversation_ok_def)
  have recent: "recent_messages cutoff x k ms = take k (filter (\<lambda>m. msg_CreatedAt m \<le> cutoff \<and> msg_ID m \<noteq> x) ms)" for k ms
    by (induction cutoff x k ms rule: recent_messages.induct) auto
  have "ListRecentMessages open_ctx i cutoff x n s =
      (Inr (take (nat n) (filter (\<lambda>m. msg_CreatedAt m \<le> cutoff \<and> msg_ID m \<noteq> x) (rev (messages_at i s)))), s)"
    using assms(2) by (simp add: ListRecentMessages_def checked_def recent)
  then show ?thesis using listed strict at clock by blast
qed

lemma conversation_listed_witness:
  "ListMessages open_ctx ''s_fallback'' message_store = (Inr (messages_at ''s_fallback'' message_store), message_store) \<and>
   sample_message ''m1'' ''hello'' \<in> set (messages_at ''s_fallback'' message_store)"
proof -
  have r: "reach empty_store session_step message_store"
    by (rule reach_step [OF sample_session_reach step_message [OF sample_message_added]])
  have v: "validateRecentHistoryQuery ''s_fallback'' 9000 10 = None" by code_simp
  have "sample_message ''m1'' ''hello'' \<in> set (stored_messages message_store)"
    by (rule added_stored(1) [OF conversations.reach_inv [OF sample_session_reach] sample_message_added])
  moreover have "msg_SessionID (sample_message ''m1'' ''hello'') = ''s_fallback''" by (simp add: sample_message_def)
  ultimately show ?thesis using conversation_listed [OF r v] by blast
qed

lemma sessions_move:
  assumes inv: "sessions_inv s" and "session_step s s'" and "mget (st_sessions s) i = Some a"
  shows "\<exists>b. mget (st_sessions s') i = Some b \<and> (b = a \<or> se_UpdatedAt a < se_UpdatedAt b) \<and> se_ID b = i \<and>
    se_OwnerID b = se_OwnerID a \<and> se_Source b = se_Source a \<and> se_WorkspaceRoot b = se_WorkspaceRoot a \<and>
    se_Hidden b = se_Hidden a \<and> se_CreatedAt b = se_CreatedAt a"
proof -
  note a = sessions_inv_get [OF inv assms(3)]
  from assms(2) show ?thesis
  proof cases
    case (step_create env cx op title owner wroot source hidden res)
    from createSession_cases [OF step_create(2)] assms(3) a(1) show ?thesis
      by (auto simp: created_store_def put_session_def mget_mput)
  next
    case (step_rename cx env j title res)
    have "se_UpdatedAt a < nextSessionTime (en_now env) [se_UpdatedAt a, session_floor s i]"
      using nextSessionTime_after [of "se_UpdatedAt a"] sessionTime_fixed [OF a(5)] by simp
    with UpdateSessionTitle_cases [OF step_rename] assms(3) a(1) show ?thesis
      by (auto simp: renamed_store_def put_session_def mget_mput)
  next
    case (step_message cx env m res)
    from AddMessage_cases [OF step_message] show ?thesis
    proof (elim disjE exE conjE)
      fix x se assume x: "prepareMessage (en_rand env) m (en_now env) = Inr x" and se: "mget (st_sessions s) (msg_SessionID x) = Some se"
        and s': "s' = messaged_store env x se s"
      note u = messaged_session_ok [OF inv se prepareMessage_ok(2) [OF x]]
      show ?thesis
        using u(2,3) assms(3) a(1) se
        by (cases "i = msg_SessionID x") (auto simp: s' messaged_store_def put_session_def messaged_session_def)
    qed (use assms(3) a(1) in auto)
  next
    case (step_draft cx env owner sid d res)
    from SaveWorkbenchDraft_cases [OF step_draft] assms(3) a(1) show ?thesis by (auto simp: drafted_store_def)
  qed
qed

text \<open>C32: the writes of the conversation repository only move a session forward. Creating and renaming sessions, adding messages and
  saving drafts never change who owns a stored session, where it comes from, its workspace, whether it is hidden or when it was
  created, and whenever one of them changes a session its update time strictly increases. Deletions and the write of an external
  chat, \<open>SaveExternalChatSession\<close>, which hides the session it links and may rewrite its owner, source and workspace, are not among
  these writes.\<close>

theorem sessions_move_forward:
  assumes "reach empty_store session_step s" and "session_step s s'" and "mget (st_sessions s) i = Some a"
  shows "\<exists>b. mget (st_sessions s') i = Some b \<and> (b = a \<or> se_UpdatedAt a < se_UpdatedAt b) \<and> se_ID b = i \<and>
    se_OwnerID b = se_OwnerID a \<and> se_Source b = se_Source a \<and> se_WorkspaceRoot b = se_WorkspaceRoot a \<and>
    se_Hidden b = se_Hidden a \<and> se_CreatedAt b = se_CreatedAt a"
  by (rule sessions_move [OF conversations.reach_inv [OF assms(1)] assms(2,3)])

lemma sessions_move_forward_witness:
  "\<exists>b. mget (st_sessions message_store) ''s_fallback'' = Some b \<and> se_OwnerID b = ''owner'' \<and> se_CreatedAt b = 5000"
  using sessions_move_forward [OF sample_session_reach step_message [OF sample_message_added] sample_session_created(2)]
  by (auto simp: sample_session_def)

section \<open>Pages of message events\<close>

text \<open>A client that follows the cursor while a page says there is more. It asks for at most \<open>fuel\<close> pages: \<open>None\<close> is a client that
  has not come to the last page by then, \<open>Some (Inl e)\<close> one that was refused a page.\<close>

fun follow_pages :: "nat \<Rightarrow> string \<Rightarrow> string \<Rightarrow> int \<Rightarrow> MemoryStore \<Rightarrow> (go_error + Event list) option" where
  "follow_pages 0 sid after limit s = None"
| "follow_pages (Suc fuel) sid after limit s = (case fst (MessageEventsAfter open_ctx sid after limit s) of
     Inl e \<Rightarrow> Some (Inl e)
   | Inr p \<Rightarrow>
       if mp_HasMore p
       then map_option (map_sum id (append (mp_Events p))) (follow_pages fuel sid (mp_NextCursor p) limit s)
       else Some (Inr (mp_Events p)))"

lemma events_behind_split:
  "distinct (map ev_ID (xs @ e # ys)) \<Longrightarrow> message_event sid e \<Longrightarrow> events_behind sid (ev_ID e) (xs @ e # ys) = Some ys"
  by (induction xs) auto

definition behind :: "string \<Rightarrow> string \<Rightarrow> Event list \<Rightarrow> Event list option" where
  "behind sid after es = (if after = [] then Some es else events_behind sid after es)"

definition page_limit :: "int \<Rightarrow> int" where
  "page_limit limit = (if limit \<le> 0 \<or> limit > MessageEventPageLimit then MessageEventPageLimit else limit)"

lemma page_limit_pos: "1 \<le> page_limit limit"
  by (simp add: page_limit_def)

lemma MessageEventsAfter_page:
  fixes limit :: int
  assumes "behind sid after (st_events s) = Some rest"
  defines "ms \<equiv> filter (message_event sid) rest" and "n \<equiv> nat (page_limit limit)"
  shows "MessageEventsAfter open_ctx sid after limit s =
    (Inr \<lparr>mp_Events = take n ms, mp_NextCursor = (if ms = [] then after else ev_ID (last (take n ms))), mp_HasMore = (n < length ms)\<rparr>, s)"
proof -
  have n: "int n = page_limit limit" "0 < n" using page_limit_pos [of limit] by (simp_all add: n_def)
  have more: "(int (length (take (n + 1) ms)) > page_limit limit) = (n < length ms)"
    unfolding n(1) [symmetric] by (simp add: min_def)
  have page: "(if n < length ms then take n (take (n + 1) ms) else take (n + 1) ms) = take n ms"
    by (simp add: min_def)
  have ne: "(take n ms \<noteq> []) = (ms \<noteq> [])" using n(2) by (cases ms) simp_all
  show ?thesis
    using assms(1) more page ne n(2)
    unfolding MessageEventsAfter_def framed_def behind_def page_limit_def [symmetric] Let_def
    by (simp add: checked_def n_def [symmetric] ms_def [symmetric])
qed

lemma filter_split:
  "filter P xs = as @ e # bs \<Longrightarrow> \<exists>us vs. xs = us @ e # vs \<and> P e \<and> filter P vs = bs"
proof (induction xs arbitrary: as)
  case (Cons x xs)
  show ?case
  proof (cases "P x \<and> as = []")
    case True
    then show ?thesis using Cons.prems by (intro exI [of _ "[]"] exI [of _ xs]) simp
  next
    case False
    then obtain as' where "filter P xs = as' @ e # bs"
      using Cons.prems by (cases "P x"; cases as) auto
    from Cons.IH [OF this] obtain us vs where "xs = us @ e # vs" "P e" "filter P vs = bs" by blast
    then show ?thesis by (intro exI [of _ "x # us"] exI [of _ vs]) simp
  qed
qed simp

lemma follow_pages_rest:
  assumes "distinct (map ev_ID (st_events s))" and "[] \<notin> set (map ev_ID (st_events s))"
    and "behind sid after (st_events s) = Some rest" and "st_events s = front @ rest" and "length rest < fuel"
  shows "follow_pages fuel sid after limit s = Some (Inr (filter (message_event sid) rest))"
  using assms(3-5)
proof (induction fuel arbitrary: after rest front)
  case (Suc fuel)
  let ?ms = "filter (message_event sid) rest" and ?n = "nat (page_limit limit)"
  note page = MessageEventsAfter_page [OF Suc.prems(1), of limit]
  have n: "0 < ?n" using page_limit_pos [of limit] by simp
  show ?case
  proof (cases "?n < length ?ms")
    case False
    then show ?thesis by (simp add: page)
  next
    case True
    then have "take ?n ?ms \<noteq> []" using n by auto
    then obtain ts e where te: "take ?n ?ms = ts @ [e]" by (metis rev_exhaust)
    moreover have "?ms = take ?n ?ms @ drop ?n ?ms" by simp
    ultimately have "?ms = ts @ e # drop ?n ?ms" by (metis append.assoc append_Cons append_Nil)
    from filter_split [OF this] obtain us vs where uv: "rest = us @ e # vs" "message_event sid e" "filter (message_event sid) vs = drop ?n ?ms"
      by blast
    have ev: "st_events s = (front @ us) @ e # vs" using Suc.prems(2) uv(1) by simp
    then have b: "events_behind sid (ev_ID e) (st_events s) = Some vs"
      using events_behind_split [OF _ uv(2), of "front @ us" vs] assms(1) by simp
    have "ev_ID e \<noteq> []" using assms(2) ev by auto
    then have next_pages: "follow_pages fuel sid (ev_ID e) limit s = Some (Inr (drop ?n ?ms))"
    proof -
      assume ne: "ev_ID e \<noteq> []"
      have "behind sid (ev_ID e) (st_events s) = Some vs" using b ne unfolding behind_def by simp
      moreover have "st_events s = (front @ us @ [e]) @ vs" unfolding ev by simp
      moreover have "length vs < fuel" using Suc.prems(3) unfolding uv(1) by simp
      ultimately show ?thesis using Suc.IH uv(3) by metis
    qed
    have l: "last (take ?n ?ms) = e" "?ms \<noteq> []" unfolding te using True by auto
    then show ?thesis unfolding follow_pages.simps page using True next_pages by simp
  qed
qed simp

text \<open>C30: paging through a conversation ends, and loses and repeats nothing. When event identities are distinct and not empty, a client
  that starts at the beginning or behind any message event of the session, asks for pages of any size and follows the returned cursor
  while a page says there is more, is told that there is no more after at most one page for each later event and one besides, and
  has then received exactly the later message events of that session, in order; a cursor that is not a message event of the
  session is refused.\<close>

theorem message_pages_complete:
  assumes "distinct (map ev_ID (st_events s))" and "[] \<notin> set (map ev_ID (st_events s))" and "st_events s = front @ rest"
    and "if after = [] then front = [] else front \<noteq> [] \<and> ev_ID (last front) = after \<and> message_event sid (last front)"
    and "length rest < fuel"
  shows "follow_pages fuel sid after limit s = Some (Inr (filter (message_event sid) rest)) \<and>
    (\<forall>c. c \<noteq> [] \<longrightarrow> c \<notin> set (map ev_ID (filter (message_event sid) (st_events s))) \<longrightarrow>
      (\<exists>e. MessageEventsAfter open_ctx sid c limit s = (Inl e, s)))"
proof -
  have "behind sid after (st_events s) = Some rest"
  proof (cases "after = []")
    case False
    then have f: "front = butlast front @ [last front]" "ev_ID (last front) = after" "message_event sid (last front)" using assms(4) by simp_all
    then have "st_events s = butlast front @ last front # rest" using assms(3) by (metis append.assoc append_Cons append_Nil)
    then show ?thesis using events_behind_split [OF _ f(3), of "butlast front" rest] assms(1) False f(2) by (simp add: behind_def)
  qed (use assms(3,4) in \<open>simp add: behind_def\<close>)
  then have all: "follow_pages fuel sid after limit s = Some (Inr (filter (message_event sid) rest))"
    by (rule follow_pages_rest [OF assms(1,2) _ assms(3,5)])
  have none: "c \<notin> set (map ev_ID (filter (message_event sid) es)) \<Longrightarrow> events_behind sid c es = None" for c es
    by (induction es) auto
  have "\<exists>e. MessageEventsAfter open_ctx sid c limit s = (Inl e, s)"
    if "c \<noteq> []" "c \<notin> set (map ev_ID (filter (message_event sid) (st_events s)))" for c
    using none [OF that(2)] that(1) by (simp add: MessageEventsAfter_def framed_def checked_def Let_def)
  with all show ?thesis by blast
qed

definition page_store :: MemoryStore where
  "page_store = NewMemoryStore\<lparr>st_events := map (\<lambda>(i, t). \<lparr>ev_ID = i, ev_Time = 0, ev_Type = t, ev_SessionID = ''s'', ev_RunID = [],
     ev_Payload = POther AnyNil\<rparr>) [(''a'', ''message.created''), (''b'', ''run.done''), (''c'', ''message.created''), (''d'', ''message.created'')]\<rparr>"

lemma message_pages_complete_witness:
  "\<exists>es. follow_pages 5 ''s'' [] 1 page_store = Some (Inr es) \<and> map ev_ID es = [''a'', ''c'', ''d'']"
proof -
  have "follow_pages 5 ''s'' [] 1 page_store = Some (Inr (filter (message_event ''s'') (st_events page_store)))"
    by (rule message_pages_complete [of page_store "[]", THEN conjunct1]) (simp_all add: page_store_def)
  then show ?thesis by (simp add: page_store_def message_event_def)
qed

section \<open>Drafts\<close>

lemma draft_revisions_grow: "session_step s s' \<Longrightarrow> wd_Revision (draft_at o' i s) \<le> wd_Revision (draft_at o' i s')"
proof (induction rule: session_step.induct)
  case (step_create env cx op title owner wroot source hidden s res s')
  from createSession_cases [OF step_create(2)] show ?case by (auto simp: created_store_def put_session_def draft_at_def)
next
  case (step_rename cx env j title s res s')
  from UpdateSessionTitle_cases [OF step_rename] show ?case by (auto simp: renamed_store_def put_session_def draft_at_def)
next
  case (step_message cx env message s res s')
  from AddMessage_cases [OF step_message] show ?case by (auto simp: messaged_store_def put_session_def draft_at_def)
next
  case (step_draft cx env owner sid d s res s')
  from SaveWorkbenchDraft_cases [OF step_draft] show ?case by (auto simp: drafted_store_def draft_at_def mget_mput)
qed

text \<open>A stale draft never comes back. Once a draft was saved over some revision, every later save that names that revision or an
  older one is refused and changes nothing, so a client that still shows the old text cannot restore it.\<close>

theorem stale_drafts_refused:
  assumes "SaveWorkbenchDraft cx env o' i d s = (Inr d', s')" and "session_step\<^sup>*\<^sup>* s' t" and "wd_Revision x \<le> wd_Revision d"
  shows "\<exists>e. SaveWorkbenchDraft cx' env' o' i x t = (Inl e, t)"
proof -
  have "wd_Revision (draft_at o' i s') = wd_Revision d + 1"
    using SaveWorkbenchDraft_cases [OF assms(1)] by (auto simp: drafted_store_def draft_at_def)
  moreover have "wd_Revision (draft_at o' i s') \<le> wd_Revision (draft_at o' i t)"
    using assms(2) by (induction rule: rtranclp_induct) (auto intro: order.trans draft_revisions_grow)
  ultimately have ne: "wd_Revision (draft_at o' i t) \<noteq> wd_Revision x" using assms(3) by simp
  obtain res t' where r: "SaveWorkbenchDraft cx' env' o' i x t = (res, t')" by fastforce
  with SaveWorkbenchDraft_cases [OF r] ne show ?thesis by auto
qed

lemma stale_drafts_refused_witness:
  "\<exists>d' s' e. SaveWorkbenchDraft open_ctx sample_env ''owner'' ''s_fallback'' \<lparr>wd_Content = ''a'', wd_AttachmentIDs = [], wd_Revision = 0, wd_UpdatedAt = 0\<rparr>
       sample_session_store = (Inr d', s') \<and>
     SaveWorkbenchDraft open_ctx sample_env ''owner'' ''s_fallback'' \<lparr>wd_Content = ''b'', wd_AttachmentIDs = [], wd_Revision = 0, wd_UpdatedAt = 0\<rparr>
       s' = (Inl e, s')"
proof -
  let ?d = "\<lparr>wd_Content = ''a'', wd_AttachmentIDs = [], wd_Revision = 0, wd_UpdatedAt = 0\<rparr>"
  have v: "validateWorkbenchDraftScope ''owner'' ''s_fallback'' = None" "validateWorkbenchDraft ?d = None"
  proof -
    show "validateWorkbenchDraftScope ''owner'' ''s_fallback'' = None" by code_simp
    have "ValidString ''a''"
      by (simp add: ValidString_def runes.simps [of "''a''"] runes.simps [of "[]"] rune_len_def byte_def)
    then show "validateWorkbenchDraft ?d = None" by (simp add: validateWorkbenchDraft_def)
  qed
  have "draftSessionLocked ''owner'' ''s_fallback'' sample_session_store"
    by (simp add: draftSessionLocked_def sample_session_created(2)) (simp add: sample_session_def)
  moreover have "wd_Revision (draft_at ''owner'' ''s_fallback'' sample_session_store) = 0"
    by (simp add: draft_at_def sample_session_created(5))
  ultimately have "\<exists>d'. fst (SaveWorkbenchDraft open_ctx sample_env ''owner'' ''s_fallback'' ?d sample_session_store) = Inr d'"
    using v unfolding SaveWorkbenchDraft_def checked_def open_ctx_passes join2_def Let_def by simp
  then obtain d' s' where s: "SaveWorkbenchDraft open_ctx sample_env ''owner'' ''s_fallback'' ?d sample_session_store = (Inr d', s')"
    by (metis prod.collapse)
  obtain e where "SaveWorkbenchDraft open_ctx sample_env ''owner'' ''s_fallback'' \<lparr>wd_Content = ''b'', wd_AttachmentIDs = [], wd_Revision = 0, wd_UpdatedAt = 0\<rparr>
      s' = (Inl e, s')"
    using stale_drafts_refused [OF s rtranclp.rtrancl_refl, of "\<lparr>wd_Content = ''b'', wd_AttachmentIDs = [], wd_Revision = 0, wd_UpdatedAt = 0\<rparr>"] by auto
  with s show ?thesis by blast
qed

end
