(* ===== verification/Approval_Inputs.thy ===== *)
theory Approval_Inputs
  imports App_JSON
begin

text \<open>
  The form an approval can ask its owner to fill in, \<open>internal/app/approval_inputs.go\<close>: validation of the
  form, of the submitted values against it and the digests that bind a submission to the exact form it
  answers. The byte sizes of the JSON texts and the SHA-256 digests are taken from a record of functions,
  \<open>json_lib\<close>: the code compares sizes with a limit and digests for equality and uses nothing else of them.
\<close>

record json_lib =
  form_bytes :: "ApprovalInputForm \<Rightarrow> nat"
  values_bytes :: "ApprovalInputValues \<Rightarrow> nat"
  values_sha256 :: "ApprovalInputValues \<Rightarrow> string"
  form_sha256 :: "string \<times> string \<times> string \<times> string \<times> string \<times> (string, goany) gomap \<times> ApprovalInputForm option \<Rightarrow> string"

section \<open>Encoding\<close>

definition finite_bound :: "gofloat option \<Rightarrow> bool" where
  "finite_bound b = (case b of None \<Rightarrow> True | Some (Finite q) \<Rightarrow> True | _ \<Rightarrow> False)"

definition form_encodes :: "ApprovalInputForm \<Rightarrow> bool" where
  "form_encodes form \<longleftrightarrow>
     list_all (\<lambda>e. list_all (\<lambda>f. finite_bound (if_Min f) \<and> finite_bound (if_Max f)) (ie_Fields e)) (af_Entries form)"

definition values_encode :: "ApprovalInputValues \<Rightarrow> bool" where
  "values_encode vs \<longleftrightarrow> list_all (\<lambda>(i, m). map_ok m) vs"

definition values_norm :: "ApprovalInputValues \<Rightarrow> ApprovalInputValues" where
  "values_norm vs = sort_keys (map (\<lambda>(i, m). (i, map_norm m)) vs)"

section \<open>The form\<close>

text \<open>The regular expression \<open>^[A-Za-z0-9][A-Za-z0-9_.:-]{0,79}$\<close>.\<close>

definition alnum :: "char \<Rightarrow> bool" where
  "alnum c \<longleftrightarrow> (48 \<le> byte c \<and> byte c \<le> 57) \<or> (65 \<le> byte c \<and> byte c \<le> 90) \<or> (97 \<le> byte c \<and> byte c \<le> 122)"

definition approvalFieldKey :: "string \<Rightarrow> bool" where
  "approvalFieldKey s = (case s of [] \<Rightarrow> False
     | c # cs \<Rightarrow> alnum c \<and> length cs \<le> 79 \<and> list_all (\<lambda>c. alnum c \<or> c \<in> set ''_.:-'') cs)"

definition RuneCount :: "string \<Rightarrow> nat" where
  "RuneCount s = length (runes s)"

definition float_above :: "gofloat \<Rightarrow> gofloat \<Rightarrow> bool" where
  "float_above a b = (case (a, b) of (Finite x, Finite y) \<Rightarrow> y < x | (PosInf, Finite y) \<Rightarrow> True | (PosInf, NegInf) \<Rightarrow> True
     | (Finite x, NegInf) \<Rightarrow> True | _ \<Rightarrow> False)"

definition field_range_bad :: "ApprovalInputField \<Rightarrow> bool" where
  "field_range_bad f \<longleftrightarrow> \<not> finite_bound (if_Min f) \<or> \<not> finite_bound (if_Max f) \<or>
     (case (if_Min f, if_Max f) of (Some lo, Some hi) \<Rightarrow> float_above lo hi | _ \<Rightarrow> False)"

fun valid_options :: "string list \<Rightarrow> ApprovalInputOption list \<Rightarrow> bool" where
  "valid_options seen [] = True"
| "valid_options seen (opt # opts) =
     (if io_Value opt = [] \<or> length (io_Value opt) > 256 \<or> io_Value opt \<in> set seen \<or>
         TrimSpace (io_Label opt) = [] \<or> RuneCount (io_Label opt) > 500 then False
      else valid_options (io_Value opt # seen) opts)"

definition validate_field_type :: "ApprovalInputField \<Rightarrow> go_error option" where
  "validate_field_type f =
     (if if_Type f = ApprovalInputText \<or> if_Type f = ApprovalInputNumber \<or> if_Type f = ApprovalInputDateOrNone
      then (if if_Options f \<noteq> [] then Some (Err ''unexpected approval options'') else None)
      else if if_Type f = ApprovalInputSelect
      then (if if_Options f = [] \<or> length (if_Options f) > 2000 then Some (Err ''invalid approval options'')
            else if valid_options [] (if_Options f) then None else Some (Err ''invalid approval option''))
      else Some (Err ''unsupported approval input type''))"

fun validate_fields :: "string list \<Rightarrow> ApprovalInputField list \<Rightarrow> go_error option" where
  "validate_fields seen [] = None"
| "validate_fields seen (f # fs) =
     (if \<not> approvalFieldKey (if_Name f) \<or> if_Name f \<in> set seen \<or> TrimSpace (if_Label f) = [] \<or>
         RuneCount (if_Label f) > 160 \<or> if_MaxLength f < 0 \<or> if_MaxLength f > 500
      then Some (Err ''invalid approval input field'')
      else if field_range_bad f then Some (Err ''invalid approval numeric range'')
      else (case validate_field_type f of
          Some e \<Rightarrow> Some e
        | None \<Rightarrow> validate_fields (if_Name f # seen) fs))"

fun validate_entries :: "string list \<Rightarrow> ApprovalInputEntry list \<Rightarrow> go_error option" where
  "validate_entries seen [] = None"
| "validate_entries seen (e # es) =
     (if \<not> approvalFieldKey (ie_ID e) \<or> ie_ID e \<in> set seen \<or> TrimSpace (ie_Label e) = [] \<or>
         RuneCount (ie_Label e) > 160 \<or> RuneCount (ie_Summary e) > 2000 \<or> length (ie_Fields e) > 20
      then Some (Err ''invalid approval input entry'')
      else (case validate_fields [] (ie_Fields e) of
          Some err \<Rightarrow> Some err
        | None \<Rightarrow> validate_entries (ie_ID e # seen) es))"

definition ValidateApprovalInputForm :: "json_lib \<Rightarrow> ApprovalInputForm option \<Rightarrow> go_error option" where
  "ValidateApprovalInputForm lib form = (case form of
     None \<Rightarrow> Some (Err ''approval input form is missing'')
   | Some form \<Rightarrow>
       if \<not> form_encodes form \<or> form_bytes lib form > ApprovalInputMaxBytes \<or>
          af_SchemaVersion form \<noteq> ApprovalInputSchemaVersion \<or> af_Entries form = [] \<or> length (af_Entries form) > 20
       then Some (Err ''unsupported approval input form'')
       else (case validate_entries [] (af_Entries form) of
           Some e \<Rightarrow> Some e
         | None \<Rightarrow>
             if list_all (\<lambda>e. ie_Fields e = []) (af_Entries form)
             then Some (Err ''approval input form has no fields'') else None))"

section \<open>The values\<close>

text \<open>A control character other than a line feed, or DEL; bytes of longer encodings are at least 0x80.\<close>

definition control_char :: "char \<Rightarrow> bool" where
  "control_char c \<longleftrightarrow> (byte c < 32 \<and> byte c \<noteq> 10) \<or> byte c = 127"

definition is_digit :: "char \<Rightarrow> bool" where
  "is_digit c \<longleftrightarrow> 48 \<le> byte c \<and> byte c \<le> 57"

definition read_digits :: "string \<Rightarrow> int" where
  "read_digits s = foldl (\<lambda>n c. n * 10 + (int (byte c) - 48)) 0 s"

text \<open>\<open>time.Parse\<close> with the layout 2006-01-02, and the same text when formatted again.\<close>

definition valid_date :: "string \<Rightarrow> bool" where
  "valid_date s \<longleftrightarrow> length s = 10 \<and> s ! 4 = CHR ''-'' \<and> s ! 7 = CHR ''-'' \<and>
     list_all is_digit (take 4 s @ take 2 (drop 5 s) @ drop 8 s) \<and>
     (let y = read_digits (take 4 s); m = read_digits (take 2 (drop 5 s)); d = read_digits (drop 8 s)
      in 1 \<le> m \<and> m \<le> 12 \<and> civil_of_days (days_of_civil y m d) = (y, m, d))"

definition out_of_range :: "ApprovalInputField \<Rightarrow> rat \<Rightarrow> bool" where
  "out_of_range f n \<longleftrightarrow>
     (case if_Min f of Some lo \<Rightarrow> float_above lo (Finite n) | None \<Rightarrow> False) \<or>
     (case if_Max f of Some hi \<Rightarrow> float_above (Finite n) hi | None \<Rightarrow> False)"

definition validateApprovalValue :: "ApprovalInputField \<Rightarrow> goany \<Rightarrow> go_error option" where
  "validateApprovalValue f v =
     (if if_Type f = ApprovalInputNumber
      then (if \<not> any_ok v then Some (Err ''invalid number'')
            else (case v of
                AnyNumber n \<Rightarrow> if out_of_range f n then Some (Err ''number outside allowed range'') else None
              | _ \<Rightarrow> Some (Err ''number outside allowed range'')))
      else (case v of
          AnyString str \<Rightarrow>
            let limit = (if if_MaxLength f = 0 then 500 else if_MaxLength f)
            in if \<not> ValidString str \<or> int (RuneCount str) > limit \<or> TrimSpace str = []
               then Some (Err ''invalid text length'')
               else if list_ex control_char str then Some (Err ''invalid text character'')
               else if if_Type f = ApprovalInputSelect
               then (if list_ex (\<lambda>opt. str = io_Value opt) (if_Options f) then None
                     else Some (Err ''choose a listed option''))
               else if if_Type f = ApprovalInputDateOrNone
               then (if str = ''no_expiry'' \<or> valid_date str then None
                     else Some (Err ''choose a date or no expiry''))
               else None
        | _ \<Rightarrow> Some (Err ''text value required'')))"

text \<open>The entry with an identity; the last one of that identity, as the code's map has it.\<close>

definition entry_of :: "ApprovalInputForm \<Rightarrow> string \<Rightarrow> ApprovalInputEntry option" where
  "entry_of form i = List.find (\<lambda>e. ie_ID e = i) (rev (af_Entries form))"

fun unexpected_inputs :: "ApprovalInputForm \<Rightarrow> ApprovalInputValues \<Rightarrow> go_error option" where
  "unexpected_inputs form [] = None"
| "unexpected_inputs form ((i, m) # vs) = (case entry_of form i of
     None \<Rightarrow> Some (Err ''unexpected approval input entry'')
   | Some e \<Rightarrow>
       if list_all (\<lambda>(name, v). list_ex (\<lambda>f. if_Name f = name) (ie_Fields e)) m
       then unexpected_inputs form vs else Some (Err ''unexpected approval input field''))"

definition input_value :: "ApprovalInputValues \<Rightarrow> string \<Rightarrow> string \<Rightarrow> goany option" where
  "input_value vs i name = (case mget vs i of None \<Rightarrow> None | Some m \<Rightarrow> mget m name)"

definition absent :: "goany option \<Rightarrow> bool" where
  "absent v \<longleftrightarrow> v = None \<or> v = Some AnyNil \<or> v = Some (AnyString [])"

definition check_value :: "ApprovalInputValues \<Rightarrow> ApprovalInputEntry \<Rightarrow> ApprovalInputField \<Rightarrow> go_error option" where
  "check_value vs e f =
     (let v = input_value vs (ie_ID e) (if_Name f); label = ie_Label e @ '': '' @ if_Label f
      in if absent v then (if if_Required f then Some (Err (label @ '' is required'')) else None)
         else (case validateApprovalValue f (the v) of None \<Rightarrow> None | Some err \<Rightarrow> Some (Wrap label err)))"

text \<open>The first error of a loop that returns on an error.\<close>

fun first_error :: "('a \<Rightarrow> go_error option) \<Rightarrow> 'a list \<Rightarrow> go_error option" where
  "first_error f [] = None"
| "first_error f (x # xs) = (case f x of Some e \<Rightarrow> Some e | None \<Rightarrow> first_error f xs)"

definition ValidateApprovalInputs :: "json_lib \<Rightarrow> ApprovalInputForm option \<Rightarrow> ApprovalInputValues \<Rightarrow> go_error option" where
  "ValidateApprovalInputs lib form vs = (case ValidateApprovalInputForm lib form of
     Some e \<Rightarrow> Some e
   | None \<Rightarrow>
       if \<not> values_encode vs \<or> values_bytes lib (values_norm vs) > ApprovalInputMaxBytes
       then Some (Err ''approval inputs exceed capacity'')
       else (case form of
           None \<Rightarrow> None
         | Some form \<Rightarrow> (case unexpected_inputs form vs of
               Some e \<Rightarrow> Some e
             | None \<Rightarrow> first_error (\<lambda>e. first_error (check_value vs e) (ie_Fields e)) (af_Entries form))))"

section \<open>Digests\<close>

definition ApprovalInputsDigest :: "json_lib \<Rightarrow> ApprovalInputValues \<Rightarrow> go_error + string" where
  "ApprovalInputsDigest lib vs =
     (if values_encode vs then Inr (values_sha256 lib (values_norm vs)) else Inl (Err ''json: unsupported value''))"

definition ApprovalFormDigest :: "json_lib \<Rightarrow> Approval \<Rightarrow> go_error + string" where
  "ApprovalFormDigest lib a =
     (if map_ok (ap_Arguments a) \<and> (case ap_InputForm a of None \<Rightarrow> True | Some form \<Rightarrow> form_encodes form)
      then Inr (form_sha256 lib (ap_ID a, ap_SessionID a, ap_RunID a, ap_ToolCallID a, ap_Tool a,
        map_norm (ap_Arguments a), ap_InputForm a))
      else Inl (Err ''json: unsupported value''))"

section \<open>Lemmas\<close>

lemma first_error_None: "first_error f xs = None \<longleftrightarrow> (\<forall>x \<in> set xs. f x = None)"
  by (induction xs) (auto split: option.splits)

lemma validate_entries_distinct:
  "validate_entries seen es = None \<Longrightarrow> distinct (map ie_ID es) \<and> set (map ie_ID es) \<inter> set seen = {}"
  by (induction seen es rule: validate_entries.induct) (auto split: if_splits option.splits)

lemma validate_entries_fields:
  "validate_entries seen es = None \<Longrightarrow> e \<in> set es \<Longrightarrow> validate_fields [] (ie_Fields e) = None"
  by (induction seen es rule: validate_entries.induct) (auto split: if_splits option.splits)

lemma validate_fields_distinct:
  "validate_fields seen fs = None \<Longrightarrow> distinct (map if_Name fs) \<and> set (map if_Name fs) \<inter> set seen = {}"
  by (induction seen fs rule: validate_fields.induct) (auto split: if_splits option.splits)

lemma validate_fields_member:
  "validate_fields seen fs = None \<Longrightarrow> f \<in> set fs \<Longrightarrow>
     0 \<le> if_MaxLength f \<and> if_MaxLength f \<le> 500 \<and> \<not> field_range_bad f \<and> validate_field_type f = None"
  by (induction seen fs rule: validate_fields.induct) (auto split: if_splits option.splits)

lemma unexpected_inputs_None:
  "unexpected_inputs form vs = None \<longleftrightarrow>
     (\<forall>(i, m) \<in> set vs. \<exists>e. entry_of form i = Some e \<and> (\<forall>(name, v) \<in> set m. \<exists>f \<in> set (ie_Fields e). if_Name f = name))"
  by (induction form vs rule: unexpected_inputs.induct) (auto simp: list_all_iff list_ex_iff split: option.splits)

lemma entry_of_member: "entry_of form i = Some e \<Longrightarrow> e \<in> set (af_Entries form) \<and> ie_ID e = i"
  unfolding entry_of_def find_Some_iff by (metis length_rev nth_mem set_rev)

text \<open>What an accepted value is.\<close>

lemma accepted_number:
  "validateApprovalValue f v = None \<Longrightarrow> if_Type f = ApprovalInputNumber \<Longrightarrow> \<exists>n. v = AnyNumber n \<and> \<not> out_of_range f n"
  by (cases v) (auto simp: validateApprovalValue_def split: if_splits)

lemma guarded_None:
  assumes "(if a then Some x else if b then Some y else if c then (if d then None else Some z)
    else if e then (if g then None else Some w) else None) = None"
  shows "\<not> a \<and> \<not> b \<and> (c \<longrightarrow> d) \<and> (e \<longrightarrow> \<not> c \<longrightarrow> g)"
  using assms by (simp split: if_split_asm)

lemma accepted_text:
  assumes "validateApprovalValue f v = None" and "if_Type f \<noteq> ApprovalInputNumber"
  obtains str where "v = AnyString str" and "ValidString str" and "TrimSpace str \<noteq> []"
    and "int (RuneCount str) \<le> (if if_MaxLength f = 0 then 500 else if_MaxLength f)"
    and "if_Type f = ApprovalInputSelect \<Longrightarrow> str \<in> io_Value ` set (if_Options f)"
    and "if_Type f = ApprovalInputDateOrNone \<Longrightarrow> str = ''no_expiry'' \<or> valid_date str"
proof -
  obtain str where v: "v = AnyString str"
    using assms by (cases v) (simp_all add: validateApprovalValue_def)
  have "if_Type f = ApprovalInputDateOrNone \<Longrightarrow> if_Type f \<noteq> ApprovalInputSelect"
    by simp
  with guarded_None [OF assms(1) [unfolded validateApprovalValue_def v if_not_P [OF assms(2)] goany.case Let_def]]
  show thesis
    using that [OF v] by (force simp: list_ex_iff)
qed

text \<open>What a field admits.\<close>

definition value_fits :: "ApprovalInputField \<Rightarrow> goany \<Rightarrow> bool" where
  "value_fits f v \<longleftrightarrow>
     (if if_Type f = ApprovalInputNumber then (\<exists>n. v = AnyNumber n \<and> \<not> out_of_range f n)
      else (\<exists>str. v = AnyString str \<and> ValidString str \<and> TrimSpace str \<noteq> [] \<and> RuneCount str \<le> 500 \<and>
        (if_Type f = ApprovalInputSelect \<longrightarrow> str \<in> io_Value ` set (if_Options f)) \<and>
        (if_Type f = ApprovalInputDateOrNone \<longrightarrow> str = ''no_expiry'' \<or> valid_date str)))"

lemma accepted_fits:
  assumes "validateApprovalValue f v = None" and "0 \<le> if_MaxLength f" and "if_MaxLength f \<le> 500"
  shows "value_fits f v"
proof (cases "if_Type f = ApprovalInputNumber")
  case True
  with accepted_number [OF assms(1)] show ?thesis by (simp add: value_fits_def)
next
  case False
  from accepted_text [OF assms(1) False] obtain str where str: "v = AnyString str" "ValidString str" "TrimSpace str \<noteq> []"
      "int (RuneCount str) \<le> (if if_MaxLength f = 0 then 500 else if_MaxLength f)"
      "if_Type f = ApprovalInputSelect \<Longrightarrow> str \<in> io_Value ` set (if_Options f)"
      "if_Type f = ApprovalInputDateOrNone \<Longrightarrow> str = ''no_expiry'' \<or> valid_date str"
    by blast
  have "RuneCount str \<le> 500"
    using str(4) assms(3) by (simp split: if_splits)
  with False str show ?thesis
    unfolding value_fits_def by (simp only: if_False) blast
qed

lemma form_members:
  assumes "ValidateApprovalInputForm lib (Some form) = None"
  shows "distinct (map ie_ID (af_Entries form))" and "af_Entries form \<noteq> []"
    and "e \<in> set (af_Entries form) \<Longrightarrow> distinct (map if_Name (ie_Fields e))"
    and "e \<in> set (af_Entries form) \<Longrightarrow> f \<in> set (ie_Fields e) \<Longrightarrow> 0 \<le> if_MaxLength f \<and> if_MaxLength f \<le> 500"
proof -
  have v: "validate_entries [] (af_Entries form) = None" and "af_Entries form \<noteq> []"
    using assms by (auto simp: ValidateApprovalInputForm_def split: if_splits option.splits)
  then show "distinct (map ie_ID (af_Entries form))" and "af_Entries form \<noteq> []"
    using validate_entries_distinct [OF v] by simp_all
  show "distinct (map if_Name (ie_Fields e))" if "e \<in> set (af_Entries form)"
    using validate_fields_distinct [OF validate_entries_fields [OF v that]] by simp
  show "0 \<le> if_MaxLength f \<and> if_MaxLength f \<le> 500" if "e \<in> set (af_Entries form)" and "f \<in> set (ie_Fields e)"
    using validate_fields_member [OF validate_entries_fields [OF v that(1)] that(2)] by simp
qed

section \<open>Properties\<close>

text \<open>C6: accepted inputs answer the form and nothing else. When the values validate, entries and field names
  of the form are unambiguous, every field has a value that fits its type, range, length and options, or none
  where it is not required, and no value belongs to an entry or a field the form does not have.\<close>

theorem accepted_inputs_answer_form:
  assumes "ValidateApprovalInputs lib (Some form) vs = None"
  shows "distinct (map ie_ID (af_Entries form)) \<and>
    (\<forall>e \<in> set (af_Entries form). distinct (map if_Name (ie_Fields e)) \<and>
      (\<forall>f \<in> set (ie_Fields e).
        (absent (input_value vs (ie_ID e) (if_Name f)) \<and> \<not> if_Required f) \<or>
        (\<exists>v. input_value vs (ie_ID e) (if_Name f) = Some v \<and> value_fits f v))) \<and>
    (\<forall>(i, m) \<in> set vs. \<exists>e \<in> set (af_Entries form). ie_ID e = i \<and>
      (\<forall>(name, v) \<in> set m. \<exists>f \<in> set (ie_Fields e). if_Name f = name))"
proof -
  have form: "ValidateApprovalInputForm lib (Some form) = None"
    and unexpected: "unexpected_inputs form vs = None"
    and checks: "first_error (\<lambda>e. first_error (check_value vs e) (ie_Fields e)) (af_Entries form) = None"
    using assms by (auto simp: ValidateApprovalInputs_def split: if_splits option.splits)
  note members = form_members [OF form]
  have field: "(absent (input_value vs (ie_ID e) (if_Name f)) \<and> \<not> if_Required f) \<or>
      (\<exists>v. input_value vs (ie_ID e) (if_Name f) = Some v \<and> value_fits f v)"
    if e: "e \<in> set (af_Entries form)" and f: "f \<in> set (ie_Fields e)" for e f
  proof -
    have "check_value vs e f = None"
      using checks e f by (simp add: first_error_None)
    then have "absent (input_value vs (ie_ID e) (if_Name f)) \<and> \<not> if_Required f \<or>
        \<not> absent (input_value vs (ie_ID e) (if_Name f)) \<and>
        validateApprovalValue f (the (input_value vs (ie_ID e) (if_Name f))) = None"
      by (auto simp: check_value_def Let_def split: if_splits option.splits)
    then show ?thesis
      using accepted_fits members(4) [OF e f]
      by (cases "input_value vs (ie_ID e) (if_Name f)") (auto simp: absent_def)
  qed
  have expected: "\<exists>e \<in> set (af_Entries form). ie_ID e = i \<and> (\<forall>(name, v) \<in> set m. \<exists>f \<in> set (ie_Fields e). if_Name f = name)"
    if im: "(i, m) \<in> set vs" for i m
  proof -
    obtain e where "entry_of form i = Some e" and "\<forall>(name, v) \<in> set m. \<exists>f \<in> set (ie_Fields e). if_Name f = name"
      using unexpected im unfolding unexpected_inputs_None by fast
    then show ?thesis
      using entry_of_member by blast
  qed
  show ?thesis
    using members field expected by blast
qed

definition sample_form :: ApprovalInputForm where
  "sample_form = \<lparr>af_SchemaVersion = 1, af_Entries =
     [\<lparr>ie_ID = ''box'', ie_Label = ''Box'', ie_Summary = [], ie_Fields =
       [\<lparr>if_Name = ''count'', if_Label = ''Count'', if_Type = ApprovalInputNumber, if_Required = True,
         if_Options = [], if_Min = Some (Finite 1), if_Max = Some (Finite 9), if_MaxLength = 0\<rparr>,
        \<lparr>if_Name = ''note'', if_Label = ''Note'', if_Type = ApprovalInputText, if_Required = False,
         if_Options = [], if_Min = None, if_Max = None, if_MaxLength = 40\<rparr>]\<rparr>]\<rparr>"

definition sample_lib :: json_lib where
  "sample_lib = \<lparr>form_bytes = (\<lambda>f. 100), values_bytes = (\<lambda>vs. 20), values_sha256 = (\<lambda>vs. if vs = [] then ''w'' else ''v''),
     form_sha256 = (\<lambda>(i, _). ''f-'' @ i)\<rparr>"

definition sample_values :: ApprovalInputValues where
  "sample_values = [(''box'', [(''count'', AnyNumber 3)])]"

lemma sample_texts:
  "TrimSpace ''Box'' \<noteq> []" "TrimSpace ''Count'' \<noteq> []" "TrimSpace ''Note'' \<noteq> []"
  "RuneCount ''Box'' = 3" "RuneCount ''Count'' = 5" "RuneCount ''Note'' = 4" "RuneCount [] = 0"
  "approvalFieldKey ''box''" "approvalFieldKey ''count''" "approvalFieldKey ''note''"
  by code_simp+

lemma sample_form_valid: "ValidateApprovalInputForm sample_lib (Some sample_form) = None"
  by (simp add: ValidateApprovalInputForm_def sample_form_def sample_lib_def form_encodes_def finite_bound_def
      validate_field_type_def field_range_bad_def float_above_def sample_texts)

lemma sample_values_valid: "ValidateApprovalInputs sample_lib (Some sample_form) sample_values = None"
  using sample_form_valid
  by (simp add: ValidateApprovalInputs_def) (simp add: sample_form_def sample_values_def sample_lib_def values_encode_def map_ok_def
      entry_of_def check_value_def input_value_def absent_def validateApprovalValue_def out_of_range_def float_above_def Let_def)

lemma accepted_inputs_answer_form_witness:
  "value_fits (ie_Fields (af_Entries sample_form ! 0) ! 0) (AnyNumber 3)"
  using accepted_inputs_answer_form [OF sample_values_valid]
  by (simp add: sample_form_def sample_values_def input_value_def absent_def)

end
