(* ===== verification/Approval_Operations.thy ===== *)
theory Approval_Operations
  imports Approval_Inputs Audit_Log
begin

text \<open>
  The approval repository: preparation, update and resolution rules of
  \<open>internal/store/approval_contract.go\<close>, the operations of \<open>approval_memory.go\<close> and their audit helpers. An
  approval that \<open>prepareApproval\<close> accepts is normal (a fixed point of the repository's copies) and well
  formed; the theory \<open>Approvals\<close> shows what the operations do to the table.
\<close>

section \<open>Copies and normal forms\<close>

definition approval_encodes :: "Approval \<Rightarrow> bool" where
  "approval_encodes a \<longleftrightarrow>
     (case ap_InputForm a of None \<Rightarrow> True | Some form \<Rightarrow> form_encodes form) \<and>
     values_encode (ap_InputValues a) \<and> map_ok (ap_Arguments a) \<and>
     json_time_ok (ap_CreatedAt a) \<and> (case ap_ResolvedAt a of None \<Rightarrow> True | Some t \<Rightarrow> json_time_ok t)"

definition cloneApproval :: "Approval \<Rightarrow> go_error + Approval" where
  "cloneApproval a =
     (if approval_encodes a
      then Inr (a\<lparr>ap_InputValues := values_norm (ap_InputValues a), ap_Arguments := map_norm (ap_Arguments a)\<rparr>)
      else Inl (Err ''json: unsupported value''))"

definition normalizeApprovalTime :: "gotime \<Rightarrow> gotime" where
  "normalizeApprovalTime t = (if IsZero t then t else Truncate t 1000)"

definition normalizeApprovalTimePointer :: "gotime option \<Rightarrow> gotime option" where
  "normalizeApprovalTimePointer t = (case t of None \<Rightarrow> None | Some t \<Rightarrow> Some (normalizeApprovalTime t))"

definition normalizePersistedApproval :: "Approval \<Rightarrow> go_error + Approval" where
  "normalizePersistedApproval a = (case cloneApproval a of
     Inl e \<Rightarrow> Inl e
   | Inr a \<Rightarrow>
       let a = (if ap_Source a = [] then a\<lparr>ap_Source := ApprovalSourceTool\<rparr> else a)
       in Inr (a\<lparr>ap_CreatedAt := normalizeApprovalTime (ap_CreatedAt a),
                ap_ResolvedAt := normalizeApprovalTimePointer (ap_ResolvedAt a)\<rparr>))"

definition approvalsEqual :: "Approval \<Rightarrow> Approval \<Rightarrow> bool" where
  "approvalsEqual left right = (case (normalizePersistedApproval left, normalizePersistedApproval right) of
     (Inr l, Inr r) \<Rightarrow> l = r | _ \<Rightarrow> False)"

section \<open>The contract\<close>

record ApprovalUpdateCommand =
  uc_Expected :: Approval
  uc_Candidate :: Approval
  uc_Note :: string

definition NewApprovalUpdate :: "Approval \<Rightarrow> Approval \<Rightarrow> ApprovalUpdateCommand" where
  "NewApprovalUpdate expected candidate = \<lparr>uc_Expected = expected, uc_Candidate = candidate, uc_Note = []\<rparr>"

definition NewApprovalUpdateWithNote :: "Approval \<Rightarrow> Approval \<Rightarrow> string \<Rightarrow> ApprovalUpdateCommand" where
  "NewApprovalUpdateWithNote expected candidate note =
     \<lparr>uc_Expected = expected, uc_Candidate = candidate, uc_Note = note\<rparr>"

text \<open>The last part of \<open>prepareApproval\<close>: what the approval may say about an input form.\<close>

definition prepare_form :: "json_lib \<Rightarrow> Approval \<Rightarrow> go_error + Approval" where
  "prepare_form lib a = (case ap_InputForm a of
     Some form \<Rightarrow> (case ValidateApprovalInputForm lib (Some form) of
         Some e \<Rightarrow> Inl e
       | None \<Rightarrow> (case ApprovalFormDigest lib a of
             Inl e \<Rightarrow> Inl ErrApprovalConflict
           | Inr digest \<Rightarrow>
               if ap_InputFormDigest a \<noteq> [] \<and> ap_InputFormDigest a \<noteq> digest then Inl ErrApprovalConflict
               else if ap_InputValues a \<noteq> [] \<or> ap_InputsDigest a \<noteq> []
               then Inl (Err ''approval inputs require atomic resolution'')
               else Inr (a\<lparr>ap_InputFormDigest := digest\<rparr>)))
   | None \<Rightarrow>
       if ap_InputFormDigest a \<noteq> [] \<or> ap_InputValues a \<noteq> [] \<or> ap_InputsDigest a \<noteq> []
       then Inl ErrApprovalConflict else Inr a)"

definition prepareApproval :: "json_lib \<Rightarrow> Approval \<Rightarrow> Approval option \<Rightarrow> gotime \<Rightarrow> go_error + Approval" where
  "prepareApproval lib approval existing now = (case cloneApproval approval of
     Inl e \<Rightarrow> Inl e
   | Inr a \<Rightarrow>
       let a = a\<lparr>ap_ID := TrimSpace (ap_ID a)\<rparr>
       in if ap_ID a = [] then Inl (Err ''approval ID is required'')
       else
         let a = (if ap_Source a = [] then a\<lparr>ap_Source := ApprovalSourceTool\<rparr> else a)
         in if ap_Source a \<noteq> ApprovalSourceTool \<and> ap_Source a \<noteq> ApprovalSourceHappyTeamPlan
         then Inl (Err ''approval source is invalid'')
         else
           let a = (if ap_Status a = [] then a\<lparr>ap_Status := ApprovalStatusPending\<rparr> else a);
               a = (case existing of
                 Some current \<Rightarrow> a\<lparr>ap_CreatedAt := ap_CreatedAt current\<rparr>
               | None \<Rightarrow> if IsZero (ap_CreatedAt a) then a\<lparr>ap_CreatedAt := now\<rparr> else a);
               a = a\<lparr>ap_CreatedAt := normalizeApprovalTime (ap_CreatedAt a),
                     ap_ResolvedAt := normalizeApprovalTimePointer (ap_ResolvedAt a)\<rparr>;
               a = (if ap_Status a = ApprovalStatusPending
                 then a\<lparr>ap_ResolvedAt := None, ap_ResolutionNote := []\<rparr> else a)
           in prepare_form lib a)"

text \<open>The fields an update of a pending approval may not change.\<close>

definition update_identity :: "Approval \<Rightarrow> Approval \<Rightarrow> bool" where
  "update_identity c d \<longleftrightarrow>
     ap_ID c = ap_ID d \<and> ap_Source c = ap_Source d \<and> ap_ExternalID c = ap_ExternalID d \<and>
     ap_SessionID c = ap_SessionID d \<and> ap_RunID c = ap_RunID d \<and> ap_ToolCallID c = ap_ToolCallID d \<and>
     ap_Tool c = ap_Tool d \<and> ap_Risk c = ap_Risk d \<and> ap_PolicyContext c = ap_PolicyContext d \<and>
     ap_Presentation c = ap_Presentation d \<and> ap_InputForm c = ap_InputForm d \<and>
     ap_InputFormDigest c = ap_InputFormDigest d"

definition preparePendingApprovalUpdate ::
  "json_lib \<Rightarrow> ApprovalUpdateCommand \<Rightarrow> Approval \<Rightarrow> go_error + Approval" where
  "preparePendingApprovalUpdate lib command current = (case normalizePersistedApproval (uc_Expected command) of
     Inl e \<Rightarrow> Inl e
   | Inr expected \<Rightarrow> (case normalizePersistedApproval current of
       Inl e \<Rightarrow> Inl e
     | Inr current \<Rightarrow>
         if expected \<noteq> current \<or> ap_Status current \<noteq> ApprovalStatusPending then Inl ErrApprovalConflict
         else (case prepareApproval lib (uc_Candidate command) (Some current) (ap_CreatedAt current) of
             Inl e \<Rightarrow> Inl e
           | Inr candidate \<Rightarrow>
               if \<not> update_identity candidate current then Inl ErrApprovalConflict
               else Inr (candidate\<lparr>ap_Status := ApprovalStatusPending, ap_ResolvedAt := None,
                 ap_ResolutionNote := []\<rparr>))))"

definition resolution_status :: "string \<Rightarrow> bool" where
  "resolution_status st \<longleftrightarrow> st = ApprovalStatusApproved \<or> st = ApprovalStatusRejected \<or> st = ApprovalStatusResolvedElsewhere"

text \<open>The digest of the submitted values, or the refusal of the submission: an approval with a form is
  approved only with validated inputs for exactly that form, and everything else carries no inputs.\<close>

definition submission_digest ::
  "json_lib \<Rightarrow> Approval \<Rightarrow> string \<Rightarrow> ApprovalInputSubmission \<Rightarrow> go_error + string" where
  "submission_digest lib current st input = (case ap_InputForm current of
     Some form \<Rightarrow> (case ApprovalFormDigest lib current of
         Inl e \<Rightarrow> Inl ErrApprovalConflict
       | Inr expected \<Rightarrow>
           if expected \<noteq> ap_InputFormDigest current then Inl ErrApprovalConflict
           else if st = ApprovalStatusApproved
           then (if is_Digest input \<noteq> expected \<or> is_SchemaVersion input \<noteq> ApprovalInputSchemaVersion
                 then Inl ErrApprovalConflict
                 else (case ValidateApprovalInputs lib (Some form) (is_Inputs input) of
                     Some e \<Rightarrow> Inl e
                   | None \<Rightarrow> ApprovalInputsDigest lib (is_Inputs input)))
           else if is_Inputs input \<noteq> [] \<or> is_SchemaVersion input \<noteq> 0 \<or>
                   (is_Digest input \<noteq> [] \<and> is_Digest input \<noteq> expected)
           then Inl ErrApprovalConflict else Inr [])
   | None \<Rightarrow>
       if is_SchemaVersion input \<noteq> 0 \<or> is_Inputs input \<noteq> [] then Inl ErrApprovalConflict else Inr [])"

text \<open>The result carries whether it is the replay of an earlier resolution.\<close>

definition prepareApprovalInputResolution ::
  "json_lib \<Rightarrow> Approval \<Rightarrow> string \<Rightarrow> string \<Rightarrow> gotime \<Rightarrow> ApprovalInputSubmission \<Rightarrow> go_error + (Approval \<times> bool)" where
  "prepareApprovalInputResolution lib current st note now input =
     (let st = TrimSpace st
      in if \<not> resolution_status st then Inl (Err ''approval resolution status is invalid'')
      else (case normalizePersistedApproval current of
          Inl e \<Rightarrow> Inl e
        | Inr current \<Rightarrow> (case submission_digest lib current st input of
            Inl e \<Rightarrow> Inl e
          | Inr valuesDigest \<Rightarrow>
              if ap_Status current \<noteq> ApprovalStatusPending
              then (if ap_Status current = st \<and> ap_ResolutionNote current = note \<and> ap_InputsDigest current = valuesDigest
                    then Inr (current, True) else Inl ErrApprovalConflict)
              else
                let current = (if valuesDigest \<noteq> []
                  then current\<lparr>ap_InputValues := values_norm (is_Inputs input), ap_InputsDigest := valuesDigest\<rparr>
                  else current)
                in Inr (current\<lparr>ap_Status := st, ap_ResolvedAt := Some (normalizeApprovalTime now),
                  ap_ResolutionNote := note\<rparr>, False))))"

definition no_submission :: ApprovalInputSubmission where
  "no_submission = \<lparr>is_Digest = [], is_SchemaVersion = 0, is_Inputs = []\<rparr>"

definition prepareApprovalResolution ::
  "json_lib \<Rightarrow> Approval \<Rightarrow> string \<Rightarrow> string \<Rightarrow> gotime \<Rightarrow> go_error + (Approval \<times> bool)" where
  "prepareApprovalResolution lib current st note now =
     prepareApprovalInputResolution lib current st note now no_submission"

section \<open>Audit helpers\<close>

definition approvalActor :: "Approval \<Rightarrow> string" where
  "approvalActor a = (if ap_Source a = ApprovalSourceTool then ''policy'' else ''integration'')"

definition approvalResolutionActor :: "string \<Rightarrow> string" where
  "approvalResolutionActor st = (if st = ApprovalStatusResolvedElsewhere then ''integration'' else ''owner'')"

definition approvalUpdateActor :: "Approval \<Rightarrow> string" where
  "approvalUpdateActor a = (if ap_Source a = ApprovalSourceHappyTeamPlan then ''integration'' else ''owner'')"

definition approvalLifecycleFields :: "Approval \<Rightarrow> (string, goany) gomap" where
  "approvalLifecycleFields a =
     [(''tool'', AnyString (ap_Tool a)), (''risk'', AnyString (ap_Risk a)), (''note'', AnyString (ap_ResolutionNote a))]"

definition approvalUpdateFields :: "Approval \<Rightarrow> string \<Rightarrow> (string, goany) gomap" where
  "approvalUpdateFields a note =
     [(''tool'', AnyString (ap_Tool a)), (''risk'', AnyString (ap_Risk a)), (''note'', AnyString note)]"

section \<open>Operations\<close>

text \<open>The write every operation ends with: the table, an audit entry, an event.\<close>

definition record_approval ::
  "op_env \<Rightarrow> string \<Rightarrow> string \<Rightarrow> string \<Rightarrow> (string, goany) gomap \<Rightarrow> string \<Rightarrow> Approval \<Rightarrow> MemoryStore \<Rightarrow> MemoryStore" where
  "record_approval env auditType eventType actor flds key a s =
     appendEventLocked env eventType (ap_SessionID a) (ap_RunID a) (PApproval a)
       (appendAuditLocked env auditType (ap_SessionID a) (ap_RunID a) actor (ap_Summary a) flds
         (s\<lparr>st_approvals := mput key a (st_approvals s)\<rparr>))"

definition external_taken :: "Approval \<Rightarrow> MemoryStore \<Rightarrow> bool" where
  "external_taken a s \<longleftrightarrow> ap_ExternalID a \<noteq> [] \<and>
     list_ex (\<lambda>(i, c). i \<noteq> ap_ID a \<and> ap_Source c = ap_Source a \<and> ap_ExternalID c = ap_ExternalID a) (st_approvals s)"

definition SaveApproval :: "json_lib \<Rightarrow> op_ctx \<Rightarrow> op_env \<Rightarrow> Approval \<Rightarrow> MemoryStore \<Rightarrow> Approval outcome" where
  "SaveApproval lib cx env approval s =
     checked (admitTransientContent (PApproval approval) s)
       (framed ''approval.save'' cx (\<lambda>s.
          let existing = mget (st_approvals s) (TrimSpace (ap_ID approval))
          in case prepareApproval lib approval existing (en_now env) of
            Inl e \<Rightarrow> (Inl (storeError ''approval.save'' StoreErrorInvalid e), s)
          | Inr a \<Rightarrow> (case existing of
                Some current \<Rightarrow>
                  if approvalsEqual current a then (cloneApproval a, s)
                  else (Inl (storeError ''approval.save'' StoreErrorConflict ErrApprovalConflict), s)
              | None \<Rightarrow>
                  if external_taken a s
                  then (Inl (storeError ''approval.save'' StoreErrorConflict ErrApprovalConflict), s)
                  else (cloneApproval a,
                    record_approval env (''approval.'' @ ap_Status a) (''approval.'' @ ap_Status a)
                      (approvalActor a) (approvalLifecycleFields a) (ap_ID a) a s)))) s"

definition GetApproval :: "op_ctx \<Rightarrow> string \<Rightarrow> MemoryStore \<Rightarrow> Approval option outcome" where
  "GetApproval cx i = framed ''approval.get'' cx (\<lambda>s. case mget (st_approvals s) i of
     None \<Rightarrow> (Inr None, s)
   | Some a \<Rightarrow> (case normalizePersistedApproval a of
         Inl e \<Rightarrow> (Inl (storeError ''approval.get'' StoreErrorCorrupt e), s)
       | Inr a \<Rightarrow> (Inr (Some a), s)))"

text \<open>The scan of \<open>FindApprovalByExternalRef\<close>, in iteration order: the newest, smallest identity first.\<close>

definition external_better :: "Approval \<Rightarrow> Approval \<Rightarrow> bool" where
  "external_better a matched \<longleftrightarrow> ap_CreatedAt matched < ap_CreatedAt a \<or>
     (ap_CreatedAt a = ap_CreatedAt matched \<and> ap_ID a < ap_ID matched)"

fun find_external :: "string \<Rightarrow> string \<Rightarrow> Approval option \<Rightarrow> Approval list \<Rightarrow> Approval option" where
  "find_external source externalID matched [] = matched"
| "find_external source externalID matched (a # as) =
     (if ap_Source a = source \<and> ap_ExternalID a = externalID \<and>
         (case matched of None \<Rightarrow> True | Some m \<Rightarrow> external_better a m)
      then find_external source externalID (Some a) as
      else find_external source externalID matched as)"

definition FindApprovalByExternalRef :: "op_ctx \<Rightarrow> string \<Rightarrow> string \<Rightarrow> MemoryStore \<Rightarrow> Approval option outcome" where
  "FindApprovalByExternalRef cx source externalID = framed ''approval.find_external_ref'' cx (\<lambda>s.
     case find_external source externalID None (mvals (st_approvals s)) of
       None \<Rightarrow> (Inr None, s)
     | Some a \<Rightarrow> (case normalizePersistedApproval a of
           Inl e \<Rightarrow> (Inl (storeError ''approval.find_external_ref'' StoreErrorCorrupt e), s)
         | Inr a \<Rightarrow> (Inr (Some a), s)))"

definition conflict_code :: "go_error \<Rightarrow> StoreErrorCode" where
  "conflict_code e = (if err_is e ErrApprovalConflict then StoreErrorConflict else StoreErrorInvalid)"

definition UpdatePendingApproval ::
  "json_lib \<Rightarrow> op_ctx \<Rightarrow> op_env \<Rightarrow> ApprovalUpdateCommand \<Rightarrow> MemoryStore \<Rightarrow> Approval outcome" where
  "UpdatePendingApproval lib cx env command = framed ''approval.update_pending'' cx (\<lambda>s.
     case mget (st_approvals s) (ap_ID (uc_Candidate command)) of
       None \<Rightarrow> (Inl (storeError ''approval.update_pending'' StoreErrorNotFound ErrApprovalNotFound), s)
     | Some current \<Rightarrow> (case preparePendingApprovalUpdate lib command current of
           Inl e \<Rightarrow> (Inl (storeError ''approval.update_pending'' (conflict_code e) e), s)
         | Inr a \<Rightarrow> (cloneApproval a,
             record_approval env ''approval.modified'' ''approval.pending''
               (approvalUpdateActor a) (approvalUpdateFields a (uc_Note command)) (ap_ID a) a s)))"

definition resolveApprovalInputs ::
  "json_lib \<Rightarrow> op_ctx \<Rightarrow> op_env \<Rightarrow> string \<Rightarrow> string \<Rightarrow> string \<Rightarrow> string \<Rightarrow> ApprovalInputSubmission \<Rightarrow>
   MemoryStore \<Rightarrow> Approval outcome" where
  "resolveApprovalInputs lib cx env operation i st note input = framed operation cx (\<lambda>s.
     case mget (st_approvals s) i of
       None \<Rightarrow> (Inl (storeError operation StoreErrorNotFound ErrApprovalNotFound), s)
     | Some current \<Rightarrow> (case prepareApprovalInputResolution lib current st note (en_now env) input of
           Inl e \<Rightarrow> (Inl (storeError operation (conflict_code e) e), s)
         | Inr (a, replay) \<Rightarrow>
             if replay then (cloneApproval a, s)
             else (cloneApproval a,
               record_approval env (''approval.'' @ st) (''approval.'' @ st)
                 (approvalResolutionActor st) (approvalLifecycleFields a) i a s)))"

definition ResolveApproval ::
  "json_lib \<Rightarrow> op_ctx \<Rightarrow> op_env \<Rightarrow> string \<Rightarrow> string \<Rightarrow> string \<Rightarrow> MemoryStore \<Rightarrow> Approval outcome" where
  "ResolveApproval lib cx env i st note =
     resolveApprovalInputs lib cx env ''approval.resolve'' i st note no_submission"

definition ResolveApprovalWithInputs ::
  "json_lib \<Rightarrow> op_ctx \<Rightarrow> op_env \<Rightarrow> string \<Rightarrow> string \<Rightarrow> string \<Rightarrow> ApprovalInputSubmission \<Rightarrow> MemoryStore \<Rightarrow> Approval outcome" where
  "ResolveApprovalWithInputs lib cx env i st note input =
     resolveApprovalInputs lib cx env ''approval.resolve_inputs'' i st note input"

definition approval_cmp :: "Approval \<Rightarrow> Approval \<Rightarrow> int" where
  "approval_cmp left right = (let order = time_cmp (ap_CreatedAt right) (ap_CreatedAt left)
     in if order \<noteq> 0 then order else str_cmp (ap_ID left) (ap_ID right))"

definition sortApprovals :: "Approval list \<Rightarrow> Approval list" where
  "sortApprovals = SortFunc approval_cmp"

definition ListApprovals :: "op_ctx \<Rightarrow> string \<Rightarrow> MemoryStore \<Rightarrow> Approval list outcome" where
  "ListApprovals cx st = framed ''approval.list'' cx (\<lambda>s.
     case clone_all normalizePersistedApproval (mvals (st_approvals s)) of
       Inl e \<Rightarrow> (Inl (storeError ''approval.list'' StoreErrorCorrupt e), s)
     | Inr as \<Rightarrow> (Inr (sortApprovals (filter (\<lambda>a. st = [] \<or> ap_Status a = st) as)), s))"

definition ReconcileApprovalWrite ::
  "op_ctx \<Rightarrow> MemoryStore \<Rightarrow> Approval \<Rightarrow> go_error option \<Rightarrow> go_error + Approval" where
  "ReconcileApprovalWrite cx s candidate writeErr = (case writeErr of
     None \<Rightarrow> Inr candidate
   | Some e \<Rightarrow>
       if StoreErrorCodeOf e \<noteq> StoreErrorUnknownOutcome \<or> TrimSpace (ap_ID candidate) = [] then Inl e
       else (case fst (GetApproval cx (ap_ID candidate) s) of
           Inl err \<Rightarrow> Inl (Joined [e, err])
         | Inr None \<Rightarrow> Inl e
         | Inr (Some current) \<Rightarrow> if approvalsEqual current candidate then Inr current else Inl e))"

section \<open>Normal forms\<close>

lemma normalizeApprovalTime_idem [simp]:
  "normalizeApprovalTime (normalizeApprovalTime t) = normalizeApprovalTime t"
  by (simp add: normalizeApprovalTime_def)

lemma normalizeApprovalTimePointer_idem [simp]:
  "normalizeApprovalTimePointer (normalizeApprovalTimePointer t) = normalizeApprovalTimePointer t"
  "normalizeApprovalTimePointer None = None"
  "normalizeApprovalTimePointer (Some x) = Some (normalizeApprovalTime x)"
  by (simp_all add: normalizeApprovalTimePointer_def split: option.splits)

lemma json_time_normalize [simp]:
  "json_time_ok (normalizeApprovalTime t) = json_time_ok t"
  "(case normalizeApprovalTimePointer r of None \<Rightarrow> True | Some t \<Rightarrow> json_time_ok t) =
     (case r of None \<Rightarrow> True | Some t \<Rightarrow> json_time_ok t)"
  by (auto simp: normalizeApprovalTime_def normalizeApprovalTimePointer_def split: option.splits)

lemma values_norm_idem [simp]: "values_norm (values_norm vs) = values_norm vs"
proof -
  have "map (\<lambda>(i, m). (i, map_norm m)) (map (\<lambda>(i, m). (i, map_norm m)) vs) = map (\<lambda>(i, m). (i, map_norm m)) vs"
    by auto
  then show ?thesis
    by (simp only: values_norm_def sort_keys_map [symmetric] sort_keys_idem)
qed

lemma values_encode_norm [simp]: "values_encode (values_norm vs)"
  by (auto simp: values_encode_def values_norm_def list_all_iff)

lemma values_norm_Nil [simp]: "values_norm [] = []" "values_norm vs = [] \<longleftrightarrow> vs = []" "map_norm [] = []"
proof -
  have "length (values_norm vs) = length vs" by (simp add: values_norm_def sort_keys_def)
  then show "values_norm vs = [] \<longleftrightarrow> vs = []" by auto
qed (simp_all add: values_norm_def map_norm_def sort_keys_def)

definition normal :: "Approval \<Rightarrow> bool" where
  "normal a \<longleftrightarrow> approval_encodes a \<and> values_norm (ap_InputValues a) = ap_InputValues a \<and>
     map_norm (ap_Arguments a) = ap_Arguments a \<and> ap_Source a \<noteq> [] \<and>
     normalizeApprovalTime (ap_CreatedAt a) = ap_CreatedAt a \<and>
     normalizeApprovalTimePointer (ap_ResolvedAt a) = ap_ResolvedAt a"

lemma normal_persisted: "normal a \<Longrightarrow> normalizePersistedApproval a = Inr a"
  by (cases a) (simp add: normal_def normalizePersistedApproval_def cloneApproval_def)

lemma normal_clone: "normal a \<Longrightarrow> cloneApproval a = Inr a"
  by (cases a) (simp add: normal_def cloneApproval_def)

lemma persisted_normal: "normalizePersistedApproval a = Inr b \<Longrightarrow> normal b"
  by (auto simp: normalizePersistedApproval_def cloneApproval_def normal_def approval_encodes_def Let_def
      split: if_splits)

lemma approvalsEqual_normal: "normal a \<Longrightarrow> normal b \<Longrightarrow> approvalsEqual a b \<longleftrightarrow> a = b"
  by (simp add: approvalsEqual_def normal_persisted)

section \<open>Well-formed approvals\<close>

definition form_bound :: "json_lib \<Rightarrow> Approval \<Rightarrow> bool" where
  "form_bound lib a \<longleftrightarrow> (case ap_InputForm a of
     None \<Rightarrow> ap_InputFormDigest a = [] \<and> ap_InputValues a = [] \<and> ap_InputsDigest a = []
   | Some form \<Rightarrow> ValidateApprovalInputForm lib (Some form) = None \<and>
       ApprovalFormDigest lib a = Inr (ap_InputFormDigest a) \<and>
       (ap_InputsDigest a = [] \<longrightarrow> ap_InputValues a = []))"

definition approval_wf :: "json_lib \<Rightarrow> Approval \<Rightarrow> bool" where
  "approval_wf lib a \<longleftrightarrow> normal a \<and> ap_ID a \<noteq> [] \<and> TrimSpace (ap_ID a) = ap_ID a \<and>
     (ap_Source a = ApprovalSourceTool \<or> ap_Source a = ApprovalSourceHappyTeamPlan) \<and> ap_Status a \<noteq> [] \<and>
     (ap_Status a = ApprovalStatusPending \<longrightarrow>
        ap_ResolvedAt a = None \<and> ap_ResolutionNote a = [] \<and> ap_InputValues a = [] \<and> ap_InputsDigest a = []) \<and>
     form_bound lib a"

lemma wf_normal [simp]: "approval_wf lib a \<Longrightarrow> normal a"
  by (simp add: approval_wf_def)

text \<open>The approval before its form is checked.\<close>

definition pre_form :: "Approval \<Rightarrow> Approval option \<Rightarrow> gotime \<Rightarrow> Approval" where
  "pre_form a existing now =
     (let st = (if ap_Status a = [] then ApprovalStatusPending else ap_Status a)
      in a\<lparr>ap_InputValues := values_norm (ap_InputValues a), ap_ID := TrimSpace (ap_ID a),
           ap_Source := (if ap_Source a = [] then ApprovalSourceTool else ap_Source a), ap_Status := st,
           ap_Arguments := map_norm (ap_Arguments a),
           ap_CreatedAt := normalizeApprovalTime (case existing of Some c \<Rightarrow> ap_CreatedAt c
             | None \<Rightarrow> if ap_CreatedAt a = 0 then now else ap_CreatedAt a),
           ap_ResolvedAt := (if st = ApprovalStatusPending then None else normalizeApprovalTimePointer (ap_ResolvedAt a)),
           ap_ResolutionNote := (if st = ApprovalStatusPending then [] else ap_ResolutionNote a)\<rparr>)"

lemma prepareApproval_pre_form:
  "prepareApproval lib approval existing now = Inr b \<longleftrightarrow>
     approval_encodes approval \<and> TrimSpace (ap_ID approval) \<noteq> [] \<and>
     (ap_Source approval = [] \<or> ap_Source approval = ApprovalSourceTool \<or> ap_Source approval = ApprovalSourceHappyTeamPlan) \<and>
     prepare_form lib (pre_form approval existing now) = Inr b"
  by (cases approval; cases existing; cases "ap_Status approval = []"; cases "ap_Source approval = []";
      cases "ap_CreatedAt approval = 0"; cases "ap_Status approval = ApprovalStatusPending")
     (simp_all add: prepareApproval_def cloneApproval_def pre_form_def Let_def)

lemma prepare_form_ok:
  assumes "prepare_form lib a = Inr b"
  shows "b = a\<lparr>ap_InputFormDigest := ap_InputFormDigest b\<rparr>" and "form_bound lib b"
    and "ap_InputValues b = []" and "ap_InputsDigest b = []"
    and "ap_InputFormDigest a \<noteq> [] \<Longrightarrow> ap_InputFormDigest b = ap_InputFormDigest a"
  using assms
  by (auto simp: prepare_form_def form_bound_def ApprovalFormDigest_def split: option.splits sum.splits if_splits)

lemma pre_form_fields [simp]:
  "ap_ID (pre_form a e t) = TrimSpace (ap_ID a)" "ap_Tool (pre_form a e t) = ap_Tool a"
  "ap_ExternalID (pre_form a e t) = ap_ExternalID a" "ap_InputForm (pre_form a e t) = ap_InputForm a"
  "ap_Source (pre_form a e t) = (if ap_Source a = [] then ApprovalSourceTool else ap_Source a)"
  "ap_Status (pre_form a e t) = (if ap_Status a = [] then ApprovalStatusPending else ap_Status a)"
  "ap_CreatedAt (pre_form a e t) = normalizeApprovalTime (case e of Some c \<Rightarrow> ap_CreatedAt c
     | None \<Rightarrow> if ap_CreatedAt a = 0 then t else ap_CreatedAt a)"
  "ap_Arguments (pre_form a e t) = map_norm (ap_Arguments a)"
  "ap_InputValues (pre_form a e t) = values_norm (ap_InputValues a)"
  "ap_InputFormDigest (pre_form a e t) = ap_InputFormDigest a"
  "ap_InputsDigest (pre_form a e t) = ap_InputsDigest a"
  by (auto simp: pre_form_def Let_def split: option.splits)

lemma pre_form_resolution:
  "normalizeApprovalTimePointer (ap_ResolvedAt (pre_form a e t)) = ap_ResolvedAt (pre_form a e t)"
  "(case ap_ResolvedAt a of None \<Rightarrow> True | Some t \<Rightarrow> json_time_ok t) \<Longrightarrow>
     (case ap_ResolvedAt (pre_form a e t) of None \<Rightarrow> True | Some t \<Rightarrow> json_time_ok t)"
  "ap_Status (pre_form a e t) = ApprovalStatusPending \<Longrightarrow>
     ap_ResolvedAt (pre_form a e t) = None \<and> ap_ResolutionNote (pre_form a e t) = []"
  by (auto simp: pre_form_def Let_def split: option.splits)

lemma prepareApproval_wf:
  assumes "prepareApproval lib approval existing now = Inr b" and "json_time_ok now"
    and "\<And>c. existing = Some c \<Longrightarrow> json_time_ok (ap_CreatedAt c)"
  shows "approval_wf lib b"
proof -
  let ?a = "pre_form approval existing now"
  have enc: "approval_encodes approval" and trim: "TrimSpace (ap_ID approval) \<noteq> []"
    and source: "ap_Source approval = [] \<or> ap_Source approval = ApprovalSourceTool \<or> ap_Source approval = ApprovalSourceHappyTeamPlan"
    and form: "prepare_form lib ?a = Inr b"
    using assms(1) by (auto simp: prepareApproval_pre_form)
  note f = prepare_form_ok [OF form]
  define d where "d = ap_InputFormDigest b"
  have b: "b = ?a\<lparr>ap_InputFormDigest := d\<rparr>" unfolding d_def by (rule f(1))
  have created: "json_time_ok (ap_CreatedAt ?a)"
    using enc assms(2,3) by (auto simp: approval_encodes_def split: option.splits)
  have resolved: "case ap_ResolvedAt ?a of None \<Rightarrow> True | Some t \<Rightarrow> json_time_ok t"
    using enc pre_form_resolution(2) by (simp add: approval_encodes_def)
  have enc_b: "approval_encodes b"
    using enc created resolved unfolding b by (simp add: approval_encodes_def)
  have fields: "ap_ResolvedAt b = ap_ResolvedAt ?a" "ap_Status b = ap_Status ?a" "ap_ResolutionNote b = ap_ResolutionNote ?a"
    "ap_ID b = TrimSpace (ap_ID approval)" "ap_CreatedAt b = ap_CreatedAt ?a" "ap_Arguments b = map_norm (ap_Arguments approval)"
    "ap_Source b = (if ap_Source approval = [] then ApprovalSourceTool else ap_Source approval)"
    unfolding b by simp_all
  have "normal b"
    unfolding normal_def using enc_b fields f(3) source pre_form_resolution(1) [of approval existing now] by auto
  moreover have "ap_Source b = ApprovalSourceTool \<or> ap_Source b = ApprovalSourceHappyTeamPlan" and "ap_Status b \<noteq> []"
    using source unfolding fields by auto
  moreover have "ap_Status b = ApprovalStatusPending \<Longrightarrow> ap_ResolvedAt b = None \<and> ap_ResolutionNote b = []"
    using pre_form_resolution(3) unfolding fields by blast
  ultimately show ?thesis
    using f(2-4) trim fields(4) unfolding approval_wf_def by (simp only: TrimSpace_idem) blast
qed

lemma prepare_form_fields:
  assumes "prepare_form lib a = Inr b"
  shows "ap_ID b = ap_ID a" "ap_Source b = ap_Source a" "ap_ExternalID b = ap_ExternalID a" "ap_Status b = ap_Status a"
    "ap_InputForm b = ap_InputForm a"
  using assms by (auto simp: prepare_form_def split: option.splits sum.splits if_splits)

lemma prepareApproval_fields:
  assumes "prepareApproval lib approval existing now = Inr b"
  shows "ap_ID b = TrimSpace (ap_ID approval)"
    and "ap_Source b = (if ap_Source approval = [] then ApprovalSourceTool else ap_Source approval)"
    and "ap_ExternalID b = ap_ExternalID approval"
    and "ap_Status b = (if ap_Status approval = [] then ApprovalStatusPending else ap_Status approval)"
proof -
  have "prepare_form lib (pre_form approval existing now) = Inr b"
    using assms by (simp add: prepareApproval_pre_form)
  note f = prepare_form_fields [OF this]
  show "ap_ID b = TrimSpace (ap_ID approval)" and "ap_ExternalID b = ap_ExternalID approval"
    "ap_Source b = (if ap_Source approval = [] then ApprovalSourceTool else ap_Source approval)"
    "ap_Status b = (if ap_Status approval = [] then ApprovalStatusPending else ap_Status approval)"
    by (simp_all only: f pre_form_fields)
qed

end
