(* ===== verification/Approvals.thy ===== *)
theory Approvals
  imports Approval_Operations
begin

text \<open>
  The approval table under any interleaving of its operations: an approval is created once, edited while
  it is pending and resolved once; every operation keeps the table well formed and leaves the store alone
  when it fails; the optional input form binds the resolution; and the readers are exact.
\<close>

section \<open>Every operation keeps the table well formed\<close>

definition external_unique :: "(string, Approval) gomap \<Rightarrow> bool" where
  "external_unique m \<longleftrightarrow> (\<forall>a \<in> set (mvals m). \<forall>b \<in> set (mvals m).
     ap_Source a = ap_Source b \<and> ap_ExternalID a = ap_ExternalID b \<and> ap_ExternalID a \<noteq> [] \<longrightarrow> ap_ID a = ap_ID b)"

definition approvals_inv :: "json_lib \<Rightarrow> MemoryStore \<Rightarrow> bool" where
  "approvals_inv lib s \<longleftrightarrow> keyed ap_ID (st_approvals s) \<and>
     (\<forall>a \<in> set (mvals (st_approvals s)). approval_wf lib a) \<and> external_unique (st_approvals s)"

lemma inv_get: "approvals_inv lib s \<Longrightarrow> mget (st_approvals s) i = Some a \<Longrightarrow> approval_wf lib a \<and> ap_ID a = i"
  using keyed_get [of ap_ID "st_approvals s" i a] keyed_vals [of ap_ID "st_approvals s" a]
  by (auto simp: approvals_inv_def)

text \<open>What the two ways of resolving and the update compute on a well-formed approval.\<close>

lemma resolution_result:
  assumes "prepareApprovalInputResolution lib a st note now input = Inr (b, replay)" and "approval_wf lib a"
  shows "if replay then b = a \<and> ap_Status a \<noteq> ApprovalStatusPending \<and> ap_Status a = TrimSpace st \<and> ap_ResolutionNote a = note
    else ap_Status a = ApprovalStatusPending \<and> resolution_status (TrimSpace st) \<and>
      (\<exists>digest. submission_digest lib a (TrimSpace st) input = Inr digest \<and>
        b = a\<lparr>ap_InputValues := (if digest = [] then ap_InputValues a else values_norm (is_Inputs input)),
              ap_InputsDigest := (if digest = [] then ap_InputsDigest a else digest),
              ap_Status := TrimSpace st, ap_ResolvedAt := Some (normalizeApprovalTime now), ap_ResolutionNote := note\<rparr>)"
  using assms normal_persisted [OF wf_normal [OF assms(2)]]
  by (cases a) (auto simp: prepareApprovalInputResolution_def Let_def split: sum.splits if_splits)

lemma submission_values:
  assumes "submission_digest lib a st input = Inr digest" and "digest \<noteq> []"
  shows "values_encode (is_Inputs input)" and "ap_InputForm a \<noteq> None"
  using assms by (auto simp: submission_digest_def ApprovalInputsDigest_def split: option.splits sum.splits if_splits)

lemma resolution_wf:
  assumes "prepareApprovalInputResolution lib a st note now input = Inr (b, replay)" and "approval_wf lib a" and "json_time_ok now"
  shows "approval_wf lib b" and "ap_ID b = ap_ID a" and "ap_Source b = ap_Source a" and "ap_ExternalID b = ap_ExternalID a"
proof -
  note r = resolution_result [OF assms(1,2)]
  show "ap_ID b = ap_ID a" and "ap_Source b = ap_Source a" and "ap_ExternalID b = ap_ExternalID a"
    using r by (auto split: if_splits)
  show "approval_wf lib b"
  proof (cases replay)
    case True
    then show ?thesis using r assms(2) by simp
  next
    case False
    then obtain digest where digest: "submission_digest lib a (TrimSpace st) input = Inr digest"
      and b: "b = a\<lparr>ap_InputValues := (if digest = [] then ap_InputValues a else values_norm (is_Inputs input)),
              ap_InputsDigest := (if digest = [] then ap_InputsDigest a else digest),
              ap_Status := TrimSpace st, ap_ResolvedAt := Some (normalizeApprovalTime now), ap_ResolutionNote := note\<rparr>"
      and status: "ap_Status a = ApprovalStatusPending" "resolution_status (TrimSpace st)"
      using r by auto
    have same: "ApprovalFormDigest lib b = ApprovalFormDigest lib a"
      by (simp add: b ApprovalFormDigest_def)
    have wf: "normal a" "form_bound lib a" "ap_InputValues a = []" "ap_InputsDigest a = []"
      using assms(2) status(1) by (simp_all add: approval_wf_def)
    have "normal b"
      using wf(1) assms(3) unfolding b normal_def approval_encodes_def by simp
    moreover have "form_bound lib b"
      using wf submission_values [OF digest] same unfolding form_bound_def by (auto simp: b split: option.splits)
    moreover have "ap_Status b \<noteq> []" "ap_Status b \<noteq> ApprovalStatusPending"
      using status(2) by (auto simp: b resolution_status_def)
    moreover have "ap_ID b = ap_ID a" "ap_Source b = ap_Source a" by (simp_all add: b)
    ultimately show ?thesis
      using assms(2) unfolding approval_wf_def by metis
  qed
qed

lemma update_result:
  assumes "preparePendingApprovalUpdate lib command a = Inr b" and "approval_wf lib a"
  shows "approval_wf lib b" and "update_identity b a" and "ap_CreatedAt b = ap_CreatedAt a"
    and "ap_Status a = ApprovalStatusPending" and "ap_Status b = ApprovalStatusPending"
    and "normalizePersistedApproval (uc_Expected command) = Inr a"
proof -
  have p: "normalizePersistedApproval a = Inr a"
    using normal_persisted [OF wf_normal [OF assms(2)]] .
  then obtain c where c: "prepareApproval lib (uc_Candidate command) (Some a) (ap_CreatedAt a) = Inr c"
    and b: "b = c\<lparr>ap_Status := ApprovalStatusPending, ap_ResolvedAt := None, ap_ResolutionNote := []\<rparr>"
    and ident: "update_identity c a" and pend: "ap_Status a = ApprovalStatusPending"
    and exp: "normalizePersistedApproval (uc_Expected command) = Inr a"
    using assms(1) by (auto simp: preparePendingApprovalUpdate_def split: sum.splits if_splits)
  have created: "json_time_ok (ap_CreatedAt a)" "normalizeApprovalTime (ap_CreatedAt a) = ap_CreatedAt a"
    using wf_normal [OF assms(2)] by (simp_all add: normal_def approval_encodes_def)
  have wf: "approval_wf lib c"
    using prepareApproval_wf [OF c] created by simp
  have form: "prepare_form lib (pre_form (uc_Candidate command) (Some a) (ap_CreatedAt a)) = Inr c"
    using c by (simp add: prepareApproval_pre_form)
  have same: "ApprovalFormDigest lib b = ApprovalFormDigest lib c"
    by (simp add: b ApprovalFormDigest_def)
  have nb: "normal b"
    using wf_normal [OF wf] unfolding b normal_def approval_encodes_def by simp
  have fb: "form_bound lib b"
    using wf same unfolding approval_wf_def form_bound_def by (simp add: b cong: option.case_cong)
  have eqs: "ap_ID b = ap_ID c" "ap_Source b = ap_Source c" "ap_InputValues b = ap_InputValues c"
    "ap_InputsDigest b = ap_InputsDigest c" "ap_Status b = ApprovalStatusPending" "ap_ResolvedAt b = None" "ap_ResolutionNote b = []"
    by (simp_all add: b)
  show "approval_wf lib b"
    using wf nb fb prepare_form_ok(3,4) [OF form] unfolding approval_wf_def eqs by simp
  show "update_identity b a"
    using ident by (simp add: update_identity_def b)
  have "ap_CreatedAt c = ap_CreatedAt (pre_form (uc_Candidate command) (Some a) (ap_CreatedAt a))"
    using arg_cong [OF prepare_form_ok(1) [OF form], of ap_CreatedAt] by simp
  then show "ap_CreatedAt b = ap_CreatedAt a"
    using created(2) by (simp add: b)
  show "ap_Status a = ApprovalStatusPending" "ap_Status b = ApprovalStatusPending"
    "normalizePersistedApproval (uc_Expected command) = Inr a"
    using pend exp by (simp_all add: b)
qed

lemma record_approval_frame [simp]:
  "st_approvals (record_approval env x y z flds i a s) = mput i a (st_approvals s)"
  "logs_extend s (record_approval env x y z flds i a s)"
proof -
  let ?t = "s\<lparr>st_approvals := mput i a (st_approvals s)\<rparr>"
  show "st_approvals (record_approval env x y z flds i a s) = mput i a (st_approvals s)"
    by (simp add: record_approval_def)
  have "logs_extend s ?t" by (simp add: logs_extend_def)
  then show "logs_extend s (record_approval env x y z flds i a s)"
    unfolding record_approval_def by (blast intro: logs_extend_trans append_logs)
qed

lemma external_unique_put:
  assumes "keyed ap_ID m" and "external_unique m" and "ap_ID b = i"
    and "\<And>a. a \<in> set (mvals m) \<Longrightarrow> ap_ID a \<noteq> i \<Longrightarrow> ap_Source a = ap_Source b \<Longrightarrow> ap_ExternalID a = ap_ExternalID b \<Longrightarrow>
        ap_ExternalID a = []"
  shows "external_unique (mput i b m)"
proof -
  have v: "x \<in> set (mvals (mput i b m)) \<longleftrightarrow> x = b \<or> (ap_ID x \<noteq> i \<and> x \<in> set (mvals m))" for x
    by (rule vals_put [OF assms(1,3)])
  show ?thesis
    unfolding external_unique_def
  proof (intro ballI impI, elim conjE)
    fix x y
    assume "x \<in> set (mvals (mput i b m))" "y \<in> set (mvals (mput i b m))"
      and e: "ap_Source x = ap_Source y" "ap_ExternalID x = ap_ExternalID y" "ap_ExternalID x \<noteq> []"
    then consider "x = b" "y = b" | "x = b" "y \<in> set (mvals m)" "ap_ID y \<noteq> i" | "y = b" "x \<in> set (mvals m)" "ap_ID x \<noteq> i"
      | "x \<in> set (mvals m)" "y \<in> set (mvals m)"
      unfolding v by blast
    then show "ap_ID x = ap_ID y"
    proof cases
      case 1
      then show ?thesis by simp
    next
      case 2
      then show ?thesis using assms(4) [OF 2(2,3)] e by simp
    next
      case 3
      then show ?thesis using assms(4) [OF 3(2,3)] e by simp
    next
      case 4
      then show ?thesis using assms(2) e unfolding external_unique_def by blast
    qed
  qed
qed

lemma put_new_inv:
  assumes "approvals_inv lib s" and "approval_wf lib b" and "mget (st_approvals s) (ap_ID b) = None"
    and "\<not> external_taken b s" and "st_approvals s' = mput (ap_ID b) b (st_approvals s)"
  shows "approvals_inv lib s'"
proof -
  have k: "keyed ap_ID (st_approvals s)" using assms(1) by (simp add: approvals_inv_def)
  have other: "ap_ExternalID a = []"
    if "a \<in> set (mvals (st_approvals s))" "ap_ID a \<noteq> ap_ID b" "ap_Source a = ap_Source b" "ap_ExternalID a = ap_ExternalID b" for a
  proof -
    have "(ap_ID a, a) \<in> set (st_approvals s)"
      using that(1) keyed_vals [OF k, of a] by (auto dest: map_of_SomeD)
    then have "ap_ExternalID b = [] \<or> \<not> (ap_ID a \<noteq> ap_ID b \<and> ap_Source a = ap_Source b \<and> ap_ExternalID a = ap_ExternalID b)"
      using assms(4) unfolding external_taken_def list_ex_iff by fast
    with that(2-4) show ?thesis by simp
  qed
  have "external_unique (mput (ap_ID b) b (st_approvals s))"
    using assms(1) other by (intro external_unique_put [OF k]) (auto simp: approvals_inv_def)
  then show ?thesis
    using assms(1,2,5) keyed_put [OF k, of b "ap_ID b"] vals_put [OF k refl, of _ b] by (auto simp: approvals_inv_def)
qed

lemma put_same_inv:
  assumes "approvals_inv lib s" and "approval_wf lib b" and "mget (st_approvals s) i = Some a"
    and "ap_ID b = ap_ID a" and "ap_Source b = ap_Source a" and "ap_ExternalID b = ap_ExternalID a"
    and "st_approvals s' = mput i b (st_approvals s)"
  shows "approvals_inv lib s'"
proof -
  have k: "keyed ap_ID (st_approvals s)" using assms(1) by (simp add: approvals_inv_def)
  have i: "ap_ID a = i" using inv_get [OF assms(1,3)] by simp
  have a: "a \<in> set (mvals (st_approvals s))" using assms(3) i keyed_vals [OF k, of a] by simp
  have other: "ap_ExternalID x = []"
    if "x \<in> set (mvals (st_approvals s))" "ap_ID x \<noteq> i" "ap_Source x = ap_Source b" "ap_ExternalID x = ap_ExternalID b" for x
  proof -
    have "ap_ID x \<noteq> ap_ID a" and "ap_Source x = ap_Source a" and "ap_ExternalID x = ap_ExternalID a"
      using that(2-4) assms(5,6) i by simp_all
    with that(1) a assms(1) show ?thesis
      unfolding approvals_inv_def external_unique_def by blast
  qed
  have "external_unique (mput i b (st_approvals s))"
    using assms(1,4) i other by (intro external_unique_put [OF k]) (auto simp: approvals_inv_def)
  then show ?thesis
    using assms(1,2,4,7) keyed_put [OF k, of b i] vals_put [OF k, of b i] i by (auto simp: approvals_inv_def)
qed

lemma SaveApproval_cases:
  assumes "SaveApproval lib cx env a s = (r, s')"
  shows "s' = s \<or> (\<exists>b. prepareApproval lib a None (en_now env) = Inr b \<and> mget (st_approvals s) (ap_ID b) = None \<and>
     \<not> external_taken b s \<and> st_approvals s' = mput (ap_ID b) b (st_approvals s) \<and> logs_extend s s' \<and> r = cloneApproval b)"
  using checked_cases [OF assms [unfolded SaveApproval_def]]
proof (elim disjE)
  let ?body = "\<lambda>s. (let existing = mget (st_approvals s) (TrimSpace (ap_ID a))
          in case prepareApproval lib a existing (en_now env) of
            Inl e \<Rightarrow> (Inl (storeError ''approval.save'' StoreErrorInvalid e), s)
          | Inr a \<Rightarrow> (case existing of
                Some current \<Rightarrow>
                  if approvalsEqual current a then (cloneApproval a, s)
                  else (Inl (storeError ''approval.save'' StoreErrorConflict ErrApprovalConflict), s)
              | None \<Rightarrow>
                  if external_taken a s
                  then (Inl (storeError ''approval.save'' StoreErrorConflict ErrApprovalConflict), s)
                  else (cloneApproval a,
                    record_approval env (''approval.'' @ ap_Status a) (''approval.'' @ ap_Status a)
                      (approvalActor a) (approvalLifecycleFields a) (ap_ID a) a s)))"
  assume "framed ''approval.save'' cx ?body s = (r, s')"
  from framed_cases [OF this] show ?thesis
  proof (elim disjE)
    assume body: "?body s = (r, s')"
    show ?thesis
    proof (cases "mget (st_approvals s) (TrimSpace (ap_ID a))")
      case None
      show ?thesis
      proof (cases "prepareApproval lib a None (en_now env)")
        case (Inl e)
        with None body show ?thesis by simp
      next
        case (Inr b)
        have "ap_ID b = TrimSpace (ap_ID a)" by (rule prepareApproval_fields(1) [OF Inr])
        with None Inr body show ?thesis
          by (cases "external_taken b s") auto
      qed
    next
      case (Some c)
      with body have "s' = s"
        by (simp add: Let_def split: sum.splits if_splits)
      then show ?thesis ..
    qed
  qed simp
qed simp

lemma UpdatePendingApproval_cases:
  assumes "UpdatePendingApproval lib cx env command s = (r, s')"
  shows "s' = s \<and> (\<exists>e. r = Inl e) \<or>
    (\<exists>a b. mget (st_approvals s) (ap_ID (uc_Candidate command)) = Some a \<and>
      preparePendingApprovalUpdate lib command a = Inr b \<and>
      st_approvals s' = mput (ap_ID b) b (st_approvals s) \<and> logs_extend s s' \<and> r = cloneApproval b)"
  using assms unfolding UpdatePendingApproval_def
  by (elim framed_cases [elim_format] disjE) (auto split: sum.splits option.splits)

lemma resolve_cases:
  assumes "resolveApprovalInputs lib cx env operation i st n input s = (r, s')"
  shows "s' = s \<and> (\<exists>e. r = Inl e) \<or>
    (\<exists>a b replay. mget (st_approvals s) i = Some a \<and>
      prepareApprovalInputResolution lib a st n (en_now env) input = Inr (b, replay) \<and> r = cloneApproval b \<and>
      (if replay then s' = s else st_approvals s' = mput i b (st_approvals s) \<and> logs_extend s s'))"
proof -
  consider "s' = s" "\<exists>e. r = Inl e" | "(case mget (st_approvals s) i of
       None \<Rightarrow> (Inl (storeError operation StoreErrorNotFound ErrApprovalNotFound), s)
     | Some current \<Rightarrow> (case prepareApprovalInputResolution lib current st n (en_now env) input of
           Inl e \<Rightarrow> (Inl (storeError operation (conflict_code e) e), s)
         | Inr (a, replay) \<Rightarrow>
             if replay then (cloneApproval a, s)
             else (cloneApproval a,
               record_approval env (''approval.'' @ st) (''approval.'' @ st)
                 (approvalResolutionActor st) (approvalLifecycleFields a) i a s))) = (r, s')"
    using framed_cases [OF assms [unfolded resolveApprovalInputs_def]] by blast
  then show ?thesis
  proof cases
    case 2
    show ?thesis
    proof (cases "mget (st_approvals s) i")
      case (Some a)
      show ?thesis
      proof (cases "prepareApprovalInputResolution lib a st n (en_now env) input")
        case (Inr p)
        obtain b replay where p: "p = (b, replay)" by (cases p)
        let ?t = "record_approval env (''approval.'' @ st) (''approval.'' @ st) (approvalResolutionActor st)
          (approvalLifecycleFields b) i b s"
        have "(if replay then (cloneApproval b, s) else (cloneApproval b, ?t)) = (r, s')"
          using 2 by (simp only: Some Inr p option.case sum.case prod.case)
        then have "r = cloneApproval b" and "s' = (if replay then s else ?t)"
          by (simp_all split: if_splits)
        then show ?thesis
          by (intro disjI2 exI [of _ a] exI [of _ b] exI [of _ replay]) (simp add: Some Inr p)
      qed (use 2 Some in auto)
    qed (use 2 in auto)
  qed auto
qed

section \<open>Steps\<close>

text \<open>The write operations, with any context and any environment whose clock JSON can print.\<close>

inductive approval_step :: "json_lib \<Rightarrow> MemoryStore \<Rightarrow> MemoryStore \<Rightarrow> bool" for lib where
  step_save: "json_time_ok (en_now env) \<Longrightarrow> SaveApproval lib cx env a s = (r, s') \<Longrightarrow> approval_step lib s s'"
| step_update: "json_time_ok (en_now env) \<Longrightarrow> UpdatePendingApproval lib cx env command s = (r, s') \<Longrightarrow> approval_step lib s s'"
| step_resolve: "json_time_ok (en_now env) \<Longrightarrow>
    resolveApprovalInputs lib cx env operation i st n input s = (r, s') \<Longrightarrow> approval_step lib s s'"

lemma approval_step_inv: "approval_step lib s s' \<Longrightarrow> approvals_inv lib s \<Longrightarrow> approvals_inv lib s'"
proof (induction rule: approval_step.induct)
  case (step_save env cx a s r s')
  have "approvals_inv lib s'" if "prepareApproval lib a None (en_now env) = Inr b"
    and "mget (st_approvals s) (ap_ID b) = None" and "\<not> external_taken b s"
    and "st_approvals s' = mput (ap_ID b) b (st_approvals s)" for b
    by (rule put_new_inv [OF step_save(3) prepareApproval_wf [OF that(1) step_save(1)] that(2-4)]) simp
  with SaveApproval_cases [OF step_save(2)] show ?case
    using step_save(3) by metis
next
  case (step_update env cx command s r s')
  have "approvals_inv lib s'" if "mget (st_approvals s) (ap_ID (uc_Candidate command)) = Some a"
    and "preparePendingApprovalUpdate lib command a = Inr b" and "st_approvals s' = mput (ap_ID b) b (st_approvals s)" for a b
  proof -
    have a: "approval_wf lib a" "ap_ID a = ap_ID (uc_Candidate command)"
      using inv_get [OF step_update(3) that(1)] by auto
    note u = update_result [OF that(2) a(1)]
    have "ap_ID b = ap_ID a" "ap_Source b = ap_Source a" "ap_ExternalID b = ap_ExternalID a"
      using u(2) by (simp_all add: update_identity_def)
    then show ?thesis
      using put_same_inv [OF step_update(3) u(1) that(1)] that(3) a(2) by simp
  qed
  with UpdatePendingApproval_cases [OF step_update(2)] show ?case
    using step_update(3) by blast
next
  case (step_resolve env cx operation i st n input s r s')
  have "approvals_inv lib s'" if "mget (st_approvals s) i = Some a"
    and "prepareApprovalInputResolution lib a st n (en_now env) input = Inr (b, False)"
    and "st_approvals s' = mput i b (st_approvals s)" for a b
  proof -
    have a: "approval_wf lib a" using inv_get [OF step_resolve(3) that(1)] by simp
    note w = resolution_wf [OF that(2) a step_resolve(1)]
    show ?thesis
      by (rule put_same_inv [OF step_resolve(3) w(1) that(1) w(2-4) that(3)])
  qed
  with resolve_cases [OF step_resolve(2)] show ?case
    using step_resolve(3) by (metis (full_types))
qed

lemma approvals_inv_empty: "empty_store s \<Longrightarrow> approvals_inv lib s"
  by (auto simp: empty_store_def WithTransientContentAdmission_def NewMemoryStore_def approvals_inv_def external_unique_def)

interpretation approvals: invariant_system empty_store "approval_step lib" "approvals_inv lib"
  by unfold_locales (fact approvals_inv_empty, fact approval_step_inv)

text \<open>What a step can do to one stored approval: nothing, an edit that keeps it pending and itself, or its
  one resolution.\<close>

definition approval_evolves :: "Approval \<Rightarrow> Approval \<Rightarrow> bool" where
  "approval_evolves a b \<longleftrightarrow> b = a \<or>
     (ap_Status a = ApprovalStatusPending \<and> ap_Status b = ApprovalStatusPending \<and> update_identity b a \<and>
        ap_CreatedAt b = ap_CreatedAt a) \<or>
     (ap_Status a = ApprovalStatusPending \<and> resolution_status (ap_Status b) \<and> update_identity b a \<and>
        ap_CreatedAt b = ap_CreatedAt a \<and> ap_Arguments b = ap_Arguments a \<and> ap_ResolvedAt b \<noteq> None)"

lemma evolves_refl [simp]: "approval_evolves a a"
  by (simp add: approval_evolves_def)

lemma resolution_evolves:
  assumes "prepareApprovalInputResolution lib c st n now input = Inr (b, False)" and "approval_wf lib c"
  shows "approval_evolves c b"
proof -
  obtain vs digest where status: "ap_Status c = ApprovalStatusPending" "resolution_status (TrimSpace st)"
    and b: "b = c\<lparr>ap_InputValues := vs, ap_InputsDigest := digest, ap_Status := TrimSpace st,
      ap_ResolvedAt := Some (normalizeApprovalTime now), ap_ResolutionNote := n\<rparr>"
    using resolution_result [OF assms] by (simp only: if_False) blast
  have "update_identity b c" "ap_CreatedAt b = ap_CreatedAt c" "ap_Arguments b = ap_Arguments c"
    "ap_ResolvedAt b \<noteq> None" "ap_Status b = TrimSpace st"
    by (simp_all add: b update_identity_def)
  then show ?thesis
    unfolding approval_evolves_def using status by simp
qed

lemma approval_step_evolves:
  assumes "approval_step lib s s'" and "approvals_inv lib s" and "mget (st_approvals s) i = Some a"
  shows "\<exists>b. mget (st_approvals s') i = Some b \<and> approval_evolves a b"
  using assms
proof (induction rule: approval_step.induct)
  case (step_save env cx x s r s')
  have "mget (st_approvals s') i = Some a" if "mget (st_approvals s) (ap_ID b) = None"
    and "st_approvals s' = mput (ap_ID b) b (st_approvals s)" for b
    using that step_save(4) by (cases "i = ap_ID b") simp_all
  with SaveApproval_cases [OF step_save(2)] step_save(4) have "mget (st_approvals s') i = Some a"
    by blast
  then show ?case
    by (intro exI [of _ a] conjI) simp_all
next
  case (step_update env cx command s r s')
  have "\<exists>b. mget (st_approvals s') i = Some b \<and> approval_evolves a b"
    if "mget (st_approvals s) (ap_ID (uc_Candidate command)) = Some c"
    and "preparePendingApprovalUpdate lib command c = Inr b" and "st_approvals s' = mput (ap_ID b) b (st_approvals s)" for c b
  proof -
    have c: "approval_wf lib c" "ap_ID c = ap_ID (uc_Candidate command)"
      using inv_get [OF step_update(3) that(1)] by auto
    note u = update_result [OF that(2) c(1)]
    have "ap_ID b = ap_ID c" using u(2) by (simp add: update_identity_def)
    then have "st_approvals s' = mput (ap_ID c) b (st_approvals s)" using that(3) by simp
    moreover have "approval_evolves c b"
      unfolding approval_evolves_def using u(2-5) by blast
    ultimately show ?thesis
      using that(1) c(2) step_update(4) by (cases "i = ap_ID c") simp_all
  qed
  with UpdatePendingApproval_cases [OF step_update(2)] step_update(4) show ?case
    by (metis evolves_refl)
next
  case (step_resolve env cx operation j st n input s r s')
  have "\<exists>b. mget (st_approvals s') i = Some b \<and> approval_evolves a b"
    if "mget (st_approvals s) j = Some c"
    and "prepareApprovalInputResolution lib c st n (en_now env) input = Inr (b, False)"
    and "st_approvals s' = mput j b (st_approvals s)" for c b
  proof -
    have c: "approval_wf lib c" using inv_get [OF step_resolve(3) that(1)] by simp
    have "approval_evolves c b"
      by (rule resolution_evolves [OF that(2) c])
    then show ?thesis
      using that(1,3) step_resolve(4) by (cases "i = j") simp_all
  qed
  with resolve_cases [OF step_resolve(2)] step_resolve(4) show ?case
    by (metis (full_types) evolves_refl)
qed

lemma approval_step_logs: "approval_step lib s s' \<Longrightarrow> logs_extend s s'"
proof (induction rule: approval_step.induct)
  case (step_save env cx a s r s')
  from SaveApproval_cases [OF step_save(2)] show ?case by auto
next
  case (step_update env cx command s r s')
  from UpdatePendingApproval_cases [OF step_update(2)] show ?case by auto
next
  case (step_resolve env cx operation i st n input s r s')
  from resolve_cases [OF step_resolve(2)] show ?case by (auto split: if_splits)
qed

section \<open>Errors leave the store alone\<close>

lemma resolution_normal:
  assumes "prepareApprovalInputResolution lib a st n now input = Inr (b, replay)" and "json_time_ok now"
  shows "normal b"
proof -
  obtain a' digest where a': "normalizePersistedApproval a = Inr a'"
    and digest: "submission_digest lib a' (TrimSpace st) input = Inr digest"
    using assms(1) by (auto simp: prepareApprovalInputResolution_def Let_def split: if_splits sum.splits)
  have "b = a' \<or> b = a'\<lparr>ap_Status := TrimSpace st, ap_ResolvedAt := Some (normalizeApprovalTime now), ap_ResolutionNote := n\<rparr> \<or>
      (digest \<noteq> [] \<and> b = a'\<lparr>ap_InputValues := values_norm (is_Inputs input), ap_InputsDigest := digest,
        ap_Status := TrimSpace st, ap_ResolvedAt := Some (normalizeApprovalTime now), ap_ResolutionNote := n\<rparr>)"
    using assms(1) by (auto simp: prepareApprovalInputResolution_def a' digest Let_def split: if_splits)
  then show ?thesis
    using persisted_normal [OF a'] assms(2) by (auto simp: normal_def approval_encodes_def)
qed

lemma update_normal:
  assumes "preparePendingApprovalUpdate lib command a = Inr b"
  shows "normal b"
proof -
  obtain a' c where a': "normalizePersistedApproval a = Inr a'"
    and c: "prepareApproval lib (uc_Candidate command) (Some a') (ap_CreatedAt a') = Inr c"
    and b: "b = c\<lparr>ap_Status := ApprovalStatusPending, ap_ResolvedAt := None, ap_ResolutionNote := []\<rparr>"
    using assms by (auto simp: preparePendingApprovalUpdate_def split: sum.splits if_splits)
  have "json_time_ok (ap_CreatedAt a')"
    using persisted_normal [OF a'] by (simp add: normal_def approval_encodes_def)
  then have "normal c"
    using prepareApproval_wf [OF c] by simp
  then show ?thesis
    by (simp add: b normal_def approval_encodes_def)
qed

lemma SaveApproval_error_frame:
  assumes "json_time_ok (en_now env)" and "SaveApproval lib cx env a s = (Inl e, s')"
  shows "s' = s"
proof -
  have "cloneApproval b = Inr b" if "prepareApproval lib a None (en_now env) = Inr b" for b
    using normal_clone prepareApproval_wf [OF that assms(1)] by simp
  with SaveApproval_cases [OF assms(2)] show ?thesis by auto
qed

lemma UpdatePendingApproval_error_frame:
  assumes "UpdatePendingApproval lib cx env command s = (Inl e, s')"
  shows "s' = s"
  using UpdatePendingApproval_cases [OF assms] by (auto dest!: update_normal normal_clone)

lemma resolve_error_frame:
  assumes "json_time_ok (en_now env)" and "resolveApprovalInputs lib cx env operation i st n input s = (Inl e, s')"
  shows "s' = s"
  using resolve_cases [OF assms(2)] by (auto dest!: resolution_normal [OF _ assms(1)] normal_clone)

interpretation save_approval: failing_operation "SaveApproval lib cx env a" "json_time_ok (en_now env)"
  by unfold_locales (rule SaveApproval_error_frame)

interpretation update_approval: failing_operation "UpdatePendingApproval lib cx env command" True
  by unfold_locales (rule UpdatePendingApproval_error_frame)

interpretation resolve_approval: failing_operation "resolveApprovalInputs lib cx env operation i st n input" "json_time_ok (en_now env)"
  by unfold_locales (rule resolve_error_frame)

interpretation approval_table: record_table approval_cmp "\<lambda>a. (- ap_CreatedAt a, ap_ID a)" ap_ID
  by unfold_locales (auto simp: approval_cmp_def time_cmp_def str_cmp_def Let_def less_eq_prod_def)

interpretation approval_writes: reconciler "ReconcileApprovalWrite cx s"
  "\<lambda>c. fst (GetApproval cx (ap_ID c) s)" approvalsEqual "\<lambda>c. TrimSpace (ap_ID c) \<noteq> []"
  by unfold_locales (simp only: ReconcileApprovalWrite_def reconcile_write_def not_not)

section \<open>Reading\<close>

lemma clone_all_same: "(\<And>x. x \<in> set xs \<Longrightarrow> f x = Inr x) \<Longrightarrow> clone_all f xs = Inr xs"
  by (simp add: clone_all_Inr)

lemma ListApprovals_eq:
  assumes "approvals_inv lib s"
  shows "ListApprovals open_ctx st s =
    (Inr (SortFunc approval_cmp (filter (\<lambda>a. st = [] \<or> ap_Status a = st) (mvals (st_approvals s)))), s)"
proof -
  have "normalizePersistedApproval a = Inr a" if "a \<in> set (mvals (st_approvals s))" for a
    using assms that normal_persisted by (auto simp: approvals_inv_def)
  then show ?thesis
    by (simp add: ListApprovals_def framed_def checked_def clone_all_same sortApprovals_def)
qed

lemma find_external_Some:
  "find_external src ext m as = Some a \<Longrightarrow> m = Some a \<or> (a \<in> set as \<and> ap_Source a = src \<and> ap_ExternalID a = ext)"
  by (induction as arbitrary: m) (auto split: if_splits)

lemma find_external_None:
  "find_external src ext m as = None \<longleftrightarrow> m = None \<and> (\<forall>a \<in> set as. \<not> (ap_Source a = src \<and> ap_ExternalID a = ext))"
  by (induction as arbitrary: m) auto

lemma find_external_unique:
  assumes "approvals_inv lib s" and "ext \<noteq> []"
  shows "find_external src ext None (mvals (st_approvals s)) = Some a \<longleftrightarrow>
    mget (st_approvals s) (ap_ID a) = Some a \<and> ap_Source a = src \<and> ap_ExternalID a = ext"
proof -
  have k: "keyed ap_ID (st_approvals s)" using assms(1) by (simp add: approvals_inv_def)
  note vals = keyed_vals [OF k]
  have unique: "x = y" if "x \<in> set (mvals (st_approvals s))" "y \<in> set (mvals (st_approvals s))"
      "ap_Source x = ap_Source y" "ap_ExternalID x = ext" "ap_ExternalID y = ext" for x y
  proof -
    have u: "external_unique (st_approvals s)" using assms(1) by (simp add: approvals_inv_def)
    have "ap_ID x = ap_ID y"
      by (rule u [unfolded external_unique_def, rule_format, OF that(1,2)]) (simp add: that(3-5) assms(2))
    with that(1,2) show ?thesis using vals [of x] vals [of y] by simp
  qed
  show ?thesis
  proof
    assume "find_external src ext None (mvals (st_approvals s)) = Some a"
    from find_external_Some [OF this] show "mget (st_approvals s) (ap_ID a) = Some a \<and> ap_Source a = src \<and> ap_ExternalID a = ext"
      using vals [of a] by auto
  next
    assume a: "mget (st_approvals s) (ap_ID a) = Some a \<and> ap_Source a = src \<and> ap_ExternalID a = ext"
    then have mem: "a \<in> set (mvals (st_approvals s))" using vals [of a] by simp
    then obtain b where b: "find_external src ext None (mvals (st_approvals s)) = Some b"
      using a find_external_None [of src ext None "mvals (st_approvals s)"] by (metis option.exhaust)
    from find_external_Some [OF b] have "b = a"
      using unique mem a by auto
    with b show "find_external src ext None (mvals (st_approvals s)) = Some a" by simp
  qed
qed

section \<open>Runs of operations\<close>

lemma resolved_not_pending: "resolution_status st \<Longrightarrow> st \<noteq> ApprovalStatusPending"
  by (auto simp: resolution_status_def)

lemma update_identity_trans: "update_identity b a \<Longrightarrow> update_identity c b \<Longrightarrow> update_identity c a"
  by (simp add: update_identity_def)

text \<open>Across several steps the arguments may have been edited before the resolution.\<close>

definition approval_life :: "Approval \<Rightarrow> Approval \<Rightarrow> bool" where
  "approval_life a b \<longleftrightarrow> update_identity b a \<and> ap_CreatedAt b = ap_CreatedAt a \<and>
     (if ap_Status a = ApprovalStatusPending then ap_Status b = ApprovalStatusPending \<or> resolution_status (ap_Status b)
      else b = a)"

lemma life_refl [simp]: "approval_life a a"
  by (simp add: approval_life_def update_identity_def)

lemma evolves_life: "approval_evolves a b \<Longrightarrow> approval_life a b"
  unfolding approval_evolves_def approval_life_def
  by (elim disjE conjE) (simp_all add: update_identity_def)

lemma life_trans:
  assumes "approval_life a b" and "approval_life b c"
  shows "approval_life a c"
proof (cases "b = a \<or> c = b")
  case False
  then have "ap_Status a = ApprovalStatusPending" "ap_Status b = ApprovalStatusPending"
    using assms unfolding approval_life_def by metis+
  then show ?thesis
    using assms update_identity_trans unfolding approval_life_def by metis
qed (use assms in blast)

lemma approval_steps_evolve:
  assumes "(approval_step lib)\<^sup>*\<^sup>* s t" and "approvals_inv lib s" and "mget (st_approvals s) i = Some a"
  shows "approvals_inv lib t \<and> (\<exists>b. mget (st_approvals t) i = Some b \<and> approval_life a b)"
  using assms(1)
proof (induction rule: rtranclp_induct)
  case base
  then show ?case using assms(2,3) life_refl by blast
next
  case (step t u)
  then obtain b where b: "approvals_inv lib t" "mget (st_approvals t) i = Some b" "approval_life a b"
    by blast
  obtain c where "mget (st_approvals u) i = Some c" "approval_evolves b c"
    using approval_step_evolves [OF step.hyps(2) b(1,2)] by blast
  with b(3) approval_step_inv [OF step.hyps(2) b(1)] show ?case
    using life_trans evolves_life by blast
qed

text \<open>Resolving one stored approval when no context check refuses.\<close>

lemma resolve_open:
  assumes "approvals_inv lib s" and "mget (st_approvals s) i = Some a" and "json_time_ok (en_now env)"
  shows "resolveApprovalInputs lib open_ctx env operation i st n input s =
    (case prepareApprovalInputResolution lib a st n (en_now env) input of
       Inl e \<Rightarrow> (Inl (storeError operation (conflict_code e) e), s)
     | Inr (b, replay) \<Rightarrow> (Inr b, if replay then s
         else record_approval env (''approval.'' @ st) (''approval.'' @ st) (approvalResolutionActor st)
           (approvalLifecycleFields b) i b s))"
proof (cases "prepareApprovalInputResolution lib a st n (en_now env) input")
  case (Inl e)
  then show ?thesis
    by (simp add: resolveApprovalInputs_def framed_def checked_def assms(2))
next
  case (Inr p)
  obtain b replay where p: "p = (b, replay)" by (cases p)
  have "cloneApproval b = Inr b"
    using normal_clone resolution_normal [OF Inr [unfolded p] assms(3)] by simp
  then show ?thesis
    by (simp add: resolveApprovalInputs_def framed_def checked_def assms(2) Inr p)
qed

lemma resolution_of_resolved:
  assumes "approval_wf lib a" and "ap_Status a \<noteq> ApprovalStatusPending"
  shows "prepareApprovalInputResolution lib a st n now input =
    (if \<not> resolution_status (TrimSpace st) then Inl (Err ''approval resolution status is invalid'')
     else case submission_digest lib a (TrimSpace st) input of
         Inl e \<Rightarrow> Inl e
       | Inr digest \<Rightarrow> if ap_Status a = TrimSpace st \<and> ap_ResolutionNote a = n \<and> ap_InputsDigest a = digest
           then Inr (a, True) else Inl ErrApprovalConflict)"
  using assms(2) normal_persisted [OF wf_normal [OF assms(1)]]
  by (simp add: prepareApprovalInputResolution_def Let_def cong: sum.case_cong)

lemma submission_digest_same:
  assumes "ap_InputForm b = ap_InputForm a" and "ApprovalFormDigest lib b = ApprovalFormDigest lib a"
    and "ap_InputFormDigest b = ap_InputFormDigest a"
  shows "submission_digest lib b st input = submission_digest lib a st input"
  unfolding submission_digest_def assms by (rule refl)

lemma submission_digest_inputs:
  assumes "submission_digest lib a st input' = submission_digest lib a st input" and "submission_digest lib a st input = Inr d"
  shows "if ap_InputForm a \<noteq> None \<and> st = ApprovalStatusApproved
    then ApprovalInputsDigest lib (is_Inputs input') = ApprovalInputsDigest lib (is_Inputs input) else is_Inputs input' = []"
  using assms by (auto simp: submission_digest_def split: option.splits sum.splits if_splits)

lemma resolved_same:
  assumes "prepareApprovalInputResolution lib a st n now input = Inr (b, False)" and "approval_wf lib a"
  shows "submission_digest lib b (TrimSpace st) input = Inr (ap_InputsDigest b)"
    and "ap_Status b = TrimSpace st" and "ap_ResolutionNote b = n" and "resolution_status (TrimSpace st)"
    and "ap_Status a = ApprovalStatusPending"
proof -
  obtain digest where status: "ap_Status a = ApprovalStatusPending" "resolution_status (TrimSpace st)"
    and digest: "submission_digest lib a (TrimSpace st) input = Inr digest"
    and b: "b = a\<lparr>ap_InputValues := (if digest = [] then ap_InputValues a else values_norm (is_Inputs input)),
              ap_InputsDigest := (if digest = [] then ap_InputsDigest a else digest),
              ap_Status := TrimSpace st, ap_ResolvedAt := Some (normalizeApprovalTime now), ap_ResolutionNote := n\<rparr>"
    using resolution_result [OF assms] by (simp only: if_False) blast
  have "ap_InputsDigest a = []" using assms(2) status(1) by (simp add: approval_wf_def)
  then have "ap_InputsDigest b = digest" by (simp add: b)
  moreover have "submission_digest lib b (TrimSpace st) input = submission_digest lib a (TrimSpace st) input"
    by (rule submission_digest_same) (simp_all add: b ApprovalFormDigest_def)
  ultimately show "submission_digest lib b (TrimSpace st) input = Inr (ap_InputsDigest b)"
    using digest by simp
  show "ap_Status b = TrimSpace st" "ap_ResolutionNote b = n" "resolution_status (TrimSpace st)" "ap_Status a = ApprovalStatusPending"
    using status by (simp_all add: b)
qed

section \<open>Properties\<close>

definition sample_approval :: Approval where
  "sample_approval = \<lparr>ap_InputForm = Some sample_form, ap_InputFormDigest = ''f-a1'', ap_InputValues = [], ap_InputsDigest = [],
     ap_ID = ''a1'', ap_Source = ApprovalSourceHappyTeamPlan, ap_ExternalID = ''x1'', ap_ExternalContext = None,
     ap_SessionID = ''s1'', ap_RunID = ''r1'', ap_ToolCallID = [], ap_Tool = ''files.write'', ap_Risk = RiskReversible,
     ap_Status = ApprovalStatusPending, ap_Summary = ''write'', ap_Reason = [], ap_Resources = [], ap_Arguments = [],
     ap_ArgumentsImmutable = False, ap_CreatedAt = 1000, ap_ResolvedAt = None, ap_ResolutionNote = [],
     ap_PolicyContext = None, ap_Presentation = None\<rparr>"

definition sample_submission :: ApprovalInputSubmission where
  "sample_submission = \<lparr>is_Digest = ''f-a1'', is_SchemaVersion = 1, is_Inputs = sample_values\<rparr>"

definition approval_store :: MemoryStore where
  "approval_store = snd (SaveApproval sample_lib open_ctx sample_env sample_approval NewMemoryStore)"

lemma sample_created [simp]: "normalizeApprovalTime 1000 = 1000"
  by code_simp

lemma sample_prepare: "prepareApproval sample_lib sample_approval None (en_now sample_env) = Inr sample_approval"
proof -
  have enc: "approval_encodes sample_approval"
    by (simp add: approval_encodes_def sample_approval_def sample_form_def form_encodes_def finite_bound_def values_encode_def map_ok_def)
  have trim: "TrimSpace ''a1'' = ''a1''" by code_simp
  have "pre_form sample_approval None (en_now sample_env) = sample_approval"
    by (simp add: pre_form_def Let_def trim) (simp add: sample_approval_def trim)
  moreover have "ApprovalFormDigest sample_lib sample_approval = Inr ''f-a1''"
    using enc by (simp add: ApprovalFormDigest_def approval_encodes_def) (simp add: sample_approval_def sample_lib_def)
  then have "prepare_form sample_lib sample_approval = Inr sample_approval"
    using sample_form_valid by (simp add: prepare_form_def) (simp add: sample_approval_def)
  ultimately show ?thesis
    using enc trim by (simp add: prepareApproval_pre_form) (simp add: sample_approval_def)
qed

lemma sample_reach: "reach empty_store (approval_step sample_lib) approval_store"
proof (rule reach_step)
  show "reach empty_store (approval_step sample_lib) NewMemoryStore"
    by (rule reach_init) (rule empty_store_New)
  show "approval_step sample_lib NewMemoryStore approval_store"
    unfolding approval_store_def by (rule step_save [OF sample_clock(1) prod.collapse [symmetric]])
qed

lemma sample_stored: "st_approvals approval_store = [(''a1'', sample_approval)]"
    "SaveApproval sample_lib open_ctx sample_env sample_approval NewMemoryStore = (Inr sample_approval, approval_store)"
proof -
  have n: "cloneApproval sample_approval = Inr sample_approval"
    using prepareApproval_wf [OF sample_prepare] normal_clone by simp
  have i: "ap_ID sample_approval = ''a1''" by (simp add: sample_approval_def)
  show s: "SaveApproval sample_lib open_ctx sample_env sample_approval NewMemoryStore = (Inr sample_approval, approval_store)"
    unfolding approval_store_def
    by (simp add: SaveApproval_def checked_def framed_def Let_def sample_prepare external_taken_def n)
  show "st_approvals approval_store = [(''a1'', sample_approval)]"
    using SaveApproval_cases [OF s]
    unfolding approval_store_def
    by (simp add: SaveApproval_def checked_def framed_def Let_def sample_prepare external_taken_def n i)
qed

lemmas sample_inv = approvals.reach_inv [OF sample_reach]

text \<open>C5: the life cycle of an approval. From any reachable store and under any sequence of saves, updates and
  resolutions, a stored approval stays under its identity with the fields the owner was asked about (tool,
  risk, source, session, run, policy facts, presentation, form) and its creation time unchanged; while it is
  pending it can only stay pending or be approved, rejected or resolved elsewhere; afterwards no field
  changes ever again.\<close>

theorem approval_lifecycle:
  assumes "reach empty_store (approval_step lib) s" and "(approval_step lib)\<^sup>*\<^sup>* s t"
    and "mget (st_approvals s) i = Some a"
  shows "\<exists>b. mget (st_approvals t) i = Some b \<and> update_identity b a \<and> ap_CreatedAt b = ap_CreatedAt a \<and>
    (if ap_Status a = ApprovalStatusPending then ap_Status b = ApprovalStatusPending \<or> resolution_status (ap_Status b)
     else b = a)"
  using approval_steps_evolve [OF assms(2) approvals.reach_inv [OF assms(1)] assms(3)]
  unfolding approval_life_def by blast

lemma approval_lifecycle_witness:
  "\<exists>b. mget (st_approvals (snd (ResolveApproval sample_lib open_ctx sample_env ''a1'' ''rejected'' [] approval_store))) ''a1'' = Some b \<and>
     update_identity b sample_approval"
proof -
  have "approval_step sample_lib approval_store (snd (ResolveApproval sample_lib open_ctx sample_env ''a1'' ''rejected'' [] approval_store))"
    unfolding ResolveApproval_def by (rule step_resolve [OF sample_clock(1) prod.collapse [symmetric]])
  then have "(approval_step sample_lib)\<^sup>*\<^sup>* approval_store (snd (ResolveApproval sample_lib open_ctx sample_env ''a1'' ''rejected'' [] approval_store))"
    by (rule r_into_rtranclp)
  from approval_lifecycle [OF sample_reach this, of "''a1''" sample_approval] show ?thesis
    by (auto simp: sample_stored)
qed

text \<open>C3: an approval is resolved once. After a successful resolution the identical call, whenever it is repeated,
  returns the same approval and changes nothing, so that a retry is safe; and any call with another decision, another note or
  other inputs is refused and changes nothing. Inputs are other inputs when the approval was approved with inputs for a form and
  their digest differs, and when there were none to give and some are given.\<close>

theorem approval_resolved_once:
  assumes "approvals_inv lib s" and "json_time_ok (en_now env)" and "json_time_ok (en_now env')"
    and "resolveApprovalInputs lib cx env operation i st n input s = (Inr b, s')"
  shows "resolveApprovalInputs lib open_ctx env' operation' i st n input s' = (Inr b, s') \<and>
    (TrimSpace st' \<noteq> TrimSpace st \<or> n' \<noteq> n \<or>
     (if ap_InputForm b \<noteq> None \<and> TrimSpace st = ApprovalStatusApproved
      then ApprovalInputsDigest lib (is_Inputs input') \<noteq> ApprovalInputsDigest lib (is_Inputs input)
      else is_Inputs input' \<noteq> []) \<longrightarrow>
      (\<exists>e. resolveApprovalInputs lib open_ctx env' operation' i st' n' input' s' = (Inl e, s')))"
proof -
  obtain a c replay where a: "mget (st_approvals s) i = Some a"
    and c: "prepareApprovalInputResolution lib a st n (en_now env) input = Inr (c, replay)" and r: "Inr b = cloneApproval c"
    and s': "if replay then s' = s else st_approvals s' = mput i c (st_approvals s)"
    using resolve_cases [OF assms(4)] by (auto split: if_splits)
  have wf: "approval_wf lib a" using inv_get [OF assms(1) a] by simp
  note w = resolution_wf [OF c wf assms(2)]
  have b: "b = c" using r normal_clone [of c] w(1) by simp
  have stored: "mget (st_approvals s') i = Some b"
    using s' a b resolution_result [OF c wf] by (auto split: if_splits)
  have inv: "approvals_inv lib s'"
    using approval_step_inv [OF step_resolve [OF assms(2,4)] assms(1)] .
  have res: "resolution_status (TrimSpace st) \<and> ap_Status b = TrimSpace st \<and> ap_ResolutionNote b = n \<and>
      submission_digest lib b (TrimSpace st) input = Inr (ap_InputsDigest b)"
  proof (cases replay)
    case False
    then have "prepareApprovalInputResolution lib a st n (en_now env) input = Inr (c, False)" using c by simp
    from resolved_same [OF this wf] show ?thesis using b by simp
  next
    case True
    then have ba: "b = a" "ap_Status a \<noteq> ApprovalStatusPending" using resolution_result [OF c wf] b by auto
    with c show ?thesis
      by (simp add: resolution_of_resolved [OF wf ba(2)] split: if_splits sum.splits)
  qed
  then have wfb: "approval_wf lib b" "ap_Status b \<noteq> ApprovalStatusPending"
    using w(1) b resolved_not_pending by auto
  have "resolveApprovalInputs lib open_ctx env' operation' i st n input s' = (Inr b, s')"
    using res by (simp add: resolve_open [OF inv stored assms(3)] resolution_of_resolved [OF wfb])
  moreover have "\<exists>e. resolveApprovalInputs lib open_ctx env' operation' i st' n' input' s' = (Inl e, s')"
    if "TrimSpace st' \<noteq> TrimSpace st \<or> n' \<noteq> n"
    using that res by (auto simp: resolve_open [OF inv stored assms(3)] resolution_of_resolved [OF wfb] split: sum.splits)
  moreover have "\<exists>e. resolveApprovalInputs lib open_ctx env' operation' i st' n' input' s' = (Inl e, s')"
    if other: "if ap_InputForm b \<noteq> None \<and> TrimSpace st = ApprovalStatusApproved
      then ApprovalInputsDigest lib (is_Inputs input') \<noteq> ApprovalInputsDigest lib (is_Inputs input) else is_Inputs input' \<noteq> []"
      and st: "TrimSpace st' = TrimSpace st"
  proof -
    have "submission_digest lib b (TrimSpace st) input' \<noteq> Inr (ap_InputsDigest b)"
    proof
      assume "submission_digest lib b (TrimSpace st) input' = Inr (ap_InputsDigest b)"
      then have "submission_digest lib b (TrimSpace st) input' = submission_digest lib b (TrimSpace st) input" using res by simp
      with submission_digest_inputs [OF this] res other show False by (cases "ap_InputForm b") (auto split: if_splits)
    qed
    then show ?thesis
      using st by (auto simp: resolve_open [OF inv stored assms(3)] resolution_of_resolved [OF wfb] split: sum.splits)
  qed
  ultimately show ?thesis by metis
qed

text \<open>C4: an approval with an input form is approved only with inputs for exactly that form. A successful call to
  approve binds the digest of the pending form and schema version 1, its values validate against the form,
  and the stored approval carries their normal form and their digest; approving without inputs
  (\<open>ResolveApproval\<close>) always fails.\<close>

theorem approval_binds_inputs:
  assumes "approvals_inv lib s" and "mget (st_approvals s) i = Some a" and "ap_InputForm a = Some form"
    and "ap_Status a = ApprovalStatusPending" and "json_time_ok (en_now env)" and "\<And>vs. values_sha256 lib vs \<noteq> []"
    and "TrimSpace st = ApprovalStatusApproved"
  shows "(\<forall>b s'. resolveApprovalInputs lib cx env operation i st n input s = (Inr b, s') \<longrightarrow>
      is_Digest input = ap_InputFormDigest a \<and> is_SchemaVersion input = 1 \<and>
      ValidateApprovalInputs lib (Some form) (is_Inputs input) = None \<and>
      ap_InputValues b = values_norm (is_Inputs input) \<and> ApprovalInputsDigest lib (is_Inputs input) = Inr (ap_InputsDigest b) \<and>
      ap_Status b = ApprovalStatusApproved \<and> mget (st_approvals s') i = Some b) \<and>
    (\<exists>e. ResolveApproval lib cx env i st n s = (Inl e, s))"
proof (intro conjI allI impI)
  have wf: "approval_wf lib a" using inv_get [OF assms(1,2)] by simp
  have digest: "is_Digest x = ap_InputFormDigest a \<and> is_SchemaVersion x = 1 \<and>
      ValidateApprovalInputs lib (Some form) (is_Inputs x) = None \<and> ApprovalInputsDigest lib (is_Inputs x) = Inr d \<and> d \<noteq> []"
    if "submission_digest lib a ApprovalStatusApproved x = Inr d" for x d
    using that assms(3,6) by (auto simp: submission_digest_def ApprovalInputsDigest_def split: sum.splits if_splits option.splits)
  {
    fix b s'
    assume "resolveApprovalInputs lib cx env operation i st n input s = (Inr b, s')"
    from resolve_cases [OF this] obtain c replay
      where c: "prepareApprovalInputResolution lib a st n (en_now env) input = Inr (c, replay)" and b: "Inr b = cloneApproval c"
      and s': "if replay then s' = s else st_approvals s' = mput i c (st_approvals s)"
      using assms(2) by (auto split: if_splits)
    have bc: "b = c" using b normal_clone [of c] resolution_wf(1) [OF c wf assms(5)] by simp
    have replay: "\<not> replay" using resolution_result [OF c wf] assms(4) by (cases replay) simp_all
    then obtain d where d: "submission_digest lib a ApprovalStatusApproved input = Inr d"
      and c': "c = a\<lparr>ap_InputValues := (if d = [] then ap_InputValues a else values_norm (is_Inputs input)),
              ap_InputsDigest := (if d = [] then ap_InputsDigest a else d),
              ap_Status := TrimSpace st, ap_ResolvedAt := Some (normalizeApprovalTime (en_now env)), ap_ResolutionNote := n\<rparr>"
      using resolution_result [OF c wf] assms(7) by (simp only: if_False) auto
    have "ap_InputValues b = values_norm (is_Inputs input)" "ap_InputsDigest b = d" "ap_Status b = ApprovalStatusApproved"
      "mget (st_approvals s') i = Some b"
      using digest [OF d] s' replay assms(7) by (simp_all add: bc c')
    then show "is_Digest input = ap_InputFormDigest a" "is_SchemaVersion input = 1"
      "ValidateApprovalInputs lib (Some form) (is_Inputs input) = None" "ap_InputValues b = values_norm (is_Inputs input)"
      "ApprovalInputsDigest lib (is_Inputs input) = Inr (ap_InputsDigest b)" "ap_Status b = ApprovalStatusApproved"
      "mget (st_approvals s') i = Some b"
      using digest [OF d] by simp_all
  }
  show "\<exists>e. ResolveApproval lib cx env i st n s = (Inl e, s)"
  proof (cases "ResolveApproval lib cx env i st n s")
    case (Pair r s')
    from resolve_cases [OF Pair [unfolded ResolveApproval_def]] show ?thesis
    proof (elim disjE)
      assume "\<exists>a b replay. mget (st_approvals s) i = Some a \<and>
        prepareApprovalInputResolution lib a st n (en_now env) no_submission = Inr (b, replay) \<and> r = cloneApproval b \<and>
        (if replay then s' = s else st_approvals s' = mput i b (st_approvals s) \<and> logs_extend s s')"
      then obtain b replay where p: "prepareApprovalInputResolution lib a st n (en_now env) no_submission = Inr (b, replay)"
        using assms(2) by auto
      have "\<exists>d. submission_digest lib a ApprovalStatusApproved no_submission = Inr d"
        using resolution_result [OF p wf] assms(4,7) by (cases replay) auto
      then show ?thesis using digest [of no_submission] by (auto simp: no_submission_def)
    qed (use Pair in auto)
  qed
qed

lemma sample_fields:
  "ap_InputForm sample_approval = Some sample_form" "ap_InputFormDigest sample_approval = ''f-a1''"
  "ApprovalInputsDigest sample_lib sample_values = Inr ''v''" "ApprovalInputsDigest sample_lib [] = Inr ''w''"
  by (simp_all add: sample_approval_def sample_lib_def ApprovalInputsDigest_def sample_values_def values_encode_def values_norm_def
      map_ok_def sort_keys_def)

lemma sample_resolution:
  "\<exists>b. prepareApprovalInputResolution sample_lib sample_approval ApprovalStatusApproved ''ok'' 5000 sample_submission = Inr (b, False) \<and>
    ap_InputForm b = Some sample_form"
proof -
  have n: "normalizePersistedApproval sample_approval = Inr sample_approval"
    using prepareApproval_wf [OF sample_prepare] normal_persisted by simp
  have digest: "ApprovalFormDigest sample_lib sample_approval = Inr ''f-a1''"
    using prepareApproval_wf [OF sample_prepare]
    by (simp add: approval_wf_def form_bound_def) (simp add: sample_approval_def)
  have trim: "TrimSpace ApprovalStatusApproved = ApprovalStatusApproved" by code_simp
  have "submission_digest sample_lib sample_approval ApprovalStatusApproved sample_submission = Inr ''v''"
    using sample_values_valid
    by (simp add: submission_digest_def digest sample_fields sample_submission_def cong: option.case_cong)
  moreover have "ap_Status sample_approval = ApprovalStatusPending" by (simp add: sample_approval_def)
  ultimately show ?thesis
    by (simp add: prepareApprovalInputResolution_def Let_def trim resolution_status_def n sample_fields)
qed

lemma sample_resolved:
  obtains b s' where "resolveApprovalInputs sample_lib open_ctx sample_env ''approval.resolve_inputs'' ''a1''
    ApprovalStatusApproved ''ok'' sample_submission approval_store = (Inr b, s')" "ap_InputForm b = Some sample_form"
proof -
  have a: "mget (st_approvals approval_store) ''a1'' = Some sample_approval" by (simp add: sample_stored)
  obtain b where b: "prepareApprovalInputResolution sample_lib sample_approval ApprovalStatusApproved ''ok'' (en_now sample_env)
      sample_submission = Inr (b, False)" "ap_InputForm b = Some sample_form"
    using sample_resolution by (auto simp: sample_env_def)
  then have "fst (resolveApprovalInputs sample_lib open_ctx sample_env ''approval.resolve_inputs'' ''a1''
    ApprovalStatusApproved ''ok'' sample_submission approval_store) = Inr b"
    by (simp add: resolve_open [OF sample_inv a sample_clock(1)])
  then show thesis using that b(2) by (metis prod.collapse)
qed

lemma approval_resolved_once_witness:
  "\<exists>b s' e e'. resolveApprovalInputs sample_lib open_ctx sample_env ''approval.resolve_inputs'' ''a1'' ApprovalStatusApproved ''ok''
      sample_submission approval_store = (Inr b, s') \<and>
    resolveApprovalInputs sample_lib open_ctx sample_env ''approval.resolve'' ''a1'' ApprovalStatusApproved ''no'' no_submission s' = (Inl e, s') \<and>
    resolveApprovalInputs sample_lib open_ctx sample_env ''approval.resolve_inputs'' ''a1'' ApprovalStatusApproved ''ok''
      (sample_submission\<lparr>is_Inputs := []\<rparr>) s' = (Inl e', s')"
proof -
  obtain b s' where r: "resolveApprovalInputs sample_lib open_ctx sample_env ''approval.resolve_inputs'' ''a1''
    ApprovalStatusApproved ''ok'' sample_submission approval_store = (Inr b, s')" and f: "ap_InputForm b = Some sample_form"
    by (rule sample_resolved)
  have trim: "TrimSpace ApprovalStatusApproved = ApprovalStatusApproved" by code_simp
  note once = approval_resolved_once [OF sample_inv sample_clock(1) sample_clock(1) r]
  have "\<exists>e. resolveApprovalInputs sample_lib open_ctx sample_env ''approval.resolve_inputs'' ''a1'' ApprovalStatusApproved ''ok''
      (sample_submission\<lparr>is_Inputs := []\<rparr>) s' = (Inl e, s')"
    using once [of "''approval.resolve_inputs''" ApprovalStatusApproved "''ok''" "sample_submission\<lparr>is_Inputs := []\<rparr>"]
    by (auto simp: sample_submission_def sample_fields trim f split: if_splits)
  moreover have "''no'' \<noteq> ''ok''" by simp
  with once [of "''approval.resolve''" ApprovalStatusApproved "''no''" no_submission]
  have "\<exists>e. resolveApprovalInputs sample_lib open_ctx sample_env ''approval.resolve'' ''a1'' ApprovalStatusApproved ''no'' no_submission s' = (Inl e, s')"
    by blast
  ultimately show ?thesis using r by blast
qed

lemma approval_binds_inputs_witness:
  "\<exists>b s'. resolveApprovalInputs sample_lib open_ctx sample_env ''approval.resolve_inputs'' ''a1'' ApprovalStatusApproved ''ok''
      sample_submission approval_store = (Inr b, s') \<and> ap_InputValues b = values_norm sample_values"
proof -
  obtain b s' where r: "resolveApprovalInputs sample_lib open_ctx sample_env ''approval.resolve_inputs'' ''a1''
    ApprovalStatusApproved ''ok'' sample_submission approval_store = (Inr b, s')"
    by (rule sample_resolved)
  have a: "mget (st_approvals approval_store) ''a1'' = Some sample_approval" by (simp add: sample_stored)
  have f: "ap_InputForm sample_approval = Some sample_form" "ap_Status sample_approval = ApprovalStatusPending"
    by (simp_all add: sample_approval_def)
  have lib: "values_sha256 sample_lib vs \<noteq> []" for vs by (simp add: sample_lib_def)
  have trim: "TrimSpace ApprovalStatusApproved = ApprovalStatusApproved" by code_simp
  note p = approval_binds_inputs [OF sample_inv a f sample_clock(1) lib trim, of open_ctx "''approval.resolve_inputs''" "''ok''" sample_submission]
  then have "ap_InputValues b = values_norm (is_Inputs sample_submission)"
    using r by blast
  with r show ?thesis by (auto simp: sample_submission_def)
qed

text \<open>The lookup of an external approval is exact. In a reachable store at most one approval carries a given
  non-empty external reference of a source, and \<open>FindApprovalByExternalRef\<close> returns it, whatever the iteration
  order of the map, or nothing when there is none.\<close>

theorem approval_external_lookup:
  assumes "reach empty_store (approval_step lib) s" and "ext \<noteq> []"
  shows "(fst (FindApprovalByExternalRef open_ctx src ext s) = Inr (Some a) \<longleftrightarrow>
      mget (st_approvals s) (ap_ID a) = Some a \<and> ap_Source a = src \<and> ap_ExternalID a = ext) \<and>
    (fst (FindApprovalByExternalRef open_ctx src ext s) = Inr None \<longleftrightarrow>
      (\<forall>i b. mget (st_approvals s) i = Some b \<longrightarrow> \<not> (ap_Source b = src \<and> ap_ExternalID b = ext))) \<and>
    snd (FindApprovalByExternalRef open_ctx src ext s) = s"
proof -
  have inv: "approvals_inv lib s" using approvals.reach_inv [OF assms(1)] .
  note unique = find_external_unique [OF inv assms(2)]
  have "FindApprovalByExternalRef open_ctx src ext s = (Inr (find_external src ext None (mvals (st_approvals s))), s)"
  proof (cases "find_external src ext None (mvals (st_approvals s))")
    case (Some b)
    then have "mget (st_approvals s) (ap_ID b) = Some b" using unique by blast
    then have "normalizePersistedApproval b = Inr b"
      using inv_get [OF inv] normal_persisted wf_normal by blast
    with Some show ?thesis by (simp add: FindApprovalByExternalRef_def framed_def checked_def)
  qed (simp add: FindApprovalByExternalRef_def framed_def checked_def)
  moreover have "find_external src ext None (mvals (st_approvals s)) = None \<longleftrightarrow>
      (\<forall>i b. mget (st_approvals s) i = Some b \<longrightarrow> \<not> (ap_Source b = src \<and> ap_ExternalID b = ext))"
    (is "?L \<longleftrightarrow> ?R")
  proof
    assume ?L then show ?R
      using unique inv_get [OF inv] by (metis option.distinct(1))
  next
    assume ?R then show ?L
      using unique by (metis option.exhaust)
  qed
  ultimately show ?thesis using unique by simp
qed

lemma approval_external_lookup_witness:
  "fst (FindApprovalByExternalRef open_ctx ApprovalSourceHappyTeamPlan ''x1'' approval_store) = Inr (Some sample_approval)"
  using approval_external_lookup [OF sample_reach, of "''x1''" ApprovalSourceHappyTeamPlan sample_approval]
  by (simp add: sample_stored) (simp add: sample_approval_def)

text \<open>The approval list is exact and reproducible. In a reachable store \<open>ListApprovals\<close> succeeds and returns every
  approval of the asked status once and nothing else, newest first and by identity among equals, and any map
  with the same content gives the same list.\<close>

theorem approval_listing:
  assumes "reach empty_store (approval_step lib) s"
  shows "\<exists>as. ListApprovals open_ctx st s = (Inr as, s) \<and>
    (\<forall>a. a \<in> set as \<longleftrightarrow> mget (st_approvals s) (ap_ID a) = Some a \<and> (st = [] \<or> ap_Status a = st)) \<and>
    distinct (map ap_ID as) \<and> sorted (map (\<lambda>a. (- ap_CreatedAt a, ap_ID a)) as) \<and>
    (\<forall>s'. reach empty_store (approval_step lib) s' \<and> (\<forall>i. mget (st_approvals s') i = mget (st_approvals s) i) \<longrightarrow>
      fst (ListApprovals open_ctx st s') = Inr as)"
proof -
  let ?as = "\<lambda>s. SortFunc approval_cmp (filter (\<lambda>a. st = [] \<or> ap_Status a = st) (mvals (st_approvals s)))"
  have inv: "approvals_inv lib s'" if "reach empty_store (approval_step lib) s'" for s'
    using approvals.reach_inv [OF that] .
  then have k: "keyed ap_ID (st_approvals s')" if "reach empty_store (approval_step lib) s'" for s'
    using that by (auto simp: approvals_inv_def)
  have "fst (ListApprovals open_ctx st s') = Inr (?as s)"
    if "reach empty_store (approval_step lib) s'" "\<forall>i. mget (st_approvals s') i = mget (st_approvals s) i" for s'
    using ListApprovals_eq [OF inv [OF that(1)], of st]
      approval_table.listing_unique [OF k [OF that(1)] k [OF assms], of "\<lambda>a. st = [] \<or> ap_Status a = st"] that(2)
    by simp
  then show ?thesis
    using ListApprovals_eq [OF inv [OF assms], of st]
      approval_table.listing_members [OF k [OF assms], of _ "\<lambda>a. st = [] \<or> ap_Status a = st"]
      approval_table.listing_distinct [OF k [OF assms], of "\<lambda>a. st = [] \<or> ap_Status a = st"]
      approval_table.sorted_SortFunc
    by (intro exI [of _ "?as s"] conjI allI impI) auto
qed

lemma approval_listing_witness:
  "\<exists>as. ListApprovals open_ctx ApprovalStatusPending approval_store = (Inr as, approval_store) \<and> sample_approval \<in> set as"
proof -
  have "mget (st_approvals approval_store) (ap_ID sample_approval) = Some sample_approval"
    and "ap_Status sample_approval = ApprovalStatusPending"
    by (simp_all add: sample_stored) (simp_all add: sample_approval_def)
  with approval_listing [OF sample_reach, of ApprovalStatusPending] show ?thesis by blast
qed

lemma SaveApproval_stores:
  assumes "approvals_inv lib s" and "json_time_ok (en_now env)" and "SaveApproval lib cx env a s = (Inr b, s')"
  shows "mget (st_approvals s') (ap_ID b) = Some b"
proof -
  let ?old = "mget (st_approvals s) (TrimSpace (ap_ID a))"
  obtain c where c: "prepareApproval lib a ?old (en_now env) = Inr c"
    using assms(3) by (auto simp: SaveApproval_def checked_ok framed_ok Let_def split: sum.splits)
  have old: "\<And>d. ?old = Some d \<Longrightarrow> approval_wf lib d" using inv_get [OF assms(1)] by blast
  then have "json_time_ok (ap_CreatedAt d)" if "?old = Some d" for d
    using wf_normal [OF old [OF that]] by (simp add: normal_def approval_encodes_def)
  with c assms(2) have wf: "approval_wf lib c" by (rule prepareApproval_wf) simp
  note n = wf_normal [OF wf]
  have i: "ap_ID c = TrimSpace (ap_ID a)" using prepareApproval_fields(1) [OF c] .
  show ?thesis
  proof (cases ?old)
    case None
    then have c': "prepareApproval lib a None (en_now env) = Inr c" using c by simp
    show ?thesis
      using assms(3) c' None i
      by (simp add: SaveApproval_def checked_ok framed_ok Let_def normal_clone [OF n] split: if_splits) auto
  next
    case (Some d)
    then have c': "prepareApproval lib a (Some d) (en_now env) = Inr c" using c by simp
    have "approvalsEqual d c \<and> b = c \<and> s' = s"
      using assms(3) by (simp add: SaveApproval_def checked_ok framed_ok Let_def Some c' normal_clone [OF n] split: if_splits)
    then show ?thesis
      using Some i approvalsEqual_normal [OF wf_normal [OF old [OF Some]] n] by simp
  qed
qed

text \<open>Reconciliation tells a committed save from a lost one. After a save that stored its approval, a write
  reported with unknown outcome reconciles to the stored approval; if the save never reached the store and the
  identity is new, the original error is returned; and a write that failed for any known reason stays failed.\<close>

theorem approval_write_reconciled:
  assumes "reach empty_store (approval_step lib) s" and "json_time_ok (en_now env)"
    and "SaveApproval lib cx env a s = (Inr b, s')"
  shows "ReconcileApprovalWrite open_ctx s' b (Some (StoreErr StoreErrorUnknownOutcome op cause)) = Inr b \<and>
    (mget (st_approvals s) (ap_ID b) = None \<longrightarrow>
      ReconcileApprovalWrite open_ctx s b (Some (StoreErr StoreErrorUnknownOutcome op cause)) =
        Inl (StoreErr StoreErrorUnknownOutcome op cause)) \<and>
    (StoreErrorCodeOf e \<noteq> StoreErrorUnknownOutcome \<longrightarrow> ReconcileApprovalWrite open_ctx s' b (Some e) = Inl e)"
proof -
  have inv: "approvals_inv lib s" using approvals.reach_inv [OF assms(1)] .
  have inv': "approvals_inv lib s'" using approval_step_inv [OF step_save [OF assms(2,3)] inv] .
  have stored: "mget (st_approvals s') (ap_ID b) = Some b" by (rule SaveApproval_stores [OF inv assms(2,3)])
  have wf: "approval_wf lib b" using inv_get [OF inv' stored] by simp
  then have p: "normalizePersistedApproval b = Inr b" and i: "TrimSpace (ap_ID b) \<noteq> []"
    using normal_persisted by (auto simp: approval_wf_def)
  have look: "fst (GetApproval open_ctx (ap_ID b) s') = Inr (Some b)"
    by (simp add: GetApproval_def framed_def checked_def stored p)
  have same: "approvalsEqual b b" by (simp add: approvalsEqual_def p)
  have miss: "ReconcileApprovalWrite open_ctx s b (Some (StoreErr StoreErrorUnknownOutcome op cause)) =
        Inl (StoreErr StoreErrorUnknownOutcome op cause)" if "mget (st_approvals s) (ap_ID b) = None"
    using that i by (simp add: ReconcileApprovalWrite_def GetApproval_def framed_def checked_def)
  show ?thesis
    using approval_writes.unknown_success_complete [OF look same i] approval_writes.known_failure_stands miss
    by (simp only: StoreErrorCodeOf_StoreErr simp_thms) blast
qed

lemma approval_write_reconciled_witness:
  "ReconcileApprovalWrite open_ctx approval_store sample_approval (Some (StoreErr StoreErrorUnknownOutcome ''approval.save'' (Err ''lost''))) =
     Inr sample_approval"
proof -
  have "reach empty_store (approval_step sample_lib) NewMemoryStore"
    by (rule reach_init) (rule empty_store_New)
  from approval_write_reconciled [OF this sample_clock(1) sample_stored(2)] show ?thesis by blast
qed

end
