(* ===== verification/Runs.thy ===== *)
theory Runs
  imports Run_Operations
begin

text \<open>
  What the run repository keeps and what its readers return: the per-session indexes are the sorted tables
  (interpretations of \<open>session_index\<close>), so the bounded recent-history queries agree with sorting and
  filtering everything; the aggregations do not depend on the map's iteration order; feedback is upserted in
  place; and writes of unknown outcome reconcile against what is stored.
\<close>

section \<open>Interfaces\<close>

interpretation tool_index: session_index compareToolCallsAscending "\<lambda>c. (tc_StartedAt c, tc_ID c)" tc_ID
  tc_SessionID zero_ToolCall indexToolCallLocked
  by unfold_locales
    (auto simp: compareToolCallsAscending_def time_cmp_def str_cmp_def Let_def less_eq_prod_def indexToolCallLocked_def)

interpretation episode_index: session_index compareEpisodeSummariesNewestFirst "\<lambda>e. (- ep_CreatedAt e, ep_ID e)" ep_ID
  ep_SessionID zero_EpisodeSummary indexEpisodeSummaryLocked
  by unfold_locales
    (auto simp: compareEpisodeSummariesNewestFirst_def time_cmp_def str_cmp_def Let_def less_eq_prod_def indexEpisodeSummaryLocked_def)

interpretation run_table: record_table run_cmp "\<lambda>r. (- ru_StartedAt r, ru_ID r)" ru_ID
  by unfold_locales (auto simp: run_cmp_def time_cmp_def str_cmp_def Let_def less_eq_prod_def)

interpretation model_call_table: record_table modelcall_cmp "\<lambda>c. (mc_StartedAt c, mc_ID c)" mc_ID
  by unfold_locales (auto simp: modelcall_cmp_def time_cmp_def str_cmp_def Let_def less_eq_prod_def)

interpretation feedback_order: sort_order feedback_cmp "\<lambda>f. (- fb_UpdatedAt f, fb_ID f)"
  by unfold_locales (auto simp: feedback_cmp_def time_cmp_def str_cmp_def Let_def less_eq_prod_def)

interpretation run_writes: reconciler "ReconcileRunWrite cx s"
  "\<lambda>c. fst (GetRun cx (ru_ID c) s)" "runRecordsEqual cloneRun" "\<lambda>c. TrimSpace (ru_ID c) \<noteq> []"
  by unfold_locales (simp only: ReconcileRunWrite_def reconcile_write_def not_not)

interpretation tool_call_writes: reconciler "ReconcileToolCallWrite cx s"
  "\<lambda>c. fst (GetToolCall cx (tc_ID c) s)" "runRecordsEqual cloneToolCall" "\<lambda>c. TrimSpace (tc_ID c) \<noteq> []"
  by unfold_locales (simp only: ReconcileToolCallWrite_def reconcile_write_def not_not)

section \<open>Prepared records\<close>

lemma normalizeRunTime_idem [simp]: "normalizeRunTime (normalizeRunTime t) = normalizeRunTime t"
  by (simp add: normalizeRunTime_def)

lemma cloneRun_idem: "cloneRun r = Inr c \<Longrightarrow> cloneRun c = Inr c"
  by (auto simp: cloneRun_def split: if_splits)

lemma cloneToolCall_idem: "cloneToolCall r = Inr c \<Longrightarrow> cloneToolCall c = Inr c"
  by (auto simp: cloneToolCall_def split: if_splits)

lemma prepareRun_ok: "prepareRun r now = Inr c \<Longrightarrow> cloneRun c = Inr c \<and> ru_ID c = ru_ID r \<and> TrimSpace (ru_ID c) \<noteq> []"
  by (auto simp: prepareRun_def Let_def cloneRun_def split: if_splits)

lemma prepareToolCall_ok:
  "prepareToolCall r now = Inr c \<Longrightarrow> cloneToolCall c = Inr c \<and> tc_ID c = tc_ID r \<and> TrimSpace (tc_ID c) \<noteq> []"
  by (auto simp: prepareToolCall_def Let_def cloneToolCall_def split: if_splits)

section \<open>The invariant\<close>

definition runs_inv :: "MemoryStore \<Rightarrow> bool" where
  "runs_inv s \<longleftrightarrow>
     keyed ru_ID (st_runs s) \<and> (\<forall>r \<in> set (mvals (st_runs s)). cloneRun r = Inr r) \<and>
     keyed mc_ID (st_modelCalls s) \<and>
     indexed (\<lambda>c. (tc_StartedAt c, tc_ID c)) tc_ID tc_SessionID zero_ToolCall (st_toolCalls s) (st_toolCallIDsBySession s) \<and>
     (\<forall>c \<in> set (mvals (st_toolCalls s)). cloneToolCall c = Inr c) \<and>
     indexed (\<lambda>e. (- ep_CreatedAt e, ep_ID e)) ep_ID ep_SessionID zero_EpisodeSummary
       (st_episodeSummaries s) (st_episodeIDsBySession s)"

lemma runs_inv_tables:
  assumes "runs_inv s"
  shows "keyed ru_ID (st_runs s)" "keyed mc_ID (st_modelCalls s)" "keyed tc_ID (st_toolCalls s)" "keyed ep_ID (st_episodeSummaries s)"
  using assms by (simp_all add: runs_inv_def indexed_def)

text \<open>The tables of the repository, and what each write may change of them.\<close>

definition same_runs :: "MemoryStore \<Rightarrow> MemoryStore \<Rightarrow> bool" where
  "same_runs s t \<longleftrightarrow> st_runs t = st_runs s \<and> st_modelCalls t = st_modelCalls s \<and> st_toolCalls t = st_toolCalls s \<and>
     st_toolCallIDsBySession t = st_toolCallIDsBySession s \<and> st_episodeSummaries t = st_episodeSummaries s \<and>
     st_episodeIDsBySession t = st_episodeIDsBySession s"

lemma same_runs_inv: "same_runs s t \<Longrightarrow> runs_inv s \<Longrightarrow> runs_inv t"
  by (simp add: same_runs_def runs_inv_def)

lemma same_runs_append [simp]:
  "same_runs s (appendAuditLocked env a b c d e f s)" "same_runs s (appendEventLocked env a b c v s)"
  by (simp_all add: same_runs_def)

lemma append_inv [simp]:
  "runs_inv (appendAuditLocked env a b c d e f s) = runs_inv s" "runs_inv (appendEventLocked env a b c v s) = runs_inv s"
  by (simp_all add: runs_inv_def)

lemma put_run_inv:
  "runs_inv s \<Longrightarrow> cloneRun r = Inr r \<Longrightarrow> runs_inv (s\<lparr>st_runs := mput (ru_ID r) r (st_runs s)\<rparr>)"
  using keyed_put [of ru_ID "st_runs s" r] all_vals_put [of ru_ID "st_runs s" "\<lambda>r. cloneRun r = Inr r" r]
  by (simp add: runs_inv_def)

lemma put_model_call_inv: "runs_inv s \<Longrightarrow> runs_inv (s\<lparr>st_modelCalls := mput (mc_ID c) c (st_modelCalls s)\<rparr>)"
  using keyed_put [of mc_ID "st_modelCalls s" c] by (simp add: runs_inv_def)

lemma put_tool_call_inv:
  assumes "runs_inv s" and "cloneToolCall c = Inr c"
  shows "runs_inv (s\<lparr>st_toolCallIDsBySession := indexToolCallLocked (st_toolCalls s) (st_toolCallIDsBySession s) c,
    st_toolCalls := mput (tc_ID c) c (st_toolCalls s)\<rparr>)"
  using assms tool_index.place_indexed [of "st_toolCalls s" "st_toolCallIDsBySession s" c]
    all_vals_put [OF runs_inv_tables(3) [OF assms(1)], of "\<lambda>c. cloneToolCall c = Inr c" c] by (simp add: runs_inv_def)

lemma put_episode_inv:
  assumes "runs_inv s"
  shows "runs_inv (s\<lparr>st_episodeIDsBySession := indexEpisodeSummaryLocked (st_episodeSummaries s) (st_episodeIDsBySession s) e,
    st_episodeSummaries := mput (ep_ID e) e (st_episodeSummaries s)\<rparr>)"
  using assms episode_index.place_indexed [of "st_episodeSummaries s" "st_episodeIDsBySession s" e] by (simp add: runs_inv_def)

section \<open>Steps\<close>

text \<open>Each write either changes nothing or performs its one update.\<close>

definition stored_run :: "op_env \<Rightarrow> AgentRun \<Rightarrow> MemoryStore \<Rightarrow> MemoryStore" where
  "stored_run env run s = appendEventLocked env (''run.'' @ ru_State run) (ru_SessionID run) (ru_ID run) (PRun run)
     (s\<lparr>st_runs := mput (ru_ID run) run (st_runs s)\<rparr>)"

definition stored_tool_call :: "op_env \<Rightarrow> ToolCall \<Rightarrow> MemoryStore \<Rightarrow> MemoryStore" where
  "stored_tool_call env call s =
     appendEventLocked env (''tool_call.'' @ tc_Status call) (tc_SessionID call) (tc_RunID call) (PToolCall call)
       (appendAuditLocked env (''tool_call.'' @ tc_Status call) (tc_SessionID call) (tc_RunID call) ''agent'' (tc_Tool call)
         [(''risk'', AnyString (tc_Risk call)), (''id'', AnyString (tc_ID call))]
         (s\<lparr>st_toolCallIDsBySession := indexToolCallLocked (st_toolCalls s) (st_toolCallIDsBySession s) call,
            st_toolCalls := mput (tc_ID call) call (st_toolCalls s)\<rparr>))"

definition stored_model_call :: "op_env \<Rightarrow> ModelCall \<Rightarrow> MemoryStore \<Rightarrow> MemoryStore" where
  "stored_model_call env call s =
     appendEventLocked env (''model_call.'' @ mc_Status call) (mc_SessionID call) (mc_RunID call) (PModelCall call)
       (appendAuditLocked env (''model_call.'' @ mc_Status call) (mc_SessionID call) (mc_RunID call) ''model-router'' (mc_Model call)
         [(''lane'', AnyString (mc_Lane call)), (''profile'', AnyString (mc_Profile call)),
          (''operation'', AnyString (mc_Operation call)), (''latency_ms'', AnyNumber (of_int (mc_LatencyMS call)))]
         (s\<lparr>st_modelCalls := mput (mc_ID call) call (st_modelCalls s)\<rparr>))"

definition stored_episode :: "op_env \<Rightarrow> EpisodeSummary \<Rightarrow> MemoryStore \<Rightarrow> MemoryStore" where
  "stored_episode env summary s =
     appendEventLocked env ''episode_summary.saved'' (ep_SessionID summary) (ep_RunID summary) (PEpisodeSummary summary)
       (appendAuditLocked env ''episode_summary.saved'' (ep_SessionID summary) (ep_RunID summary) ''runtime'' (ep_Outcome summary)
         [(''tools'', AnyStrings (ep_Tools summary)), (''repair_performed'', AnyBool (ep_RepairPerformed summary))]
         (s\<lparr>st_episodeIDsBySession := indexEpisodeSummaryLocked (st_episodeSummaries s) (st_episodeIDsBySession s) summary,
            st_episodeSummaries := mput (ep_ID summary) summary (st_episodeSummaries s)\<rparr>))"

definition stored_feedback :: "op_env \<Rightarrow> RunFeedback \<Rightarrow> RunFeedback list \<Rightarrow> MemoryStore \<Rightarrow> MemoryStore" where
  "stored_feedback env f items s =
     appendEventLocked env ''run_feedback.saved'' (fb_SessionID f) (fb_RunID f) (PRunFeedback f)
       (appendAuditLocked env ''run_feedback.saved'' (fb_SessionID f) (fb_RunID f) ''owner'' (fb_Rating f)
         [(''feedback_id'', AnyString (fb_ID f)), (''message_id'', AnyString (fb_MessageID f)),
          (''has_note'', AnyBool (fb_Note f \<noteq> [])), (''has_correction'', AnyBool (fb_Correction f \<noteq> []))]
         (s\<lparr>st_runFeedback := mput (fb_RunID f) items (st_runFeedback s)\<rparr>))"

lemmas stored_defs = stored_run_def stored_model_call_def stored_tool_call_def stored_episode_def stored_feedback_def

lemma SaveRun_cases:
  assumes "SaveRun cx env run s = (r, s')"
  shows "(s' = s \<and> (\<exists>e. r = Inl e)) \<or> (\<exists>c. prepareRun run (en_now env) = Inr c \<and> r = cloneRun c \<and> s' = stored_run env c s)"
  by (cases "admitTransientContent (PRun run) s"; cases "entry_error ''run.save'' cx"; cases "prepareRun run (en_now env)";
      cases "locked_error ''run.save'' cx")
     (use assms [symmetric] in \<open>simp_all add: SaveRun_def checked_def stored_run_def\<close>)

lemma SaveModelCall_cases:
  assumes "SaveModelCall cx env call s = (r, s')"
  shows "(s' = s \<and> (\<exists>e. r = Inl e)) \<or>
    (r = Inr (prepareModelCall (en_rand env) call (en_now env)) \<and>
     s' = stored_model_call env (prepareModelCall (en_rand env) call (en_now env)) s)"
  by (cases "admitTransientContent (PModelCall call) s"; cases "entry_error ''model_call.save'' cx"; cases "locked_error ''model_call.save'' cx")
     (use assms [symmetric] in \<open>simp_all add: SaveModelCall_def checked_def stored_model_call_def Let_def\<close>)

lemma SaveToolCall_cases:
  assumes "SaveToolCall cx env call s = (r, s')"
  shows "(s' = s \<and> (\<exists>e. r = Inl e)) \<or>
    (\<exists>c. prepareToolCall call (en_now env) = Inr c \<and> r = cloneToolCall c \<and> s' = stored_tool_call env c s)"
  by (cases "admitTransientContent (PToolCall call) s"; cases "entry_error ''tool_call.save'' cx"; cases "prepareToolCall call (en_now env)";
      cases "locked_error ''tool_call.save'' cx")
     (use assms [symmetric] in \<open>simp_all add: SaveToolCall_def checked_def stored_tool_call_def\<close>)

lemma SaveEpisodeSummary_cases:
  assumes "SaveEpisodeSummary cx env summary s = (r, s')"
  shows "(s' = s \<and> (\<exists>e. r = Inl e)) \<or>
    (r = Inr (prepareEpisodeSummary (en_rand env) summary (en_now env)) \<and>
     s' = stored_episode env (prepareEpisodeSummary (en_rand env) summary (en_now env)) s)"
  by (cases "entry_error ''episode_summary.save'' cx"; cases "locked_error ''episode_summary.save'' cx")
     (use assms [symmetric] in \<open>simp_all add: SaveEpisodeSummary_def checked_def stored_episode_def Let_def\<close>)

definition upserted :: "RunFeedback list \<Rightarrow> nat option \<Rightarrow> RunFeedback \<Rightarrow> RunFeedback list" where
  "upserted items i f = (case i of Some i \<Rightarrow> items[i := f] | None \<Rightarrow> items @ [f])"

lemma SaveRunFeedback_cases:
  assumes "SaveRunFeedback cx env feedback s = (r, s')"
  defines "items \<equiv> feedback_at s (fb_RunID feedback)"
  defines "i \<equiv> first_index (feedback_matches feedback) items"
  shows "(s' = s \<and> (\<exists>e. r = Inl e)) \<or>
    (\<exists>f. prepareRunFeedback (en_rand env) feedback (map_option ((!) items) i) (en_now env) = Inr f \<and> r = Inr f \<and>
      s' = stored_feedback env f (upserted items i f) s)"
  by (cases "entry_error ''run_feedback.save'' cx"; cases "locked_error ''run_feedback.save'' cx";
      cases "prepareRunFeedback (en_rand env) feedback (map_option ((!) items) i) (en_now env)")
     (use assms(1) [symmetric] in \<open>simp_all add: SaveRunFeedback_def items_def i_def framed_def checked_def stored_feedback_def upserted_def Let_def\<close>)

text \<open>The write operations, with any context and any environment.\<close>

inductive run_step :: "MemoryStore \<Rightarrow> MemoryStore \<Rightarrow> bool" where
  step_run: "SaveRun cx env run s = (r, s') \<Longrightarrow> run_step s s'"
| step_model_call: "SaveModelCall cx env call s = (r, s') \<Longrightarrow> run_step s s'"
| step_tool_call: "SaveToolCall cx env call s = (r, s') \<Longrightarrow> run_step s s'"
| step_episode: "SaveEpisodeSummary cx env summary s = (r, s') \<Longrightarrow> run_step s s'"
| step_feedback: "SaveRunFeedback cx env feedback s = (r, s') \<Longrightarrow> run_step s s'"

inductive_cases run_stepE: "run_step s s'"

lemma stored_inv:
  assumes "runs_inv s"
  shows "cloneRun c = Inr c \<Longrightarrow> runs_inv (stored_run env c s)" "runs_inv (stored_model_call env m s)"
    "cloneToolCall t = Inr t \<Longrightarrow> runs_inv (stored_tool_call env t s)" "runs_inv (stored_episode env e s)"
    "runs_inv (stored_feedback env f items s)"
  using assms put_run_inv [OF assms] put_model_call_inv [OF assms] put_tool_call_inv [OF assms] put_episode_inv [OF assms]
  by (simp_all only: stored_defs append_inv) (simp add: runs_inv_def)

lemma run_step_inv: "run_step s s' \<Longrightarrow> runs_inv s \<Longrightarrow> runs_inv s'"
  by (erule run_stepE)
     (blast dest: SaveRun_cases SaveModelCall_cases SaveToolCall_cases SaveEpisodeSummary_cases SaveRunFeedback_cases
        prepareRun_ok prepareToolCall_ok intro: stored_inv)+

lemma runs_inv_empty: "empty_store s \<Longrightarrow> runs_inv s"
  by (simp add: runs_inv_def empty_store_tables)

interpretation runs: invariant_system empty_store run_step runs_inv
  by unfold_locales (fact runs_inv_empty, fact run_step_inv)

lemma stored_logs:
  "logs_extend s (stored_run env c s)" "logs_extend s (stored_model_call env m s)" "logs_extend s (stored_tool_call env t s)"
  "logs_extend s (stored_episode env e s)" "logs_extend s (stored_feedback env f items s)"
  by (simp_all add: stored_defs logs_extend_def appendAuditLocked_def appendAuditLockedAt_def appendEventLocked_def
      appendEventLockedAt_def)

lemma run_step_logs: "run_step s s' \<Longrightarrow> logs_extend s s'"
  by (erule run_stepE)
     (use stored_logs logs_extend_refl in \<open>blast dest: SaveRun_cases SaveModelCall_cases SaveToolCall_cases
        SaveEpisodeSummary_cases SaveRunFeedback_cases\<close>)+

text \<open>A failed write leaves the store alone.\<close>

lemma SaveRun_error_frame: "SaveRun cx env run s = (Inl e, s') \<Longrightarrow> s' = s"
  using SaveRun_cases prepareRun_ok by fastforce

lemma SaveToolCall_error_frame: "SaveToolCall cx env call s = (Inl e, s') \<Longrightarrow> s' = s"
  using SaveToolCall_cases prepareToolCall_ok by fastforce

interpretation save_run: failing_operation "SaveRun cx env run" True
  by unfold_locales (rule SaveRun_error_frame)

interpretation save_tool_call: failing_operation "SaveToolCall cx env call" True
  by unfold_locales (rule SaveToolCall_error_frame)

interpretation save_model_call: failing_operation "SaveModelCall cx env call" True
  by unfold_locales (auto dest: SaveModelCall_cases)

interpretation save_episode: failing_operation "SaveEpisodeSummary cx env summary" True
  by unfold_locales (auto dest: SaveEpisodeSummary_cases)

interpretation save_feedback: failing_operation "SaveRunFeedback cx env feedback" True
  by unfold_locales (auto dest: SaveRunFeedback_cases)

section \<open>Reading\<close>

lemma scan_recent_eq:
  assumes "\<forall>i \<in> set ids. cloneToolCall (rec_at zero_ToolCall calls i) = Inr (rec_at zero_ToolCall calls i)"
  shows "scan_recent keep calls n ids = Inr (take n (filter keep (map (rec_at zero_ToolCall calls) ids)))"
  using assms by (induction keep calls n ids rule: scan_recent.induct) (auto simp: Let_def split: sum.splits)

lemma scan_episodes_eq:
  "scan_episodes cutoff m n ids = take n (filter (\<lambda>e. ep_CreatedAt e \<le> cutoff) (map (rec_at zero_EpisodeSummary m) ids))"
  by (induction cutoff m n ids rule: scan_episodes.induct) (auto simp: Let_def not_less)

lemma clone_all_id: "\<forall>x \<in> set xs. f x = Inr x \<Longrightarrow> clone_all f xs = Inr xs"
  by (simp add: clone_all_Inr)

lemma ListToolCalls_eq:
  assumes "runs_inv s"
  shows "ListToolCalls open_ctx sid s =
    (Inr (SortFunc compareToolCallsAscending (filter (\<lambda>c. sid = [] \<or> tc_SessionID c = sid) (mvals (st_toolCalls s)))), s)"
proof -
  have "clone_all cloneToolCall (filter (\<lambda>c. sid = [] \<or> tc_SessionID c = sid) (mvals (st_toolCalls s))) =
      Inr (filter (\<lambda>c. sid = [] \<or> tc_SessionID c = sid) (mvals (st_toolCalls s)))"
    by (rule clone_all_id) (use assms in \<open>simp add: runs_inv_def\<close>)
  then show ?thesis
    by (simp add: ListToolCalls_def framed_def checked_def)
qed

lemma indexed_member:
  assumes "indexed key rid sess zero recs idx" and "i \<in> set (ids_at idx sid)"
  shows "rec_at zero recs i \<in> set (mvals recs)"
proof -
  obtain r where "mget recs i = Some r" using assms by (auto simp: indexed_def)
  moreover have "keyed rid recs" using assms(1) by (simp add: indexed_def)
  ultimately show ?thesis
    using keyed_get [of rid recs i r] keyed_vals [of rid recs r] by (simp add: rec_at_def)
qed

text \<open>The most recent call of each lane among those seen.\<close>

abbreviation recency :: "ModelCall \<Rightarrow> gotime \<times> string" where
  "recency c \<equiv> (mc_StartedAt c, mc_ID c)"

lemma modelCallIsLater_recency: "modelCallIsLater c d \<longleftrightarrow> recency d < recency c"
  by (auto simp: modelCallIsLater_def time_cmp_def Let_def)

definition lane_max :: "ModelCall set \<Rightarrow> string \<Rightarrow> ModelCall \<Rightarrow> bool" where
  "lane_max D lane c \<longleftrightarrow> c \<in> D \<and> mc_Lane c = lane \<and> (\<forall>d \<in> D. mc_Lane d = lane \<longrightarrow> recency d \<le> recency c)"

definition lanes_of :: "ModelCall set \<Rightarrow> (string, ModelCall) gomap \<Rightarrow> bool" where
  "lanes_of D m \<longleftrightarrow> (\<forall>lane. case mget m lane of None \<Rightarrow> \<forall>d \<in> D. mc_Lane d \<noteq> lane | Some c \<Rightarrow> lane_max D lane c)"

lemma lanes_of_add:
  assumes "lanes_of D m"
  shows "lanes_of (insert call D) (if (case mget m (mc_Lane call) of None \<Rightarrow> True | Some current \<Rightarrow> modelCallIsLater call current)
        then mput (mc_Lane call) call m else m)"
    (is "lanes_of _ ?m")
  unfolding lanes_of_def
proof
  fix lane
  have old: "case mget m lane of None \<Rightarrow> \<forall>d \<in> D. mc_Lane d \<noteq> lane | Some c \<Rightarrow> lane_max D lane c"
    using assms by (simp add: lanes_of_def)
  show "case mget ?m lane of None \<Rightarrow> \<forall>d \<in> insert call D. mc_Lane d \<noteq> lane | Some c \<Rightarrow> lane_max (insert call D) lane c"
  proof (cases "lane = mc_Lane call")
    case False
    then have "mget ?m lane = mget m lane" by simp
    with old False show ?thesis by (cases "mget m lane") (auto simp: lane_max_def)
  next
    case True
    show ?thesis
    proof (cases "mget m lane")
      case None
      with old True show ?thesis by (auto simp: lane_max_def)
    next
      case (Some c)
      then have c: "c \<in> D" "mc_Lane c = lane" "\<forall>d \<in> D. mc_Lane d = lane \<longrightarrow> recency d \<le> recency c"
        using old by (simp_all add: lane_max_def)
      show ?thesis
      proof (cases "recency c < recency call")
        case later: True
        then have "modelCallIsLater call c" by (simp only: modelCallIsLater_recency)
        then have "mget ?m lane = Some call" using True Some by simp
        moreover have "recency d \<le> recency call" if "d \<in> D" "mc_Lane d = lane" for d
          using c(3) that later by (metis order.trans less_imp_le)
        ultimately show ?thesis using True by (simp add: lane_max_def)
      next
        case earlier: False
        then have "\<not> modelCallIsLater call c" by (simp only: modelCallIsLater_recency) simp
        then have "mget ?m lane = Some c" using True Some by simp
        moreover have "recency call \<le> recency c" using earlier by (simp only: not_less)
        then have "lane_max (insert call D) lane c" unfolding lane_max_def using c by blast
        ultimately show ?thesis by (simp only: option.case)
      qed
    qed
  qed
qed

lemma latest_lanes: "lanes_of D m \<Longrightarrow> lanes_of (D \<union> set calls) (latest_by_lane m calls)"
proof (induction calls arbitrary: D m)
  case (Cons call calls)
  from Cons.IH [OF lanes_of_add [OF Cons.prems, of call]] show ?case
    by (simp only: latest_by_lane.simps list.set(2) Un_insert_left Un_insert_right)
qed simp

section \<open>Aggregation\<close>

lemma wrap64_add [simp]: "wrap64 (wrap64 a + b) = wrap64 (a + b)"
proof -
  have "(wrap64 a + b + 2 ^ 63) mod 2 ^ 64 = (a + b + 2 ^ 63) mod 2 ^ 64"
    by (simp add: wrap64_def mod_simps algebra_simps)
  then show ?thesis by (simp add: wrap64_def)
qed

lemma fold_stats:
  "fold add_stats cs \<lparr>ms_Count = wrap64 n, ms_FailedCount = wrap64 f, ms_LatencyMSTotal = wrap64 l, ms_TotalTokens = wrap64 t\<rparr> =
   \<lparr>ms_Count = wrap64 (n + int (length cs)), ms_FailedCount = wrap64 (f + int (length (filter modelCallFailed cs))),
     ms_LatencyMSTotal = wrap64 (l + sum_list (map mc_LatencyMS cs)),
     ms_TotalTokens = wrap64 (t + sum_list (map mc_TotalTokens cs))\<rparr>"
proof (induction cs arbitrary: n f l t)
  case (Cons c cs)
  have "add_stats c \<lparr>ms_Count = wrap64 n, ms_FailedCount = wrap64 f, ms_LatencyMSTotal = wrap64 l, ms_TotalTokens = wrap64 t\<rparr> =
      \<lparr>ms_Count = wrap64 (n + 1), ms_FailedCount = wrap64 (f + (if modelCallFailed c then 1 else 0)),
       ms_LatencyMSTotal = wrap64 (l + mc_LatencyMS c), ms_TotalTokens = wrap64 (t + mc_TotalTokens c)\<rparr>"
    by (simp add: add_stats_def)
  then show ?case
    by (simp add: Cons.IH add.assoc)
qed simp

lemma sum_list_SortFunc: "sum_list (map f (SortFunc cmp xs)) = sum_list (map f (xs :: 'a list) :: int list)"
  by (metis mset_SortFunc mset_map sum_mset_sum_list)

lemma count_SortFunc: "length (filter P (SortFunc cmp xs)) = length (filter P xs)"
  by (metis mset_SortFunc mset_filter size_mset)

lemma first_index_Some:
  "first_index P xs = Some i \<Longrightarrow> \<exists>ys zs. xs = ys @ xs ! i # zs \<and> length ys = i \<and> P (xs ! i) \<and> (\<forall>y \<in> set ys. \<not> P y)"
proof (induction xs arbitrary: i)
  case (Cons x xs)
  show ?case
  proof (cases "P x")
    case False
    with Cons.prems obtain j where j: "first_index P xs = Some j" "i = Suc j" by auto
    from Cons.IH [OF j(1)] obtain ys zs where "xs = ys @ xs ! j # zs" "length ys = j" "P (xs ! j)" "\<forall>y \<in> set ys. \<not> P y" by blast
    with j(2) False show ?thesis by (intro exI [of _ "x # ys"] exI [of _ zs]) simp
  qed (use Cons.prems in auto)
qed simp

lemma first_index_None: "first_index P xs = None \<longleftrightarrow> (\<forall>x \<in> set xs. \<not> P x)"
  by (induction xs) auto

section \<open>Properties\<close>

definition sample_call :: ToolCall where
  "sample_call = zero_ToolCall\<lparr>tc_ID := ''t1'', tc_SessionID := ''s1'', tc_RunID := ''r1'', tc_StartedAt := 1000, tc_CompletedAt := Some 2000\<rparr>"

definition call_store :: MemoryStore where
  "call_store = snd (SaveToolCall open_ctx sample_env sample_call NewMemoryStore)"

lemma sample_call_prepared:
  "prepareToolCall sample_call (en_now sample_env) = Inr sample_call" "cloneToolCall sample_call = Inr sample_call"
proof -
  have trim: "TrimSpace ''t1'' = ''t1''" by code_simp
  have ok: "json_time_ok 2000" by code_simp
  show clone: "cloneToolCall sample_call = Inr sample_call"
    using ok by (simp add: cloneToolCall_def sample_call_def zero_ToolCall_def time_pointer_ok_def)
  have times: "normalizeRunTime 1000 = 1000" "normalizeRunTime 2000 = 2000"
    by (simp_all add: normalizeRunTime_def Truncate_def)
  have "sample_call\<lparr>tc_StartedAt := normalizeRunTime (tc_StartedAt sample_call),
      tc_CompletedAt := normalizeRunTimePointer (tc_CompletedAt sample_call)\<rparr> = sample_call"
    by (simp add: sample_call_def times normalizeRunTimePointer_def)
  moreover have "tc_ID sample_call = ''t1''" "tc_StartedAt sample_call \<noteq> 0" by (simp_all add: sample_call_def)
  ultimately show "prepareToolCall sample_call (en_now sample_env) = Inr sample_call"
    by (simp add: prepareToolCall_def trim clone)
qed

lemma sample_call_saved:
  "SaveToolCall open_ctx sample_env sample_call NewMemoryStore = (Inr sample_call, call_store)"
  "mget (st_toolCalls call_store) ''t1'' = Some sample_call"
proof -
  show "SaveToolCall open_ctx sample_env sample_call NewMemoryStore = (Inr sample_call, call_store)"
    by (simp add: call_store_def SaveToolCall_def checked_def sample_call_prepared)
  have "tc_ID sample_call = ''t1''" by (simp add: sample_call_def)
  then show "mget (st_toolCalls call_store) ''t1'' = Some sample_call"
    by (simp add: call_store_def SaveToolCall_def checked_def sample_call_prepared)
qed

lemma call_store_reach: "reach empty_store run_step call_store"
proof (rule reach_step)
  show "reach empty_store run_step NewMemoryStore" by (rule reach_init) (rule empty_store_New)
  show "run_step NewMemoryStore call_store" by (rule step_tool_call) (rule sample_call_saved(1))
qed

text \<open>The indexed query of recent tool calls is exact. In every reachable store \<open>ListRecentToolCalls\<close>, which walks
  the per-session index kept by binary search, returns what sorting the whole session and keeping the newest
  \<open>scanLimit\<close> finished calls of other runs up to the cutoff would return; re-saving a call, also in another session or
  at another time, never leaves a stale or doubled entry.\<close>

theorem recent_tool_calls_exact:
  assumes "reach empty_store run_step s" and "validateRecentHistoryQuery sid cutoff limit = None"
  shows "\<exists>calls. ListToolCalls open_ctx sid s = (Inr calls, s) \<and>
    ListRecentToolCalls open_ctx sid cutoff excluded limit s =
      (Inr (take (nat limit) (filter (recent_tool_call cutoff excluded) (rev calls))), s)"
proof -
  have inv: "runs_inv s" using runs.reach_inv [OF assms(1)] .
  have idx: "indexed (\<lambda>c. (tc_StartedAt c, tc_ID c)) tc_ID tc_SessionID zero_ToolCall (st_toolCalls s) (st_toolCallIDsBySession s)"
    and normal: "\<forall>c \<in> set (mvals (st_toolCalls s)). cloneToolCall c = Inr c"
    using inv by (simp_all add: runs_inv_def)
  have sid: "sid \<noteq> []" using assms(2) by (auto simp: validateRecentHistoryQuery_def split: if_splits)
  let ?ids = "ids_at (st_toolCallIDsBySession s) sid" and ?look = "rec_at zero_ToolCall (st_toolCalls s)"
  have "\<forall>i \<in> set (rev ?ids). cloneToolCall (?look i) = Inr (?look i)"
    using indexed_member [OF idx] normal by simp
  then have "scan_recent (recent_tool_call cutoff excluded) (st_toolCalls s) (nat limit) (rev ?ids) =
      Inr (take (nat limit) (filter (recent_tool_call cutoff excluded) (rev (map ?look ?ids))))"
    by (simp only: scan_recent_eq rev_map)
  moreover have "map ?look ?ids = SortFunc compareToolCallsAscending (filter (\<lambda>c. sid = [] \<or> tc_SessionID c = sid) (mvals (st_toolCalls s)))"
    using tool_index.indexed_listing [OF idx, of sid] sid by simp
  ultimately show ?thesis
    using ListToolCalls_eq [OF inv, of sid] assms(2) by (simp add: ListRecentToolCalls_def checked_def)
qed

lemma recent_tool_calls_exact_witness:
  "\<exists>calls. ListToolCalls open_ctx ''s1'' call_store = (Inr calls, call_store) \<and>
    ListRecentToolCalls open_ctx ''s1'' 9000 ''r2'' 10 call_store =
      (Inr (take 10 (filter (recent_tool_call 9000 ''r2'') (rev calls))), call_store)"
proof -
  have "TrimSpace ''s1'' \<noteq> []" by code_simp
  then have "validateRecentHistoryQuery ''s1'' 9000 10 = None" by (simp add: validateRecentHistoryQuery_def)
  from recent_tool_calls_exact [OF call_store_reach this, of "''r2''"] show ?thesis by simp
qed

text \<open>The indexed query of recent episodes is exact. In every reachable store \<open>ListRecentEpisodeSummaries\<close> returns the first
  \<open>scanLimit\<close> episodes up to the cutoff of the sorted list of the session.\<close>

theorem recent_episodes_exact:
  assumes "reach empty_store run_step s" and "validateRecentHistoryQuery sid cutoff limit = None"
  shows "\<exists>episodes. ListEpisodeSummaries open_ctx sid s = (Inr episodes, s) \<and>
    ListRecentEpisodeSummaries open_ctx sid cutoff limit s =
      (Inr (take (nat limit) (filter (\<lambda>e. ep_CreatedAt e \<le> cutoff) episodes)), s)"
proof -
  have idx: "indexed (\<lambda>e. (- ep_CreatedAt e, ep_ID e)) ep_ID ep_SessionID zero_EpisodeSummary (st_episodeSummaries s) (st_episodeIDsBySession s)"
    using runs.reach_inv [OF assms(1)] by (simp add: runs_inv_def)
  have sid: "sid \<noteq> []" using assms(2) by (auto simp: validateRecentHistoryQuery_def split: if_splits)
  show ?thesis
    using episode_index.indexed_listing [OF idx, of sid] sid assms(2)
    by (simp add: ListEpisodeSummaries_def ListRecentEpisodeSummaries_def framed_def checked_def scan_episodes_eq)
qed

lemma recent_episodes_exact_witness:
  "\<exists>episodes. ListEpisodeSummaries open_ctx ''s1'' call_store = (Inr episodes, call_store) \<and>
    ListRecentEpisodeSummaries open_ctx ''s1'' 9000 10 call_store =
      (Inr (take 10 (filter (\<lambda>e. ep_CreatedAt e \<le> 9000) episodes)), call_store)"
proof -
  have "TrimSpace ''s1'' \<noteq> []" by code_simp
  then have "validateRecentHistoryQuery ''s1'' 9000 10 = None" by (simp add: validateRecentHistoryQuery_def)
  from recent_episodes_exact [OF call_store_reach this] show ?thesis by simp
qed

text \<open>The latest call of a lane is the maximum. \<open>LatestModelCallsByLane\<close> returns for a lane exactly the stored call of
  that lane that no other one is later than, so the result depends on the content of the map and not on the
  order in which Go iterates over it.\<close>

theorem latest_calls_exact:
  assumes "reach empty_store run_step s"
  shows "\<exists>m. LatestModelCallsByLane open_ctx s = (Inr m, s) \<and>
    (\<forall>lane c. mget m lane = Some c \<longleftrightarrow> mget (st_modelCalls s) (mc_ID c) = Some c \<and> mc_Lane c = lane \<and>
      (\<forall>i d. mget (st_modelCalls s) i = Some d \<and> mc_Lane d = lane \<longrightarrow> \<not> modelCallIsLater d c))"
proof -
  let ?cs = "mvals (st_modelCalls s)" and ?m = "latest_by_lane [] (mvals (st_modelCalls s))"
  have k: "keyed mc_ID (st_modelCalls s)" using runs_inv_tables(2) [OF runs.reach_inv [OF assms]] .
  have mem: "(\<exists>i. mget (st_modelCalls s) i = Some d) \<longleftrightarrow> d \<in> set ?cs" for d
    using keyed_vals [OF k, of d] keyed_get [OF k] by metis
  have lanes: "lanes_of (set ?cs) ?m"
    using latest_lanes [of "{}" "[]" ?cs] by (simp add: lanes_of_def)
  have lane: "case mget ?m lane of None \<Rightarrow> \<forall>d \<in> set ?cs. mc_Lane d \<noteq> lane | Some c \<Rightarrow> lane_max (set ?cs) lane c" for lane
    using lanes by (simp only: lanes_of_def)
  have max: "mget ?m lane = Some c \<longleftrightarrow> lane_max (set ?cs) lane c" for lane c
  proof (cases "mget ?m lane")
    case None
    then show ?thesis using lane [of lane] by (auto simp: lane_max_def)
  next
    case (Some d)
    then have d: "lane_max (set ?cs) lane d" using lane [of lane] by (simp only: option.case)
    have "c = d" if "lane_max (set ?cs) lane c"
    proof (rule inj_onD [OF model_call_table.key_inj [OF k]])
      have "recency c \<le> recency d" "recency d \<le> recency c" using that d unfolding lane_max_def by blast+
      then show "recency c = recency d" by (rule order.antisym)
      show "c \<in> set ?cs" "d \<in> set ?cs" using that d unfolding lane_max_def by blast+
    qed
    with Some d show ?thesis by auto
  qed
  have exact: "mget ?m lane = Some c \<longleftrightarrow> mget (st_modelCalls s) (mc_ID c) = Some c \<and> mc_Lane c = lane \<and>
      (\<forall>i d. mget (st_modelCalls s) i = Some d \<and> mc_Lane d = lane \<longrightarrow> \<not> modelCallIsLater d c)" for lane c
  proof -
    have "(\<forall>d \<in> set ?cs. mc_Lane d = lane \<longrightarrow> recency d \<le> recency c) \<longleftrightarrow>
        (\<forall>i d. mget (st_modelCalls s) i = Some d \<and> mc_Lane d = lane \<longrightarrow> recency d \<le> recency c)"
      using mem by blast
    then show ?thesis
      by (simp only: max lane_max_def modelCallIsLater_recency not_less keyed_vals [OF k, of c])
  qed
  show ?thesis
    by (intro exI [of _ ?m] conjI allI exact) (simp add: LatestModelCallsByLane_def framed_def checked_def)
qed

lemma latest_calls_exact_witness:
  "\<exists>m. LatestModelCallsByLane open_ctx call_store = (Inr m, call_store)"
  using latest_calls_exact [OF call_store_reach] by blast

text \<open>The statistics are the sums over the listed calls. \<open>ModelCallStats\<close> counts and adds exactly the calls that
  \<open>ListModelCalls\<close> lists, in 64-bit arithmetic, whatever the iteration order.\<close>

theorem stats_sum_listing:
  "\<exists>calls. ListModelCalls open_ctx [] [] s = (Inr calls, s) \<and>
    ModelCallStats open_ctx s = (Inr \<lparr>ms_Count = wrap64 (int (length calls)),
      ms_FailedCount = wrap64 (int (length (filter modelCallFailed calls))),
      ms_LatencyMSTotal = wrap64 (sum_list (map mc_LatencyMS calls)),
      ms_TotalTokens = wrap64 (sum_list (map mc_TotalTokens calls))\<rparr>, s)"
proof -
  have "wrap64 0 = 0" by (simp add: wrap64_def)
  then show ?thesis
    using fold_stats [of "mvals (st_modelCalls s)" 0 0 0 0]
    by (simp add: ListModelCalls_def ModelCallStats_def framed_def checked_def sum_list_SortFunc count_SortFunc)
qed

text \<open>Feedback is upserted in place. A feedback that carries the identity or the message of a stored one of its run
  replaces the first such item at its position and keeps its identity and creation time; any other feedback is
  appended; no other item, and no other run, changes.\<close>

theorem feedback_upsert:
  assumes "TrimSpace (fb_RunID feedback) \<noteq> []"
  defines "run \<equiv> fb_RunID feedback"
  shows "\<exists>f s'. SaveRunFeedback open_ctx env feedback s = (Inr f, s') \<and>
    (\<forall>other. other \<noteq> run \<longrightarrow> feedback_at s' other = feedback_at s other) \<and>
    (if \<exists>c \<in> set (feedback_at s run). feedback_matches feedback c
     then \<exists>before old after. feedback_at s run = before @ old # after \<and> feedback_matches feedback old \<and>
        (\<forall>c \<in> set before. \<not> feedback_matches feedback c) \<and> feedback_at s' run = before @ f # after \<and>
        fb_ID f = fb_ID old \<and> fb_CreatedAt f = normalizeRunTime (fb_CreatedAt old)
     else feedback_at s' run = feedback_at s run @ [f] \<and> (fb_ID feedback \<noteq> [] \<longrightarrow> fb_ID f = fb_ID feedback))"
proof -
  let ?items = "feedback_at s run"
  let ?i = "first_index (feedback_matches feedback) ?items"
  obtain f where f: "prepareRunFeedback (en_rand env) feedback (map_option ((!) ?items) ?i) (en_now env) = Inr f"
    using assms(1) by (simp add: prepareRunFeedback_def Let_def)
  have run: "fb_RunID f = run"
    using f assms by (auto simp: prepareRunFeedback_def Let_def split: option.splits if_splits)
  have save: "SaveRunFeedback open_ctx env feedback s = (Inr f, stored_feedback env f (upserted ?items ?i f) s)"
    using f by (simp add: SaveRunFeedback_def framed_def checked_def stored_feedback_def upserted_def Let_def run_def)
  have here: "feedback_at (stored_feedback env f items s) other = (if other = run then items else feedback_at s other)" for items other
    by (simp add: feedback_at_def stored_feedback_def run mget_mput)
  show ?thesis
  proof (cases ?i)
    case None
    then have none: "\<not> (\<exists>c \<in> set ?items. feedback_matches feedback c)" by (simp add: first_index_None)
    have "fb_ID feedback \<noteq> [] \<longrightarrow> fb_ID f = fb_ID feedback"
      using f None by (auto simp: prepareRunFeedback_def Let_def split: if_splits)
    with none save None show ?thesis
      by (intro exI [of _ f] exI [of _ "stored_feedback env f (upserted ?items ?i f) s"]) (simp add: here upserted_def)
  next
    case (Some i)
    from first_index_Some [OF Some] obtain before after where split: "?items = before @ ?items ! i # after" "length before = i"
      and m: "feedback_matches feedback (?items ! i)" "\<forall>c \<in> set before. \<not> feedback_matches feedback c" by blast
    define old where "old = ?items ! i"
    have some: "\<exists>c \<in> set ?items. feedback_matches feedback c"
      using m(1) split(1) by (metis in_set_conv_decomp)
    have "?items[i := f] = before @ f # after"
      using split by (metis list_update_length)
    moreover have "fb_ID f = fb_ID old" "fb_CreatedAt f = normalizeRunTime (fb_CreatedAt old)"
      using f Some by (auto simp: prepareRunFeedback_def Let_def old_def split: if_splits)
    ultimately have "\<exists>before old after. ?items = before @ old # after \<and> feedback_matches feedback old \<and>
        (\<forall>c \<in> set before. \<not> feedback_matches feedback c) \<and> upserted ?items ?i f = before @ f # after \<and>
        fb_ID f = fb_ID old \<and> fb_CreatedAt f = normalizeRunTime (fb_CreatedAt old)"
      using split(1) m Some unfolding old_def upserted_def by (intro exI [of _ before] exI [of _ "?items ! i"] exI [of _ after]) simp
    with some save show ?thesis
      by (intro exI [of _ f] exI [of _ "stored_feedback env f (upserted ?items ?i f) s"]) (simp add: here)
  qed
qed

definition sample_feedback :: RunFeedback where
  "sample_feedback = \<lparr>fb_ID = ''fb1'', fb_SessionID = ''s1'', fb_RunID = ''r1'', fb_MessageID = ''m1'', fb_Rating = ''up'',
     fb_Note = [], fb_Correction = [], fb_CreatedAt = 0, fb_UpdatedAt = 0\<rparr>"

lemma feedback_upsert_witness:
  "\<exists>f s'. SaveRunFeedback open_ctx sample_env sample_feedback call_store = (Inr f, s')"
proof -
  have "TrimSpace (fb_RunID sample_feedback) \<noteq> []" by code_simp
  from feedback_upsert [OF this, of sample_env call_store] show ?thesis by blast
qed

text \<open>Reconciliation recognises committed runs and tool calls. After a save that returned a record, a write of it
  reported with unknown outcome reconciles to that record.\<close>

theorem run_writes_reconciled:
  assumes "SaveRun cx env run s = (Inr c, s')" and "SaveToolCall cx env call s' = (Inr t, s'')"
  shows "ReconcileRunWrite open_ctx s' c (Some (StoreErr StoreErrorUnknownOutcome op cause)) = Inr c \<and>
    ReconcileToolCallWrite open_ctx s'' t (Some (StoreErr StoreErrorUnknownOutcome op cause)) = Inr t"
proof
  obtain c' where c': "prepareRun run (en_now env) = Inr c'" "Inr c = cloneRun c'" "s' = stored_run env c' s"
    using SaveRun_cases [OF assms(1)] by auto
  then have c: "cloneRun c = Inr c" "TrimSpace (ru_ID c) \<noteq> []" "c' = c" using prepareRun_ok by fastforce+
  have look: "fst (GetRun open_ctx (ru_ID c) s') = Inr (Some c)"
    using c c'(3) by (simp add: GetRun_def framed_def checked_def stored_run_def)
  show "ReconcileRunWrite open_ctx s' c (Some (StoreErr StoreErrorUnknownOutcome op cause)) = Inr c"
    by (rule run_writes.unknown_success_complete [OF look _ c(2)]) (simp_all add: runRecordsEqual_def c(1))
  obtain t' where t': "prepareToolCall call (en_now env) = Inr t'" "Inr t = cloneToolCall t'" "s'' = stored_tool_call env t' s'"
    using SaveToolCall_cases [OF assms(2)] by auto
  then have t: "cloneToolCall t = Inr t" "TrimSpace (tc_ID t) \<noteq> []" "t' = t" using prepareToolCall_ok by fastforce+
  have look: "fst (GetToolCall open_ctx (tc_ID t) s'') = Inr (Some t)"
    using t t'(3) by (simp add: GetToolCall_def framed_def checked_def stored_tool_call_def)
  show "ReconcileToolCallWrite open_ctx s'' t (Some (StoreErr StoreErrorUnknownOutcome op cause)) = Inr t"
    by (rule tool_call_writes.unknown_success_complete [OF look _ t(2)]) (simp_all add: runRecordsEqual_def t(1))
qed

definition sample_run :: AgentRun where
  "sample_run = \<lparr>ru_ID = ''r1'', ru_SessionID = ''s1'', ru_State = ''done'', ru_ModelLane = ''fast'', ru_Risk = RiskRead,
     ru_StartedAt = 1000, ru_CompletedAt = None, ru_Summary = [], ru_MessageContext = AnyNil, ru_Workflow = AnyNil\<rparr>"

lemma run_writes_reconciled_witness:
  "\<exists>c s'. SaveRun open_ctx sample_env sample_run NewMemoryStore = (Inr c, s') \<and>
    ReconcileRunWrite open_ctx s' c (Some (StoreErr StoreErrorUnknownOutcome ''run.save'' (Err ''lost''))) = Inr c"
proof -
  have trim: "TrimSpace ''r1'' = ''r1''" "TrimSpace ''t1'' = ''t1''" by code_simp+
  have run: "SaveRun open_ctx sample_env sample_run NewMemoryStore = (Inr sample_run, stored_run sample_env sample_run NewMemoryStore)"
    by (simp add: SaveRun_def checked_def prepareRun_def sample_run_def trim cloneRun_def time_pointer_ok_def
        normalizeRunTime_def normalizeRunTimePointer_def Truncate_def Let_def stored_run_def)
  let ?s = "stored_run sample_env sample_run NewMemoryStore"
  have admit: "admitTransientContent v ?s = None" for v
    by (simp add: stored_run_def admitTransientContent_def appendEventLocked_def appendEventLockedAt_def NewMemoryStore_def)
  have "SaveToolCall open_ctx sample_env sample_call ?s = (Inr sample_call, stored_tool_call sample_env sample_call ?s)"
    by (simp add: SaveToolCall_def checked_def stored_tool_call_def sample_call_prepared admit)
  from run_writes_reconciled [OF run this] run show ?thesis by blast
qed

end
