(* ===== verification/Schedule_Operations.thy ===== *)
theory Schedule_Operations
  imports Audit_Log
begin

text \<open>
  The schedule repository: the contract of \<open>internal/store/schedule_contract.go\<close>, every operation of
  \<open>schedule_memory.go\<close> over reminders and their deliveries, and the workbench advance of
  \<open>workbench_schedule.go\<close>. Clones share no memory, so as values they are the identity. The theory
  \<open>Schedules\<close> shows what the operations keep and guarantee.
\<close>

section \<open>The contract\<close>

abbreviation (input) defaultReminderQueryLimit :: int where "defaultReminderQueryLimit \<equiv> 50"

definition summarizeReminderText :: "string \<Rightarrow> string" where
  "summarizeReminderText content =
     (let content = TrimSpace content
      in if content = [] then ''Reminder''
         else let rs = runes content
           in if length rs > 80 then concat (take 80 rs) @ ''...'' else content)"

definition normalizeScheduleTimePointer :: "gotime option \<Rightarrow> gotime option" where
  "normalizeScheduleTimePointer t = (case t of None \<Rightarrow> None | Some t \<Rightarrow> Some (postgresTime t))"

definition normalizeReminder :: "Reminder \<Rightarrow> Reminder" where
  "normalizeReminder r = r\<lparr>rm_DueTime := postgresTime (rm_DueTime r), rm_CreatedAt := postgresTime (rm_CreatedAt r),
     rm_UpdatedAt := postgresTime (rm_UpdatedAt r), rm_SentAt := normalizeScheduleTimePointer (rm_SentAt r),
     rm_CanceledAt := normalizeScheduleTimePointer (rm_CanceledAt r)\<rparr>"

definition prepareReminder :: "8 word list option \<Rightarrow> Reminder \<Rightarrow> gotime \<Rightarrow> Reminder" where
  "prepareReminder random r now =
     (let r = (if TrimSpace (rm_ID r) = [] then r\<lparr>rm_ID := NewID random ''rem''\<rparr> else r);
          r = (if IsZero (rm_CreatedAt r) then r\<lparr>rm_CreatedAt := now\<rparr> else r);
          r = (if IsZero (rm_UpdatedAt r) then r\<lparr>rm_UpdatedAt := now\<rparr> else r);
          r = (if rm_Status r = [] then r\<lparr>rm_Status := ''pending''\<rparr> else r);
          r = (if rm_TextSummary r = [] then r\<lparr>rm_TextSummary := summarizeReminderText (rm_Text r)\<rparr> else r)
      in normalizeReminder r)"

definition prepareReminderUpdate :: "Reminder \<Rightarrow> Reminder \<Rightarrow> gotime \<Rightarrow> Reminder" where
  "prepareReminderUpdate r current now =
     (let r = (if IsZero (rm_CreatedAt r) then r\<lparr>rm_CreatedAt := rm_CreatedAt current\<rparr> else r);
          r = (if IsZero (rm_UpdatedAt r) then r\<lparr>rm_UpdatedAt := now\<rparr> else r);
          r = r\<lparr>rm_UpdatedAt := nextRepositoryTime (rm_UpdatedAt r) [rm_UpdatedAt current]\<rparr>;
          r = (if rm_TextSummary r = [] then r\<lparr>rm_TextSummary := summarizeReminderText (rm_Text r)\<rparr> else r)
      in normalizeReminder r)"

definition reminder_cmp :: "Reminder \<Rightarrow> Reminder \<Rightarrow> int" where
  "reminder_cmp a b = (let order = time_cmp (rm_DueTime a) (rm_DueTime b)
     in if order \<noteq> 0 then order else str_cmp (rm_ID a) (rm_ID b))"

definition sortReminders :: "Reminder list \<Rightarrow> Reminder list" where
  "sortReminders = SortFunc reminder_cmp"

definition normalizeReminderDelivery :: "ReminderDelivery \<Rightarrow> ReminderDelivery" where
  "normalizeReminderDelivery d = d\<lparr>rd_SentAt := postgresTime (rd_SentAt d), rd_CreatedAt := postgresTime (rd_CreatedAt d)\<rparr>"

definition prepareReminderDelivery :: "8 word list option \<Rightarrow> ReminderDelivery \<Rightarrow> gotime \<Rightarrow> ReminderDelivery" where
  "prepareReminderDelivery random d now =
     (let d = (if TrimSpace (rd_ID d) = [] then d\<lparr>rd_ID := NewID random ''rdel''\<rparr> else d);
          d = (if IsZero (rd_CreatedAt d) then d\<lparr>rd_CreatedAt := now\<rparr> else d);
          d = (if rd_Status d = ''sent'' \<and> IsZero (rd_SentAt d) then d\<lparr>rd_SentAt := now\<rparr> else d)
      in normalizeReminderDelivery d)"

definition reminder_delivery_cmp :: "ReminderDelivery \<Rightarrow> ReminderDelivery \<Rightarrow> int" where
  "reminder_delivery_cmp a b = (let order = time_cmp (rd_CreatedAt a) (rd_CreatedAt b)
     in if order \<noteq> 0 then order else str_cmp (rd_ID a) (rd_ID b))"

definition sortReminderDeliveries :: "ReminderDelivery list \<Rightarrow> ReminderDelivery list" where
  "sortReminderDeliveries = SortFunc reminder_delivery_cmp"

definition normalizeReminderQueryLimit :: "int \<Rightarrow> int" where
  "normalizeReminderQueryLimit limit = (if limit \<le> 0 then defaultReminderQueryLimit else limit)"

definition isWorkbenchReminder :: "Reminder \<Rightarrow> bool" where
  "isWorkbenchReminder r = (case rm_ScheduleSpec r of None \<Rightarrow> False | Some spec \<Rightarrow> ss_WorkbenchOwned spec)"

section \<open>Reminders\<close>

text \<open>The write that saving and updating share: the table, an audit entry, an event.\<close>

definition record_reminder :: "op_env \<Rightarrow> Reminder \<Rightarrow> MemoryStore \<Rightarrow> MemoryStore" where
  "record_reminder env r s =
     appendEventLocked env (''reminder.'' @ rm_Status r) (rm_SessionID r) (rm_RunID r) (PReminder r)
       (appendAuditLocked env (''reminder.'' @ rm_Status r) (rm_SessionID r) (rm_RunID r) ''toolhub'' (rm_TextSummary r)
         [(''reminder_id'', AnyString (rm_ID r)), (''due_time'', AnyString (RFC3339 (rm_DueTime r))),
          (''channel'', AnyString (rm_Channel r))]
         (s\<lparr>st_reminders := mput (rm_ID r) r (st_reminders s)\<rparr>))"

definition SaveReminder :: "op_ctx \<Rightarrow> op_env \<Rightarrow> Reminder \<Rightarrow> MemoryStore \<Rightarrow> Reminder outcome" where
  "SaveReminder cx env r = framed ''reminder.save'' cx (\<lambda>s.
     let r = prepareReminder (en_rand env) r (en_now env) in (Inr r, record_reminder env r s))"

definition UpdatePendingReminder :: "op_ctx \<Rightarrow> op_env \<Rightarrow> Reminder \<Rightarrow> gotime \<Rightarrow> MemoryStore \<Rightarrow> Reminder outcome" where
  "UpdatePendingReminder cx env r expectedUpdatedAt = framed ''reminder.update_pending'' cx (\<lambda>s.
     let conflict = (Inl (storeError ''reminder.update_pending'' StoreErrorConflict ErrReminderConflict), s)
     in case mget (st_reminders s) (rm_ID r) of
          None \<Rightarrow> conflict
        | Some current \<Rightarrow>
            if rm_Status current \<noteq> ''pending'' \<or> rm_UpdatedAt current \<noteq> postgresTime expectedUpdatedAt then conflict
            else let r = prepareReminderUpdate r current (en_now env) in (Inr r, record_reminder env r s))"

definition GetReminder :: "op_ctx \<Rightarrow> string \<Rightarrow> MemoryStore \<Rightarrow> Reminder option outcome" where
  "GetReminder cx i = framed ''reminder.get'' cx (\<lambda>s. (Inr (mget (st_reminders s) i), s))"

definition reminder_selected :: "ReminderFilter \<Rightarrow> Reminder \<Rightarrow> bool" where
  "reminder_selected flt r \<longleftrightarrow>
     \<not> (rf_WorkbenchOnly flt \<and> \<not> isWorkbenchReminder r) \<and>
     \<not> (rf_Status flt \<noteq> [] \<and> rm_Status r \<noteq> rf_Status flt) \<and>
     \<not> (case rf_From flt of None \<Rightarrow> False | Some from \<Rightarrow> rm_DueTime r < from) \<and>
     \<not> (case rf_To flt of None \<Rightarrow> False | Some to \<Rightarrow> to < rm_DueTime r)"

definition ListReminders :: "op_ctx \<Rightarrow> ReminderFilter \<Rightarrow> MemoryStore \<Rightarrow> Reminder list outcome" where
  "ListReminders cx flt = framed ''reminder.list'' cx (\<lambda>s.
     (Inr (clip (normalizeReminderQueryLimit (rf_Limit flt))
       (sortReminders (filter (reminder_selected flt) (mvals (st_reminders s))))), s))"

definition claimable :: "gotime \<Rightarrow> gotime \<Rightarrow> Reminder \<Rightarrow> bool" where
  "claimable now staleBefore r \<longleftrightarrow> \<not> isWorkbenchReminder r \<and>
     (if rm_Status r = ''pending'' then \<not> now < rm_DueTime r
      else if rm_Status r = ''sending'' then \<not> staleBefore < rm_UpdatedAt r else False)"

definition claim_of :: "gotime \<Rightarrow> Reminder \<Rightarrow> Reminder" where
  "claim_of now r = r\<lparr>rm_Status := ''sending'', rm_UpdatedAt := now\<rparr>"

definition ClaimDueReminders :: "op_ctx \<Rightarrow> gotime \<Rightarrow> gotime \<Rightarrow> int \<Rightarrow> MemoryStore \<Rightarrow> Reminder list outcome" where
  "ClaimDueReminders cx now staleBefore limit = framed ''reminder.claim_due'' cx (\<lambda>s.
     let now = postgresTime now; staleBefore = postgresTime staleBefore;
         claimed = sortReminders (filter (claimable now staleBefore) (mvals (st_reminders s)));
         claimed = map (claim_of now) (clip (normalizeReminderQueryLimit limit) claimed)
     in (Inr claimed, s\<lparr>st_reminders := fold (\<lambda>r. mput (rm_ID r) r) claimed (st_reminders s)\<rparr>))"

section \<open>Deliveries\<close>

text \<open>What a delivery record does to its reminder; \<open>now\<close> is the repository time of the write.\<close>

definition delivered_reminder :: "gotime \<Rightarrow> ReminderDelivery \<Rightarrow> Reminder \<Rightarrow> Reminder" where
  "delivered_reminder now d r =
     (let r = r\<lparr>rm_LastDeliveryID := rd_ID d, rm_LastError := rd_Error d, rm_DeliveryAttempt := rd_Attempt d\<rparr>;
          movable = \<not> isWorkbenchReminder r \<or> rm_Status r = ''submitted'';
          r = (if rd_Status d = ''sent''
               then (let r = r\<lparr>rm_SentAt := Some (rd_SentAt d)\<rparr> in if movable then r\<lparr>rm_Status := ''sent''\<rparr> else r)
               else if rd_Status d = ''failed'' \<and> movable then r\<lparr>rm_Status := ''failed''\<rparr> else r)
      in r\<lparr>rm_UpdatedAt := nextRepositoryTime now [rm_UpdatedAt r]\<rparr>)"

definition SaveReminderDelivery :: "op_ctx \<Rightarrow> op_env \<Rightarrow> ReminderDelivery \<Rightarrow> MemoryStore \<Rightarrow> ReminderDelivery outcome" where
  "SaveReminderDelivery cx env d = framed ''reminder_delivery.save'' cx (\<lambda>s.
     let now = postgresTime (en_now env);
         d = prepareReminderDelivery (en_rand env) d now
     in case mget (st_reminders s) (rd_ReminderID d) of
          None \<Rightarrow> (Inl (storeError ''reminder_delivery.save'' StoreErrorNotFound (Err ''reminder not found'')), s)
        | Some r \<Rightarrow>
            let r = delivered_reminder now d r
            in (Inr d,
               appendEventLocked env (''reminder_delivery.'' @ rd_Status d) [] (rd_ReminderID d) (PReminderDelivery d)
                 (appendAuditLocked env (''reminder_delivery.'' @ rd_Status d) [] [] ''scheduler'' (rd_ProviderStatus d)
                   [(''delivery_id'', AnyString (rd_ID d)), (''reminder_id'', AnyString (rd_ReminderID d)),
                    (''channel'', AnyString (rd_Channel d)), (''provider'', AnyString (rd_Provider d)),
                    (''attempt'', AnyNumber (of_int (rd_Attempt d)))]
                   (s\<lparr>st_reminderDelivery := mput (rd_ID d) d (st_reminderDelivery s),
                      st_reminders := mput (rm_ID r) r (st_reminders s)\<rparr>))))"

definition ListReminderDeliveries :: "op_ctx \<Rightarrow> string \<Rightarrow> MemoryStore \<Rightarrow> ReminderDelivery list outcome" where
  "ListReminderDeliveries cx reminderID = framed ''reminder_delivery.list'' cx (\<lambda>s.
     (Inr (sortReminderDeliveries (filter (\<lambda>d. reminderID = [] \<or> rd_ReminderID d = reminderID)
        (mvals (st_reminderDelivery s)))), s))"

section \<open>Workbench schedules\<close>

definition prepareWorkbenchAdvance ::
  "8 word list option \<Rightarrow> Reminder \<Rightarrow> gotime \<Rightarrow> ReminderDelivery \<Rightarrow> gotime \<Rightarrow> go_error + (Reminder \<times> ReminderDelivery)" where
  "prepareWorkbenchAdvance random current next occurrence now =
     (if \<not> isWorkbenchReminder current \<or> rm_Status current \<noteq> ''pending'' \<or> TrimSpace (rd_ID occurrence) = [] \<or>
         rd_ReminderID occurrence \<noteq> rm_ID current \<or>
         (rd_Status occurrence \<noteq> ''missed'' \<and> rd_Status occurrence \<noteq> ''submitted'') \<or>
         (\<not> IsZero next \<and> \<not> rm_DueTime current < next)
      then Inl (Err ''invalid workbench occurrence advancement'')
      else
        let current = current\<lparr>rm_Status := rd_Status occurrence\<rparr>;
            current = (if \<not> IsZero next then current\<lparr>rm_Status := ''pending'', rm_DueTime := next\<rparr> else current);
            current = current\<lparr>rm_LastDeliveryID := rd_ID occurrence,
                              rm_UpdatedAt := nextRepositoryTime now [rm_UpdatedAt current], rm_DeliveryAttempt := 0\<rparr>
        in Inr (normalizeReminder current, prepareReminderDelivery random occurrence now))"

definition AdvanceWorkbenchSchedule ::
  "op_ctx \<Rightarrow> op_env \<Rightarrow> string \<Rightarrow> gotime \<Rightarrow> gotime \<Rightarrow> ReminderDelivery \<Rightarrow> MemoryStore \<Rightarrow> Reminder outcome" where
  "AdvanceWorkbenchSchedule cx env i expectedUpdatedAt next occurrence = framed ''workbench_schedule.advance'' cx (\<lambda>s.
     let conflict = (Inl (storeError ''workbench_schedule.advance'' StoreErrorConflict ErrReminderConflict), s)
     in case mget (st_reminders s) i of
          None \<Rightarrow> conflict
        | Some current \<Rightarrow>
            if rm_Status current \<noteq> ''pending'' \<or> rm_UpdatedAt current \<noteq> postgresTime expectedUpdatedAt \<or>
               mget (st_reminderDelivery s) (rd_ID occurrence) \<noteq> None then conflict
            else (case prepareWorkbenchAdvance (en_rand env) current next occurrence (en_now env) of
                Inl e \<Rightarrow> (Inl (storeError ''workbench_schedule.advance'' StoreErrorInvalid e), s)
              | Inr (updated, record) \<Rightarrow> (Inr updated,
                  appendEventLocked env (''schedule_occurrence.'' @ rd_Status record) (rm_SessionID updated) (rm_RunID updated)
                    (PReminderDelivery record)
                    (appendAuditLocked env (''schedule_occurrence.'' @ rd_Status record) (rm_SessionID updated) (rm_RunID updated)
                      ''workbench'' (rd_ID record)
                      [(''schedule_id'', AnyString i), (''occurrence_id'', AnyString (rd_ID record)),
                       (''due_time'', AnyTime (rm_DueTime current))]
                      (s\<lparr>st_reminders := mput i updated (st_reminders s),
                         st_reminderDelivery := mput (rd_ID record) record (st_reminderDelivery s)\<rparr>)))))"

end
