(* ===== verification/Schedules.thy ===== *)
theory Schedules
  imports Schedule_Operations
begin

text \<open>
  What the schedule repository guarantees: a due reminder is claimed by one tick only, in the order of its due
  time; a pending reminder is edited under optimistic locking; a workbench occurrence is consumed exactly once;
  deliveries move a reminder only along its life cycle; every operation keeps the tables keyed and their
  instants whole microseconds, and leaves the store alone when it fails.
\<close>

section \<open>Interfaces\<close>

interpretation reminder_table: record_table reminder_cmp "\<lambda>r. (rm_DueTime r, rm_ID r)" rm_ID
  by unfold_locales (auto simp: reminder_cmp_def time_cmp_def str_cmp_def Let_def less_eq_prod_def)

interpretation reminder_delivery_table: record_table reminder_delivery_cmp "\<lambda>d. (rd_CreatedAt d, rd_ID d)" rd_ID
  by unfold_locales (auto simp: reminder_delivery_cmp_def time_cmp_def str_cmp_def Let_def less_eq_prod_def)

section \<open>Prepared records\<close>

definition whole_reminder :: "Reminder \<Rightarrow> bool" where
  "whole_reminder r \<longleftrightarrow> postgresTime (rm_DueTime r) = rm_DueTime r \<and> postgresTime (rm_UpdatedAt r) = rm_UpdatedAt r \<and>
     postgresTime (rm_CreatedAt r) = rm_CreatedAt r"

lemma whole_normalize [simp]: "whole_reminder (normalizeReminder r)"
  by (simp add: whole_reminder_def normalizeReminder_def)

lemma whole_prepare [simp]: "whole_reminder (prepareReminder random r now)" "whole_reminder (prepareReminderUpdate r c now)"
  by (simp_all add: prepareReminder_def prepareReminderUpdate_def Let_def)

lemma prepareReminderUpdate_fields [simp]:
  "rm_ID (prepareReminderUpdate r c now) = rm_ID r" "rm_Status (prepareReminderUpdate r c now) = rm_Status r"
  "rm_UpdatedAt c < rm_UpdatedAt (prepareReminderUpdate r c now)"
proof -
  have "rm_UpdatedAt (prepareReminderUpdate r c now) =
      nextRepositoryTime (if rm_UpdatedAt r = 0 then now else rm_UpdatedAt r) [rm_UpdatedAt c]"
    by (simp add: prepareReminderUpdate_def normalizeReminder_def Let_def)
  then show "rm_UpdatedAt c < rm_UpdatedAt (prepareReminderUpdate r c now)"
    by (simp only: nextRepositoryTime_after)
qed (simp_all add: prepareReminderUpdate_def normalizeReminder_def Let_def)

lemma delivered_fields [simp]:
  "rm_ID (delivered_reminder now d r) = rm_ID r" "rm_DueTime (delivered_reminder now d r) = rm_DueTime r"
  "rm_UpdatedAt (delivered_reminder now d r) = nextRepositoryTime now [rm_UpdatedAt r]"
  "rm_CreatedAt (delivered_reminder now d r) = rm_CreatedAt r" "rm_ScheduleSpec (delivered_reminder now d r) = rm_ScheduleSpec r"
  "rm_Status (delivered_reminder now d r) =
     (if (rd_Status d = ''sent'' \<or> rd_Status d = ''failed'') \<and> (\<not> isWorkbenchReminder r \<or> rm_Status r = ''submitted'')
      then rd_Status d else rm_Status r)"
  by (auto simp: delivered_reminder_def Let_def isWorkbenchReminder_def)

lemma prepareReminderDelivery_fields [simp]:
  "rd_ReminderID (prepareReminderDelivery random d now) = rd_ReminderID d"
  "rd_Status (prepareReminderDelivery random d now) = rd_Status d"
  by (simp_all add: prepareReminderDelivery_def normalizeReminderDelivery_def Let_def)

section \<open>Claiming\<close>

lemma fold_put_same:
  "i \<notin> rid ` set xs \<Longrightarrow> mget (fold (\<lambda>r. mput (rid r) r) xs m) i = mget m i"
  by (induction xs arbitrary: m) (auto simp: mget_mput)

lemma fold_put_in:
  "distinct (map rid xs) \<Longrightarrow> r \<in> set xs \<Longrightarrow> mget (fold (\<lambda>r. mput (rid r) r) xs m) (rid r) = Some r"
proof (induction xs arbitrary: m)
  case (Cons x xs)
  then show ?case
    by (cases "r = x") (auto simp: fold_put_same)
qed simp

lemma fold_put_keyed: "keyed rid m \<Longrightarrow> keyed rid (fold (\<lambda>r. mput (rid r) r) xs m)"
  by (induction xs arbitrary: m) (auto intro: keyed_put)

lemma fold_put_vals:
  "keyed rid m \<Longrightarrow> \<forall>x \<in> set (mvals m). P x \<Longrightarrow> \<forall>x \<in> set xs. P x \<Longrightarrow> \<forall>x \<in> set (mvals (fold (\<lambda>r. mput (rid r) r) xs m)). P x"
proof (induction xs arbitrary: m)
  case (Cons x xs)
  have "keyed rid (mput (rid x) x m)" using Cons.prems(1) by (simp add: keyed_put)
  moreover have "\<forall>y \<in> set (mvals (mput (rid x) x m)). P y"
    by (rule all_vals_put [OF Cons.prems(1,2)]) (use Cons.prems(3) in simp)
  ultimately show ?case using Cons.IH Cons.prems(3) by simp
qed simp

lemma claim_of_fields [simp]:
  "rm_ID (claim_of now r) = rm_ID r" "rm_DueTime (claim_of now r) = rm_DueTime r" "rm_UpdatedAt (claim_of now r) = now"
  "rm_Status (claim_of now r) = ''sending''" "rm_CreatedAt (claim_of now r) = rm_CreatedAt r"
  "rm_ScheduleSpec (claim_of now r) = rm_ScheduleSpec r" "isWorkbenchReminder (claim_of now r) = isWorkbenchReminder r"
  by (simp_all add: claim_of_def isWorkbenchReminder_def)

definition due_batch :: "gotime \<Rightarrow> gotime \<Rightarrow> int \<Rightarrow> MemoryStore \<Rightarrow> Reminder list" where
  "due_batch now staleBefore limit s =
     clip (normalizeReminderQueryLimit limit) (sortReminders (filter (claimable (postgresTime now) (postgresTime staleBefore)) (mvals (st_reminders s))))"

definition claimed_store :: "gotime \<Rightarrow> gotime \<Rightarrow> int \<Rightarrow> MemoryStore \<Rightarrow> MemoryStore" where
  "claimed_store now staleBefore limit s =
     s\<lparr>st_reminders := fold (\<lambda>r. mput (rm_ID r) r) (map (claim_of (postgresTime now)) (due_batch now staleBefore limit s)) (st_reminders s)\<rparr>"

lemma ClaimDueReminders_open:
  "ClaimDueReminders open_ctx now staleBefore limit s =
     (Inr (map (claim_of (postgresTime now)) (due_batch now staleBefore limit s)), claimed_store now staleBefore limit s)"
  by (simp add: ClaimDueReminders_def framed_def checked_def due_batch_def claimed_store_def Let_def)

lemma due_batch_members:
  assumes "keyed rm_ID (st_reminders s)" and "r \<in> set (due_batch now staleBefore limit s)"
  shows "mget (st_reminders s) (rm_ID r) = Some r" and "claimable (postgresTime now) (postgresTime staleBefore) r"
  using set_clip_subset [of "normalizeReminderQueryLimit limit"
      "sortReminders (filter (claimable (postgresTime now) (postgresTime staleBefore)) (mvals (st_reminders s)))"]
    assms keyed_vals [OF assms(1), of r]
  by (auto simp: due_batch_def sortReminders_def)

lemma due_batch_distinct:
  assumes "keyed rm_ID (st_reminders s)"
  shows "distinct (map rm_ID (due_batch now staleBefore limit s))"
proof -
  have "distinct (map rm_ID (sortReminders (filter (claimable (postgresTime now) (postgresTime staleBefore)) (mvals (st_reminders s)))))"
    unfolding sortReminders_def by (rule reminder_table.listing_distinct [OF assms])
  then show ?thesis
    unfolding due_batch_def clip_def by (simp flip: take_map)
qed

lemma claimed_store_get:
  assumes "keyed rm_ID (st_reminders s)"
  shows "r \<in> set (due_batch now staleBefore limit s) \<Longrightarrow>
      mget (st_reminders (claimed_store now staleBefore limit s)) (rm_ID r) = Some (claim_of (postgresTime now) r)"
    and "i \<notin> rm_ID ` set (due_batch now staleBefore limit s) \<Longrightarrow>
      mget (st_reminders (claimed_store now staleBefore limit s)) i = mget (st_reminders s) i"
proof -
  let ?c = "map (claim_of (postgresTime now)) (due_batch now staleBefore limit s)"
  have ids: "map rm_ID ?c = map rm_ID (due_batch now staleBefore limit s)" by simp
  have d: "distinct (map rm_ID ?c)" unfolding ids by (rule due_batch_distinct [OF assms])
  show "mget (st_reminders (claimed_store now staleBefore limit s)) (rm_ID r) = Some (claim_of (postgresTime now) r)"
    if "r \<in> set (due_batch now staleBefore limit s)"
    using fold_put_in [OF d, of "claim_of (postgresTime now) r" "st_reminders s"] that by (simp add: claimed_store_def)
  show "mget (st_reminders (claimed_store now staleBefore limit s)) i = mget (st_reminders s) i"
    if "i \<notin> rm_ID ` set (due_batch now staleBefore limit s)"
    using fold_put_same [of i rm_ID ?c "st_reminders s"] that by (simp add: claimed_store_def image_image)
qed

section \<open>Steps\<close>

definition schedules_inv :: "MemoryStore \<Rightarrow> bool" where
  "schedules_inv s \<longleftrightarrow> keyed rm_ID (st_reminders s) \<and> (\<forall>r \<in> set (mvals (st_reminders s)). whole_reminder r) \<and>
     keyed rd_ID (st_reminderDelivery s)"

lemma schedules_inv_keyed: "schedules_inv s \<Longrightarrow> keyed rm_ID (st_reminders s)"
  by (simp add: schedules_inv_def)

lemma schedules_inv_get: "schedules_inv s \<Longrightarrow> mget (st_reminders s) i = Some r \<Longrightarrow> rm_ID r = i \<and> whole_reminder r"
  using keyed_get [of rm_ID "st_reminders s" i r] keyed_vals [of rm_ID "st_reminders s" r] by (auto simp: schedules_inv_def)

lemma schedules_inv_append [simp]:
  "schedules_inv (appendAuditLocked env a b c d e f s) = schedules_inv s" "schedules_inv (appendEventLocked env a b c v s) = schedules_inv s"
  by (simp_all add: schedules_inv_def)

lemma put_reminder_inv:
  assumes "schedules_inv s" and "whole_reminder r"
  shows "schedules_inv (s\<lparr>st_reminders := mput (rm_ID r) r (st_reminders s)\<rparr>)"
proof -
  have k: "keyed rm_ID (st_reminders s)" and w: "\<forall>r \<in> set (mvals (st_reminders s)). whole_reminder r"
    using assms(1) by (simp_all add: schedules_inv_def)
  show ?thesis
    using assms(1) keyed_put [OF k refl] all_vals_put [OF k w assms(2)] by (simp add: schedules_inv_def)
qed

lemma put_delivery_inv:
  "schedules_inv s \<Longrightarrow> schedules_inv (s\<lparr>st_reminderDelivery := mput (rd_ID d) d (st_reminderDelivery s)\<rparr>)"
  by (simp add: schedules_inv_def keyed_put)

lemma put_both_inv:
  assumes "schedules_inv s" and "whole_reminder r"
  shows "schedules_inv (s\<lparr>st_reminders := mput (rm_ID r) r (st_reminders s), st_reminderDelivery := mput (rd_ID d) d (st_reminderDelivery s)\<rparr>)"
  using put_delivery_inv [OF put_reminder_inv [OF assms], of d] by simp

lemma SaveReminder_cases:
  assumes "SaveReminder cx env r s = (res, s')"
  shows "(s' = s \<and> (\<exists>e. res = Inl e)) \<or>
    (res = Inr (prepareReminder (en_rand env) r (en_now env)) \<and> s' = record_reminder env (prepareReminder (en_rand env) r (en_now env)) s)"
  by (cases "entry_error ''reminder.save'' cx"; cases "locked_error ''reminder.save'' cx")
     (use assms [symmetric] in \<open>simp_all add: SaveReminder_def framed_def checked_def Let_def\<close>)

lemma UpdatePendingReminder_cases:
  assumes "UpdatePendingReminder cx env r t s = (res, s')"
  shows "(s' = s \<and> (\<exists>e. res = Inl e)) \<or>
    (\<exists>c. mget (st_reminders s) (rm_ID r) = Some c \<and> rm_Status c = ''pending'' \<and> rm_UpdatedAt c = postgresTime t \<and>
      res = Inr (prepareReminderUpdate r c (en_now env)) \<and> s' = record_reminder env (prepareReminderUpdate r c (en_now env)) s)"
proof (cases "mget (st_reminders s) (rm_ID r)")
  case None
  then show ?thesis
    using framed_cases [OF assms [unfolded UpdatePendingReminder_def]] by (auto simp: Let_def)
next
  case (Some c)
  have "(s' = s \<and> (\<exists>e. res = Inl e)) \<or>
      (if rm_Status c \<noteq> ''pending'' \<or> rm_UpdatedAt c \<noteq> postgresTime t
       then (Inl (storeError ''reminder.update_pending'' StoreErrorConflict ErrReminderConflict), s)
       else (Inr (prepareReminderUpdate r c (en_now env)), record_reminder env (prepareReminderUpdate r c (en_now env)) s)) = (res, s')"
    using framed_cases [OF assms [unfolded UpdatePendingReminder_def]] by (simp only: Some Let_def option.case)
  then show ?thesis
    by (elim disjE) (simp_all only: Some split: if_splits, auto)
qed

lemma ClaimDueReminders_cases:
  assumes "ClaimDueReminders cx now st limit s = (res, s')"
  shows "(s' = s \<and> (\<exists>e. res = Inl e)) \<or>
    (res = Inr (map (claim_of (postgresTime now)) (due_batch now st limit s)) \<and> s' = claimed_store now st limit s)"
  using framed_cases [OF assms [unfolded ClaimDueReminders_def]] by (auto simp: due_batch_def claimed_store_def Let_def)

definition delivery_store :: "op_env \<Rightarrow> ReminderDelivery \<Rightarrow> Reminder \<Rightarrow> MemoryStore \<Rightarrow> MemoryStore" where
  "delivery_store env d r s =
     appendEventLocked env (''reminder_delivery.'' @ rd_Status d) [] (rd_ReminderID d) (PReminderDelivery d)
       (appendAuditLocked env (''reminder_delivery.'' @ rd_Status d) [] [] ''scheduler'' (rd_ProviderStatus d)
         [(''delivery_id'', AnyString (rd_ID d)), (''reminder_id'', AnyString (rd_ReminderID d)),
          (''channel'', AnyString (rd_Channel d)), (''provider'', AnyString (rd_Provider d)),
          (''attempt'', AnyNumber (of_int (rd_Attempt d)))]
         (s\<lparr>st_reminderDelivery := mput (rd_ID d) d (st_reminderDelivery s), st_reminders := mput (rm_ID r) r (st_reminders s)\<rparr>))"

lemma SaveReminderDelivery_cases:
  assumes "SaveReminderDelivery cx env d s = (res, s')"
  defines "now \<equiv> postgresTime (en_now env)"
  shows "(s' = s \<and> (\<exists>e. res = Inl e)) \<or>
    (\<exists>r. mget (st_reminders s) (rd_ReminderID d) = Some r \<and> res = Inr (prepareReminderDelivery (en_rand env) d now) \<and>
      s' = delivery_store env (prepareReminderDelivery (en_rand env) d now)
        (delivered_reminder now (prepareReminderDelivery (en_rand env) d now) r) s)"
proof (cases "mget (st_reminders s) (rd_ReminderID d)")
  case None
  then show ?thesis
    using framed_cases [OF assms(1) [unfolded SaveReminderDelivery_def]] by (auto simp: Let_def)
next
  case (Some r)
  have "(s' = s \<and> (\<exists>e. res = Inl e)) \<or> (Inr (prepareReminderDelivery (en_rand env) d now),
      delivery_store env (prepareReminderDelivery (en_rand env) d now)
        (delivered_reminder now (prepareReminderDelivery (en_rand env) d now) r) s) = (res, s')"
    using framed_cases [OF assms(1) [unfolded SaveReminderDelivery_def]]
    by (simp only: Let_def prepareReminderDelivery_fields Some option.case delivery_store_def now_def)
  then show ?thesis
    using Some by (elim disjE) simp_all
qed

definition advance_store :: "op_env \<Rightarrow> string \<Rightarrow> gotime \<Rightarrow> Reminder \<Rightarrow> ReminderDelivery \<Rightarrow> MemoryStore \<Rightarrow> MemoryStore" where
  "advance_store env i due updated record s =
     appendEventLocked env (''schedule_occurrence.'' @ rd_Status record) (rm_SessionID updated) (rm_RunID updated) (PReminderDelivery record)
       (appendAuditLocked env (''schedule_occurrence.'' @ rd_Status record) (rm_SessionID updated) (rm_RunID updated)
         ''workbench'' (rd_ID record)
         [(''schedule_id'', AnyString i), (''occurrence_id'', AnyString (rd_ID record)), (''due_time'', AnyTime due)]
         (s\<lparr>st_reminders := mput i updated (st_reminders s), st_reminderDelivery := mput (rd_ID record) record (st_reminderDelivery s)\<rparr>))"

lemma AdvanceWorkbenchSchedule_cases:
  assumes "AdvanceWorkbenchSchedule cx env i t next occ s = (res, s')"
  shows "(s' = s \<and> (\<exists>e. res = Inl e)) \<or>
    (\<exists>c u d. mget (st_reminders s) i = Some c \<and> rm_Status c = ''pending'' \<and> rm_UpdatedAt c = postgresTime t \<and>
      mget (st_reminderDelivery s) (rd_ID occ) = None \<and>
      prepareWorkbenchAdvance (en_rand env) c next occ (en_now env) = Inr (u, d) \<and>
      res = Inr u \<and> s' = advance_store env i (rm_DueTime c) u d s)"
proof (cases "mget (st_reminders s) i")
  case None
  then show ?thesis
    using framed_cases [OF assms [unfolded AdvanceWorkbenchSchedule_def]] by (auto simp: Let_def)
next
  case (Some c)
  let ?p = "prepareWorkbenchAdvance (en_rand env) c next occ (en_now env)"
  let ?bad = "rm_Status c \<noteq> ''pending'' \<or> rm_UpdatedAt c \<noteq> postgresTime t \<or> mget (st_reminderDelivery s) (rd_ID occ) \<noteq> None"
  have *: "(s' = s \<and> (\<exists>e. res = Inl e)) \<or>
      (if ?bad then (Inl (storeError ''workbench_schedule.advance'' StoreErrorConflict ErrReminderConflict), s)
       else (case ?p of Inl e \<Rightarrow> (Inl (storeError ''workbench_schedule.advance'' StoreErrorInvalid e), s)
         | Inr (u, d) \<Rightarrow> (Inr u, advance_store env i (rm_DueTime c) u d s))) = (res, s')"
    using framed_cases [OF assms [unfolded AdvanceWorkbenchSchedule_def]]
    by (simp only: Let_def Some option.case advance_store_def)
  show ?thesis
  proof (cases "?bad \<or> (\<exists>e. ?p = Inl e)")
    case True
    then have "s' = s \<and> (\<exists>e. res = Inl e)"
    proof
      assume ?bad
      with * show ?thesis by (simp only: if_True) blast
    next
      assume "\<exists>e. ?p = Inl e"
      with * show ?thesis by (cases ?bad) (simp only: if_True, blast, simp only: if_False sum.case, elim exE, simp, blast)
    qed
    then show ?thesis by blast
  next
    case False
    then obtain u d where "?p = Inr (u, d)" by (cases ?p) auto
    with * False Some show ?thesis by simp blast
  qed
qed

inductive schedule_step :: "MemoryStore \<Rightarrow> MemoryStore \<Rightarrow> bool" where
  step_save_reminder: "SaveReminder cx env r s = (res, s') \<Longrightarrow> schedule_step s s'"
| step_update_reminder: "UpdatePendingReminder cx env r t s = (res, s') \<Longrightarrow> schedule_step s s'"
| step_claim: "ClaimDueReminders cx now stale limit s = (res, s') \<Longrightarrow> schedule_step s s'"
| step_delivery: "SaveReminderDelivery cx env d s = (res, s') \<Longrightarrow> schedule_step s s'"
| step_advance: "AdvanceWorkbenchSchedule cx env i t next occ s = (res, s') \<Longrightarrow> schedule_step s s'"

inductive_cases schedule_stepE: "schedule_step s s'"

lemma record_reminder_inv: "schedules_inv s \<Longrightarrow> whole_reminder r \<Longrightarrow> schedules_inv (record_reminder env r s)"
  by (simp add: record_reminder_def put_reminder_inv)

lemma claimed_store_inv:
  assumes "schedules_inv s"
  shows "schedules_inv (claimed_store now stale limit s)"
proof -
  have k: "keyed rm_ID (st_reminders s)" and w: "\<forall>r \<in> set (mvals (st_reminders s)). whole_reminder r"
    using assms by (simp_all add: schedules_inv_def)
  let ?c = "map (claim_of (postgresTime now)) (due_batch now stale limit s)"
  have "whole_reminder r" if "r \<in> set (due_batch now stale limit s)" for r
    using due_batch_members(1) [OF k that] schedules_inv_get [OF assms] by blast
  then have c: "\<forall>r \<in> set ?c. whole_reminder r" by (auto simp: whole_reminder_def)
  show ?thesis
    using assms fold_put_keyed [OF k, of ?c] fold_put_vals [OF k w c] by (simp add: claimed_store_def schedules_inv_def)
qed

lemma delivered_whole: "whole_reminder r \<Longrightarrow> whole_reminder (delivered_reminder now d r)"
  by (simp add: whole_reminder_def)

lemma delivery_store_inv: "schedules_inv s \<Longrightarrow> whole_reminder r \<Longrightarrow> schedules_inv (delivery_store env d r s)"
  using put_both_inv [of s r d] by (simp add: delivery_store_def schedules_inv_def)

lemma prepareWorkbenchAdvance_ok:
  assumes "prepareWorkbenchAdvance random c next occ now = Inr (u, d)"
  shows "whole_reminder u" and "rm_ID u = rm_ID c" and "rm_UpdatedAt u = nextRepositoryTime now [rm_UpdatedAt c]"
    and "rm_Status u = (if next = 0 then rd_Status occ else ''pending'')" and "rm_LastDeliveryID u = rd_ID occ"
    and "rm_DueTime u = (if next = 0 then postgresTime (rm_DueTime c) else postgresTime next)"
    and "next \<noteq> 0 \<Longrightarrow> rm_DueTime c < next" and "d = prepareReminderDelivery random occ now" and "rd_ID d = rd_ID occ"
    and "isWorkbenchReminder u" and "rd_Status occ = ''missed'' \<or> rd_Status occ = ''submitted''"
    and "rm_DeliveryAttempt u = 0" and "rd_ReminderID occ = rm_ID c"
proof -
  have ok: "isWorkbenchReminder c" "TrimSpace (rd_ID occ) \<noteq> []" "rd_Status occ = ''missed'' \<or> rd_Status occ = ''submitted''"
    "next \<noteq> 0 \<longrightarrow> rm_DueTime c < next" "rd_ReminderID occ = rm_ID c"
    and u: "u = normalizeReminder ((if next \<noteq> 0 then c\<lparr>rm_Status := ''pending'', rm_DueTime := next\<rparr>
        else c\<lparr>rm_Status := rd_Status occ\<rparr>)\<lparr>rm_LastDeliveryID := rd_ID occ,
          rm_UpdatedAt := nextRepositoryTime now [rm_UpdatedAt c], rm_DeliveryAttempt := 0\<rparr>)"
    and d: "d = prepareReminderDelivery random occ now"
    using assms unfolding prepareWorkbenchAdvance_def Let_def by (simp_all split: if_splits)
  have p: "postgresTime (nextRepositoryTime now [rm_UpdatedAt c]) = nextRepositoryTime now [rm_UpdatedAt c]"
    by (rule nextRepositoryTime_whole)
  show "whole_reminder u" "rm_ID u = rm_ID c" "rm_UpdatedAt u = nextRepositoryTime now [rm_UpdatedAt c]"
    "rm_Status u = (if next = 0 then rd_Status occ else ''pending'')" "rm_LastDeliveryID u = rd_ID occ"
    "rm_DueTime u = (if next = 0 then postgresTime (rm_DueTime c) else postgresTime next)" "rm_DeliveryAttempt u = 0"
    by (simp_all add: u normalizeReminder_def whole_reminder_def)
  show "isWorkbenchReminder u"
    using ok(1) by (simp add: u normalizeReminder_def isWorkbenchReminder_def)
  show "next \<noteq> 0 \<Longrightarrow> rm_DueTime c < next" "rd_Status occ = ''missed'' \<or> rd_Status occ = ''submitted''" "rd_ReminderID occ = rm_ID c"
    using ok by blast+
  show "d = prepareReminderDelivery random occ now" by (rule d)
  show "rd_ID d = rd_ID occ"
    using ok(2) by (simp add: d prepareReminderDelivery_def normalizeReminderDelivery_def Let_def)
qed

lemma advance_store_inv:
  assumes "schedules_inv s" and "whole_reminder u" and "rm_ID u = i"
  shows "schedules_inv (advance_store env i due u d s)"
  using put_both_inv [OF assms(1,2), of d] assms(3) by (simp add: advance_store_def)

lemma schedule_step_inv: "schedule_step s s' \<Longrightarrow> schedules_inv s \<Longrightarrow> schedules_inv s'"
proof (erule schedule_stepE)
  fix cx env r res assume "SaveReminder cx env r s = (res, s')" and "schedules_inv s"
  with SaveReminder_cases [OF this(1)] show "schedules_inv s'" by (auto intro: record_reminder_inv)
next
  fix cx env r t res assume u: "UpdatePendingReminder cx env r t s = (res, s')" and "schedules_inv s"
  with UpdatePendingReminder_cases [OF u] show "schedules_inv s'" by (auto intro: record_reminder_inv)
next
  fix cx now stale limit res assume u: "ClaimDueReminders cx now stale limit s = (res, s')" and "schedules_inv s"
  with ClaimDueReminders_cases [OF u] show "schedules_inv s'" by (auto intro: claimed_store_inv)
next
  fix cx env d res assume u: "SaveReminderDelivery cx env d s = (res, s')" and inv: "schedules_inv s"
  with SaveReminderDelivery_cases [OF u] schedules_inv_get [OF inv] show "schedules_inv s'"
    by (auto intro!: delivery_store_inv delivered_whole)
next
  fix cx env i t nxt occ res assume u: "AdvanceWorkbenchSchedule cx env i t nxt occ s = (res, s')" and inv: "schedules_inv s"
  from AdvanceWorkbenchSchedule_cases [OF u] show "schedules_inv s'"
  proof (elim disjE exE conjE)
    fix c w d assume "mget (st_reminders s) i = Some c" "prepareWorkbenchAdvance (en_rand env) c nxt occ (en_now env) = Inr (w, d)"
      and s': "s' = advance_store env i (rm_DueTime c) w d s"
    then show "schedules_inv s'"
      using prepareWorkbenchAdvance_ok(1,2) schedules_inv_get [OF inv] advance_store_inv [OF inv] by metis
  qed (use inv in simp)
qed

lemma schedules_inv_empty: "empty_store s \<Longrightarrow> schedules_inv s"
  by (simp add: schedules_inv_def empty_store_tables)

interpretation schedules: invariant_system empty_store schedule_step schedules_inv
  by unfold_locales (fact schedules_inv_empty, fact schedule_step_inv)

lemma schedule_store_logs:
  "logs_extend s (record_reminder env r s)" "logs_extend s (delivery_store env d r s)" "logs_extend s (advance_store env i due u d s)"
  "logs_extend s (claimed_store now stale limit s)"
  by (simp_all add: record_reminder_def delivery_store_def advance_store_def claimed_store_def logs_extend_def
      appendAuditLocked_def appendAuditLockedAt_def appendEventLocked_def appendEventLockedAt_def)

lemma schedule_step_logs: "schedule_step s s' \<Longrightarrow> logs_extend s s'"
  by (erule schedule_stepE)
     (use schedule_store_logs logs_extend_refl in \<open>blast dest: SaveReminder_cases UpdatePendingReminder_cases
        ClaimDueReminders_cases SaveReminderDelivery_cases AdvanceWorkbenchSchedule_cases\<close>)+

interpretation save_reminder: failing_operation "SaveReminder cx env r" True
  by unfold_locales (auto dest: SaveReminder_cases)

interpretation update_reminder: failing_operation "UpdatePendingReminder cx env r t" True
  by unfold_locales (auto dest: UpdatePendingReminder_cases)

interpretation claim_reminders: failing_operation "ClaimDueReminders cx now stale limit" True
  by unfold_locales (auto dest: ClaimDueReminders_cases)

interpretation save_reminder_delivery: failing_operation "SaveReminderDelivery cx env d" True
  by unfold_locales (auto dest: SaveReminderDelivery_cases)

interpretation advance_workbench: failing_operation "AdvanceWorkbenchSchedule cx env i t next occ" True
  by unfold_locales (auto dest: AdvanceWorkbenchSchedule_cases)

section \<open>Sequences of claims\<close>

fun claim_ticks :: "(gotime \<times> gotime \<times> int) list \<Rightarrow> MemoryStore \<Rightarrow> Reminder list list" where
  "claim_ticks [] s = []"
| "claim_ticks ((now, stale, limit) # ticks) s = (case ClaimDueReminders open_ctx now stale limit s of
     (Inr claimed, s') \<Rightarrow> claimed # claim_ticks ticks s' | (Inl e, s') \<Rightarrow> claim_ticks ticks s')"

lemma claim_ticks_Cons:
  "claim_ticks ((now, stale, limit) # ticks) s =
     map (claim_of (postgresTime now)) (due_batch now stale limit s) # claim_ticks ticks (claimed_store now stale limit s)"
  by (simp add: ClaimDueReminders_open)

text \<open>A reminder that is being sent is not claimed while every lease expired before its claim.\<close>

lemma leased_not_claimed:
  assumes "schedules_inv s" and "mget (st_reminders s) i = Some r" and "rm_Status r = ''sending''"
    and "\<forall>(n, st, l) \<in> set ticks. postgresTime st < rm_UpdatedAt r"
  shows "i \<notin> set (concat (map (map rm_ID) (claim_ticks ticks s)))"
  using assms
proof (induction ticks arbitrary: s)
  case (Cons tick ticks)
  obtain n st l where tick: "tick = (n, st, l)" by (cases tick)
  have k: "keyed rm_ID (st_reminders s)" using Cons.prems(1) by (rule schedules_inv_keyed)
  have i: "i \<notin> rm_ID ` set (due_batch n st l s)"
  proof
    assume "i \<in> rm_ID ` set (due_batch n st l s)"
    then obtain x where x: "x \<in> set (due_batch n st l s)" "rm_ID x = i" by auto
    then have "x = r" using due_batch_members(1) [OF k x(1)] Cons.prems(2) by simp
    then have "claimable (postgresTime n) (postgresTime st) r" using due_batch_members(2) [OF k x(1)] by simp
    then show False using Cons.prems(3,4) by (simp add: claimable_def tick)
  qed
  have "mget (st_reminders (claimed_store n st l s)) i = Some r"
    using claimed_store_get(2) [OF k i] Cons.prems(2) by simp
  then have "i \<notin> set (concat (map (map rm_ID) (claim_ticks ticks (claimed_store n st l s))))"
    using Cons.IH [OF claimed_store_inv [OF Cons.prems(1)]] Cons.prems(3,4) by simp
  with i show ?case
    by (auto simp: tick claim_ticks_Cons simp del: claim_ticks.simps)
qed simp

text \<open>A recorded delivery is never forgotten.\<close>

lemma delivery_recorded_step:
  assumes "schedule_step s s'" and "mget (st_reminderDelivery s) i \<noteq> None"
  shows "mget (st_reminderDelivery s') i \<noteq> None"
  using assms(1)
proof (rule schedule_stepE)
  fix cx env r res assume "SaveReminder cx env r s = (res, s')"
  from SaveReminder_cases [OF this] assms(2) show ?thesis by (auto simp: record_reminder_def)
next
  fix cx env r t res assume "UpdatePendingReminder cx env r t s = (res, s')"
  from UpdatePendingReminder_cases [OF this] assms(2) show ?thesis by (auto simp: record_reminder_def)
next
  fix cx now stale limit res assume "ClaimDueReminders cx now stale limit s = (res, s')"
  from ClaimDueReminders_cases [OF this] assms(2) show ?thesis by (auto simp: claimed_store_def)
next
  fix cx env d res assume "SaveReminderDelivery cx env d s = (res, s')"
  from SaveReminderDelivery_cases [OF this] assms(2) show ?thesis by (auto simp: delivery_store_def mget_mput)
next
  fix cx env j t nxt occ res assume "AdvanceWorkbenchSchedule cx env j t nxt occ s = (res, s')"
  from AdvanceWorkbenchSchedule_cases [OF this] assms(2) show ?thesis by (auto simp: advance_store_def mget_mput)
qed

lemma delivery_recorded_steps:
  "schedule_step\<^sup>*\<^sup>* s s' \<Longrightarrow> mget (st_reminderDelivery s) i \<noteq> None \<Longrightarrow> mget (st_reminderDelivery s') i \<noteq> None"
  by (induction rule: rtranclp_induct) (auto dest: delivery_recorded_step)

section \<open>Properties\<close>

definition sample_reminder :: Reminder where
  "sample_reminder = \<lparr>rm_ID = ''rem1'', rm_SessionID = ''s1'', rm_RunID = [], rm_Text = ''tea'', rm_TextSummary = ''tea'',
     rm_DueTime = 2000, rm_Timezone = [], rm_Channel = ''web'', rm_Recipient = [], rm_RecipientBinding = [], rm_BindingID = [],
     rm_CredentialRef = [], rm_BaseURL = [], rm_Recurrence = [], rm_DedupeKey = [], rm_Status = ''pending'',
     rm_LastDeliveryID = [], rm_LastError = [], rm_CreatedAt = 1000, rm_UpdatedAt = 1000, rm_SentAt = None,
     rm_CanceledAt = None, rm_DeliveryAttempt = 0, rm_ScheduleSpec = None\<rparr>"

definition reminder_store :: MemoryStore where
  "reminder_store = snd (SaveReminder open_ctx sample_env sample_reminder NewMemoryStore)"

lemma sample_reminder_prepared: "prepareReminder random sample_reminder now = sample_reminder"
proof -
  have "TrimSpace ''rem1'' \<noteq> []" by code_simp
  then show ?thesis
    by (simp add: prepareReminder_def sample_reminder_def normalizeReminder_def normalizeScheduleTimePointer_def postgresTime_def
        Truncate_def Let_def)
qed

lemma reminder_store_saved:
  "SaveReminder open_ctx sample_env sample_reminder NewMemoryStore = (Inr sample_reminder, reminder_store)"
  "st_reminders reminder_store = [(''rem1'', sample_reminder)]"
proof -
  have i: "rm_ID sample_reminder = ''rem1''" by (simp add: sample_reminder_def)
  show "SaveReminder open_ctx sample_env sample_reminder NewMemoryStore = (Inr sample_reminder, reminder_store)"
    by (simp add: reminder_store_def SaveReminder_def framed_def checked_def sample_reminder_prepared)
  show "st_reminders reminder_store = [(''rem1'', sample_reminder)]"
    by (simp add: reminder_store_def SaveReminder_def framed_def checked_def sample_reminder_prepared record_reminder_def i)
qed

lemma reminder_store_reach: "reach empty_store schedule_step reminder_store"
proof (rule reach_step)
  show "reach empty_store schedule_step NewMemoryStore" by (rule reach_init) (rule empty_store_New)
  show "schedule_step NewMemoryStore reminder_store" by (rule step_save_reminder) (rule reminder_store_saved(1))
qed

text \<open>A claim takes exactly the due work. In a reachable store \<open>ClaimDueReminders\<close> returns, oldest due time first and
  at most as many as asked (50 by default), reminders that no workbench owns and that are pending and due or sending
  with an expired lease; it marks exactly these as sending from now on; every other reminder stays as it is; and a
  claimable reminder it leaves behind means a full batch of earlier ones.\<close>

theorem claim_takes_due:
  assumes "reach empty_store schedule_step s"
  shows "\<exists>batch s'. ClaimDueReminders open_ctx now stale limit s = (Inr (map (claim_of (postgresTime now)) batch), s') \<and>
    distinct (map rm_ID batch) \<and> int (length batch) \<le> normalizeReminderQueryLimit limit \<and>
    sorted (map (\<lambda>r. (rm_DueTime r, rm_ID r)) batch) \<and>
    (\<forall>r \<in> set batch. mget (st_reminders s) (rm_ID r) = Some r \<and> claimable (postgresTime now) (postgresTime stale) r \<and>
      mget (st_reminders s') (rm_ID r) = Some (claim_of (postgresTime now) r)) \<and>
    (\<forall>i. i \<notin> rm_ID ` set batch \<longrightarrow> mget (st_reminders s') i = mget (st_reminders s) i) \<and>
    (\<forall>i r. mget (st_reminders s) i = Some r \<and> claimable (postgresTime now) (postgresTime stale) r \<and> i \<notin> rm_ID ` set batch \<longrightarrow>
      int (length batch) = normalizeReminderQueryLimit limit \<and>
      (\<forall>b \<in> set batch. (rm_DueTime b, rm_ID b) \<le> (rm_DueTime r, rm_ID r)))"
proof -
  let ?b = "due_batch now stale limit s" and ?lim = "normalizeReminderQueryLimit limit"
  let ?all = "SortFunc reminder_cmp (filter (claimable (postgresTime now) (postgresTime stale)) (mvals (st_reminders s)))"
  have inv: "schedules_inv s" using schedules.reach_inv [OF assms] .
  note k = schedules_inv_keyed [OF inv]
  have b: "?b = clip ?lim ?all" by (simp only: due_batch_def sortReminders_def)
  have lim: "0 \<le> ?lim" by (simp add: normalizeReminderQueryLimit_def)
  have left: "int (length ?b) = ?lim \<and> (\<forall>b \<in> set ?b. (rm_DueTime b, rm_ID b) \<le> (rm_DueTime r, rm_ID r))"
    if r: "mget (st_reminders s) i = Some r" "claimable (postgresTime now) (postgresTime stale) r" "i \<notin> rm_ID ` set ?b" for i r
  proof -
    have i: "rm_ID r = i" using schedules_inv_get [OF inv r(1)] by simp
    have "r \<in> set (filter (claimable (postgresTime now) (postgresTime stale)) (mvals (st_reminders s)))"
      using r(1,2) i keyed_vals [OF k, of r] by simp
    moreover have "r \<notin> set (clip ?lim ?all)" using r(3) i b by auto
    moreover have "int (length (clip ?lim ?all)) = ?lim"
      using calculation lim by (auto simp: clip_def split: if_splits)
    ultimately show ?thesis
      using reminder_table.clip_minimal [of _ ?lim "filter (claimable (postgresTime now) (postgresTime stale)) (mvals (st_reminders s))" r]
      unfolding b by blast
  qed
  show ?thesis
  proof (intro exI conjI ballI allI impI)
    show "ClaimDueReminders open_ctx now stale limit s = (Inr (map (claim_of (postgresTime now)) ?b), claimed_store now stale limit s)"
      by (rule ClaimDueReminders_open)
    show "distinct (map rm_ID ?b)" by (rule due_batch_distinct [OF k])
    show "int (length ?b) \<le> ?lim" unfolding b by (rule length_clip [OF lim])
    have "sorted (map (\<lambda>r. (rm_DueTime r, rm_ID r)) ?all)" by (rule reminder_table.sorted_SortFunc)
    then show "sorted (map (\<lambda>r. (rm_DueTime r, rm_ID r)) ?b)"
      unfolding b clip_def by (simp add: sorted_wrt_take flip: take_map)
  next
    fix r assume r: "r \<in> set ?b"
    show "mget (st_reminders s) (rm_ID r) = Some r" "claimable (postgresTime now) (postgresTime stale) r"
      using due_batch_members [OF k r] by simp_all
    show "mget (st_reminders (claimed_store now stale limit s)) (rm_ID r) = Some (claim_of (postgresTime now) r)"
      by (rule claimed_store_get(1) [OF k r])
  next
    fix i assume "i \<notin> rm_ID ` set ?b"
    then show "mget (st_reminders (claimed_store now stale limit s)) i = mget (st_reminders s) i"
      by (rule claimed_store_get(2) [OF k])
  next
    fix i r b
    assume r: "mget (st_reminders s) i = Some r \<and> claimable (postgresTime now) (postgresTime stale) r \<and> i \<notin> rm_ID ` set ?b"
    show "int (length ?b) = ?lim" using left r by blast
    show "b \<in> set ?b \<Longrightarrow> (rm_DueTime b, rm_ID b) \<le> (rm_DueTime r, rm_ID r)" using left r by blast
  qed
qed

lemma claim_takes_due_witness:
  "\<exists>batch s'. ClaimDueReminders open_ctx 3000 0 1 reminder_store = (Inr (map (claim_of (postgresTime 3000)) batch), s') \<and>
    int (length batch) \<le> 1"
  using claim_takes_due [OF reminder_store_reach, of 3000 0 1] by (auto simp: normalizeReminderQueryLimit_def)

text \<open>C19: overlapping ticks never claim a reminder twice. In any sequence of claims, if each lease limit lies before the time
  of every earlier claim, then no reminder is claimed by two of them.\<close>

theorem claims_exclusive:
  assumes "reach empty_store schedule_step s"
    and "sorted_wrt (\<lambda>(now, _, _) (_, stale, _). postgresTime stale < postgresTime now) ticks"
  shows "distinct (concat (map (map rm_ID) (claim_ticks ticks s)))"
proof -
  have "schedules_inv s" using schedules.reach_inv [OF assms(1)] .
  then show ?thesis
    using assms(2)
  proof (induction ticks arbitrary: s)
    case (Cons tick ticks)
    obtain n st l where tick: "tick = (n, st, l)" by (cases tick)
    have k: "keyed rm_ID (st_reminders s)" using Cons.prems(1) by (rule schedules_inv_keyed)
    have later: "\<forall>(n', st', l') \<in> set ticks. postgresTime st' < postgresTime n"
      using Cons.prems(2) by (auto simp: tick)
    have "rm_ID r \<notin> set (concat (map (map rm_ID) (claim_ticks ticks (claimed_store n st l s))))"
      if r: "r \<in> set (due_batch n st l s)" for r
      by (rule leased_not_claimed [OF claimed_store_inv [OF Cons.prems(1)] claimed_store_get(1) [OF k r]])
        (use later in simp_all)
    moreover have "distinct (concat (map (map rm_ID) (claim_ticks ticks (claimed_store n st l s))))"
      using Cons.IH [OF claimed_store_inv [OF Cons.prems(1)]] Cons.prems(2) by simp
    moreover have "map rm_ID (map (claim_of (postgresTime n)) (due_batch n st l s)) = map rm_ID (due_batch n st l s)" by simp
    ultimately show ?case
      using due_batch_distinct [OF k, of n st l]
      by (simp only: tick claim_ticks_Cons list.map(2) concat.simps(2) distinct_append) auto
  qed simp
qed

lemma claims_exclusive_witness:
  "distinct (concat (map (map rm_ID) (claim_ticks [(3000, 0, 50), (4000, 1000, 50)] reminder_store)))"
  by (rule claims_exclusive [OF reminder_store_reach]) (simp add: postgresTime_def Truncate_def)

text \<open>A pending reminder is edited under optimistic locking. A successful \<open>UpdatePendingReminder\<close> found the reminder pending
  and at the expected version, stores its answer with a strictly newer version, keeps it the only change to the reminders,
  and a second update that still expects the old version is refused without effect.\<close>

theorem pending_update_cas:
  assumes "reach empty_store schedule_step s" and "UpdatePendingReminder cx env r t s = (Inr u, s')"
  shows "(\<exists>c. mget (st_reminders s) (rm_ID r) = Some c \<and> rm_Status c = ''pending'' \<and> rm_UpdatedAt c = postgresTime t \<and>
       rm_UpdatedAt c < rm_UpdatedAt u) \<and>
    GetReminder open_ctx (rm_ID r) s' = (Inr (Some u), s') \<and>
    (\<forall>i. i \<noteq> rm_ID r \<longrightarrow> mget (st_reminders s') i = mget (st_reminders s) i) \<and>
    (\<forall>env' q. rm_ID q = rm_ID r \<longrightarrow> UpdatePendingReminder open_ctx env' q t s' =
      (Inl (storeError ''reminder.update_pending'' StoreErrorConflict ErrReminderConflict), s'))"
proof -
  obtain c where c: "mget (st_reminders s) (rm_ID r) = Some c" "rm_Status c = ''pending''" "rm_UpdatedAt c = postgresTime t"
    and u: "u = prepareReminderUpdate r c (en_now env)" and s': "s' = record_reminder env u s"
    using UpdatePendingReminder_cases [OF assms(2)] by auto
  have stored: "st_reminders s' = mput (rm_ID r) u (st_reminders s)" and newer: "rm_UpdatedAt c < rm_UpdatedAt u"
    by (simp_all add: s' record_reminder_def u)
  have found: "\<exists>c. mget (st_reminders s) (rm_ID r) = Some c \<and> rm_Status c = ''pending'' \<and> rm_UpdatedAt c = postgresTime t \<and>
      rm_UpdatedAt c < rm_UpdatedAt u"
    using c newer by blast
  have stored_now: "GetReminder open_ctx (rm_ID r) s' = (Inr (Some u), s')"
    by (simp add: GetReminder_def framed_def checked_def stored)
  have others: "i \<noteq> rm_ID r \<Longrightarrow> mget (st_reminders s') i = mget (st_reminders s) i" for i
    by (simp add: stored)
  have stale: "UpdatePendingReminder open_ctx env' q t s' =
      (Inl (storeError ''reminder.update_pending'' StoreErrorConflict ErrReminderConflict), s')" if "rm_ID q = rm_ID r" for env' q
    using newer c(3) by (simp add: UpdatePendingReminder_def framed_def checked_def that stored)
  show ?thesis using found stored_now others stale by blast
qed

lemma pending_update_cas_witness:
  "\<exists>u s. GetReminder open_ctx ''rem1'' s = (Inr (Some u), s) \<and> 1000 < rm_UpdatedAt u"
proof -
  have i: "rm_ID sample_reminder = ''rem1''" "rm_Status sample_reminder = ''pending''" "rm_UpdatedAt sample_reminder = postgresTime 1000"
    by (simp_all add: sample_reminder_def postgresTime_def Truncate_def)
  obtain u s where u: "UpdatePendingReminder open_ctx sample_env sample_reminder 1000 reminder_store = (Inr u, s)"
    by (simp add: UpdatePendingReminder_def framed_def checked_def reminder_store_saved(2) i Let_def)
  note p = pending_update_cas [OF reminder_store_reach u]
  then have "1000 < rm_UpdatedAt u" by (auto simp: postgresTime_def Truncate_def)
  with p show ?thesis by (auto simp: i)
qed

text \<open>A workbench occurrence is consumed exactly once. A successful \<open>AdvanceWorkbenchSchedule\<close> records the occurrence and, in
  the same step, either moves the schedule to a strictly later due time and keeps it pending or ends it in the state of the
  occurrence; the version grows; and neither a repeat of the advance nor any other advance that names the same
  occurrence or the old version takes effect, in whatever state the schedules are later.\<close>

theorem workbench_advance_once:
  assumes "reach empty_store schedule_step s" and "AdvanceWorkbenchSchedule cx env i t next occ s = (Inr u, s')"
  shows "mget (st_reminders s') i = Some u \<and> rm_LastDeliveryID u = rd_ID occ \<and>
      (if next = 0 then rm_Status u = rd_Status occ else rm_Status u = ''pending'' \<and> rm_DueTime u = postgresTime next) \<and>
    (\<exists>c. mget (st_reminders s) i = Some c \<and> rm_Status c = ''pending'' \<and> postgresTime t = rm_UpdatedAt c \<and>
      rm_UpdatedAt c < rm_UpdatedAt u \<and> (next \<noteq> 0 \<longrightarrow> rm_DueTime c < next)) \<and>
    (\<exists>d. mget (st_reminderDelivery s') (rd_ID occ) = Some d \<and> rd_ID d = rd_ID occ \<and> rd_Status d = rd_Status occ \<and> rd_ReminderID d = i) \<and>
    (\<forall>env' next' occ'. AdvanceWorkbenchSchedule open_ctx env' i t next' occ' s' =
      (Inl (storeError ''workbench_schedule.advance'' StoreErrorConflict ErrReminderConflict), s')) \<and>
    (\<forall>s'' env' j t' next' occ''. schedule_step\<^sup>*\<^sup>* s' s'' \<and> rd_ID occ'' = rd_ID occ \<longrightarrow>
      AdvanceWorkbenchSchedule open_ctx env' j t' next' occ'' s'' =
        (Inl (storeError ''workbench_schedule.advance'' StoreErrorConflict ErrReminderConflict), s''))"
proof -
  have inv: "schedules_inv s" using schedules.reach_inv [OF assms(1)] .
  obtain c d where c: "mget (st_reminders s) i = Some c" "rm_Status c = ''pending''" "rm_UpdatedAt c = postgresTime t"
    and p: "prepareWorkbenchAdvance (en_rand env) c next occ (en_now env) = Inr (u, d)"
    and s': "s' = advance_store env i (rm_DueTime c) u d s"
    using AdvanceWorkbenchSchedule_cases [OF assms(2)] by auto
  note ok = prepareWorkbenchAdvance_ok [OF p]
  have id: "rm_ID c = i" using schedules_inv_get [OF inv c(1)] by simp
  have rems: "mget (st_reminders s') i = Some u" and dels: "mget (st_reminderDelivery s') (rd_ID occ) = Some d"
    by (simp_all add: s' advance_store_def ok(9))
  have newer: "rm_UpdatedAt c < rm_UpdatedAt u" unfolding ok(3) by (rule nextRepositoryTime_after)
  have moved: "mget (st_reminders s') i = Some u \<and> rm_LastDeliveryID u = rd_ID occ \<and>
      (if next = 0 then rm_Status u = rd_Status occ else rm_Status u = ''pending'' \<and> rm_DueTime u = postgresTime next)"
    using rems ok(4,5,6) by simp
  have before: "\<exists>c. mget (st_reminders s) i = Some c \<and> rm_Status c = ''pending'' \<and> postgresTime t = rm_UpdatedAt c \<and>
      rm_UpdatedAt c < rm_UpdatedAt u \<and> (next \<noteq> 0 \<longrightarrow> rm_DueTime c < next)"
    using c newer ok(7) by auto
  have recorded: "\<exists>d. mget (st_reminderDelivery s') (rd_ID occ) = Some d \<and> rd_ID d = rd_ID occ \<and> rd_Status d = rd_Status occ \<and> rd_ReminderID d = i"
    using dels ok(8,9,13) id by simp
  have stale: "AdvanceWorkbenchSchedule open_ctx env' i t next' occ' s' =
      (Inl (storeError ''workbench_schedule.advance'' StoreErrorConflict ErrReminderConflict), s')" for env' next' occ'
    using rems newer c(3) by (simp add: AdvanceWorkbenchSchedule_def framed_def checked_def)
  have consumed: "AdvanceWorkbenchSchedule open_ctx env' j t' next' occ'' s'' =
      (Inl (storeError ''workbench_schedule.advance'' StoreErrorConflict ErrReminderConflict), s'')"
    if "schedule_step\<^sup>*\<^sup>* s' s''" "rd_ID occ'' = rd_ID occ" for s'' env' j t' next' occ''
  proof -
    have "mget (st_reminderDelivery s'') (rd_ID occ) \<noteq> None"
      using that(1) delivery_recorded_steps [of s' s''] dels by simp
    then show ?thesis
      using that(2) by (cases "mget (st_reminders s'') j") (simp_all add: AdvanceWorkbenchSchedule_def framed_def checked_def)
  qed
  show ?thesis using moved before recorded stale consumed by blast
qed

definition workbench_reminder :: Reminder where
  "workbench_reminder = sample_reminder\<lparr>rm_ScheduleSpec := Some \<lparr>ss_WorkbenchOwned = True, ss_SchemaVersion = 2, ss_OwnerID = [],
     ss_ActorID = [], ss_Payload = \<lparr>sp_Content = \<lparr>ct_Parts = []\<rparr>\<rparr>,
     ss_ReturnRoute = \<lparr>rr_Mode = [], rr_SourceEndpointID = [], rr_EndpointID = [], rr_SourceAdmitted = False\<rparr>,
     ss_Authorization = \<lparr>au_PrincipalID = [], au_Scope = []\<rparr>\<rparr>\<rparr>"

definition sample_occurrence :: ReminderDelivery where
  "sample_occurrence = \<lparr>rd_ID = ''occ1'', rd_ReminderID = ''rem1'', rd_Channel = [], rd_Provider = [], rd_Recipient = [],
     rd_Status = ''submitted'', rd_ProviderStatus = [], rd_Error = [], rd_RetryState = [], rd_Attempt = 0, rd_SentAt = 0,
     rd_CreatedAt = 0\<rparr>"

definition workbench_store :: MemoryStore where
  "workbench_store = snd (SaveReminder open_ctx sample_env workbench_reminder NewMemoryStore)"

lemma workbench_store_saved:
  "st_reminders workbench_store = [(''rem1'', workbench_reminder)]" "st_reminderDelivery workbench_store = []"
  "reach empty_store schedule_step workbench_store"
proof -
  have "TrimSpace ''rem1'' \<noteq> []" by code_simp
  then have p: "prepareReminder None workbench_reminder 5000 = workbench_reminder"
    by (simp add: prepareReminder_def workbench_reminder_def sample_reminder_def normalizeReminder_def normalizeScheduleTimePointer_def
        postgresTime_def Truncate_def Let_def)
  have sv: "SaveReminder open_ctx sample_env workbench_reminder NewMemoryStore = (Inr workbench_reminder, workbench_store)"
    by (simp add: workbench_store_def SaveReminder_def framed_def checked_def p sample_env_def Let_def)
  have i: "rm_ID workbench_reminder = ''rem1''" by (simp add: workbench_reminder_def sample_reminder_def)
  show "st_reminders workbench_store = [(''rem1'', workbench_reminder)]" "st_reminderDelivery workbench_store = []"
    by (simp_all add: workbench_store_def SaveReminder_def framed_def checked_def sample_env_def p record_reminder_def i Let_def)
  show "reach empty_store schedule_step workbench_store"
  proof (rule reach_step)
    show "reach empty_store schedule_step NewMemoryStore" by (rule reach_init) (rule empty_store_New)
    show "schedule_step NewMemoryStore workbench_store" by (rule step_save_reminder) (rule sv)
  qed
qed

lemma workbench_advance_once_witness:
  "\<exists>u s. mget (st_reminders s) ''rem1'' = Some u \<and> rm_DueTime u = 9000 \<and>
     AdvanceWorkbenchSchedule open_ctx sample_env ''rem1'' 1000 9000 sample_occurrence s =
       (Inl (storeError ''workbench_schedule.advance'' StoreErrorConflict ErrReminderConflict), s)"
proof -
  have t: "TrimSpace ''occ1'' \<noteq> []" by code_simp
  have "\<exists>u s. AdvanceWorkbenchSchedule open_ctx sample_env ''rem1'' 1000 9000 sample_occurrence workbench_store = (Inr u, s)"
    by (simp add: AdvanceWorkbenchSchedule_def framed_def checked_def workbench_store_saved prepareWorkbenchAdvance_def sample_occurrence_def
        workbench_reminder_def sample_reminder_def isWorkbenchReminder_def t postgresTime_def Truncate_def Let_def)
  then obtain u s where u: "AdvanceWorkbenchSchedule open_ctx sample_env ''rem1'' 1000 9000 sample_occurrence workbench_store = (Inr u, s)"
    by blast
  note w = workbench_advance_once [OF workbench_store_saved(3) u]
  then have "mget (st_reminders s) ''rem1'' = Some u" "rm_DueTime u = 9000" by (simp_all add: postgresTime_def Truncate_def)
  with w show ?thesis by blast
qed

end
