(* ===== verification/MCP_Repository_Operations.thy ===== *)
theory MCP_Repository_Operations
  imports Go_Maps Audit_Log JSON_Text
begin

text \<open>
  The repository of external agents, \<open>internal/store/mcp_access.go\<close>: access tickets, the bindings they are redeemed for and the
  operations agents start under a binding, with every operation of the memory store over them and the reconciliation of writes
  whose outcome is unknown. Clones are the identity on values. The theory \<open>MCP_Repository\<close> shows what the operations guarantee.
\<close>

abbreviation "ErrMCPAccessTicketInvalid \<equiv> Err ''MCP access ticket is invalid or unavailable''"
abbreviation "ErrMCPBindingUnavailable \<equiv> Err ''MCP binding is unavailable''"
abbreviation "ErrMCPOperationConflict \<equiv> Err ''MCP operation idempotency key was reused with a different request''"
abbreviation "ErrMCPOperationVersionConflict \<equiv> Err ''MCP operation changed''"

record MCPAccessRecordDeletion =
  rd_DeletedTickets :: int
  rd_DeletedBindings :: int

section \<open>Normal forms\<close>

abbreviation (input) mcpSessionDeviceIDLength :: nat where "mcpSessionDeviceIDLength \<equiv> 12"

definition session_id_rune :: "string \<Rightarrow> bool" where
  "session_id_rune r \<longleftrightarrow> (case r of [c] \<Rightarrow>
       (97 \<le> byte c \<and> byte c \<le> 122) \<or> (65 \<le> byte c \<and> byte c \<le> 90) \<or> (48 \<le> byte c \<and> byte c \<le> 57) \<or> c \<in> set ''-_.''
     | _ \<Rightarrow> False)"

text \<open>\<open>strings.Trim\<close> with a cutset of ASCII characters.\<close>

definition Trim :: "string \<Rightarrow> string \<Rightarrow> string" where
  "Trim s cutset = rev (dropWhile (\<lambda>c. c \<in> set cutset) (rev (dropWhile (\<lambda>c. c \<in> set cutset) s)))"

definition mcpSessionTitle :: "string \<Rightarrow> string" where
  "mcpSessionTitle deviceID =
     (let shortID = Trim (concat (take mcpSessionDeviceIDLength (filter session_id_rune (runes (TrimSpace deviceID))))) ''-_.''
      in if shortID = [] then ''AI'' else ''AI '' @ [CHR 0xC2, CHR 0xB7] @ '' '' @ shortID)"

definition normalizeMCPTime :: "gotime \<Rightarrow> gotime" where
  "normalizeMCPTime t = (if IsZero t then t else Truncate t 1000)"

definition normalizeMCPTimePointer :: "gotime option \<Rightarrow> gotime option" where
  "normalizeMCPTimePointer = map_option normalizeMCPTime"

definition normalizeMCPAccessTicket :: "8 word list option \<Rightarrow> MCPAccessTicket \<Rightarrow> gotime \<Rightarrow> MCPAccessTicket" where
  "normalizeMCPAccessTicket random t now =
     (let owner = (if ti_OwnerID t = [] then DefaultOwnerID else ti_OwnerID t)
      in t\<lparr>ti_ID := (if ti_ID t = [] then NewID random ''mcp_ticket'' else ti_ID t),
           ti_OwnerID := owner,
           ti_ActorID := (if ti_ActorID t = [] then owner else ti_ActorID t),
           ti_AuthorizationRevision := (if ti_AuthorizationRevision t \<le> 0 then 1 else ti_AuthorizationRevision t),
           ti_Status := (if ti_Status t = [] then MCPAccessPending else ti_Status t),
           ti_MaxUses := (if ti_MaxUses t \<le> 0 then 1 else ti_MaxUses t),
           ti_IssuedAt := (if IsZero (ti_IssuedAt t) then normalizeMCPTime now else normalizeMCPTime (ti_IssuedAt t)),
           ti_ExpiresAt := normalizeMCPTime (ti_ExpiresAt t),
           ti_ConsumedAt := normalizeMCPTimePointer (ti_ConsumedAt t),
           ti_RevokedAt := normalizeMCPTimePointer (ti_RevokedAt t)\<rparr>)"

definition normalizeMCPBinding :: "8 word list option \<Rightarrow> MCPBinding \<Rightarrow> gotime \<Rightarrow> MCPBinding" where
  "normalizeMCPBinding random b now =
     b\<lparr>bi_ID := (if bi_ID b = [] then NewID random ''mcp_binding'' else bi_ID b),
       bi_Status := (if bi_Status b = [] then MCPBindingActive else bi_Status b),
       bi_CreatedAt := (if IsZero (bi_CreatedAt b) then normalizeMCPTime now else normalizeMCPTime (bi_CreatedAt b)),
       bi_UpdatedAt := normalizeMCPTime now,
       bi_LastUsedAt := normalizeMCPTimePointer (bi_LastUsedAt b),
       bi_RevokedAt := normalizeMCPTimePointer (bi_RevokedAt b)\<rparr>"

definition normalize_invocation :: "MCPInvocationContext \<Rightarrow> MCPInvocationContext" where
  "normalize_invocation i =
     (let i = (if IsZero (in_Deadline i) then i else i\<lparr>in_Deadline := normalizeMCPTime (in_Deadline i)\<rparr>)
      in if IsZero (in_CreatedAt i) then i else i\<lparr>in_CreatedAt := normalizeMCPTime (in_CreatedAt i)\<rparr>)"

definition normalizeMCPOperation :: "8 word list option \<Rightarrow> MCPOperation \<Rightarrow> gotime \<Rightarrow> MCPOperation" where
  "normalizeMCPOperation random p now =
     p\<lparr>mo_SchemaVersion := (if mo_SchemaVersion p = 0 then MCPOperationSchemaVersion else mo_SchemaVersion p),
       mo_ID := (if mo_ID p = [] then NewID random ''mcp_operation'' else mo_ID p),
       mo_Version := (if mo_Version p \<le> 0 then 1 else mo_Version p),
       mo_State := (if mo_State p = [] then MCPOperationRunning else mo_State p),
       mo_CreatedAt := (if IsZero (mo_CreatedAt p) then normalizeMCPTime now else normalizeMCPTime (mo_CreatedAt p)),
       mo_UpdatedAt := normalizeMCPTime now,
       mo_CompletedAt := normalizeMCPTimePointer (mo_CompletedAt p),
       mo_Invocation := normalize_invocation (mo_Invocation p)\<rparr>"

section \<open>Comparing records by their JSON text\<close>

text \<open>
  \<open>mcpRecordsEqual\<close>: both records can be encoded and have the same JSON text. The text of a record determines its strings,
  numbers and instants, the normal form of a dynamic map, and the compacted bytes of a raw message with the characters that
  HTML gives a meaning escaped.
\<close>

fun html_escaped :: "string \<Rightarrow> string" where
  "html_escaped [] = []"
| "html_escaped (c # cs) =
     (if c = CHR ''<'' then CHR 0x5C # ''u003c'' @ html_escaped cs
      else if c = CHR ''>'' then CHR 0x5C # ''u003e'' @ html_escaped cs
      else if c = CHR ''&'' then CHR 0x5C # ''u0026'' @ html_escaped cs
      else if c = CHR 0xE2 \<and> prefix [CHR 0x80, CHR 0xA8] cs then CHR 0x5C # ''u2028'' @ html_escaped (drop 2 cs)
      else if c = CHR 0xE2 \<and> prefix [CHR 0x80, CHR 0xA9] cs then CHR 0x5C # ''u2029'' @ html_escaped (drop 2 cs)
      else c # html_escaped cs)"

definition raw_text :: "string \<Rightarrow> string option" where
  "raw_text raw = (if raw = [] then Some [] else map_option html_escaped (json_Compact raw))"

definition time_option_ok :: "gotime option \<Rightarrow> bool" where
  "time_option_ok t = (case t of None \<Rightarrow> True | Some t \<Rightarrow> json_time_ok t)"

definition ticket_ok :: "MCPAccessTicket \<Rightarrow> bool" where
  "ticket_ok t \<longleftrightarrow> json_time_ok (ti_IssuedAt t) \<and> json_time_ok (ti_ExpiresAt t) \<and> time_option_ok (ti_ConsumedAt t) \<and>
     time_option_ok (ti_RevokedAt t)"

definition binding_ok :: "MCPBinding \<Rightarrow> bool" where
  "binding_ok b \<longleftrightarrow> json_time_ok (bi_CreatedAt b) \<and> json_time_ok (bi_UpdatedAt b) \<and> time_option_ok (bi_LastUsedAt b) \<and>
     time_option_ok (bi_RevokedAt b)"

definition invocation_ok :: "MCPInvocationContext \<Rightarrow> bool" where
  "invocation_ok i \<longleftrightarrow> map_ok (in_Arguments i) \<and> json_time_ok (in_Deadline i) \<and> json_time_ok (in_CreatedAt i)"

definition operation_ok :: "MCPOperation \<Rightarrow> bool" where
  "operation_ok p \<longleftrightarrow> invocation_ok (mo_Invocation p) \<and> raw_text (mo_Result p) \<noteq> None \<and> json_time_ok (mo_CreatedAt p) \<and>
     json_time_ok (mo_UpdatedAt p) \<and> time_option_ok (mo_CompletedAt p)"

definition invocation_norm :: "MCPInvocationContext \<Rightarrow> MCPInvocationContext" where
  "invocation_norm i = i\<lparr>in_Arguments := map_norm (in_Arguments i)\<rparr>"

definition operation_norm :: "MCPOperation \<Rightarrow> MCPOperation" where
  "operation_norm p = p\<lparr>mo_Invocation := invocation_norm (mo_Invocation p),
     mo_Result := (case raw_text (mo_Result p) of None \<Rightarrow> mo_Result p | Some t \<Rightarrow> t)\<rparr>"

definition mcpRecordsEqual :: "('r \<Rightarrow> bool) \<Rightarrow> ('r \<Rightarrow> 'r) \<Rightarrow> 'r \<Rightarrow> 'r \<Rightarrow> bool" where
  "mcpRecordsEqual ok canon left right \<longleftrightarrow> ok left \<and> ok right \<and> canon left = canon right"

abbreviation ticketsEqual :: "MCPAccessTicket \<Rightarrow> MCPAccessTicket \<Rightarrow> bool" where
  "ticketsEqual \<equiv> mcpRecordsEqual ticket_ok id"

abbreviation bindingsEqual :: "MCPBinding \<Rightarrow> MCPBinding \<Rightarrow> bool" where
  "bindingsEqual \<equiv> mcpRecordsEqual binding_ok id"

abbreviation invocationsEqual :: "MCPInvocationContext \<Rightarrow> MCPInvocationContext \<Rightarrow> bool" where
  "invocationsEqual \<equiv> mcpRecordsEqual invocation_ok invocation_norm"

abbreviation operationsEqual :: "MCPOperation \<Rightarrow> MCPOperation \<Rightarrow> bool" where
  "operationsEqual \<equiv> mcpRecordsEqual operation_ok operation_norm"

section \<open>Access tickets\<close>

definition SaveMCPAccessTicket :: "op_ctx \<Rightarrow> op_env \<Rightarrow> MCPAccessTicket \<Rightarrow> MemoryStore \<Rightarrow> MCPAccessTicket outcome" where
  "SaveMCPAccessTicket cx env ticket = framed ''mcp_access_ticket.save'' cx (\<lambda>s.
     let t = normalizeMCPAccessTicket (en_rand env) ticket (en_now env)
     in if ti_SchemaVersion t \<noteq> MCPAccessTicketSchemaVersion \<or> ti_Scope t \<noteq> MCPAccessConversation
        then (Inl (storeError ''mcp_access_ticket.save'' StoreErrorInvalid ErrMCPAccessTicketInvalid), s)
        else if \<exists>(i, existing) \<in> set (st_mcpAccessTickets s). i \<noteq> ti_ID t \<and> ti_SecretHash existing = ti_SecretHash t
        then (Inl (storeError ''mcp_access_ticket.save'' StoreErrorConflict ErrMCPAccessTicketInvalid), s)
        else (Inr t, s\<lparr>st_mcpAccessTickets := mput (ti_ID t) t (st_mcpAccessTickets s)\<rparr>))"

definition GetMCPAccessTicket :: "op_ctx \<Rightarrow> string \<Rightarrow> MemoryStore \<Rightarrow> MCPAccessTicket option outcome" where
  "GetMCPAccessTicket cx i = framed ''mcp_access_ticket.get'' cx (\<lambda>s. (Inr (mget (st_mcpAccessTickets s) i), s))"

definition FindMCPAccessTicketBySecretHash :: "op_ctx \<Rightarrow> string \<Rightarrow> MemoryStore \<Rightarrow> MCPAccessTicket option outcome" where
  "FindMCPAccessTicketBySecretHash cx secretHash = framed ''mcp_access_ticket.find_secret_hash'' cx (\<lambda>s.
     (Inr (find (\<lambda>t. ti_SecretHash t = secretHash) (mvals (st_mcpAccessTickets s))), s))"

definition ticket_cmp :: "MCPAccessTicket \<Rightarrow> MCPAccessTicket \<Rightarrow> int" where
  "ticket_cmp a b = (let order = time_cmp (ti_IssuedAt b) (ti_IssuedAt a)
     in if order \<noteq> 0 then order else str_cmp (ti_ID a) (ti_ID b))"

definition ListMCPAccessTickets :: "op_ctx \<Rightarrow> string \<Rightarrow> MemoryStore \<Rightarrow> MCPAccessTicket list outcome" where
  "ListMCPAccessTickets cx ownerID = framed ''mcp_access_ticket.list'' cx (\<lambda>s.
     (Inr (SortFunc ticket_cmp (filter (\<lambda>t. ownerID = [] \<or> ti_OwnerID t = ownerID) (mvals (st_mcpAccessTickets s)))), s))"

definition redeemable :: "string \<Rightarrow> MCPPeerIdentity \<Rightarrow> gotime \<Rightarrow> MCPAccessTicket \<Rightarrow> bool" where
  "redeemable secretHash peer now t \<longleftrightarrow>
     \<not> (ti_SecretHash t \<noteq> secretHash \<or> ti_Status t \<noteq> MCPAccessPending \<or> ti_UseCount t \<ge> ti_MaxUses t \<or>
        ti_DomainID t \<noteq> pi_DomainID peer \<or> \<not> now < ti_ExpiresAt t \<or>
        ti_SchemaVersion t \<noteq> MCPAccessTicketSchemaVersion \<or> ti_Scope t \<noteq> MCPAccessConversation)"

definition active_for :: "string \<Rightarrow> string \<Rightarrow> string \<Rightarrow> MCPBinding \<Rightarrow> bool" where
  "active_for domain device thumbprint b \<longleftrightarrow> bi_Status b = MCPBindingActive \<and> bi_DomainID b = domain \<and>
     bi_RequesterDeviceID b = device \<and> bi_RequesterKeyThumbprint b = thumbprint"

text \<open>The binding a ticket is redeemed for, with the hidden session it is linked to.\<close>

definition redeemed_binding :: "8 word list option \<Rightarrow> MCPAccessTicket \<Rightarrow> MCPPeerIdentity \<Rightarrow> gotime \<Rightarrow> MCPBinding" where
  "redeemed_binding random t peer now =
     (let b = normalizeMCPBinding random
        \<lparr>bi_SchemaVersion = MCPBindingSchemaVersion, bi_ID = NewID random ''mcp_binding'', bi_OwnerID = ti_OwnerID t,
         bi_ActorID = ti_ActorID t, bi_DomainID = ti_DomainID t, bi_RequesterDeviceID = pi_DeviceID peer,
         bi_RequesterKeyThumbprint = pi_KeyThumbprint peer, bi_AuthorizationRevision = ti_AuthorizationRevision t,
         bi_Scope = ti_Scope t, bi_Status = [], bi_LinkedSessionID = [], bi_LatestISCPSessionID = pi_ISCPSessionID peer,
         bi_CreatedAt = 0, bi_UpdatedAt = 0, bi_LastUsedAt = None, bi_RevokedAt = None\<rparr> now
      in b\<lparr>bi_LinkedSessionID := ''s_'' @ bi_ID b\<rparr>)"

definition linked_session :: "MCPBinding \<Rightarrow> gotime \<Rightarrow> Session" where
  "linked_session b at' = \<lparr>se_ID = bi_LinkedSessionID b, se_OwnerID = bi_OwnerID b, se_WorkspaceRoot = [],
     se_Title = mcpSessionTitle (bi_RequesterDeviceID b), se_Source = ''mcp'', se_Hidden = True,
     se_CreatedAt = at', se_UpdatedAt = at'\<rparr>"

definition redeem_store :: "op_env \<Rightarrow> string \<Rightarrow> MCPAccessTicket \<Rightarrow> MCPPeerIdentity \<Rightarrow> gotime \<Rightarrow> MemoryStore \<Rightarrow> MemoryStore" where
  "redeem_store env i t peer now s =
     (let b = redeemed_binding (en_rand env) t peer now; at' = normalizeSessionTime now
      in s\<lparr>st_mcpAccessTickets := mput i (t\<lparr>ti_Status := MCPAccessConsumed, ti_UseCount := wrap64 (ti_UseCount t + 1),
             ti_ConsumedAt := Some now\<rparr>) (st_mcpAccessTickets s),
           st_sessions := mput (bi_LinkedSessionID b) (linked_session b at') (st_sessions s),
           st_sessionWriteHighWater := mput (bi_LinkedSessionID b) at' (st_sessionWriteHighWater s),
           st_mcpBindings := mput (bi_ID b) b (st_mcpBindings s)\<rparr>)"

definition RedeemMCPAccessTicket ::
  "op_ctx \<Rightarrow> op_env \<Rightarrow> string \<Rightarrow> MCPPeerIdentity \<Rightarrow> gotime \<Rightarrow> MemoryStore \<Rightarrow> MCPBinding outcome" where
  "RedeemMCPAccessTicket cx env secretHash peer now = framed ''mcp_access_ticket.redeem'' cx (\<lambda>s.
     let now = normalizeMCPTime now
     in (case find (\<lambda>(_, t). redeemable (TrimSpace secretHash) peer now t) (st_mcpAccessTickets s) of
           None \<Rightarrow> (Inl (storeError ''mcp_access_ticket.redeem'' StoreErrorInvalid ErrMCPAccessTicketInvalid), s)
         | Some (i, t) \<Rightarrow>
             if \<exists>b \<in> set (mvals (st_mcpBindings s)). active_for (pi_DomainID peer) (pi_DeviceID peer) (pi_KeyThumbprint peer) b
             then (Inl (storeError ''mcp_access_ticket.redeem'' StoreErrorConflict ErrMCPAccessTicketInvalid), s)
             else (Inr (redeemed_binding (en_rand env) t peer now), redeem_store env i t peer now s)))"

definition RevokeMCPAccessTicket :: "op_ctx \<Rightarrow> string \<Rightarrow> gotime \<Rightarrow> MemoryStore \<Rightarrow> MCPAccessTicket outcome" where
  "RevokeMCPAccessTicket cx i now = framed ''mcp_access_ticket.revoke'' cx (\<lambda>s.
     (case mget (st_mcpAccessTickets s) i of
        Some t \<Rightarrow>
          if ti_Status t \<noteq> MCPAccessPending
          then (Inl (storeError ''mcp_access_ticket.revoke'' StoreErrorConflict ErrMCPAccessTicketInvalid), s)
          else let t = t\<lparr>ti_Status := MCPAccessRevoked, ti_RevokedAt := Some (normalizeMCPTime now)\<rparr>
               in (Inr t, s\<lparr>st_mcpAccessTickets := mput i t (st_mcpAccessTickets s)\<rparr>)
      | None \<Rightarrow> (Inl (storeError ''mcp_access_ticket.revoke'' StoreErrorConflict ErrMCPAccessTicketInvalid), s)))"

definition DeleteMCPAccessTicket :: "op_ctx \<Rightarrow> string \<Rightarrow> string \<Rightarrow> MemoryStore \<Rightarrow> MCPAccessTicket outcome" where
  "DeleteMCPAccessTicket cx ownerID i = framed ''mcp_access_ticket.delete'' cx (\<lambda>s.
     (case mget (st_mcpAccessTickets s) i of
        Some t \<Rightarrow>
          if ti_OwnerID t \<noteq> ownerID
          then (Inl (storeError ''mcp_access_ticket.delete'' StoreErrorNotFound ErrMCPAccessTicketInvalid), s)
          else (Inr t, s\<lparr>st_mcpAccessTickets := mdel i (st_mcpAccessTickets s)\<rparr>)
      | None \<Rightarrow> (Inl (storeError ''mcp_access_ticket.delete'' StoreErrorNotFound ErrMCPAccessTicketInvalid), s)))"

section \<open>Bindings\<close>

definition mcpOperationTerminal :: "string \<Rightarrow> bool" where
  "mcpOperationTerminal state \<longleftrightarrow> state = MCPOperationSucceeded \<or> state = MCPOperationFailed \<or> state = MCPOperationCancelled \<or>
     state = MCPOperationRevoked"

definition GetMCPBinding :: "op_ctx \<Rightarrow> string \<Rightarrow> MemoryStore \<Rightarrow> MCPBinding option outcome" where
  "GetMCPBinding cx i = framed ''mcp_binding.get'' cx (\<lambda>s. (Inr (mget (st_mcpBindings s) i), s))"

definition FindMCPBindingForPeer :: "op_ctx \<Rightarrow> string \<Rightarrow> string \<Rightarrow> string \<Rightarrow> MemoryStore \<Rightarrow> MCPBinding option outcome" where
  "FindMCPBindingForPeer cx domainID deviceID thumbprint = framed ''mcp_binding.find_peer'' cx (\<lambda>s.
     (Inr (find (active_for domainID deviceID thumbprint) (mvals (st_mcpBindings s))), s))"

definition binding_cmp :: "MCPBinding \<Rightarrow> MCPBinding \<Rightarrow> int" where
  "binding_cmp a b = (let order = time_cmp (bi_UpdatedAt b) (bi_UpdatedAt a)
     in if order \<noteq> 0 then order else str_cmp (bi_ID a) (bi_ID b))"

definition ListMCPBindings :: "op_ctx \<Rightarrow> string \<Rightarrow> MemoryStore \<Rightarrow> MCPBinding list outcome" where
  "ListMCPBindings cx ownerID = framed ''mcp_binding.list'' cx (\<lambda>s.
     (Inr (SortFunc binding_cmp (filter (\<lambda>b. ownerID = [] \<or> bi_OwnerID b = ownerID) (mvals (st_mcpBindings s)))), s))"

text \<open>What the revocation of binding \<open>i\<close> makes of an operation.\<close>

definition revoke_operation :: "string \<Rightarrow> gotime \<Rightarrow> MCPOperation \<Rightarrow> MCPOperation" where
  "revoke_operation i now p =
     (if mo_BindingID p \<noteq> i \<or> mcpOperationTerminal (mo_State p) then p
      else p\<lparr>mo_State := MCPOperationRevoked, mo_ErrorCode := ''binding_revoked'',
             mo_ErrorMessage := ''The MCP binding was revoked by the local owner'', mo_CompletedAt := Some now,
             mo_Version := wrap64 (mo_Version p + 1), mo_UpdatedAt := now\<rparr>)"

definition revoked_binding :: "MCPBinding \<Rightarrow> gotime \<Rightarrow> MCPBinding" where
  "revoked_binding b now =
     (if bi_Status b \<noteq> MCPBindingRevoked
      then b\<lparr>bi_Status := MCPBindingRevoked, bi_RevokedAt := Some now, bi_UpdatedAt := now\<rparr> else b)"

definition RevokeMCPBinding :: "op_ctx \<Rightarrow> string \<Rightarrow> gotime \<Rightarrow> MemoryStore \<Rightarrow> MCPBinding outcome" where
  "RevokeMCPBinding cx i now = framed ''mcp_binding.revoke'' cx (\<lambda>s.
     (case mget (st_mcpBindings s) i of
        None \<Rightarrow> (Inl (storeError ''mcp_binding.revoke'' StoreErrorNotFound ErrMCPBindingUnavailable), s)
      | Some b \<Rightarrow>
          let now = normalizeMCPTime now; r = revoked_binding b now
          in (Inr r, s\<lparr>st_mcpBindings := (if bi_Status b \<noteq> MCPBindingRevoked then mput i r (st_mcpBindings s) else st_mcpBindings s),
                st_mcpOperations := mrewrite (revoke_operation i now) (st_mcpOperations s)\<rparr>)))"

definition DeleteMCPBinding :: "op_ctx \<Rightarrow> string \<Rightarrow> string \<Rightarrow> MemoryStore \<Rightarrow> MCPBinding outcome" where
  "DeleteMCPBinding cx ownerID i = framed ''mcp_binding.delete'' cx (\<lambda>s.
     (case mget (st_mcpBindings s) i of
        Some b \<Rightarrow>
          if bi_OwnerID b \<noteq> ownerID
          then (Inl (storeError ''mcp_binding.delete'' StoreErrorNotFound ErrMCPBindingUnavailable), s)
          else (Inr b, s\<lparr>st_mcpBindings := mdel i (st_mcpBindings s),
             st_mcpOperations := mretain (\<lambda>p. mo_BindingID p \<noteq> i) (st_mcpOperations s)\<rparr>)
      | None \<Rightarrow> (Inl (storeError ''mcp_binding.delete'' StoreErrorNotFound ErrMCPBindingUnavailable), s)))"

definition DeleteMCPAccessRecords :: "op_ctx \<Rightarrow> string \<Rightarrow> MemoryStore \<Rightarrow> MCPAccessRecordDeletion outcome" where
  "DeleteMCPAccessRecords cx ownerID = framed ''mcp_access_records.delete'' cx (\<lambda>s.
     let tickets = mretain (\<lambda>t. ti_OwnerID t = ownerID) (st_mcpAccessTickets s);
         bindings = mretain (\<lambda>b. bi_OwnerID b = ownerID) (st_mcpBindings s)
     in (Inr \<lparr>rd_DeletedTickets = int (length tickets), rd_DeletedBindings = int (length bindings)\<rparr>,
         s\<lparr>st_mcpAccessTickets := mretain (\<lambda>t. ti_OwnerID t \<noteq> ownerID) (st_mcpAccessTickets s),
           st_mcpBindings := mretain (\<lambda>b. bi_OwnerID b \<noteq> ownerID) (st_mcpBindings s),
           st_mcpOperations := mretain (\<lambda>p. mo_BindingID p \<notin> set (mkeys bindings)) (st_mcpOperations s)\<rparr>))"

definition TouchMCPBinding :: "op_ctx \<Rightarrow> string \<Rightarrow> string \<Rightarrow> gotime \<Rightarrow> MemoryStore \<Rightarrow> unit outcome" where
  "TouchMCPBinding cx i iscpSessionID now = framed ''mcp_binding.touch'' cx (\<lambda>s.
     (case mget (st_mcpBindings s) i of
        Some b \<Rightarrow>
          if bi_Status b \<noteq> MCPBindingActive
          then (Inl (storeError ''mcp_binding.touch'' StoreErrorConflict ErrMCPBindingUnavailable), s)
          else let now = normalizeMCPTime now
               in (Inr (), s\<lparr>st_mcpBindings := mput i (b\<lparr>bi_LatestISCPSessionID := iscpSessionID, bi_LastUsedAt := Some now,
                    bi_UpdatedAt := now\<rparr>) (st_mcpBindings s)\<rparr>)
      | None \<Rightarrow> (Inl (storeError ''mcp_binding.touch'' StoreErrorConflict ErrMCPBindingUnavailable), s)))"

section \<open>Operations of agents\<close>

definition mcpOperationIdentityEqual :: "MCPOperation \<Rightarrow> MCPOperation \<Rightarrow> bool" where
  "mcpOperationIdentityEqual existing candidate \<longleftrightarrow>
     mo_ID existing = mo_ID candidate \<and> mo_SchemaVersion existing = mo_SchemaVersion candidate \<and>
     mo_BindingID existing = mo_BindingID candidate \<and> mo_IdempotencyKey existing = mo_IdempotencyKey candidate \<and>
     mo_Fingerprint existing = mo_Fingerprint candidate \<and> invocationsEqual (mo_Invocation existing) (mo_Invocation candidate)"

text \<open>The operation of a binding with an idempotency key, in the order of the iteration.\<close>

definition operation_with :: "string \<Rightarrow> string \<Rightarrow> MemoryStore \<Rightarrow> MCPOperation option" where
  "operation_with bindingID key s =
     find (\<lambda>p. mo_BindingID p = bindingID \<and> mo_IdempotencyKey p = key) (mvals (st_mcpOperations s))"

definition CreateMCPOperation :: "op_ctx \<Rightarrow> op_env \<Rightarrow> MCPOperation \<Rightarrow> MemoryStore \<Rightarrow> (MCPOperation \<times> bool) outcome" where
  "CreateMCPOperation cx env operation = framed ''mcp_operation.create'' cx (\<lambda>s.
     (case operation_with (mo_BindingID operation) (mo_IdempotencyKey operation) s of
        Some existing \<Rightarrow>
          if mo_Fingerprint existing \<noteq> mo_Fingerprint operation
          then (Inl (storeError ''mcp_operation.create'' StoreErrorConflict ErrMCPOperationConflict), s)
          else (Inr (existing, False), s)
      | None \<Rightarrow>
          let p = normalizeMCPOperation (en_rand env) operation (en_now env)
          in if mget (st_mcpOperations s) (mo_ID p) \<noteq> None
             then (Inl (storeError ''mcp_operation.create'' StoreErrorConflict ErrMCPOperationConflict), s)
             else (Inr (p, True), s\<lparr>st_mcpOperations := mput (mo_ID p) p (st_mcpOperations s)\<rparr>)))"

definition GetMCPOperation :: "op_ctx \<Rightarrow> string \<Rightarrow> MemoryStore \<Rightarrow> MCPOperation option outcome" where
  "GetMCPOperation cx i = framed ''mcp_operation.get'' cx (\<lambda>s. (Inr (mget (st_mcpOperations s) i), s))"

definition FindMCPOperationByIdempotency :: "op_ctx \<Rightarrow> string \<Rightarrow> string \<Rightarrow> MemoryStore \<Rightarrow> MCPOperation option outcome" where
  "FindMCPOperationByIdempotency cx bindingID key = framed ''mcp_operation.find_idempotency'' cx (\<lambda>s.
     (Inr (operation_with bindingID key s), s))"

definition operation_cmp :: "MCPOperation \<Rightarrow> MCPOperation \<Rightarrow> int" where
  "operation_cmp a b = (let order = time_cmp (mo_UpdatedAt b) (mo_UpdatedAt a)
     in if order \<noteq> 0 then order else str_cmp (mo_ID a) (mo_ID b))"

definition ListMCPOperations :: "op_ctx \<Rightarrow> string \<Rightarrow> MemoryStore \<Rightarrow> MCPOperation list outcome" where
  "ListMCPOperations cx bindingID = framed ''mcp_operation.list'' cx (\<lambda>s.
     (Inr (SortFunc operation_cmp (filter (\<lambda>p. bindingID = [] \<or> mo_BindingID p = bindingID) (mvals (st_mcpOperations s)))), s))"

definition UpdateMCPOperation :: "op_ctx \<Rightarrow> op_env \<Rightarrow> MCPOperation \<Rightarrow> int \<Rightarrow> MemoryStore \<Rightarrow> MCPOperation outcome" where
  "UpdateMCPOperation cx env operation expectedVersion = framed ''mcp_operation.update'' cx (\<lambda>s.
     (case mget (st_mcpOperations s) (mo_ID operation) of
        None \<Rightarrow> (Inl (storeError ''mcp_operation.update'' StoreErrorNotFound (Err ''MCP operation not found'')), s)
      | Some existing \<Rightarrow>
          if mo_Version existing \<noteq> expectedVersion
          then (Inl (storeError ''mcp_operation.update'' StoreErrorConflict ErrMCPOperationVersionConflict), s)
          else if \<not> mcpOperationIdentityEqual existing operation
          then (Inl (storeError ''mcp_operation.update'' StoreErrorConflict ErrMCPOperationConflict), s)
          else let p = operation\<lparr>mo_Version := wrap64 (expectedVersion + 1), mo_CreatedAt := mo_CreatedAt existing,
                     mo_UpdatedAt := normalizeMCPTime (en_now env), mo_CompletedAt := normalizeMCPTimePointer (mo_CompletedAt operation)\<rparr>
               in (Inr p, s\<lparr>st_mcpOperations := mput (mo_ID p) p (st_mcpOperations s)\<rparr>)))"

section \<open>Reconciling writes\<close>

text \<open>A write whose outcome is unknown is looked up again. A reconciliation that reads twice reads two states of the store,
  since other operations may run in between.\<close>

definition reconcilable :: "go_error \<Rightarrow> string list \<Rightarrow> bool" where
  "reconcilable e ids \<longleftrightarrow> \<not> (StoreErrorCodeOf e \<noteq> StoreErrorUnknownOutcome \<or> (\<exists>i \<in> set ids. TrimSpace i = []))"

definition ReconcileMCPAccessTicketWrite ::
  "op_ctx \<Rightarrow> MemoryStore \<Rightarrow> MemoryStore \<Rightarrow> MCPAccessTicket \<Rightarrow> go_error option \<Rightarrow> go_error + MCPAccessTicket" where
  "ReconcileMCPAccessTicketWrite cx s1 s2 candidate writeErr = (case writeErr of
     None \<Rightarrow> Inr candidate
   | Some e \<Rightarrow>
       if \<not> reconcilable e [ti_ID candidate, ti_SecretHash candidate] then Inl e
       else (case fst (GetMCPAccessTicket cx (ti_ID candidate) s1) of
           Inl err \<Rightarrow> Inl (Joined [e, err])
         | Inr None \<Rightarrow> Inl e
         | Inr (Some current) \<Rightarrow>
             if \<not> ticketsEqual current candidate then Inl e
             else (case fst (FindMCPAccessTicketBySecretHash cx (ti_SecretHash candidate) s2) of
                 Inl err \<Rightarrow> Inl (Joined [e, err])
               | Inr None \<Rightarrow> Inl e
               | Inr (Some byHash) \<Rightarrow>
                   if ti_ID byHash = ti_ID candidate \<and> ticketsEqual byHash candidate then Inr current else Inl e)))"

definition ReconcileMCPAccessTicketRevoke ::
  "op_ctx \<Rightarrow> MemoryStore \<Rightarrow> MCPAccessTicket \<Rightarrow> go_error option \<Rightarrow> go_error + MCPAccessTicket" where
  "ReconcileMCPAccessTicketRevoke cx s candidate writeErr = (case writeErr of
     None \<Rightarrow> Inr candidate
   | Some e \<Rightarrow>
       if \<not> reconcilable e [ti_ID candidate] \<or> ti_Status candidate \<noteq> MCPAccessRevoked then Inl e
       else (case fst (GetMCPAccessTicket cx (ti_ID candidate) s) of
           Inl err \<Rightarrow> Inl (Joined [e, err])
         | Inr None \<Rightarrow> Inl e
         | Inr (Some current) \<Rightarrow> if ticketsEqual current candidate then Inr current else Inl e))"

definition ReconcileMCPAccessTicketDelete ::
  "op_ctx \<Rightarrow> MemoryStore \<Rightarrow> MCPAccessTicket \<Rightarrow> go_error option \<Rightarrow> go_error + MCPAccessTicket" where
  "ReconcileMCPAccessTicketDelete cx s candidate writeErr = (case writeErr of
     None \<Rightarrow> Inr candidate
   | Some e \<Rightarrow>
       if \<not> reconcilable e [ti_ID candidate] then Inl e
       else (case fst (GetMCPAccessTicket cx (ti_ID candidate) s) of
           Inl err \<Rightarrow> Inl (Joined [e, err])
         | Inr None \<Rightarrow> Inr candidate
         | Inr (Some _) \<Rightarrow> Inl e))"

definition ReconcileMCPAccessTicketRedemption ::
  "op_ctx \<Rightarrow> MemoryStore \<Rightarrow> MemoryStore \<Rightarrow> string \<Rightarrow> string \<Rightarrow> MCPPeerIdentity \<Rightarrow> MCPBinding \<Rightarrow> go_error option \<Rightarrow>
   go_error + MCPBinding" where
  "ReconcileMCPAccessTicketRedemption cx s1 s2 ticketID secretHash peer candidate writeErr = (case writeErr of
     None \<Rightarrow> Inr candidate
   | Some e \<Rightarrow>
       if \<not> reconcilable e [ticketID, secretHash, bi_ID candidate] then Inl e
       else (case fst (FindMCPBindingForPeer cx (pi_DomainID peer) (pi_DeviceID peer) (pi_KeyThumbprint peer) s1) of
           Inl err \<Rightarrow> Inl (Joined [e, err])
         | Inr None \<Rightarrow> Inl e
         | Inr (Some current) \<Rightarrow>
             if \<not> bindingsEqual current candidate then Inl e
             else (case fst (FindMCPAccessTicketBySecretHash cx secretHash s2) of
                 Inl err \<Rightarrow> Inl (Joined [e, err])
               | Inr None \<Rightarrow> Inl e
               | Inr (Some t) \<Rightarrow>
                   if ti_ID t = ticketID \<and> ti_Status t = MCPAccessConsumed \<and> ti_UseCount t > 0 \<and> ti_ConsumedAt t \<noteq> None
                   then Inr current else Inl e)))"

definition ReconcileMCPBindingRevoke ::
  "op_ctx \<Rightarrow> MemoryStore \<Rightarrow> MemoryStore \<Rightarrow> MCPBinding \<Rightarrow> go_error option \<Rightarrow> go_error + MCPBinding" where
  "ReconcileMCPBindingRevoke cx s1 s2 candidate writeErr = (case writeErr of
     None \<Rightarrow> Inr candidate
   | Some e \<Rightarrow>
       if \<not> reconcilable e [bi_ID candidate] \<or> bi_Status candidate \<noteq> MCPBindingRevoked then Inl e
       else (case fst (GetMCPBinding cx (bi_ID candidate) s1) of
           Inl err \<Rightarrow> Inl (Joined [e, err])
         | Inr None \<Rightarrow> Inl e
         | Inr (Some current) \<Rightarrow>
             if \<not> bindingsEqual current candidate then Inl e
             else (case fst (ListMCPOperations cx (bi_ID candidate) s2) of
                 Inl err \<Rightarrow> Inl (Joined [e, err])
               | Inr operations \<Rightarrow> if list_all (\<lambda>p. mcpOperationTerminal (mo_State p)) operations then Inr current else Inl e)))"

definition ReconcileMCPBindingDelete ::
  "op_ctx \<Rightarrow> MemoryStore \<Rightarrow> MemoryStore \<Rightarrow> MCPBinding \<Rightarrow> go_error option \<Rightarrow> go_error + MCPBinding" where
  "ReconcileMCPBindingDelete cx s1 s2 candidate writeErr = (case writeErr of
     None \<Rightarrow> Inr candidate
   | Some e \<Rightarrow>
       if \<not> reconcilable e [bi_ID candidate] then Inl e
       else (case fst (GetMCPBinding cx (bi_ID candidate) s1) of
           Inl err \<Rightarrow> Inl (Joined [e, err])
         | Inr (Some _) \<Rightarrow> Inl e
         | Inr None \<Rightarrow>
             (case fst (ListMCPOperations cx (bi_ID candidate) s2) of
                 Inl err \<Rightarrow> Inl (Joined [e, err])
               | Inr operations \<Rightarrow> if operations = [] then Inr candidate else Inl e)))"

definition ReconcileMCPAccessRecordDeletion ::
  "op_ctx \<Rightarrow> MemoryStore \<Rightarrow> MemoryStore \<Rightarrow> string \<Rightarrow> MCPAccessRecordDeletion \<Rightarrow> go_error option \<Rightarrow>
   go_error + MCPAccessRecordDeletion" where
  "ReconcileMCPAccessRecordDeletion cx s1 s2 ownerID candidate writeErr = (case writeErr of
     None \<Rightarrow> Inr candidate
   | Some e \<Rightarrow>
       if \<not> reconcilable e [ownerID] then Inl e
       else (case fst (ListMCPAccessTickets cx ownerID s1) of
           Inl err \<Rightarrow> Inl (Joined [e, err])
         | Inr tickets \<Rightarrow>
             (case fst (ListMCPBindings cx ownerID s2) of
                 Inl err \<Rightarrow> Inl (Joined [e, err])
               | Inr bindings \<Rightarrow> if tickets = [] \<and> bindings = [] then Inr candidate else Inl e)))"

definition touched_binding :: "MCPBinding \<Rightarrow> string \<Rightarrow> gotime \<Rightarrow> MCPBinding" where
  "touched_binding previous iscpSessionID touchedAt = previous\<lparr>bi_LatestISCPSessionID := iscpSessionID,
     bi_LastUsedAt := Some (normalizeMCPTime touchedAt), bi_UpdatedAt := normalizeMCPTime touchedAt\<rparr>"

definition ReconcileMCPBindingTouch ::
  "op_ctx \<Rightarrow> MemoryStore \<Rightarrow> MCPBinding \<Rightarrow> string \<Rightarrow> gotime \<Rightarrow> go_error option \<Rightarrow> go_error + MCPBinding" where
  "ReconcileMCPBindingTouch cx s previous iscpSessionID touchedAt writeErr =
     (let candidate = touched_binding previous iscpSessionID touchedAt
      in case writeErr of
           None \<Rightarrow> Inr candidate
         | Some e \<Rightarrow>
             if \<not> reconcilable e [bi_ID candidate] then Inl e
             else (case fst (GetMCPBinding cx (bi_ID candidate) s) of
                 Inl err \<Rightarrow> Inl (Joined [e, err])
               | Inr None \<Rightarrow> Inl e
               | Inr (Some current) \<Rightarrow> if bindingsEqual current candidate then Inr current else Inl e))"

definition ReconcileMCPOperationCreate ::
  "op_ctx \<Rightarrow> MemoryStore \<Rightarrow> MCPOperation \<Rightarrow> bool \<Rightarrow> go_error option \<Rightarrow> go_error + MCPOperation \<times> bool" where
  "ReconcileMCPOperationCreate cx s candidate created writeErr = (case writeErr of
     None \<Rightarrow> Inr (candidate, created)
   | Some e \<Rightarrow>
       if \<not> reconcilable e [mo_BindingID candidate, mo_IdempotencyKey candidate] then Inl e
       else (case fst (FindMCPOperationByIdempotency cx (mo_BindingID candidate) (mo_IdempotencyKey candidate) s) of
           Inl err \<Rightarrow> Inl (Joined [e, err])
         | Inr None \<Rightarrow> Inl e
         | Inr (Some current) \<Rightarrow> if operationsEqual current candidate then Inr (current, created) else Inl e))"

definition ReconcileMCPOperationUpdate ::
  "op_ctx \<Rightarrow> MemoryStore \<Rightarrow> MCPOperation \<Rightarrow> go_error option \<Rightarrow> go_error + MCPOperation" where
  "ReconcileMCPOperationUpdate cx s candidate writeErr = (case writeErr of
     None \<Rightarrow> Inr candidate
   | Some e \<Rightarrow>
       if \<not> reconcilable e [mo_ID candidate] \<or> mo_Version candidate \<le> 0 then Inl e
       else (case fst (GetMCPOperation cx (mo_ID candidate) s) of
           Inl err \<Rightarrow> Inl (Joined [e, err])
         | Inr None \<Rightarrow> Inl e
         | Inr (Some current) \<Rightarrow>
             if mo_Version current = mo_Version candidate \<and> operationsEqual current candidate then Inr current else Inl e))"

end
