(* ===== verification/MCP_Repository.thy ===== *)
theory MCP_Repository
  imports MCP_Repository_Operations Deliveries
begin

text \<open>
  What the repository of external agents guarantees: an access ticket is redeemed at most once, a peer has at most one active
  binding, an idempotency key names one operation of a binding, updates of an operation are optimistic, and revoking or deleting
  a binding leaves none of its operations open. The three tables are ledgers in the sense of the theory \<open>Deliveries\<close>.
\<close>

section \<open>Ledgers that lose or rewrite records\<close>

context ledger
begin

lemma subset_ok:
  assumes "ledger_ok rid nkey good m" and "keyed rid m'" and "set (mvals m') \<subseteq> set (mvals m)"
  shows "ledger_ok rid nkey good m'"
  using assms by (auto simp: ledger_ok_def intro: inj_on_subset)

lemma delete_ok: "ledger_ok rid nkey good m \<Longrightarrow> ledger_ok rid nkey good (mdel k m)"
  by (rule subset_ok) (auto simp: ledger_ok_def dest: subsetD [OF vals_mdel_subset])

lemma retain_ok: "ledger_ok rid nkey good m \<Longrightarrow> ledger_ok rid nkey good (mretain P m)"
  by (rule subset_ok) (auto simp: ledger_ok_def)

lemma rewrite_ok:
  assumes "ledger_ok rid nkey good m" and "\<And>r. rid (f r) = rid r" and "\<And>r. nkey (f r) = nkey r"
    and "\<And>r. good r \<Longrightarrow> good (f r)"
  shows "ledger_ok rid nkey good (mrewrite f m)"
  using assms by (auto simp: ledger_ok_def keyed_mrewrite intro!: inj_onI dest: inj_onD)

text \<open>A record may also be replaced under its identity when its natural key stays or no record has the new one.\<close>

lemma replace_ok:
  assumes "ledger_ok rid nkey good m" and "good r" and "mget m (rid r) = Some old" and "nkey r = nkey old"
  shows "ledger_ok rid nkey good (mput (rid r) r m)"
proof (rule put_ok [OF assms(1,2)])
  fix x assume "find (\<lambda>c. nkey c = nkey r) (mvals m) = Some x"
  then have x: "mget m (rid x) = Some x" "nkey x = nkey old" using find_exact [OF assms(1)] assms(4) by auto
  have old: "rid old = rid r" using get_wf [OF assms(1,3)] by simp
  then have "find (\<lambda>c. nkey c = nkey old) (mvals m) = Some old" using find_exact [OF assms(1)] assms(3) by simp
  moreover have "find (\<lambda>c. nkey c = nkey old) (mvals m) = Some x" using find_exact [OF assms(1)] x by simp
  ultimately show "rid x = rid r" using old by simp
qed

end

section \<open>The three tables\<close>

definition ticket_wf :: "MCPAccessTicket \<Rightarrow> bool" where
  "ticket_wf t \<longleftrightarrow> ti_ID t \<noteq> [] \<and> ti_SchemaVersion t = MCPAccessTicketSchemaVersion \<and> ti_Scope t = MCPAccessConversation \<and>
     ti_Status t \<noteq> [] \<and> ti_OwnerID t \<noteq> [] \<and> ti_ActorID t \<noteq> [] \<and> 0 < ti_MaxUses t \<and> 0 < ti_AuthorizationRevision t"

text \<open>The natural key of an active binding is its peer; a binding that is not active has none but its identity.\<close>

definition binding_key :: "MCPBinding \<Rightarrow> string \<times> string \<times> string + string" where
  "binding_key b = (if bi_Status b = MCPBindingActive
     then Inl (bi_DomainID b, bi_RequesterDeviceID b, bi_RequesterKeyThumbprint b) else Inr (bi_ID b))"

definition binding_wf :: "MCPBinding \<Rightarrow> bool" where
  "binding_wf b \<longleftrightarrow> bi_ID b \<noteq> [] \<and> bi_SchemaVersion b = MCPBindingSchemaVersion \<and> bi_Scope b = MCPAccessConversation \<and>
     bi_Status b \<in> {MCPBindingActive, MCPBindingRevoked} \<and> bi_LinkedSessionID b = ''s_'' @ bi_ID b \<and> bi_OwnerID b \<noteq> []"

definition operation_key :: "MCPOperation \<Rightarrow> string \<times> string" where
  "operation_key p = (mo_BindingID p, mo_IdempotencyKey p)"

definition operation_wf :: "MCPOperation \<Rightarrow> bool" where
  "operation_wf p \<longleftrightarrow> mo_ID p \<noteq> [] \<and> mo_SchemaVersion p \<noteq> 0"

interpretation ticket_ledger: ledger ti_ID ti_SecretHash ticket_wf id
  by unfold_locales (simp_all add: ticket_wf_def)

interpretation binding_ledger: ledger bi_ID binding_key binding_wf id
  by unfold_locales (simp_all add: binding_wf_def)

interpretation operation_ledger: ledger mo_ID operation_key operation_wf id
  by unfold_locales (simp_all add: operation_wf_def)

definition mcp_inv :: "MemoryStore \<Rightarrow> bool" where
  "mcp_inv s \<longleftrightarrow> ledger_ok ti_ID ti_SecretHash ticket_wf (st_mcpAccessTickets s) \<and>
     ledger_ok bi_ID binding_key binding_wf (st_mcpBindings s) \<and>
     ledger_ok mo_ID operation_key operation_wf (st_mcpOperations s)"

lemma mcp_inv_tables:
  assumes "mcp_inv s"
  shows "ledger_ok ti_ID ti_SecretHash ticket_wf (st_mcpAccessTickets s)"
    and "ledger_ok bi_ID binding_key binding_wf (st_mcpBindings s)"
    and "ledger_ok mo_ID operation_key operation_wf (st_mcpOperations s)"
    and "keyed ti_ID (st_mcpAccessTickets s)" and "keyed bi_ID (st_mcpBindings s)" and "keyed mo_ID (st_mcpOperations s)"
  using assms by (simp_all add: mcp_inv_def ledger_ok_def)

lemma active_for_key: "active_for d v k b \<longleftrightarrow> binding_key b = Inl (d, v, k)"
  by (auto simp: active_for_def binding_key_def)

lemma operation_with_find: "operation_with b k s = find (\<lambda>p. operation_key p = (b, k)) (mvals (st_mcpOperations s))"
  by (simp add: operation_with_def operation_key_def)

text \<open>What normalising gives.\<close>

lemma normalized_ticket:
  "ti_ID (normalizeMCPAccessTicket random t now) \<noteq> []"
  "ti_SchemaVersion (normalizeMCPAccessTicket random t now) = ti_SchemaVersion t"
  "ti_Scope (normalizeMCPAccessTicket random t now) = ti_Scope t"
  "ti_SecretHash (normalizeMCPAccessTicket random t now) = ti_SecretHash t"
  "ti_Status (normalizeMCPAccessTicket random t now) \<noteq> []" "ti_OwnerID (normalizeMCPAccessTicket random t now) \<noteq> []"
  "ti_ActorID (normalizeMCPAccessTicket random t now) \<noteq> []" "0 < ti_MaxUses (normalizeMCPAccessTicket random t now)"
  "0 < ti_AuthorizationRevision (normalizeMCPAccessTicket random t now)"
  by (simp_all add: normalizeMCPAccessTicket_def Let_def)

lemma normalized_operation:
  "mo_ID (normalizeMCPOperation random p now) = (if mo_ID p = [] then NewID random ''mcp_operation'' else mo_ID p)"
  "operation_key (normalizeMCPOperation random p now) = operation_key p"
  "mo_SchemaVersion (normalizeMCPOperation random p now) = (if mo_SchemaVersion p = 0 then 1 else mo_SchemaVersion p)"
  "mo_Fingerprint (normalizeMCPOperation random p now) = mo_Fingerprint p"
  "mo_State (normalizeMCPOperation random p now) = (if mo_State p = [] then MCPOperationRunning else mo_State p)"
  "mo_Version (normalizeMCPOperation random p now) = (if mo_Version p \<le> 0 then 1 else mo_Version p)"
  by (simp_all add: normalizeMCPOperation_def operation_key_def Let_def)

lemma redeemed_binding_fields:
  "bi_ID (redeemed_binding random t peer now) = NewID random ''mcp_binding''"
  "bi_SchemaVersion (redeemed_binding random t peer now) = MCPBindingSchemaVersion"
  "bi_OwnerID (redeemed_binding random t peer now) = ti_OwnerID t" "bi_ActorID (redeemed_binding random t peer now) = ti_ActorID t"
  "bi_Scope (redeemed_binding random t peer now) = ti_Scope t" "bi_Status (redeemed_binding random t peer now) = MCPBindingActive"
  "bi_AuthorizationRevision (redeemed_binding random t peer now) = ti_AuthorizationRevision t"
  "bi_LinkedSessionID (redeemed_binding random t peer now) = ''s_'' @ NewID random ''mcp_binding''"
  "binding_key (redeemed_binding random t peer now) = Inl (ti_DomainID t, pi_DeviceID peer, pi_KeyThumbprint peer)"
  by (simp_all add: redeemed_binding_def normalizeMCPBinding_def binding_key_def Let_def)

lemma revoked_binding_fields:
  "bi_ID (revoked_binding b now) = bi_ID b" "bi_Status (revoked_binding b now) = MCPBindingRevoked"
  "binding_wf b \<Longrightarrow> binding_wf (revoked_binding b now)" "binding_key (revoked_binding b now) = Inr (bi_ID b)"
  by (auto simp: revoked_binding_def binding_wf_def binding_key_def)

lemma revoke_operation_fields:
  "mo_ID (revoke_operation i now p) = mo_ID p" "operation_key (revoke_operation i now p) = operation_key p"
  "mo_BindingID (revoke_operation i now p) = mo_BindingID p" "operation_wf p \<Longrightarrow> operation_wf (revoke_operation i now p)"
  "mo_BindingID p = i \<Longrightarrow> mcpOperationTerminal (mo_State (revoke_operation i now p))"
  "mo_Fingerprint (revoke_operation i now p) = mo_Fingerprint p"
  by (auto simp: revoke_operation_def operation_key_def operation_wf_def mcpOperationTerminal_def)

section \<open>What each operation does\<close>

text \<open>The results of the writes: an error that leaves the store alone, or the change named.\<close>

lemma SaveMCPAccessTicket_cases:
  assumes "SaveMCPAccessTicket cx env ticket s = (res, s')"
  shows "(s' = s \<and> (\<exists>e. res = Inl e)) \<or>
    (\<exists>t. res = Inr t \<and> t = normalizeMCPAccessTicket (en_rand env) ticket (en_now env) \<and> ticket_wf t \<and>
      (\<forall>(i, x) \<in> set (st_mcpAccessTickets s). i \<noteq> ti_ID t \<longrightarrow> ti_SecretHash x \<noteq> ti_SecretHash t) \<and>
      s' = s\<lparr>st_mcpAccessTickets := mput (ti_ID t) t (st_mcpAccessTickets s)\<rparr>)"
proof -
  let ?t = "normalizeMCPAccessTicket (en_rand env) ticket (en_now env)"
  have wf: "ti_SchemaVersion ?t = MCPAccessTicketSchemaVersion \<Longrightarrow> ti_Scope ?t = MCPAccessConversation \<Longrightarrow> ticket_wf ?t"
    using normalized_ticket [of "en_rand env" ticket "en_now env"] by (simp add: ticket_wf_def)
  show ?thesis
    using framed_cases [OF assms [unfolded SaveMCPAccessTicket_def]] wf by (auto simp: Let_def split: if_splits)
qed

lemma RedeemMCPAccessTicket_cases:
  assumes "RedeemMCPAccessTicket cx env secretHash peer now s = (res, s')" and "mcp_inv s"
  shows "(s' = s \<and> (\<exists>e. res = Inl e)) \<or>
    (\<exists>t. mget (st_mcpAccessTickets s) (ti_ID t) = Some t \<and> redeemable (TrimSpace secretHash) peer (normalizeMCPTime now) t \<and>
      (\<forall>b \<in> set (mvals (st_mcpBindings s)). binding_key b \<noteq> Inl (pi_DomainID peer, pi_DeviceID peer, pi_KeyThumbprint peer)) \<and>
      res = Inr (redeemed_binding (en_rand env) t peer (normalizeMCPTime now)) \<and>
      s' = redeem_store env (ti_ID t) t peer (normalizeMCPTime now) s)"
proof -
  note k = mcp_inv_tables(4) [OF assms(2)]
  let ?f = "find (\<lambda>(_, t). redeemable (TrimSpace secretHash) peer (normalizeMCPTime now) t) (st_mcpAccessTickets s)"
  have found: "\<exists>t. i = ti_ID t \<and> x = t \<and> mget (st_mcpAccessTickets s) (ti_ID t) = Some t \<and>
      redeemable (TrimSpace secretHash) peer (normalizeMCPTime now) t" if "?f = Some (i, x)" for i x
    using that keyed_vals [OF k, of x]
    unfolding find_entry [OF k, of "redeemable (TrimSpace secretHash) peer (normalizeMCPTime now)"]
    by (auto simp: find_Some_iff)
  show ?thesis
    using framed_cases [OF assms(1) [unfolded RedeemMCPAccessTicket_def]] found
    by (auto simp: Let_def active_for_key split: option.splits if_splits)
qed

lemma RevokeMCPAccessTicket_cases:
  assumes "RevokeMCPAccessTicket cx i now s = (res, s')"
  shows "(s' = s \<and> (\<exists>e. res = Inl e)) \<or>
    (\<exists>t. mget (st_mcpAccessTickets s) i = Some t \<and> ti_Status t = MCPAccessPending \<and>
      res = Inr (t\<lparr>ti_Status := MCPAccessRevoked, ti_RevokedAt := Some (normalizeMCPTime now)\<rparr>) \<and>
      s' = s\<lparr>st_mcpAccessTickets := mput i (t\<lparr>ti_Status := MCPAccessRevoked, ti_RevokedAt := Some (normalizeMCPTime now)\<rparr>)
        (st_mcpAccessTickets s)\<rparr>)"
  using framed_cases [OF assms [unfolded RevokeMCPAccessTicket_def]] by (auto simp: Let_def split: option.splits if_splits)

lemma DeleteMCPAccessTicket_cases:
  assumes "DeleteMCPAccessTicket cx ownerID i s = (res, s')"
  shows "(s' = s \<and> (\<exists>e. res = Inl e)) \<or>
    (\<exists>t. mget (st_mcpAccessTickets s) i = Some t \<and> ti_OwnerID t = ownerID \<and> res = Inr t \<and>
      s' = s\<lparr>st_mcpAccessTickets := mdel i (st_mcpAccessTickets s)\<rparr>)"
  using framed_cases [OF assms [unfolded DeleteMCPAccessTicket_def]] by (auto split: option.splits if_splits)

definition revoke_store :: "string \<Rightarrow> MCPBinding \<Rightarrow> gotime \<Rightarrow> MemoryStore \<Rightarrow> MemoryStore" where
  "revoke_store i b now s =
     s\<lparr>st_mcpBindings := (if bi_Status b \<noteq> MCPBindingRevoked then mput i (revoked_binding b now) (st_mcpBindings s) else st_mcpBindings s),
       st_mcpOperations := mrewrite (revoke_operation i now) (st_mcpOperations s)\<rparr>"

lemma RevokeMCPBinding_cases:
  assumes "RevokeMCPBinding cx i now s = (res, s')"
  shows "(s' = s \<and> (\<exists>e. res = Inl e)) \<or>
    (\<exists>b. mget (st_mcpBindings s) i = Some b \<and> res = Inr (revoked_binding b (normalizeMCPTime now)) \<and>
      s' = revoke_store i b (normalizeMCPTime now) s)"
  using framed_cases [OF assms [unfolded RevokeMCPBinding_def]] by (auto simp: Let_def revoke_store_def split: option.splits)

definition unbind_store :: "string \<Rightarrow> MemoryStore \<Rightarrow> MemoryStore" where
  "unbind_store i s = s\<lparr>st_mcpBindings := mdel i (st_mcpBindings s),
     st_mcpOperations := mretain (\<lambda>p. mo_BindingID p \<noteq> i) (st_mcpOperations s)\<rparr>"

lemma DeleteMCPBinding_cases:
  assumes "DeleteMCPBinding cx ownerID i s = (res, s')"
  shows "(s' = s \<and> (\<exists>e. res = Inl e)) \<or>
    (\<exists>b. mget (st_mcpBindings s) i = Some b \<and> bi_OwnerID b = ownerID \<and> res = Inr b \<and> s' = unbind_store i s)"
  using framed_cases [OF assms [unfolded DeleteMCPBinding_def]]
  by (auto simp: unbind_store_def split: option.splits if_splits)

definition purge_store :: "string \<Rightarrow> MemoryStore \<Rightarrow> MemoryStore" where
  "purge_store ownerID s =
     s\<lparr>st_mcpAccessTickets := mretain (\<lambda>t. ti_OwnerID t \<noteq> ownerID) (st_mcpAccessTickets s),
       st_mcpBindings := mretain (\<lambda>b. bi_OwnerID b \<noteq> ownerID) (st_mcpBindings s),
       st_mcpOperations := mretain (\<lambda>p. mo_BindingID p \<notin> set (mkeys (mretain (\<lambda>b. bi_OwnerID b = ownerID) (st_mcpBindings s))))
         (st_mcpOperations s)\<rparr>"

lemma DeleteMCPAccessRecords_cases:
  assumes "DeleteMCPAccessRecords cx ownerID s = (res, s')"
  shows "(s' = s \<and> (\<exists>e. res = Inl e)) \<or> (\<exists>d. res = Inr d \<and> s' = purge_store ownerID s)"
  using framed_cases [OF assms [unfolded DeleteMCPAccessRecords_def]] by (auto simp: purge_store_def Let_def)

lemma TouchMCPBinding_cases:
  assumes "TouchMCPBinding cx i iscp now s = (res, s')"
  shows "(s' = s \<and> (\<exists>e. res = Inl e)) \<or>
    (\<exists>b. mget (st_mcpBindings s) i = Some b \<and> bi_Status b = MCPBindingActive \<and> res = Inr () \<and>
      s' = s\<lparr>st_mcpBindings := mput i (touched_binding b iscp now) (st_mcpBindings s)\<rparr>)"
  using framed_cases [OF assms [unfolded TouchMCPBinding_def]]
  by (auto simp: touched_binding_def Let_def split: option.splits if_splits)

lemma CreateMCPOperation_cases:
  assumes "CreateMCPOperation cx env operation s = (res, s')"
  defines "p \<equiv> normalizeMCPOperation (en_rand env) operation (en_now env)"
  shows "(s' = s \<and> (\<exists>e. res = Inl e)) \<or>
    (\<exists>x. operation_with (mo_BindingID operation) (mo_IdempotencyKey operation) s = Some x \<and> mo_Fingerprint x = mo_Fingerprint operation \<and>
      res = Inr (x, False) \<and> s' = s) \<or>
    (operation_with (mo_BindingID operation) (mo_IdempotencyKey operation) s = None \<and> mget (st_mcpOperations s) (mo_ID p) = None \<and>
      res = Inr (p, True) \<and> s' = s\<lparr>st_mcpOperations := mput (mo_ID p) p (st_mcpOperations s)\<rparr>)"
  using framed_cases [OF assms(1) [unfolded CreateMCPOperation_def, folded p_def]]
  by (auto simp: Let_def split: option.splits if_splits)

definition updated_operation :: "op_env \<Rightarrow> MCPOperation \<Rightarrow> MCPOperation \<Rightarrow> MCPOperation" where
  "updated_operation env x p = p\<lparr>mo_Version := wrap64 (mo_Version x + 1), mo_CreatedAt := mo_CreatedAt x,
     mo_UpdatedAt := normalizeMCPTime (en_now env), mo_CompletedAt := normalizeMCPTimePointer (mo_CompletedAt p)\<rparr>"

lemma UpdateMCPOperation_cases:
  assumes "UpdateMCPOperation cx env p expected s = (res, s')"
  shows "(s' = s \<and> (\<exists>e. res = Inl e)) \<or>
    (\<exists>x. mget (st_mcpOperations s) (mo_ID p) = Some x \<and> mo_Version x = expected \<and> mcpOperationIdentityEqual x p \<and>
      res = Inr (updated_operation env x p) \<and>
      s' = s\<lparr>st_mcpOperations := mput (mo_ID p) (updated_operation env x p) (st_mcpOperations s)\<rparr>)"
  using framed_cases [OF assms [unfolded UpdateMCPOperation_def]]
  by (auto simp: Let_def updated_operation_def split: option.splits if_splits)

section \<open>Steps\<close>

text \<open>A call of a writing operation with its arguments, and the store after it.\<close>

datatype mcp_write =
    SaveTicket op_ctx op_env MCPAccessTicket
  | RedeemTicket op_ctx op_env string MCPPeerIdentity gotime
  | RevokeTicket op_ctx string gotime
  | DeleteTicket op_ctx string string
  | RevokeBinding op_ctx string gotime
  | DeleteBinding op_ctx string string
  | DeleteRecords op_ctx string
  | TouchBinding op_ctx string string gotime
  | CreateOperation op_ctx op_env MCPOperation
  | UpdateOperation op_ctx op_env MCPOperation int

fun mcp_call :: "mcp_write \<Rightarrow> MemoryStore \<Rightarrow> MemoryStore" where
  "mcp_call (SaveTicket cx env t) s = snd (SaveMCPAccessTicket cx env t s)"
| "mcp_call (RedeemTicket cx env h peer now) s = snd (RedeemMCPAccessTicket cx env h peer now s)"
| "mcp_call (RevokeTicket cx i now) s = snd (RevokeMCPAccessTicket cx i now s)"
| "mcp_call (DeleteTicket cx owner i) s = snd (DeleteMCPAccessTicket cx owner i s)"
| "mcp_call (RevokeBinding cx i now) s = snd (RevokeMCPBinding cx i now s)"
| "mcp_call (DeleteBinding cx owner i) s = snd (DeleteMCPBinding cx owner i s)"
| "mcp_call (DeleteRecords cx owner) s = snd (DeleteMCPAccessRecords cx owner s)"
| "mcp_call (TouchBinding cx i iscp now) s = snd (TouchMCPBinding cx i iscp now s)"
| "mcp_call (CreateOperation cx env p) s = snd (CreateMCPOperation cx env p s)"
| "mcp_call (UpdateOperation cx env p v) s = snd (UpdateMCPOperation cx env p v s)"

inductive mcp_step :: "MemoryStore \<Rightarrow> MemoryStore \<Rightarrow> bool" where
  step_call: "mcp_step s (mcp_call c s)"

inductive_cases mcp_stepE: "mcp_step s s'"

abbreviation mcp_calls :: "mcp_write list \<Rightarrow> MemoryStore \<Rightarrow> MemoryStore" where
  "mcp_calls cs s \<equiv> fold mcp_call cs s"

text \<open>The store after a call, with what each write found.\<close>

lemma mcp_call_cases:
  assumes "mcp_inv s" and "mcp_call c s \<noteq> s"
  obtains (save_ticket) cx env ticket t where "c = SaveTicket cx env ticket" "ticket_wf t"
      "t = normalizeMCPAccessTicket (en_rand env) ticket (en_now env)"
      "\<forall>(i, x) \<in> set (st_mcpAccessTickets s). i \<noteq> ti_ID t \<longrightarrow> ti_SecretHash x \<noteq> ti_SecretHash t"
      "mcp_call c s = s\<lparr>st_mcpAccessTickets := mput (ti_ID t) t (st_mcpAccessTickets s)\<rparr>"
  | (redeem) cx env h peer now t where "c = RedeemTicket cx env h peer now" "mget (st_mcpAccessTickets s) (ti_ID t) = Some t"
      "redeemable (TrimSpace h) peer (normalizeMCPTime now) t"
      "\<forall>b \<in> set (mvals (st_mcpBindings s)). binding_key b \<noteq> Inl (pi_DomainID peer, pi_DeviceID peer, pi_KeyThumbprint peer)"
      "mcp_call c s = redeem_store env (ti_ID t) t peer (normalizeMCPTime now) s"
  | (revoke_ticket) cx i now t where "c = RevokeTicket cx i now" "mget (st_mcpAccessTickets s) i = Some t" "ti_Status t = MCPAccessPending"
      "mcp_call c s = s\<lparr>st_mcpAccessTickets := mput i (t\<lparr>ti_Status := MCPAccessRevoked, ti_RevokedAt := Some (normalizeMCPTime now)\<rparr>)
        (st_mcpAccessTickets s)\<rparr>"
  | (delete_ticket) cx owner i where "c = DeleteTicket cx owner i"
      "mcp_call c s = s\<lparr>st_mcpAccessTickets := mdel i (st_mcpAccessTickets s)\<rparr>"
  | (revoke_binding) cx i now b where "c = RevokeBinding cx i now" "mget (st_mcpBindings s) i = Some b"
      "mcp_call c s = revoke_store i b (normalizeMCPTime now) s"
  | (delete_binding) cx owner i b where "c = DeleteBinding cx owner i" "mget (st_mcpBindings s) i = Some b" "bi_OwnerID b = owner"
      "mcp_call c s = unbind_store i s"
  | (delete_records) cx owner where "c = DeleteRecords cx owner" "mcp_call c s = purge_store owner s"
  | (touch) cx i iscp now b where "c = TouchBinding cx i iscp now" "mget (st_mcpBindings s) i = Some b" "bi_Status b = MCPBindingActive"
      "mcp_call c s = s\<lparr>st_mcpBindings := mput i (touched_binding b iscp now) (st_mcpBindings s)\<rparr>"
  | (create) cx env operation p where "c = CreateOperation cx env operation"
      "p = normalizeMCPOperation (en_rand env) operation (en_now env)"
      "operation_with (mo_BindingID operation) (mo_IdempotencyKey operation) s = None" "mget (st_mcpOperations s) (mo_ID p) = None"
      "mcp_call c s = s\<lparr>st_mcpOperations := mput (mo_ID p) p (st_mcpOperations s)\<rparr>"
  | (update) cx env p v x where "c = UpdateOperation cx env p v" "mget (st_mcpOperations s) (mo_ID p) = Some x" "mo_Version x = v"
      "mcpOperationIdentityEqual x p"
      "mcp_call c s = s\<lparr>st_mcpOperations := mput (mo_ID p) (updated_operation env x p) (st_mcpOperations s)\<rparr>"
proof (cases c)
  case (SaveTicket cx env t)
  with SaveMCPAccessTicket_cases [of cx env t s, OF surjective_pairing] assms(2) show thesis
    by (elim disjE exE conjE) (simp_all add: save_ticket)
next
  case (RedeemTicket cx env h peer now)
  with RedeemMCPAccessTicket_cases [of cx env h peer now s, OF surjective_pairing assms(1)] assms(2) show thesis
    by (elim disjE exE conjE) (simp_all add: redeem)
next
  case (RevokeTicket cx i now)
  with RevokeMCPAccessTicket_cases [of cx i now s, OF surjective_pairing] assms(2) show thesis
    by (elim disjE exE conjE) (simp_all add: revoke_ticket)
next
  case (DeleteTicket cx owner i)
  with DeleteMCPAccessTicket_cases [of cx owner i s, OF surjective_pairing] assms(2) show thesis
    by (elim disjE exE conjE) (simp_all add: delete_ticket)
next
  case (RevokeBinding cx i now)
  with RevokeMCPBinding_cases [of cx i now s, OF surjective_pairing] assms(2) show thesis
    by (elim disjE exE conjE) (simp_all add: revoke_binding)
next
  case (DeleteBinding cx owner i)
  with DeleteMCPBinding_cases [of cx owner i s, OF surjective_pairing] assms(2) show thesis
    by (elim disjE exE conjE) (simp_all add: delete_binding)
next
  case (DeleteRecords cx owner)
  with DeleteMCPAccessRecords_cases [of cx owner s, OF surjective_pairing] assms(2) show thesis
    by (elim disjE exE conjE) (simp_all add: delete_records)
next
  case (TouchBinding cx i iscp now)
  with TouchMCPBinding_cases [of cx i iscp now s, OF surjective_pairing] assms(2) show thesis
    by (elim disjE exE conjE) (simp_all add: touch)
next
  case (CreateOperation cx env p)
  with CreateMCPOperation_cases [of cx env p s, OF surjective_pairing] assms(2) show thesis
    by (elim disjE exE conjE) (simp_all add: create)
next
  case (UpdateOperation cx env p v)
  with UpdateMCPOperation_cases [of cx env p v s, OF surjective_pairing] assms(2) show thesis
    by (elim disjE exE conjE) (simp_all add: update)
qed

lemma touched_binding_fields:
  "bi_ID (touched_binding b iscp now) = bi_ID b" "binding_key (touched_binding b iscp now) = binding_key b"
  "binding_wf (touched_binding b iscp now) = binding_wf b" "bi_Status (touched_binding b iscp now) = bi_Status b"
  by (simp_all add: touched_binding_def binding_key_def binding_wf_def)

lemma updated_operation_fields:
  "mo_ID (updated_operation env x p) = mo_ID p" "operation_key (updated_operation env x p) = operation_key p"
  "mo_BindingID (updated_operation env x p) = mo_BindingID p" "mo_Version (updated_operation env x p) = wrap64 (mo_Version x + 1)"
  "mo_State (updated_operation env x p) = mo_State p" "mo_Fingerprint (updated_operation env x p) = mo_Fingerprint p"
  "mcpOperationIdentityEqual x p \<Longrightarrow> operation_wf x \<Longrightarrow> operation_wf (updated_operation env x p)"
  "mcpOperationIdentityEqual x p \<Longrightarrow> operation_key p = operation_key x"
  "mcpOperationIdentityEqual x p \<Longrightarrow> mo_Fingerprint p = mo_Fingerprint x"
  by (simp_all add: updated_operation_def operation_key_def operation_wf_def mcpOperationIdentityEqual_def)

lemma redeem_store_fields:
  "st_mcpAccessTickets (redeem_store env i t peer now s) =
     mput i (t\<lparr>ti_Status := MCPAccessConsumed, ti_UseCount := wrap64 (ti_UseCount t + 1), ti_ConsumedAt := Some now\<rparr>)
       (st_mcpAccessTickets s)"
  "st_mcpBindings (redeem_store env i t peer now s) =
     mput (NewID (en_rand env) ''mcp_binding'') (redeemed_binding (en_rand env) t peer now) (st_mcpBindings s)"
  "st_mcpOperations (redeem_store env i t peer now s) = st_mcpOperations s"
  by (simp_all add: redeem_store_def Let_def redeemed_binding_fields)

lemma redeem_inv:
  assumes inv: "mcp_inv s" and t: "mget (st_mcpAccessTickets s) (ti_ID t) = Some t"
    and r: "redeemable h peer now t"
    and free: "\<forall>b \<in> set (mvals (st_mcpBindings s)). binding_key b \<noteq> Inl (pi_DomainID peer, pi_DeviceID peer, pi_KeyThumbprint peer)"
  shows "mcp_inv (redeem_store env (ti_ID t) t peer now s)"
proof -
  note tables = mcp_inv_tables [OF inv]
  have wf: "ticket_wf t" using ticket_ledger.get_wf [OF tables(1) t] by simp
  define t' where "t' = t\<lparr>ti_Status := MCPAccessConsumed, ti_UseCount := wrap64 (ti_UseCount t + 1), ti_ConsumedAt := Some now\<rparr>"
  define b where "b = redeemed_binding (en_rand env) t peer now"
  have t': "ti_ID t' = ti_ID t" "ti_SecretHash t' = ti_SecretHash t" "ticket_wf t'" using wf by (simp_all add: t'_def ticket_wf_def)
  have tickets: "ledger_ok ti_ID ti_SecretHash ticket_wf (mput (ti_ID t) t' (st_mcpAccessTickets s))"
    using ticket_ledger.replace_ok [OF tables(1) t'(3), unfolded t'(1,2), OF t refl] .
  have b: "bi_ID b = NewID (en_rand env) ''mcp_binding''" "binding_wf b"
    "binding_key b = Inl (pi_DomainID peer, pi_DeviceID peer, pi_KeyThumbprint peer)"
    using wf r by (simp_all add: b_def redeemed_binding_fields binding_wf_def ticket_wf_def redeemable_def)
  have bindings: "ledger_ok bi_ID binding_key binding_wf (mput (bi_ID b) b (st_mcpBindings s))"
    by (rule binding_ledger.put_ok [OF tables(2) b(2)]) (use free b(3) in \<open>auto simp: find_Some_iff\<close>)
  show ?thesis
    using tickets bindings tables(3) b(1) by (simp add: mcp_inv_def redeem_store_fields t'_def b_def)
qed

lemma mcp_inv_call: "mcp_inv s \<Longrightarrow> mcp_inv (mcp_call c s)"
proof (cases "mcp_call c s = s")
  case False
  assume inv: "mcp_inv s"
  note tables = mcp_inv_tables [OF inv]
  from inv False show ?thesis
  proof (cases rule: mcp_call_cases)
    case (save_ticket cx env ticket t)
    have "ledger_ok ti_ID ti_SecretHash ticket_wf (mput (ti_ID t) t (st_mcpAccessTickets s))"
    proof (rule ticket_ledger.put_ok [OF tables(1) save_ticket(2)])
      fix x assume "find (\<lambda>c. ti_SecretHash c = ti_SecretHash t) (mvals (st_mcpAccessTickets s)) = Some x"
      then have "mget (st_mcpAccessTickets s) (ti_ID x) = Some x" "ti_SecretHash x = ti_SecretHash t"
        using ticket_ledger.find_exact [OF tables(1)] by auto
      then show "ti_ID x = ti_ID t" using save_ticket(4) by (auto dest: map_of_SomeD)
    qed
    then show ?thesis using save_ticket(5) tables by (simp add: mcp_inv_def)
  next
    case (redeem cx env h peer now t)
    then show ?thesis using redeem_inv [OF inv redeem(2,3,4)] by simp
  next
    case (revoke_ticket cx i now t)
    have wf: "ti_ID t = i" "ticket_wf t" using ticket_ledger.get_wf [OF tables(1) revoke_ticket(2)] by simp_all
    let ?t = "t\<lparr>ti_Status := MCPAccessRevoked, ti_RevokedAt := Some (normalizeMCPTime now)\<rparr>"
    have "ledger_ok ti_ID ti_SecretHash ticket_wf (mput (ti_ID ?t) ?t (st_mcpAccessTickets s))"
      by (rule ticket_ledger.replace_ok [OF tables(1), of _ t]) (use wf revoke_ticket(2) in \<open>simp_all add: ticket_wf_def\<close>)
    then show ?thesis using revoke_ticket(4) wf tables by (simp add: mcp_inv_def)
  next
    case (delete_ticket cx owner i)
    then show ?thesis using tables ticket_ledger.delete_ok [OF tables(1)] by (simp add: mcp_inv_def)
  next
    case (revoke_binding cx i now b)
    let ?now = "normalizeMCPTime now"
    have wf: "bi_ID b = i" "binding_wf b" using binding_ledger.get_wf [OF tables(2) revoke_binding(2)] by simp_all
    have "ledger_ok bi_ID binding_key binding_wf (mput (bi_ID (revoked_binding b ?now)) (revoked_binding b ?now) (st_mcpBindings s))"
    proof (rule binding_ledger.put_ok [OF tables(2) revoked_binding_fields(3) [OF wf(2)]])
      fix x assume "find (\<lambda>c. binding_key c = binding_key (revoked_binding b ?now)) (mvals (st_mcpBindings s)) = Some x"
      then show "bi_ID x = bi_ID (revoked_binding b ?now)"
        by (auto simp: find_Some_iff revoked_binding_fields) (metis binding_key_def Inl_Inr_False Inr_inject)
    qed
    then have "ledger_ok bi_ID binding_key binding_wf (st_mcpBindings (revoke_store i b ?now s))"
      using wf tables by (simp add: revoke_store_def revoked_binding_fields)
    moreover have "ledger_ok mo_ID operation_key operation_wf (st_mcpOperations (revoke_store i b ?now s))"
      by (simp add: revoke_store_def operation_ledger.rewrite_ok [OF tables(3)] revoke_operation_fields)
    ultimately show ?thesis using revoke_binding(3) tables by (simp add: mcp_inv_def revoke_store_def)
  next
    case (delete_binding cx owner i b)
    then show ?thesis
      using tables binding_ledger.delete_ok [OF tables(2)] operation_ledger.retain_ok [OF tables(3)]
      by (simp add: mcp_inv_def unbind_store_def)
  next
    case (delete_records cx owner)
    then show ?thesis
      using ticket_ledger.retain_ok [OF tables(1)] binding_ledger.retain_ok [OF tables(2)] operation_ledger.retain_ok [OF tables(3)]
      by (simp add: mcp_inv_def purge_store_def)
  next
    case (touch cx i iscp now b)
    have wf: "bi_ID b = i" "binding_wf b" using binding_ledger.get_wf [OF tables(2) touch(2)] by simp_all
    have "ledger_ok bi_ID binding_key binding_wf (mput (bi_ID (touched_binding b iscp now)) (touched_binding b iscp now) (st_mcpBindings s))"
      by (rule binding_ledger.replace_ok [OF tables(2), of _ b]) (use wf touch(2) in \<open>simp_all add: touched_binding_fields\<close>)
    then show ?thesis using touch(4) wf tables by (simp add: mcp_inv_def touched_binding_fields)
  next
    case (create cx env operation p)
    have p: "operation_wf p" "operation_key p = (mo_BindingID operation, mo_IdempotencyKey operation)"
      using normalized_operation [of "en_rand env" operation "en_now env"] create(2) by (simp_all add: operation_wf_def operation_key_def)
    have "ledger_ok mo_ID operation_key operation_wf (mput (mo_ID p) p (st_mcpOperations s))"
      by (rule operation_ledger.put_ok [OF tables(3) p(1)]) (use create(3) p(2) in \<open>simp add: operation_with_find\<close>)
    then show ?thesis using create(5) tables by (simp add: mcp_inv_def)
  next
    case (update cx env p v x)
    have "operation_wf x" using operation_ledger.get_wf [OF tables(3) update(2)] by simp
    then have "ledger_ok mo_ID operation_key operation_wf (mput (mo_ID (updated_operation env x p)) (updated_operation env x p) (st_mcpOperations s))"
      by (intro operation_ledger.replace_ok [OF tables(3), of _ x]) (use update in \<open>simp_all add: updated_operation_fields\<close>)
    then show ?thesis using update(5) tables by (simp add: mcp_inv_def updated_operation_fields)
  qed
qed simp

lemma mcp_inv_empty: "empty_store s \<Longrightarrow> mcp_inv s"
  by (simp add: mcp_inv_def empty_store_tables ledger_ok_def)

interpretation agents: invariant_system empty_store mcp_step mcp_inv
  by unfold_locales (auto simp: mcp_inv_empty mcp_inv_call elim: mcp_stepE)

lemma mcp_inv_calls: "mcp_inv s \<Longrightarrow> mcp_inv (mcp_calls cs s)"
  by (induction cs arbitrary: s) (simp_all add: mcp_inv_call)

text \<open>A property every call keeps holds after any calls.\<close>

lemma mcp_calls_keep:
  assumes "mcp_inv s" and "P s" and "\<And>c s. mcp_inv s \<Longrightarrow> P s \<Longrightarrow> Q c \<Longrightarrow> P (mcp_call c s)" and "\<forall>c \<in> set cs. Q c"
  shows "P (mcp_calls cs s)"
  using assms(1,2,4) by (induction cs arbitrary: s) (simp_all add: mcp_inv_call assms(3))

lemma mcp_reach_calls: "reach empty_store mcp_step s \<Longrightarrow> reach empty_store mcp_step (mcp_calls cs s)"
  by (induction cs arbitrary: s) (auto intro: reach_step step_call)

section \<open>Listings\<close>

interpretation ticket_table: record_table ticket_cmp "\<lambda>t. newest_first (ti_IssuedAt t) (ti_ID t)" ti_ID
  by unfold_locales (auto simp: ticket_cmp_def newest_first_cmp newest_first_def)

interpretation binding_table: record_table binding_cmp "\<lambda>b. newest_first (bi_UpdatedAt b) (bi_ID b)" bi_ID
  by unfold_locales (auto simp: binding_cmp_def newest_first_cmp newest_first_def)

interpretation operation_table: record_table operation_cmp "\<lambda>p. newest_first (mo_UpdatedAt p) (mo_ID p)" mo_ID
  by unfold_locales (auto simp: operation_cmp_def newest_first_cmp newest_first_def)

section \<open>Examples\<close>

definition sample_ticket :: MCPAccessTicket where
  "sample_ticket = \<lparr>ti_SchemaVersion = 2, ti_ID = ''t1'', ti_SecretHash = ''hash'', ti_OwnerID = ''owner'', ti_ActorID = ''owner'',
     ti_DomainID = ''home'', ti_AuthorizationRevision = 1, ti_Scope = ''conversation'', ti_Status = ''pending'', ti_MaxUses = 3,
     ti_UseCount = 0, ti_IssuedAt = 4000, ti_ExpiresAt = 9000, ti_ConsumedAt = None, ti_RevokedAt = None\<rparr>"

definition sample_peer :: MCPPeerIdentity where
  "sample_peer = \<lparr>pi_DomainID = ''home'', pi_DeviceID = ''agent-7'', pi_KeyThumbprint = ''key'', pi_ISCPSessionID = ''i1''\<rparr>"

definition other_env :: op_env where
  "other_env = sample_env\<lparr>en_rand := Some [1]\<rparr>"

definition sample_binding :: MCPBinding where
  "sample_binding = redeemed_binding None sample_ticket sample_peer 5000"

abbreviation sample_op :: string where "sample_op \<equiv> ''mcp_operation_6d63705f62696e64696e675f66616c6c''"

definition sample_invocation :: MCPInvocationContext where
  "sample_invocation = \<lparr>in_SchemaVersion = 2, in_ID = ''inv'', in_MCPRequestID = ''q'', in_MCPSessionID = ''m'', in_ISCPSessionID = ''i1'',
     in_OperationID = sample_op, in_RequesterDeviceID = ''agent-7'', in_RequesterKeyThumbprint = ''key'',
     in_BindingRef = ''mcp_binding_fallback'', in_BindingRevision = 1, in_OwnerID = ''owner'', in_ActorID = ''owner'',
     in_ToolName = ''sparkclaw.converse'', in_Arguments = [(''text'', AnyString ''hello'')], in_ArgumentDigest = ''d'',
     in_IdempotencyKey = ''k1'', in_Deadline = 90000, in_MessageID = [], in_RunID = [], in_DeliveryID = [], in_CreatedAt = 5000\<rparr>"

definition sample_operation :: MCPOperation where
  "sample_operation = \<lparr>mo_SchemaVersion = 1, mo_ID = sample_op, mo_BindingID = ''mcp_binding_fallback'', mo_IdempotencyKey = ''k1'',
     mo_Fingerprint = ''f'', mo_Invocation = sample_invocation, mo_State = ''running'', mo_Result = [], mo_ErrorCode = [],
     mo_ErrorMessage = [], mo_Version = 1, mo_CreatedAt = 5000, mo_UpdatedAt = 5000, mo_CompletedAt = None\<rparr>"

text \<open>A ticket is issued, redeemed by an agent, and the agent starts an operation.\<close>

definition ticket_store :: MemoryStore where
  "ticket_store = mcp_calls [SaveTicket open_ctx sample_env sample_ticket] NewMemoryStore"

definition bound_store :: MemoryStore where
  "bound_store = mcp_calls [RedeemTicket open_ctx sample_env '' hash '' sample_peer 5000] ticket_store"

definition agent_store :: MemoryStore where
  "agent_store = mcp_calls [CreateOperation open_ctx sample_env sample_operation] bound_store"

lemma sample_stores_reach:
  "reach empty_store mcp_step ticket_store" "reach empty_store mcp_step bound_store" "reach empty_store mcp_step agent_store"
proof -
  have "reach empty_store mcp_step NewMemoryStore" by (rule reach.intros(1)) (rule empty_store_New)
  then show t: "reach empty_store mcp_step ticket_store" unfolding ticket_store_def by (rule mcp_reach_calls)
  show b: "reach empty_store mcp_step bound_store" unfolding bound_store_def by (rule mcp_reach_calls [OF t])
  show "reach empty_store mcp_step agent_store" unfolding agent_store_def by (rule mcp_reach_calls [OF b])
qed

lemma sample_normal:
  "normalizeMCPAccessTicket None sample_ticket 5000 = sample_ticket" "normalizeMCPOperation None sample_operation 5000 = sample_operation"
  "normalizeMCPTime 5000 = 5000" "TrimSpace '' hash '' = ''hash''" "NewID None ''mcp_binding'' = ''mcp_binding_fallback''"
  by code_simp+

lemma ticket_store_eq: "ticket_store = NewMemoryStore\<lparr>st_mcpAccessTickets := [(''t1'', sample_ticket)]\<rparr>"
  by (simp add: ticket_store_def SaveMCPAccessTicket_def framed_def checked_def sample_env_def sample_normal)
     (simp add: sample_ticket_def)

lemma sample_redeemable: "redeemable ''hash'' sample_peer 5000 sample_ticket"
  by (simp add: redeemable_def sample_ticket_def sample_peer_def)

lemma sample_redeemed:
  "RedeemMCPAccessTicket open_ctx sample_env '' hash '' sample_peer 5000 ticket_store = (Inr sample_binding, bound_store)"
  by (simp add: bound_store_def RedeemMCPAccessTicket_def framed_def checked_def ticket_store_eq sample_normal sample_redeemable
      sample_binding_def sample_env_def)

lemma bound_store_eq: "bound_store = redeem_store sample_env ''t1'' sample_ticket sample_peer 5000 ticket_store"
  by (simp add: bound_store_def RedeemMCPAccessTicket_def framed_def checked_def ticket_store_eq sample_normal sample_redeemable sample_env_def)

lemma bound_store_tables:
  "st_mcpBindings bound_store = [(''mcp_binding_fallback'', sample_binding)]" "st_mcpOperations bound_store = []"
  unfolding bound_store_eq by (simp_all add: redeem_store_fields sample_env_def sample_normal sample_binding_def ticket_store_eq)

lemma sample_redeemed_session:
  "mget (st_sessions bound_store) (bi_LinkedSessionID sample_binding) = Some (linked_session sample_binding 5000)"
proof -
  have "normalizeSessionTime 5000 = 5000" by code_simp
  then show ?thesis unfolding bound_store_eq by (simp add: redeem_store_def Let_def sample_binding_def sample_env_def)
qed

lemma agent_created:
  "CreateMCPOperation open_ctx sample_env sample_operation bound_store = (Inr (sample_operation, True), agent_store)"
  by (simp add: agent_store_def CreateMCPOperation_def framed_def checked_def operation_with_def bound_store_tables sample_env_def sample_normal)

lemma agent_store_operations:
  "st_mcpOperations agent_store = [(sample_op, sample_operation)]" "st_mcpBindings agent_store = [(''mcp_binding_fallback'', sample_binding)]"
proof -
  have a: "agent_store = bound_store\<lparr>st_mcpOperations := mput (mo_ID sample_operation) sample_operation (st_mcpOperations bound_store)\<rparr>"
    by (simp add: agent_store_def CreateMCPOperation_def framed_def checked_def operation_with_def bound_store_tables sample_env_def sample_normal)
  have "mo_ID sample_operation = sample_op" by (simp add: sample_operation_def)
  then have o: "mput (mo_ID sample_operation) sample_operation (st_mcpOperations bound_store) = [(sample_op, sample_operation)]"
    by (simp only: bound_store_tables AList.update.simps)
  show "st_mcpOperations agent_store = [(sample_op, sample_operation)]" unfolding a o by simp
  show "st_mcpBindings agent_store = [(''mcp_binding_fallback'', sample_binding)]" unfolding a o by (simp add: bound_store_tables(1))
qed

lemma agent_fields:
  "bi_ID sample_binding = ''mcp_binding_fallback''" "active_for ''home'' ''agent-7'' ''key'' sample_binding"
  "mo_BindingID sample_operation = ''mcp_binding_fallback''" "mo_IdempotencyKey sample_operation = ''k1''" "mo_ID sample_operation = sample_op"
  "bi_OwnerID sample_binding = ''owner''"
proof -
  show "bi_ID sample_binding = ''mcp_binding_fallback''"
    unfolding sample_binding_def redeemed_binding_fields sample_normal(5) by (rule refl)
  show "active_for ''home'' ''agent-7'' ''key'' sample_binding"
    unfolding sample_binding_def active_for_key redeemed_binding_fields by (simp add: sample_ticket_def sample_peer_def)
  show "bi_OwnerID sample_binding = ''owner''"
    unfolding sample_binding_def redeemed_binding_fields by (simp add: sample_ticket_def)
qed (simp_all add: sample_operation_def)

section \<open>Tickets\<close>

definition saves_secret :: "string \<Rightarrow> mcp_write \<Rightarrow> bool" where
  "saves_secret h c \<longleftrightarrow> (case c of SaveTicket cx env t \<Rightarrow> ti_SecretHash t = h | _ \<Rightarrow> False)"

definition spent :: "string \<Rightarrow> MemoryStore \<Rightarrow> bool" where
  "spent h s \<longleftrightarrow> (\<forall>t \<in> set (mvals (st_mcpAccessTickets s)). ti_SecretHash t = h \<longrightarrow> ti_Status t \<noteq> MCPAccessPending)"

lemma spent_put:
  assumes "keyed ti_ID (st_mcpAccessTickets s)" and "spent h s" and "ti_SecretHash t = h \<longrightarrow> ti_Status t \<noteq> MCPAccessPending"
    and "ti_ID t = i" and "st_mcpAccessTickets s' = mput i t (st_mcpAccessTickets s)"
  shows "spent h s'"
proof -
  have "x = t \<or> x \<in> set (mvals (st_mcpAccessTickets s))" if "x \<in> set (mvals (st_mcpAccessTickets s'))" for x
    using that vals_put [OF assms(1,4)] by (auto simp: assms(5))
  with assms(2,3) show ?thesis by (auto simp: spent_def)
qed

lemma spent_subset:
  "spent h s \<Longrightarrow> set (mvals (st_mcpAccessTickets s')) \<subseteq> set (mvals (st_mcpAccessTickets s)) \<Longrightarrow> spent h s'"
  by (auto simp: spent_def)

lemma spent_call:
  assumes inv: "mcp_inv s" and sp: "spent h s" and c: "\<not> saves_secret h c"
  shows "spent h (mcp_call c s)"
proof (cases "mcp_call c s = s")
  case False
  note k = mcp_inv_tables(4) [OF inv] and wf = ticket_ledger.get_wf [OF mcp_inv_tables(1) [OF inv]]
  from inv False show ?thesis
  proof (cases rule: mcp_call_cases)
    case (save_ticket cx env ticket t)
    then have "ti_SecretHash t \<noteq> h" using c normalized_ticket(4) by (simp add: saves_secret_def)
    then show ?thesis by (intro spent_put [OF k sp]) (simp_all add: save_ticket(5))
  next
    case (redeem cx env h' peer now t)
    then show ?thesis by (intro spent_put [OF k sp]) (simp_all add: redeem_store_fields)
  next
    case (revoke_ticket cx i now t)
    then show ?thesis using wf [OF revoke_ticket(2)] by (intro spent_put [OF k sp]) simp_all
  next
    case (delete_ticket cx owner i)
    then show ?thesis by (intro spent_subset [OF sp]) (simp add: vals_mdel_subset)
  qed (use sp in \<open>auto simp: spent_def revoke_store_def unbind_store_def purge_store_def\<close>)
qed (use sp in simp)

lemma spent_refused:
  assumes "mcp_inv s" and "spent (TrimSpace h) s"
  shows "\<exists>e. RedeemMCPAccessTicket cx env h peer now s = (Inl e, s)"
proof -
  note k = mcp_inv_tables(4) [OF assms(1)]
  obtain res s' where r: "RedeemMCPAccessTicket cx env h peer now s = (res, s')" by fastforce
  have "\<not> (\<exists>t. mget (st_mcpAccessTickets s) (ti_ID t) = Some t \<and> redeemable (TrimSpace h) peer (normalizeMCPTime now) t)"
    using assms(2) keyed_vals [OF k] by (auto simp: spent_def redeemable_def)
  with RedeemMCPAccessTicket_cases [OF r assms(1)] r show ?thesis by blast
qed

lemma redeemed_spent:
  assumes inv: "mcp_inv s" and r: "RedeemMCPAccessTicket cx env h peer now s = (Inr b, s')"
  shows "spent (TrimSpace h) s'"
proof -
  note k = mcp_inv_tables(4) [OF inv] and tables = mcp_inv_tables [OF inv]
  obtain t where t: "mget (st_mcpAccessTickets s) (ti_ID t) = Some t" "redeemable (TrimSpace h) peer (normalizeMCPTime now) t"
    and s': "s' = redeem_store env (ti_ID t) t peer (normalizeMCPTime now) s"
    using RedeemMCPAccessTicket_cases [OF r inv] by auto
  define t' where "t' = t\<lparr>ti_Status := MCPAccessConsumed, ti_UseCount := wrap64 (ti_UseCount t + 1), ti_ConsumedAt := Some (normalizeMCPTime now)\<rparr>"
  have t': "ti_ID t' = ti_ID t" "ti_Status t' \<noteq> MCPAccessPending" by (simp_all add: t'_def)
  have same: "x = t" if "x \<in> set (mvals (st_mcpAccessTickets s))" "ti_SecretHash x = TrimSpace h" for x
    using that t keyed_vals [OF k, of t] tables(1) inj_onD [of ti_SecretHash "set (mvals (st_mcpAccessTickets s))" x t]
    by (simp add: ledger_ok_def redeemable_def)
  have "ti_SecretHash x = TrimSpace h \<longrightarrow> ti_Status x \<noteq> MCPAccessPending"
    if "x \<in> set (mvals (mput (ti_ID t) t' (st_mcpAccessTickets s)))" for x
    using that same t' by (auto simp: vals_put [OF k t'(1)])
  then show ?thesis by (simp add: spent_def s' redeem_store_fields t'_def)
qed

text \<open>C7: an access ticket works once. After a secret was redeemed, every later redemption of it is refused and changes nothing,
  whoever tries, whatever uses the ticket still allows and whatever other calls run in between, unless a ticket with that
  secret is saved again.\<close>

theorem ticket_redeemed_once:
  assumes "reach empty_store mcp_step s" and "RedeemMCPAccessTicket cx env h peer now s = (Inr b, s')"
    and "\<forall>c \<in> set cs. \<not> saves_secret (TrimSpace h) c" and "TrimSpace h' = TrimSpace h"
  shows "\<exists>e. RedeemMCPAccessTicket cx' env' h' peer' now' (mcp_calls cs s') = (Inl e, mcp_calls cs s')"
proof -
  have inv: "mcp_inv s" using agents.reach_inv [OF assms(1)] .
  have "mcp_inv s'" using mcp_inv_call [OF inv, of "RedeemTicket cx env h peer now"] assms(2) by simp
  moreover have "spent (TrimSpace h) (mcp_calls cs s')"
    by (rule mcp_calls_keep [where Q = "\<lambda>c. \<not> saves_secret (TrimSpace h) c", OF \<open>mcp_inv s'\<close> redeemed_spent [OF inv assms(2)] spent_call assms(3)])
  ultimately show ?thesis
    using assms(4) by (intro spent_refused mcp_inv_calls) simp_all
qed

lemma ticket_redeemed_once_witness:
  "RedeemMCPAccessTicket open_ctx sample_env '' hash '' sample_peer 5000 ticket_store = (Inr sample_binding, bound_store) \<and>
   ti_MaxUses sample_ticket = 3 \<and>
   (\<exists>e. RedeemMCPAccessTicket open_ctx other_env ''hash'' (sample_peer\<lparr>pi_DeviceID := ''agent-8''\<rparr>) 6000
      (mcp_calls [RevokeBinding open_ctx ''mcp_binding_fallback'' 5500] bound_store) =
      (Inl e, mcp_calls [RevokeBinding open_ctx ''mcp_binding_fallback'' 5500] bound_store))"
proof -
  have "TrimSpace ''hash'' = TrimSpace '' hash ''" by code_simp
  then have "\<exists>e. RedeemMCPAccessTicket open_ctx other_env ''hash'' (sample_peer\<lparr>pi_DeviceID := ''agent-8''\<rparr>) 6000
      (mcp_calls [RevokeBinding open_ctx ''mcp_binding_fallback'' 5500] bound_store) =
      (Inl e, mcp_calls [RevokeBinding open_ctx ''mcp_binding_fallback'' 5500] bound_store)"
    by (intro ticket_redeemed_once [OF sample_stores_reach(1) sample_redeemed]) (simp_all add: saves_secret_def)
  then show ?thesis using sample_redeemed by (simp add: sample_ticket_def)
qed

text \<open>A redemption binds exactly what the ticket grants. The binding it returns is active, belongs to the owner, actor and
  domain of a pending, unexpired ticket with that secret, names the peer that redeemed it and is linked to a new hidden
  session; the ticket is consumed, and a peer that already has an active binding gets none.\<close>

theorem redemption_binds:
  assumes "reach empty_store mcp_step s" and "RedeemMCPAccessTicket cx env h peer now s = (Inr b, s')"
  shows "\<exists>t. mget (st_mcpAccessTickets s) (ti_ID t) = Some t \<and> ti_SecretHash t = TrimSpace h \<and> ti_Status t = MCPAccessPending \<and>
    normalizeMCPTime now < ti_ExpiresAt t \<and> ti_DomainID t = pi_DomainID peer \<and>
    bi_OwnerID b = ti_OwnerID t \<and> bi_ActorID b = ti_ActorID t \<and> bi_AuthorizationRevision b = ti_AuthorizationRevision t \<and>
    bi_Status b = MCPBindingActive \<and> binding_key b = Inl (pi_DomainID peer, pi_DeviceID peer, pi_KeyThumbprint peer) \<and>
    (\<forall>x \<in> set (mvals (st_mcpBindings s)). binding_key x \<noteq> binding_key b) \<and>
    mget (st_mcpBindings s') (bi_ID b) = Some b \<and>
    map_option ti_Status (mget (st_mcpAccessTickets s') (ti_ID t)) = Some MCPAccessConsumed \<and>
    mget (st_sessions s') (bi_LinkedSessionID b) = Some (linked_session b (normalizeSessionTime (normalizeMCPTime now)))"
proof -
  have inv: "mcp_inv s" using agents.reach_inv [OF assms(1)] .
  obtain t where t: "mget (st_mcpAccessTickets s) (ti_ID t) = Some t" "redeemable (TrimSpace h) peer (normalizeMCPTime now) t"
    "\<forall>b \<in> set (mvals (st_mcpBindings s)). binding_key b \<noteq> Inl (pi_DomainID peer, pi_DeviceID peer, pi_KeyThumbprint peer)"
    and b: "b = redeemed_binding (en_rand env) t peer (normalizeMCPTime now)"
    and s': "s' = redeem_store env (ti_ID t) t peer (normalizeMCPTime now) s"
    using RedeemMCPAccessTicket_cases [OF assms(2) inv] by auto
  have "mget (st_sessions s') (bi_LinkedSessionID b) = Some (linked_session b (normalizeSessionTime (normalizeMCPTime now)))"
    by (simp add: s' b redeem_store_def Let_def)
  with t show ?thesis
    by (intro exI [of _ t]) (simp add: b s' redeem_store_fields redeemed_binding_fields redeemable_def)
qed

lemma redemption_binds_witness:
  "\<exists>t :: MCPAccessTicket. ti_SecretHash t = ''hash'' \<and> bi_OwnerID sample_binding = ti_OwnerID t \<and> bi_Status sample_binding = MCPBindingActive"
proof -
  obtain t :: MCPAccessTicket where "ti_SecretHash t = TrimSpace '' hash ''" "bi_OwnerID sample_binding = ti_OwnerID t" "bi_Status sample_binding = MCPBindingActive"
    using redemption_binds [OF sample_stores_reach(1) sample_redeemed] by blast
  then show ?thesis unfolding sample_normal(4) by blast
qed

section \<open>Bindings\<close>

text \<open>A peer has at most one active binding, and looking it up is exact. In every reachable store the lookup for a peer finds a
  binding exactly when it is stored under its identity, active and of that peer, so the answer does not depend on the order of
  the iteration; the same holds for tickets and secrets and for operations and idempotency keys.\<close>

theorem agent_lookups_exact:
  assumes "reach empty_store mcp_step s"
  shows "(\<forall>d v k b. FindMCPBindingForPeer open_ctx d v k s = (Inr (Some b), s) \<longleftrightarrow>
      mget (st_mcpBindings s) (bi_ID b) = Some b \<and> active_for d v k b) \<and>
    (\<forall>h t. FindMCPAccessTicketBySecretHash open_ctx h s = (Inr (Some t), s) \<longleftrightarrow>
      mget (st_mcpAccessTickets s) (ti_ID t) = Some t \<and> ti_SecretHash t = h) \<and>
    (\<forall>b k p. FindMCPOperationByIdempotency open_ctx b k s = (Inr (Some p), s) \<longleftrightarrow>
      mget (st_mcpOperations s) (mo_ID p) = Some p \<and> mo_BindingID p = b \<and> mo_IdempotencyKey p = k)"
proof -
  note t = mcp_inv_tables [OF agents.reach_inv [OF assms]]
  have "active_for d v k = (\<lambda>b. binding_key b = Inl (d, v, k))" for d v k
    by (rule ext) (rule active_for_key)
  then have "(FindMCPBindingForPeer open_ctx d v k s = (Inr (Some b), s)) =
      (mget (st_mcpBindings s) (bi_ID b) = Some b \<and> active_for d v k b)" for d v k b
    by (simp add: FindMCPBindingForPeer_def framed_def checked_def binding_ledger.find_exact [OF t(2)])
  moreover have "(FindMCPAccessTicketBySecretHash open_ctx h s = (Inr (Some x), s)) =
      (mget (st_mcpAccessTickets s) (ti_ID x) = Some x \<and> ti_SecretHash x = h)" for h x
    by (simp add: FindMCPAccessTicketBySecretHash_def framed_def checked_def ticket_ledger.find_exact [OF t(1)])
  moreover have "(FindMCPOperationByIdempotency open_ctx b k s = (Inr (Some p), s)) =
      (mget (st_mcpOperations s) (mo_ID p) = Some p \<and> mo_BindingID p = b \<and> mo_IdempotencyKey p = k)" for b k p
    by (simp add: FindMCPOperationByIdempotency_def framed_def checked_def operation_with_find operation_ledger.find_exact [OF t(3)])
       (simp add: operation_key_def)
  ultimately show ?thesis by blast
qed

lemma agent_lookups_exact_witness:
  "FindMCPBindingForPeer open_ctx ''home'' ''agent-7'' ''key'' agent_store = (Inr (Some sample_binding), agent_store) \<and>
   FindMCPOperationByIdempotency open_ctx ''mcp_binding_fallback'' ''k1'' agent_store = (Inr (Some sample_operation), agent_store)"
proof -
  have "mget (st_mcpBindings agent_store) (bi_ID sample_binding) = Some sample_binding"
    by (simp add: agent_store_operations agent_fields)
  moreover have "mget (st_mcpOperations agent_store) (mo_ID sample_operation) = Some sample_operation"
    by (simp add: agent_store_operations agent_fields)
  ultimately show ?thesis
    using agent_lookups_exact [OF sample_stores_reach(3), THEN conjunct1] agent_fields(2-4)
      agent_lookups_exact [OF sample_stores_reach(3), THEN conjunct2, THEN conjunct2] by blast
qed

text \<open>A call that can make the identity \<open>i\<close> one of a new binding.\<close>

definition issues_binding :: "string \<Rightarrow> mcp_write \<Rightarrow> bool" where
  "issues_binding i c \<longleftrightarrow> (case c of RedeemTicket cx env h peer now \<Rightarrow> NewID (en_rand env) ''mcp_binding'' = i | _ \<Rightarrow> False)"

definition inactive :: "string \<Rightarrow> MemoryStore \<Rightarrow> bool" where
  "inactive i s \<longleftrightarrow> (case mget (st_mcpBindings s) i of None \<Rightarrow> True | Some b \<Rightarrow> bi_Status b = MCPBindingRevoked)"

lemma inactive_call:
  assumes inv: "mcp_inv s" and i: "inactive i s" and c: "\<not> issues_binding i c"
  shows "inactive i (mcp_call c s)"
proof (cases "mcp_call c s = s")
  case False
  note k = mcp_inv_tables(5) [OF inv]
  from inv False show ?thesis
  proof (cases rule: mcp_call_cases)
    case (redeem cx env h peer now t)
    then show ?thesis using i c by (simp add: inactive_def redeem_store_fields issues_binding_def mget_mput)
  next
    case (revoke_binding cx j now b)
    then show ?thesis using i by (auto simp: inactive_def revoke_store_def mget_mput revoked_binding_fields)
  next
    case (touch cx j iscp now b)
    then show ?thesis using i by (auto simp: inactive_def mget_mput)
  qed (use i in \<open>auto simp: inactive_def unbind_store_def purge_store_def mget_mdel keyed_mget_mretain [OF k] split: option.splits\<close>)
qed (use i in simp)

text \<open>C10: revoking a binding ends it. The binding is revoked, every open operation of it becomes revoked with its version advanced,
  finished operations and the operations of other bindings stay as they are, and no later calls make the binding active again,
  unless a redemption draws the same random identity.\<close>

theorem revocation_ends_binding:
  assumes "reach empty_store mcp_step s" and "RevokeMCPBinding cx i now s = (Inr b, s')"
  shows "bi_Status b = MCPBindingRevoked \<and> mget (st_mcpBindings s') i = Some b \<and>
    (\<forall>j p. mget (st_mcpOperations s) j = Some p \<longrightarrow> mget (st_mcpOperations s') j =
       Some (if mo_BindingID p = i \<and> \<not> mcpOperationTerminal (mo_State p) then revoke_operation i (normalizeMCPTime now) p else p)) \<and>
    (\<forall>p \<in> set (mvals (st_mcpOperations s')). mo_BindingID p = i \<longrightarrow> mcpOperationTerminal (mo_State p)) \<and>
    (\<forall>cs. (\<forall>c \<in> set cs. \<not> issues_binding i c) \<longrightarrow> inactive i (mcp_calls cs s'))"
proof -
  have inv: "mcp_inv s" using agents.reach_inv [OF assms(1)] .
  have inv': "mcp_inv s'" using mcp_inv_call [OF inv, of "RevokeBinding cx i now"] assms(2) by simp
  obtain x where x: "mget (st_mcpBindings s) i = Some x" "b = revoked_binding x (normalizeMCPTime now)"
    "s' = revoke_store i x (normalizeMCPTime now) s"
    using RevokeMCPBinding_cases [OF assms(2)] by auto
  have b: "bi_Status b = MCPBindingRevoked" "mget (st_mcpBindings s') i = Some b"
    using x by (auto simp: revoked_binding_fields revoke_store_def revoked_binding_def)
  have ops: "mget (st_mcpOperations s') j =
      Some (if mo_BindingID p = i \<and> \<not> mcpOperationTerminal (mo_State p) then revoke_operation i (normalizeMCPTime now) p else p)"
    if "mget (st_mcpOperations s) j = Some p" for j p
    using that by (simp add: x(3) revoke_store_def mget_mrewrite) (simp add: revoke_operation_def)
  have closed: "mcpOperationTerminal (mo_State p)" if "p \<in> set (mvals (st_mcpOperations s'))" "mo_BindingID p = i" for p
  proof -
    from that(1) obtain y where "p = revoke_operation i (normalizeMCPTime now) y"
      by (auto simp: x(3) revoke_store_def)
    with \<open>mo_BindingID p = i\<close> revoke_operation_fields(3,5) show ?thesis by simp
  qed
  have "inactive i (mcp_calls cs s')" if "\<forall>c \<in> set cs. \<not> issues_binding i c" for cs
  proof (rule mcp_calls_keep [where P = "inactive i" and Q = "\<lambda>c. \<not> issues_binding i c", OF inv' _ _ that])
    show "inactive i s'" by (simp add: inactive_def b)
  qed (rule inactive_call)
  then show ?thesis using b ops closed by blast
qed

definition revoked_store :: MemoryStore where
  "revoked_store = snd (RevokeMCPBinding open_ctx ''mcp_binding_fallback'' 6000 agent_store)"

lemma sample_revoked:
  "RevokeMCPBinding open_ctx ''mcp_binding_fallback'' 6000 agent_store = (Inr (revoked_binding sample_binding 6000), revoked_store)"
proof -
  have "normalizeMCPTime 6000 = 6000" by code_simp
  then show ?thesis by (simp add: revoked_store_def RevokeMCPBinding_def framed_def checked_def agent_store_operations Let_def)
qed

lemma revocation_ends_binding_witness:
  "mcpOperationTerminal (mo_State sample_operation) = False \<and>
   filter (\<lambda>p. mo_BindingID p = ''mcp_binding_fallback'' \<and> \<not> mcpOperationTerminal (mo_State p)) (mvals (st_mcpOperations revoked_store)) = [] \<and>
   inactive ''mcp_binding_fallback'' (mcp_calls [TouchBinding open_ctx ''mcp_binding_fallback'' ''i2'' 7000] revoked_store)"
proof -
  note r = revocation_ends_binding [OF sample_stores_reach(3) sample_revoked]
  have "inactive ''mcp_binding_fallback'' (mcp_calls [TouchBinding open_ctx ''mcp_binding_fallback'' ''i2'' 7000] revoked_store)"
    by (rule r [THEN conjunct2, THEN conjunct2, THEN conjunct2, THEN conjunct2, rule_format]) (simp add: issues_binding_def)
  moreover have "mcpOperationTerminal (mo_State sample_operation) = False"
    by (simp add: mcpOperationTerminal_def sample_operation_def)
  moreover have "filter (\<lambda>p. mo_BindingID p = ''mcp_binding_fallback'' \<and> \<not> mcpOperationTerminal (mo_State p)) (mvals (st_mcpOperations revoked_store)) = []"
    using r unfolding filter_empty_conv by blast
  ultimately show ?thesis by blast
qed

text \<open>Deleting the access records of an owner deletes exactly those: the tickets and bindings of the owner and the operations of
  those bindings are gone and counted, everything else is kept as it is.\<close>

theorem access_records_deleted:
  assumes "reach empty_store mcp_step s" and "DeleteMCPAccessRecords cx owner s = (Inr d, s')"
  shows "(\<forall>i t. mget (st_mcpAccessTickets s') i = Some t \<longleftrightarrow> mget (st_mcpAccessTickets s) i = Some t \<and> ti_OwnerID t \<noteq> owner) \<and>
    (\<forall>i b. mget (st_mcpBindings s') i = Some b \<longleftrightarrow> mget (st_mcpBindings s) i = Some b \<and> bi_OwnerID b \<noteq> owner) \<and>
    (\<forall>i p. mget (st_mcpOperations s') i = Some p \<longleftrightarrow> mget (st_mcpOperations s) i = Some p \<and>
      \<not> (\<exists>b. mget (st_mcpBindings s) (mo_BindingID p) = Some b \<and> bi_OwnerID b = owner)) \<and>
    rd_DeletedTickets d = int (length (filter (\<lambda>t. ti_OwnerID t = owner) (mvals (st_mcpAccessTickets s)))) \<and>
    rd_DeletedBindings d = int (length (filter (\<lambda>b. bi_OwnerID b = owner) (mvals (st_mcpBindings s))))"
proof -
  note k = mcp_inv_tables(4,5,6) [OF agents.reach_inv [OF assms(1)]]
  have l: "length (mretain P m) = length (filter P (mvals m))" for P :: "'v \<Rightarrow> bool" and m :: "(string, 'v) gomap"
    by (induction m) (auto simp: mretain_def)
  have body: "(Inr d, s') = (Inr \<lparr>rd_DeletedTickets = int (length (mretain (\<lambda>t. ti_OwnerID t = owner) (st_mcpAccessTickets s))),
      rd_DeletedBindings = int (length (mretain (\<lambda>b. bi_OwnerID b = owner) (st_mcpBindings s)))\<rparr>, purge_store owner s)"
    using framed_ok [THEN iffD1, OF assms(2) [unfolded DeleteMCPAccessRecords_def]] by (simp add: Let_def purge_store_def)
  have own: "(mo_BindingID p \<notin> set (mkeys (mretain (\<lambda>b. bi_OwnerID b = owner) (st_mcpBindings s)))) \<longleftrightarrow>
      \<not> (\<exists>b. mget (st_mcpBindings s) (mo_BindingID p) = Some b \<and> bi_OwnerID b = owner)" for p :: MCPOperation
    by (auto simp: in_mkeys keyed_mget_mretain [OF k(2)] split: option.splits)
  have s': "s' = purge_store owner s"
    and d: "rd_DeletedTickets d = int (length (filter (\<lambda>t. ti_OwnerID t = owner) (mvals (st_mcpAccessTickets s))))"
      "rd_DeletedBindings d = int (length (filter (\<lambda>b. bi_OwnerID b = owner) (mvals (st_mcpBindings s))))"
    using body by (simp_all add: l)
  have "(mget (st_mcpOperations s') i = Some p) = (mget (st_mcpOperations s) i = Some p \<and>
      \<not> (\<exists>b. mget (st_mcpBindings s) (mo_BindingID p) = Some b \<and> bi_OwnerID b = owner))" for i p
    unfolding own [symmetric] by (simp add: s' purge_store_def keyed_mget_mretain [OF k(3)] split: option.splits) blast
  moreover have "(mget (st_mcpAccessTickets s') i = Some t) = (mget (st_mcpAccessTickets s) i = Some t \<and> ti_OwnerID t \<noteq> owner)" for i t
    by (auto simp: s' purge_store_def keyed_mget_mretain [OF k(1)] split: option.splits)
  moreover have "(mget (st_mcpBindings s') i = Some b) = (mget (st_mcpBindings s) i = Some b \<and> bi_OwnerID b \<noteq> owner)" for i b
    by (auto simp: s' purge_store_def keyed_mget_mretain [OF k(2)] split: option.splits)
  ultimately show ?thesis using d by blast
qed

lemma access_records_deleted_witness:
  "\<exists>d s'. DeleteMCPAccessRecords open_ctx ''owner'' agent_store = (Inr d, s') \<and> rd_DeletedBindings d = 1 \<and>
     mget (st_mcpOperations s') sample_op = None"
proof -
  obtain d s' where d: "DeleteMCPAccessRecords open_ctx ''owner'' agent_store = (Inr d, s')"
    by (simp add: DeleteMCPAccessRecords_def framed_def checked_def Let_def)
  note r = access_records_deleted [OF sample_stores_reach(3) d]
  have "rd_DeletedBindings d = 1" using r by (simp add: agent_store_operations agent_fields)
  moreover have "mget (st_mcpOperations s') sample_op = None"
  proof (rule ccontr)
    assume "mget (st_mcpOperations s') sample_op \<noteq> None"
    then obtain p where "mget (st_mcpOperations s') sample_op = Some p" by blast
    with r have "mget (st_mcpOperations agent_store) sample_op = Some p"
      "\<not> (\<exists>b. mget (st_mcpBindings agent_store) (mo_BindingID p) = Some b \<and> bi_OwnerID b = ''owner'')" by blast+
    then show False by (auto simp: agent_store_operations agent_fields)
  qed
  ultimately show ?thesis using d by blast
qed

section \<open>Operations\<close>

definition erases :: "mcp_write \<Rightarrow> bool" where
  "erases c \<longleftrightarrow> (case c of DeleteBinding cx owner i \<Rightarrow> True | DeleteRecords cx owner \<Rightarrow> True | _ \<Rightarrow> False)"

text \<open>What a call that erases nothing makes of a stored operation: it stays, or its next version takes its place.\<close>

lemma operation_after_call:
  assumes inv: "mcp_inv s" and x: "mget (st_mcpOperations s) i = Some x" and c: "\<not> erases c"
  shows "\<exists>y. mget (st_mcpOperations (mcp_call c s)) i = Some y \<and> operation_key y = operation_key x \<and>
    mo_Fingerprint y = mo_Fingerprint x \<and> (y = x \<or> mo_Version y = wrap64 (mo_Version x + 1))"
proof (cases "mcp_call c s = s")
  case False
  from inv False show ?thesis
  proof (cases rule: mcp_call_cases)
    case (redeem cx env h peer now t)
    then show ?thesis using x by (simp add: redeem_store_fields)
  next
    case (revoke_binding cx j now b)
    then show ?thesis
      using x by (simp add: revoke_store_def mget_mrewrite revoke_operation_fields) (simp add: revoke_operation_def)
  next
    case (create cx env operation p)
    then show ?thesis using x by (simp add: mget_mput) (metis option.distinct(1))
  next
    case (update cx env p v y)
    show ?thesis
    proof (cases "mo_ID p = i")
      case True
      then show ?thesis using update x by (simp add: updated_operation_fields)
    next
      case False
      then show ?thesis using update(5) x by simp
    qed
  qed (use x c in \<open>auto simp: erases_def\<close>)
qed (use x in auto)

text \<open>C13: an idempotency key names one operation. Once an operation was created, creating it again, whatever has happened to it
  since, answers with the operation as it is now and marks it as not new; a different request under the key is refused;
  neither changes the store.\<close>

theorem operation_created_once:
  assumes "reach empty_store mcp_step s" and "CreateMCPOperation cx env p s = (Inr (q, True), s')"
    and "\<forall>c \<in> set cs. \<not> erases c" and "mo_BindingID r = mo_BindingID p" and "mo_IdempotencyKey r = mo_IdempotencyKey p"
  shows "\<exists>now_q. mget (st_mcpOperations (mcp_calls cs s')) (mo_ID q) = Some now_q \<and>
    CreateMCPOperation open_ctx env' r (mcp_calls cs s') =
      (if mo_Fingerprint r = mo_Fingerprint p then Inr (now_q, False)
       else Inl (storeError ''mcp_operation.create'' StoreErrorConflict ErrMCPOperationConflict), mcp_calls cs s')"
proof -
  let ?s = "mcp_calls cs s'"
  let ?P = "\<lambda>s. \<exists>x. mget (st_mcpOperations s) (mo_ID q) = Some x \<and> operation_key x = operation_key p \<and> mo_Fingerprint x = mo_Fingerprint p"
  have inv: "mcp_inv s" using agents.reach_inv [OF assms(1)] .
  have inv': "mcp_inv s'" using mcp_inv_call [OF inv, of "CreateOperation cx env p"] assms(2) by simp
  have q: "q = normalizeMCPOperation (en_rand env) p (en_now env)" "s' = s\<lparr>st_mcpOperations := mput (mo_ID q) q (st_mcpOperations s)\<rparr>"
    using CreateMCPOperation_cases [OF assms(2)] by auto
  have "?P s'" using q normalized_operation(2,4) by simp
  moreover have "?P (mcp_call c t)" if "mcp_inv t" "?P t" "\<not> erases c" for c t
    using operation_after_call [OF that(1) _ that(3)] that(2) by metis
  ultimately have "?P ?s" using mcp_calls_keep [where Q = "\<lambda>c. \<not> erases c" and P = ?P, OF inv' _ _ assms(3)] by blast
  then obtain x where x: "mget (st_mcpOperations ?s) (mo_ID q) = Some x" "operation_key x = operation_key p" "mo_Fingerprint x = mo_Fingerprint p"
    by blast
  note t = mcp_inv_tables(3) [OF mcp_inv_calls [OF inv', of cs]]
  have "mo_ID x = mo_ID q" using operation_ledger.get_wf [OF t x(1)] by simp
  then have "operation_with (mo_BindingID r) (mo_IdempotencyKey r) ?s = Some x"
    unfolding operation_with_find using operation_ledger.find_exact [OF t, of "(mo_BindingID r, mo_IdempotencyKey r)" x] x assms(4,5)
    by (simp add: operation_key_def)
  then have "CreateMCPOperation open_ctx env' r ?s =
      (if mo_Fingerprint r = mo_Fingerprint p then Inr (x, False)
       else Inl (storeError ''mcp_operation.create'' StoreErrorConflict ErrMCPOperationConflict), ?s)"
    using x(3) by (simp add: CreateMCPOperation_def framed_def checked_def)
  with x(1) show ?thesis by blast
qed

lemma operation_created_once_witness:
  "\<exists>now_q. CreateMCPOperation open_ctx other_env sample_operation (mcp_calls [RevokeBinding open_ctx ''mcp_binding_fallback'' 6000] agent_store) =
     (Inr (now_q, False), mcp_calls [RevokeBinding open_ctx ''mcp_binding_fallback'' 6000] agent_store)"
  using operation_created_once [OF sample_stores_reach(2) agent_created, of "[RevokeBinding open_ctx ''mcp_binding_fallback'' 6000]" sample_operation other_env]
  by (auto simp: erases_def)

text \<open>C14: no update of an operation is lost. After an update from version \<open>v\<close> succeeded, every other update from version \<open>v\<close> is
  refused and changes nothing, as long as the operation is not erased and its version does not overflow.\<close>

theorem operation_updates_optimistic:
  assumes "reach empty_store mcp_step s" and "UpdateMCPOperation cx env p v s = (Inr q, s')"
    and "\<forall>c \<in> set cs. \<not> erases c" and "- (2 ^ 63) \<le> v" and "v + int (length cs) + 1 < 2 ^ 63" and "mo_ID r = mo_ID p"
  shows "\<exists>e. UpdateMCPOperation cx' env' r v (mcp_calls cs s') = (Inl e, mcp_calls cs s')"
proof -
  have inv: "mcp_inv s" using agents.reach_inv [OF assms(1)] .
  have inv': "mcp_inv s'" using mcp_inv_call [OF inv, of "UpdateOperation cx env p v"] assms(2) by simp
  obtain x where x: "mo_Version x = v" "q = updated_operation env x p" "s' = s\<lparr>st_mcpOperations := mput (mo_ID p) q (st_mcpOperations s)\<rparr>"
    using UpdateMCPOperation_cases [OF assms(2)] by auto
  have "mget (st_mcpOperations s') (mo_ID p) = Some q" "mo_Version q = v + 1"
    using x assms(4,5) by (simp_all add: updated_operation_fields wrap64_id)
  then have start: "\<exists>y. mget (st_mcpOperations s') (mo_ID p) = Some y \<and> v < mo_Version y \<and> mo_Version y \<le> v + 1"
    by simp
  have later: "\<exists>y. mget (st_mcpOperations (mcp_calls ds t)) (mo_ID p) = Some y \<and> v < mo_Version y"
    if "mcp_inv t" "\<exists>y. mget (st_mcpOperations t) (mo_ID p) = Some y \<and> v < mo_Version y \<and> mo_Version y \<le> w"
      "\<forall>c \<in> set ds. \<not> erases c" "w + int (length ds) < 2 ^ 63" for ds t w
    using that
  proof (induction ds arbitrary: t w)
    case (Cons c ds)
    then obtain y where y: "mget (st_mcpOperations t) (mo_ID p) = Some y" "v < mo_Version y" "mo_Version y \<le> w" by blast
    obtain z where z: "mget (st_mcpOperations (mcp_call c t)) (mo_ID p) = Some z" "z = y \<or> mo_Version z = wrap64 (mo_Version y + 1)"
      using operation_after_call [OF Cons.prems(1) y(1)] Cons.prems(3) by auto
    have "wrap64 (mo_Version y + 1) = mo_Version y + 1"
      by (rule wrap64_id) (use y(2,3) assms(4) Cons.prems(4) in simp_all)
    then have "v < mo_Version z \<and> mo_Version z \<le> w + 1" using z(2) y by auto
    then show ?case
      using Cons.IH [of "mcp_call c t" "w + 1"] z(1) Cons.prems by (simp add: mcp_inv_call)
  qed auto
  obtain y where y: "mget (st_mcpOperations (mcp_calls cs s')) (mo_ID p) = Some y" "v < mo_Version y"
    using later [OF inv' start assms(3)] assms(5) by auto
  obtain res t where u: "UpdateMCPOperation cx' env' r v (mcp_calls cs s') = (res, t)" by fastforce
  with UpdateMCPOperation_cases [OF u] y assms(6) show ?thesis by auto
qed

lemma operation_updates_optimistic_witness:
  "\<exists>q s' e. UpdateMCPOperation open_ctx other_env (sample_operation\<lparr>mo_State := ''succeeded''\<rparr>) 1 agent_store = (Inr q, s') \<and>
     UpdateMCPOperation open_ctx other_env (sample_operation\<lparr>mo_State := ''failed''\<rparr>) 1 s' = (Inl e, s')"
proof -
  have same: "mcpOperationIdentityEqual sample_operation (sample_operation\<lparr>mo_State := ''succeeded''\<rparr>)"
  proof -
    have "invocation_ok sample_invocation" by code_simp
    then show ?thesis by (simp add: mcpOperationIdentityEqual_def mcpRecordsEqual_def sample_operation_def)
  qed
  have i: "mo_ID sample_operation = sample_op" "mo_Version sample_operation = 1" by (simp_all add: sample_operation_def)
  obtain q s' where u: "UpdateMCPOperation open_ctx other_env (sample_operation\<lparr>mo_State := ''succeeded''\<rparr>) 1 agent_store = (Inr q, s')"
    using same by (simp add: UpdateMCPOperation_def framed_def checked_def agent_store_operations i Let_def)
  have "\<exists>e. UpdateMCPOperation open_ctx other_env (sample_operation\<lparr>mo_State := ''failed''\<rparr>) 1 (mcp_calls [] s') = (Inl e, mcp_calls [] s')"
    by (rule operation_updates_optimistic [OF sample_stores_reach(3) u]) simp_all
  then show ?thesis using u by auto
qed

end
