(* ===== verification/Session_Deletion.thy ===== *)
theory Session_Deletion
  imports Sessions Approvals Runs Schedules MCP_Repository
begin

text \<open>
  What deleting a session does to the whole store: exactly the records of the session go, from every table and from both logs,
  and the invariants of all the repositories survive. The sessions that anchor the binding of an external agent cannot be deleted.
\<close>

section \<open>Tables after a deletion\<close>

text \<open>\<open>survivors P m m'\<close>: the map \<open>m'\<close> holds exactly the entries of \<open>m\<close> whose value satisfies \<open>P\<close>.\<close>

definition survivors :: "('v \<Rightarrow> bool) \<Rightarrow> ('k, 'v) gomap \<Rightarrow> ('k, 'v) gomap \<Rightarrow> bool" where
  "survivors P m m' \<longleftrightarrow> (\<forall>k v. mget m' k = Some v \<longleftrightarrow> mget m k = Some v \<and> P v)"

text \<open>Go maps have distinct keys.\<close>

definition maps_ok :: "MemoryStore \<Rightarrow> bool" where
  "maps_ok s \<longleftrightarrow> distinct (map fst (st_runFeedback s)) \<and> distinct (map fst (st_runs s)) \<and> distinct (map fst (st_browserLoginBlocks s)) \<and>
     distinct (map fst (st_memories s)) \<and> distinct (map fst (st_modelCalls s)) \<and> distinct (map fst (st_toolCalls s)) \<and>
     distinct (map fst (st_documentRecords s)) \<and> distinct (map fst (st_approvals s)) \<and> distinct (map fst (st_reminders s)) \<and>
     distinct (map fst (st_reminderDelivery s)) \<and> distinct (map fst (st_memoryCandidates s)) \<and> distinct (map fst (st_artifactObjects s)) \<and>
     distinct (map fst (st_episodeSummaries s)) \<and> distinct (map fst (st_externalChatSessions s)) \<and>
     distinct (map fst (st_externalChatMessages s))"

lemma survivors_mretain: "distinct (map fst m) \<Longrightarrow> survivors P m (mretain P m)"
  by (auto simp: survivors_def mget_mretain split: option.splits simp del: map_of_eq_Some_iff)

lemma mget_mdel_all: "mget (mdel_all ks m) x = (if x \<in> set ks then None else mget m x)"
  by (induction m) (auto simp: mdel_all_def)

lemma distinct_mdel_all: "distinct (map fst m) \<Longrightarrow> distinct (map fst (mdel_all ks m))"
  by (simp add: mdel_all_def distinct_filter_keys)

lemma session_keys:
  "distinct (map fst m) \<Longrightarrow> k \<in> set (mkeys (mretain P m)) \<longleftrightarrow> (\<exists>r. mget m k = Some r \<and> P r)"
  by (auto simp: in_mkeys mget_mretain split: option.splits simp del: map_of_eq_Some_iff)

lemma survivors_runs:
  assumes "distinct (map fst m)"
  shows "survivors (\<lambda>r. sess r \<noteq> i) m (mretain (\<lambda>r. sess r \<noteq> i) (mdel_all (mkeys (mretain (\<lambda>r. sess r = i) m)) m))"
  using assms
  by (auto simp: survivors_def mget_mretain distinct_mdel_all mget_mdel_all session_keys split: option.splits if_splits
      simp del: map_of_eq_Some_iff)

text \<open>The feedback of a run that stays is its old feedback without the entries of the session; a run without any has no entry.\<close>

lemma strip_feedback_get:
  assumes "distinct (map fst m)"
  shows "mget (strip_feedback i m) k = (case mget m k of None \<Rightarrow> None | Some items \<Rightarrow>
     if filter (\<lambda>f. fb_SessionID f \<noteq> i) items \<noteq> [] then Some (filter (\<lambda>f. fb_SessionID f \<noteq> i) items) else None)"
  using assms
  by (simp add: strip_feedback_def mget_mretain mget_mrewrite split: option.splits del: map_of_eq_Some_iff)

section \<open>The index of artifacts\<close>

definition uri_index_ok :: "(string, ArtifactObject) gomap \<Rightarrow> (string, string list) gomap \<Rightarrow> bool" where
  "uri_index_ok m idx \<longleftrightarrow>
     (\<forall>uri i. i \<in> set (ids_at idx uri) \<longleftrightarrow> (\<exists>ob. mget m i = Some ob \<and> ao_ID ob = i \<and> ao_URI ob = uri)) \<and>
     (\<forall>uri. mget idx uri \<noteq> Some [])"

lemma unindex_ids:
  "ids_at (unindexArtifactObjectLocked ob idx) uri =
     (if uri = ao_URI ob then removeAll (ao_ID ob) (ids_at idx uri) else ids_at idx uri)"
  by (simp add: unindexArtifactObjectLocked_def ids_at_def Let_def mget_mdel mget_mput split: option.splits)

lemma unindex_nonempty: "\<forall>u. mget idx u \<noteq> Some [] \<Longrightarrow> mget (unindexArtifactObjectLocked ob idx) uri \<noteq> Some []"
  by (simp add: unindexArtifactObjectLocked_def Let_def mget_mdel mget_mput)

lemma unindex_all:
  "x \<in> set (ids_at (fold unindexArtifactObjectLocked obs idx) uri) \<longleftrightarrow>
     x \<in> set (ids_at idx uri) \<and> (\<forall>ob \<in> set obs. ao_URI ob = uri \<longrightarrow> ao_ID ob \<noteq> x)"
  by (induction obs arbitrary: idx) (auto simp: unindex_ids)

lemma unindexed_filter:
  "ids_at (fold unindexArtifactObjectLocked obs idx) uri =
     filter (\<lambda>x. \<not> (\<exists>ob \<in> set obs. ao_URI ob = uri \<and> ao_ID ob = x)) (ids_at idx uri)"
proof (induction obs arbitrary: idx)
  case (Cons ob obs)
  have "ids_at (fold unindexArtifactObjectLocked (ob # obs) idx) uri =
      filter (\<lambda>x. \<not> (\<exists>ob \<in> set obs. ao_URI ob = uri \<and> ao_ID ob = x)) (ids_at (unindexArtifactObjectLocked ob idx) uri)"
    using Cons.IH by simp
  then show ?case by (auto simp: unindex_ids removeAll_filter_not_eq intro: filter_cong)
qed simp

lemma unindexed_ids:
  assumes "distinct (map fst m)"
  shows "ids_at (fold unindexArtifactObjectLocked (filter (\<lambda>ob. ao_SessionID ob = i) (mvals m)) idx) uri =
    filter (\<lambda>x. \<not> (\<exists>k ob. mget m k = Some ob \<and> ao_SessionID ob = i \<and> ao_URI ob = uri \<and> ao_ID ob = x)) (ids_at idx uri)"
proof -
  have "ob \<in> set (mvals m) \<longleftrightarrow> (\<exists>k. mget m k = Some ob)" for ob
    using assms by (force simp: mvals_def)
  then show ?thesis unfolding unindexed_filter by (intro filter_cong) auto
qed

lemma unindex_all_nonempty:
  "\<forall>u. mget idx u \<noteq> Some [] \<Longrightarrow> mget (fold unindexArtifactObjectLocked obs idx) uri \<noteq> Some []"
  by (induction obs arbitrary: idx) (simp_all add: unindex_nonempty)

lemma uri_index_erased:
  assumes "keyed ao_ID m" and "uri_index_ok m idx"
  shows "uri_index_ok (mretain (\<lambda>ob. ao_SessionID ob \<noteq> i) m)
    (fold unindexArtifactObjectLocked (filter (\<lambda>ob. ao_SessionID ob = i) (mvals m)) idx)" (is "uri_index_ok ?m ?idx")
proof -
  have gone: "ob \<in> set (filter (\<lambda>ob. ao_SessionID ob = i) (mvals m)) \<longleftrightarrow> mget m (ao_ID ob) = Some ob \<and> ao_SessionID ob = i" for ob
    using keyed_vals [OF assms(1), of ob] by (simp del: map_of_eq_Some_iff)
  have idx: "x \<in> set (ids_at idx uri) \<longleftrightarrow> (\<exists>ob. mget m x = Some ob \<and> ao_ID ob = x \<and> ao_URI ob = uri)" for x uri
    using assms(2) by (simp add: uri_index_ok_def)
  have "x \<in> set (ids_at ?idx uri) \<longleftrightarrow> (\<exists>ob. mget ?m x = Some ob \<and> ao_ID ob = x \<and> ao_URI ob = uri)" for x uri
  proof (cases "mget m x")
    case None
    then show ?thesis unfolding unindex_all idx by (simp add: keyed_mget_mretain [OF assms(1)])
  next
    case (Some ob)
    then have x: "ao_ID ob = x" by (rule keyed_get [OF assms(1)])
    have "(\<forall>o' \<in> set (filter (\<lambda>ob. ao_SessionID ob = i) (mvals m)). ao_URI o' = uri \<longrightarrow> ao_ID o' \<noteq> x) \<longleftrightarrow>
        \<not> (ao_SessionID ob = i \<and> ao_URI ob = uri)"
      unfolding Ball_def gone using Some x by (metis option.inject)
    then show ?thesis unfolding unindex_all idx using Some x by (auto simp: keyed_mget_mretain [OF assms(1)])
  qed
  moreover have "mget ?idx uri \<noteq> Some []" for uri
    using assms(2) by (intro unindex_all_nonempty) (simp add: uri_index_ok_def)
  ultimately show ?thesis by (simp add: uri_index_ok_def)
qed

section \<open>What a deletion does\<close>

definition deleted_store :: "op_env \<Rightarrow> bool \<Rightarrow> Session \<Rightarrow> string \<Rightarrow> MemoryStore \<Rightarrow> MemoryStore" where
  "deleted_store env flag se i s =
     (if flag then erase_session se i s
      else appendEventLocked env ''session.deleted'' [] [] (PSession se)
        (appendAuditLocked env ''session.deleted'' [] [] ''owner'' ''Session deleted''
          [(''session_id'', AnyString i), (''title'', AnyString (se_Title se))] (erase_session se i s)))"

lemma deleteSession_cases:
  assumes "deleteSession cx env op i flag s = (res, s')"
  shows "(s' = s \<and> (\<exists>e. res = Inl e)) \<or>
    (\<exists>se. mget (st_sessions s) i = Some se \<and> validatePersistedSession i se = None \<and> TrimSpace i \<noteq> [] \<and>
      (TrimSpace (se_Source se) = ''mcp'') = flag \<and>
      (flag \<longrightarrow> se_Hidden se \<and> (\<forall>b \<in> set (mvals (st_mcpBindings s)). bi_LinkedSessionID b \<noteq> i)) \<and>
      res = Inr se \<and> s' = deleted_store env flag se i s)"
  using assms by (auto simp: deleteSession_def checked_def deleted_store_def split: option.splits if_splits)

lemma erased_tables:
  "st_sessions (erase_session se i s) = mdel i (st_sessions s)"
  "st_messages (erase_session se i s) = mdel i (st_messages s)"
  "st_sessionWriteHighWater (erase_session se i s) = st_sessionWriteHighWater s"
  "st_workbenchDrafts (erase_session se i s) = mdel (se_OwnerID se, i) (st_workbenchDrafts s)"
  "st_toolCallIDsBySession (erase_session se i s) = mdel i (st_toolCallIDsBySession s)"
  "st_episodeIDsBySession (erase_session se i s) = mdel i (st_episodeIDsBySession s)"
  "st_runs (erase_session se i s) = mretain (\<lambda>r. ru_SessionID r \<noteq> i) (mdel_all (mkeys (mretain (\<lambda>r. ru_SessionID r = i) (st_runs s))) (st_runs s))"
  "st_modelCalls (erase_session se i s) = mretain (\<lambda>c. mc_SessionID c \<noteq> i) (st_modelCalls s)"
  "st_toolCalls (erase_session se i s) = mretain (\<lambda>c. tc_SessionID c \<noteq> i) (st_toolCalls s)"
  "st_approvals (erase_session se i s) = mretain (\<lambda>a. ap_SessionID a \<noteq> i) (st_approvals s)"
  "st_reminders (erase_session se i s) = mretain (\<lambda>r. rm_SessionID r \<noteq> i) (st_reminders s)"
  "st_reminderDelivery (erase_session se i s) =
     mretain (\<lambda>d. rd_ReminderID d \<notin> set (mkeys (mretain (\<lambda>r. rm_SessionID r = i) (st_reminders s)))) (st_reminderDelivery s)"
  "st_episodeSummaries (erase_session se i s) = mretain (\<lambda>e. ep_SessionID e \<noteq> i) (st_episodeSummaries s)"
  "st_auditEvents (erase_session se i s) = filter (\<lambda>e. ae_SessionID e \<noteq> i) (st_auditEvents s)"
  "st_events (erase_session se i s) = filter (\<lambda>e. ev_SessionID e \<noteq> i) (st_events s)"
  "st_messageReceives (erase_session se i s) = st_messageReceives s" "st_messageDeliveries (erase_session se i s) = st_messageDeliveries s"
  "st_channelInboxUpdates (erase_session se i s) = st_channelInboxUpdates s"
  "st_mcpAccessTickets (erase_session se i s) = st_mcpAccessTickets s" "st_mcpBindings (erase_session se i s) = st_mcpBindings s"
  "st_mcpOperations (erase_session se i s) = st_mcpOperations s"
  by (simp_all add: erase_session_def Let_def filterAuditEvents_def filterEvents_def)

lemma erased_records:
  "st_runFeedback (erase_session se i s) = strip_feedback i (mdel_all (mkeys (mretain (\<lambda>r. ru_SessionID r = i) (st_runs s))) (st_runFeedback s))"
  "st_browserLoginBlocks (erase_session se i s) = mretain (\<lambda>b. lb_SessionID b \<noteq> i) (st_browserLoginBlocks s)"
  "st_memories (erase_session se i s) = mretain (\<lambda>m. mm_SourceID m \<notin> set (mkeys (mretain (\<lambda>r. ru_SessionID r = i) (st_runs s)))) (st_memories s)"
  "st_documentRecords (erase_session se i s) = mretain (\<lambda>d. dr_SessionID d \<noteq> i) (st_documentRecords s)"
  "st_memoryCandidates (erase_session se i s) = mretain (\<lambda>c. mn_SessionID c \<noteq> i) (st_memoryCandidates s)"
  "st_artifactObjects (erase_session se i s) = mretain (\<lambda>ob. ao_SessionID ob \<noteq> i) (st_artifactObjects s)"
  "st_artifactObjectIDsByURI (erase_session se i s) = fold unindexArtifactObjectLocked
     (filter (\<lambda>ob. ao_SessionID ob = i) (mvals (st_artifactObjects s))) (st_artifactObjectIDsByURI s)"
  "st_externalChatSessions (erase_session se i s) = mretain (\<lambda>c. cs_LinkedSessionID c \<noteq> i) (st_externalChatSessions s)"
  "st_externalChatMessages (erase_session se i s) =
     mretain (\<lambda>m. cm_ChatSessionID m \<notin> set (mkeys (mretain (\<lambda>c. cs_LinkedSessionID c = i) (st_externalChatSessions s)))) (st_externalChatMessages s)"
  by (simp_all add: erase_session_def Let_def)

lemma untouched_tables:
  "st_transientContentAdmission (erase_session se i s) = st_transientContentAdmission s"
  "st_sessionWriteHighWater (erase_session se i s) = st_sessionWriteHighWater s"
  "st_mcpAccessTickets (erase_session se i s) = st_mcpAccessTickets s" "st_mcpBindings (erase_session se i s) = st_mcpBindings s"
  "st_mcpOperations (erase_session se i s) = st_mcpOperations s" "st_connectorSettings (erase_session se i s) = st_connectorSettings s"
  "st_connectorSettingWriteHighWater (erase_session se i s) = st_connectorSettingWriteHighWater s"
  "st_notificationBindings (erase_session se i s) = st_notificationBindings s"
  "st_notificationBindingWriteHighWater (erase_session se i s) = st_notificationBindingWriteHighWater s"
  "st_messageReceives (erase_session se i s) = st_messageReceives s" "st_messageDeliveries (erase_session se i s) = st_messageDeliveries s"
  "st_channelInboxUpdates (erase_session se i s) = st_channelInboxUpdates s"
  by (simp_all add: erase_session_def Let_def)

section \<open>Deletions keep the invariants\<close>

lemma indexed_erased:
  assumes "indexed key rid sess zero recs idx"
  shows "indexed key rid sess zero (mretain (\<lambda>r. sess r \<noteq> i) recs) (mdel i idx)"
proof -
  have k: "keyed rid recs" using assms by (simp add: indexed_def)
  note got = keyed_mget_mretain [OF k]
  have ids: "ids_at (mdel i idx) sid = (if sid = i then [] else ids_at idx sid)" for sid
    by (simp add: ids_at_def mget_mdel)
  have members: "j \<in> set (ids_at idx sid) \<longleftrightarrow> (\<exists>r. mget recs j = Some r \<and> sess r = sid)"
    and order: "sorted_wrt (<) (map (\<lambda>j. key (rec_at zero recs j)) (ids_at idx sid))" for j sid
    using assms by (simp_all add: indexed_def)
  have same: "rec_at zero (mretain (\<lambda>r. sess r \<noteq> i) recs) j = rec_at zero recs j" if "j \<in> set (ids_at idx sid)" "sid \<noteq> i" for j sid
    using that members [of j sid] by (auto simp: rec_at_def got simp del: map_of_eq_Some_iff)
  have "sorted_wrt (<) (map (\<lambda>j. key (rec_at zero (mretain (\<lambda>r. sess r \<noteq> i) recs) j)) (ids_at idx sid))" if "sid \<noteq> i" for sid
  proof -
    have "map (\<lambda>j. key (rec_at zero (mretain (\<lambda>r. sess r \<noteq> i) recs) j)) (ids_at idx sid) =
        map (\<lambda>j. key (rec_at zero recs j)) (ids_at idx sid)"
      by (rule map_cong [OF refl]) (simp only: same [OF _ that])
    then show ?thesis using order [of sid] by (simp only:)
  qed
  then show ?thesis
    using k members by (auto simp: indexed_def ids got split: option.splits simp del: map_of_eq_Some_iff)
qed

lemma keyed_mdel_all: "keyed rid m \<Longrightarrow> keyed rid (mdel_all ks m)"
  by (simp add: mdel_all_def keyed_filter)

lemma vals_mdel_all: "set (mvals (mdel_all ks m)) \<subseteq> set (mvals m)"
  by (auto simp: mdel_all_def mvals_def)

lemma distinct_concat_mdel: "distinct (map f (concat (mvals m))) \<Longrightarrow> distinct (map f (concat (mvals (mdel i m))))"
proof (induction m)
  case (Cons p m)
  have "set (concat (mvals (mdel i m))) \<subseteq> set (concat (mvals m))" using vals_mdel_subset [of i m] by auto
  with Cons show ?case by (cases p) (auto simp: mdel_def)
qed simp

lemma erase_invariants:
  shows "approvals_inv lib s \<Longrightarrow> approvals_inv lib (erase_session se i s)"
    and "runs_inv s \<Longrightarrow> runs_inv (erase_session se i s)"
    and "schedules_inv s \<Longrightarrow> schedules_inv (erase_session se i s)"
    and "deliveries_inv s \<Longrightarrow> deliveries_inv (erase_session se i s)"
    and "mcp_inv s \<Longrightarrow> mcp_inv (erase_session se i s)"
    and "sessions_inv s \<Longrightarrow> sessions_inv (erase_session se i s)"
proof -
  show "approvals_inv lib s \<Longrightarrow> approvals_inv lib (erase_session se i s)"
    by (auto simp: approvals_inv_def external_unique_def erased_tables)
  show "runs_inv s \<Longrightarrow> runs_inv (erase_session se i s)"
    unfolding runs_inv_def erased_tables
    using vals_mdel_all [of _ "st_runs s"] by (auto simp: indexed_erased keyed_mdel_all)
  show "schedules_inv s \<Longrightarrow> schedules_inv (erase_session se i s)"
    by (simp add: schedules_inv_def erased_tables)
  show "deliveries_inv s \<Longrightarrow> deliveries_inv (erase_session se i s)"
    by (simp add: deliveries_inv_def erased_tables)
  show "mcp_inv s \<Longrightarrow> mcp_inv (erase_session se i s)"
    by (simp add: mcp_inv_def erased_tables)
  assume inv: "sessions_inv s"
  have "\<exists>x. mget (mdel i (st_sessions s)) j = Some x \<and> conversation_ok x ms" if "mget (mdel i (st_messages s)) j = Some ms" for j ms
    using that inv by (simp add: sessions_inv_def mget_mdel split: if_splits del: map_of_eq_Some_iff)
  moreover have "distinct (map fst (mdel i (st_messages s)))"
    using inv by (simp add: sessions_inv_def mdel_def distinct_filter_keys)
  moreover have "session_floor (erase_session se i s) j = session_floor s j" for j
    by (simp add: session_floor_def erased_tables)
  ultimately show "sessions_inv (erase_session se i s)"
    using inv vals_mdel_subset [of i "st_sessions s"] distinct_concat_mdel [of msg_ID "st_messages s" i]
    unfolding sessions_inv_def erased_tables by (simp add: mget_mdel subset_iff)
qed

lemma deleted_invariants:
  assumes "deleteSession cx env op i flag s = (res, s')"
  shows "approvals_inv lib s \<Longrightarrow> approvals_inv lib s'" and "runs_inv s \<Longrightarrow> runs_inv s'" and "schedules_inv s \<Longrightarrow> schedules_inv s'"
    and "deliveries_inv s \<Longrightarrow> deliveries_inv s'" and "mcp_inv s \<Longrightarrow> mcp_inv s'" and "sessions_inv s \<Longrightarrow> sessions_inv s'"
proof -
  have same: "approvals_inv lib (deleted_store env flag se i s) = approvals_inv lib (erase_session se i s)"
    "runs_inv (deleted_store env flag se i s) = runs_inv (erase_session se i s)"
    "schedules_inv (deleted_store env flag se i s) = schedules_inv (erase_session se i s)"
    "deliveries_inv (deleted_store env flag se i s) = deliveries_inv (erase_session se i s)"
    "mcp_inv (deleted_store env flag se i s) = mcp_inv (erase_session se i s)"
    "sessions_inv (deleted_store env flag se i s) = sessions_inv (erase_session se i s)" for se
    by (simp_all add: deleted_store_def approvals_inv_def deliveries_inv_def mcp_inv_def)
  note cases = deleteSession_cases [OF assms]
  show "approvals_inv lib s \<Longrightarrow> approvals_inv lib s'" using cases same(1) erase_invariants(1) by metis
  show "runs_inv s \<Longrightarrow> runs_inv s'" using cases same(2) erase_invariants(2) by metis
  show "schedules_inv s \<Longrightarrow> schedules_inv s'" using cases same(3) erase_invariants(3) by metis
  show "deliveries_inv s \<Longrightarrow> deliveries_inv s'" using cases same(4) erase_invariants(4) by metis
  show "mcp_inv s \<Longrightarrow> mcp_inv s'" using cases same(5) erase_invariants(5) by metis
  show "sessions_inv s \<Longrightarrow> sessions_inv s'" using cases same(6) erase_invariants(6) by metis
qed

section \<open>Properties\<close>

text \<open>The run, reminder or chat session with an identity belongs to the session \<open>i\<close>.\<close>

definition owned_by :: "('r \<Rightarrow> string) \<Rightarrow> string \<Rightarrow> (string, 'r) gomap \<Rightarrow> string \<Rightarrow> bool" where
  "owned_by sess i m k \<longleftrightarrow> (\<exists>r. mget m k = Some r \<and> sess r = i)"

lemma not_owned: "distinct (map fst m) \<Longrightarrow> (\<lambda>x. f x \<notin> set (mkeys (mretain (\<lambda>r. sess r = i) m))) = (\<lambda>x. \<not> owned_by sess i m (f x))"
  by (rule ext) (simp add: session_keys owned_by_def del: map_of_eq_Some_iff)

text \<open>C15: deleting a session removes exactly what is the session's. The session, its messages, its indexes and the draft its owner had
  in it are gone, and no other draft; from each of the other tables with session records exactly the records of the session are gone, with the memories of its runs, the deliveries of its reminders and
  the messages of its chats; the index of artifacts loses exactly the artifacts of the session; of the feedback on other runs only the entries of the session are gone; both logs lose exactly
  the entries of the session, and what the deletion itself logs names no session. The twelve other fields of the store, among them the
  tables of bindings, tickets, operations, connectors and message deliveries, stay as they are.\<close>

theorem deletion_is_exact:
  assumes "maps_ok s" and "deleteSession cx env op i flag s = (Inr se, s')"
  shows "(\<forall>j. mget (st_sessions s') j = (if j = i then None else mget (st_sessions s) j) \<and>
      mget (st_messages s') j = (if j = i then None else mget (st_messages s) j) \<and>
      mget (st_toolCallIDsBySession s') j = (if j = i then None else mget (st_toolCallIDsBySession s) j) \<and>
      mget (st_episodeIDsBySession s') j = (if j = i then None else mget (st_episodeIDsBySession s) j)) \<and>
    survivors (\<lambda>r. ru_SessionID r \<noteq> i) (st_runs s) (st_runs s') \<and>
    survivors (\<lambda>c. mc_SessionID c \<noteq> i) (st_modelCalls s) (st_modelCalls s') \<and>
    survivors (\<lambda>c. tc_SessionID c \<noteq> i) (st_toolCalls s) (st_toolCalls s') \<and>
    survivors (\<lambda>e. ep_SessionID e \<noteq> i) (st_episodeSummaries s) (st_episodeSummaries s') \<and>
    survivors (\<lambda>a. ap_SessionID a \<noteq> i) (st_approvals s) (st_approvals s') \<and>
    survivors (\<lambda>r. rm_SessionID r \<noteq> i) (st_reminders s) (st_reminders s') \<and>
    survivors (\<lambda>d. \<not> owned_by rm_SessionID i (st_reminders s) (rd_ReminderID d)) (st_reminderDelivery s) (st_reminderDelivery s') \<and>
    survivors (\<lambda>m. \<not> owned_by ru_SessionID i (st_runs s) (mm_SourceID m)) (st_memories s) (st_memories s') \<and>
    survivors (\<lambda>c. mn_SessionID c \<noteq> i) (st_memoryCandidates s) (st_memoryCandidates s') \<and>
    survivors (\<lambda>d. dr_SessionID d \<noteq> i) (st_documentRecords s) (st_documentRecords s') \<and>
    survivors (\<lambda>ob. ao_SessionID ob \<noteq> i) (st_artifactObjects s) (st_artifactObjects s') \<and>
    survivors (\<lambda>b. lb_SessionID b \<noteq> i) (st_browserLoginBlocks s) (st_browserLoginBlocks s') \<and>
    survivors (\<lambda>c. cs_LinkedSessionID c \<noteq> i) (st_externalChatSessions s) (st_externalChatSessions s') \<and>
    survivors (\<lambda>m. \<not> owned_by cs_LinkedSessionID i (st_externalChatSessions s) (cm_ChatSessionID m))
      (st_externalChatMessages s) (st_externalChatMessages s') \<and>
    (\<forall>k items. mget (st_runFeedback s') k = Some items \<longleftrightarrow> items \<noteq> [] \<and> \<not> owned_by ru_SessionID i (st_runs s) k \<and>
      (\<exists>old. mget (st_runFeedback s) k = Some old \<and> items = filter (\<lambda>f. fb_SessionID f \<noteq> i) old)) \<and>
    (\<exists>audits events. st_auditEvents s' = filter (\<lambda>e. ae_SessionID e \<noteq> i) (st_auditEvents s) @ audits \<and>
      st_events s' = filter (\<lambda>e. ev_SessionID e \<noteq> i) (st_events s) @ events \<and>
      (\<forall>e \<in> set audits. ae_SessionID e = []) \<and> (\<forall>e \<in> set events. ev_SessionID e = [])) \<and>
    (\<forall>k. mget (st_workbenchDrafts s') k = (if k = (se_OwnerID se, i) then None else mget (st_workbenchDrafts s) k)) \<and>
    (\<forall>uri. ids_at (st_artifactObjectIDsByURI s') uri = filter (\<lambda>x. \<not> (\<exists>k ob. mget (st_artifactObjects s) k = Some ob \<and>
      ao_SessionID ob = i \<and> ao_URI ob = uri \<and> ao_ID ob = x)) (ids_at (st_artifactObjectIDsByURI s) uri)) \<and>
    st_transientContentAdmission s' = st_transientContentAdmission s \<and> st_sessionWriteHighWater s' = st_sessionWriteHighWater s \<and>
    st_mcpAccessTickets s' = st_mcpAccessTickets s \<and> st_mcpBindings s' = st_mcpBindings s \<and> st_mcpOperations s' = st_mcpOperations s \<and>
    st_connectorSettings s' = st_connectorSettings s \<and>
    st_connectorSettingWriteHighWater s' = st_connectorSettingWriteHighWater s \<and>
    st_notificationBindings s' = st_notificationBindings s \<and>
    st_notificationBindingWriteHighWater s' = st_notificationBindingWriteHighWater s \<and>
    st_messageReceives s' = st_messageReceives s \<and> st_messageDeliveries s' = st_messageDeliveries s \<and>
    st_channelInboxUpdates s' = st_channelInboxUpdates s"
proof -
  have s': "s' = deleted_store env flag se i s" using deleteSession_cases [OF assms(2)] by auto
  note d = assms(1) [unfolded maps_ok_def]
  have tables: "st_sessions s' = mdel i (st_sessions s)" "st_messages s' = mdel i (st_messages s)"
    "st_toolCallIDsBySession s' = mdel i (st_toolCallIDsBySession s)" "st_episodeIDsBySession s' = mdel i (st_episodeIDsBySession s)"
    by (simp_all add: s' deleted_store_def erased_tables)
  have keys: "\<forall>j. mget (st_sessions s') j = (if j = i then None else mget (st_sessions s) j) \<and>
      mget (st_messages s') j = (if j = i then None else mget (st_messages s) j) \<and>
      mget (st_toolCallIDsBySession s') j = (if j = i then None else mget (st_toolCallIDsBySession s) j) \<and>
      mget (st_episodeIDsBySession s') j = (if j = i then None else mget (st_episodeIDsBySession s) j)"
    by (simp add: tables mget_mdel)
  have runs: "survivors (\<lambda>r. ru_SessionID r \<noteq> i) (st_runs s) (st_runs s')"
    "survivors (\<lambda>c. mc_SessionID c \<noteq> i) (st_modelCalls s) (st_modelCalls s')"
    "survivors (\<lambda>c. tc_SessionID c \<noteq> i) (st_toolCalls s) (st_toolCalls s')"
    "survivors (\<lambda>e. ep_SessionID e \<noteq> i) (st_episodeSummaries s) (st_episodeSummaries s')"
    "survivors (\<lambda>a. ap_SessionID a \<noteq> i) (st_approvals s) (st_approvals s')"
    "survivors (\<lambda>r. rm_SessionID r \<noteq> i) (st_reminders s) (st_reminders s')"
    "survivors (\<lambda>d. \<not> owned_by rm_SessionID i (st_reminders s) (rd_ReminderID d)) (st_reminderDelivery s) (st_reminderDelivery s')"
    using d by (simp_all add: s' deleted_store_def erased_tables survivors_runs survivors_mretain not_owned)
  have records: "survivors (\<lambda>m. \<not> owned_by ru_SessionID i (st_runs s) (mm_SourceID m)) (st_memories s) (st_memories s')"
    "survivors (\<lambda>c. mn_SessionID c \<noteq> i) (st_memoryCandidates s) (st_memoryCandidates s')"
    "survivors (\<lambda>d. dr_SessionID d \<noteq> i) (st_documentRecords s) (st_documentRecords s')"
    "survivors (\<lambda>ob. ao_SessionID ob \<noteq> i) (st_artifactObjects s) (st_artifactObjects s')"
    "survivors (\<lambda>b. lb_SessionID b \<noteq> i) (st_browserLoginBlocks s) (st_browserLoginBlocks s')"
    "survivors (\<lambda>c. cs_LinkedSessionID c \<noteq> i) (st_externalChatSessions s) (st_externalChatSessions s')"
    "survivors (\<lambda>m. \<not> owned_by cs_LinkedSessionID i (st_externalChatSessions s) (cm_ChatSessionID m))
      (st_externalChatMessages s) (st_externalChatMessages s')"
    using d by (simp_all add: s' deleted_store_def erased_records survivors_mretain not_owned)
  have fb: "st_runFeedback s' = strip_feedback i (mdel_all (mkeys (mretain (\<lambda>r. ru_SessionID r = i) (st_runs s))) (st_runFeedback s))"
    by (simp add: s' deleted_store_def erased_records)
  have feedback: "mget (st_runFeedback s') k = Some items \<longleftrightarrow> items \<noteq> [] \<and> \<not> owned_by ru_SessionID i (st_runs s) k \<and>
      (\<exists>old. mget (st_runFeedback s) k = Some old \<and> items = filter (\<lambda>f. fb_SessionID f \<noteq> i) old)" for k items
    using d unfolding fb
    by (subst strip_feedback_get)
       (auto simp: distinct_mdel_all mget_mdel_all session_keys owned_by_def split: option.splits simp del: map_of_eq_Some_iff)
  have audits: "\<exists>audits. st_auditEvents s' = filter (\<lambda>e. ae_SessionID e \<noteq> i) (st_auditEvents s) @ audits \<and> (\<forall>e \<in> set audits. ae_SessionID e = [])"
    by (simp add: s' deleted_store_def erased_tables appendAuditLocked_def appendAuditLockedAt_def)
  have events: "\<exists>events. st_events s' = filter (\<lambda>e. ev_SessionID e \<noteq> i) (st_events s) @ events \<and> (\<forall>e \<in> set events. ev_SessionID e = [])"
    by (simp add: s' deleted_store_def erased_tables appendEventLocked_def appendEventLockedAt_def)
  have drafts: "mget (st_workbenchDrafts s') k = (if k = (se_OwnerID se, i) then None else mget (st_workbenchDrafts s) k)" for k
    by (simp add: s' deleted_store_def erased_tables mget_mdel)
  have index: "ids_at (st_artifactObjectIDsByURI s') uri = filter (\<lambda>x. \<not> (\<exists>k ob. mget (st_artifactObjects s) k = Some ob \<and>
      ao_SessionID ob = i \<and> ao_URI ob = uri \<and> ao_ID ob = x)) (ids_at (st_artifactObjectIDsByURI s) uri)" for uri
    using d by (simp add: s' deleted_store_def erased_records unindexed_ids)
  have rest: "st_transientContentAdmission s' = st_transientContentAdmission s" "st_sessionWriteHighWater s' = st_sessionWriteHighWater s"
    "st_mcpAccessTickets s' = st_mcpAccessTickets s" "st_mcpBindings s' = st_mcpBindings s" "st_mcpOperations s' = st_mcpOperations s"
    "st_connectorSettings s' = st_connectorSettings s" "st_connectorSettingWriteHighWater s' = st_connectorSettingWriteHighWater s"
    "st_notificationBindings s' = st_notificationBindings s"
    "st_notificationBindingWriteHighWater s' = st_notificationBindingWriteHighWater s"
    "st_messageReceives s' = st_messageReceives s" "st_messageDeliveries s' = st_messageDeliveries s"
    "st_channelInboxUpdates s' = st_channelInboxUpdates s"
    by (simp_all add: s' deleted_store_def untouched_tables)
  show ?thesis
    by (intro conjI allI)
       (use keys in blast, use keys in blast, use keys in blast, use keys in blast,
        (rule runs records feedback drafts index rest)+, use audits events in blast, (rule runs records feedback drafts index rest)+)
qed

text \<open>A session with a message, a draft and a tool call, beside a draft and a tool call of another session.\<close>

definition sample_draft :: WorkbenchDraft where
  "sample_draft = \<lparr>wd_Content = ''hello'', wd_AttachmentIDs = [], wd_Revision = 1, wd_UpdatedAt = 5000\<rparr>"

definition shared_store :: MemoryStore where
  "shared_store = message_store\<lparr>st_toolCalls := [(''c1'', zero_ToolCall\<lparr>tc_ID := ''c1'', tc_SessionID := ''s_fallback''\<rparr>),
     (''c2'', zero_ToolCall\<lparr>tc_ID := ''c2'', tc_SessionID := ''other''\<rparr>)],
     st_workbenchDrafts := [((''owner'', ''s_fallback''), sample_draft), ((''owner'', ''other''), sample_draft)]\<rparr>"

lemma shared_store_session: "\<exists>se. mget (st_sessions shared_store) ''s_fallback'' = Some se \<and> validatePersistedSession ''s_fallback'' se = None \<and>
  se_Source se = ''webchat'' \<and> se_OwnerID se = ''owner''"
proof -
  have r: "reach empty_store session_step message_store"
    by (rule reach_step [OF sample_session_reach step_message [OF sample_message_added]])
  obtain se where se: "mget (st_sessions message_store) ''s_fallback'' = Some se" "se_Source se = ''webchat''" "se_OwnerID se = ''owner''"
    using sessions_move [OF conversations.reach_inv [OF sample_session_reach] step_message [OF sample_message_added] sample_session_created(2)]
    by (auto simp: sample_session_def)
  then show ?thesis using sessions_inv_get(3) [OF conversations.reach_inv [OF r] se(1)] se(3) by (simp add: shared_store_def)
qed

lemma shared_maps_ok: "maps_ok shared_store"
proof -
  have tables: "st_runFeedback message_store = []" "st_runs message_store = []" "st_browserLoginBlocks message_store = []"
    "st_memories message_store = []" "st_modelCalls message_store = []" "st_documentRecords message_store = []" "st_approvals message_store = []"
    "st_reminders message_store = []" "st_reminderDelivery message_store = []" "st_memoryCandidates message_store = []"
    "st_artifactObjects message_store = []" "st_episodeSummaries message_store = []" "st_externalChatSessions message_store = []"
    "st_externalChatMessages message_store = []"
    unfolding sample_message_stored sample_session_stored
    by (simp_all add: messaged_store_def created_store_def put_session_def)
  show ?thesis by (simp add: maps_ok_def shared_store_def tables)
qed

lemma deletion_is_exact_witness:
  "\<exists>se s'. DeleteSession open_ctx sample_env ''s_fallback'' shared_store = (Inr se, s') \<and> mget (st_messages s') ''s_fallback'' = None \<and>
     mget (st_toolCalls s') ''c1'' = None \<and> mget (st_toolCalls s') ''c2'' \<noteq> None \<and>
     mget (st_workbenchDrafts shared_store) (se_OwnerID se, ''s_fallback'') \<noteq> None \<and>
     mget (st_workbenchDrafts s') (se_OwnerID se, ''s_fallback'') = None \<and> mget (st_workbenchDrafts s') (''owner'', ''other'') \<noteq> None"
proof -
  obtain se where se: "mget (st_sessions shared_store) ''s_fallback'' = Some se" "validatePersistedSession ''s_fallback'' se = None"
    "se_Source se = ''webchat''" "se_OwnerID se = ''owner''"
    using shared_store_session by blast
  have "TrimSpace ''s_fallback'' \<noteq> []" "TrimSpace ''webchat'' \<noteq> ''mcp''" by code_simp+
  then obtain s' where s': "deleteSession open_ctx sample_env ''session.delete'' ''s_fallback'' False shared_store = (Inr se, s')"
    using se by (simp add: deleteSession_def checked_def)
  note r = deletion_is_exact [OF shared_maps_ok s']
  have t: "survivors (\<lambda>c. tc_SessionID c \<noteq> ''s_fallback'') (st_toolCalls shared_store) (st_toolCalls s')" using r by blast
  have "mget (st_messages s') ''s_fallback'' = None" using r by presburger
  moreover have "mget (st_toolCalls s') ''c1'' = None"
    using t by (cases "mget (st_toolCalls s') ''c1''") (auto simp: survivors_def shared_store_def)
  moreover have "mget (st_toolCalls s') ''c2'' \<noteq> None"
    using t by (auto simp: survivors_def shared_store_def)
  moreover have "mget (st_workbenchDrafts s') k = (if k = (se_OwnerID se, ''s_fallback'') then None else mget (st_workbenchDrafts shared_store) k)" for k
    using r by blast
  ultimately show ?thesis using s' se(4) by (auto simp: DeleteSession_def shared_store_def)
qed

text \<open>C16: the conversation that anchors an external agent's binding cannot be deleted. While a binding is stored, neither the
  deletion an owner can ask for nor the internal one removes the session it is linked to, provided the session is marked as
  one of external agents, as a redemption marks it; both are refused and change nothing.\<close>

theorem binding_anchor_protected:
  assumes "mget (st_mcpBindings s) k = Some b" and "mget (st_sessions s) (bi_LinkedSessionID b) = Some se"
    and "TrimSpace (se_Source se) = ''mcp''"
  shows "(\<exists>e. DeleteSession cx env (bi_LinkedSessionID b) s = (Inl e, s)) \<and>
    (\<exists>e. DeleteMCPInvocationSession cx env (bi_LinkedSessionID b) s = (Inl e, s))"
proof -
  have b: "b \<in> set (mvals (st_mcpBindings s))" using assms(1) by (force simp: mvals_def dest!: map_of_SomeD)
  have "\<exists>e. deleteSession cx env op (bi_LinkedSessionID b) flag s = (Inl e, s)" for op flag
  proof -
    obtain res s' where r: "deleteSession cx env op (bi_LinkedSessionID b) flag s = (res, s')" by fastforce
    from deleteSession_cases [OF r] show ?thesis using r b assms(2,3) by auto
  qed
  then show ?thesis by (simp add: DeleteSession_def DeleteMCPInvocationSession_def)
qed

lemma binding_anchor_protected_witness:
  "\<exists>e. DeleteMCPInvocationSession open_ctx sample_env ''s_mcp_binding_fallback'' bound_store = (Inl e, bound_store)"
proof -
  have l: "bi_LinkedSessionID sample_binding = ''s_mcp_binding_fallback''"
    unfolding sample_binding_def redeemed_binding_fields sample_normal(5) by simp
  have "mget (st_sessions bound_store) (bi_LinkedSessionID sample_binding) = Some (linked_session sample_binding 5000)"
    using sample_redeemed_session .
  moreover have "mget (st_mcpBindings bound_store) ''mcp_binding_fallback'' = Some sample_binding" by (simp add: bound_store_tables)
  moreover have "TrimSpace (se_Source (linked_session sample_binding 5000)) = ''mcp''"
  proof -
    have "TrimSpace ''mcp'' = ''mcp''" by code_simp
    then show ?thesis by (simp add: linked_session_def)
  qed
  ultimately have "\<exists>e. DeleteMCPInvocationSession open_ctx sample_env (bi_LinkedSessionID sample_binding) bound_store = (Inl e, bound_store)"
    using binding_anchor_protected [of bound_store "''mcp_binding_fallback''" sample_binding] by blast
  then show ?thesis unfolding l .
qed

end
