(* ===== verification/Connector_Operations.thy ===== *)
theory Connector_Operations
  imports Store_State
begin

text \<open>
  The connectors an owner opted in to and the bindings of their accounts: the contract of
  \<open>internal/store/connector_contract.go\<close> and every operation of \<open>connector_memory.go\<close>. Deep copies are the identity on
  values. A binding is updated by a command that carries the digest of the binding it was made for; the digest function
  \<open>sha\<close> and the mapping \<open>unicode\<close> of non-ASCII letters to lower case are parameters. Demoting several defaults writes an entry
  of both logs for each, whose random identities are the function \<open>demoted\<close> of the binding's identity. The theory \<open>Connectors\<close> shows
  what the operations guarantee.
\<close>

section \<open>Names\<close>

definition normalizeConnectorOwner :: "string \<Rightarrow> string" where
  "normalizeConnectorOwner ownerID = (let owner = TrimSpace ownerID in if owner = [] then DefaultOwnerID else owner)"

definition normalizeConnectorChannel :: "(string \<Rightarrow> string) \<Rightarrow> string \<Rightarrow> string" where
  "normalizeConnectorChannel unicode channel = ToLower unicode (TrimSpace channel)"

definition connectorSettingKey :: "(string \<Rightarrow> string) \<Rightarrow> string \<Rightarrow> string \<Rightarrow> string" where
  "connectorSettingKey unicode ownerID channel =
     normalizeConnectorOwner ownerID @ [CHR 0x1F] @ normalizeConnectorChannel unicode channel"

text \<open>Reading a map of times: the zero time where there is no entry.\<close>

definition time_at :: "(string, gotime) gomap \<Rightarrow> string \<Rightarrow> gotime" where
  "time_at m k = (case mget m k of None \<Rightarrow> 0 | Some t \<Rightarrow> t)"

section \<open>Connector settings\<close>

abbreviation "ErrConnectorSettingConflict \<equiv> Err ''connector setting changed''"

definition normalizeConnectorSettingCandidate ::
  "(string \<Rightarrow> string) \<Rightarrow> ConnectorSetting \<Rightarrow> int \<Rightarrow> go_error + ConnectorSetting" where
  "normalizeConnectorSettingCandidate unicode setting expectedVersion =
     (let owner = normalizeConnectorOwner (kn_OwnerID setting);
          by = TrimSpace (kn_UpdatedBy setting);
          st = setting\<lparr>kn_OwnerID := owner, kn_Channel := normalizeConnectorChannel unicode (kn_Channel setting),
                 kn_UpdatedBy := (if by = [] then owner else by), kn_Version := 0, kn_UpdatedAt := 0\<rparr>
      in if kn_Channel st = [] \<or> expectedVersion < 0
         then Inl (Err ''connector channel and non-negative expected version are required'') else Inr st)"

definition validatePersistedConnectorSetting :: "(string \<Rightarrow> string) \<Rightarrow> ConnectorSetting \<Rightarrow> go_error option" where
  "validatePersistedConnectorSetting unicode setting =
     (if kn_OwnerID setting = [] \<or> kn_OwnerID setting \<noteq> normalizeConnectorOwner (kn_OwnerID setting) \<or>
         kn_Channel setting = [] \<or> kn_Channel setting \<noteq> normalizeConnectorChannel unicode (kn_Channel setting) \<or>
         kn_Version setting < 1 \<or> IsZero (kn_UpdatedAt setting)
      then Some (Err ''connector setting identity, version, and update time are invalid'')
      else if TrimSpace (kn_UpdatedBy setting) = [] then Some (Err ''connector setting updater is required'') else None)"

definition connectorSettingAuditType :: "bool \<Rightarrow> bool \<Rightarrow> bool \<Rightarrow> bool \<Rightarrow> ConnectorSetting \<Rightarrow> string" where
  "connectorSettingAuditType exist currentEnabled currentISCPEnabled currentLANAccessEnabled setting =
     (if \<not> exist \<or> currentEnabled \<noteq> kn_Enabled setting
      then if kn_Enabled setting then ''connector.enabled'' else ''connector.disabled''
      else if currentISCPEnabled \<noteq> kn_ISCPEnabled setting \<or> currentLANAccessEnabled \<noteq> kn_LANAccessEnabled setting
      then ''connector.transport_updated'' else ''connector.updated'')"

definition connectorSettingAuditFields :: "ConnectorSetting \<Rightarrow> (string, goany) gomap" where
  "connectorSettingAuditFields setting =
     [(''owner_id'', AnyString (kn_OwnerID setting)), (''channel'', AnyString (kn_Channel setting)),
      (''enabled'', AnyBool (kn_Enabled setting)), (''iscp_enabled'', AnyBool (kn_ISCPEnabled setting)),
      (''lan_access_enabled'', AnyBool (kn_LANAccessEnabled setting)), (''version'', AnyNumber (of_int (kn_Version setting)))]"

text \<open>The first record that does not validate makes a listing fail.\<close>

fun first_invalid :: "('r \<Rightarrow> go_error option) \<Rightarrow> 'r list \<Rightarrow> go_error option" where
  "first_invalid check [] = None"
| "first_invalid check (r # rs) = (case check r of Some e \<Rightarrow> Some e | None \<Rightarrow> first_invalid check rs)"

definition GetConnectorSetting ::
  "(string \<Rightarrow> string) \<Rightarrow> op_ctx \<Rightarrow> string \<Rightarrow> string \<Rightarrow> MemoryStore \<Rightarrow> ConnectorSetting option outcome" where
  "GetConnectorSetting unicode cx ownerID channel = checked (entry_error ''connector_setting.get'' cx) (\<lambda>s.
     if normalizeConnectorChannel unicode channel = [] then (Inr None, s)
     else checked (locked_error ''connector_setting.get'' cx) (\<lambda>s.
       case mget (st_connectorSettings s) (connectorSettingKey unicode ownerID channel) of
         None \<Rightarrow> (Inr None, s)
       | Some setting \<Rightarrow> (case validatePersistedConnectorSetting unicode setting of
           Some e \<Rightarrow> (Inl (storeError ''connector_setting.get'' StoreErrorCorrupt e), s)
         | None \<Rightarrow> (Inr (Some setting), s))) s)"

definition setting_cmp :: "ConnectorSetting \<Rightarrow> ConnectorSetting \<Rightarrow> int" where
  "setting_cmp a b = (let byOwner = str_cmp (kn_OwnerID a) (kn_OwnerID b)
     in if byOwner \<noteq> 0 then byOwner else str_cmp (kn_Channel a) (kn_Channel b))"

definition ListConnectorSettings ::
  "(string \<Rightarrow> string) \<Rightarrow> op_ctx \<Rightarrow> string \<Rightarrow> MemoryStore \<Rightarrow> ConnectorSetting list outcome" where
  "ListConnectorSettings unicode cx ownerID = framed ''connector_setting.list'' cx (\<lambda>s.
     case first_invalid (validatePersistedConnectorSetting unicode) (mvals (st_connectorSettings s)) of
       Some e \<Rightarrow> (Inl (storeError ''connector_setting.list'' StoreErrorCorrupt e), s)
     | None \<Rightarrow> (Inr (SortFunc (\<lambda>a b. str_cmp (kn_Channel a) (kn_Channel b))
           (filter (\<lambda>setting. kn_OwnerID setting = normalizeConnectorOwner ownerID) (mvals (st_connectorSettings s)))), s))"

definition ListAllConnectorSettings :: "(string \<Rightarrow> string) \<Rightarrow> op_ctx \<Rightarrow> MemoryStore \<Rightarrow> ConnectorSetting list outcome" where
  "ListAllConnectorSettings unicode cx = framed ''connector_setting.list_all'' cx (\<lambda>s.
     case first_invalid (validatePersistedConnectorSetting unicode) (mvals (st_connectorSettings s)) of
       Some e \<Rightarrow> (Inl (storeError ''connector_setting.list_all'' StoreErrorCorrupt e), s)
     | None \<Rightarrow> (Inr (SortFunc setting_cmp (mvals (st_connectorSettings s))), s))"

definition setting_store :: "op_env \<Rightarrow> string \<Rightarrow> string \<Rightarrow> ConnectorSetting \<Rightarrow> MemoryStore \<Rightarrow> MemoryStore" where
  "setting_store env key typ setting s =
     appendEventLockedAt (kn_UpdatedAt setting) (en_event_rand env) typ [] [] (PConnectorSetting setting)
       (appendAuditLockedAt (kn_UpdatedAt setting) (en_audit_rand env) typ [] [] (kn_UpdatedBy setting) (kn_Channel setting)
         (connectorSettingAuditFields setting)
         (s\<lparr>st_connectorSettingWriteHighWater := mput key (kn_UpdatedAt setting) (st_connectorSettingWriteHighWater s),
            st_connectorSettings := mput key setting (st_connectorSettings s)\<rparr>))"

text \<open>Where there is no current setting the code reads the zero one: its flags are off and its update time is the zero time.\<close>

definition setting_change :: "ConnectorSetting option \<Rightarrow> ConnectorSetting \<Rightarrow> string" where
  "setting_change current setting = (case current of
     None \<Rightarrow> connectorSettingAuditType False False False False setting
   | Some c \<Rightarrow> connectorSettingAuditType True (kn_Enabled c) (kn_ISCPEnabled c) (kn_LANAccessEnabled c) setting)"

definition next_setting :: "gotime \<Rightarrow> string \<Rightarrow> ConnectorSetting option \<Rightarrow> int \<Rightarrow> ConnectorSetting \<Rightarrow> MemoryStore \<Rightarrow> ConnectorSetting" where
  "next_setting now key current expectedVersion setting s =
     setting\<lparr>kn_Version := wrap64 (expectedVersion + 1),
       kn_UpdatedAt := nextRepositoryTime now [time_at (st_connectorSettingWriteHighWater s) key,
         case current of None \<Rightarrow> 0 | Some c \<Rightarrow> kn_UpdatedAt c]\<rparr>"

definition setting_expected :: "ConnectorSetting option \<Rightarrow> int \<Rightarrow> bool" where
  "setting_expected current expectedVersion \<longleftrightarrow>
     (case current of None \<Rightarrow> expectedVersion = 0 | Some c \<Rightarrow> kn_Version c = expectedVersion)"

definition UpdateConnectorSetting ::
  "(string \<Rightarrow> string) \<Rightarrow> op_ctx \<Rightarrow> op_env \<Rightarrow> ConnectorSetting \<Rightarrow> int \<Rightarrow> MemoryStore \<Rightarrow> ConnectorSetting outcome" where
  "UpdateConnectorSetting unicode cx env setting expectedVersion = checked (entry_error ''connector_setting.update'' cx) (\<lambda>s.
     case normalizeConnectorSettingCandidate unicode setting expectedVersion of
       Inl e \<Rightarrow> (Inl (storeError ''connector_setting.update'' StoreErrorInvalid e), s)
     | Inr st \<Rightarrow> checked (locked_error ''connector_setting.update'' cx) (\<lambda>s.
         let key = connectorSettingKey unicode (kn_OwnerID st) (kn_Channel st);
             current = mget (st_connectorSettings s) key
         in case Option.bind current (validatePersistedConnectorSetting unicode) of
           Some e \<Rightarrow> (Inl (storeError ''connector_setting.update'' StoreErrorCorrupt e), s)
         | None \<Rightarrow>
             if \<not> setting_expected current expectedVersion
             then (Inl (storeError ''connector_setting.update'' StoreErrorConflict ErrConnectorSettingConflict), s)
             else
               let st = next_setting (en_now env) key current expectedVersion st s
               in (Inr st, setting_store env key (setting_change current st) st s)) s)"

section \<open>The contract of notification bindings\<close>

text \<open>What a digest is written over: integers as eight bytes, the most significant first, strings behind their length, instants as
  their seven calendar fields in UTC.\<close>

fun be_bytes :: "nat \<Rightarrow> nat \<Rightarrow> string" where
  "be_bytes 0 n = []"
| "be_bytes (Suc k) n = be_bytes k (n div 256) @ [char_of (n mod 256)]"

definition writeDigestInt64 :: "int \<Rightarrow> string" where
  "writeDigestInt64 value = be_bytes 8 (nat (value mod 2 ^ 64))"

definition writeCredentialDigestBytes :: "string \<Rightarrow> string" where
  "writeCredentialDigestBytes value = writeDigestInt64 (int (length value)) @ value"

definition writeDigestBool :: "bool \<Rightarrow> string" where
  "writeDigestBool value = [char_of (if value then 1 else 0 :: nat)]"

definition writeCredentialDigestTime :: "gotime \<Rightarrow> string" where
  "writeCredentialDigestTime value =
     (case civil_of_days (value div second div day_seconds) of (year, month, day) \<Rightarrow>
        concat (map writeDigestInt64
          [year, month, day, value div second mod day_seconds div 3600, value div second mod 3600 div 60,
           value div second mod 60, value mod second]))"

definition writeDigestTimePointer :: "gotime option \<Rightarrow> string" where
  "writeDigestTimePointer value = (case value of None \<Rightarrow> writeDigestBool False
     | Some t \<Rightarrow> writeDigestBool True @ writeCredentialDigestTime t)"

definition binding_texts :: "NotificationBinding \<Rightarrow> string list" where
  "binding_texts b =
     [nb_ID b, nb_OwnerID b, nb_ActorID b, nb_Channel b, nb_Provider b, nb_Status b, nb_DisplayName b, nb_ExternalUserID b,
      nb_ExternalChatID b, nb_ExternalThreadID b, nb_AccountID b, nb_CredentialRef b, nb_CredentialKind b, nb_BaseURL b,
      nb_ProviderSessionID b, nb_ProviderState b, nb_ContextToken b, nb_ProviderCursor b, nb_QRCodeURL b, nb_QRCodeImage b,
      nb_LastError b]"

definition binding_bytes :: "NotificationBinding \<Rightarrow> string" where
  "binding_bytes b = writeCredentialDigestBytes ''sparkclaw-notification-binding-version-v1'' @
     concat (map writeCredentialDigestBytes (binding_texts b)) @ writeDigestBool (nb_DefaultForChannel b) @
     writeDigestInt64 (nb_Version b) @ writeCredentialDigestTime (nb_CreatedAt b) @ writeCredentialDigestTime (nb_UpdatedAt b) @
     writeDigestTimePointer (nb_ExpiresAt b) @ writeDigestTimePointer (nb_RevokedAt b) @
     writeDigestInt64 (int (length (nb_Scopes b))) @ concat (map writeCredentialDigestBytes (nb_Scopes b))"

definition notificationBindingDigest :: "(string \<Rightarrow> string) \<Rightarrow> NotificationBinding \<Rightarrow> string" where
  "notificationBindingDigest sha b = sha (binding_bytes b)"

definition notificationBindingsEqual :: "(string \<Rightarrow> string) \<Rightarrow> NotificationBinding \<Rightarrow> NotificationBinding \<Rightarrow> bool" where
  "notificationBindingsEqual sha left right \<longleftrightarrow> notificationBindingDigest sha left = notificationBindingDigest sha right"

definition sameNotificationBindingIdentity :: "(string \<Rightarrow> string) \<Rightarrow> NotificationBinding \<Rightarrow> NotificationBinding \<Rightarrow> bool" where
  "sameNotificationBindingIdentity unicode left right \<longleftrightarrow>
     TrimSpace (nb_ID left) = TrimSpace (nb_ID right) \<and> TrimSpace (nb_OwnerID left) = TrimSpace (nb_OwnerID right) \<and>
     TrimSpace (nb_ActorID left) = TrimSpace (nb_ActorID right) \<and>
     normalizeConnectorChannel unicode (nb_Channel left) = normalizeConnectorChannel unicode (nb_Channel right)"

definition isWaitingNotificationBinding :: "string \<Rightarrow> bool" where
  "isWaitingNotificationBinding st \<longleftrightarrow> st = NotificationBindingWaitingScan \<or> st = NotificationBindingWaitingConfirm"

definition notificationBindingTransitionAllowed :: "string \<Rightarrow> string \<Rightarrow> bool" where
  "notificationBindingTransitionAllowed previous follow =
     (if previous = NotificationBindingStarting
      then follow \<in> set [NotificationBindingWaitingScan, NotificationBindingWaitingConfirm, NotificationBindingActive,
             NotificationBindingFailed, NotificationBindingRevoking]
      else if previous = NotificationBindingWaitingScan \<or> previous = NotificationBindingWaitingConfirm
      then follow \<in> set [NotificationBindingWaitingScan, NotificationBindingWaitingConfirm, NotificationBindingCredentialPending,
             NotificationBindingActive, NotificationBindingExpired, NotificationBindingFailed, NotificationBindingRevoking]
      else if previous = NotificationBindingCredentialPending
      then follow \<in> set [NotificationBindingActive, NotificationBindingFailed, NotificationBindingRevoking]
      else if previous = NotificationBindingActive
      then follow = NotificationBindingActive \<or> follow = NotificationBindingRevoking
      else if previous = NotificationBindingRevoking then follow = NotificationBindingRevoked
      else False)"

definition validatePersistedNotificationBinding :: "(string \<Rightarrow> string) \<Rightarrow> NotificationBinding \<Rightarrow> go_error option" where
  "validatePersistedNotificationBinding unicode b =
     (if nb_ID b = [] \<or> 256 < length (nb_ID b) \<or> TrimSpace (nb_ID b) \<noteq> nb_ID b \<or>
         nb_OwnerID b = [] \<or> TrimSpace (nb_OwnerID b) \<noteq> nb_OwnerID b \<or> nb_ActorID b = [] \<or> TrimSpace (nb_ActorID b) \<noteq> nb_ActorID b \<or>
         nb_Channel b = [] \<or> normalizeConnectorChannel unicode (nb_Channel b) \<noteq> nb_Channel b \<or>
         TrimSpace (nb_Provider b) \<noteq> nb_Provider b \<or> nb_Version b < 1 \<or> IsZero (nb_CreatedAt b) \<or> IsZero (nb_UpdatedAt b)
      then Some (Err ''notification binding identity, version, and times are invalid'')
      else if nb_ExpiresAt b = Some 0 then Some (Err ''notification binding expiry time is zero'')
      else if nb_RevokedAt b = Some 0 then Some (Err ''notification binding revoke time is zero'')
      else if TrimSpace (nb_CredentialRef b) \<noteq> nb_CredentialRef b \<or> TrimSpace (nb_CredentialKind b) \<noteq> nb_CredentialKind b
      then Some (Err ''notification binding credential proof is not normalized'')
      else if list_ex (\<lambda>scope. TrimSpace scope = [] \<or> TrimSpace scope \<noteq> scope) (nb_Scopes b)
      then Some (Err ''notification binding scope is invalid'')
      else if nb_Status b \<in> set [NotificationBindingStarting, NotificationBindingWaitingScan, NotificationBindingWaitingConfirm]
      then (if nb_CredentialRef b \<noteq> [] \<or> nb_RevokedAt b \<noteq> None \<or> nb_DefaultForChannel b
            then Some (Err ''pre-active notification binding carries active state'') else None)
      else if nb_Status b = NotificationBindingCredentialPending
      then (if nb_CredentialRef b \<noteq> [] \<or> nb_CredentialKind b = [] \<or> nb_RevokedAt b \<noteq> None \<or> nb_DefaultForChannel b
            then Some (Err ''credential-pending notification binding is invalid'') else None)
      else if nb_Status b = NotificationBindingActive
      then (if nb_RevokedAt b \<noteq> None then Some (Err ''active notification binding is revoked'') else None)
      else if nb_Status b = NotificationBindingRevoking
      then (if nb_RevokedAt b \<noteq> None \<or> nb_DefaultForChannel b then Some (Err ''revoking notification binding is invalid'') else None)
      else if nb_Status b = NotificationBindingRevoked
      then (if nb_RevokedAt b = None \<or> nb_DefaultForChannel b then Some (Err ''revoked notification binding is invalid'') else None)
      else if nb_Status b = NotificationBindingFailed \<or> nb_Status b = NotificationBindingExpired
      then (if nb_CredentialRef b \<noteq> [] \<or> nb_RevokedAt b \<noteq> None \<or> nb_DefaultForChannel b
            then Some (Err ''terminal pre-active notification binding carries active state'') else None)
      else Some (Err ''notification binding status is invalid''))"

definition trimmed_binding :: "(string \<Rightarrow> string) \<Rightarrow> NotificationBinding \<Rightarrow> NotificationBinding" where
  "trimmed_binding unicode b =
     b\<lparr>nb_ID := TrimSpace (nb_ID b), nb_OwnerID := TrimSpace (nb_OwnerID b), nb_ActorID := TrimSpace (nb_ActorID b),
       nb_Channel := normalizeConnectorChannel unicode (nb_Channel b), nb_Provider := TrimSpace (nb_Provider b),
       nb_CredentialKind := TrimSpace (nb_CredentialKind b)\<rparr>"

definition starting_identity :: "NotificationBinding \<Rightarrow> bool" where
  "starting_identity b \<longleftrightarrow> \<not> (nb_ID b = [] \<or> 256 < length (nb_ID b) \<or> nb_OwnerID b = [] \<or> nb_ActorID b = [] \<or> nb_Channel b = [] \<or>
     nb_Provider b = [] \<or> nb_Status b \<noteq> NotificationBindingStarting)"

definition carries_state :: "NotificationBinding \<Rightarrow> bool" where
  "carries_state b \<longleftrightarrow> nb_DisplayName b \<noteq> [] \<or> nb_ExternalUserID b \<noteq> [] \<or> nb_ExternalChatID b \<noteq> [] \<or> nb_ExternalThreadID b \<noteq> [] \<or>
     nb_AccountID b \<noteq> [] \<or> nb_CredentialRef b \<noteq> [] \<or> nb_BaseURL b \<noteq> [] \<or> nb_ProviderSessionID b \<noteq> [] \<or>
     nb_ProviderState b \<noteq> [] \<or> nb_ContextToken b \<noteq> [] \<or> nb_ProviderCursor b \<noteq> [] \<or> nb_QRCodeURL b \<noteq> [] \<or>
     nb_QRCodeImage b \<noteq> [] \<or> nb_DefaultForChannel b \<or> nb_ExpiresAt b \<noteq> None \<or> nb_RevokedAt b \<noteq> None \<or> nb_LastError b \<noteq> []"

definition normalizeNotificationBindingCreate ::
  "(string \<Rightarrow> string) \<Rightarrow> NotificationBinding \<Rightarrow> go_error + NotificationBinding" where
  "normalizeNotificationBindingCreate unicode binding =
     (if nb_Version binding \<noteq> 0 \<or> \<not> IsZero (nb_CreatedAt binding) \<or> \<not> IsZero (nb_UpdatedAt binding)
      then Inl (Err ''starting notification binding carries repository lifecycle fields'')
      else
        let b = trimmed_binding unicode binding
        in if \<not> starting_identity b then Inl (Err ''complete starting notification binding identity is required'')
           else if carries_state b then Inl (Err ''starting notification binding carries provider or lifecycle state'')
           else Inr b)"

text \<open>The fields an update may change: while the account is being linked, and while the binding is active.\<close>

definition masked_binding :: "NotificationBinding \<Rightarrow> NotificationBinding \<Rightarrow> NotificationBinding option" where
  "masked_binding previous r =
     (let e = previous\<lparr>nb_Status := nb_Status r, nb_Version := nb_Version r, nb_CreatedAt := nb_CreatedAt r,
                nb_UpdatedAt := nb_UpdatedAt r, nb_RevokedAt := nb_RevokedAt r\<rparr>
      in if isWaitingNotificationBinding (nb_Status previous) \<and> isWaitingNotificationBinding (nb_Status r)
         then Some (e\<lparr>nb_DisplayName := nb_DisplayName r, nb_BaseURL := nb_BaseURL r, nb_ProviderSessionID := nb_ProviderSessionID r,
                nb_ProviderState := nb_ProviderState r, nb_QRCodeURL := nb_QRCodeURL r, nb_QRCodeImage := nb_QRCodeImage r,
                nb_ExpiresAt := nb_ExpiresAt r, nb_LastError := nb_LastError r\<rparr>)
         else if nb_Status previous = NotificationBindingActive \<and> nb_Status r = NotificationBindingActive
         then Some (e\<lparr>nb_DisplayName := nb_DisplayName r, nb_ExternalUserID := nb_ExternalUserID r, nb_ExternalChatID := nb_ExternalChatID r,
                nb_ExternalThreadID := nb_ExternalThreadID r, nb_AccountID := nb_AccountID r, nb_BaseURL := nb_BaseURL r,
                nb_ContextToken := nb_ContextToken r, nb_ProviderCursor := nb_ProviderCursor r,
                nb_DefaultForChannel := nb_DefaultForChannel r, nb_Scopes := nb_Scopes r, nb_LastError := nb_LastError r\<rparr>)
         else None)"

definition validateNotificationBindingFieldMask ::
  "(string \<Rightarrow> string) \<Rightarrow> NotificationBinding \<Rightarrow> NotificationBinding \<Rightarrow> go_error option" where
  "validateNotificationBindingFieldMask sha previous r = (case masked_binding previous r of
     None \<Rightarrow> None
   | Some e \<Rightarrow> if \<not> notificationBindingsEqual sha e r
       then Some (Err ''notification binding update changes fields outside its lifecycle mask'') else None)"

text \<open>The candidate with the identity, the version and the times of an update.\<close>

definition next_binding :: "NotificationBinding \<Rightarrow> NotificationBinding \<Rightarrow> gotime \<Rightarrow> NotificationBinding" where
  "next_binding previous r instant =
     r\<lparr>nb_ID := nb_ID previous, nb_OwnerID := nb_OwnerID previous, nb_ActorID := nb_ActorID previous, nb_Channel := nb_Channel previous,
       nb_Provider := TrimSpace (nb_Provider r), nb_CredentialRef := TrimSpace (nb_CredentialRef r),
       nb_CredentialKind := TrimSpace (nb_CredentialKind r), nb_CreatedAt := nb_CreatedAt previous,
       nb_Version := wrap64 (nb_Version previous + 1), nb_UpdatedAt := postgresTime instant\<rparr>"

definition prepareNotificationBindingUpdate ::
  "(string \<Rightarrow> string) \<Rightarrow> (string \<Rightarrow> string) \<Rightarrow> NotificationBinding \<Rightarrow> NotificationBinding \<Rightarrow> gotime \<Rightarrow> go_error + NotificationBinding" where
  "prepareNotificationBindingUpdate unicode sha previous candidate instant =
     (case validatePersistedNotificationBinding unicode previous of Some e \<Rightarrow> Inl e
      | None \<Rightarrow>
        if \<not> sameNotificationBindingIdentity unicode previous candidate
        then Inl (Err ''notification binding immutable identity changed'')
        else
          let r = next_binding previous candidate instant
          in if nb_Provider previous \<noteq> [] \<and> nb_Provider r \<noteq> nb_Provider previous
             then Inl (Err ''notification binding provider changed'')
             else if \<not> notificationBindingTransitionAllowed (nb_Status previous) (nb_Status r)
             then Inl (Err ''notification binding transition is not allowed'')
             else if nb_CredentialRef previous \<noteq> nb_CredentialRef r \<and>
                (nb_CredentialRef previous \<noteq> [] \<or> nb_Status r \<noteq> NotificationBindingActive \<or> nb_CredentialRef r = [])
             then Inl (Err ''notification binding credential ref changed outside activation'')
             else if nb_CredentialKind previous \<noteq> [] \<and> nb_CredentialKind r \<noteq> nb_CredentialKind previous
             then Inl (Err ''notification binding credential kind changed'')
             else if nb_Status r \<noteq> NotificationBindingRevoked \<and> nb_RevokedAt r \<noteq> None
             then Inl (Err ''non-revoked notification binding carries revoke time'')
             else
               let r = (if nb_Status r = NotificationBindingRevoked
                     then r\<lparr>nb_RevokedAt := Some (nb_UpdatedAt r), nb_DefaultForChannel := False\<rparr> else r)
               in if nb_Status r \<noteq> NotificationBindingActive \<and> nb_Status r \<noteq> NotificationBindingRevoking \<and>
                     nb_Status r \<noteq> NotificationBindingRevoked \<and> nb_CredentialRef r \<noteq> []
                  then Inl (Err ''non-active notification binding carries a credential ref'')
                  else if (nb_Status previous = NotificationBindingActive \<or> nb_Status previous = NotificationBindingRevoking) \<and>
                     nb_CredentialRef r \<noteq> nb_CredentialRef previous
                  then Inl (Err ''notification binding lost credential ownership'')
                  else if nb_Status r = NotificationBindingCredentialPending \<and> (nb_CredentialKind r = [] \<or> nb_CredentialRef r \<noteq> [])
                  then Inl (Err ''credential-pending binding requires kind without ref'')
                  else if nb_Status r = NotificationBindingActive \<and> prefix ''cred_'' (nb_CredentialRef r) \<and> nb_CredentialKind r = [] \<and>
                     nb_CredentialRef previous = []
                  then Inl (Err ''new Vault credential requires a kind'')
                  else (case validateNotificationBindingFieldMask sha previous r of Some e \<Rightarrow> Inl e
                    | None \<Rightarrow> (case validatePersistedNotificationBinding unicode r of Some e \<Rightarrow> Inl e | None \<Rightarrow> Inr r)))"

definition isVaultOwnedCredentialRef :: "string \<Rightarrow> bool" where
  "isVaultOwnedCredentialRef ref \<longleftrightarrow> TrimSpace ref \<noteq> [] \<and> \<not> prefix ''config:'' (TrimSpace ref)"

definition claimBindingCredentialRef ::
  "(string, string) gomap \<Rightarrow> NotificationBinding \<Rightarrow> go_error + (string, string) gomap" where
  "claimBindingCredentialRef owners b =
     (if \<not> isVaultOwnedCredentialRef (nb_CredentialRef b) then Inr owners
      else case mget owners (nb_CredentialRef b) of
        Some prior \<Rightarrow> if prior \<noteq> [] \<and> prior \<noteq> nb_ID b then Inl (Err ''notification bindings share Vault credential ref'')
          else Inr (mput (nb_CredentialRef b) (nb_ID b) owners)
      | None \<Rightarrow> Inr (mput (nb_CredentialRef b) (nb_ID b) owners))"

definition latestNotificationBindingTime :: "NotificationBinding \<Rightarrow> gotime" where
  "latestNotificationBindingTime b =
     (let latest = (if nb_CreatedAt b < nb_UpdatedAt b then nb_UpdatedAt b else nb_CreatedAt b);
          revoked = (case nb_RevokedAt b of None \<Rightarrow> 0 | Some t \<Rightarrow> t)
      in if latest < revoked then revoked else latest)"

record NotificationBindingUpdateCommand =
  uc_id :: string
  uc_expected :: string
  uc_valid :: bool
  uc_next :: "NotificationBinding option"

definition NewNotificationBindingUpdate ::
  "(string \<Rightarrow> string) \<Rightarrow> (string \<Rightarrow> string) \<Rightarrow> NotificationBinding \<Rightarrow> NotificationBinding \<Rightarrow> NotificationBindingUpdateCommand" where
  "NewNotificationBindingUpdate unicode sha previous candidate =
     (if validatePersistedNotificationBinding unicode previous \<noteq> None \<or> \<not> sameNotificationBindingIdentity unicode previous candidate
      then \<lparr>uc_id = [], uc_expected = [], uc_valid = False, uc_next = None\<rparr>
      else \<lparr>uc_id = nb_ID previous, uc_expected = notificationBindingDigest sha previous, uc_valid = True, uc_next = Some candidate\<rparr>)"

text \<open>The condition of a command: it is one \<open>NewNotificationBindingUpdate\<close> made, for a binding with an identity that the candidate has.
  The zero binding of an invalid command is \<open>None\<close>.\<close>

definition normalizeNotificationBindingUpdateCommand ::
  "NotificationBindingUpdateCommand \<Rightarrow> go_error + NotificationBindingUpdateCommand \<times> NotificationBinding" where
  "normalizeNotificationBindingUpdateCommand command =
     (let i = TrimSpace (uc_id command)
      in case uc_next command of
        None \<Rightarrow> Inl (Err ''notification binding update condition is invalid'')
      | Some r \<Rightarrow> if \<not> uc_valid command \<or> i = [] \<or> nb_ID r \<noteq> i
          then Inl (Err ''notification binding update condition is invalid'') else Inr (command\<lparr>uc_id := i\<rparr>, r))"

section \<open>Notification bindings\<close>

definition notificationBindingAuditFields :: "NotificationBinding \<Rightarrow> (string, goany) gomap" where
  "notificationBindingAuditFields b =
     [(''binding_id'', AnyString (nb_ID b)), (''channel'', AnyString (nb_Channel b)), (''provider'', AnyString (nb_Provider b)),
      (''default'', AnyBool (nb_DefaultForChannel b)), (''version'', AnyNumber (of_int (nb_Version b)))]"

text \<open>An entry in both logs at the time of the write.\<close>

definition logged_binding ::
  "8 word list option \<times> 8 word list option \<Rightarrow> gotime \<Rightarrow> string \<Rightarrow> string \<Rightarrow> NotificationBinding \<Rightarrow> MemoryStore \<Rightarrow> MemoryStore" where
  "logged_binding ids instant typ actor b s =
     appendEventLockedAt instant (snd ids) typ [] [] (PNotificationBinding b)
       (appendAuditLockedAt instant (fst ids) typ [] [] actor (nb_Channel b) (notificationBindingAuditFields b) s)"

definition put_binding :: "gotime \<Rightarrow> string \<Rightarrow> NotificationBinding \<Rightarrow> MemoryStore \<Rightarrow> MemoryStore" where
  "put_binding instant i b s =
     s\<lparr>st_notificationBindingWriteHighWater := mput i instant (st_notificationBindingWriteHighWater s),
       st_notificationBindings := mput i b (st_notificationBindings s)\<rparr>"

definition appendNotificationBindingLifecycleLocked :: "op_env \<Rightarrow> gotime \<Rightarrow> NotificationBinding \<Rightarrow> MemoryStore \<Rightarrow> MemoryStore" where
  "appendNotificationBindingLifecycleLocked env instant b =
     logged_binding (en_audit_rand env, en_event_rand env) instant (''notification_binding.'' @ nb_Status b) ''owner'' b"

definition CreateNotificationBinding ::
  "(string \<Rightarrow> string) \<Rightarrow> op_ctx \<Rightarrow> op_env \<Rightarrow> NotificationBinding \<Rightarrow> MemoryStore \<Rightarrow> NotificationBinding outcome" where
  "CreateNotificationBinding unicode cx env binding = checked (entry_error ''notification_binding.create'' cx) (\<lambda>s.
     case normalizeNotificationBindingCreate unicode binding of
       Inl e \<Rightarrow> (Inl (storeError ''notification_binding.create'' StoreErrorInvalid e), s)
     | Inr b \<Rightarrow> checked (locked_error ''notification_binding.create'' cx) (\<lambda>s.
         if mget (st_notificationBindings s) (nb_ID b) \<noteq> None
         then (Inl (storeError ''notification_binding.create'' StoreErrorConflict (Err ''notification binding already exists'')), s)
         else
           let instant = nextRepositoryTime (en_now env) [time_at (st_notificationBindingWriteHighWater s) (nb_ID b)];
               b = b\<lparr>nb_Version := 1, nb_CreatedAt := instant, nb_UpdatedAt := instant\<rparr>
           in (Inr b, appendNotificationBindingLifecycleLocked env instant b (put_binding instant (nb_ID b) b s))) s)"

definition GetNotificationBinding ::
  "(string \<Rightarrow> string) \<Rightarrow> op_ctx \<Rightarrow> string \<Rightarrow> MemoryStore \<Rightarrow> NotificationBinding option outcome" where
  "GetNotificationBinding unicode cx i = checked (entry_error ''notification_binding.get'' cx) (\<lambda>s.
     if TrimSpace i = [] then (Inr None, s)
     else checked (locked_error ''notification_binding.get'' cx) (\<lambda>s.
       case mget (st_notificationBindings s) (TrimSpace i) of
         None \<Rightarrow> (Inr None, s)
       | Some b \<Rightarrow> (case validatePersistedNotificationBinding unicode b of
           Some e \<Rightarrow> (Inl (storeError ''notification_binding.get'' StoreErrorCorrupt e), s)
         | None \<Rightarrow> (Inr (Some b), s))) s)"

text \<open>A listing checks every binding, whose credential it is, and that a channel of an owner has one active default.\<close>

fun check_bindings ::
  "(string \<Rightarrow> string) \<Rightarrow> (string, string) gomap \<Rightarrow> (string, string) gomap \<Rightarrow> NotificationBinding list \<Rightarrow> go_error option" where
  "check_bindings unicode owners defaults [] = None"
| "check_bindings unicode owners defaults (b # bs) = (case validatePersistedNotificationBinding unicode b of
     Some e \<Rightarrow> Some e
   | None \<Rightarrow> (case claimBindingCredentialRef owners b of
       Inl e \<Rightarrow> Some e
     | Inr owners \<Rightarrow>
         if nb_Status b = NotificationBindingActive \<and> nb_DefaultForChannel b
         then let key = connectorSettingKey unicode (nb_OwnerID b) (nb_Channel b)
              in if (case mget defaults key of None \<Rightarrow> False | Some i \<Rightarrow> i \<noteq> []) then Some (Err ''multiple active default bindings'')
                 else check_bindings unicode owners (mput key (nb_ID b) defaults) bs
         else check_bindings unicode owners defaults bs))"

definition compareNotificationBindings :: "NotificationBinding \<Rightarrow> NotificationBinding \<Rightarrow> int" where
  "compareNotificationBindings a b = (let ordered = time_cmp (nb_UpdatedAt b) (nb_UpdatedAt a)
     in if ordered \<noteq> 0 then ordered else str_cmp (nb_ID a) (nb_ID b))"

definition ListNotificationBindings ::
  "(string \<Rightarrow> string) \<Rightarrow> op_ctx \<Rightarrow> string \<Rightarrow> string \<Rightarrow> MemoryStore \<Rightarrow> NotificationBinding list outcome" where
  "ListNotificationBindings unicode cx channel st = framed ''notification_binding.list'' cx (\<lambda>s.
     let channel = normalizeConnectorChannel unicode channel; st = TrimSpace st
     in case check_bindings unicode [] [] (mvals (st_notificationBindings s)) of
       Some e \<Rightarrow> (Inl (storeError ''notification_binding.list'' StoreErrorCorrupt e), s)
     | None \<Rightarrow> (Inr (SortFunc compareNotificationBindings
           (filter (\<lambda>b. (channel = [] \<or> nb_Channel b = channel) \<and> (st = [] \<or> nb_Status b = st)) (mvals (st_notificationBindings s)))), s))"

text \<open>The other active defaults of the owner and the channel.\<close>

definition other_default :: "NotificationBinding \<Rightarrow> string \<Rightarrow> NotificationBinding \<Rightarrow> bool" where
  "other_default b i existing \<longleftrightarrow> i \<noteq> nb_ID b \<and> nb_OwnerID existing = nb_OwnerID b \<and> nb_Channel existing = nb_Channel b \<and>
     nb_Status existing = NotificationBindingActive \<and> nb_DefaultForChannel existing"

definition becomes_default :: "NotificationBinding \<Rightarrow> bool" where
  "becomes_default b \<longleftrightarrow> nb_Status b = NotificationBindingActive \<and> nb_DefaultForChannel b"

definition nextNotificationBindingCommandTimeLocked ::
  "gotime \<Rightarrow> NotificationBinding \<Rightarrow> NotificationBinding \<Rightarrow> MemoryStore \<Rightarrow> gotime" where
  "nextNotificationBindingCommandTimeLocked now previous candidate s =
     nextRepositoryTime now
       ([time_at (st_notificationBindingWriteHighWater s) (nb_ID previous), latestNotificationBindingTime previous] @
        (if becomes_default candidate
         then concat (map (\<lambda>(i, existing). [time_at (st_notificationBindingWriteHighWater s) i, latestNotificationBindingTime existing])
           (filter (\<lambda>(i, existing). other_default previous i existing) (st_notificationBindings s)))
         else []))"

fun claim_others ::
  "(string \<Rightarrow> string) \<Rightarrow> string \<Rightarrow> (string, string) gomap \<Rightarrow> (string, NotificationBinding) gomap \<Rightarrow> go_error + (string, string) gomap" where
  "claim_others unicode i owners [] = Inr owners"
| "claim_others unicode i owners ((k, b) # m) =
     (if k = i then claim_others unicode i owners m
      else case validatePersistedNotificationBinding unicode b of
        Some e \<Rightarrow> Inl e
      | None \<Rightarrow> (case claimBindingCredentialRef owners b of Inl e \<Rightarrow> Inl e | Inr owners \<Rightarrow> claim_others unicode i owners m))"

definition validateNotificationBindingOwnershipLocked :: "(string \<Rightarrow> string) \<Rightarrow> NotificationBinding \<Rightarrow> MemoryStore \<Rightarrow> go_error option" where
  "validateNotificationBindingOwnershipLocked unicode b s = (case claim_others unicode (nb_ID b) [] (st_notificationBindings s) of
     Inl e \<Rightarrow> Some (storeError ''notification_binding.update'' StoreErrorCorrupt e)
   | Inr owners \<Rightarrow> (case claimBindingCredentialRef owners b of
       Inl e \<Rightarrow> Some (storeError ''notification_binding.update'' StoreErrorConflict e)
     | Inr _ \<Rightarrow> None))"

definition demoted_binding :: "gotime \<Rightarrow> NotificationBinding \<Rightarrow> NotificationBinding" where
  "demoted_binding instant b = b\<lparr>nb_DefaultForChannel := False, nb_Version := wrap64 (nb_Version b + 1), nb_UpdatedAt := instant\<rparr>"

fun demote_all ::
  "(string \<Rightarrow> 8 word list option \<times> 8 word list option) \<Rightarrow> gotime \<Rightarrow> NotificationBinding \<Rightarrow> (string, NotificationBinding) gomap \<Rightarrow>
   MemoryStore \<Rightarrow> MemoryStore" where
  "demote_all demoted instant b [] s = s"
| "demote_all demoted instant b ((i, existing) # m) s =
     (if other_default b i existing
      then demote_all demoted instant b m
        (logged_binding (demoted i) instant ''notification_binding.default_demoted'' ''system'' (demoted_binding instant existing)
          (put_binding instant i (demoted_binding instant existing) s))
      else demote_all demoted instant b m s)"

definition updated_bindings ::
  "op_env \<Rightarrow> (string \<Rightarrow> 8 word list option \<times> 8 word list option) \<Rightarrow> gotime \<Rightarrow> NotificationBinding \<Rightarrow> MemoryStore \<Rightarrow> MemoryStore" where
  "updated_bindings env demoted instant b s =
     appendNotificationBindingLifecycleLocked env instant b
       (put_binding instant (nb_ID b) b (if becomes_default b then demote_all demoted instant b (st_notificationBindings s) s else s))"

definition UpdateNotificationBinding ::
  "(string \<Rightarrow> string) \<Rightarrow> (string \<Rightarrow> string) \<Rightarrow> op_ctx \<Rightarrow> op_env \<Rightarrow> (string \<Rightarrow> 8 word list option \<times> 8 word list option) \<Rightarrow>
   NotificationBindingUpdateCommand \<Rightarrow> MemoryStore \<Rightarrow> NotificationBinding outcome" where
  "UpdateNotificationBinding unicode sha cx env demoted command = checked (entry_error ''notification_binding.update'' cx) (\<lambda>s.
     case normalizeNotificationBindingUpdateCommand command of
       Inl e \<Rightarrow> (Inl (storeError ''notification_binding.update'' StoreErrorInvalid e), s)
     | Inr (command, candidate) \<Rightarrow> checked (locked_error ''notification_binding.update'' cx) (\<lambda>s.
         case mget (st_notificationBindings s) (uc_id command) of
           None \<Rightarrow> (Inl (storeError ''notification_binding.update'' StoreErrorNotFound (Err ''notification binding not found'')), s)
         | Some previous \<Rightarrow> (case validatePersistedNotificationBinding unicode previous of
             Some e \<Rightarrow> (Inl (storeError ''notification_binding.update'' StoreErrorCorrupt e), s)
           | None \<Rightarrow>
               if notificationBindingDigest sha previous \<noteq> uc_expected command
               then (Inl (storeError ''notification_binding.update'' StoreErrorConflict (Err ''notification binding changed'')), s)
               else
                 let instant = nextNotificationBindingCommandTimeLocked (en_now env) previous candidate s
                 in case prepareNotificationBindingUpdate unicode sha previous candidate instant of
                   Inl e \<Rightarrow> (Inl (storeError ''notification_binding.update'' StoreErrorInvalid e), s)
                 | Inr b \<Rightarrow> (case validateNotificationBindingOwnershipLocked unicode b s of
                     Some e \<Rightarrow> (Inl e, s)
                   | None \<Rightarrow> (Inr b, updated_bindings env demoted instant b s)))) s)"

end
