(* ===== verification/Connectors.thy ===== *)
theory Connectors
  imports Connector_Operations Go_Maps
begin

text \<open>
  What the connector repository guarantees. Settings and bindings are kept under their identities and validate, a credential of the
  vault belongs to one binding, and a channel of an owner has one active default. A binding moves through its life cycle
  by updates that each take one version further, and an update made for an older binding is refused.
\<close>

section \<open>The clock\<close>

lemma repository_time_from:
  "c \<le> nextRepositoryTime_from c hw" "t \<in> set hw \<Longrightarrow> t < nextRepositoryTime_from c hw"
  "postgresTime c = c \<Longrightarrow> postgresTime (nextRepositoryTime_from c hw) = nextRepositoryTime_from c hw"
proof -
  have step: "p < Truncate p 1000 + 1000" for p :: gotime
    using pos_mod_bound [of 1000 p] by (simp add: Truncate_def)
  have ge: "c \<le> nextRepositoryTime_from c hw" for c hw
  proof (induction hw arbitrary: c)
    case (Cons p hw)
    show ?case
    proof (cases "p < c")
      case False
      then have "c \<le> Truncate p 1000 + 1000" using step [of p] by simp
      also have "\<dots> \<le> nextRepositoryTime_from (Truncate p 1000 + 1000) hw" by (rule Cons.IH)
      finally show ?thesis using False by simp
    qed (simp add: Cons.IH)
  qed simp
  then show "c \<le> nextRepositoryTime_from c hw" .
  show "t \<in> set hw \<Longrightarrow> t < nextRepositoryTime_from c hw"
  proof (induction hw arbitrary: c)
    case (Cons p hw)
    have "p < nextRepositoryTime_from c (p # hw)"
      using ge [of c hw] ge [of "Truncate p 1000 + 1000" hw] step [of p] by (cases "p < c") simp_all
    with Cons show ?case by auto
  qed simp
  show "postgresTime c = c \<Longrightarrow> postgresTime (nextRepositoryTime_from c hw) = nextRepositoryTime_from c hw"
    by (induction hw arbitrary: c) (simp_all add: postgresTime_next)
qed

lemma repository_time:
  "t \<in> set hw \<Longrightarrow> t < nextRepositoryTime now hw" "postgresTime (nextRepositoryTime now hw) = nextRepositoryTime now hw"
  by (simp_all add: nextRepositoryTime_def repository_time_from)

lemma latest_time: "nb_UpdatedAt b \<le> latestNotificationBindingTime b" "nb_CreatedAt b \<le> latestNotificationBindingTime b"
  by (auto simp: latestNotificationBindingTime_def Let_def split: option.splits)

section \<open>One operation\<close>

lemma prepare_binding_ok:
  assumes "prepareNotificationBindingUpdate unicode sha p c t = Inr b"
  shows "nb_ID b = nb_ID p \<and> nb_OwnerID b = nb_OwnerID p \<and> nb_ActorID b = nb_ActorID p \<and> nb_Channel b = nb_Channel p \<and>
      nb_CreatedAt b = nb_CreatedAt p \<and> nb_Version b = wrap64 (nb_Version p + 1) \<and> nb_UpdatedAt b = postgresTime t"
    and "notificationBindingTransitionAllowed (nb_Status p) (nb_Status b)"
    and "validatePersistedNotificationBinding unicode b = None"
    and "nb_Provider p \<noteq> [] \<Longrightarrow> nb_Provider b = nb_Provider p"
    and "nb_CredentialRef p \<noteq> [] \<Longrightarrow> nb_CredentialRef b = nb_CredentialRef p"
    and "nb_CredentialRef b \<noteq> nb_CredentialRef p \<Longrightarrow> nb_Status b = NotificationBindingActive"
    and "becomes_default b \<Longrightarrow> becomes_default c"
proof -
  let ?r = "next_binding p c t"
  let ?q = "if nb_Status ?r = NotificationBindingRevoked then ?r\<lparr>nb_RevokedAt := Some (nb_UpdatedAt ?r), nb_DefaultForChannel := False\<rparr> else ?r"
  have b: "b = ?q \<and> notificationBindingTransitionAllowed (nb_Status p) (nb_Status ?r) \<and>
      validatePersistedNotificationBinding unicode ?q = None \<and> (nb_Provider p \<noteq> [] \<longrightarrow> nb_Provider ?r = nb_Provider p) \<and>
      \<not> (nb_CredentialRef p \<noteq> nb_CredentialRef ?r \<and>
        (nb_CredentialRef p \<noteq> [] \<or> nb_Status ?r \<noteq> NotificationBindingActive \<or> nb_CredentialRef ?r = []))"
    using assms unfolding prepareNotificationBindingUpdate_def Let_def
    by (simp only: Let_def split: option.splits if_split_asm) auto
  show "nb_ID b = nb_ID p \<and> nb_OwnerID b = nb_OwnerID p \<and> nb_ActorID b = nb_ActorID p \<and> nb_Channel b = nb_Channel p \<and>
      nb_CreatedAt b = nb_CreatedAt p \<and> nb_Version b = wrap64 (nb_Version p + 1) \<and> nb_UpdatedAt b = postgresTime t"
    using b by (simp add: next_binding_def)
  show "notificationBindingTransitionAllowed (nb_Status p) (nb_Status b)" "validatePersistedNotificationBinding unicode b = None"
    "nb_Provider p \<noteq> [] \<Longrightarrow> nb_Provider b = nb_Provider p" "nb_CredentialRef p \<noteq> [] \<Longrightarrow> nb_CredentialRef b = nb_CredentialRef p"
    "nb_CredentialRef b \<noteq> nb_CredentialRef p \<Longrightarrow> nb_Status b = NotificationBindingActive" "becomes_default b \<Longrightarrow> becomes_default c"
    using b by (auto simp: becomes_default_def next_binding_def split: if_splits)
qed

lemma UpdateNotificationBinding_cases:
  assumes "UpdateNotificationBinding unicode sha cx env demoted command s = (res, s')"
  shows "(s' = s \<and> (\<exists>e. res = Inl e)) \<or>
    (\<exists>c p b. uc_valid command \<and> uc_next command = Some c \<and> mget (st_notificationBindings s) (TrimSpace (uc_id command)) = Some p \<and>
      notificationBindingDigest sha p = uc_expected command \<and>
      prepareNotificationBindingUpdate unicode sha p c (nextNotificationBindingCommandTimeLocked (en_now env) p c s) = Inr b \<and>
      validateNotificationBindingOwnershipLocked unicode b s = None \<and> res = Inr b \<and>
      s' = updated_bindings env demoted (nextNotificationBindingCommandTimeLocked (en_now env) p c s) b s)"
  using assms [symmetric]
  by (simp add: UpdateNotificationBinding_def checked_def normalizeNotificationBindingUpdateCommand_def Let_def
      split: option.splits sum.splits if_splits prod.splits) auto

lemma CreateNotificationBinding_cases:
  assumes "CreateNotificationBinding unicode cx env binding s = (res, s')"
  shows "(s' = s \<and> (\<exists>e. res = Inl e)) \<or>
    (\<exists>n b t. normalizeNotificationBindingCreate unicode binding = Inr n \<and> mget (st_notificationBindings s) (nb_ID n) = None \<and>
      t = nextRepositoryTime (en_now env) [time_at (st_notificationBindingWriteHighWater s) (nb_ID n)] \<and>
      b = n\<lparr>nb_Version := 1, nb_CreatedAt := t, nb_UpdatedAt := t\<rparr> \<and> res = Inr b \<and>
      s' = appendNotificationBindingLifecycleLocked env t b (put_binding t (nb_ID b) b s))"
  using assms by (auto simp: CreateNotificationBinding_def checked_def Let_def split: option.splits sum.splits if_splits)

lemma UpdateConnectorSetting_cases:
  assumes "UpdateConnectorSetting unicode cx env setting v s = (res, s')"
  shows "(s' = s \<and> (\<exists>e. res = Inl e)) \<or>
    (\<exists>n key current st. normalizeConnectorSettingCandidate unicode setting v = Inr n \<and>
      key = connectorSettingKey unicode (kn_OwnerID n) (kn_Channel n) \<and> current = mget (st_connectorSettings s) key \<and>
      setting_expected current v \<and> st = next_setting (en_now env) key current v n s \<and>
      res = Inr st \<and> s' = setting_store env key (setting_change current st) st s)"
  using assms [symmetric]
  by (simp add: UpdateConnectorSetting_def checked_def Let_def split: option.splits sum.splits if_splits)

section \<open>The tables after a write\<close>

lemma logged_tables:
  "st_connectorSettings (logged_binding ids t typ actor b s) = st_connectorSettings s"
  "st_connectorSettingWriteHighWater (logged_binding ids t typ actor b s) = st_connectorSettingWriteHighWater s"
  "st_notificationBindings (logged_binding ids t typ actor b s) = st_notificationBindings s"
  "st_notificationBindingWriteHighWater (logged_binding ids t typ actor b s) = st_notificationBindingWriteHighWater s"
  by (simp_all add: logged_binding_def appendAuditLockedAt_def appendEventLockedAt_def)

lemma put_binding_tables:
  "st_connectorSettings (put_binding t i b s) = st_connectorSettings s"
  "st_connectorSettingWriteHighWater (put_binding t i b s) = st_connectorSettingWriteHighWater s"
  "st_notificationBindings (put_binding t i b s) = mput i b (st_notificationBindings s)"
  "st_notificationBindingWriteHighWater (put_binding t i b s) = mput i t (st_notificationBindingWriteHighWater s)"
  by (simp_all add: put_binding_def)

lemmas binding_tables = logged_tables put_binding_tables

lemma demote_all_settings:
  "st_connectorSettings (demote_all demoted t b m s) = st_connectorSettings s"
  "st_connectorSettingWriteHighWater (demote_all demoted t b m s) = st_connectorSettingWriteHighWater s"
  by (induction m arbitrary: s) (auto simp: binding_tables)

lemma demote_all_get:
  assumes "keyed nb_ID m"
  shows "mget (st_notificationBindings (demote_all demoted t b m s)) i = (case mget m i of
      Some e \<Rightarrow> if other_default b i e then Some (demoted_binding t e) else mget (st_notificationBindings s) i
    | None \<Rightarrow> mget (st_notificationBindings s) i)"
  using assms
proof (induction m arbitrary: s)
  case (Cons x m)
  obtain j e where x: "x = (j, e)" by fastforce
  have m: "keyed nb_ID m" "mget m j = None" using Cons.prems by (auto simp: x keyed_def map_of_eq_None_iff)
  show ?case using Cons.IH [OF m(1)] m(2) by (auto simp: x binding_tables mget_mput split: option.splits)
qed simp

lemma demote_all_keyed:
  "keyed nb_ID m \<Longrightarrow> keyed nb_ID (st_notificationBindings s) \<Longrightarrow> keyed nb_ID (st_notificationBindings (demote_all demoted t b m s))"
proof (induction m arbitrary: s)
  case (Cons x m)
  obtain j e where x: "x = (j, e)" by fastforce
  have m: "keyed nb_ID m" "nb_ID e = j" using Cons.prems(1) by (auto simp: x keyed_def)
  have "keyed nb_ID (mput j (demoted_binding t e) (st_notificationBindings s))"
    by (rule keyed_put [OF Cons.prems(2)]) (simp add: demoted_binding_def m(2))
  then show ?case using Cons.IH [OF m(1)] Cons.prems(2) by (simp add: x binding_tables)
qed simp

lemma updated_bindings_get:
  assumes "keyed nb_ID (st_notificationBindings s)"
  shows "mget (st_notificationBindings (updated_bindings env demoted t b s)) i =
      (if i = nb_ID b then Some b
       else map_option (\<lambda>e. if becomes_default b \<and> other_default b i e then demoted_binding t e else e) (mget (st_notificationBindings s) i))"
    and "keyed nb_ID (st_notificationBindings (updated_bindings env demoted t b s))"
    and "st_connectorSettings (updated_bindings env demoted t b s) = st_connectorSettings s"
proof -
  show "mget (st_notificationBindings (updated_bindings env demoted t b s)) i =
      (if i = nb_ID b then Some b
       else map_option (\<lambda>e. if becomes_default b \<and> other_default b i e then demoted_binding t e else e) (mget (st_notificationBindings s) i))"
    using demote_all_get [OF assms, of demoted t b s]
    by (auto simp: updated_bindings_def appendNotificationBindingLifecycleLocked_def binding_tables mget_mput split: option.splits)
  show "keyed nb_ID (st_notificationBindings (updated_bindings env demoted t b s))"
    using keyed_put [of nb_ID _ b "nb_ID b"] demote_all_keyed [OF assms assms] assms
    by (simp add: updated_bindings_def appendNotificationBindingLifecycleLocked_def binding_tables)
  show "st_connectorSettings (updated_bindings env demoted t b s) = st_connectorSettings s"
    by (simp add: updated_bindings_def appendNotificationBindingLifecycleLocked_def binding_tables demote_all_settings)
qed

section \<open>Names in lower case\<close>

text \<open>What the lower case of a non-ASCII name without white space at its ends is relied on for: it has none either, and it is its
  own lower case.\<close>

definition lowers :: "(string \<Rightarrow> string) \<Rightarrow> bool" where
  "lowers unicode \<longleftrightarrow> (\<forall>s. \<not> is_ascii s \<longrightarrow> TrimSpace s = s \<longrightarrow> TrimSpace (unicode s) = unicode s \<and> ToLower unicode (unicode s) = unicode s)"

lemma lowers_id: "lowers id"
  by (simp add: lowers_def ToLower_def)

lemma trimmed_iff:
  "TrimSpace s = s \<longleftrightarrow> strip_one white_space s = None \<and> strip_one (map rev white_space) (rev s) = None"
proof
  assume t: "TrimSpace s = s"
  have "strip_one white_space (TrimSpace s) = None"
    using strip_front_done [of white_space s] strip_back_prefix [of white_space "strip_front white_space s"]
    by (auto simp: strip_one_None TrimSpace_def dest: prefix_order.trans)
  moreover have "strip_one (map rev white_space) (rev (TrimSpace s)) = None"
    by (simp add: TrimSpace_def strip_back_def strip_front_done)
  ultimately show "strip_one white_space s = None \<and> strip_one (map rev white_space) (rev s) = None" by (simp add: t)
qed (simp add: TrimSpace_def strip_back_def strip_front_fixed)

lemma lower_byte_other: "byte w < 65 \<or> 123 \<le> byte w \<Longrightarrow> w = lower_byte c \<longleftrightarrow> w = c"
  by (auto simp: lower_byte_def byte_def)

lemma prefix_lower:
  "list_all (\<lambda>w. byte w < 65 \<or> 123 \<le> byte w) p \<Longrightarrow> prefix p (map lower_byte s) \<longleftrightarrow> prefix p s"
proof (induction p arbitrary: s)
  case (Cons w p)
  then show ?case by (cases s) (auto simp: lower_byte_other)
qed simp

lemma white_other: "p \<in> set white_space \<Longrightarrow> list_all (\<lambda>w. byte w < 65 \<or> 123 \<le> byte w) p"
  by (auto simp: white_space_def byte_def)

lemma strip_lower:
  "strip_one white_space (map lower_byte s) = None \<longleftrightarrow> strip_one white_space s = None"
  "strip_one (map rev white_space) (map lower_byte s) = None \<longleftrightarrow> strip_one (map rev white_space) s = None"
  using white_other by (auto simp: strip_one_None prefix_lower)

lemma lower_byte_idem [simp]: "lower_byte (lower_byte c) = lower_byte c"
  by (auto simp: lower_byte_def byte_def)

lemma normalizeConnectorChannel_idem:
  assumes "lowers unicode"
  shows "normalizeConnectorChannel unicode (normalizeConnectorChannel unicode c) = normalizeConnectorChannel unicode c"
proof (cases "is_ascii (TrimSpace c)")
  case True
  have "TrimSpace (map lower_byte (TrimSpace c)) = map lower_byte (TrimSpace c)"
    using TrimSpace_idem [of c] by (simp only: trimmed_iff strip_lower rev_map)
  moreover have "is_ascii (map lower_byte (TrimSpace c))"
    using True by (auto simp: is_ascii_def list_all_iff lower_byte_def byte_def)
  ultimately show ?thesis using True by (simp add: normalizeConnectorChannel_def ToLower_def comp_def)
next
  case False
  then show ?thesis using assms by (simp add: normalizeConnectorChannel_def ToLower_def [of unicode "TrimSpace c"] lowers_def)
qed

lemma TrimSpace_DefaultOwnerID: "TrimSpace ''owner'' = ''owner''"
  by (simp add: trimmed_iff white_space_def)

lemma normalizeConnectorOwner_idem [simp]: "normalizeConnectorOwner (normalizeConnectorOwner o') = normalizeConnectorOwner o'"
  by (simp add: normalizeConnectorOwner_def Let_def TrimSpace_DefaultOwnerID)

section \<open>The invariant\<close>

abbreviation setting_key :: "(string \<Rightarrow> string) \<Rightarrow> ConnectorSetting \<Rightarrow> string" where
  "setting_key unicode setting \<equiv> connectorSettingKey unicode (kn_OwnerID setting) (kn_Channel setting)"

definition sound_binding :: "(string \<Rightarrow> string) \<Rightarrow> NotificationBinding \<Rightarrow> bool" where
  "sound_binding unicode b \<longleftrightarrow> validatePersistedNotificationBinding unicode b = None \<and> nb_Provider b \<noteq> [] \<and> CHR 0x1F \<notin> set (nb_OwnerID b)"

definition written :: "(string, gotime) gomap \<Rightarrow> bool" where
  "written hw \<longleftrightarrow> (\<forall>k t. mget hw k = Some t \<longrightarrow> 0 < t)"

definition one_owner :: "NotificationBinding list \<Rightarrow> bool" where
  "one_owner bs \<longleftrightarrow> (\<forall>b \<in> set bs. \<forall>c \<in> set bs. isVaultOwnedCredentialRef (nb_CredentialRef b) \<longrightarrow>
     nb_CredentialRef b = nb_CredentialRef c \<longrightarrow> nb_ID b = nb_ID c)"

definition one_default :: "NotificationBinding list \<Rightarrow> bool" where
  "one_default bs \<longleftrightarrow> (\<forall>b \<in> set bs. \<forall>c \<in> set bs. becomes_default b \<longrightarrow> becomes_default c \<longrightarrow>
     nb_OwnerID b = nb_OwnerID c \<longrightarrow> nb_Channel b = nb_Channel c \<longrightarrow> nb_ID b = nb_ID c)"

definition settings_inv :: "(string \<Rightarrow> string) \<Rightarrow> MemoryStore \<Rightarrow> bool" where
  "settings_inv unicode s \<longleftrightarrow> keyed (setting_key unicode) (st_connectorSettings s) \<and> written (st_connectorSettingWriteHighWater s) \<and>
     (\<forall>c \<in> set (mvals (st_connectorSettings s)). validatePersistedConnectorSetting unicode c = None)"

definition bindings_inv :: "(string \<Rightarrow> string) \<Rightarrow> MemoryStore \<Rightarrow> bool" where
  "bindings_inv unicode s \<longleftrightarrow> keyed nb_ID (st_notificationBindings s) \<and> written (st_notificationBindingWriteHighWater s) \<and>
     (\<forall>b \<in> set (mvals (st_notificationBindings s)). sound_binding unicode b) \<and>
     one_owner (mvals (st_notificationBindings s)) \<and> one_default (mvals (st_notificationBindings s))"

definition connectors_inv :: "(string \<Rightarrow> string) \<Rightarrow> MemoryStore \<Rightarrow> bool" where
  "connectors_inv unicode s \<longleftrightarrow> settings_inv unicode s \<and> bindings_inv unicode s"

lemma written_time: "written hw \<Longrightarrow> 0 \<le> time_at hw k"
  by (auto simp: written_def time_at_def order_less_imp_le split: option.split)

lemma written_put: "written hw \<Longrightarrow> 0 < t \<Longrightarrow> written (mput k t hw)"
  by (auto simp: written_def mget_mput)

lemma command_time:
  "time_at (st_notificationBindingWriteHighWater s) (nb_ID p) < nextNotificationBindingCommandTimeLocked now p c s"
  "latestNotificationBindingTime p < nextNotificationBindingCommandTimeLocked now p c s"
  "postgresTime (nextNotificationBindingCommandTimeLocked now p c s) = nextNotificationBindingCommandTimeLocked now p c s"
  by (auto simp: nextNotificationBindingCommandTimeLocked_def intro!: repository_time)

lemma valid_binding_names:
  assumes "validatePersistedNotificationBinding unicode b = None"
  shows "nb_ID b \<noteq> []" "TrimSpace (nb_ID b) = nb_ID b" "TrimSpace (nb_OwnerID b) = nb_OwnerID b" "nb_OwnerID b \<noteq> []"
    "normalizeConnectorChannel unicode (nb_Channel b) = nb_Channel b" "1 \<le> nb_Version b"
  using assms by (auto simp: validatePersistedNotificationBinding_def split: if_splits)

lemma valid_demoted:
  assumes "validatePersistedNotificationBinding unicode b = None" and "nb_Status b = NotificationBindingActive"
    and "t \<noteq> 0" and "nb_Version b < 2 ^ 63 - 1"
  shows "validatePersistedNotificationBinding unicode (demoted_binding t b) = None"
proof -
  have "wrap64 (nb_Version b + 1) = nb_Version b + 1" using valid_binding_names(6) [OF assms(1)] assms(4) by (intro wrap64_id) auto
  then show ?thesis
    using assms by (simp add: validatePersistedNotificationBinding_def demoted_binding_def split: if_splits)
qed

lemma demoted_fields:
  "nb_ID (demoted_binding t b) = nb_ID b" "nb_OwnerID (demoted_binding t b) = nb_OwnerID b"
  "nb_ActorID (demoted_binding t b) = nb_ActorID b" "nb_Channel (demoted_binding t b) = nb_Channel b"
  "nb_Provider (demoted_binding t b) = nb_Provider b" "nb_CredentialRef (demoted_binding t b) = nb_CredentialRef b"
  "nb_Status (demoted_binding t b) = nb_Status b" "nb_Version (demoted_binding t b) = wrap64 (nb_Version b + 1)"
  "nb_UpdatedAt (demoted_binding t b) = t" "nb_CreatedAt (demoted_binding t b) = nb_CreatedAt b" "\<not> becomes_default (demoted_binding t b)"
  by (simp_all add: demoted_binding_def becomes_default_def)

section \<open>Credentials\<close>

lemma claim_ok:
  assumes "claimBindingCredentialRef owners b = Inr owners'"
  shows "isVaultOwnedCredentialRef (nb_CredentialRef b) \<Longrightarrow> mget owners' (nb_CredentialRef b) = Some (nb_ID b)"
    and "mget owners r = Some j \<Longrightarrow> j \<noteq> [] \<Longrightarrow> mget owners' r = Some j"
    and "isVaultOwnedCredentialRef (nb_CredentialRef b) \<Longrightarrow> mget owners (nb_CredentialRef b) = Some j \<Longrightarrow> j \<noteq> [] \<Longrightarrow> j = nb_ID b"
  using assms by (auto simp: claimBindingCredentialRef_def mget_mput split: if_splits option.splits)

lemma claim_others_ok:
  assumes "claim_others unicode i owners m = Inr owners'"
  shows "(\<forall>(k, c) \<in> set m. k \<noteq> i \<longrightarrow> isVaultOwnedCredentialRef (nb_CredentialRef c) \<longrightarrow>
      mget owners' (nb_CredentialRef c) = Some (nb_ID c) \<and> nb_ID c \<noteq> []) \<and>
    (\<forall>r j. mget owners r = Some j \<longrightarrow> j \<noteq> [] \<longrightarrow> mget owners' r = Some j)"
  using assms
proof (induction m arbitrary: owners)
  case (Cons x m)
  obtain k c where x: "x = (k, c)" by fastforce
  show ?case
  proof (cases "k = i")
    case False
    then obtain o' where v: "validatePersistedNotificationBinding unicode c = None"
      and o': "claimBindingCredentialRef owners c = Inr o'" "claim_others unicode i o' m = Inr owners'"
      using Cons.prems by (auto simp: x split: option.splits sum.splits)
    note id = valid_binding_names(1) [OF v]
    have keep: "mget owners' r = Some j" if "mget o' r = Some j" "j \<noteq> []" for r j using Cons.IH [OF o'(2)] that by blast
    have "isVaultOwnedCredentialRef (nb_CredentialRef c) \<Longrightarrow> mget owners' (nb_CredentialRef c) = Some (nb_ID c)"
      by (rule keep [OF claim_ok(1) [OF o'(1)] id])
    moreover have "mget owners' r = Some j" if "mget owners r = Some j" "j \<noteq> []" for r j
      by (rule keep [OF claim_ok(2) [OF o'(1) that] that(2)])
    ultimately show ?thesis using Cons.IH [OF o'(2)] id by (auto simp: x)
  qed (use Cons in \<open>simp add: x\<close>)
qed simp

lemma ownership_ok:
  assumes "validateNotificationBindingOwnershipLocked unicode b s = None" and "(k, c) \<in> set (st_notificationBindings s)"
    and "k \<noteq> nb_ID b" and "isVaultOwnedCredentialRef (nb_CredentialRef b)" and "nb_CredentialRef c = nb_CredentialRef b"
  shows "nb_ID c = nb_ID b"
proof -
  obtain owners o' where o': "claim_others unicode (nb_ID b) [] (st_notificationBindings s) = Inr owners"
      "claimBindingCredentialRef owners b = Inr o'"
    using assms(1) by (auto simp: validateNotificationBindingOwnershipLocked_def split: sum.splits)
  have "mget owners (nb_CredentialRef b) = Some (nb_ID c) \<and> nb_ID c \<noteq> []" using claim_others_ok [OF o'(1)] assms(2-5) by fastforce
  then show ?thesis using claim_ok(3) [OF o'(2) assms(4)] by blast
qed

section \<open>Every write keeps the invariant\<close>

lemma demote_all_written:
  "written (st_notificationBindingWriteHighWater s) \<Longrightarrow> 0 < t \<Longrightarrow> written (st_notificationBindingWriteHighWater (demote_all demoted t b m s))"
  by (induction m arbitrary: s) (auto simp: binding_tables written_put)

lemma valid_setting:
  assumes "lowers unicode" and "normalizeConnectorSettingCandidate unicode setting v = Inr n"
    and "0 < t" and "v < 2 ^ 63 - 1"
  shows "validatePersistedConnectorSetting unicode (n\<lparr>kn_Version := wrap64 (v + 1), kn_UpdatedAt := t\<rparr>) = None \<and> 0 \<le> v"
proof -
  have o': "normalizeConnectorOwner x \<noteq> []" "TrimSpace (normalizeConnectorOwner x) = normalizeConnectorOwner x" for x
    by (simp_all add: normalizeConnectorOwner_def Let_def TrimSpace_DefaultOwnerID)
  have v: "0 \<le> v" using assms(2) by (auto simp: normalizeConnectorSettingCandidate_def Let_def split: if_splits)
  then have "wrap64 (v + 1) = v + 1" using assms(4) by (intro wrap64_id) auto
  then show ?thesis
    using assms v by (auto simp: normalizeConnectorSettingCandidate_def validatePersistedConnectorSetting_def Let_def o'
        normalizeConnectorChannel_idem split: if_splits)
qed

lemma setting_store_tables:
  "st_connectorSettings (setting_store env key typ st s) = mput key st (st_connectorSettings s)"
  "st_connectorSettingWriteHighWater (setting_store env key typ st s) = mput key (kn_UpdatedAt st) (st_connectorSettingWriteHighWater s)"
  "st_notificationBindings (setting_store env key typ st s) = st_notificationBindings s"
  "st_notificationBindingWriteHighWater (setting_store env key typ st s) = st_notificationBindingWriteHighWater s"
  by (simp_all add: setting_store_def appendAuditLockedAt_def appendEventLockedAt_def)

lemma next_setting_time:
  "time_at (st_connectorSettingWriteHighWater s) key < kn_UpdatedAt (next_setting now key current v n s)"
  "current = Some c \<Longrightarrow> kn_UpdatedAt c < kn_UpdatedAt (next_setting now key current v n s)"
  by (auto simp: next_setting_def intro!: repository_time)

lemma setting_store_inv:
  assumes "lowers unicode" and "settings_inv unicode s" and "normalizeConnectorSettingCandidate unicode setting v = Inr n" and "v < 2 ^ 63 - 1"
    and st: "st = next_setting now (setting_key unicode n) current v n s"
  shows "settings_inv unicode (setting_store env (setting_key unicode n) typ st s)"
proof -
  let ?key = "setting_key unicode n"
  have t: "0 < kn_UpdatedAt st"
    using written_time [of "st_connectorSettingWriteHighWater s" ?key] next_setting_time(1) [of s ?key now current v n] assms(2)
    by (simp add: st settings_inv_def)
  have k: "setting_key unicode st = ?key" by (simp add: st next_setting_def)
  have st': "st = n\<lparr>kn_Version := wrap64 (v + 1), kn_UpdatedAt := kn_UpdatedAt st\<rparr>" by (simp add: st next_setting_def)
  have v: "validatePersistedConnectorSetting unicode st = None"
    using valid_setting [OF assms(1,3) t assms(4)] by (subst st') simp
  have old: "keyed (setting_key unicode) (st_connectorSettings s)" "written (st_connectorSettingWriteHighWater s)"
      "\<forall>c \<in> set (mvals (st_connectorSettings s)). validatePersistedConnectorSetting unicode c = None"
    using assms(2) by (simp_all add: settings_inv_def)
  show ?thesis
    using keyed_put [OF old(1) k] all_vals_put [OF old(1,3) v] written_put [OF old(2) t, of ?key]
    by (simp add: settings_inv_def setting_store_tables k)
qed

definition admissible_binding :: "NotificationBinding \<Rightarrow> bool" where
  "admissible_binding b \<longleftrightarrow> list_all (\<lambda>scope. TrimSpace scope \<noteq> [] \<and> TrimSpace scope = scope) (nb_Scopes b) \<and>
     CHR 0x1F \<notin> set (TrimSpace (nb_OwnerID b))"

lemma created_fields:
  assumes "normalizeNotificationBindingCreate unicode binding = Inr n"
  shows "nb_ID n = TrimSpace (nb_ID binding)" "nb_OwnerID n = TrimSpace (nb_OwnerID binding)" "nb_ActorID n = TrimSpace (nb_ActorID binding)"
    "nb_Channel n = normalizeConnectorChannel unicode (nb_Channel binding)" "nb_Provider n = TrimSpace (nb_Provider binding)"
    "nb_CredentialKind n = TrimSpace (nb_CredentialKind binding)" "nb_Scopes n = nb_Scopes binding"
    and "nb_ID n \<noteq> []" "length (nb_ID n) \<le> 256" "nb_OwnerID n \<noteq> []" "nb_ActorID n \<noteq> []" "nb_Channel n \<noteq> []" "nb_Provider n \<noteq> []"
    and "nb_Status n = NotificationBindingStarting" "nb_CredentialRef n = []" "nb_RevokedAt n = None" "nb_ExpiresAt n = None"
      "\<not> nb_DefaultForChannel n"
proof -
  have "n = trimmed_binding unicode binding" "starting_identity n" "\<not> carries_state n"
    using assms by (auto simp: normalizeNotificationBindingCreate_def Let_def split: if_splits)
  note n = this
  show "nb_ID n = TrimSpace (nb_ID binding)" "nb_OwnerID n = TrimSpace (nb_OwnerID binding)" "nb_ActorID n = TrimSpace (nb_ActorID binding)"
    "nb_Channel n = normalizeConnectorChannel unicode (nb_Channel binding)" "nb_Provider n = TrimSpace (nb_Provider binding)"
    "nb_CredentialKind n = TrimSpace (nb_CredentialKind binding)" "nb_Scopes n = nb_Scopes binding"
    by (simp_all add: n(1) trimmed_binding_def)
  show "nb_ID n \<noteq> []" "length (nb_ID n) \<le> 256" "nb_OwnerID n \<noteq> []" "nb_ActorID n \<noteq> []" "nb_Channel n \<noteq> []" "nb_Provider n \<noteq> []"
    "nb_Status n = NotificationBindingStarting"
    using n(2) by (simp_all add: starting_identity_def)
  show "nb_CredentialRef n = []" "nb_RevokedAt n = None" "nb_ExpiresAt n = None" "\<not> nb_DefaultForChannel n"
    using n(3) by (simp_all add: carries_state_def)
qed

lemma created_binding_sound:
  assumes "lowers unicode" and "normalizeNotificationBindingCreate unicode binding = Inr n" and "admissible_binding binding" and "0 < t"
  shows "sound_binding unicode (n\<lparr>nb_Version := 1, nb_CreatedAt := t, nb_UpdatedAt := t\<rparr>)"
proof -
  note n = created_fields [OF assms(2)]
  have "list_ex (\<lambda>scope. TrimSpace scope = [] \<or> TrimSpace scope \<noteq> scope) (nb_Scopes n) = False" "CHR 0x1F \<notin> set (nb_OwnerID n)"
    using assms(3) by (auto simp: admissible_binding_def n(2,7) list_all_iff list_ex_iff)
  moreover have "TrimSpace (nb_ID n) = nb_ID n" "TrimSpace (nb_OwnerID n) = nb_OwnerID n" "TrimSpace (nb_ActorID n) = nb_ActorID n"
    "TrimSpace (nb_Provider n) = nb_Provider n" "TrimSpace (nb_CredentialKind n) = nb_CredentialKind n"
    "normalizeConnectorChannel unicode (nb_Channel n) = nb_Channel n"
    by (simp_all add: n(1-6) normalizeConnectorChannel_idem [OF assms(1)])
  ultimately show ?thesis
    using n(8-) assms(4) by (simp add: sound_binding_def validatePersistedNotificationBinding_def)
qed

lemma bindings_of: "keyed nb_ID m \<Longrightarrow> b \<in> set (mvals m) \<longleftrightarrow> mget m (nb_ID b) = Some b"
  by (rule keyed_vals)

lemma created_inv:
  assumes inv: "bindings_inv unicode s" and "sound_binding unicode b" and "nb_Status b = NotificationBindingStarting"
    and "nb_CredentialRef b = []" and "0 < t"
  shows "bindings_inv unicode (appendNotificationBindingLifecycleLocked env t b (put_binding t (nb_ID b) b s))"
proof -
  have k: "keyed nb_ID (st_notificationBindings s)" and w: "written (st_notificationBindingWriteHighWater s)"
    and ok: "\<forall>b \<in> set (mvals (st_notificationBindings s)). sound_binding unicode b"
    and oo: "one_owner (mvals (st_notificationBindings s))" and od: "one_default (mvals (st_notificationBindings s))"
    using inv by (simp_all add: bindings_inv_def)
  have plain: "\<not> isVaultOwnedCredentialRef []" "\<not> becomes_default b"
    using assms(3) by (simp_all add: isVaultOwnedCredentialRef_def becomes_default_def)
  have "one_owner (mvals (mput (nb_ID b) b (st_notificationBindings s)))"
    unfolding one_owner_def Ball_def vals_put [OF k refl] using oo [unfolded one_owner_def Ball_def] plain(1) assms(4) by metis
  moreover have "one_default (mvals (mput (nb_ID b) b (st_notificationBindings s)))"
    unfolding one_default_def Ball_def vals_put [OF k refl] using od [unfolded one_default_def Ball_def] plain(2) by metis
  ultimately show ?thesis
    using keyed_put [OF k refl, of b] all_vals_put [OF k ok assms(2)] written_put [OF w assms(5)]
    by (simp add: bindings_inv_def appendNotificationBindingLifecycleLocked_def binding_tables)
qed

lemma updated_val:
  assumes k: "keyed nb_ID (st_notificationBindings s)" and "c \<in> set (mvals (st_notificationBindings (updated_bindings env demoted t b s)))"
  shows "c = b \<or> (nb_ID c \<noteq> nb_ID b \<and> (\<exists>e \<in> set (mvals (st_notificationBindings s)). nb_ID e = nb_ID c \<and>
    c = (if becomes_default b \<and> other_default b (nb_ID c) e then demoted_binding t e else e)))"
proof (cases "nb_ID c = nb_ID b")
  case same: True
  then show ?thesis using assms(2) bindings_of [OF updated_bindings_get(2) [OF k]] by (simp add: updated_bindings_get(1) [OF k])
next
  case False
  have "mget (st_notificationBindings (updated_bindings env demoted t b s)) (nb_ID c) = Some c"
    using assms(2) bindings_of [OF updated_bindings_get(2) [OF k]] by blast
  then obtain e where e: "mget (st_notificationBindings s) (nb_ID c) = Some e"
      "c = (if becomes_default b \<and> other_default b (nb_ID c) e then demoted_binding t e else e)"
    using False by (auto simp: updated_bindings_get(1) [OF k])
  have "nb_ID e = nb_ID c" using keyed_get [OF k e(1)] .
  then show ?thesis using False e bindings_of [OF k, of e] by metis
qed

text \<open>An update of the binding \<open>p\<close> to \<open>b\<close> at the time \<open>t\<close>, made where the ownership check passed.\<close>

lemma updated_inv:
  assumes inv: "bindings_inv unicode s" and p: "mget (st_notificationBindings s) i = Some p"
    and prep: "prepareNotificationBindingUpdate unicode sha p c t = Inr b"
    and own: "validateNotificationBindingOwnershipLocked unicode b s = None"
    and t: "0 < t" and below: "\<forall>e \<in> set (mvals (st_notificationBindings s)). nb_Version e < 2 ^ 63 - 1"
  shows "bindings_inv unicode (updated_bindings env demoted t b s)"
proof -
  let ?bs = "mvals (st_notificationBindings s)" and ?cs = "mvals (st_notificationBindings (updated_bindings env demoted t b s))"
  have k: "keyed nb_ID (st_notificationBindings s)" and w: "written (st_notificationBindingWriteHighWater s)"
    and ok: "\<And>e. e \<in> set ?bs \<Longrightarrow> sound_binding unicode e" and oo: "one_owner ?bs" and od: "one_default ?bs"
    using inv by (simp_all add: bindings_inv_def)
  have pv: "sound_binding unicode p" using ok [of p] p keyed_get [OF k p] bindings_of [OF k, of p] by simp
  note new = prepare_binding_ok [OF prep]
  have b: "sound_binding unicode b" using new(1,3,4) pv by (simp add: sound_binding_def)
  note val = updated_val [OF k, of _ env demoted t b]
  have valid: "sound_binding unicode c" if "c \<in> set ?cs" for c
  proof -
    have "sound_binding unicode (demoted_binding t e)" if e: "e \<in> set ?bs" "other_default b (nb_ID c) e" for e
      using valid_demoted [of unicode e t] ok [OF e(1)] e below t by (simp add: sound_binding_def demoted_fields other_default_def)
    then show ?thesis using val [OF that] ok b by metis
  qed
  have share: "nb_ID c = nb_ID b" if c: "c \<in> set ?cs" "isVaultOwnedCredentialRef (nb_CredentialRef b)" "nb_CredentialRef c = nb_CredentialRef b" for c
  proof (rule ccontr)
    assume d: "nb_ID c \<noteq> nb_ID b"
    then obtain e where e: "e \<in> set ?bs" "nb_ID e = nb_ID c" "nb_CredentialRef e = nb_CredentialRef c"
      using val [OF c(1)] demoted_fields(6) by metis
    have "(nb_ID e, e) \<in> set (st_notificationBindings s)" using e(1) bindings_of [OF k] by (simp add: map_of_SomeD)
    then show False using ownership_ok [OF own _ _ c(2)] e d c(3) by auto
  qed
  have owner: "nb_ID c = nb_ID c'" if c: "c \<in> set ?cs" "c' \<in> set ?cs" "isVaultOwnedCredentialRef (nb_CredentialRef c)"
      "nb_CredentialRef c = nb_CredentialRef c'" for c c'
  proof (cases "c = b \<or> c' = b")
    case True
    then show ?thesis using share c by metis
  next
    case False
    obtain e where e: "e \<in> set ?bs" "nb_ID e = nb_ID c" "nb_CredentialRef e = nb_CredentialRef c"
      using val [OF c(1)] False demoted_fields(6) by metis
    obtain e' where e': "e' \<in> set ?bs" "nb_ID e' = nb_ID c'" "nb_CredentialRef e' = nb_CredentialRef c'"
      using val [OF c(2)] False demoted_fields(6) by metis
    show ?thesis using oo [unfolded one_owner_def, rule_format, OF e(1) e'(1)] e e' c(3,4) by simp
  qed
  have kept: "c = e \<and> (becomes_default b \<longrightarrow> \<not> (nb_OwnerID c = nb_OwnerID b \<and> nb_Channel c = nb_Channel b))"
    if "becomes_default c" "nb_ID c \<noteq> nb_ID b" "c = (if becomes_default b \<and> other_default b (nb_ID c) e then demoted_binding t e else e)" for c e
    using that by (auto simp: other_default_def becomes_default_def demoted_binding_def split: if_splits)
  have other: "c \<in> set ?bs \<and> (becomes_default b \<longrightarrow> \<not> (nb_OwnerID c = nb_OwnerID b \<and> nb_Channel c = nb_Channel b))"
    if c: "c \<in> set ?cs" "becomes_default c" "nb_ID c \<noteq> nb_ID b" for c
  proof -
    obtain e where e: "e \<in> set ?bs" "c = (if becomes_default b \<and> other_default b (nb_ID c) e then demoted_binding t e else e)"
      using val [OF c(1)] c(3) by blast
    show ?thesis using kept [OF c(2,3) e(2)] e(1) by blast
  qed
  have same: "c = b" if "c \<in> set ?cs" "nb_ID c = nb_ID b" for c using val [OF that(1)] that(2) by blast
  have def': "nb_ID c = nb_ID c'" if c: "c \<in> set ?cs" "c' \<in> set ?cs" "becomes_default c" "becomes_default c'"
      "nb_OwnerID c = nb_OwnerID c'" "nb_Channel c = nb_Channel c'" for c c'
  proof (cases "nb_ID c = nb_ID b \<or> nb_ID c' = nb_ID b")
    case True
    then show ?thesis using same [OF c(1)] same [OF c(2)] other [OF c(1,3)] other [OF c(2,4)] c(3-6) by metis
  next
    case False
    then show ?thesis using od [unfolded one_default_def, rule_format, of c c'] other [OF c(1,3)] other [OF c(2,4)] c(3-6) by blast
  qed
  have "one_owner ?cs" unfolding one_owner_def by (intro ballI impI) (rule owner)
  moreover have "one_default ?cs" unfolding one_default_def by (intro ballI impI) (rule def')
  moreover have "written (st_notificationBindingWriteHighWater (updated_bindings env demoted t b s))"
    using written_put [OF demote_all_written [OF w t] t] written_put [OF w t]
    by (simp add: updated_bindings_def appendNotificationBindingLifecycleLocked_def binding_tables)
  ultimately show ?thesis using updated_bindings_get(2) [OF k] valid by (simp add: bindings_inv_def)
qed

section \<open>Calls and steps\<close>

text \<open>A call of a writing operation. A step makes one where the versions are below the largest integer; a new binding has scopes that
  validate (the creation does not check them) and an owner without the separator of the keys.\<close>

datatype connector_write =
    UpdateSetting op_ctx op_env ConnectorSetting int
  | CreateBinding op_ctx op_env NotificationBinding
  | UpdateBinding op_ctx op_env "string \<Rightarrow> 8 word list option \<times> 8 word list option" NotificationBindingUpdateCommand

fun connector_call :: "(string \<Rightarrow> string) \<Rightarrow> (string \<Rightarrow> string) \<Rightarrow> connector_write \<Rightarrow> MemoryStore \<Rightarrow> MemoryStore" where
  "connector_call unicode sha (UpdateSetting cx env setting v) s = snd (UpdateConnectorSetting unicode cx env setting v s)"
| "connector_call unicode sha (CreateBinding cx env b) s = snd (CreateNotificationBinding unicode cx env b s)"
| "connector_call unicode sha (UpdateBinding cx env demoted command) s =
     snd (UpdateNotificationBinding unicode sha cx env demoted command s)"

fun admissible :: "connector_write \<Rightarrow> bool" where
  "admissible (CreateBinding cx env b) \<longleftrightarrow> admissible_binding b"
| "admissible c \<longleftrightarrow> True"

definition versions_below :: "MemoryStore \<Rightarrow> bool" where
  "versions_below s \<longleftrightarrow> list_all (\<lambda>b. nb_Version b < 2 ^ 63 - 1) (mvals (st_notificationBindings s)) \<and>
     list_all (\<lambda>c. kn_Version c < 2 ^ 63 - 1) (mvals (st_connectorSettings s))"

inductive connector_step :: "(string \<Rightarrow> string) \<Rightarrow> (string \<Rightarrow> string) \<Rightarrow> MemoryStore \<Rightarrow> MemoryStore \<Rightarrow> bool"
  for unicode sha where
  step_connector: "versions_below s \<Longrightarrow> admissible c \<Longrightarrow> connector_step unicode sha s (connector_call unicode sha c s)"

inductive_cases connector_stepE: "connector_step unicode sha s s'"

lemma expected_version:
  assumes "settings_inv unicode s" and "versions_below s" and "setting_expected (mget (st_connectorSettings s) k) v"
  shows "v < 2 ^ 63 - 1"
  using assms keyed_vals [of "setting_key unicode" "st_connectorSettings s"] keyed_get [of "setting_key unicode" "st_connectorSettings s" k]
  by (cases "mget (st_connectorSettings s) k") (force simp: setting_expected_def versions_below_def list_all_iff settings_inv_def)+

lemma settings_only:
  "bindings_inv unicode s \<Longrightarrow> bindings_inv unicode (setting_store env key typ st s)"
  by (simp add: bindings_inv_def setting_store_tables)

lemma bindings_only:
  "settings_inv unicode s \<Longrightarrow> settings_inv unicode (updated_bindings env demoted t b s)"
  "settings_inv unicode s \<Longrightarrow> settings_inv unicode (appendNotificationBindingLifecycleLocked env t b (put_binding t i b s))"
  by (simp_all add: settings_inv_def updated_bindings_def appendNotificationBindingLifecycleLocked_def binding_tables demote_all_settings)

lemma connectors_inv_call:
  assumes low: "lowers unicode" and inv: "connectors_inv unicode s" and below: "versions_below s" and adm: "admissible c"
  shows "connectors_inv unicode (connector_call unicode sha c s)"
proof -
  have inv': "settings_inv unicode s" "bindings_inv unicode s" using inv by (simp_all add: connectors_inv_def)
  show ?thesis
  proof (cases c)
    case (UpdateSetting cx env setting v)
    show ?thesis
      using UpdateConnectorSetting_cases [of unicode cx env setting v s, OF surjective_pairing] inv
    proof (elim disjE exE conjE)
      fix n key current st
      assume a: "normalizeConnectorSettingCandidate unicode setting v = Inr n" "key = setting_key unicode n"
        "current = mget (st_connectorSettings s) key" "setting_expected current v" "st = next_setting (en_now env) key current v n s"
        "snd (UpdateConnectorSetting unicode cx env setting v s) = setting_store env key (setting_change current st) st s"
      have v: "v < 2 ^ 63 - 1" using expected_version [OF inv'(1) below] a(3,4) by simp
      show ?thesis
        using setting_store_inv [OF low inv'(1) a(1) v a(5) [unfolded a(2)]] settings_only [OF inv'(2)]
        by (simp add: UpdateSetting connectors_inv_def a(6) a(2))
    qed (simp add: UpdateSetting)
  next
    case (CreateBinding cx env b)
    show ?thesis
      using CreateNotificationBinding_cases [of unicode cx env b s, OF surjective_pairing] inv
    proof (elim disjE exE conjE)
      fix n b' t
      assume a: "normalizeNotificationBindingCreate unicode b = Inr n" "mget (st_notificationBindings s) (nb_ID n) = None"
        "t = nextRepositoryTime (en_now env) [time_at (st_notificationBindingWriteHighWater s) (nb_ID n)]"
        "b' = n\<lparr>nb_Version := 1, nb_CreatedAt := t, nb_UpdatedAt := t\<rparr>"
        "snd (CreateNotificationBinding unicode cx env b s) =
          appendNotificationBindingLifecycleLocked env t b' (put_binding t (nb_ID b') b' s)"
      have t: "0 < t"
        using written_time [of "st_notificationBindingWriteHighWater s" "nb_ID n"] inv'(2) nextRepositoryTime_after
          [of "time_at (st_notificationBindingWriteHighWater s) (nb_ID n)" "en_now env"] by (simp add: a(3) bindings_inv_def)
      have "sound_binding unicode b'" using created_binding_sound [OF low a(1) _ t] adm by (simp add: a(4) CreateBinding)
      then show ?thesis
        using created_inv [OF inv'(2) _ _ _ t, of b' env] created_fields(14,15) [OF a(1)] bindings_only(2) [OF inv'(1)]
        by (simp add: CreateBinding connectors_inv_def a(5)) (simp add: a(4))
    qed (simp add: CreateBinding)
  next
    case (UpdateBinding cx env demoted command)
    show ?thesis
      using UpdateNotificationBinding_cases [of unicode sha cx env demoted command s, OF surjective_pairing] inv
    proof (elim disjE exE conjE)
      fix cand p b
      let ?t = "nextNotificationBindingCommandTimeLocked (en_now env) p cand s"
      assume a: "mget (st_notificationBindings s) (TrimSpace (uc_id command)) = Some p"
        "prepareNotificationBindingUpdate unicode sha p cand ?t = Inr b"
        "validateNotificationBindingOwnershipLocked unicode b s = None"
        "snd (UpdateNotificationBinding unicode sha cx env demoted command s) = updated_bindings env demoted ?t b s"
      have t: "0 < ?t"
        using written_time [of "st_notificationBindingWriteHighWater s" "nb_ID p"] inv'(2) command_time(1) [of s p "en_now env" cand]
        by (simp add: bindings_inv_def)
      show ?thesis
        using updated_inv [OF inv'(2) a(1-3) t] below bindings_only(1) [OF inv'(1)]
        by (simp add: UpdateBinding connectors_inv_def a(4) versions_below_def list_all_iff)
    qed (simp add: UpdateBinding)
  next
  qed
qed

lemma connectors_inv_empty: "empty_store s \<Longrightarrow> connectors_inv unicode s"
  by (simp add: connectors_inv_def settings_inv_def bindings_inv_def written_def one_owner_def one_default_def empty_store_tables)

text \<open>The names must be those of a mapping to lower case that behaves; one that does not is left out of the system.\<close>

interpretation connectors: invariant_system empty_store "\<lambda>s s'. lowers unicode \<and> connector_step unicode sha s s'" "connectors_inv unicode"
  for unicode sha
  by unfold_locales (auto simp: connectors_inv_empty connectors_inv_call elim: connector_stepE)

abbreviation connector_steps :: "(string \<Rightarrow> string) \<Rightarrow> (string \<Rightarrow> string) \<Rightarrow> MemoryStore \<Rightarrow> MemoryStore \<Rightarrow> bool" where
  "connector_steps unicode sha \<equiv> (\<lambda>s s'. lowers unicode \<and> connector_step unicode sha s s')\<^sup>*\<^sup>*"

section \<open>Digests\<close>

text \<open>A digest is written over everything a binding holds: what it is written over determines a binding whose strings have lengths
  and whose instants have years that fit 64 bits.\<close>

definition short :: "'a list \<Rightarrow> bool" where
  "short xs \<longleftrightarrow> int (length xs) < 2 ^ 63"

definition dated :: "gotime \<Rightarrow> bool" where
  "dated t \<longleftrightarrow> - (2 ^ 63) \<le> Year t \<and> Year t < 2 ^ 63"

definition sized :: "NotificationBinding \<Rightarrow> bool" where
  "sized b \<longleftrightarrow> list_all short (binding_texts b) \<and> list_all short (nb_Scopes b) \<and> short (nb_Scopes b) \<and>
     - (2 ^ 63) \<le> nb_Version b \<and> nb_Version b < 2 ^ 63 \<and> dated (nb_CreatedAt b) \<and> dated (nb_UpdatedAt b) \<and>
     (\<forall>t \<in> set_option (nb_ExpiresAt b) \<union> set_option (nb_RevokedAt b). dated t)"

lemma length_be_bytes [simp]: "length (be_bytes k n) = k"
  by (induction k arbitrary: n) simp_all

lemma be_bytes_inj: "m < 256 ^ k \<Longrightarrow> n < 256 ^ k \<Longrightarrow> be_bytes k m = be_bytes k n \<Longrightarrow> m = n"
proof (induction k arbitrary: m n)
  case (Suc k)
  have "be_bytes k (m div 256) = be_bytes k (n div 256)" "(char_of (m mod 256) :: char) = char_of (n mod 256)" using Suc.prems(3) by simp_all
  moreover have "m div 256 < 256 ^ k" "n div 256 < 256 ^ k" using Suc.prems(1,2) by (simp_all add: less_mult_imp_div_less mult.commute)
  moreover have "m mod 256 = n mod 256" if "(char_of (m mod 256) :: char) = char_of (n mod 256)"
    using arg_cong [OF that, of "of_char :: char \<Rightarrow> nat"] by (simp add: of_char_mod_256)
  ultimately show ?case using Suc.IH [of "m div 256" "n div 256"] by (metis div_mult_mod_eq)
qed simp

lemma length_int64 [simp]: "length (writeDigestInt64 v) = 8"
  by (simp add: writeDigestInt64_def)

lemma int64_inj:
  assumes "- (2 ^ 63) \<le> v" "v < 2 ^ 63" "- (2 ^ 63) \<le> w" "w < 2 ^ 63" and "writeDigestInt64 v = writeDigestInt64 w"
  shows "v = w"
proof -
  have "nat (x mod 2 ^ 64) < 256 ^ 8" for x :: int using pos_mod_bound [of "2 ^ 64" x] by simp
  then have "nat (v mod 2 ^ 64) = nat (w mod 2 ^ 64)" using be_bytes_inj assms(5) unfolding writeDigestInt64_def by metis
  then have "v mod 2 ^ 64 = w mod 2 ^ 64" by simp
  then have "wrap64 v = wrap64 w" unfolding wrap64_def by (metis mod_add_left_eq)
  then show ?thesis using wrap64_id assms(1-4) by metis
qed

lemma text_inj:
  assumes "short a" "short b" and "writeCredentialDigestBytes a @ xs = writeCredentialDigestBytes b @ ys"
  shows "a = b \<and> xs = ys"
proof -
  have e: "writeDigestInt64 (int (length a)) = writeDigestInt64 (int (length b))" "a @ xs = b @ ys"
    using assms(3) by (auto simp: writeCredentialDigestBytes_def append_eq_append_conv)
  have "int (length a) = int (length b)" by (rule int64_inj [OF _ _ _ _ e(1)]) (use assms(1,2) in \<open>auto simp: short_def\<close>)
  then show ?thesis using e(2) by (simp add: append_eq_append_conv)
qed

lemma texts_inj:
  "length as = length bs \<Longrightarrow> list_all short as \<Longrightarrow> list_all short bs \<Longrightarrow>
   concat (map writeCredentialDigestBytes as) @ xs = concat (map writeCredentialDigestBytes bs) @ ys \<Longrightarrow> as = bs \<and> xs = ys"
proof (induction as bs rule: list_induct2)
  case (Cons a as b bs)
  then show ?case using text_inj [of a b "concat (map writeCredentialDigestBytes as) @ xs" "concat (map writeCredentialDigestBytes bs) @ ys"]
    by auto
qed simp

lemma bool_inj: "writeDigestBool a @ xs = writeDigestBool b @ ys \<Longrightarrow> a = b \<and> xs = ys"
  by (auto simp: writeDigestBool_def split: if_splits)

lemma ints_inj:
  "length as = length bs \<Longrightarrow> \<forall>v \<in> set as \<union> set bs. - (2 ^ 63) \<le> v \<and> v < 2 ^ 63 \<Longrightarrow>
   concat (map writeDigestInt64 as) @ xs = concat (map writeDigestInt64 bs) @ ys \<Longrightarrow> as = bs \<and> xs = ys"
proof (induction as bs rule: list_induct2)
  case (Cons a as b bs)
  have e: "writeDigestInt64 a = writeDigestInt64 b"
    "concat (map writeDigestInt64 as) @ xs = concat (map writeDigestInt64 bs) @ ys"
    using Cons.prems(2) by (simp_all add: append_eq_append_conv)
  have "a = b" by (rule int64_inj [OF _ _ _ _ e(1)]) (use Cons.prems(1) in auto)
  then show ?case using Cons.IH [OF _ e(2)] Cons.prems(1) by auto
qed simp

lemma civil_day_range:
  assumes "civil_of_days z = (y, m, d)"
  shows "- 400 < d \<and> d < 400"
proof -
  define doe where "doe = (z + 306) mod 146097"
  define yoe where "yoe = (doe - doe div 1460 + doe div 36524 - doe div 146096) div 365"
  define doy where "doy = doe - (365 * yoe + yoe div 4 - yoe div 100)"
  define mp where "mp = (5 * doy + 2) div 153"
  have doe: "0 \<le> doe" "doe < 146097" by (simp_all add: doe_def)
  note yoe = yoe_bounds [OF doe, folded yoe_def, folded doy_def]
  note mp = civil_month_bounds [OF yoe(3,4), folded mp_def]
  have "d = doy - days_before_month mp + 1"
    using assms unfolding civil_of_days_def Let_def mp_def [symmetric] doy_def [symmetric] yoe_def [symmetric]
      doe_def [symmetric] prod.inject by blast
  moreover have "0 \<le> days_before_month mp \<and> days_before_month mp < 350"
    using int_div_bounds [of 5 "153 * mp + 2"] mp unfolding days_before_month_def by linarith
  ultimately show ?thesis using yoe(3,4) by simp
qed

text \<open>The seven fields of an instant.\<close>

definition instant_fields :: "gotime \<Rightarrow> int list" where
  "instant_fields t = (case civil_of_days (t div second div day_seconds) of (year, month, day) \<Rightarrow>
     [year, month, day, t div second mod day_seconds div 3600, t div second mod 3600 div 60, t div second mod 60, t mod second])"

lemma time_fields: "writeCredentialDigestTime t = concat (map writeDigestInt64 (instant_fields t))"
  by (simp add: writeCredentialDigestTime_def instant_fields_def split: prod.splits)

lemma instant_fields_inj:
  assumes "instant_fields s = instant_fields t"
  shows "s = t"
proof -
  obtain y m d where c: "civil_of_days (s div second div day_seconds) = (y, m, d)" by (metis prod_cases3)
  obtain y' m' d' where c': "civil_of_days (t div second div day_seconds) = (y', m', d')" by (metis prod_cases3)
  have f: "y = y'" "m = m'" "d = d'" "s div second mod day_seconds div 3600 = t div second mod day_seconds div 3600"
    "s div second mod 3600 div 60 = t div second mod 3600 div 60" "s div second mod 60 = t div second mod 60" "s mod second = t mod second"
    using assms by (simp_all add: instant_fields_def c c')
  have day: "s div second div day_seconds = t div second div day_seconds"
    using days_of_civil_of_days [of "s div second div day_seconds"] days_of_civil_of_days [of "t div second div day_seconds"]
    by (simp add: c c' f(1-3))
  have split: "x mod day_seconds = x mod day_seconds div 3600 * 3600 + x mod 3600 div 60 * 60 + x mod 60" for x :: int
    using div_mult_mod_eq [of "x mod day_seconds" 3600] div_mult_mod_eq [of "x mod 3600" 60] by (simp add: mod_mod_cancel)
  have "s div second mod day_seconds = t div second mod day_seconds"
    by (rule trans [OF split [of "s div second"] trans [OF _ split [of "t div second", symmetric]]]) (simp only: f(4-6))
  then have "s div second = t div second" using day by (metis div_mult_mod_eq)
  then show ?thesis using f(7) by (metis div_mult_mod_eq)
qed

lemma seven_fields_range:
  "v \<in> set [y, m, d, h, i, s, n] \<Longrightarrow> - (2 ^ 63) \<le> y \<and> y < 2 ^ 63 \<Longrightarrow> 1 \<le> m \<and> m \<le> 12 \<Longrightarrow> - 400 < d \<and> d < 400 \<Longrightarrow>
   0 \<le> h \<and> h < 86400 \<Longrightarrow> 0 \<le> i \<and> i < 3600 \<Longrightarrow> 0 \<le> s \<and> s < 60 \<Longrightarrow> 0 \<le> n \<and> n < 1000000000 \<Longrightarrow>
   - (2 ^ 63) \<le> v \<and> v < (2 ^ 63 :: int)"
  by auto

lemma div_range:
  assumes "0 \<le> x" and "x < n" and "0 < (k :: int)"
  shows "0 \<le> x div k \<and> x div k < n"
proof -
  have q: "0 \<le> x div k" using assms by (simp add: pos_imp_zdiv_nonneg_iff)
  have "x div k * k + x mod k = x" "0 \<le> x mod k" using assms(3) by simp_all
  moreover have "x div k * 1 \<le> x div k * k" using q assms(3) by (intro mult_left_mono) simp_all
  ultimately show ?thesis using q assms(2) by linarith
qed

lemma instant_fields_range:
  assumes "dated t" and "v \<in> set (instant_fields t)"
  shows "- (2 ^ 63) \<le> v \<and> v < 2 ^ 63"
proof -
  obtain y m d where c: "civil_of_days (t div second div day_seconds) = (y, m, d)" by (metis prod_cases3)
  have "t div second div day_seconds = t div (second * day_seconds)" by (rule zdiv_zmult2_eq [symmetric]) simp
  then have y: "- (2 ^ 63) \<le> y \<and> y < 2 ^ 63" using assms(1) c by (simp add: dated_def Year_def)
  have m: "0 \<le> x mod k \<and> x mod k < k" if "0 < k" for x k :: int using that by simp
  have s: "(0::int) < day_seconds" "(0::int) < 3600" "(0::int) < 60" "(0::int) < second" by simp_all
  have "v \<in> set [y, m, d, t div second mod day_seconds div 3600, t div second mod 3600 div 60, t div second mod 60, t mod second]"
    using assms(2) unfolding instant_fields_def c prod.case .
  then show ?thesis
    by (rule seven_fields_range [OF _ y civil_month_range [OF c] civil_day_range [OF c] div_range [OF _ _ s(2)] div_range [OF _ _ s(3)]
        m [OF s(3)] m [OF s(4)]]) (use m [OF s(1)] m [OF s(2)] in \<open>simp_all only: simp_thms\<close>)
qed

lemma instant_inj:
  assumes "dated s" "dated t" and "writeCredentialDigestTime s @ xs = writeCredentialDigestTime t @ ys"
  shows "s = t \<and> xs = ys"
proof -
  have "length (instant_fields x) = 7" for x
  proof -
    obtain y m d where c: "civil_of_days (x div second div day_seconds) = (y, m, d)" by (metis prod_cases3)
    have "length [a, b, e, f, g, h, i] = 7" for a b e f g h i :: int by simp
    then show ?thesis unfolding instant_fields_def c prod.case .
  qed
  then have "instant_fields s = instant_fields t \<and> xs = ys"
    using ints_inj [of "instant_fields s" "instant_fields t" xs ys] instant_fields_range [OF assms(1)] instant_fields_range [OF assms(2)]
      assms(3) by (auto simp: time_fields)
  then show ?thesis using instant_fields_inj by blast
qed

lemma instant_option_inj:
  assumes "\<forall>t \<in> set_option s \<union> set_option t. dated t" and "writeDigestTimePointer s @ xs = writeDigestTimePointer t @ ys"
  shows "s = t \<and> xs = ys"
  using assms by (auto simp: writeDigestTimePointer_def split: option.splits dest: bool_inj instant_inj)

lemma binding_bytes_inj:
  assumes "sized b" "sized c" and "binding_bytes b = binding_bytes c"
  shows "b = c"
proof -
  have l: "length (binding_texts b) = length (binding_texts c)" by (simp add: binding_texts_def)
  have t: "binding_texts b = binding_texts c" and
    r: "writeDigestBool (nb_DefaultForChannel b) @ writeDigestInt64 (nb_Version b) @ writeCredentialDigestTime (nb_CreatedAt b) @
        writeCredentialDigestTime (nb_UpdatedAt b) @ writeDigestTimePointer (nb_ExpiresAt b) @ writeDigestTimePointer (nb_RevokedAt b) @
        writeDigestInt64 (int (length (nb_Scopes b))) @ concat (map writeCredentialDigestBytes (nb_Scopes b)) @ [] =
      writeDigestBool (nb_DefaultForChannel c) @ writeDigestInt64 (nb_Version c) @ writeCredentialDigestTime (nb_CreatedAt c) @
        writeCredentialDigestTime (nb_UpdatedAt c) @ writeDigestTimePointer (nb_ExpiresAt c) @ writeDigestTimePointer (nb_RevokedAt c) @
        writeDigestInt64 (int (length (nb_Scopes c))) @ concat (map writeCredentialDigestBytes (nb_Scopes c)) @ []"
    using texts_inj [OF l _ _ assms(3) [unfolded binding_bytes_def append_same_eq same_append_eq]] assms(1,2)
    by (simp_all add: sized_def)
  note d = bool_inj [OF r]
  have v: "writeDigestInt64 (nb_Version b) = writeDigestInt64 (nb_Version c)" and
    r2: "writeCredentialDigestTime (nb_CreatedAt b) @ writeCredentialDigestTime (nb_UpdatedAt b) @ writeDigestTimePointer (nb_ExpiresAt b) @
        writeDigestTimePointer (nb_RevokedAt b) @ writeDigestInt64 (int (length (nb_Scopes b))) @
        concat (map writeCredentialDigestBytes (nb_Scopes b)) @ [] =
      writeCredentialDigestTime (nb_CreatedAt c) @ writeCredentialDigestTime (nb_UpdatedAt c) @ writeDigestTimePointer (nb_ExpiresAt c) @
        writeDigestTimePointer (nb_RevokedAt c) @ writeDigestInt64 (int (length (nb_Scopes c))) @
        concat (map writeCredentialDigestBytes (nb_Scopes c)) @ []"
    using conjunct2 [OF d] by (simp_all add: append_eq_append_conv)
  have v': "nb_Version b = nb_Version c" by (rule int64_inj [OF _ _ _ _ v]) (use assms(1,2) in \<open>auto simp: sized_def\<close>)
  note ca = instant_inj [OF _ _ r2]
  have times: "dated (nb_CreatedAt b)" "dated (nb_CreatedAt c)" "dated (nb_UpdatedAt b)" "dated (nb_UpdatedAt c)"
    "\<forall>t \<in> set_option (nb_ExpiresAt b) \<union> set_option (nb_ExpiresAt c). dated t"
    "\<forall>t \<in> set_option (nb_RevokedAt b) \<union> set_option (nb_RevokedAt c). dated t"
    using assms(1,2) by (auto simp: sized_def)
  note ua = instant_inj [OF times(3,4) conjunct2 [OF ca [OF times(1,2)]]]
  note ex = instant_option_inj [OF times(5) conjunct2 [OF ua]]
  note re = instant_option_inj [OF times(6) conjunct2 [OF ex]]
  have n: "writeDigestInt64 (int (length (nb_Scopes b))) = writeDigestInt64 (int (length (nb_Scopes c)))" and
    sc: "concat (map writeCredentialDigestBytes (nb_Scopes b)) @ [] = concat (map writeCredentialDigestBytes (nb_Scopes c)) @ []"
    using conjunct2 [OF re] by (simp_all add: append_eq_append_conv)
  have "int (length (nb_Scopes b)) = int (length (nb_Scopes c))"
    by (rule int64_inj [OF _ _ _ _ n]) (use assms(1,2) in \<open>auto simp: sized_def short_def\<close>)
  then have "nb_Scopes b = nb_Scopes c" using texts_inj [OF _ _ _ sc] assms(1,2) by (simp add: sized_def)
  then show ?thesis
    using t conjunct1 [OF d] v' conjunct1 [OF ca [OF times(1,2)]] conjunct1 [OF ua] conjunct1 [OF ex] conjunct1 [OF re]
    by (simp add: binding_texts_def)
qed

section \<open>Listings\<close>

lemma key_names:
  assumes "CHR 0x1F \<notin> set o1" "CHR 0x1F \<notin> set o2" and "o1 @ [CHR 0x1F] @ c1 = o2 @ [CHR 0x1F] @ c2"
  shows "o1 = o2 \<and> c1 = c2"
  using assms
proof (induction o1 arbitrary: o2)
  case Nil
  then show ?case by (cases o2) auto
next
  case (Cons x o1)
  then show ?case by (cases o2) auto
qed

lemma binding_key_names:
  assumes "sound_binding unicode b" "sound_binding unicode c"
    and "connectorSettingKey unicode (nb_OwnerID b) (nb_Channel b) = connectorSettingKey unicode (nb_OwnerID c) (nb_Channel c)"
  shows "nb_OwnerID b = nb_OwnerID c \<and> nb_Channel b = nb_Channel c"
proof -
  have n: "connectorSettingKey unicode (nb_OwnerID x) (nb_Channel x) = nb_OwnerID x @ [CHR 0x1F] @ nb_Channel x" if "sound_binding unicode x" for x
    using valid_binding_names(3-5) [of unicode x] that by (simp add: connectorSettingKey_def normalizeConnectorOwner_def sound_binding_def)
  show ?thesis
    by (rule key_names) (use assms n in \<open>simp_all add: sound_binding_def\<close>)
qed

lemma check_bindings_ok:
  assumes "\<forall>b \<in> set bs. sound_binding unicode b" and "distinct (map nb_ID bs)" and "one_owner bs" and "one_default bs"
    and "\<forall>b \<in> set bs. isVaultOwnedCredentialRef (nb_CredentialRef b) \<longrightarrow> mget owners (nb_CredentialRef b) = None \<or>
      mget owners (nb_CredentialRef b) = Some (nb_ID b)"
    and "\<forall>b \<in> set bs. becomes_default b \<longrightarrow> mget defaults (connectorSettingKey unicode (nb_OwnerID b) (nb_Channel b)) = None"
  shows "check_bindings unicode owners defaults bs = None"
  using assms
proof (induction bs arbitrary: owners defaults)
  case (Cons b bs)
  let ?key = "\<lambda>b. connectorSettingKey unicode (nb_OwnerID b) (nb_Channel b)"
  have ok: "sound_binding unicode b" "\<forall>c \<in> set bs. sound_binding unicode c" using Cons.prems(1) by simp_all
  have d: "distinct (map nb_ID bs)" "\<forall>c \<in> set bs. nb_ID c \<noteq> nb_ID b" using Cons.prems(2) by (auto simp: rev_image_eqI)
  have oo: "one_owner bs" and shared: "\<forall>c \<in> set bs. isVaultOwnedCredentialRef (nb_CredentialRef c) \<longrightarrow> nb_CredentialRef c \<noteq> nb_CredentialRef b"
    using Cons.prems(3) d(2) unfolding one_owner_def list.set by blast+
  have od: "one_default bs" and twice: "\<forall>c \<in> set bs. becomes_default b \<longrightarrow> becomes_default c \<longrightarrow> ?key c \<noteq> ?key b"
    using Cons.prems(4) d(2) binding_key_names [OF _ ok(1)] ok(2) unfolding one_default_def list.set by blast+
  have "isVaultOwnedCredentialRef (nb_CredentialRef b) \<longrightarrow> mget owners (nb_CredentialRef b) = None \<or>
      mget owners (nb_CredentialRef b) = Some (nb_ID b)" using Cons.prems(5) by simp
  then have "claimBindingCredentialRef owners b = Inr owners \<or>
      claimBindingCredentialRef owners b = Inr (mput (nb_CredentialRef b) (nb_ID b) owners)"
    by (auto simp: claimBindingCredentialRef_def)
  then obtain o' where o': "claimBindingCredentialRef owners b = Inr o'" "o' = owners \<or> o' = mput (nb_CredentialRef b) (nb_ID b) owners"
    by blast
  have own: "\<forall>c \<in> set bs. isVaultOwnedCredentialRef (nb_CredentialRef c) \<longrightarrow> mget o' (nb_CredentialRef c) = None \<or>
      mget o' (nb_CredentialRef c) = Some (nb_ID c)"
    using o'(2) Cons.prems(5) shared by (auto simp: mget_mput)
  have valid: "validatePersistedNotificationBinding unicode b = None" using ok(1) by (simp add: sound_binding_def)
  show ?case
  proof (cases "becomes_default b")
    case True
    have def': "\<forall>c \<in> set bs. becomes_default c \<longrightarrow> mget (mput (?key b) (nb_ID b) defaults) (?key c) = None"
      using Cons.prems(6) twice True by (auto simp: mget_mput)
    show ?thesis
      using Cons.IH [OF ok(2) d(1) oo od own def'] valid o'(1) True Cons.prems(6) by (simp add: becomes_default_def Let_def)
  next
    case False
    then show ?thesis
      using Cons.IH [OF ok(2) d(1) oo od own, of defaults] valid o'(1) Cons.prems(6) by (auto simp: becomes_default_def)
  qed
qed simp

interpretation binding_order: record_table compareNotificationBindings "\<lambda>b. newest_first (nb_UpdatedAt b) (nb_ID b)" nb_ID
  by unfold_locales (auto simp: compareNotificationBindings_def newest_first_cmp newest_first_def)

section \<open>What an update does to every binding\<close>

text \<open>
  The life of a binding: it starts, waits for a scan and its confirmation, waits for a credential, is active, is being revoked, and
  ends revoked, failed or expired. \<open>life_cycle\<close> says, without the table of the code, what a step may do: it never goes back, and
  stays in its stage only while the binding waits or is active; no step leaves an end; a binding ends revoked exactly from being
  revoked; an active one can only be updated or revoked; and only a waiting one expires or goes on to wait for its credential.
\<close>

definition ended_states :: "string set" where
  "ended_states = {NotificationBindingRevoked, NotificationBindingFailed, NotificationBindingExpired}"

definition waiting_states :: "string set" where
  "waiting_states = {NotificationBindingWaitingScan, NotificationBindingWaitingConfirm}"

definition binding_stage :: "string \<Rightarrow> nat" where
  "binding_stage st =
     (if st = NotificationBindingStarting then 0 else if st \<in> waiting_states then 1
      else if st = NotificationBindingCredentialPending then 2 else if st = NotificationBindingActive then 3
      else if st = NotificationBindingRevoking then 4 else 5)"

definition life_cycle :: "string \<Rightarrow> string \<Rightarrow> bool" where
  "life_cycle before after \<longleftrightarrow> before \<notin> ended_states \<and> binding_stage before \<le> binding_stage after \<and>
     (binding_stage after = binding_stage before \<longrightarrow> before \<in> waiting_states \<or> before = NotificationBindingActive) \<and>
     (binding_stage after = 5 \<longrightarrow> after \<in> ended_states) \<and>
     (after = NotificationBindingRevoked \<longleftrightarrow> before = NotificationBindingRevoking) \<and>
     (before = NotificationBindingActive \<longrightarrow> after \<in> {NotificationBindingActive, NotificationBindingRevoking}) \<and>
     (after \<in> {NotificationBindingExpired, NotificationBindingCredentialPending} \<longrightarrow> before \<in> waiting_states)"

lemma transition_life_cycle:
  assumes "notificationBindingTransitionAllowed before after"
  shows "life_cycle before after"
proof -
  let ?known = "[NotificationBindingStarting, NotificationBindingWaitingScan, NotificationBindingWaitingConfirm,
    NotificationBindingCredentialPending, NotificationBindingActive, NotificationBindingRevoking, NotificationBindingRevoked,
    NotificationBindingFailed, NotificationBindingExpired]"
  have "\<forall>b \<in> set ?known. \<forall>a \<in> set ?known. notificationBindingTransitionAllowed b a \<longrightarrow> life_cycle b a" by code_simp
  moreover have "before \<in> set ?known"
    using assms unfolding notificationBindingTransitionAllowed_def list.set insert_iff empty_iff by argo
  moreover have "after \<in> set ?known"
    using assms unfolding notificationBindingTransitionAllowed_def list.set insert_iff empty_iff by argo
  ultimately show ?thesis using assms by blast
qed

text \<open>One version further: of the same owner, actor, channel and provider, later, in a state the life cycle allows.\<close>

definition advances :: "NotificationBinding \<Rightarrow> NotificationBinding \<Rightarrow> bool" where
  "advances p b \<longleftrightarrow> nb_ID b = nb_ID p \<and> nb_OwnerID b = nb_OwnerID p \<and> nb_ActorID b = nb_ActorID p \<and> nb_Channel b = nb_Channel p \<and>
     nb_Provider b = nb_Provider p \<and> nb_CreatedAt b = nb_CreatedAt p \<and>
     (nb_CredentialRef b = nb_CredentialRef p \<or> nb_CredentialRef p = [] \<and> nb_Status b = NotificationBindingActive) \<and>
     nb_Version b = nb_Version p + 1 \<and> nb_UpdatedAt p < nb_UpdatedAt b \<and>
     life_cycle (nb_Status p) (nb_Status b)"

lemma prepared_advances:
  assumes "sound_binding unicode p" and "nb_Version p < 2 ^ 63 - 1"
    and "prepareNotificationBindingUpdate unicode sha p c (nextNotificationBindingCommandTimeLocked now p c s) = Inr b"
  shows "advances p b"
proof -
  note b = prepare_binding_ok [OF assms(3)]
  have v: "wrap64 (nb_Version p + 1) = nb_Version p + 1"
    using valid_binding_names(6) [of unicode p] assms(1,2) by (intro wrap64_id) (auto simp: sound_binding_def)
  have "nb_UpdatedAt p < nextNotificationBindingCommandTimeLocked now p c s"
    using command_time(2) [of p now c s] latest_time(1) [of p] by simp
  then have "nb_UpdatedAt p < nb_UpdatedAt b" using b(1) by (simp add: command_time(3))
  then show ?thesis using b v assms(1) by (auto simp: advances_def sound_binding_def intro: transition_life_cycle)
qed

lemma demoted_advances:
  assumes "sound_binding unicode e" and "nb_Version e < 2 ^ 63 - 1" and "other_default b i e"
    and "mget (st_notificationBindings s) i = Some e" and "becomes_default b"
    and "prepareNotificationBindingUpdate unicode sha p c (nextNotificationBindingCommandTimeLocked now p c s) = Inr b"
  shows "advances e (demoted_binding (nextNotificationBindingCommandTimeLocked now p c s) e)"
proof -
  let ?t = "nextNotificationBindingCommandTimeLocked now p c s"
  note b = prepare_binding_ok [OF assms(6)]
  have o': "other_default p i e" using assms(3) b(1) by (simp add: other_default_def)
  have "latestNotificationBindingTime e < ?t"
    unfolding nextNotificationBindingCommandTimeLocked_def
    by (rule repository_time) (use o' b(7) [OF assms(5)] map_of_SomeD [OF assms(4)] in force)
  then have "nb_UpdatedAt e < ?t" using latest_time(1) [of e] by simp
  moreover have "wrap64 (nb_Version e + 1) = nb_Version e + 1"
    using valid_binding_names(6) [of unicode e] assms(1,2) by (intro wrap64_id) (auto simp: sound_binding_def)
  ultimately show ?thesis
    using assms(3) by (simp add: advances_def demoted_fields other_default_def transition_life_cycle notificationBindingTransitionAllowed_def)
qed

lemma binding_after_call:
  assumes "bindings_inv unicode s" and "versions_below s" and p: "mget (st_notificationBindings s) i = Some p"
  shows "\<exists>b. mget (st_notificationBindings (connector_call unicode sha c s)) i = Some b \<and> (b = p \<or> advances p b)"
proof -
  have k: "keyed nb_ID (st_notificationBindings s)" using assms(1) by (simp add: bindings_inv_def)
  have pin: "p \<in> set (mvals (st_notificationBindings s))" using p keyed_get [OF k p] bindings_of [OF k, of p] by simp
  have ok: "sound_binding unicode p" "nb_Version p < 2 ^ 63 - 1" using assms(1,2) pin by (auto simp: bindings_inv_def versions_below_def list_all_iff)
  show ?thesis
  proof (cases c)
    case (UpdateSetting cx env setting v)
    then show ?thesis
      using UpdateConnectorSetting_cases [of unicode cx env setting v s, OF surjective_pairing] p by (auto simp: setting_store_tables)
  next
    case (CreateBinding cx env b)
    then show ?thesis
      using CreateNotificationBinding_cases [of unicode cx env b s, OF surjective_pairing] p
      by (auto simp: appendNotificationBindingLifecycleLocked_def binding_tables mget_mput split: if_splits)
  next
    case (UpdateBinding cx env demoted command)
    show ?thesis
      using UpdateNotificationBinding_cases [of unicode sha cx env demoted command s, OF surjective_pairing]
    proof (elim disjE exE conjE)
      fix cand q b
      let ?t = "nextNotificationBindingCommandTimeLocked (en_now env) q cand s"
      assume a: "mget (st_notificationBindings s) (TrimSpace (uc_id command)) = Some q"
        "prepareNotificationBindingUpdate unicode sha q cand ?t = Inr b"
        "snd (UpdateNotificationBinding unicode sha cx env demoted command s) = updated_bindings env demoted ?t b s"
      have id: "nb_ID b = nb_ID q" "nb_ID q = TrimSpace (uc_id command)" using prepare_binding_ok(1) [OF a(2)] keyed_get [OF k a(1)] by simp_all
      have after: "mget (st_notificationBindings (connector_call unicode sha c s)) i =
          Some (if i = nb_ID b then b else if becomes_default b \<and> other_default b i p then demoted_binding ?t p else p)"
        using p by (simp add: UpdateBinding a(3) updated_bindings_get(1) [OF k])
      show ?thesis
      proof (cases "i = nb_ID b")
        case True
        then have "q = p" using a(1) p id by simp
        then show ?thesis using after True prepared_advances [OF ok] a(2) by auto
      next
        case False
        then show ?thesis using after demoted_advances [OF ok _ p _ a(2)] by auto
      qed
    qed (use p UpdateBinding in auto)
  qed
qed

lemma binding_after_steps:
  assumes "connector_steps unicode sha s s'" and "connectors_inv unicode s" and "mget (st_notificationBindings s) i = Some p"
  shows "\<exists>b. mget (st_notificationBindings s') i = Some b \<and> (b = p \<or> nb_Version p < nb_Version b)"
  using assms(1)
proof (induction rule: rtranclp_induct)
  case (step t u)
  then obtain b where b: "mget (st_notificationBindings t) i = Some b" "b = p \<or> nb_Version p < nb_Version b" by blast
  have "connectors_inv unicode t" by (rule connectors.steps_inv [OF step.hyps(1) assms(2)])
  moreover obtain c where "versions_below t" "u = connector_call unicode sha c t" using step.hyps(2) by (auto elim: connector_stepE)
  ultimately obtain b' where "mget (st_notificationBindings u) i = Some b'" "b' = b \<or> advances b b'"
    using binding_after_call [of unicode t i b sha c] b(1) by (auto simp: connectors_inv_def)
  then show ?case using b(2) by (auto simp: advances_def)
qed (use assms(3) in blast)

section \<open>What an update does to a setting\<close>

lemma setting_after_call:
  assumes "settings_inv unicode s" and "versions_below s" and p: "mget (st_connectorSettings s) key = Some p"
  shows "\<exists>c'. mget (st_connectorSettings (connector_call unicode sha c s)) key = Some c' \<and> (c' = p \<or> kn_Version p < kn_Version c')"
proof (cases c)
  case (UpdateSetting cx env setting v)
  show ?thesis
    using UpdateConnectorSetting_cases [of unicode cx env setting v s, OF surjective_pairing]
  proof (elim disjE exE conjE)
    fix n k current st
    assume a: "normalizeConnectorSettingCandidate unicode setting v = Inr n" "current = mget (st_connectorSettings s) k"
      "setting_expected current v" "st = next_setting (en_now env) k current v n s"
      "snd (UpdateConnectorSetting unicode cx env setting v s) = setting_store env k (setting_change current st) st s"
    have v: "v < 2 ^ 63 - 1" "0 \<le> v"
      using expected_version [OF assms(1,2)] a(1-3) by (auto simp: normalizeConnectorSettingCandidate_def Let_def split: if_splits)
    then have "kn_Version st = v + 1" by (simp add: a(4) next_setting_def wrap64_id)
    then show ?thesis using p a(2,3) by (auto simp: UpdateSetting a(5) setting_store_tables mget_mput setting_expected_def)
  qed (use p UpdateSetting in auto)
next
  case (CreateBinding cx env b)
  then show ?thesis
    using CreateNotificationBinding_cases [of unicode cx env b s, OF surjective_pairing] p
    by (auto simp: appendNotificationBindingLifecycleLocked_def binding_tables)
next
  case (UpdateBinding cx env demoted command)
  then show ?thesis
    using UpdateNotificationBinding_cases [of unicode sha cx env demoted command s, OF surjective_pairing] p
    by (auto simp: updated_bindings_def appendNotificationBindingLifecycleLocked_def binding_tables demote_all_settings)
qed

lemma setting_after_steps:
  assumes "connector_steps unicode sha s s'" and "connectors_inv unicode s" and "mget (st_connectorSettings s) i = Some p"
  shows "\<exists>c. mget (st_connectorSettings s') i = Some c \<and> (c = p \<or> kn_Version p < kn_Version c)"
  using assms(1)
proof (induction rule: rtranclp_induct)
  case (step t u)
  then obtain b where b: "mget (st_connectorSettings t) i = Some b" "b = p \<or> kn_Version p < kn_Version b" by blast
  have "connectors_inv unicode t" by (rule connectors.steps_inv [OF step.hyps(1) assms(2)])
  moreover obtain c where "versions_below t" "u = connector_call unicode sha c t" using step.hyps(2) by (auto elim: connector_stepE)
  ultimately obtain b' where "mget (st_connectorSettings u) i = Some b'" "b' = b \<or> kn_Version b < kn_Version b'"
    using setting_after_call [of unicode t i b sha c] b(1) by (auto simp: connectors_inv_def)
  then show ?case using b(2) by auto
qed (use assms(3) in blast)

lemma normalized_setting_key:
  assumes "lowers unicode" and "normalizeConnectorSettingCandidate unicode setting v = Inr n"
  shows "setting_key unicode n = setting_key unicode setting" "0 \<le> v" "kn_Enabled n = kn_Enabled setting"
  using assms normalizeConnectorChannel_idem [OF assms(1)]
  by (auto simp: normalizeConnectorSettingCandidate_def Let_def connectorSettingKey_def split: if_splits)

lemma check_bindings_valid:
  "check_bindings unicode owners defaults bs = None \<Longrightarrow> b \<in> set bs \<Longrightarrow> validatePersistedNotificationBinding unicode b = None"
  by (induction bs arbitrary: owners defaults) (auto simp: Let_def split: option.splits sum.splits if_splits)

lemma invalid_scopes:
  "list_ex (\<lambda>scope. TrimSpace scope = [] \<or> TrimSpace scope \<noteq> scope) (nb_Scopes b) \<Longrightarrow> validatePersistedNotificationBinding unicode b \<noteq> None"
  by (simp add: validatePersistedNotificationBinding_def)

section \<open>An example\<close>

definition sample_starting :: NotificationBinding where
  "sample_starting = \<lparr>nb_ID = ''b1'', nb_OwnerID = ''owner'', nb_ActorID = ''owner'', nb_Channel = ''telegram'', nb_Provider = ''telegram'',
     nb_Status = ''starting'', nb_DisplayName = [], nb_ExternalUserID = [], nb_ExternalChatID = [], nb_ExternalThreadID = [], nb_AccountID = [],
     nb_CredentialRef = [], nb_BaseURL = [], nb_ProviderSessionID = [], nb_ProviderState = [], nb_ContextToken = [], nb_ProviderCursor = [],
     nb_QRCodeURL = [], nb_QRCodeImage = [], nb_DefaultForChannel = False, nb_Scopes = [''reply''], nb_CreatedAt = 0, nb_UpdatedAt = 0,
     nb_ExpiresAt = None, nb_RevokedAt = None, nb_LastError = [], nb_Version = 0, nb_CredentialKind = ''token''\<rparr>"

definition started_binding :: NotificationBinding where
  "started_binding = sample_starting\<lparr>nb_Version := 1, nb_CreatedAt := 5000, nb_UpdatedAt := 5000\<rparr>"

definition linked_candidate :: NotificationBinding where
  "linked_candidate = started_binding\<lparr>nb_Status := ''active'', nb_CredentialRef := ''cred_1'', nb_DefaultForChannel := True\<rparr>"

definition linked_binding :: NotificationBinding where
  "linked_binding = linked_candidate\<lparr>nb_Version := 2, nb_UpdatedAt := 6000\<rparr>"

definition started_store :: MemoryStore where
  "started_store = snd (CreateNotificationBinding id open_ctx sample_env sample_starting NewMemoryStore)"

definition link_command :: NotificationBindingUpdateCommand where
  "link_command = NewNotificationBindingUpdate id id started_binding linked_candidate"

abbreviation no_demotion :: "string \<Rightarrow> 8 word list option \<times> 8 word list option" where
  "no_demotion \<equiv> (\<lambda>i. (None, None))"

definition linked_store :: MemoryStore where
  "linked_store = snd (UpdateNotificationBinding id id open_ctx sample_env no_demotion link_command started_store)"

definition failed_candidate :: NotificationBinding where
  "failed_candidate = started_binding\<lparr>nb_Status := ''failed'', nb_LastError := ''timeout''\<rparr>"

definition failed_store :: MemoryStore where
  "failed_store = snd (UpdateNotificationBinding id id open_ctx sample_env no_demotion
     (NewNotificationBindingUpdate id id started_binding failed_candidate) started_store)"

definition sample_setting :: ConnectorSetting where
  "sample_setting = \<lparr>kn_OwnerID = ''owner'', kn_Channel = ''telegram'', kn_Enabled = True, kn_ISCPEnabled = False, kn_LANAccessEnabled = False,
     kn_Version = 0, kn_UpdatedBy = ''owner'', kn_UpdatedAt = 0\<rparr>"

lemma sample_checks:
  "normalizeNotificationBindingCreate id sample_starting = Inr sample_starting" "admissible_binding sample_starting"
  "nextRepositoryTime 5000 [0] = 5000" "nextRepositoryTime 5000 [5000, 5000] = 6000" "latestNotificationBindingTime started_binding = 5000"
  "validatePersistedNotificationBinding id started_binding = None"
  "sameNotificationBindingIdentity id started_binding linked_candidate"
  "prepareNotificationBindingUpdate id id started_binding linked_candidate 6000 = Inr linked_binding"
  "TrimSpace ''b1'' = ''b1''" "sized started_binding" "sized linked_binding"
  by code_simp+

lemma started_store:
  "CreateNotificationBinding id open_ctx sample_env sample_starting NewMemoryStore = (Inr started_binding, started_store)"
  "st_notificationBindings started_store = [(''b1'', started_binding)]" "st_connectorSettings started_store = []"
  "st_notificationBindingWriteHighWater started_store = [(''b1'', 5000)]"
  by (simp_all add: started_store_def CreateNotificationBinding_def checked_def sample_checks Let_def time_at_def sample_env_def
      started_binding_def appendNotificationBindingLifecycleLocked_def binding_tables) (simp_all add: sample_starting_def)

lemma linked_store:
  "UpdateNotificationBinding id id open_ctx sample_env no_demotion link_command started_store = (Inr linked_binding, linked_store)"
  "st_notificationBindings linked_store = [(''b1'', linked_binding)]" "st_connectorSettings linked_store = []"
proof -
  have id: "nb_ID started_binding = ''b1''" "nb_ID linked_candidate = ''b1''" "nb_ID linked_binding = ''b1''"
    by (simp_all add: started_binding_def linked_candidate_def linked_binding_def sample_starting_def)
  have c: "link_command = \<lparr>uc_id = ''b1'', uc_expected = notificationBindingDigest id started_binding, uc_valid = True,
      uc_next = Some linked_candidate\<rparr>"
    by (simp add: link_command_def NewNotificationBindingUpdate_def sample_checks id)
  have t: "nextNotificationBindingCommandTimeLocked 5000 started_binding linked_candidate started_store = 6000"
    by (simp add: nextNotificationBindingCommandTimeLocked_def started_store sample_checks id time_at_def other_default_def)
  have o': "validateNotificationBindingOwnershipLocked id linked_binding started_store = None"
    by (simp add: validateNotificationBindingOwnershipLocked_def started_store id claimBindingCredentialRef_def)
  have s': "updated_bindings sample_env no_demotion 6000 linked_binding started_store = linked_store"
    and u: "UpdateNotificationBinding id id open_ctx sample_env no_demotion link_command started_store = (Inr linked_binding, linked_store)"
    by (simp_all add: linked_store_def UpdateNotificationBinding_def checked_def normalizeNotificationBindingUpdateCommand_def c sample_checks id
        started_store Let_def t o') (simp_all add: sample_env_def t sample_checks o')
  show "UpdateNotificationBinding id id open_ctx sample_env no_demotion link_command started_store = (Inr linked_binding, linked_store)" by (rule u)
  show "st_notificationBindings linked_store = [(''b1'', linked_binding)]" "st_connectorSettings linked_store = []"
    by (simp_all add: s' [symmetric] updated_bindings_def appendNotificationBindingLifecycleLocked_def binding_tables started_store id
        demote_all_settings other_default_def)
qed

section \<open>Properties\<close>

abbreviation reachable_connectors :: "(string \<Rightarrow> string) \<Rightarrow> (string \<Rightarrow> string) \<Rightarrow> MemoryStore \<Rightarrow> bool" where
  "reachable_connectors unicode sha \<equiv> reach empty_store (\<lambda>s s'. lowers unicode \<and> connector_step unicode sha s s')"

lemma linked_reach:
  "reachable_connectors id id NewMemoryStore" "reachable_connectors id id started_store" "reachable_connectors id id linked_store"
  "versions_below NewMemoryStore" "versions_below started_store" "versions_below linked_store"
  "connector_step id id started_store linked_store"
proof -
  show r: "reachable_connectors id id NewMemoryStore" by (intro reach_init empty_store_New)
  show v: "versions_below NewMemoryStore" by (simp add: versions_below_def)
  show v': "versions_below started_store" "versions_below linked_store"
    by (simp_all add: versions_below_def started_store linked_store) (simp_all add: started_binding_def linked_binding_def)
  have "connector_step id id NewMemoryStore (connector_call id id (CreateBinding open_ctx sample_env sample_starting) NewMemoryStore)"
    by (rule step_connector [OF v]) (simp add: sample_checks)
  then have s: "connector_step id id NewMemoryStore started_store" by (simp add: started_store_def)
  show r': "reachable_connectors id id started_store" by (rule reach_step [OF r]) (simp add: s lowers_id)
  have "connector_step id id started_store
      (connector_call id id (UpdateBinding open_ctx sample_env no_demotion link_command) started_store)"
    by (rule step_connector [OF v'(1)]) simp
  then show l: "connector_step id id started_store linked_store" by (simp add: linked_store_def)
  show "reachable_connectors id id linked_store" by (rule reach_step [OF r']) (simp add: l lowers_id)
qed

text \<open>C24: listing bindings never fails on what the repository wrote. In every store reached by writes of admissible bindings a listing returns
  exactly the bindings of the channel and the status asked for, the newest first; no two bindings of the store own one credential
  of the vault, and a channel of an owner has at most one active default.\<close>

theorem binding_listing_exact:
  assumes "reachable_connectors unicode sha s"
  shows "ListNotificationBindings unicode open_ctx channel st s =
      (Inr (SortFunc compareNotificationBindings
        (filter (\<lambda>b. (normalizeConnectorChannel unicode channel = [] \<or> nb_Channel b = normalizeConnectorChannel unicode channel) \<and>
           (TrimSpace st = [] \<or> nb_Status b = TrimSpace st)) (mvals (st_notificationBindings s)))), s) \<and>
    one_owner (mvals (st_notificationBindings s)) \<and> one_default (mvals (st_notificationBindings s))"
proof -
  have inv: "bindings_inv unicode s" using connectors.reach_inv [OF assms] by (simp add: connectors_inv_def)
  then have i: "\<forall>b \<in> set (mvals (st_notificationBindings s)). sound_binding unicode b" "distinct (map nb_ID (mvals (st_notificationBindings s)))"
      "one_owner (mvals (st_notificationBindings s))" "one_default (mvals (st_notificationBindings s))"
    using keyed_distinct_vals by (auto simp: bindings_inv_def)
  have "check_bindings unicode [] [] (mvals (st_notificationBindings s)) = None" by (rule check_bindings_ok [OF i]) simp_all
  then show ?thesis using i(3,4) by (simp add: ListNotificationBindings_def framed_def checked_def Let_def)
qed

lemma binding_listing_exact_witness:
  "ListNotificationBindings id open_ctx '' Telegram '' ''active'' linked_store = (Inr [linked_binding], linked_store)"
proof -
  have "normalizeConnectorChannel id '' Telegram '' = ''telegram''" "TrimSpace ''active'' = ''active''" "nb_Channel linked_binding = ''telegram''"
    "nb_Status linked_binding = ''active''" by code_simp+
  then show ?thesis
    using binding_listing_exact [OF linked_reach(3), of "'' Telegram ''" "''active''"] by (simp add: linked_store SortFunc_def)
qed

text \<open>C22: a binding is never lost, never changes its owner and only moves forward in its life. After any write it is as it was or one
  version further: of the same owner, actor, channel and provider, later, with the credential it has if it has one, and in a state
  reached by one step of \<open>life_cycle\<close>, so that it never leaves an end and is revoked only from being revoked. The account an active
  binding names may change.\<close>

theorem binding_lifecycle:
  assumes "reachable_connectors unicode sha s" and "lowers unicode" and "connector_step unicode sha s s'"
    and "mget (st_notificationBindings s) i = Some p"
  shows "\<exists>b. mget (st_notificationBindings s') i = Some b \<and> (b = p \<or> advances p b)"
proof -
  have inv: "bindings_inv unicode s" using connectors.reach_inv [OF assms(1)] by (simp add: connectors_inv_def)
  obtain c where "versions_below s" "s' = connector_call unicode sha c s" using assms(3) by (auto elim: connector_stepE)
  then show ?thesis using binding_after_call [OF inv _ assms(4)] by simp
qed

lemma binding_lifecycle_witness: "mget (st_notificationBindings linked_store) ''b1'' = Some linked_binding \<and> advances started_binding linked_binding"
proof -
  have "nb_Version linked_binding \<noteq> nb_Version started_binding" by (simp add: linked_binding_def linked_candidate_def started_binding_def)
  then have "linked_binding \<noteq> started_binding" by metis
  then show ?thesis
    using binding_lifecycle [OF linked_reach(2) lowers_id linked_reach(7), of "''b1''" started_binding] by (simp add: started_store linked_store)
qed

text \<open>The end of a binding is final. A binding that is revoked, failed or expired stays as it is whatever is written later.\<close>

theorem ended_bindings_final:
  assumes "reachable_connectors unicode sha s" and "connector_steps unicode sha s s'"
    and "mget (st_notificationBindings s) i = Some p"
    and "nb_Status p \<in> {NotificationBindingRevoked, NotificationBindingFailed, NotificationBindingExpired}"
  shows "mget (st_notificationBindings s') i = Some p"
  using assms(2)
proof (induction rule: rtranclp_induct)
  case (step t u)
  have "bindings_inv unicode t"
    using connectors.steps_inv [OF step.hyps(1) connectors.reach_inv [OF assms(1)]] by (simp add: connectors_inv_def)
  moreover obtain c where "versions_below t" "u = connector_call unicode sha c t" using step.hyps(2) by (auto elim: connector_stepE)
  ultimately obtain b where b: "mget (st_notificationBindings u) i = Some b" "b = p \<or> advances p b"
    using binding_after_call [of unicode t i p sha c] step.IH by blast
  have "\<not> advances p b" using assms(4) by (auto simp: advances_def life_cycle_def ended_states_def)
  then show ?case using b by simp
qed (rule assms(3))

lemma ended_bindings_final_witness:
  "mget (st_notificationBindings (connector_call id id (UpdateBinding open_ctx sample_env no_demotion link_command) failed_store)) ''b1'' =
     mget (st_notificationBindings failed_store) ''b1''"
proof -
  have c: "validatePersistedNotificationBinding id started_binding = None" "sameNotificationBindingIdentity id started_binding failed_candidate"
      "prepareNotificationBindingUpdate id id started_binding failed_candidate 6000 =
         Inr (failed_candidate\<lparr>nb_Version := 2, nb_UpdatedAt := 6000\<rparr>)"
    by code_simp+
  have id: "nb_ID started_binding = ''b1''" "nb_ID failed_candidate = ''b1''" "\<not> becomes_default failed_candidate"
    "nb_CredentialRef failed_candidate = []" "nb_Status failed_candidate = ''failed''"
    by (simp_all add: started_binding_def failed_candidate_def sample_starting_def becomes_default_def)
  have t: "nextNotificationBindingCommandTimeLocked 5000 started_binding failed_candidate started_store = 6000"
    by (simp add: nextNotificationBindingCommandTimeLocked_def started_store sample_checks id time_at_def)
  have o': "validateNotificationBindingOwnershipLocked id (failed_candidate\<lparr>nb_Version := 2, nb_UpdatedAt := 6000\<rparr>) started_store = None"
    by (simp add: validateNotificationBindingOwnershipLocked_def started_store id claimBindingCredentialRef_def isVaultOwnedCredentialRef_def)
  have "connector_step id id started_store (connector_call id id (UpdateBinding open_ctx sample_env no_demotion
      (NewNotificationBindingUpdate id id started_binding failed_candidate)) started_store)"
    by (rule step_connector [OF linked_reach(5)]) simp
  then have r: "reachable_connectors id id failed_store" by (intro reach_step [OF linked_reach(2)]) (simp add: failed_store_def lowers_id)
  have f: "st_notificationBindings failed_store = [(''b1'', failed_candidate\<lparr>nb_Version := 2, nb_UpdatedAt := 6000\<rparr>)]"
    "st_connectorSettings failed_store = []"
    by (simp_all add: failed_store_def NewNotificationBindingUpdate_def UpdateNotificationBinding_def checked_def c id sample_checks
        normalizeNotificationBindingUpdateCommand_def started_store Let_def t [unfolded sample_env_def] o' sample_env_def updated_bindings_def
        appendNotificationBindingLifecycleLocked_def binding_tables becomes_default_def)
  have g: "mget (st_notificationBindings failed_store) ''b1'' = Some (failed_candidate\<lparr>nb_Version := 2, nb_UpdatedAt := 6000\<rparr>)"
    by (simp add: f)
  have "versions_below failed_store" by (simp add: versions_below_def f)
  then have "connector_step id id failed_store
      (connector_call id id (UpdateBinding open_ctx sample_env no_demotion link_command) failed_store)"
    by (rule step_connector) simp
  then have "connector_steps id id failed_store
      (connector_call id id (UpdateBinding open_ctx sample_env no_demotion link_command) failed_store)"
    by (intro r_into_rtranclp) (simp add: lowers_id)
  from ended_bindings_final [OF r this g] show ?thesis by (simp add: g id)
qed

text \<open>C23: an update of a binding is applied once. After the update a command carries was applied, the command, and every other one made for
  the same binding, is refused and changes nothing, whatever is written in between, if the digests of the stored bindings do not collide.\<close>

theorem binding_update_once:
  assumes "reachable_connectors unicode sha s" and "lowers unicode" and "versions_below s"
    and "inj_on sha (binding_bytes ` (set (mvals (st_notificationBindings s)) \<union> set (mvals (st_notificationBindings t))))"
    and "UpdateNotificationBinding unicode sha cx env demoted command s = (Inr b, s')" and "connector_steps unicode sha s' t"
    and "list_all sized (mvals (st_notificationBindings s))" and "list_all sized (mvals (st_notificationBindings t))"
    and "TrimSpace (uc_id other) = TrimSpace (uc_id command)" and "uc_expected other = uc_expected command"
  shows "\<exists>e. UpdateNotificationBinding unicode sha cx' env' demoted' other t = (Inl e, t)"
proof -
  have inv: "connectors_inv unicode s" by (rule connectors.reach_inv [OF assms(1)])
  have s': "s' = connector_call unicode sha (UpdateBinding cx env demoted command) s" using assms(5) by simp
  have inv': "connectors_inv unicode s'" unfolding s' by (rule connectors_inv_call [OF assms(2) inv assms(3)]) simp
  have k: "keyed nb_ID (st_notificationBindings u)" if "connectors_inv unicode u" for u using that by (simp add: connectors_inv_def bindings_inv_def)
  let ?i = "TrimSpace (uc_id command)"
  obtain c p where p: "mget (st_notificationBindings s) ?i = Some p" "notificationBindingDigest sha p = uc_expected command"
      "prepareNotificationBindingUpdate unicode sha p c (nextNotificationBindingCommandTimeLocked (en_now env) p c s) = Inr b"
      "s' = updated_bindings env demoted (nextNotificationBindingCommandTimeLocked (en_now env) p c s) b s"
    using UpdateNotificationBinding_cases [OF assms(5)] by auto
  have pin: "p \<in> set (mvals (st_notificationBindings s))" using p(1) keyed_get [OF k [OF inv] p(1)] bindings_of [OF k [OF inv], of p] by simp
  have ok: "sound_binding unicode p" "nb_Version p < 2 ^ 63 - 1"
    using inv assms(3) pin by (auto simp: connectors_inv_def bindings_inv_def versions_below_def list_all_iff)
  have "advances p b" by (rule prepared_advances [OF ok p(3)])
  then have b: "mget (st_notificationBindings s') ?i = Some b" "nb_Version p < nb_Version b"
    using keyed_get [OF k [OF inv] p(1)] by (simp_all add: p(4) updated_bindings_get(1) [OF k [OF inv]] advances_def)
  obtain q where q: "mget (st_notificationBindings t) ?i = Some q" "nb_Version p < nb_Version q"
    using binding_after_steps [OF assms(6) inv' b(1)] b(2) by auto
  have kt: "keyed nb_ID (st_notificationBindings t)" by (rule k [OF connectors.steps_inv [OF assms(6) inv']])
  have qin: "q \<in> set (mvals (st_notificationBindings t))" using q(1) keyed_get [OF kt q(1)] bindings_of [OF kt, of q] by simp
  have "notificationBindingDigest sha q \<noteq> uc_expected other"
  proof -
    have "binding_bytes p \<noteq> binding_bytes q" using binding_bytes_inj [of p q] pin qin assms(7,8) q(2) by (auto simp: list_all_iff)
    then have "sha (binding_bytes p) \<noteq> sha (binding_bytes q)" using assms(4) pin qin by (auto simp: inj_on_def)
    then show ?thesis using p(2) assms(10) by (simp add: notificationBindingDigest_def)
  qed
  then show ?thesis
    using UpdateNotificationBinding_cases [of unicode sha cx' env' demoted' other t, OF surjective_pairing] q(1) assms(9)
    by (auto simp: prod_eq_iff)
qed

lemma binding_update_once_witness:
  "\<exists>e. UpdateNotificationBinding id id open_ctx sample_env no_demotion link_command linked_store = (Inl e, linked_store)"
  by (rule binding_update_once [OF linked_reach(2) lowers_id linked_reach(5) _ linked_store(1) rtranclp.rtrancl_refl _ _ refl refl])
    (simp_all add: started_store linked_store sample_checks)

text \<open>An update of a connector setting is applied once. An update from version \<open>v\<close> gives version \<open>v + 1\<close>, and every other update from
  version \<open>v\<close> of the setting of that owner and channel is refused and changes nothing, whatever is written in between.\<close>

theorem setting_update_once:
  assumes "reachable_connectors unicode sha s" and "lowers unicode" and "versions_below s"
    and "UpdateConnectorSetting unicode cx env setting v s = (Inr c, s')" and "connector_steps unicode sha s' t"
    and "setting_key unicode other = setting_key unicode setting"
  shows "kn_Version c = v + 1 \<and> mget (st_connectorSettings s') (setting_key unicode setting) = Some c \<and>
    (\<exists>e. UpdateConnectorSetting unicode cx' env' other v t = (Inl e, t))"
proof -
  have inv: "connectors_inv unicode s" by (rule connectors.reach_inv [OF assms(1)])
  have s': "s' = connector_call unicode sha (UpdateSetting cx env setting v) s" using assms(4) by simp
  have inv': "connectors_inv unicode s'" unfolding s' by (rule connectors_inv_call [OF assms(2) inv assms(3)]) simp
  let ?key = "setting_key unicode setting"
  obtain n where n: "normalizeConnectorSettingCandidate unicode setting v = Inr n" "setting_expected (mget (st_connectorSettings s) ?key) v"
      "c = next_setting (en_now env) ?key (mget (st_connectorSettings s) ?key) v n s" "mget (st_connectorSettings s') ?key = Some c"
    using UpdateConnectorSetting_cases [OF assms(4)] normalized_setting_key(1) [OF assms(2)] by (auto simp: setting_store_tables)
  have "v < 2 ^ 63 - 1" using expected_version [of unicode, OF _ assms(3) n(2)] inv unfolding connectors_inv_def by blast
  then have v: "kn_Version c = v + 1" using normalized_setting_key(2) [OF assms(2) n(1)] by (simp add: n(3) next_setting_def wrap64_id)
  obtain d where d: "mget (st_connectorSettings t) ?key = Some d" "v < kn_Version d"
    using setting_after_steps [OF assms(5) inv' n(4)] v by auto
  have "\<exists>e. UpdateConnectorSetting unicode cx' env' other v t = (Inl e, t)"
    using UpdateConnectorSetting_cases [of unicode cx' env' other v t, OF surjective_pairing] d assms(6) normalized_setting_key(1) [OF assms(2)]
    by (auto simp: setting_expected_def prod_eq_iff)
  then show ?thesis using v n(4) by simp
qed

lemma setting_update_once_witness:
  "\<exists>c s' e. UpdateConnectorSetting id open_ctx sample_env sample_setting 0 NewMemoryStore = (Inr c, s') \<and> kn_Version c = 1 \<and>
     UpdateConnectorSetting id open_ctx sample_env (sample_setting\<lparr>kn_Enabled := False\<rparr>) 0 s' = (Inl e, s')"
proof -
  have n: "normalizeConnectorSettingCandidate id sample_setting 0 = Inr sample_setting" by code_simp
  obtain c s' where u: "UpdateConnectorSetting id open_ctx sample_env sample_setting 0 NewMemoryStore = (Inr c, s')"
    by (simp add: UpdateConnectorSetting_def checked_def n Let_def setting_expected_def)
  have k: "setting_key id (sample_setting\<lparr>kn_Enabled := False\<rparr>) = setting_key id sample_setting" by (simp add: sample_setting_def)
  show ?thesis
    using setting_update_once [OF linked_reach(1) lowers_id linked_reach(4) u rtranclp.rtrancl_refl k, of open_ctx sample_env] u by auto
qed

text \<open>C26: a creation does not check the scopes it stores. A binding created with a blank scope, or one with white space at its ends, makes
  every listing of bindings fail, cannot be read, and refuses every update.\<close>

theorem unchecked_scopes_corrupt:
  assumes "CreateNotificationBinding unicode open_ctx env binding s = (Inr b, s')"
    and "list_ex (\<lambda>scope. TrimSpace scope = [] \<or> TrimSpace scope \<noteq> scope) (nb_Scopes binding)"
  shows "(\<exists>e. ListNotificationBindings unicode open_ctx channel st s' = (Inl (storeError ''notification_binding.list'' StoreErrorCorrupt e), s')) \<and>
    (\<exists>e. GetNotificationBinding unicode open_ctx (nb_ID b) s' = (Inl (storeError ''notification_binding.get'' StoreErrorCorrupt e), s')) \<and>
    (uc_id command = nb_ID b \<longrightarrow> (\<exists>e. UpdateNotificationBinding unicode sha cx env' demoted command s' = (Inl e, s')))"
proof -
  obtain n t where n: "normalizeNotificationBindingCreate unicode binding = Inr n" "b = n\<lparr>nb_Version := 1, nb_CreatedAt := t, nb_UpdatedAt := t\<rparr>"
      "s' = appendNotificationBindingLifecycleLocked env t b (put_binding t (nb_ID b) b s)"
    using CreateNotificationBinding_cases [OF assms(1)] by auto
  have g: "mget (st_notificationBindings s') (nb_ID b) = Some b"
    by (simp add: n(3) appendNotificationBindingLifecycleLocked_def binding_tables)
  have "nb_Scopes b = nb_Scopes binding" using created_fields(7) [OF n(1)] by (simp add: n(2))
  then have bad: "validatePersistedNotificationBinding unicode b \<noteq> None" using invalid_scopes assms(2) by metis
  have id: "TrimSpace (nb_ID b) = nb_ID b" "nb_ID b \<noteq> []" using created_fields(1,8) [OF n(1)] by (simp_all add: n(2))
  have "b \<in> set (mvals (st_notificationBindings s'))" using map_of_SomeD [OF g] by (force simp: mvals_def)
  then have "check_bindings unicode [] [] (mvals (st_notificationBindings s')) \<noteq> None"
    using check_bindings_valid [of unicode "[]" "[]" "mvals (st_notificationBindings s')" b] bad by metis
  then have "\<exists>e. ListNotificationBindings unicode open_ctx channel st s' = (Inl (storeError ''notification_binding.list'' StoreErrorCorrupt e), s')"
    by (auto simp: ListNotificationBindings_def framed_def checked_def Let_def)
  moreover have "\<exists>e. GetNotificationBinding unicode open_ctx (nb_ID b) s' = (Inl (storeError ''notification_binding.get'' StoreErrorCorrupt e), s')"
    using bad id g by (auto simp: GetNotificationBinding_def checked_def)
  moreover have "uc_id command = nb_ID b \<longrightarrow> (\<exists>e. UpdateNotificationBinding unicode sha cx env' demoted command s' = (Inl e, s'))"
  proof
    assume c: "uc_id command = nb_ID b"
    have "prepareNotificationBindingUpdate unicode sha b cand t' = Inr r \<Longrightarrow> False" for cand t' r
      using bad by (auto simp: prepareNotificationBindingUpdate_def)
    then show "\<exists>e. UpdateNotificationBinding unicode sha cx env' demoted command s' = (Inl e, s')"
      using UpdateNotificationBinding_cases [of unicode sha cx env' demoted command s', OF surjective_pairing] g id c by (auto simp: prod_eq_iff)
  qed
  ultimately show ?thesis by blast
qed

lemma unchecked_scopes_corrupt_witness:
  "\<exists>b s' e. CreateNotificationBinding id open_ctx sample_env (sample_starting\<lparr>nb_Scopes := [[]]\<rparr>) NewMemoryStore = (Inr b, s') \<and>
     ListNotificationBindings id open_ctx [] [] s' = (Inl (storeError ''notification_binding.list'' StoreErrorCorrupt e), s')"
proof -
  have n: "normalizeNotificationBindingCreate id (sample_starting\<lparr>nb_Scopes := [[]]\<rparr>) = Inr (sample_starting\<lparr>nb_Scopes := [[]]\<rparr>)" by code_simp
  obtain b s' where u: "CreateNotificationBinding id open_ctx sample_env (sample_starting\<lparr>nb_Scopes := [[]]\<rparr>) NewMemoryStore = (Inr b, s')"
    by (simp add: CreateNotificationBinding_def checked_def n Let_def)
  show ?thesis using unchecked_scopes_corrupt [OF u, of "[]" "[]"] u by auto
qed

text \<open>C25: a digest is written over everything a binding holds. Two bindings whose sizes and years fit 64 bits and whose digests are written
  over the same bytes are the same binding.\<close>

theorem digest_bytes_determine_binding:
  assumes "sized b" and "sized c"
  shows "binding_bytes b = binding_bytes c \<longleftrightarrow> b = c"
  using binding_bytes_inj [OF assms] by blast

lemma digest_bytes_determine_binding_witness: "binding_bytes started_binding \<noteq> binding_bytes linked_binding"
proof -
  have "nb_Version linked_binding \<noteq> nb_Version started_binding" by (simp add: linked_binding_def linked_candidate_def started_binding_def)
  then show ?thesis using digest_bytes_determine_binding [OF sample_checks(10,11)] by metis
qed

end
