(* ===== verification/Repository.thy ===== *)
theory Repository
  imports Deliveries Session_Deletion Connectors
begin

text \<open>
  The in-memory repository as one state machine: the approval, run, schedule, delivery, external agent, connector and session
  operations and the audit writer, in any order. The operations of each of the first six groups depend on their own tables only, and no
  other write changes these, so what is proved of a group alone holds in the whole repository. Redeeming an access ticket also
  writes a session, so the sessions are not such a group. Deletions of sessions, which take records from every group, are
  steps of the larger machine \<open>lifecycle_step\<close>.
\<close>

section \<open>Operations that keep to a part of the store\<close>

text \<open>\<open>local_to part f\<close>: what \<open>f\<close> answers and what it leaves in \<open>part\<close> depend on \<open>part\<close> only. \<open>keeps part f\<close>: \<open>f\<close> leaves
  \<open>part\<close> alone.\<close>

definition local_to :: "(MemoryStore \<Rightarrow> 'p) \<Rightarrow> (MemoryStore \<Rightarrow> 'a outcome) \<Rightarrow> bool" where
  "local_to part f \<longleftrightarrow> (\<forall>s t. part s = part t \<longrightarrow> fst (f s) = fst (f t) \<and> part (snd (f s)) = part (snd (f t)))"

definition keeps :: "(MemoryStore \<Rightarrow> 'p) \<Rightarrow> (MemoryStore \<Rightarrow> 'a outcome) \<Rightarrow> bool" where
  "keeps part f \<longleftrightarrow> (\<forall>s. part (snd (f s)) = part s)"

named_theorems locals

lemma local_checked [locals]: "local_to part body \<Longrightarrow> local_to part (checked c body)"
proof (cases c)
  case None
  then have "checked c body = body" by (simp add: fun_eq_iff checked_def)
  then show "local_to part body \<Longrightarrow> ?thesis" by simp
next
  case (Some e)
  then show ?thesis by (simp add: local_to_def checked_def)
qed

lemma local_checked_reads:
  assumes "\<And>s t. part s = part t \<Longrightarrow> c s = c t" and "local_to part body"
  shows "local_to part (\<lambda>s. checked (c s) body s)"
  unfolding local_to_def
proof (intro allI impI)
  fix s t assume p: "part s = part t"
  then have "fst (body s) = fst (body t) \<and> part (snd (body s)) = part (snd (body t))"
    using assms(2) unfolding local_to_def by blast
  with p show "fst (checked (c s) body s) = fst (checked (c t) body t) \<and> part (snd (checked (c s) body s)) = part (snd (checked (c t) body t))"
    by (cases "c t") (simp_all add: checked_def assms(1) [OF p])
qed

lemma local_reads:
  "(\<And>s t. part s = part t \<Longrightarrow> fst (f s) = fst (f t) \<and> part (snd (f s)) = part (snd (f t))) \<Longrightarrow> local_to part f"
  unfolding local_to_def by blast

lemma local_answer: "local_to part f \<Longrightarrow> part s = part t \<Longrightarrow> part (snd (f s)) = part (snd (f t))"
  unfolding local_to_def by blast

lemma local_framed [locals]: "local_to part body \<Longrightarrow> local_to part (framed op cx body)"
  by (simp add: framed_def locals)

lemma keeps_checked [locals]: "keeps part body \<Longrightarrow> keeps part (checked c body)"
  by (auto simp: keeps_def checked_def split: option.splits)

lemma keeps_checked_reads: "keeps part body \<Longrightarrow> keeps part (\<lambda>s. checked (c s) body s)"
  by (auto simp: keeps_def checked_def split: option.splits)

lemma keeps_framed [locals]: "keeps part body \<Longrightarrow> keeps part (framed op cx body)"
  by (simp add: framed_def locals)

definition approval_part where "approval_part s = (st_transientContentAdmission s, st_approvals s)"

definition run_part where
  "run_part s = (st_transientContentAdmission s, st_runs s, st_modelCalls s, st_toolCalls s, st_toolCallIDsBySession s,
     st_episodeSummaries s, st_episodeIDsBySession s, st_runFeedback s)"

definition schedule_part where "schedule_part s = (st_reminders s, st_reminderDelivery s)"

definition delivery_part where "delivery_part s = (st_messageReceives s, st_messageDeliveries s, st_channelInboxUpdates s)"

definition agent_part where "agent_part s = (st_mcpAccessTickets s, st_mcpBindings s, st_mcpOperations s)"

definition connector_part where
  "connector_part s = (st_connectorSettings s, st_connectorSettingWriteHighWater s, st_notificationBindings s,
     st_notificationBindingWriteHighWater s)"

lemmas part_defs = approval_part_def run_part_def schedule_part_def delivery_part_def agent_part_def connector_part_def

lemma append_parts [simp]:
  "approval_part (appendAuditLocked env a b c d e f s) = approval_part s" "approval_part (appendEventLocked env a b c v s) = approval_part s"
  "run_part (appendAuditLocked env a b c d e f s) = run_part s" "run_part (appendEventLocked env a b c v s) = run_part s"
  "schedule_part (appendAuditLocked env a b c d e f s) = schedule_part s" "schedule_part (appendEventLocked env a b c v s) = schedule_part s"
  "delivery_part (appendAuditLocked env a b c d e f s) = delivery_part s" "delivery_part (appendEventLocked env a b c v s) = delivery_part s"
  by (simp_all add: part_defs appendAuditLocked_def appendAuditLockedAt_def appendEventLocked_def appendEventLockedAt_def)

section \<open>Every write is local\<close>

lemma approval_writes_local:
  "local_to approval_part (SaveApproval lib cx env a)"
  "local_to approval_part (UpdatePendingApproval lib cx env command)"
  "local_to approval_part (resolveApprovalInputs lib cx env operation i st n input)"
proof -
  show "local_to approval_part (SaveApproval lib cx env a)"
    unfolding SaveApproval_def
    by (intro local_checked_reads local_framed)
       (auto simp: local_to_def approval_part_def admitTransientContent_def record_approval_def Let_def external_taken_def
         split: sum.splits option.splits)
  show "local_to approval_part (UpdatePendingApproval lib cx env command)"
    unfolding UpdatePendingApproval_def
    by (intro local_framed) (auto simp: local_to_def approval_part_def record_approval_def split: sum.splits option.splits)
  show "local_to approval_part (resolveApprovalInputs lib cx env operation i st n input)"
    unfolding resolveApprovalInputs_def
    by (intro local_framed) (auto simp: local_to_def approval_part_def record_approval_def split: sum.splits option.splits)
qed

lemma run_writes_local:
  "local_to run_part (SaveRun cx env run)" "local_to run_part (SaveModelCall cx env call)" "local_to run_part (SaveToolCall cx env tool)"
  "local_to run_part (SaveEpisodeSummary cx env summary)" "local_to run_part (SaveRunFeedback cx env feedback)"
proof -
  have a: "admitTransientContent v s = admitTransientContent v t" if "run_part s = run_part t" for v s t
    using that by (simp add: run_part_def admitTransientContent_def)
  show "local_to run_part (SaveRun cx env run)"
    unfolding SaveRun_def [abs_def]
    by (rule local_checked_reads [OF a], assumption)
       (auto simp: local_to_def checked_def run_part_def split: sum.splits option.splits)
  show "local_to run_part (SaveModelCall cx env call)"
    unfolding SaveModelCall_def [abs_def]
    by (rule local_checked_reads [OF a], assumption)
       (auto simp: local_to_def checked_def run_part_def Let_def split: option.splits)
  show "local_to run_part (SaveToolCall cx env tool)"
    unfolding SaveToolCall_def [abs_def]
    by (rule local_checked_reads [OF a], assumption)
       (auto simp: local_to_def checked_def run_part_def split: sum.splits option.splits)
  show "local_to run_part (SaveEpisodeSummary cx env summary)"
    by (auto simp: local_to_def SaveEpisodeSummary_def checked_def run_part_def Let_def split: option.splits)
  show "local_to run_part (SaveRunFeedback cx env feedback)"
    unfolding SaveRunFeedback_def
    by (rule local_framed) (auto simp: local_to_def feedback_at_def run_part_def Let_def split: sum.splits option.splits)
qed

lemma schedule_writes_local:
  "local_to schedule_part (SaveReminder cx env r)" "local_to schedule_part (UpdatePendingReminder cx env r t)"
  "local_to schedule_part (ClaimDueReminders cx now stale limit)" "local_to schedule_part (SaveReminderDelivery cx env d)"
  "local_to schedule_part (AdvanceWorkbenchSchedule cx env i t next occ)"
proof -
  show "local_to schedule_part (SaveReminder cx env r)"
    unfolding SaveReminder_def
    by (rule local_framed) (auto simp: local_to_def record_reminder_def schedule_part_def Let_def)
  show "local_to schedule_part (UpdatePendingReminder cx env r t)"
    unfolding UpdatePendingReminder_def
    by (rule local_framed) (auto simp: local_to_def record_reminder_def schedule_part_def Let_def split: option.splits)
  show "local_to schedule_part (ClaimDueReminders cx now stale limit)"
    unfolding ClaimDueReminders_def
    by (rule local_framed) (auto simp: local_to_def schedule_part_def Let_def)
  show "local_to schedule_part (SaveReminderDelivery cx env d)"
    unfolding SaveReminderDelivery_def
    by (rule local_framed) (auto simp: local_to_def schedule_part_def Let_def split: option.splits)
  show "local_to schedule_part (AdvanceWorkbenchSchedule cx env i t next occ)"
    unfolding AdvanceWorkbenchSchedule_def
    by (rule local_framed) (auto simp: local_to_def schedule_part_def Let_def split: option.splits sum.splits)
qed

lemma delivery_reads:
  assumes "delivery_part s = delivery_part t"
  shows "receive_with e n s = receive_with e n t" "delivery_with a b c s = delivery_with a b c t" "inbox_with x y s = inbox_with x y t"
    "mget (st_messageReceives s) = mget (st_messageReceives t)" "mget (st_messageDeliveries s) = mget (st_messageDeliveries t)"
    "mget (st_channelInboxUpdates s) = mget (st_channelInboxUpdates t)"
  using assms by (simp_all add: delivery_part_def receive_with_def delivery_with_def inbox_with_def)

lemma delivery_records:
  assumes "delivery_part s = delivery_part t"
  shows "delivery_part (record_receive env p s) = delivery_part (record_receive env p t)"
    "delivery_part (record_delivery env d s) = delivery_part (record_delivery env d t)"
    "delivery_part (s\<lparr>st_channelInboxUpdates := mput i u (st_channelInboxUpdates s)\<rparr>) =
     delivery_part (t\<lparr>st_channelInboxUpdates := mput i u (st_channelInboxUpdates t)\<rparr>)"
  using assms by (simp_all add: delivery_part_def record_tables)

lemma delivery_writes_local:
  "local_to delivery_part (SaveMessageReceive cx env r)" "local_to delivery_part (SaveMessageDelivery cx env d)"
  "local_to delivery_part (SaveChannelInboxUpdate cx env unicode u)"
proof -
  show "local_to delivery_part (SaveMessageReceive cx env r)"
    unfolding SaveMessageReceive_def
    apply (rule local_framed, rule local_reads)
    subgoal premises p for s t unfolding Let_def delivery_reads [OF p] by (simp add: p delivery_records [OF p] split: sum.split)
    done
  show "local_to delivery_part (SaveMessageDelivery cx env d)"
    unfolding SaveMessageDelivery_def
    apply (rule local_framed, rule local_reads)
    subgoal premises p for s t unfolding Let_def delivery_reads [OF p] by (simp add: p delivery_records [OF p] split: sum.split option.split)
    done
  show "local_to delivery_part (SaveChannelInboxUpdate cx env unicode u)"
    unfolding SaveChannelInboxUpdate_def
    apply (rule local_framed, rule local_reads)
    subgoal premises p for s t unfolding Let_def delivery_reads [OF p] by (simp add: p delivery_records [OF p] split: sum.split option.split)
    done
qed

lemma agent_reads:
  assumes "agent_part s = agent_part t"
  shows "st_mcpAccessTickets s = st_mcpAccessTickets t" "st_mcpBindings s = st_mcpBindings t" "st_mcpOperations s = st_mcpOperations t"
    "operation_with i k s = operation_with i k t"
  using assms by (simp_all add: agent_part_def operation_with_def)

lemma agent_writes_local:
  "local_to agent_part (SaveMCPAccessTicket cx env t)" "local_to agent_part (RedeemMCPAccessTicket cx env h peer now)"
  "local_to agent_part (RevokeMCPAccessTicket cx i now)" "local_to agent_part (DeleteMCPAccessTicket cx owner i)"
  "local_to agent_part (RevokeMCPBinding cx i now)" "local_to agent_part (DeleteMCPBinding cx owner i)"
  "local_to agent_part (DeleteMCPAccessRecords cx owner)" "local_to agent_part (TouchMCPBinding cx i iscp now)"
  "local_to agent_part (CreateMCPOperation cx env p)" "local_to agent_part (UpdateMCPOperation cx env p v)"
  unfolding SaveMCPAccessTicket_def RedeemMCPAccessTicket_def RevokeMCPAccessTicket_def DeleteMCPAccessTicket_def RevokeMCPBinding_def
    DeleteMCPBinding_def DeleteMCPAccessRecords_def TouchMCPBinding_def CreateMCPOperation_def UpdateMCPOperation_def
  apply (rule_tac [!] local_framed, rule_tac [!] local_reads)
  subgoal premises p for s t
    unfolding Let_def agent_reads(1-4) [OF p] by (simp add: agent_part_def agent_reads(1-3) [OF p] redeem_store_fields split: option.split)
  subgoal premises p for s t
    unfolding Let_def agent_reads(1-4) [OF p] by (simp add: agent_part_def agent_reads(1-3) [OF p] redeem_store_fields split: option.split)
  subgoal premises p for s t
    unfolding Let_def agent_reads(1-4) [OF p] by (simp add: agent_part_def agent_reads(1-3) [OF p] redeem_store_fields split: option.split)
  subgoal premises p for s t
    unfolding Let_def agent_reads(1-4) [OF p] by (simp add: agent_part_def agent_reads(1-3) [OF p] redeem_store_fields split: option.split)
  subgoal premises p for s t
    unfolding Let_def agent_reads(1-4) [OF p] by (simp add: agent_part_def agent_reads(1-3) [OF p] redeem_store_fields split: option.split)
  subgoal premises p for s t
    unfolding Let_def agent_reads(1-4) [OF p] by (simp add: agent_part_def agent_reads(1-3) [OF p] redeem_store_fields split: option.split)
  subgoal premises p for s t
    unfolding Let_def agent_reads(1-4) [OF p] by (simp add: agent_part_def agent_reads(1-3) [OF p] redeem_store_fields split: option.split)
  subgoal premises p for s t
    unfolding Let_def agent_reads(1-4) [OF p] by (simp add: agent_part_def agent_reads(1-3) [OF p] redeem_store_fields split: option.split)
  subgoal premises p for s t
    unfolding Let_def agent_reads(1-4) [OF p] by (simp add: agent_part_def agent_reads(1-3) [OF p] redeem_store_fields split: option.split)
  subgoal premises p for s t
    unfolding Let_def agent_reads(1-4) [OF p] by (simp add: agent_part_def agent_reads(1-3) [OF p] redeem_store_fields split: option.split)
  done

lemma agent_call_local: "agent_part t = agent_part s \<Longrightarrow> agent_part (mcp_call c t) = agent_part (mcp_call c s)"
  by (cases c; simp only: mcp_call.simps; erule local_answer [rotated]; rule agent_writes_local)

lemma connector_reads:
  assumes "connector_part s = connector_part t"
  shows "st_connectorSettings s = st_connectorSettings t" "st_notificationBindings s = st_notificationBindings t"
    "st_connectorSettingWriteHighWater s = st_connectorSettingWriteHighWater t"
    "st_notificationBindingWriteHighWater s = st_notificationBindingWriteHighWater t"
    "next_setting now key c v st s = next_setting now key c v st t" "validateNotificationBindingOwnershipLocked unicode b s =
       validateNotificationBindingOwnershipLocked unicode b t" "versions_below s = versions_below t"
  using assms by (simp_all add: connector_part_def next_setting_def validateNotificationBindingOwnershipLocked_def versions_below_def)

lemma connector_time:
  "connector_part s = connector_part t \<Longrightarrow>
   nextNotificationBindingCommandTimeLocked now p c s = nextNotificationBindingCommandTimeLocked now p c t"
  by (simp add: connector_part_def nextNotificationBindingCommandTimeLocked_def)

lemma demote_all_local:
  "connector_part s = connector_part t \<Longrightarrow> connector_part (demote_all demoted at' b m s) = connector_part (demote_all demoted at' b m t)"
proof (induction m arbitrary: s t)
  case (Cons x m)
  have "connector_part (logged_binding ids at' kind actor e (put_binding at' i e s)) =
      connector_part (logged_binding ids at' kind actor e (put_binding at' i e t))" for ids kind actor e i
    using Cons.prems by (simp add: connector_part_def binding_tables)
  note once = Cons.IH [OF this] and skip = Cons.IH [OF Cons.prems]
  obtain i e where x: "x = (i, e)" by fastforce
  show ?case unfolding x demote_all.simps by (simp only: once skip split: if_split) blast
qed simp

lemma connector_stores_local:
  assumes "connector_part s = connector_part t"
  shows "connector_part (setting_store env key kind st s) = connector_part (setting_store env key kind st t)"
    "connector_part (appendNotificationBindingLifecycleLocked env at' b (put_binding at' i b s)) =
     connector_part (appendNotificationBindingLifecycleLocked env at' b (put_binding at' i b t))"
    "connector_part (updated_bindings env demoted at' b s) = connector_part (updated_bindings env demoted at' b t)"
  using assms demote_all_local [OF assms, of demoted at' b "st_notificationBindings t"]
  by (simp_all add: connector_part_def setting_store_tables updated_bindings_def appendNotificationBindingLifecycleLocked_def binding_tables)

lemma connector_writes_local:
  "local_to connector_part (UpdateConnectorSetting unicode cx env setting v)"
  "local_to connector_part (CreateNotificationBinding unicode cx env b)"
  "local_to connector_part (UpdateNotificationBinding unicode sha cx env demoted command)"
proof -
  show "local_to connector_part (UpdateConnectorSetting unicode cx env setting v)"
    unfolding UpdateConnectorSetting_def
    apply (rule local_checked, rule local_reads)
    subgoal premises p for s t
      by (cases "normalizeConnectorSettingCandidate unicode setting v"; cases "locked_error ''connector_setting.update'' cx")
        (simp_all add: checked_def p Let_def connector_reads(1,5) [OF p] connector_stores_local [OF p] split: option.split)
    done
  show "local_to connector_part (CreateNotificationBinding unicode cx env b)"
    unfolding CreateNotificationBinding_def
    apply (rule local_checked, rule local_reads)
    subgoal premises p for s t
      by (cases "normalizeNotificationBindingCreate unicode b"; cases "locked_error ''notification_binding.create'' cx")
        (simp_all add: checked_def p Let_def connector_reads(2,4) [OF p] connector_stores_local [OF p] split: option.split)
    done
  show "local_to connector_part (UpdateNotificationBinding unicode sha cx env demoted command)"
    unfolding UpdateNotificationBinding_def
    apply (rule local_checked, rule local_reads)
    subgoal premises p for s t
    proof (cases "normalizeNotificationBindingUpdateCommand command")
      case (Inr r)
      obtain cmd cand where r: "r = (cmd, cand)" by fastforce
      show ?thesis
      proof (cases "mget (st_notificationBindings t) (uc_id cmd)")
        case None
        then show ?thesis by (simp add: Inr r checked_def p connector_reads(2) [OF p] split: option.split)
      next
        case (Some q)
        let ?at = "nextNotificationBindingCommandTimeLocked (en_now env) q cand t"
        show ?thesis
          by (cases "prepareNotificationBindingUpdate unicode sha q cand ?at")
            (simp_all add: Inr r Some Let_def checked_def p connector_reads(2,6) [OF p] connector_time [OF p] connector_stores_local [OF p]
              split: option.split)
      qed
    qed (simp add: p)
    done
qed

lemma connector_call_local:
  "connector_part t = connector_part s \<Longrightarrow> connector_part (connector_call unicode sha c t) = connector_part (connector_call unicode sha c s)"
  by (cases c; simp only: connector_call.simps; erule local_answer [rotated]; rule connector_writes_local)

section \<open>Every write leaves the other tables alone\<close>

text \<open>The store without the tables of one group and without the logs.\<close>

definition approval_rest where "approval_rest s = s\<lparr>st_approvals := [], st_auditEvents := [], st_events := []\<rparr>"

definition run_rest where
  "run_rest s = s\<lparr>st_runs := [], st_modelCalls := [], st_toolCalls := [], st_toolCallIDsBySession := [], st_episodeSummaries := [],
     st_episodeIDsBySession := [], st_runFeedback := [], st_auditEvents := [], st_events := []\<rparr>"

definition schedule_rest where
  "schedule_rest s = s\<lparr>st_reminders := [], st_reminderDelivery := [], st_auditEvents := [], st_events := []\<rparr>"

definition delivery_rest where
  "delivery_rest s = s\<lparr>st_messageReceives := [], st_messageDeliveries := [], st_channelInboxUpdates := [], st_auditEvents := [], st_events := []\<rparr>"

definition agent_rest where
  "agent_rest s = s\<lparr>st_mcpAccessTickets := [], st_mcpBindings := [], st_mcpOperations := [], st_sessions := [], st_sessionWriteHighWater := []\<rparr>"

definition session_rest where
  "session_rest s = s\<lparr>st_sessions := [], st_sessionWriteHighWater := [], st_messages := [], st_workbenchDrafts := [],
     st_auditEvents := [], st_events := []\<rparr>"

definition connector_rest where
  "connector_rest s = s\<lparr>st_connectorSettings := [], st_connectorSettingWriteHighWater := [], st_notificationBindings := [],
     st_notificationBindingWriteHighWater := [], st_auditEvents := [], st_events := []\<rparr>"

definition log_rest where "log_rest s = s\<lparr>st_auditEvents := [], st_events := []\<rparr>"

lemmas rest_defs = approval_rest_def run_rest_def schedule_rest_def delivery_rest_def agent_rest_def session_rest_def connector_rest_def log_rest_def

lemma append_rest [simp]:
  "approval_rest (appendAuditLocked env a b c d e f s) = approval_rest s" "approval_rest (appendEventLocked env a b c v s) = approval_rest s"
  "run_rest (appendAuditLocked env a b c d e f s) = run_rest s" "run_rest (appendEventLocked env a b c v s) = run_rest s"
  "schedule_rest (appendAuditLocked env a b c d e f s) = schedule_rest s" "schedule_rest (appendEventLocked env a b c v s) = schedule_rest s"
  "delivery_rest (appendAuditLocked env a b c d e f s) = delivery_rest s" "delivery_rest (appendEventLocked env a b c v s) = delivery_rest s"
  "session_rest (appendAuditLocked env a b c d e f s) = session_rest s" "session_rest (appendEventLocked env a b c v s) = session_rest s"
  by (simp_all add: rest_defs appendAuditLocked_def appendAuditLockedAt_def appendEventLocked_def appendEventLockedAt_def)

text \<open>The part of a group lies within the rest of every other group.\<close>

lemma approval_part_rest:
  shows "approval_part s = approval_part (run_rest s)"
    "approval_part s = approval_part (schedule_rest s)"
    "approval_part s = approval_part (delivery_rest s)"
    "approval_part s = approval_part (agent_rest s)"
    "approval_part s = approval_part (session_rest s)"
    "approval_part s = approval_part (connector_rest s)"
    "approval_part s = approval_part (log_rest s)"
  by (simp_all add: part_defs rest_defs)

lemma run_part_rest:
  shows "run_part s = run_part (approval_rest s)"
    "run_part s = run_part (schedule_rest s)"
    "run_part s = run_part (delivery_rest s)"
    "run_part s = run_part (agent_rest s)"
    "run_part s = run_part (session_rest s)"
    "run_part s = run_part (connector_rest s)"
    "run_part s = run_part (log_rest s)"
  by (simp_all add: part_defs rest_defs)

lemma schedule_part_rest:
  shows "schedule_part s = schedule_part (approval_rest s)"
    "schedule_part s = schedule_part (run_rest s)"
    "schedule_part s = schedule_part (delivery_rest s)"
    "schedule_part s = schedule_part (agent_rest s)"
    "schedule_part s = schedule_part (session_rest s)"
    "schedule_part s = schedule_part (connector_rest s)"
    "schedule_part s = schedule_part (log_rest s)"
  by (simp_all add: part_defs rest_defs)

lemma delivery_part_rest:
  shows "delivery_part s = delivery_part (approval_rest s)"
    "delivery_part s = delivery_part (run_rest s)"
    "delivery_part s = delivery_part (schedule_rest s)"
    "delivery_part s = delivery_part (agent_rest s)"
    "delivery_part s = delivery_part (session_rest s)"
    "delivery_part s = delivery_part (connector_rest s)"
    "delivery_part s = delivery_part (log_rest s)"
  by (simp_all add: part_defs rest_defs)

lemma agent_part_rest:
  shows "agent_part s = agent_part (approval_rest s)"
    "agent_part s = agent_part (run_rest s)"
    "agent_part s = agent_part (schedule_rest s)"
    "agent_part s = agent_part (delivery_rest s)"
    "agent_part s = agent_part (session_rest s)"
    "agent_part s = agent_part (connector_rest s)"
    "agent_part s = agent_part (log_rest s)"
  by (simp_all add: part_defs rest_defs)

lemma connector_part_rest:
  shows "connector_part s = connector_part (approval_rest s)"
    "connector_part s = connector_part (run_rest s)"
    "connector_part s = connector_part (schedule_rest s)"
    "connector_part s = connector_part (delivery_rest s)"
    "connector_part s = connector_part (agent_rest s)"
    "connector_part s = connector_part (session_rest s)"
    "connector_part s = connector_part (log_rest s)"
  by (simp_all add: part_defs rest_defs)

lemma approval_rest_step: "approval_step lib s s' \<Longrightarrow> approval_rest s' = approval_rest s"
proof (induction rule: approval_step.induct)
  case (step_save env cx a s r s')
  have "keeps approval_rest (SaveApproval lib cx env a)"
    unfolding SaveApproval_def [abs_def]
    by (intro keeps_checked_reads keeps_framed)
       (auto simp: keeps_def record_approval_def Let_def approval_rest_def split: sum.splits option.splits)
  with step_save(2) show ?case unfolding keeps_def by (metis snd_conv)
next
  case (step_update env cx command s r s')
  have "keeps approval_rest (UpdatePendingApproval lib cx env command)"
    unfolding UpdatePendingApproval_def
    by (intro keeps_framed) (auto simp: keeps_def record_approval_def approval_rest_def split: sum.splits option.splits)
  with step_update(2) show ?case unfolding keeps_def by (metis snd_conv)
next
  case (step_resolve env cx operation i st n input s r s')
  have "keeps approval_rest (resolveApprovalInputs lib cx env operation i st n input)"
    unfolding resolveApprovalInputs_def
    by (intro keeps_framed) (auto simp: keeps_def record_approval_def approval_rest_def split: sum.splits option.splits)
  with step_resolve(2) show ?case unfolding keeps_def by (metis snd_conv)
qed

lemma run_rest_stored:
  "run_rest (stored_run env c s) = run_rest s" "run_rest (stored_model_call env m s) = run_rest s"
  "run_rest (stored_tool_call env t s) = run_rest s" "run_rest (stored_episode env e s) = run_rest s"
  "run_rest (stored_feedback env f items s) = run_rest s"
  unfolding stored_defs append_rest by (simp_all add: run_rest_def)

lemma run_rest_step: "run_step s s' \<Longrightarrow> run_rest s' = run_rest s"
  by (erule run_stepE)
     (use run_rest_stored in \<open>metis SaveRun_cases SaveModelCall_cases SaveToolCall_cases SaveEpisodeSummary_cases SaveRunFeedback_cases\<close>)+

lemma schedule_rest_stored:
  "schedule_rest (record_reminder env r s) = schedule_rest s" "schedule_rest (delivery_store env d r s) = schedule_rest s"
  "schedule_rest (advance_store env i due u d s) = schedule_rest s" "schedule_rest (claimed_store now stale limit s) = schedule_rest s"
  unfolding record_reminder_def delivery_store_def advance_store_def claimed_store_def append_rest by (simp_all add: schedule_rest_def Let_def)

lemma schedule_rest_step: "schedule_step s s' \<Longrightarrow> schedule_rest s' = schedule_rest s"
  by (erule schedule_stepE)
     (use schedule_rest_stored in \<open>metis SaveReminder_cases UpdatePendingReminder_cases ClaimDueReminders_cases
        SaveReminderDelivery_cases AdvanceWorkbenchSchedule_cases\<close>)+

lemma delivery_rest_stored:
  "delivery_rest (record_receive env p s) = delivery_rest s" "delivery_rest (record_delivery env d s) = delivery_rest s"
  "delivery_rest (record_inbox u s) = delivery_rest s"
  unfolding record_receive_def record_delivery_def record_inbox_def append_rest by (simp_all add: delivery_rest_def)

lemma delivery_rest_step: "delivery_step s s' \<Longrightarrow> delivery_rest s' = delivery_rest s"
  by (erule delivery_stepE)
     (use delivery_rest_stored in \<open>metis SaveMessageReceive_cases SaveMessageDelivery_cases SaveChannelInboxUpdate_cases\<close>)+

lemma agent_rest_step: "mcp_step s s' \<Longrightarrow> agent_rest s' = agent_rest s"
proof (erule mcp_stepE)
  fix c
  have "keeps agent_rest (SaveMCPAccessTicket cx env t)" "keeps agent_rest (RedeemMCPAccessTicket cx env h peer now)"
    "keeps agent_rest (RevokeMCPAccessTicket cx i now)" "keeps agent_rest (DeleteMCPAccessTicket cx owner i)"
    "keeps agent_rest (RevokeMCPBinding cx i now)" "keeps agent_rest (DeleteMCPBinding cx owner i)"
    "keeps agent_rest (DeleteMCPAccessRecords cx owner)" "keeps agent_rest (TouchMCPBinding cx i iscp now)"
    "keeps agent_rest (CreateMCPOperation cx env p)" "keeps agent_rest (UpdateMCPOperation cx env p v)"
    for cx env t h peer now i owner iscp p v
    unfolding SaveMCPAccessTicket_def RedeemMCPAccessTicket_def RevokeMCPAccessTicket_def DeleteMCPAccessTicket_def RevokeMCPBinding_def
      DeleteMCPBinding_def DeleteMCPAccessRecords_def TouchMCPBinding_def CreateMCPOperation_def UpdateMCPOperation_def
    by (rule keeps_framed; auto simp: keeps_def agent_rest_def redeem_store_def Let_def split: option.splits prod.splits)+
  then have "agent_rest (mcp_call c s) = agent_rest s" by (cases c) (simp_all add: keeps_def)
  then show "s' = mcp_call c s \<Longrightarrow> agent_rest s' = agent_rest s" by simp
qed

lemma session_rest_stored:
  "session_rest (created_store env se s) = session_rest s" "session_rest (renamed_store env i se s) = session_rest s"
  "session_rest (messaged_store env m se s) = session_rest s" "session_rest (drafted_store owner sid d s) = session_rest s"
  unfolding created_store_def renamed_store_def messaged_store_def drafted_store_def append_rest
  by (simp_all add: session_rest_def put_session_def)

lemma session_rest_step: "session_step s s' \<Longrightarrow> session_rest s' = session_rest s"
  by (erule session_stepE)
     (use session_rest_stored in \<open>metis createSession_cases UpdateSessionTitle_cases AddMessage_cases SaveWorkbenchDraft_cases\<close>)+

lemma session_step_logs: "session_step s s' \<Longrightarrow> logs_extend s s'"
proof -
  have "logs_extend s (created_store env se s)" "logs_extend s (renamed_store env i se s)"
    "logs_extend s (messaged_store env m se s)" "logs_extend s (drafted_store owner sid d s)" for env se i m owner sid d
    by (simp_all add: created_store_def renamed_store_def messaged_store_def drafted_store_def put_session_def logs_extend_def
      appendAuditLocked_def appendAuditLockedAt_def appendEventLocked_def appendEventLockedAt_def)
  then show "session_step s s' \<Longrightarrow> logs_extend s s'"
    using logs_extend_refl
    by (elim session_stepE) (metis createSession_cases UpdateSessionTitle_cases AddMessage_cases SaveWorkbenchDraft_cases)+
qed

lemma agent_rest_logs: "agent_rest s' = agent_rest s \<Longrightarrow> st_auditEvents s' = st_auditEvents s \<and> st_events s' = st_events s"
  by (drule arg_cong [where f = "\<lambda>s. (st_auditEvents s, st_events s)"]) (simp add: agent_rest_def)

lemma agent_step_logs: "mcp_step s s' \<Longrightarrow> logs_extend s s'"
  by (drule agent_rest_step, drule agent_rest_logs) (simp add: logs_extend_def)

lemma binding_rest:
  "connector_rest (logged_binding ids at' kind actor b s) = connector_rest s" "connector_rest (put_binding at' i b s) = connector_rest s"
  "connector_rest (setting_store env key kind st s) = connector_rest s"
  by (simp_all add: connector_rest_def logged_binding_def put_binding_def setting_store_def appendAuditLockedAt_def appendEventLockedAt_def)

lemma demote_all_rest: "connector_rest (demote_all demoted at' b m s) = connector_rest s"
  by (induction m arbitrary: s) (auto simp: binding_rest)

lemma connector_rest_step: "connector_step unicode sha s s' \<Longrightarrow> connector_rest s' = connector_rest s"
proof (erule connector_stepE)
  fix c
  have "connector_rest (connector_call unicode sha c s) = connector_rest s"
  proof (cases c)
    case (UpdateSetting cx env setting v)
    then show ?thesis
      using UpdateConnectorSetting_cases [of unicode cx env setting v s, OF surjective_pairing] by (auto simp: binding_rest)
  next
    case (CreateBinding cx env b)
    then show ?thesis
      using CreateNotificationBinding_cases [of unicode cx env b s, OF surjective_pairing]
      by (auto simp: appendNotificationBindingLifecycleLocked_def binding_rest)
  next
    case (UpdateBinding cx env demoted command)
    then show ?thesis
      using UpdateNotificationBinding_cases [of unicode sha cx env demoted command s, OF surjective_pairing]
      by (auto simp: updated_bindings_def appendNotificationBindingLifecycleLocked_def binding_rest demote_all_rest)
  qed
  then show "s' = connector_call unicode sha c s \<Longrightarrow> connector_rest s' = connector_rest s" by simp
qed

lemma logged_binding_logs: "logs_extend s t \<Longrightarrow> logs_extend s (logged_binding ids at' kind actor b (put_binding at' i e t))"
  by (auto simp: logs_extend_def logged_binding_def put_binding_def appendAuditLockedAt_def appendEventLockedAt_def prefix_def)

lemma demote_all_logs: "logs_extend s t \<Longrightarrow> logs_extend s (demote_all demoted at' b m t)"
  by (induction m arbitrary: t) (auto simp: logged_binding_logs)

lemma connector_step_logs: "connector_step unicode sha s s' \<Longrightarrow> logs_extend s s'"
proof (erule connector_stepE)
  fix c
  have stored: "logs_extend s (setting_store env key kind st s)" for env key kind st
    by (simp add: logs_extend_def setting_store_def appendAuditLockedAt_def appendEventLockedAt_def)
  have created: "logs_extend s (appendNotificationBindingLifecycleLocked env at' b (put_binding at' i b s))" for env at' b i
    by (simp add: appendNotificationBindingLifecycleLocked_def logged_binding_logs logs_extend_refl)
  have updated: "logs_extend s (updated_bindings env demoted at' b s)" for env demoted at' b
    by (simp add: updated_bindings_def appendNotificationBindingLifecycleLocked_def logged_binding_logs demote_all_logs logs_extend_refl)
  have "logs_extend s (connector_call unicode sha c s)"
  proof (cases c)
    case (UpdateSetting cx env setting v)
    then show ?thesis
      using UpdateConnectorSetting_cases [of unicode cx env setting v s, OF surjective_pairing] stored logs_extend_refl by auto
  next
    case (CreateBinding cx env b)
    then show ?thesis
      using CreateNotificationBinding_cases [of unicode cx env b s, OF surjective_pairing] created logs_extend_refl by auto
  next
    case (UpdateBinding cx env demoted command)
    then show ?thesis
      using UpdateNotificationBinding_cases [of unicode sha cx env demoted command s, OF surjective_pairing] updated logs_extend_refl by auto
  qed
  then show "s' = connector_call unicode sha c s \<Longrightarrow> logs_extend s s'" by simp
qed

lemma log_rest_audit: "AddAudit cx env event s = (r, s') \<Longrightarrow> log_rest s' = log_rest s"
  by (auto simp: AddAudit_def framed_def checked_def log_rest_def split: option.splits sum.splits)

section \<open>The whole repository\<close>

inductive store_step :: "json_lib \<Rightarrow> (string \<Rightarrow> string) \<Rightarrow> (string \<Rightarrow> string) \<Rightarrow> MemoryStore \<Rightarrow> MemoryStore \<Rightarrow> bool"
  for lib unicode sha where
  by_approval: "approval_step lib s s' \<Longrightarrow> store_step lib unicode sha s s'"
| by_run: "run_step s s' \<Longrightarrow> store_step lib unicode sha s s'"
| by_schedule: "schedule_step s s' \<Longrightarrow> store_step lib unicode sha s s'"
| by_delivery: "delivery_step s s' \<Longrightarrow> store_step lib unicode sha s s'"
| by_agent: "mcp_step s s' \<Longrightarrow> store_step lib unicode sha s s'"
| by_connector: "lowers unicode \<Longrightarrow> connector_step unicode sha s s' \<Longrightarrow> store_step lib unicode sha s s'"
| by_session: "session_step s s' \<Longrightarrow> store_step lib unicode sha s s'"
| by_audit: "AddAudit cx env event s = (r, s') \<Longrightarrow> store_step lib unicode sha s s'"

inductive_cases store_stepE: "store_step lib unicode sha s s'"

text \<open>A group of operations inside a larger machine: its own steps depend on its part of the state only, and every other step
  leaves that part alone. Then the part is always one the group reaches by itself.\<close>

locale part_of =
  fixes init :: "'s \<Rightarrow> bool" and own :: "'s \<Rightarrow> 's \<Rightarrow> bool" and step :: "'s \<Rightarrow> 's \<Rightarrow> bool" and part :: "'s \<Rightarrow> 'p"
  assumes own_local: "own s s' \<Longrightarrow> part t = part s \<Longrightarrow> \<exists>t'. own t t' \<and> part t' = part s'"
    and others_keep: "step s s' \<Longrightarrow> own s s' \<or> part s' = part s"
begin

lemma simulated: "reach init step s \<Longrightarrow> \<exists>t. reach init own t \<and> part t = part s"
proof (induction rule: reach.induct)
  case (reach_init s)
  then show ?case by (blast intro: reach.reach_init)
next
  case (reach_step s s')
  then obtain t where "reach init own t" "part t = part s" by blast
  with others_keep [OF reach_step(2)] own_local show ?case by (metis reach.reach_step)
qed

end

lemma local_step:
  assumes "local_to part f" and "f s = (r, s')" and "part t = part s"
  shows "\<exists>r t'. f t = (r, t') \<and> part t' = part s'"
proof (intro exI conjI)
  show "f t = (fst (f t), snd (f t))" by simp
  show "part (snd (f t)) = part s'" using assms unfolding local_to_def by (metis snd_conv)
qed

interpretation approval_group: part_of empty_store "approval_step lib" "store_step lib unicode sha" approval_part
proof
  show "\<exists>t'. approval_step lib t t' \<and> approval_part t' = approval_part s'"
    if "approval_step lib s s'" and p: "approval_part t = approval_part s" for s s' t
    using that(1)
  proof cases
    case (step_save env cx a r)
    from local_step [OF approval_writes_local(1) this(2) p] show ?thesis using approval_step.step_save [OF step_save(1)] by blast
  next
    case (step_update env cx command r)
    from local_step [OF approval_writes_local(2) this(2) p] show ?thesis using approval_step.step_update [OF step_update(1)] by blast
  next
    case (step_resolve env cx operation i st n input r)
    from local_step [OF approval_writes_local(3) this(2) p] show ?thesis using approval_step.step_resolve [OF step_resolve(1)] by blast
  qed
  show "approval_step lib s s' \<or> approval_part s' = approval_part s" if "store_step lib unicode sha s s'" for s s'
    using that by cases (metis run_rest_step schedule_rest_step delivery_rest_step agent_rest_step session_rest_step connector_rest_step log_rest_audit approval_part_rest)+
qed

interpretation run_group: part_of empty_store run_step "store_step lib unicode sha" run_part
proof
  show "\<exists>t'. run_step t t' \<and> run_part t' = run_part s'" if "run_step s s'" and p: "run_part t = run_part s" for s s' t
    using that(1) by cases (blast dest: local_step [OF _ _ p, rotated] intro: run_writes_local run_step.intros)+
  show "run_step s s' \<or> run_part s' = run_part s" if "store_step lib unicode sha s s'" for s s'
    using that by cases (metis approval_rest_step schedule_rest_step delivery_rest_step agent_rest_step session_rest_step connector_rest_step log_rest_audit run_part_rest)+
qed

interpretation schedule_group: part_of empty_store schedule_step "store_step lib unicode sha" schedule_part
proof
  show "\<exists>t'. schedule_step t t' \<and> schedule_part t' = schedule_part s'"
    if "schedule_step s s'" and p: "schedule_part t = schedule_part s" for s s' t
    using that(1) by cases (blast dest: local_step [OF _ _ p, rotated] intro: schedule_writes_local schedule_step.intros)+
  show "schedule_step s s' \<or> schedule_part s' = schedule_part s" if "store_step lib unicode sha s s'" for s s'
    using that by cases (metis approval_rest_step run_rest_step delivery_rest_step agent_rest_step session_rest_step connector_rest_step log_rest_audit schedule_part_rest)+
qed

interpretation delivery_group: part_of empty_store delivery_step "store_step lib unicode sha" delivery_part
proof
  show "\<exists>t'. delivery_step t t' \<and> delivery_part t' = delivery_part s'"
    if "delivery_step s s'" and p: "delivery_part t = delivery_part s" for s s' t
    using that(1) by cases (blast dest: local_step [OF _ _ p, rotated] intro: delivery_writes_local delivery_step.intros)+
  show "delivery_step s s' \<or> delivery_part s' = delivery_part s" if "store_step lib unicode sha s s'" for s s'
    using that by cases (metis approval_rest_step run_rest_step schedule_rest_step agent_rest_step session_rest_step connector_rest_step log_rest_audit delivery_part_rest)+
qed

interpretation agent_group: part_of empty_store mcp_step "store_step lib unicode sha" agent_part
proof
  show "\<exists>t'. mcp_step t t' \<and> agent_part t' = agent_part s'" if "mcp_step s s'" and "agent_part t = agent_part s" for s s' t
    using that by (metis agent_call_local mcp_stepE step_call)
  show "mcp_step s s' \<or> agent_part s' = agent_part s" if "store_step lib unicode sha s s'" for s s'
    using that by cases (metis approval_rest_step run_rest_step schedule_rest_step delivery_rest_step session_rest_step connector_rest_step log_rest_audit agent_part_rest)+
qed

interpretation connector_group: part_of empty_store "\<lambda>s s'. lowers unicode \<and> connector_step unicode sha s s'"
  "store_step lib unicode sha" connector_part
proof
  show "\<exists>t'. (lowers unicode \<and> connector_step unicode sha t t') \<and> connector_part t' = connector_part s'"
    if step: "lowers unicode \<and> connector_step unicode sha s s'" and p: "connector_part t = connector_part s" for s s' t
  proof -
    obtain c where c: "versions_below s" "admissible c" "s' = connector_call unicode sha c s" using step by (auto elim: connector_stepE)
    have "connector_step unicode sha t (connector_call unicode sha c t)"
      by (rule step_connector) (use c connector_reads(7) [OF p] in simp_all)
    then show ?thesis using step connector_call_local [OF p] c(3) by blast
  qed
  show "(lowers unicode \<and> connector_step unicode sha s s') \<or> connector_part s' = connector_part s" if "store_step lib unicode sha s s'" for s s'
    using that
    by cases (metis approval_rest_step run_rest_step schedule_rest_step delivery_rest_step agent_rest_step session_rest_step log_rest_audit
      connector_part_rest)+
qed

lemma part_invariants:
  "approval_part s = approval_part t \<Longrightarrow> approvals_inv lib s = approvals_inv lib t"
  "run_part s = run_part t \<Longrightarrow> runs_inv s = runs_inv t"
  "schedule_part s = schedule_part t \<Longrightarrow> schedules_inv s = schedules_inv t"
  "delivery_part s = delivery_part t \<Longrightarrow> deliveries_inv s = deliveries_inv t"
  "agent_part s = agent_part t \<Longrightarrow> mcp_inv s = mcp_inv t"
  "connector_part s = connector_part t \<Longrightarrow> connectors_inv unicode s = connectors_inv unicode t"
  by (simp_all add: part_defs approvals_inv_def runs_inv_def schedules_inv_def deliveries_inv_def mcp_inv_def connectors_inv_def
      settings_inv_def bindings_inv_def)

lemma store_step_logs: "store_step lib unicode sha s s' \<Longrightarrow> logs_extend s s'"
  using approval_step_logs run_step_logs schedule_step_logs delivery_step_logs agent_step_logs session_step_logs connector_step_logs AddAudit_logs
  by (metis snd_conv store_stepE)

section \<open>Deletions\<close>

text \<open>The invariants of the six groups together.\<close>

definition store_inv :: "json_lib \<Rightarrow> (string \<Rightarrow> string) \<Rightarrow> MemoryStore \<Rightarrow> bool" where
  "store_inv lib unicode s \<longleftrightarrow>
     approvals_inv lib s \<and> runs_inv s \<and> schedules_inv s \<and> deliveries_inv s \<and> mcp_inv s \<and> connectors_inv unicode s"

text \<open>Every write of the repository and every deletion of a session.\<close>

inductive lifecycle_step :: "json_lib \<Rightarrow> (string \<Rightarrow> string) \<Rightarrow> (string \<Rightarrow> string) \<Rightarrow> MemoryStore \<Rightarrow> MemoryStore \<Rightarrow> bool"
  for lib unicode sha where
  by_write: "store_step lib unicode sha s s' \<Longrightarrow> lifecycle_step lib unicode sha s s'"
| by_deletion: "deleteSession cx env op i flag s = (res, s') \<Longrightarrow> lifecycle_step lib unicode sha s s'"

lemma store_inv_step: "store_step lib unicode sha s s' \<Longrightarrow> store_inv lib unicode s \<Longrightarrow> store_inv lib unicode s'"
  unfolding store_inv_def
  using approval_group.others_keep run_group.others_keep schedule_group.others_keep delivery_group.others_keep agent_group.others_keep
    connector_group.others_keep connectors.inv_step
    approvals.inv_step runs.inv_step schedules.inv_step ledgers.inv_step agents.inv_step part_invariants
  by metis

lemma deleted_connectors:
  assumes "deleteSession cx env op i flag s = (res, s')"
  shows "connectors_inv unicode s \<Longrightarrow> connectors_inv unicode s'"
proof -
  have "connector_part (deleted_store env flag se i s) = connector_part s" for se
    by (simp add: deleted_store_def connector_part_def appendAuditLocked_def appendAuditLockedAt_def appendEventLocked_def
        appendEventLockedAt_def erase_session_def Let_def)
  then have "connector_part s' = connector_part s" using deleteSession_cases [OF assms] by metis
  then show "connectors_inv unicode s \<Longrightarrow> connectors_inv unicode s'" using part_invariants(6) by metis
qed

interpretation repository: invariant_system empty_store "lifecycle_step lib unicode sha" "store_inv lib unicode"
proof
  show "store_inv lib unicode s" if "empty_store s" for s
    using that approvals.inv_init runs.inv_init schedules.inv_init ledgers.inv_init agents.inv_init connectors_inv_empty by (simp add: store_inv_def)
  show "store_inv lib unicode s'" if "lifecycle_step lib unicode sha s s'" and "store_inv lib unicode s" for s s'
    using that
  proof cases
    case by_write
    then show ?thesis using store_inv_step that(2) by blast
  next
    case (by_deletion cx env op i flag res)
    then show ?thesis using deleted_invariants deleted_connectors that(2) unfolding store_inv_def by metis
  qed
qed

end
