(* ===== verification/Recurrence.thy ===== *)
theory Recurrence
  imports App_Types Go_Time
begin

text \<open>
  Recurring schedules (\<open>internal/reminder/recurrence.go\<close>): the rule a recurrence string stands for and the
  first occurrence after an instant. What the code takes from outside the repository is the record
  \<open>platform\<close>: the Unicode case tables, the rounding of a fraction in \<open>time.ParseDuration\<close> and the tz
  database. Durations are 64-bit; calendar steps are exact. The lemmas: a found occurrence is the first of the
  rule's sequence after now, a positive interval never yields one that is not after now, and an interval that
  overflows does.
\<close>

section \<open>The standard library\<close>

record platform =
  pf_unicode :: "string \<Rightarrow> string"
  pf_fraction :: "nat \<Rightarrow> nat \<Rightarrow> nat \<Rightarrow> nat"
  pf_zones :: "string \<Rightarrow> location option"

definition decimal_digit :: "char \<Rightarrow> bool" where
  "decimal_digit c \<longleftrightarrow> 48 \<le> byte c \<and> byte c \<le> 57"

text \<open>\<open>strings.Fields\<close>, with the field being read.\<close>

function fields_from :: "string \<Rightarrow> string \<Rightarrow> string list" where
  "fields_from word s =
     (case strip_one white_space s of
        Some t \<Rightarrow> (if word = [] then fields_from [] t else word # fields_from [] t)
      | None \<Rightarrow> (case s of [] \<Rightarrow> (if word = [] then [] else [word]) | c # cs \<Rightarrow> fields_from (word @ [c]) cs))"
  by pat_completeness auto
termination
  by (relation "measure (\<lambda>(w, s). length s)") (auto dest: strip_one_shorter)

declare fields_from.simps [simp del]

definition Fields :: "string \<Rightarrow> string list" where
  "Fields s = fields_from [] s"

text \<open>\<open>strconv.Atoi\<close>: an optional sign, decimal digits, the range of \<open>int64\<close>.\<close>

definition decimal :: "string \<Rightarrow> int" where
  "decimal s = foldl (\<lambda>n c. 10 * n + (int (byte c) - 48)) 0 s"

definition Atoi :: "string \<Rightarrow> int option" where
  "Atoi s =
     (let neg = (case s of c # _ \<Rightarrow> c = CHR ''-'' | [] \<Rightarrow> False);
          digits = (case s of c # cs \<Rightarrow> if c = CHR ''-'' \<or> c = CHR ''+'' then cs else s | [] \<Rightarrow> []);
          n = (if neg then - decimal digits else decimal digits)
      in if digits = [] \<or> \<not> list_all decimal_digit digits \<or> n < - (2 ^ 63) \<or> 2 ^ 63 \<le> n then None else Some n)"

text \<open>\<open>time.ParseDuration\<close>, with \<open>uint64\<close> accumulators as naturals.\<close>

definition limit63 :: nat where
  "limit63 = 9223372036854775808"

fun leadingInt :: "nat \<Rightarrow> string \<Rightarrow> (nat \<times> string) option" where
  "leadingInt x [] = Some (x, [])"
| "leadingInt x (c # cs) =
     (if \<not> decimal_digit c then Some (x, c # cs)
      else if limit63 div 10 < x then None
      else let y = 10 * x + (byte c - 48) in if limit63 < y then None else leadingInt y cs)"

text \<open>The digits of a fraction: value, scale, whether further digits are dropped, and the rest.\<close>

fun leadingFraction :: "nat \<Rightarrow> nat \<Rightarrow> bool \<Rightarrow> string \<Rightarrow> nat \<times> nat \<times> string" where
  "leadingFraction x scale overflow [] = (x, scale, [])"
| "leadingFraction x scale overflow (c # cs) =
     (if \<not> decimal_digit c then (x, scale, c # cs)
      else if overflow \<or> (limit63 - 1) div 10 < x then leadingFraction x scale True cs
      else let y = 10 * x + (byte c - 48)
        in if limit63 < y then leadingFraction x scale True cs else leadingFraction y (10 * scale) False cs)"

definition unitMap :: "string \<Rightarrow> nat option" where
  "unitMap u = map_of [(''ns'', 1), (''us'', 1000), ([CHR 0xC2, CHR 0xB5, CHR ''s''], 1000),
     ([CHR 0xCE, CHR 0xBC, CHR ''s''], 1000), (''ms'', 1000000), (''s'', 1000000000), (''m'', 60000000000),
     (''h'', 3600000000000)] u"

text \<open>One term of a duration: its nanoseconds and the rest of the text.\<close>

definition duration_term :: "platform \<Rightarrow> string \<Rightarrow> (nat \<times> string) option" where
  "duration_term pf s =
     (if (case s of [] \<Rightarrow> True | c # _ \<Rightarrow> c \<noteq> CHR ''.'' \<and> \<not> decimal_digit c) then None
      else case leadingInt 0 s of
        None \<Rightarrow> None
      | Some (v, r) \<Rightarrow>
          let pre = (length r \<noteq> length s);
              frac = (case r of c # cs \<Rightarrow> c = CHR ''.'' | [] \<Rightarrow> False);
              (f, scale, r') = (if frac then leadingFraction 0 1 False (tl r) else (0, 1, r));
              post = (frac \<and> length r' \<noteq> length (tl r));
              u = takeWhile (\<lambda>c. c \<noteq> CHR ''.'' \<and> \<not> decimal_digit c) r';
              rest = dropWhile (\<lambda>c. c \<noteq> CHR ''.'' \<and> \<not> decimal_digit c) r'
          in if \<not> pre \<and> \<not> post \<or> u = [] then None
             else case unitMap u of
               None \<Rightarrow> None
             | Some unit \<Rightarrow>
                 if limit63 div unit < v then None
                 else let v = (if 0 < f then (v * unit + pf_fraction pf f unit scale) mod 2 ^ 64 else v * unit)
                   in if limit63 < v then None else Some (v, rest))"

fun duration_terms :: "platform \<Rightarrow> nat \<Rightarrow> nat \<Rightarrow> string \<Rightarrow> nat option" where
  "duration_terms pf fuel d s =
     (if s = [] then Some d
      else case fuel of 0 \<Rightarrow> None
        | Suc fuel \<Rightarrow> (case duration_term pf s of
            None \<Rightarrow> None
          | Some (v, rest) \<Rightarrow>
              let d = (d + v) mod 2 ^ 64 in if limit63 < d then None else duration_terms pf fuel d rest))"

declare duration_terms.simps [simp del]

definition ParseDuration :: "platform \<Rightarrow> string \<Rightarrow> duration option" where
  "ParseDuration pf s =
     (let neg = (case s of c # _ \<Rightarrow> c = CHR ''-'' | [] \<Rightarrow> False);
          s = (case s of c # cs \<Rightarrow> if c = CHR ''-'' \<or> c = CHR ''+'' then cs else s | [] \<Rightarrow> [])
      in if s = ''0'' then Some 0
         else if s = [] then None
         else case duration_terms pf (length s) 0 s of
           None \<Rightarrow> None
         | Some d \<Rightarrow> if neg then Some (wrap64 (- int d)) else if limit63 - 1 < d then None else Some (int d))"

text \<open>Every term consumes at least one byte, so the length of the text is enough fuel.\<close>

lemma leadingInt_length: "leadingInt x s = Some (v, r) \<Longrightarrow> length r \<le> length s"
  by (induction s arbitrary: x) (auto simp: Let_def le_Suc_eq split: if_splits)

lemma leadingFraction_length: "leadingFraction x k b s = (f, k', r) \<Longrightarrow> length r \<le> length s"
  by (induction s arbitrary: x k b) (auto simp: Let_def le_Suc_eq split: if_splits)

lemma takeWhile_dropWhile_shorter: "takeWhile P r \<noteq> [] \<Longrightarrow> length (dropWhile P r) < length r"
  by (cases r) (auto simp: length_dropWhile_le le_imp_less_Suc split: if_splits)

lemma duration_term_shorter:
  assumes "duration_term pf s = Some (v, rest)"
  shows "length rest < length s"
proof -
  obtain w r where i: "leadingInt 0 s = Some (w, r)"
    using assms unfolding duration_term_def by (auto split: if_splits option.splits list.splits)
  let ?frac = "case r of c # cs \<Rightarrow> c = CHR ''.'' | [] \<Rightarrow> False"
  obtain f k r' where fr: "(if ?frac then leadingFraction 0 1 False (tl r) else (0, 1, r)) = (f, k, r')"
    by (metis prod_cases3)
  have le: "length r' \<le> length s"
    using fr leadingInt_length [OF i] leadingFraction_length [of 0 1 False "tl r" f k r'] by (auto split: if_splits)
  let ?P = "\<lambda>c. c \<noteq> CHR ''.'' \<and> \<not> decimal_digit c"
  have "takeWhile ?P r' \<noteq> []" and "rest = dropWhile ?P r'"
    using assms unfolding duration_term_def i Let_def
    by (simp_all only: option.case prod.case fr split: if_splits option.splits) (auto split: if_splits option.splits)
  then show ?thesis using takeWhile_dropWhile_shorter [of ?P r'] le by simp
qed

lemma duration_terms_fuel:
  "length s \<le> fuel \<Longrightarrow> duration_terms pf fuel d s = duration_terms pf (length s) d s"
proof (induction fuel arbitrary: d s rule: less_induct)
  case (less fuel)
  show ?case
  proof (cases s)
    case Nil
    then show ?thesis by (simp add: duration_terms.simps)
  next
    case (Cons c cs)
    then obtain f where f: "fuel = Suc f" "length cs \<le> f" using less.prems by (cases fuel) auto
    have "duration_terms pf f d' rest = duration_terms pf (length cs) d' rest"
      if "duration_term pf s = Some (v, rest)" for d' v rest
    proof -
      have "length rest \<le> length cs" using duration_term_shorter [OF that] Cons by simp
      then show ?thesis
        using less.IH [of f rest d'] less.IH [of "length cs" rest d'] f less.prems Cons by simp
    qed
    then show ?thesis
      unfolding duration_terms.simps [of pf fuel d s] duration_terms.simps [of pf "length s" d s]
      by (auto simp: f(1) Cons Let_def split: option.splits)
  qed
qed

section \<open>Rules\<close>

record recurrenceRule =
  rc_years :: int
  rc_months :: int
  rc_days :: int
  rc_duration :: duration

definition no_rule :: recurrenceRule where
  "no_rule = \<lparr>rc_years = 0, rc_months = 0, rc_days = 0, rc_duration = 0\<rparr>"

definition advance :: "location \<Rightarrow> recurrenceRule \<Rightarrow> gotime \<Rightarrow> gotime" where
  "advance loc r t =
     (let t = (if rc_years r \<noteq> 0 \<or> rc_months r \<noteq> 0 \<or> rc_days r \<noteq> 0 then AddDate loc (rc_years r) (rc_months r) (rc_days r) t else t)
      in t + rc_duration r)"

abbreviation Minute :: duration where "Minute \<equiv> 60000000000"
abbreviation Hour :: duration where "Hour \<equiv> 3600000000000"

text \<open>The keywords; the Chinese ones are their UTF-8 bytes.\<close>

definition cn :: "nat list \<Rightarrow> string" where
  "cn bs = map char_of ([0xE6, 0xAF, 0x8F] @ bs)"

definition keyword_rule :: "string \<Rightarrow> recurrenceRule option" where
  "keyword_rule s =
     (if s \<in> {''minutely'', ''every minute'', cn [0xE5, 0x88, 0x86, 0xE9, 0x92, 0x9F]} then Some (no_rule\<lparr>rc_duration := Minute\<rparr>)
      else if s \<in> {''hourly'', ''every hour'', cn [0xE5, 0xB0, 0x8F, 0xE6, 0x97, 0xB6]} then Some (no_rule\<lparr>rc_duration := Hour\<rparr>)
      else if s \<in> {''daily'', ''every day'', ''everyday'', cn [0xE5, 0xA4, 0xA9], cn [0xE6, 0x97, 0xA5]} then Some (no_rule\<lparr>rc_days := 1\<rparr>)
      else if s \<in> {''weekly'', ''every week'', cn [0xE5, 0x91, 0xA8], cn [0xE6, 0x98, 0x9F, 0xE6, 0x9C, 0x9F]} then Some (no_rule\<lparr>rc_days := 7\<rparr>)
      else if s \<in> {''monthly'', ''every month'', cn [0xE6, 0x9C, 0x88]} then Some (no_rule\<lparr>rc_months := 1\<rparr>)
      else if s \<in> {''yearly'', ''annually'', ''every year'', cn [0xE5, 0xB9, 0xB4]} then Some (no_rule\<lparr>rc_years := 1\<rparr>)
      else None)"

text \<open>\<open>every <n> <unit>\<close>; the product with a unit wraps around at 64 bits.\<close>

definition unit_rule :: "int \<Rightarrow> string \<Rightarrow> recurrenceRule option" where
  "unit_rule n u =
     (if u \<in> {''minute'', ''min''} then Some (no_rule\<lparr>rc_duration := wrap64 (n * Minute)\<rparr>)
      else if u = ''hour'' then Some (no_rule\<lparr>rc_duration := wrap64 (n * Hour)\<rparr>)
      else if u = ''day'' then Some (no_rule\<lparr>rc_days := n\<rparr>)
      else if u = ''week'' then Some (no_rule\<lparr>rc_days := wrap64 (7 * n)\<rparr>)
      else if u = ''month'' then Some (no_rule\<lparr>rc_months := n\<rparr>)
      else if u = ''year'' then Some (no_rule\<lparr>rc_years := n\<rparr>)
      else None)"

definition every_rule :: "string \<Rightarrow> recurrenceRule option" where
  "every_rule s = (case Fields s of
     [e, n, u] \<Rightarrow> if e = ''every'' then (case Atoi n of
         Some n \<Rightarrow> if 0 < n then unit_rule n (TrimSuffix u ''s'') else None | None \<Rightarrow> None) else None
   | _ \<Rightarrow> None)"

definition parseRecurrence :: "platform \<Rightarrow> string \<Rightarrow> recurrenceRule option" where
  "parseRecurrence pf value =
     (let s = ToLower (pf_unicode pf) (TrimSpace value)
      in if s = [] then None
         else case keyword_rule s of Some r \<Rightarrow> Some r
         | None \<Rightarrow> (case every_rule s of Some r \<Rightarrow> Some r
           | None \<Rightarrow> (case ParseDuration pf s of
                 Some d \<Rightarrow> if 0 < d then Some (no_rule\<lparr>rc_duration := d\<rparr>) else None
               | None \<Rightarrow> None)))"

section \<open>Occurrences\<close>

text \<open>At most \<open>n\<close> steps of the loop that looks for an occurrence after \<open>now\<close>.\<close>

fun seek :: "nat \<Rightarrow> (gotime \<Rightarrow> gotime) \<Rightarrow> gotime \<Rightarrow> gotime \<Rightarrow> gotime option" where
  "seek 0 step now t = None"
| "seek (Suc n) step now t = (if now < step t then Some (step t) else seek n step now (step t))"

definition location_of :: "platform \<Rightarrow> string \<Rightarrow> location" where
  "location_of pf tz = (if tz = [] then UTC else case pf_zones pf tz of Some l \<Rightarrow> l | None \<Rightarrow> UTC)"

definition nextOccurrence :: "platform \<Rightarrow> string \<Rightarrow> string \<Rightarrow> gotime \<Rightarrow> gotime \<Rightarrow> gotime option" where
  "nextOccurrence pf recurrence timezone dueTime now = (case parseRecurrence pf recurrence of
     None \<Rightarrow> None
   | Some rule \<Rightarrow>
       let step = advance (location_of pf timezone) rule
       in case seek 10000 step now dueTime of Some n \<Rightarrow> Some n | None \<Rightarrow> Some (step now))"

lemma seek_Some:
  "seek n step now t = Some x \<longleftrightarrow> (\<exists>k<n. x = (step ^^ Suc k) t \<and> now < x \<and> (\<forall>j<k. (step ^^ Suc j) t \<le> now))"
proof (induction n arbitrary: t)
  case (Suc n)
  have shift: "(step ^^ Suc (Suc k)) t = (step ^^ Suc k) (step t)" for k
    by (simp only: funpow_Suc_right comp_apply)
  show ?case
  proof (cases "now < step t")
    case True
    have "k = 0" if "\<forall>j<k. (step ^^ Suc j) t \<le> now" for k
      using that [rule_format, of 0] True by (cases k) auto
    then have "(\<exists>k<Suc n. x = (step ^^ Suc k) t \<and> now < x \<and> (\<forall>j<k. (step ^^ Suc j) t \<le> now)) \<longleftrightarrow> x = step t"
      using True by (metis funpow_0 funpow_simps_right(2) comp_apply less_nat_zero_code zero_less_Suc)
    then show ?thesis using True by auto
  next
    case False
    have "(\<exists>k<Suc n. x = (step ^^ Suc k) t \<and> now < x \<and> (\<forall>j<k. (step ^^ Suc j) t \<le> now)) \<longleftrightarrow>
        (\<exists>k<n. x = (step ^^ Suc (Suc k)) t \<and> now < x \<and> (\<forall>j<Suc k. (step ^^ Suc j) t \<le> now))"
      using False by (simp del: funpow.simps add: Ex_less_Suc2 All_less_Suc2, auto)
    also have "\<dots> \<longleftrightarrow> (\<exists>k<n. x = (step ^^ Suc k) (step t) \<and> now < x \<and> (\<forall>j<k. (step ^^ Suc j) (step t) \<le> now))"
      using False by (simp only: shift All_less_Suc2) auto
    finally show ?thesis using False Suc.IH by simp
  qed
qed simp

lemma seek_None: "seek n step now t = None \<longleftrightarrow> (\<forall>k<n. (step ^^ Suc k) t \<le> now)"
proof (induction n arbitrary: t)
  case (Suc n)
  have shift: "(step ^^ Suc (Suc k)) t = (step ^^ Suc k) (step t)" for k
    by (simp only: funpow_Suc_right comp_apply)
  have "(\<forall>k<Suc n. (step ^^ Suc k) t \<le> now) \<longleftrightarrow> step t \<le> now \<and> (\<forall>k<n. (step ^^ Suc (Suc k)) t \<le> now)"
    unfolding All_less_Suc2 by simp
  then show ?case using Suc.IH [of "step t"] by (simp only: shift seek.simps) auto
qed simp

text \<open>A rule that is a fixed number of nanoseconds: a duration anywhere, days in UTC.\<close>

definition interval :: "recurrenceRule \<Rightarrow> int" where
  "interval r = rc_days r * day_ns + rc_duration r"

lemma advance_fixed:
  assumes "rc_years r = 0" and "rc_months r = 0" and "rc_days r = 0 \<or> loc = UTC"
  shows "advance loc r t = t + interval r"
  using assms by (auto simp: advance_def interval_def AddDate_UTC_days Let_def)

lemma funpow_add: "(\<And>t. step t = t + (d :: int)) \<Longrightarrow> (step ^^ k) t = t + int k * d"
  by (induction k) (auto simp: algebra_simps)

lemma seek_fixed:
  fixes d :: int
  assumes step: "\<And>t. step t = t + d" and d: "0 < d"
  shows "seek n step now t =
    (if now < t + int n * d \<and> 0 < n then Some (t + max 1 ((now - t) div d + 1) * d) else None)"
proof (cases "now < t + int n * d \<and> 0 < n")
  case True
  let ?K = "max 1 ((now - t) div d + 1)"
  have iter: "(step ^^ Suc k) t = t + (int k + 1) * d" for k
    using funpow_add [OF step, of "Suc k" t] by (simp add: algebra_simps)
  have q: "d * ((now - t) div d) \<le> now - t" "now - t < d * ((now - t) div d) + d"
    using int_div_bounds [OF d, of "now - t"] by simp_all
  have "now < t + ?K * d"
  proof -
    have "((now - t) div d + 1) * d \<le> ?K * d" using d by (intro mult_right_mono) auto
    then show ?thesis using q(2) by (simp add: algebra_simps)
  qed
  moreover have "nat ?K - 1 < n"
  proof -
    have "(now - t) div d < int n"
    proof (rule ccontr)
      assume "\<not> (now - t) div d < int n"
      then have "d * int n \<le> d * ((now - t) div d)" using d by (intro mult_left_mono) auto
      then have "d * int n \<le> now - t" using q(1) by simp
      then show False using True by (simp add: mult.commute)
    qed
    then show ?thesis using True by auto
  qed
  moreover have "(step ^^ Suc j) t \<le> now" if "j < nat ?K - 1" for j
  proof -
    have "int j + 1 \<le> (now - t) div d" using that by (auto simp: max_def split: if_splits)
    then have "(int j + 1) * d \<le> ((now - t) div d) * d" using d by (intro mult_right_mono) auto
    then show ?thesis using q(1) by (simp only: iter) (simp add: algebra_simps)
  qed
  moreover have "(step ^^ Suc (nat ?K - 1)) t = t + ?K * d"
  proof -
    have "int (nat ?K - 1) + 1 = ?K" by simp
    then show ?thesis by (simp only: iter)
  qed
  ultimately have "seek n step now t = Some (t + ?K * d)"
    by (subst seek_Some) (rule exI [of _ "nat ?K - 1"], metis)
  then show ?thesis using True by simp
next
  case False
  have iter: "(step ^^ Suc k) t = t + (int k + 1) * d" for k
    using funpow_add [OF step, of "Suc k" t] by (simp add: algebra_simps)
  have "(step ^^ Suc k) t \<le> now" if "k < n" for k
  proof -
    have "(int k + 1) * d \<le> int n * d" using that d by (intro mult_right_mono) auto
    then show ?thesis using False that by (simp only: iter) linarith
  qed
  then have "seek n step now t = None" by (simp only: seek_None) blast
  then show ?thesis by (simp only: if_not_P [OF False])
qed

section \<open>Properties\<close>

definition plain_platform :: platform where
  "plain_platform = \<lparr>pf_unicode = id, pf_fraction = (\<lambda>f unit scale. f * unit div scale), pf_zones = (\<lambda>tz. None)\<rparr>"

text \<open>C38: the next occurrence is the first of the sequence after now. When a recurrence string is recognised, the code returns
  the first of the at most 10000 steps of the rule from the due time that lies strictly after now, in the time zone of
  the schedule; when all of them lie in the past, it returns one step from now.\<close>

theorem next_occurrence_first:
  fixes tz :: string
  assumes "parseRecurrence pf recurrence = Some rule"
  defines "step \<equiv> advance (location_of pf tz) rule"
  shows "nextOccurrence pf recurrence tz due now = Some occ \<longleftrightarrow>
    (\<exists>k<10000. occ = (step ^^ Suc k) due \<and> now < occ \<and> (\<forall>j<k. (step ^^ Suc j) due \<le> now)) \<or>
    (\<forall>k<10000. (step ^^ Suc k) due \<le> now) \<and> occ = step now"
proof (cases "seek 10000 step now due")
  case None
  then have "\<forall>k<10000. (step ^^ Suc k) due \<le> now" by (rule seek_None [THEN iffD1])
  then show ?thesis using None assms(1) by (auto simp: nextOccurrence_def step_def Let_def simp del: funpow.simps)
next
  case (Some x)
  have one: "(x = occ) = (\<exists>k<10000. occ = (step ^^ Suc k) due \<and> now < occ \<and> (\<forall>j<k. (step ^^ Suc j) due \<le> now))"
    using seek_Some [of 10000 step now due occ] by (simp only: Some option.inject)
  have "\<not> (\<forall>k<10000. (step ^^ Suc k) due \<le> now)"
    using seek_None [of 10000 step now due] by (simp only: Some option.distinct simp_thms)
  then have "(x = occ) = ((\<exists>k<10000. occ = (step ^^ Suc k) due \<and> now < occ \<and> (\<forall>j<k. (step ^^ Suc j) due \<le> now)) \<or>
      (\<forall>k<10000. (step ^^ Suc k) due \<le> now) \<and> occ = step now)"
    using one by blast
  then show ?thesis
    using Some assms(1) by (simp only: nextOccurrence_def step_def [symmetric] Let_def option.case option.inject)
qed

lemma daily_rule: "parseRecurrence plain_platform ''daily'' = Some (no_rule\<lparr>rc_days := 1\<rparr>)"
proof -
  have "is_ascii (TrimSpace ''daily'')" and "map lower_byte (TrimSpace ''daily'') = ''daily''" by code_simp+
  then show ?thesis by (simp add: parseRecurrence_def ToLower_def keyword_rule_def cn_def)
qed

lemma next_occurrence_first_witness:
  "nextOccurrence plain_platform ''daily'' [] 5 7 = Some 86400000000005"
proof -
  have l: "location_of plain_platform [] = UTC" by (simp add: location_of_def)
  have "advance UTC (no_rule\<lparr>rc_days := 1\<rparr>) 5 = 86400000000005"
    by (simp add: advance_def no_rule_def AddDate_UTC_days)
  then have "86400000000005 = (advance UTC (no_rule\<lparr>rc_days := 1\<rparr>) ^^ Suc 0) 5 \<and> (7 :: int) < 86400000000005 \<and>
      (\<forall>j<0. (advance UTC (no_rule\<lparr>rc_days := 1\<rparr>) ^^ Suc j) 5 \<le> 7)" by simp
  then show ?thesis
    using next_occurrence_first [OF daily_rule, of "[]" 5 7 86400000000005] unfolding l by (blast intro: zero_less_numeral)
qed

text \<open>Fixed intervals keep the phase of the schedule. For a rule of a positive fixed interval (minutes, hours, durations
  anywhere; days and weeks in UTC) the next occurrence is the due time plus the least positive number of intervals that
  lies after now, or, more than 10000 intervals behind, one interval after now; in both cases it lies strictly after now.\<close>

theorem fixed_interval_occurrence:
  assumes "parseRecurrence pf recurrence = Some rule" and "rc_years rule = 0" and "rc_months rule = 0"
    and "rc_days rule = 0 \<or> location_of pf tz = UTC" and "0 < interval rule"
  shows "\<exists>n. nextOccurrence pf recurrence tz due now = Some n \<and> now < n \<and>
    n = (if now < due + 10000 * interval rule then due + max 1 ((now - due) div interval rule + 1) * interval rule
         else now + interval rule)"
proof -
  let ?step = "advance (location_of pf tz) rule" and ?d = "interval rule"
  have step: "?step t = t + ?d" for t by (rule advance_fixed [OF assms(2-4)])
  note seek = seek_fixed [of ?step, OF step assms(5), of 10000 now due]
  show ?thesis
  proof (cases "now < due + 10000 * ?d")
    case True
    let ?n = "due + max 1 ((now - due) div ?d + 1) * ?d"
    have s: "seek 10000 ?step now due = Some ?n" using seek True by simp
    then have "now < ?n" unfolding seek_Some by blast
    then show ?thesis using s True assms(1) by (simp add: nextOccurrence_def Let_def)
  next
    case False
    then have "seek 10000 ?step now due = None" using seek by simp
    then show ?thesis using False assms(1,5) by (simp add: nextOccurrence_def Let_def step)
  qed
qed

lemma fixed_interval_occurrence_witness:
  "nextOccurrence plain_platform ''every 2 days'' [] 0 (5 * day_ns) = Some (6 * day_ns)"
proof -
  have r: "parseRecurrence plain_platform ''every 2 days'' = Some (no_rule\<lparr>rc_days := 2\<rparr>)"
  proof -
    have "is_ascii (TrimSpace ''every 2 days'')" and "map lower_byte (TrimSpace ''every 2 days'') = ''every 2 days''"
      and "every_rule ''every 2 days'' = Some (no_rule\<lparr>rc_days := 2\<rparr>)" by code_simp+
    then show ?thesis by (simp add: parseRecurrence_def ToLower_def keyword_rule_def cn_def)
  qed
  have "\<exists>n. nextOccurrence plain_platform ''every 2 days'' [] 0 (5 * day_ns) = Some n \<and> 5 * day_ns < n \<and>
      n = (if 5 * day_ns < 0 + 10000 * interval (no_rule\<lparr>rc_days := 2\<rparr>)
           then 0 + max 1 ((5 * day_ns - 0) div interval (no_rule\<lparr>rc_days := 2\<rparr>) + 1) * interval (no_rule\<lparr>rc_days := 2\<rparr>)
           else 5 * day_ns + interval (no_rule\<lparr>rc_days := 2\<rparr>))"
    by (rule fixed_interval_occurrence [OF r]) (simp_all add: location_of_def no_rule_def interval_def)
  then show ?thesis by (simp add: no_rule_def interval_def)
qed

text \<open>A recurrence whose interval wraps around to a negative one.\<close>

lemma overflow_next:
  assumes "due \<le> now"
  shows "nextOccurrence pf ''every 200000000 minutes'' tz due now = Some (now - 6446744073709551616)"
proof -
  have ascii: "is_ascii (TrimSpace ''every 200000000 minutes'')"
    and low: "map lower_byte (TrimSpace ''every 200000000 minutes'') = ''every 200000000 minutes''"
    and every: "every_rule ''every 200000000 minutes'' = Some (no_rule\<lparr>rc_duration := - 6446744073709551616\<rparr>)"
    by code_simp+
  have kw: "keyword_rule ''every 200000000 minutes'' = None" by (simp add: keyword_rule_def cn_def)
  have r: "parseRecurrence pf ''every 200000000 minutes'' = Some (no_rule\<lparr>rc_duration := - 6446744073709551616\<rparr>)"
    by (simp add: parseRecurrence_def ToLower_def ascii low kw every)
  let ?step = "advance (location_of pf tz) (no_rule\<lparr>rc_duration := - 6446744073709551616\<rparr>)"
  have step: "?step t = t + (- 6446744073709551616)" for t by (simp add: advance_def no_rule_def)
  have "(?step ^^ Suc k) due \<le> now" for k
    using funpow_add [of ?step "- 6446744073709551616" "Suc k" due, OF step] assms by (simp del: funpow.simps)
  then have "seek 10000 ?step now due = None" by (simp only: seek_None) blast
  then show ?thesis by (simp add: nextOccurrence_def r Let_def step)
qed

text \<open>A large number of minutes or hours overflows. The product of the number with the unit wraps around at 64 bits without
  a check, so a recurrence that should fire rarely yields an occurrence in the past: for 200 million minutes the
  next occurrence lies more than 204 years before now, whatever the due time not after now.\<close>

theorem recurrence_overflow:
  assumes "due \<le> now"
  shows "nextOccurrence pf ''every 200000000 minutes'' tz due now = Some (now - 6446744073709551616)"
  using assms by (rule overflow_next)

lemma recurrence_overflow_witness:
  "nextOccurrence plain_platform ''every 200000000 minutes'' [] 5 9000000000000000000 = Some 2553255926290448384"
  using recurrence_overflow [of 5 9000000000000000000 plain_platform "[]"] by simp

end
