(* ===== verification/Scheduler_Operations.thy ===== *)
theory Scheduler_Operations
  imports Schedule_Operations Recurrence
begin

text \<open>
  The timer runtime (\<open>internal/reminder/scheduler.go\<close> and \<open>workbench.go\<close>): observing a poll, claiming due work,
  processing a claimed schedule and re-arming it, and the reads of \<open>internal/messagecontrol/schedule_registry.go\<close>
  it relies on. A step takes the instants, the contexts and the answers of the publisher as arguments and returns the
  scheduler and the store it leaves. The goroutines of \<open>Run\<close>, which only move claimed schedules to \<open>process\<close>, are
  not modelled.
\<close>

section \<open>Schedules as messages\<close>

abbreviation (input) ScheduleSpecSchemaVersion :: int where "ScheduleSpecSchemaVersion \<equiv> 2"
abbreviation (input) MessageEnvelopeSchemaVersion :: int where "MessageEnvelopeSchemaVersion \<equiv> 1"

record MessageSchedule =
  ms_ID :: string
  ms_SessionID :: string
  ms_RunID :: string
  ms_Spec :: ScheduleSpec
  ms_DueTime :: gotime
  ms_Timezone :: string
  ms_Recurrence :: string
  ms_DedupeKey :: string
  ms_Status :: string
  ms_DeliveryAttempt :: int
  ms_CreatedAt :: gotime
  ms_UpdatedAt :: gotime
  ms_SentAt :: "gotime option"
  ms_CanceledAt :: "gotime option"

record MessageSourceContext =
  sc_Kind :: string
  sc_Adapter :: string
  sc_EndpointID :: string
  sc_NativeMessageID :: string
  sc_NativeThreadRef :: string
  sc_ScheduleID :: string

record MessageEnvelope =
  me_SchemaVersion :: int
  me_ID :: string
  me_IdempotencyKey :: string
  me_CorrelationID :: string
  me_CausationID :: string
  me_Source :: MessageSourceContext
  me_OwnerID :: string
  me_ActorID :: string
  me_Content :: MessageContent
  me_MediaLocators :: "MessageMediaLocator list"
  me_ReturnRoute :: ReturnRoute
  me_Authorization :: MessageAuthorization
  me_CreatedAt :: gotime

text \<open>\<open>fromReminder\<close>: a reminder without a specification of the current version is not a schedule.\<close>

definition fromReminder :: "Reminder \<Rightarrow> MessageSchedule option" where
  "fromReminder r = (case rm_ScheduleSpec r of
     None \<Rightarrow> None
   | Some spec \<Rightarrow>
       if ss_SchemaVersion spec \<noteq> ScheduleSpecSchemaVersion then None
       else
         let key = TrimSpace (rm_DedupeKey r);
             key = (if key = [] then ''reminder:'' @ rm_ID r else key)
         in Some \<lparr>ms_ID = rm_ID r, ms_SessionID = rm_SessionID r, ms_RunID = rm_RunID r, ms_Spec = spec, ms_DueTime = rm_DueTime r,
              ms_Timezone = rm_Timezone r, ms_Recurrence = rm_Recurrence r, ms_DedupeKey = key, ms_Status = rm_Status r,
              ms_DeliveryAttempt = rm_DeliveryAttempt r, ms_CreatedAt = rm_CreatedAt r, ms_UpdatedAt = rm_UpdatedAt r,
              ms_SentAt = rm_SentAt r, ms_CanceledAt = rm_CanceledAt r\<rparr>)"

definition schedules_of :: "Reminder list \<Rightarrow> MessageSchedule list" where
  "schedules_of rs = List.map_filter fromReminder rs"

text \<open>The reads of the registry; \<open>present\<close> is false for a nil registry or store.\<close>

definition registry_Get :: "bool \<Rightarrow> op_ctx \<Rightarrow> string \<Rightarrow> MemoryStore \<Rightarrow> MessageSchedule option outcome" where
  "registry_Get present cx i s =
     (if \<not> present then (Inl (Err ''schedule registry is unavailable''), s)
      else case GetReminder cx i s of
        (Inl e, s') \<Rightarrow> (Inl e, s')
      | (Inr None, s') \<Rightarrow> (Inr None, s')
      | (Inr (Some r), s') \<Rightarrow> (Inr (fromReminder r), s'))"

definition registry_List :: "bool \<Rightarrow> op_ctx \<Rightarrow> ReminderFilter \<Rightarrow> MemoryStore \<Rightarrow> MessageSchedule list outcome" where
  "registry_List present cx flt s =
     (if \<not> present then (Inl (Err ''schedule registry is unavailable''), s)
      else case ListReminders cx flt s of (Inl e, s') \<Rightarrow> (Inl e, s') | (Inr rs, s') \<Rightarrow> (Inr (schedules_of rs), s'))"

definition registry_ClaimDue :: "bool \<Rightarrow> op_ctx \<Rightarrow> gotime \<Rightarrow> gotime \<Rightarrow> int \<Rightarrow> MemoryStore \<Rightarrow> MessageSchedule list outcome" where
  "registry_ClaimDue present cx now staleBefore limit s =
     (if \<not> present then (Inl (Err ''schedule registry is unavailable''), s)
      else case ClaimDueReminders cx now staleBefore limit s of (Inl e, s') \<Rightarrow> (Inl e, s') | (Inr rs, s') \<Rightarrow> (Inr (schedules_of rs), s'))"

section \<open>The scheduler\<close>

abbreviation (input) tickBatchLimit :: nat where "tickBatchLimit \<equiv> 50"
abbreviation (input) sendingLease :: duration where "sendingLease \<equiv> 6 * Minute"
abbreviation (input) retryBaseDelay :: duration where "retryBaseDelay \<equiv> Minute"
abbreviation (input) retryMaxDelay :: duration where "retryMaxDelay \<equiv> 30 * Minute"
abbreviation (input) pollInterval :: duration where "pollInterval \<equiv> 10000000000"
abbreviation (input) DefaultMaxDeliveryAttempts :: int where "DefaultMaxDeliveryAttempts \<equiv> 8"

text \<open>A reading of \<open>time.Now\<close>: the wall clock and the monotonic clock.\<close>

record reading =
  cr_wall :: gotime
  cr_mono :: int

record Scheduler =
  sd_schedules :: bool
  sd_publisher :: bool
  sd_interval :: duration
  sd_maxDeliveryAttempts :: int
  sd_lastPoll :: reading
  sd_eligibleAfter :: gotime
  sd_unavailable :: bool

definition NewMessageScheduler :: "bool \<Rightarrow> bool \<Rightarrow> int \<Rightarrow> Scheduler" where
  "NewMessageScheduler schedules publisher maxDeliveryAttempts =
     \<lparr>sd_schedules = schedules, sd_publisher = publisher, sd_interval = pollInterval,
      sd_maxDeliveryAttempts = (if maxDeliveryAttempts \<le> 0 then DefaultMaxDeliveryAttempts else maxDeliveryAttempts),
      sd_lastPoll = \<lparr>cr_wall = 0, cr_mono = 0\<rparr>, sd_eligibleAfter = 0, sd_unavailable = False\<rparr>"

text \<open>\<open>time.Time.Sub\<close> saturates at the range of a duration.\<close>

definition saturate64 :: "int \<Rightarrow> duration" where
  "saturate64 d = max (- (2 ^ 63)) (min (2 ^ 63 - 1) d)"

text \<open>\<open>observePollLocked\<close>; a zero last poll has no monotonic reading, but then the gap does not matter.\<close>

definition observePollLocked :: "reading \<Rightarrow> Scheduler \<Rightarrow> gotime \<times> Scheduler" where
  "observePollLocked pulse sd =
     (let now = cr_wall pulse;
          wallElapsed = saturate64 (now - cr_wall (sd_lastPoll sd));
          clockGap = wrap64 (wallElapsed - saturate64 (cr_mono pulse - cr_mono (sd_lastPoll sd)));
          boundary = (IsZero (cr_wall (sd_lastPoll sd)) \<or> sd_unavailable sd \<or> now < cr_wall (sd_lastPoll sd) \<or>
            wrap64 (2 * sd_interval sd) < wallElapsed \<or> 250000000 < clockGap \<or> \<not> sd_publisher sd);
          sd = (if boundary then sd\<lparr>sd_eligibleAfter := now\<rparr> else sd)
      in (now, sd\<lparr>sd_lastPoll := pulse\<rparr>))"

definition workbenchOccurrenceID :: "MessageSchedule \<Rightarrow> string" where
  "workbenchOccurrenceID m = ''env_'' @ ms_ID m @ ''_'' @ show_int (UnixNano (ms_DueTime m))"

section \<open>Workbench occurrences\<close>

text \<open>What a poll needs from outside: the contexts of its calls and the environments of its writes, the
  \<open>n\<close>-th advance being the one that leaves \<open>n\<close> of the batch.\<close>

record poll_env =
  pe_platform :: platform
  pe_list :: op_ctx
  pe_advance :: "nat \<Rightarrow> op_ctx"
  pe_write :: "nat \<Rightarrow> op_env"
  pe_claim :: op_ctx

definition occurrence_status :: "Scheduler \<Rightarrow> MessageSchedule \<Rightarrow> string" where
  "occurrence_status sd m = (if \<not> sd_eligibleAfter sd < ms_DueTime m \<or> \<not> sd_publisher sd then ''missed'' else ''submitted'')"

definition occurrence_record :: "gotime \<Rightarrow> string \<Rightarrow> MessageSchedule \<Rightarrow> ReminderDelivery" where
  "occurrence_record now status m = \<lparr>rd_ID = workbenchOccurrenceID m, rd_ReminderID = ms_ID m, rd_Channel = [], rd_Provider = ''workbench'',
     rd_Recipient = [], rd_Status = status, rd_ProviderStatus = status, rd_Error = [], rd_RetryState = ''none'', rd_Attempt = 0,
     rd_SentAt = 0, rd_CreatedAt = now\<rparr>"

definition next_or_zero :: "platform \<Rightarrow> MessageSchedule \<Rightarrow> gotime" where
  "next_or_zero pf m = (case nextOccurrence pf (ms_Recurrence m) (ms_Timezone m) (ms_DueTime m) (ms_DueTime m) of None \<Rightarrow> 0 | Some n \<Rightarrow> n)"

text \<open>The occurrences of one schedule: the error that ends the poll, what remains of the batch, the claimed
  occurrences and the store.\<close>

fun claim_occurrences ::
  "poll_env \<Rightarrow> Scheduler \<Rightarrow> gotime \<Rightarrow> MessageSchedule \<Rightarrow> nat \<Rightarrow> MessageSchedule list \<Rightarrow> MemoryStore \<Rightarrow>
   go_error option \<times> nat \<times> MessageSchedule list \<times> MemoryStore" where
  "claim_occurrences pe sd now m 0 claimed s = (None, 0, claimed, s)"
| "claim_occurrences pe sd now m (Suc remaining) claimed s =
     (if now < ms_DueTime m then (None, Suc remaining, claimed, s)
      else
        let status = occurrence_status sd m; record = occurrence_record now status m; next = next_or_zero (pe_platform pe) m
        in case AdvanceWorkbenchSchedule (pe_advance pe remaining) (pe_write pe remaining) (ms_ID m) (ms_UpdatedAt m) next record s of
             (Inl e, s') \<Rightarrow>
               if err_is e ErrReminderConflict then (None, remaining, claimed, s') else (Some e, remaining, claimed, s')
           | (Inr updated, s') \<Rightarrow>
               let claimed = (if status = ''submitted'' then claimed @ [m] else claimed)
               in if IsZero next then (None, remaining, claimed, s')
                  else claim_occurrences pe sd now (m\<lparr>ms_DueTime := rm_DueTime updated, ms_UpdatedAt := rm_UpdatedAt updated\<rparr>)
                    remaining claimed s')"

fun claim_schedules ::
  "poll_env \<Rightarrow> Scheduler \<Rightarrow> gotime \<Rightarrow> MessageSchedule list \<Rightarrow> nat \<Rightarrow> MessageSchedule list \<Rightarrow> MemoryStore \<Rightarrow>
   go_error option \<times> MessageSchedule list \<times> MemoryStore" where
  "claim_schedules pe sd now [] remaining claimed s = (None, claimed, s)"
| "claim_schedules pe sd now (m # ms) remaining claimed s =
     (case claim_occurrences pe sd now m remaining claimed s of
        (Some e, remaining', claimed', s') \<Rightarrow> (Some e, claimed', s')
      | (None, remaining', claimed', s') \<Rightarrow>
          if remaining' = 0 then (None, claimed', s') else claim_schedules pe sd now ms remaining' claimed' s')"

definition workbench_filter :: "gotime \<Rightarrow> ReminderFilter" where
  "workbench_filter now = \<lparr>rf_WorkbenchOnly = True, rf_Status = ''pending'', rf_From = None, rf_To = Some now, rf_Limit = int tickBatchLimit\<rparr>"

definition claimWorkbenchDue ::
  "poll_env \<Rightarrow> Scheduler \<Rightarrow> gotime \<Rightarrow> MemoryStore \<Rightarrow> go_error option \<times> MessageSchedule list \<times> MemoryStore" where
  "claimWorkbenchDue pe sd now s = (case registry_List (sd_schedules sd) (pe_list pe) (workbench_filter now) s of
     (Inl e, s') \<Rightarrow> (Some e, [], s')
   | (Inr ms, s') \<Rightarrow> claim_schedules pe sd now ms tickBatchLimit [] s')"

definition claimDue ::
  "poll_env \<Rightarrow> reading \<Rightarrow> Scheduler \<Rightarrow> MemoryStore \<Rightarrow> (MessageSchedule list \<times> go_error option) \<times> Scheduler \<times> MemoryStore" where
  "claimDue pe pulse sd s =
     (case observePollLocked pulse sd of (now, sd) \<Rightarrow>
        let sd = sd\<lparr>sd_unavailable := True\<rparr>
        in case claimWorkbenchDue pe sd now s of
             (Some e, workbench, s) \<Rightarrow> (([], Some e), sd, s)
           | (None, workbench, s) \<Rightarrow>
               (case registry_ClaimDue (sd_schedules sd) (pe_claim pe) now (now - sendingLease) (int tickBatchLimit) s of
                  (Inl e, s) \<Rightarrow> ((workbench, Some e), sd, s)
                | (Inr service, s) \<Rightarrow> ((workbench @ service, None), sd\<lparr>sd_unavailable := False\<rparr>, s)))"

section \<open>Processing\<close>

fun backoff :: "nat \<Rightarrow> duration \<Rightarrow> duration" where
  "backoff 0 delay = delay"
| "backoff (Suc n) delay = (let delay = 2 * delay in if retryMaxDelay \<le> delay then retryMaxDelay else backoff n delay)"

definition retryBackoff :: "int \<Rightarrow> duration" where
  "retryBackoff attempt = backoff (nat (attempt - 1)) retryBaseDelay"

definition retryState :: "go_error option \<Rightarrow> string" where
  "retryState err = (case err of
     None \<Rightarrow> ''blocked''
   | Some e \<Rightarrow> (case retry_state_of e of Some st \<Rightarrow> if st \<noteq> [] then st else ''blocked'' | None \<Rightarrow> ''blocked''))"

definition scheduledEnvelope :: "MessageSchedule \<Rightarrow> string \<Rightarrow> gotime \<Rightarrow> MessageEnvelope" where
  "scheduledEnvelope m dedupeKey createdAt =
     (let i = (if ss_WorkbenchOwned (ms_Spec m) then workbenchOccurrenceID m
               else ''env_'' @ ms_ID m @ ''_'' @ show_int (Unix (ms_DueTime m)))
      in \<lparr>me_SchemaVersion = MessageEnvelopeSchemaVersion, me_ID = i, me_IdempotencyKey = dedupeKey,
          me_CorrelationID = ms_SessionID m, me_CausationID = ms_RunID m,
          me_Source = \<lparr>sc_Kind = ''timer'', sc_Adapter = ''timer'', sc_EndpointID = [], sc_NativeMessageID = [],
            sc_NativeThreadRef = [], sc_ScheduleID = ms_ID m\<rparr>,
          me_OwnerID = ss_OwnerID (ms_Spec m), me_ActorID = ss_ActorID (ms_Spec m), me_Content = sp_Content (ss_Payload (ms_Spec m)),
          me_MediaLocators = [], me_ReturnRoute = ss_ReturnRoute (ms_Spec m), me_Authorization = ss_Authorization (ms_Spec m),
          me_CreatedAt = createdAt\<rparr>)"

text \<open>What processing one schedule needs from outside: the instants \<open>s.now\<close> returns, the answer of the publisher,
  whether the context of the job is done, and the contexts and environments of the repository calls.\<close>

record job_env =
  je_platform :: platform
  je_random :: "8 word list option"
  je_created :: gotime
  je_envelope :: gotime
  je_sent :: gotime
  je_publish :: "MessageEnvelope \<Rightarrow> go_error option"
  je_done :: bool
  je_save :: "op_ctx \<times> op_env"
  je_get :: op_ctx
  je_rearm :: gotime
  je_resave :: "op_ctx \<times> op_env"

definition rearm :: "job_env \<Rightarrow> Scheduler \<Rightarrow> string \<Rightarrow> ReminderDelivery \<Rightarrow> MemoryStore \<Rightarrow> go_error option \<times> MemoryStore" where
  "rearm je sd i d s = (case GetReminder (je_get je) i s of
     (Inl e, s) \<Rightarrow> (Some e, s)
   | (Inr None, s) \<Rightarrow> (None, s)
   | (Inr (Some r), s) \<Rightarrow>
       let now = je_rearm je;
           save = (\<lambda>r. case SaveReminder (fst (je_resave je)) (snd (je_resave je)) (r\<lparr>rm_UpdatedAt := now\<rparr>) s of
             (Inl e, s') \<Rightarrow> (Some e, s') | (Inr _, s') \<Rightarrow> (None, s'))
       in if rd_Status d = ''sent'' \<and> TrimSpace (rm_Recurrence r) \<noteq> []
          then (case nextOccurrence (je_platform je) (rm_Recurrence r) (rm_Timezone r) (rm_DueTime r) now of
              None \<Rightarrow> (None, s)
            | Some n \<Rightarrow> save (r\<lparr>rm_Status := ''pending'', rm_DueTime := n, rm_DeliveryAttempt := 0, rm_LastError := []\<rparr>))
          else if rd_Status d = ''failed'' \<and> rd_RetryState d = ''retryable''
          then (if sd_maxDeliveryAttempts sd \<le> rd_Attempt d then (None, s)
                else save (r\<lparr>rm_Status := ''pending'', rm_DueTime := now + retryBackoff (rd_Attempt d)\<rparr>))
          else (None, s))"

definition dedupe_key :: "MessageSchedule \<Rightarrow> string" where
  "dedupe_key m =
     (if ss_WorkbenchOwned (ms_Spec m) then workbenchOccurrenceID m
      else if TrimSpace (ms_Recurrence m) \<noteq> [] \<and> ms_DedupeKey m \<noteq> []
      then ms_DedupeKey m @ ''@'' @ show_int (Unix (ms_DueTime m)) else ms_DedupeKey m)"

text \<open>The record a failed save returns.\<close>

definition zero_delivery :: ReminderDelivery where
  "zero_delivery = \<lparr>rd_ID = [], rd_ReminderID = [], rd_Channel = [], rd_Provider = [], rd_Recipient = [], rd_Status = [],
     rd_ProviderStatus = [], rd_Error = [], rd_RetryState = [], rd_Attempt = 0, rd_SentAt = 0, rd_CreatedAt = 0\<rparr>"

text \<open>The delivery record of a publication, before it is saved.\<close>

definition job_record :: "job_env \<Rightarrow> Scheduler \<Rightarrow> MessageSchedule \<Rightarrow> ReminderDelivery" where
  "job_record je sd m =
     (let d = \<lparr>rd_ID = NewID (je_random je) ''rdel'', rd_ReminderID = ms_ID m, rd_Channel = [], rd_Provider = ''message-runtime'',
                rd_Recipient = [], rd_Status = ''sent'', rd_ProviderStatus = ''published'', rd_Error = [], rd_RetryState = ''none'',
                rd_Attempt = wrap64 (ms_DeliveryAttempt m + 1), rd_SentAt = 0, rd_CreatedAt = je_created je\<rparr>;
          d = (if ss_WorkbenchOwned (ms_Spec m) then d\<lparr>rd_ID := workbenchOccurrenceID m\<rparr> else d);
          failed = (\<lambda>text retry. d\<lparr>rd_Status := ''failed'', rd_ProviderStatus := ''failed'', rd_Error := text, rd_RetryState := retry\<rparr>);
          d = (if \<not> sd_publisher sd then failed ''scheduled message publisher is unavailable'' ''blocked''
               else case je_publish je (scheduledEnvelope m (dedupe_key m) (je_envelope je)) of
                 None \<Rightarrow> d | Some e \<Rightarrow> failed (error_text e) (retryState (Some e)));
          d = (if ss_WorkbenchOwned (ms_Spec m) \<and> rd_Status d = ''failed''
               then d\<lparr>rd_Status := ''unknown'', rd_ProviderStatus := ''unknown'', rd_RetryState := ''reconcile''\<rparr> else d)
      in if rd_Status d = ''sent'' \<and> IsZero (rd_SentAt d) then d\<lparr>rd_SentAt := je_sent je\<rparr> else d)"

definition process ::
  "job_env \<Rightarrow> Scheduler \<Rightarrow> MessageSchedule \<Rightarrow> MemoryStore \<Rightarrow> (ReminderDelivery \<times> go_error option) \<times> MemoryStore" where
  "process je sd m s =
     (let d = job_record je sd m
      in if rd_Status d = ''failed'' \<and> je_done je then ((d, None), s)
         else case SaveReminderDelivery (fst (je_save je)) (snd (je_save je)) d s of
           (Inl e, s') \<Rightarrow> ((zero_delivery, Some e), s')
         | (Inr d, s') \<Rightarrow>
             if ss_WorkbenchOwned (ms_Spec m) then ((d, None), s')
             else (case rearm je sd (ms_ID m) d s' of (err, s'') \<Rightarrow> ((d, err), s'')))"

text \<open>\<open>Tick\<close>: claim, then process one after the other, stopping at the first error.\<close>

fun process_all ::
  "(nat \<Rightarrow> job_env) \<Rightarrow> nat \<Rightarrow> Scheduler \<Rightarrow> MessageSchedule list \<Rightarrow> MemoryStore \<Rightarrow> ReminderDelivery list \<times> go_error option \<times> MemoryStore" where
  "process_all je n sd [] s = ([], None, s)"
| "process_all je n sd (m # ms) s = (case process (je n) sd m s of
     ((d, Some e), s') \<Rightarrow> ([], Some e, s')
   | ((d, None), s') \<Rightarrow> (case process_all je (Suc n) sd ms s' of (ds, err, s'') \<Rightarrow> (d # ds, err, s'')))"

definition Tick ::
  "poll_env \<Rightarrow> (nat \<Rightarrow> job_env) \<Rightarrow> reading \<Rightarrow> Scheduler \<Rightarrow> MemoryStore \<Rightarrow>
   (ReminderDelivery list \<times> go_error option) \<times> Scheduler \<times> MemoryStore" where
  "Tick pe je pulse sd s = (case claimDue pe pulse sd s of ((due, claimErr), sd, s) \<Rightarrow>
     if claimErr \<noteq> None \<and> due = [] then (([], claimErr), sd, s)
     else (case process_all je 0 sd due s of
         (ds, Some e, s) \<Rightarrow> ((ds, Some e), sd, s)
       | (ds, None, s) \<Rightarrow> ((ds, claimErr), sd, s)))"

end
