(* ===== verification/Scheduler.thy ===== *)
theory Scheduler
  imports Scheduler_Operations Schedules
begin

text \<open>
  What the timer runtime guarantees over the schedule repository: workbench occurrences are submitted only inside the
  availability window and each at most once, an offline boundary runs no backlog, retries back off exponentially up to
  a cap and end, and what a recurrence that overflows does to a poll.
\<close>

section \<open>Occurrences\<close>

lemma open_advance:
  assumes "AdvanceWorkbenchSchedule cx env i t next occ s = (Inr u, s')"
  shows "mget (st_reminderDelivery s) (rd_ID occ) = None"
    and "\<exists>d. st_reminderDelivery s' = mput (rd_ID occ) d (st_reminderDelivery s) \<and> rd_Status d = rd_Status occ \<and> rd_ReminderID d = rd_ReminderID occ"
    and "schedule_step s s'"
proof -
  obtain c d where c: "mget (st_reminderDelivery s) (rd_ID occ) = None"
      and p: "prepareWorkbenchAdvance (en_rand env) c next occ (en_now env) = Inr (u, d)"
      and s': "s' = advance_store env i (rm_DueTime c) u d s"
    using AdvanceWorkbenchSchedule_cases [OF assms] by auto
  note ok = prepareWorkbenchAdvance_ok [OF p]
  show "mget (st_reminderDelivery s) (rd_ID occ) = None" by (rule c)
  show "\<exists>d. st_reminderDelivery s' = mput (rd_ID occ) d (st_reminderDelivery s) \<and> rd_Status d = rd_Status occ \<and> rd_ReminderID d = rd_ReminderID occ"
    by (intro exI [of _ d]) (simp add: s' advance_store_def ok(8) ok(9) [unfolded ok(8)])
  show "schedule_step s s'" by (rule step_advance [OF assms])
qed

text \<open>What the occurrences claimed so far satisfy, from the store \<open>s0\<close> of the poll to the store \<open>s\<close> it has reached.\<close>

definition claims_ok :: "Scheduler \<Rightarrow> gotime \<Rightarrow> MemoryStore \<Rightarrow> MessageSchedule list \<Rightarrow> MemoryStore \<Rightarrow> bool" where
  "claims_ok sd now s0 claimed s \<longleftrightarrow>
     distinct (map workbenchOccurrenceID claimed) \<and>
     (\<forall>m \<in> set claimed. sd_publisher sd \<and> sd_eligibleAfter sd < ms_DueTime m \<and> ms_DueTime m \<le> now \<and>
        mget (st_reminderDelivery s0) (workbenchOccurrenceID m) = None \<and>
        (\<exists>d. mget (st_reminderDelivery s) (workbenchOccurrenceID m) = Some d \<and> rd_Status d = ''submitted'' \<and> rd_ReminderID d = ms_ID m)) \<and>
     (\<forall>i. mget (st_reminderDelivery s0) i \<noteq> None \<longrightarrow> mget (st_reminderDelivery s) i = mget (st_reminderDelivery s0) i) \<and>
     (\<forall>i d. mget (st_reminderDelivery s0) i = None \<and> mget (st_reminderDelivery s) i = Some d \<longrightarrow>
        rd_Status d = ''missed'' \<or> i \<in> workbenchOccurrenceID ` set claimed)"

lemma claims_ok_init: "claims_ok sd now s [] s"
  by (auto simp: claims_ok_def)

lemma claims_ok_advance:
  assumes "claims_ok sd now s0 claimed s" and "ms_DueTime m \<le> now"
    and "AdvanceWorkbenchSchedule cx env (ms_ID m) t next (occurrence_record now (occurrence_status sd m) m) s = (Inr u, s')"
  shows "claims_ok sd now s0 (if occurrence_status sd m = ''submitted'' then claimed @ [m] else claimed) s'"
proof -
  let ?i = "workbenchOccurrenceID m"
  have i: "rd_ID (occurrence_record now (occurrence_status sd m) m) = ?i"
    "rd_Status (occurrence_record now (occurrence_status sd m) m) = occurrence_status sd m"
    "rd_ReminderID (occurrence_record now (occurrence_status sd m) m) = ms_ID m"
    by (simp_all add: occurrence_record_def)
  note adv = open_advance [OF assms(3), unfolded i]
  obtain d where d: "st_reminderDelivery s' = mput ?i d (st_reminderDelivery s)" "rd_Status d = occurrence_status sd m" "rd_ReminderID d = ms_ID m"
    using adv(2) by blast
  have old: "mget (st_reminderDelivery s') j = mget (st_reminderDelivery s) j" if "mget (st_reminderDelivery s) j \<noteq> None" for j
    using that adv(1) d(1) by (cases "j = ?i") auto
  have fresh: "mget (st_reminderDelivery s0) ?i = None" "?i \<notin> workbenchOccurrenceID ` set claimed"
    using assms(1) adv(1) unfolding claims_ok_def by force+
  have earlier: "\<forall>x \<in> set claimed. sd_publisher sd \<and> sd_eligibleAfter sd < ms_DueTime x \<and> ms_DueTime x \<le> now \<and>
      mget (st_reminderDelivery s0) (workbenchOccurrenceID x) = None \<and>
      (\<exists>d. mget (st_reminderDelivery s') (workbenchOccurrenceID x) = Some d \<and> rd_Status d = ''submitted'' \<and> rd_ReminderID d = ms_ID x)"
    "\<forall>j. mget (st_reminderDelivery s0) j \<noteq> None \<longrightarrow> mget (st_reminderDelivery s') j = mget (st_reminderDelivery s0) j"
    using assms(1) old unfolding claims_ok_def by (metis option.distinct(1))+
  have status: "occurrence_status sd m = ''submitted'' \<or> occurrence_status sd m = ''missed''" by (simp add: occurrence_status_def)
  have new: "rd_Status x = ''missed'' \<or> j \<in> workbenchOccurrenceID ` set claimed \<or> j = ?i \<and> occurrence_status sd m = ''submitted''"
    if "mget (st_reminderDelivery s0) j = None" "mget (st_reminderDelivery s') j = Some x" for j x
  proof (cases "j = ?i")
    case True
    then show ?thesis using that(2) d status by auto
  next
    case False
    then have "mget (st_reminderDelivery s) j = Some x" using that(2) d(1) by simp
    then show ?thesis using assms(1) that(1) unfolding claims_ok_def by blast
  qed
  let ?c = "if occurrence_status sd m = ''submitted'' then claimed @ [m] else claimed"
  have online: "sd_publisher sd \<and> sd_eligibleAfter sd < ms_DueTime m" if "occurrence_status sd m = ''submitted''"
    using that by (simp add: occurrence_status_def split: if_splits)
  have "distinct (map workbenchOccurrenceID ?c)" using assms(1) fresh(2) unfolding claims_ok_def by auto
  moreover have "\<forall>x \<in> set ?c. sd_publisher sd \<and> sd_eligibleAfter sd < ms_DueTime x \<and> ms_DueTime x \<le> now \<and>
      mget (st_reminderDelivery s0) (workbenchOccurrenceID x) = None \<and>
      (\<exists>d. mget (st_reminderDelivery s') (workbenchOccurrenceID x) = Some d \<and> rd_Status d = ''submitted'' \<and> rd_ReminderID d = ms_ID x)"
    using earlier(1) online fresh(1) d assms(2) by auto
  moreover note earlier(2)
  moreover have "\<forall>j x. mget (st_reminderDelivery s0) j = None \<and> mget (st_reminderDelivery s') j = Some x \<longrightarrow>
      rd_Status x = ''missed'' \<or> j \<in> workbenchOccurrenceID ` set ?c"
    using new by auto
  ultimately show ?thesis unfolding claims_ok_def by blast
qed

lemma claim_occurrences_ok:
  assumes "claim_occurrences pe sd now m n claimed s = (err, n', claimed', s')" and "claims_ok sd now s0 claimed s"
  shows "claims_ok sd now s0 claimed' s' \<and> length claimed' + n' \<le> length claimed + n \<and> schedule_step\<^sup>*\<^sup>* s s'"
  using assms
proof (induction pe sd now m n claimed s rule: claim_occurrences.induct)
  case (2 pe sd now m remaining claimed s)
  let ?occ = "occurrence_record now (occurrence_status sd m) m" and ?next = "next_or_zero (pe_platform pe) m"
  show ?case
  proof (cases "now < ms_DueTime m")
    case True
    then show ?thesis using "2.prems" by simp
  next
    case False
    obtain res t where adv: "AdvanceWorkbenchSchedule (pe_advance pe remaining) (pe_write pe remaining) (ms_ID m) (ms_UpdatedAt m) ?next ?occ s = (res, t)"
      by (cases "AdvanceWorkbenchSchedule (pe_advance pe remaining) (pe_write pe remaining) (ms_ID m) (ms_UpdatedAt m) ?next ?occ s")
    show ?thesis
    proof (cases res)
      case (Inl e)
      then have "t = s" using adv advance_workbench.error_frame by blast
      then show ?thesis
        using "2.prems" False adv Inl by (auto simp: Let_def split: if_splits)
    next
      case (Inr u)
      let ?c = "if occurrence_status sd m = ''submitted'' then claimed @ [m] else claimed"
      have ok: "claims_ok sd now s0 ?c t"
        using claims_ok_advance [OF "2.prems"(2) _ adv [unfolded Inr]] False by simp
      have step: "schedule_step s t" using open_advance(3) adv Inr by blast
      show ?thesis
      proof (cases "?next = 0")
        case True
        then show ?thesis
          using "2.prems"(1) False adv Inr ok step by (auto simp: Let_def split: if_splits)
      next
        case nz: False
        let ?m = "m\<lparr>ms_DueTime := rm_DueTime u, ms_UpdatedAt := rm_UpdatedAt u\<rparr>"
        have rec: "claim_occurrences pe sd now ?m remaining ?c t = (err, n', claimed', s')"
          using "2.prems"(1) False adv Inr nz by (simp add: Let_def)
        note IH = "2.IH" [OF False refl refl refl adv [symmetric] Inr refl nz rec ok]
        then show ?thesis using step by (auto intro: converse_rtranclp_into_rtranclp split: if_splits)
      qed
    qed
  qed
qed simp

lemma claim_schedules_ok:
  assumes "claim_schedules pe sd now ms n claimed s = (err, claimed', s')" and "claims_ok sd now s0 claimed s"
  shows "claims_ok sd now s0 claimed' s' \<and> length claimed' \<le> length claimed + n \<and> schedule_step\<^sup>*\<^sup>* s s'"
  using assms
proof (induction ms arbitrary: n claimed s)
  case (Cons m ms)
  obtain e n1 c1 s1 where one: "claim_occurrences pe sd now m n claimed s = (e, n1, c1, s1)"
    by (metis prod_cases4)
  note ok = claim_occurrences_ok [OF one Cons.prems(2)]
  show ?case
  proof (cases "e = None \<and> n1 \<noteq> 0")
    case True
    then have "claim_schedules pe sd now ms n1 c1 s1 = (err, claimed', s')" using Cons.prems(1) one by simp
    from Cons.IH [OF this] ok show ?thesis by (meson le_trans rtranclp_trans)
  next
    case False
    then have "claimed' = c1 \<and> s' = s1" using Cons.prems(1) one by (cases e) auto
    then show ?thesis using ok by auto
  qed
qed simp

lemma ListReminders_frame: "ListReminders cx flt s = (res, s') \<Longrightarrow> s' = s"
  by (auto simp: ListReminders_def framed_def checked_def split: option.splits)

lemma registry_List_frame: "registry_List b cx flt s = (res, s') \<Longrightarrow> s' = s"
  by (auto simp: registry_List_def dest: ListReminders_frame split: if_splits prod.splits sum.splits)

lemma claimWorkbenchDue_ok:
  assumes "claimWorkbenchDue pe sd now s = (err, claimed, s')"
  shows "claims_ok sd now s claimed s'" and "length claimed \<le> tickBatchLimit" and "schedule_step\<^sup>*\<^sup>* s s'"
proof -
  obtain res t where l: "registry_List (sd_schedules sd) (pe_list pe) (workbench_filter now) s = (res, t)" by (metis surj_pair)
  then have t: "t = s" by (rule registry_List_frame)
  have "claims_ok sd now s claimed s' \<and> length claimed \<le> tickBatchLimit \<and> schedule_step\<^sup>*\<^sup>* s s'"
  proof (cases res)
    case (Inl e)
    then show ?thesis using assms l t by (simp add: claimWorkbenchDue_def claims_ok_init)
  next
    case (Inr ms)
    then have "claim_schedules pe sd now ms tickBatchLimit [] s = (err, claimed, s')"
      using assms l t by (simp add: claimWorkbenchDue_def)
    from claim_schedules_ok [OF this claims_ok_init] show ?thesis by simp
  qed
  then show "claims_ok sd now s claimed s'" "length claimed \<le> tickBatchLimit" "schedule_step\<^sup>*\<^sup>* s s'" by blast+
qed

lemma offline_claims_nothing:
  assumes "claimWorkbenchDue pe sd now s = (err, claimed, s')" and "sd_eligibleAfter sd = now \<or> \<not> sd_publisher sd"
  shows "claimed = []"
proof (rule ccontr)
  assume "claimed \<noteq> []"
  then obtain m where "m \<in> set claimed" by (cases claimed) auto
  then show False using claimWorkbenchDue_ok(1) [OF assms(1)] assms(2) unfolding claims_ok_def by force
qed

text \<open>The listed schedules are those of stored reminders.\<close>

lemma schedules_of_member: "m \<in> set (schedules_of rs) \<longleftrightarrow> (\<exists>r \<in> set rs. fromReminder r = Some m)"
  by (induction rs) (auto simp: schedules_of_def map_filter_simps split: option.splits)

lemma fromReminder_Some:
  "fromReminder r = Some m \<Longrightarrow> rm_ScheduleSpec r = Some (ms_Spec m) \<and> ms_ID m = rm_ID r \<and> ms_DueTime m = rm_DueTime r \<and>
     ms_DeliveryAttempt m = rm_DeliveryAttempt r \<and> ms_Recurrence m = rm_Recurrence r \<and> ms_UpdatedAt m = rm_UpdatedAt r \<and> ms_Timezone m = rm_Timezone r"
  by (auto simp: fromReminder_def Let_def split: option.splits if_splits)

lemma listed_reminder:
  assumes "registry_List b cx flt s = (Inr ms, s')" and "m \<in> set ms"
  obtains r where "r \<in> set (mvals (st_reminders s))" "reminder_selected flt r" "fromReminder r = Some m"
proof -
  have "m \<in> set (schedules_of (clip (normalizeReminderQueryLimit (rf_Limit flt))
      (sortReminders (filter (reminder_selected flt) (mvals (st_reminders s))))))"
    using assms by (auto simp: registry_List_def ListReminders_def framed_def checked_def split: if_splits option.splits)
  then obtain r where "r \<in> set (filter (reminder_selected flt) (mvals (st_reminders s)))" "fromReminder r = Some m"
    using set_clip_subset by (fastforce simp: schedules_of_member sortReminders_def)
  then show thesis using that by auto
qed

text \<open>While the repository answers, the first schedule of the list has its occurrence recorded, unless it was before.\<close>

lemma advance_answers:
  assumes "AdvanceWorkbenchSchedule open_ctx env i t next occ s = (Inl e, s')" and "mget (st_reminders s) i = Some r"
    and "rm_Status r = ''pending''" and "rm_UpdatedAt r = postgresTime t" and "mget (st_reminderDelivery s) (rd_ID occ) = None"
  shows "\<not> err_is e ErrReminderConflict"
  using assms
  by (auto simp: AdvanceWorkbenchSchedule_def framed_def checked_def prepareWorkbenchAdvance_def storeError_def Let_def split: if_splits)

lemma first_occurrence_recorded:
  assumes "claim_occurrences pe sd now m (Suc n) [] s = (None, n', claimed, s')" and "\<forall>k. pe_advance pe k = open_ctx"
    and "mget (st_reminders s) (ms_ID m) = Some r" and "rm_Status r = ''pending''" and "rm_UpdatedAt r = postgresTime (ms_UpdatedAt m)"
    and "ms_DueTime m \<le> now" and "sd_eligibleAfter sd = now"
  shows "mget (st_reminderDelivery s') (workbenchOccurrenceID m) \<noteq> None"
proof (cases "mget (st_reminderDelivery s) (workbenchOccurrenceID m)")
  case (Some d)
  then show ?thesis using claim_occurrences_ok [OF assms(1) claims_ok_init] unfolding claims_ok_def by simp
next
  case None
  let ?occ = "occurrence_record now (occurrence_status sd m) m" and ?next = "next_or_zero (pe_platform pe) m"
  obtain res t where adv: "AdvanceWorkbenchSchedule open_ctx (pe_write pe n) (ms_ID m) (ms_UpdatedAt m) ?next ?occ s = (res, t)"
    by (metis surj_pair)
  have i: "rd_ID ?occ = workbenchOccurrenceID m" by (simp add: occurrence_record_def)
  have late: "occurrence_status sd m = ''missed''" using assms(6,7) by (simp add: occurrence_status_def)
  show ?thesis
  proof (cases res)
    case (Inl e)
    then have "\<not> err_is e ErrReminderConflict" using advance_answers [OF _ assms(3-5), of _ ?next ?occ] adv None i by simp
    then show ?thesis using assms(1,2,6) adv Inl by (simp add: Let_def)
  next
    case (Inr u)
    have "mget (st_reminderDelivery t) (workbenchOccurrenceID m) \<noteq> None" using open_advance(2) [OF adv [unfolded Inr]] i by auto
    moreover have "t = s' \<or> (\<exists>m'. claim_occurrences pe sd now m' n [] t = (None, n', claimed, s'))"
      using assms(1,2,6) adv Inr late by (auto simp: Let_def split: if_splits)
    then have "mget (st_reminderDelivery t) j \<noteq> None \<longrightarrow> mget (st_reminderDelivery s') j = mget (st_reminderDelivery t) j" for j
      using claim_occurrences_ok [OF _ claims_ok_init] unfolding claims_ok_def by blast
    ultimately show ?thesis by metis
  qed
qed

lemma first_listed_recorded:
  assumes "schedules_inv s" and "claimWorkbenchDue pe sd now s = (None, claimed, s')" and "\<forall>k. pe_advance pe k = open_ctx"
    and "registry_List (sd_schedules sd) (pe_list pe) (workbench_filter now) s = (Inr (m # ms), s)" and "sd_eligibleAfter sd = now"
  shows "mget (st_reminderDelivery s') (workbenchOccurrenceID m) \<noteq> None"
proof -
  obtain r where r: "r \<in> set (mvals (st_reminders s))" "reminder_selected (workbench_filter now) r" "fromReminder r = Some m"
    using listed_reminder [OF assms(4)] by auto
  have got: "mget (st_reminders s) (ms_ID m) = Some r"
    using keyed_vals [OF schedules_inv_keyed [OF assms(1)]] r(1) fromReminder_Some [OF r(3)] by simp
  have upd: "rm_UpdatedAt r = postgresTime (ms_UpdatedAt m)"
    using schedules_inv_get [OF assms(1) got] fromReminder_Some [OF r(3)] by (simp add: whole_reminder_def)
  have due: "ms_DueTime m \<le> now" "rm_Status r = ''pending''"
    using r(2) fromReminder_Some [OF r(3)] by (simp_all add: reminder_selected_def workbench_filter_def)
  have run: "claim_schedules pe sd now (m # ms) 50 [] s = (None, claimed, s')"
    using assms(2,4) by (simp add: claimWorkbenchDue_def)
  obtain e n1 c1 s1 where one: "claim_occurrences pe sd now m 50 [] s = (e, n1, c1, s1)" by (metis prod_cases4)
  have e: "e = None" using run one by (cases e) auto
  have first: "mget (st_reminderDelivery s1) (workbenchOccurrenceID m) \<noteq> None"
    by (rule first_occurrence_recorded [of pe sd now m 49 s n1 c1, OF _ assms(3) got due(2) upd due(1) assms(5)])
       (use one e in \<open>simp add: numeral_eq_Suc\<close>)
  have none: "c1 = []"
    using claim_occurrences_ok [OF one claims_ok_init] assms(5) unfolding claims_ok_def by (cases c1) auto
  have "s' = s1 \<or> claim_schedules pe sd now ms n1 [] s1 = (None, claimed, s')"
    using run one e none by (auto split: if_splits)
  then show ?thesis using first claim_schedules_ok [OF _ claims_ok_init] unfolding claims_ok_def by metis
qed

section \<open>Service schedules\<close>

lemma service_not_workbench:
  assumes "schedules_inv s" and "registry_ClaimDue b cx now stale limit s = (Inr ms, s')" and "m \<in> set ms"
  shows "\<not> ss_WorkbenchOwned (ms_Spec m)"
proof -
  obtain rs where "ClaimDueReminders cx now stale limit s = (Inr rs, s')" and ms: "ms = schedules_of rs"
    using assms(2) by (auto simp: registry_ClaimDue_def split: if_splits prod.splits sum.splits)
  then have rs: "rs = map (claim_of (postgresTime now)) (due_batch now stale limit s)"
    using ClaimDueReminders_cases by blast
  obtain r where r: "r \<in> set (due_batch now stale limit s)" "fromReminder (claim_of (postgresTime now) r) = Some m"
    using assms(3) by (auto simp: ms rs schedules_of_member)
  have "\<not> isWorkbenchReminder r"
    using due_batch_members(2) [OF schedules_inv_keyed [OF assms(1)] r(1)] by (simp add: claimable_def)
  then show ?thesis using fromReminder_Some [OF r(2)] by (simp add: isWorkbenchReminder_def)
qed

lemma registry_ClaimDue_frame:
  "registry_ClaimDue b cx now stale limit s = (res, s') \<Longrightarrow> st_reminderDelivery s' = st_reminderDelivery s"
  by (auto simp: registry_ClaimDue_def ClaimDueReminders_def framed_def checked_def Let_def split: if_splits prod.splits sum.splits option.splits)

section \<open>Retries\<close>

lemma backoff_exact: "1 \<le> j \<Longrightarrow> 2 ^ j * Minute \<le> 30 * Minute \<Longrightarrow> backoff n (2 ^ j * Minute) = min (30 * Minute) (2 ^ (n + j) * Minute)"
proof (induction n arbitrary: j)
  case (Suc n)
  have e: "2 * (2 ^ j * Minute) = (2 ^ Suc j * Minute :: int)" by simp
  show ?case
  proof (cases "30 * Minute \<le> (2 ^ Suc j * Minute :: int)")
    case True
    have "(2 :: int) ^ Suc j \<le> 2 ^ (Suc n + j)" by (intro power_increasing) simp_all
    then have "(30 * Minute :: int) \<le> 2 ^ (Suc n + j) * Minute" using True by linarith
    then show ?thesis using True by (simp only: backoff.simps Let_def e if_True min.absorb1)
  next
    case False
    then have "backoff n (2 ^ Suc j * Minute) = min (30 * Minute) (2 ^ (n + Suc j) * Minute)" by (intro Suc.IH) simp_all
    then show ?thesis using False by (simp only: backoff.simps Let_def e if_False add_Suc_right add_Suc)
  qed
qed simp

lemma retryBackoff_eq: "retryBackoff attempt = min (30 * Minute) (2 ^ nat (attempt - 1) * Minute)"
proof (cases "nat (attempt - 1)")
  case (Suc n)
  have "backoff (Suc n) Minute = backoff n (2 ^ 1 * Minute)" by simp
  then show ?thesis using backoff_exact [of 1 n] Suc by (simp add: retryBackoff_def del: backoff.simps)
qed (simp add: retryBackoff_def)

text \<open>A failed publication: the record, the delivery and the re-armed reminder.\<close>

lemma failed_record:
  assumes "sd_publisher sd" and "\<not> ss_WorkbenchOwned (ms_Spec m)"
    and "je_publish je (scheduledEnvelope m (dedupe_key m) (je_envelope je)) = Some e"
  shows "rd_Status (job_record je sd m) = ''failed''" and "rd_RetryState (job_record je sd m) = retryState (Some e)"
    and "rd_ReminderID (job_record je sd m) = ms_ID m" and "rd_Attempt (job_record je sd m) = wrap64 (ms_DeliveryAttempt m + 1)"
  using assms by (simp_all add: job_record_def Let_def)

lemma prepared_delivery_fields:
  "rd_Attempt (prepareReminderDelivery random d now) = rd_Attempt d"
  "rd_RetryState (prepareReminderDelivery random d now) = rd_RetryState d"
  by (simp_all add: prepareReminderDelivery_def normalizeReminderDelivery_def Let_def)

lemma save_delivery_open:
  fixes env :: op_env
  assumes "mget (st_reminders s) (rd_ReminderID d) = Some r"
  defines "now \<equiv> postgresTime (en_now env)"
  shows "SaveReminderDelivery open_ctx env d s = (Inr (prepareReminderDelivery (en_rand env) d now),
    delivery_store env (prepareReminderDelivery (en_rand env) d now) (delivered_reminder now (prepareReminderDelivery (en_rand env) d now) r) s)"
  using assms(1) by (simp add: SaveReminderDelivery_def framed_def checked_def now_def delivery_store_def Let_def)

lemma delivery_store_reminders: "st_reminders (delivery_store env d r s) = mput (rm_ID r) r (st_reminders s)"
  by (simp add: delivery_store_def)

lemma save_reminder_open:
  "SaveReminder open_ctx env r s = (Inr (prepareReminder (en_rand env) r (en_now env)), record_reminder env (prepareReminder (en_rand env) r (en_now env)) s)"
  by (simp add: SaveReminder_def framed_def checked_def Let_def)

lemma prepared_reminder_fields:
  "TrimSpace (rm_ID r) \<noteq> [] \<Longrightarrow> rm_ID (prepareReminder random r now) = rm_ID r"
  "rm_Status r \<noteq> [] \<Longrightarrow> rm_Status (prepareReminder random r now) = rm_Status r"
  "rm_DueTime (prepareReminder random r now) = postgresTime (rm_DueTime r)"
  "rm_DeliveryAttempt (prepareReminder random r now) = rm_DeliveryAttempt r"
  by (simp_all add: prepareReminder_def normalizeReminder_def Let_def)

section \<open>Properties\<close>

text \<open>C20: workbench occurrences are claimed at most once and only while available. A poll claims at most 50 occurrences, all due
  by now and after the start of the current availability window, with a publisher present; each was recorded by nobody
  before and is recorded as submitted when the poll ends, even when the poll fails; no two of them are the same and no
  earlier record is touched.\<close>

theorem workbench_claims_once:
  assumes "claimWorkbenchDue pe sd now s = (err, claimed, s')"
  shows "length claimed \<le> 50 \<and> distinct (map workbenchOccurrenceID claimed) \<and>
    (\<forall>m \<in> set claimed. sd_publisher sd \<and> sd_eligibleAfter sd < ms_DueTime m \<and> ms_DueTime m \<le> now \<and>
      mget (st_reminderDelivery s) (workbenchOccurrenceID m) = None \<and>
      (\<exists>d. mget (st_reminderDelivery s') (workbenchOccurrenceID m) = Some d \<and> rd_Status d = ''submitted'' \<and> rd_ReminderID d = ms_ID m)) \<and>
    (\<forall>i. mget (st_reminderDelivery s) i \<noteq> None \<longrightarrow> mget (st_reminderDelivery s') i = mget (st_reminderDelivery s) i) \<and>
    schedule_step\<^sup>*\<^sup>* s s'"
  using claimWorkbenchDue_ok [OF assms] unfolding claims_ok_def by blast

definition open_poll :: poll_env where
  "open_poll = \<lparr>pe_platform = plain_platform, pe_list = open_ctx, pe_advance = (\<lambda>n. open_ctx), pe_write = (\<lambda>n. sample_env), pe_claim = open_ctx\<rparr>"

lemma workbench_occurrence:
  obtains m where "fromReminder workbench_reminder = Some m" "ms_DueTime m = 2000" "ms_ID m = ''rem1''" "ms_UpdatedAt m = 1000"
    "registry_List True open_ctx (workbench_filter 3000) workbench_store = (Inr [m], workbench_store)"
proof -
  have "\<exists>m. fromReminder workbench_reminder = Some m"
    by (simp add: fromReminder_def workbench_reminder_def Let_def)
  then obtain m where m: "fromReminder workbench_reminder = Some m" ..
  have f: "ms_DueTime m = 2000" "ms_ID m = ''rem1''" "ms_UpdatedAt m = 1000"
    using fromReminder_Some [OF m]
    by (simp_all add: workbench_reminder_def sample_reminder_def)
  have sel: "reminder_selected (workbench_filter 3000) workbench_reminder"
    by (simp add: reminder_selected_def workbench_filter_def workbench_reminder_def isWorkbenchReminder_def sample_reminder_def)
  have "clip (normalizeReminderQueryLimit 50) (sortReminders [workbench_reminder]) = [workbench_reminder]"
    by (simp add: clip_def normalizeReminderQueryLimit_def sortReminders_def SortFunc_def)
  then have "registry_List True open_ctx (workbench_filter 3000) workbench_store = (Inr [m], workbench_store)"
    using m sel by (simp add: registry_List_def ListReminders_def framed_def checked_def workbench_store_saved workbench_filter_def schedules_of_def)
  then show thesis by (rule that [OF m f])
qed

lemma workbench_advanced:
  assumes "ms_ID m = ''rem1''" and "ms_UpdatedAt m = 1000" and "status = ''missed'' \<or> status = ''submitted''"
    and "TrimSpace (workbenchOccurrenceID m) \<noteq> []"
  shows "\<exists>u s'. AdvanceWorkbenchSchedule open_ctx sample_env (ms_ID m) (ms_UpdatedAt m) 0 (occurrence_record now status m) workbench_store = (Inr u, s')"
proof -
  have r: "rm_Status workbench_reminder = ''pending''" "rm_UpdatedAt workbench_reminder = 1000" "isWorkbenchReminder workbench_reminder"
    "rm_ID workbench_reminder = ''rem1''"
    by (simp_all add: workbench_reminder_def sample_reminder_def isWorkbenchReminder_def)
  have "postgresTime 1000 = 1000" by code_simp
  then show ?thesis
    using assms r
    by (simp add: AdvanceWorkbenchSchedule_def framed_def checked_def workbench_store_saved prepareWorkbenchAdvance_def occurrence_record_def Let_def)
qed

lemma workbench_next:
  assumes "fromReminder workbench_reminder = Some m"
  shows "next_or_zero plain_platform m = 0"
proof -
  have "TrimSpace [] = []" by code_simp
  then have "parseRecurrence plain_platform [] = None" by (simp add: parseRecurrence_def ToLower_def is_ascii_def)
  moreover have "ms_Recurrence m = []"
    using fromReminder_Some [OF assms] by (simp add: workbench_reminder_def sample_reminder_def)
  ultimately show ?thesis by (simp add: next_or_zero_def nextOccurrence_def)
qed

lemma workbench_poll:
  obtains m where "fromReminder workbench_reminder = Some m" "workbenchOccurrenceID m = ''env_rem1_-6795364578871343152''"
    "registry_List True open_ctx (workbench_filter 3000) workbench_store = (Inr [m], workbench_store)"
    "\<forall>sd. sd_schedules sd \<longrightarrow> (\<exists>s'. claimWorkbenchDue open_poll sd 3000 workbench_store =
      (None, if occurrence_status sd m = ''submitted'' then [m] else [], s'))"
proof -
  obtain m where m: "fromReminder workbench_reminder = Some m" "ms_DueTime m = 2000" "ms_ID m = ''rem1''" "ms_UpdatedAt m = 1000"
    and l: "registry_List True open_ctx (workbench_filter 3000) workbench_store = (Inr [m], workbench_store)"
    by (rule workbench_occurrence)
  have i: "workbenchOccurrenceID m = ''env_rem1_-6795364578871343152''" 
  proof -
    have "show_int (UnixNano 2000) = [CHR ''-'', char_of (54::nat), char_of (55::nat), char_of (57::nat), char_of (53::nat), char_of (51::nat),
      char_of (54::nat), char_of (52::nat), char_of (53::nat), char_of (55::nat), char_of (56::nat), char_of (56::nat), char_of (55::nat),
      char_of (49::nat), char_of (51::nat), char_of (52::nat), char_of (51::nat), char_of (49::nat), char_of (53::nat), char_of (50::nat)]"
      by (simp add: show_int_def UnixNano_def unix_epoch_def wrap64_def show_nat.simps digit_def)
    also have "\<dots> = ''-6795364578871343152''" by code_simp
    finally show ?thesis unfolding workbenchOccurrenceID_def m(2,3) by simp
  qed
  have "TrimSpace ''env_rem1_-6795364578871343152'' \<noteq> []" by code_simp
  then have t: "TrimSpace (workbenchOccurrenceID m) \<noteq> []" by (simp only: i not_False_eq_True)
  have "\<exists>s'. claimWorkbenchDue open_poll sd 3000 workbench_store = (None, if occurrence_status sd m = ''submitted'' then [m] else [], s')"
    if "sd_schedules sd" for sd
  proof -
    let ?st = "occurrence_status sd m"
    have "?st = ''missed'' \<or> ?st = ''submitted''" by (simp add: occurrence_status_def)
    from workbench_advanced [OF m(3,4) this t, of 3000] obtain u s'
      where adv: "AdvanceWorkbenchSchedule open_ctx sample_env (ms_ID m) (ms_UpdatedAt m) 0 (occurrence_record 3000 ?st m) workbench_store = (Inr u, s')"
      by blast
    have "claim_occurrences open_poll sd 3000 m (Suc n) [] workbench_store = (None, n, if ?st = ''submitted'' then [m] else [], s')" for n
      using adv m(2) workbench_next [OF m(1)] by (simp add: open_poll_def Let_def)
    from this [of 49] show ?thesis
      using that l by (simp add: claimWorkbenchDue_def open_poll_def numeral_eq_Suc del: claim_occurrences.simps)
  qed
  then show thesis using that m(1) i l by blast
qed

text \<open>The reminder is due at 2000; a scheduler that was available before claims it at 3000.\<close>

lemma workbench_claims_once_witness:
  "\<exists>m s'. claimWorkbenchDue open_poll (NewMessageScheduler True True 3) 3000 workbench_store = (None, [m], s') \<and>
     workbenchOccurrenceID m = ''env_rem1_-6795364578871343152'' \<and> mget (st_reminderDelivery workbench_store) ''env_rem1_-6795364578871343152'' = None \<and>
     (\<exists>d. mget (st_reminderDelivery s') ''env_rem1_-6795364578871343152'' = Some d \<and> rd_Status d = ''submitted'')"
proof -
  let ?sd = "NewMessageScheduler True True 3"
  obtain m where m: "fromReminder workbench_reminder = Some m" "workbenchOccurrenceID m = ''env_rem1_-6795364578871343152''"
    and l: "registry_List True open_ctx (workbench_filter 3000) workbench_store = (Inr [m], workbench_store)"
    and c: "\<forall>sd. sd_schedules sd \<longrightarrow> (\<exists>s'. claimWorkbenchDue open_poll sd 3000 workbench_store =
      (None, if occurrence_status sd m = ''submitted'' then [m] else [], s'))"
    by (rule workbench_poll)
  have "occurrence_status ?sd m = ''submitted''"
    using fromReminder_Some [OF m(1)] by (simp add: occurrence_status_def NewMessageScheduler_def workbench_reminder_def sample_reminder_def)
  then obtain s' where "claimWorkbenchDue open_poll ?sd 3000 workbench_store = (None, [m], s')"
    using spec [OF c, of ?sd] by (auto simp: NewMessageScheduler_def)
  with workbench_claims_once [OF this] m(2) show ?thesis by auto
qed

text \<open>C21: an offline boundary runs no backlog. The first poll of a process, a poll after a failed one, a backward clock, a
  late poll, a wall clock that ran more than 250 ms ahead of the monotonic one and a scheduler without publisher all restart the
  availability window at now, and such a poll hands out service schedules only. Every occurrence it records is recorded as missed,
  no earlier record changes, and when the poll succeeds the earliest due workbench occurrence it listed is on record.\<close>

theorem boundary_runs_no_backlog:
  assumes "reach empty_store schedule_step s" and "claimDue pe pulse sd s = ((due, err), sd', s')"
    and "cr_wall (sd_lastPoll sd) = 0 \<or> sd_unavailable sd \<or> cr_wall pulse < cr_wall (sd_lastPoll sd) \<or> \<not> sd_publisher sd \<or>
      wrap64 (2 * sd_interval sd) < saturate64 (cr_wall pulse - cr_wall (sd_lastPoll sd)) \<or>
      250000000 < wrap64 (saturate64 (cr_wall pulse - cr_wall (sd_lastPoll sd)) - saturate64 (cr_mono pulse - cr_mono (sd_lastPoll sd)))"
  shows "(\<forall>m \<in> set due. \<not> ss_WorkbenchOwned (ms_Spec m)) \<and> sd_eligibleAfter sd' = cr_wall pulse \<and>
    sd_lastPoll sd' = pulse \<and> sd_unavailable sd' = (err \<noteq> None) \<and>
    (\<forall>i. case mget (st_reminderDelivery s) i of Some d \<Rightarrow> mget (st_reminderDelivery s') i = Some d
      | None \<Rightarrow> (case mget (st_reminderDelivery s') i of None \<Rightarrow> True | Some d \<Rightarrow> rd_Status d = ''missed'')) \<and>
    (err = None \<and> (\<forall>k. pe_advance pe k = open_ctx) \<and>
      registry_List (sd_schedules sd) (pe_list pe) (workbench_filter (cr_wall pulse)) s = (Inr (m # ms), s) \<longrightarrow>
      mget (st_reminderDelivery s') (workbenchOccurrenceID m) \<noteq> None)"
proof -
  let ?now = "cr_wall pulse" and ?sd = "sd\<lparr>sd_eligibleAfter := cr_wall pulse, sd_lastPoll := pulse, sd_unavailable := True\<rparr>"
  have obs: "observePollLocked pulse sd = (?now, sd\<lparr>sd_eligibleAfter := ?now, sd_lastPoll := pulse\<rparr>)"
    using assms(3) by (auto simp: observePollLocked_def Let_def)
  obtain e claimed t where w: "claimWorkbenchDue pe ?sd ?now s = (e, claimed, t)" by (metis prod_cases3)
  have "claimed = []" by (rule offline_claims_nothing [OF w]) simp
  with w have w': "claimWorkbenchDue pe ?sd ?now s = (e, [], t)" by (simp only:)
  have inv: "schedules_inv t"
    using schedules.steps_inv [OF claimWorkbenchDue_ok(3) [OF w] schedules.reach_inv [OF assms(1)]] .
  have records: "\<forall>i. case mget (st_reminderDelivery s) i of Some d \<Rightarrow> mget (st_reminderDelivery t) i = Some d
      | None \<Rightarrow> (case mget (st_reminderDelivery t) i of None \<Rightarrow> True | Some d \<Rightarrow> rd_Status d = ''missed'')"
    using claimWorkbenchDue_ok(1) [OF w'] unfolding claims_ok_def by (auto split: option.splits)
  have first: "mget (st_reminderDelivery t) (workbenchOccurrenceID m) \<noteq> None"
    if "e = None" "\<forall>k. pe_advance pe k = open_ctx"
      "registry_List (sd_schedules sd) (pe_list pe) (workbench_filter ?now) s = (Inr (m # ms), s)"
    by (rule first_listed_recorded [OF schedules.reach_inv [OF assms(1)], of pe ?sd ?now "[]" t m ms])
       (use that w' in simp_all)
  show ?thesis
  proof (cases e)
    case (Some x)
    then have "s' = t" "due = []" "err = Some x" "sd' = ?sd" using assms(2) obs w by (auto simp: claimDue_def)
    then show ?thesis using records [folded \<open>s' = t\<close>] by simp
  next
    case None
    obtain res u where c: "registry_ClaimDue (sd_schedules ?sd) (pe_claim pe) ?now (?now - sendingLease) (int tickBatchLimit) t = (res, u)"
      by (metis surj_pair)
    have same: "st_reminderDelivery u = st_reminderDelivery t" by (rule registry_ClaimDue_frame [OF c])
    show ?thesis
    proof (cases res)
      case (Inl x)
      then have "s' = u" "due = []" "err = Some x" "sd' = ?sd" using assms(2) obs w' None c by (auto simp: claimDue_def)
      then show ?thesis using records [folded same, folded \<open>s' = u\<close>] by simp
    next
      case (Inr service)
      then have "s' = u" "due = service" "err = None" "sd' = ?sd\<lparr>sd_unavailable := False\<rparr>"
        using assms(2) obs w' None c by (auto simp: claimDue_def)
      then show ?thesis
        using records [folded same, folded \<open>s' = u\<close>] first [folded same, folded \<open>s' = u\<close>] None service_not_workbench [OF inv c [unfolded Inr]] by simp
    qed
  qed
qed

text \<open>The first poll of a process: the reminder came due before, so its occurrence is recorded as missed.\<close>

lemma boundary_runs_no_backlog_witness:
  "\<exists>due sd' s' d. claimDue open_poll \<lparr>cr_wall = 3000, cr_mono = 1\<rparr> (NewMessageScheduler True True 3) workbench_store = ((due, None), sd', s') \<and>
     (\<forall>m \<in> set due. \<not> ss_WorkbenchOwned (ms_Spec m)) \<and> mget (st_reminderDelivery workbench_store) ''env_rem1_-6795364578871343152'' = None \<and>
     mget (st_reminderDelivery s') ''env_rem1_-6795364578871343152'' = Some d \<and> rd_Status d = ''missed''"
proof -
  let ?pulse = "\<lparr>cr_wall = 3000, cr_mono = 1\<rparr>" and ?sd = "NewMessageScheduler True True 3"
  obtain m where m: "fromReminder workbench_reminder = Some m" "workbenchOccurrenceID m = ''env_rem1_-6795364578871343152''"
    and l: "registry_List True open_ctx (workbench_filter 3000) workbench_store = (Inr [m], workbench_store)"
    and c: "\<forall>sd. sd_schedules sd \<longrightarrow> (\<exists>s'. claimWorkbenchDue open_poll sd 3000 workbench_store =
      (None, if occurrence_status sd m = ''submitted'' then [m] else [], s'))"
    by (rule workbench_poll)
  let ?sd1 = "?sd\<lparr>sd_eligibleAfter := 3000, sd_lastPoll := ?pulse, sd_unavailable := True\<rparr>"
  obtain xs t where w: "claimWorkbenchDue open_poll ?sd1 3000 workbench_store = (None, xs, t)"
    using spec [OF c, of ?sd1] by (auto simp: NewMessageScheduler_def)
  have "\<exists>rs u. registry_ClaimDue True open_ctx 3000 (3000 - sendingLease) 50 t = (Inr rs, u)"
    by (simp add: registry_ClaimDue_def ClaimDueReminders_def framed_def checked_def Let_def)
  then obtain due sd' s' where run: "claimDue open_poll ?pulse ?sd workbench_store = ((due, None), sd', s')"
    using w by (auto simp: claimDue_def observePollLocked_def NewMessageScheduler_def open_poll_def Let_def)
  have "mget (st_reminderDelivery s') ''env_rem1_-6795364578871343152'' \<noteq> None \<and> (\<forall>m \<in> set due. \<not> ss_WorkbenchOwned (ms_Spec m)) \<and>
      (case mget (st_reminderDelivery s') ''env_rem1_-6795364578871343152'' of None \<Rightarrow> True | Some d \<Rightarrow> rd_Status d = ''missed'')"
    using boundary_runs_no_backlog [OF workbench_store_saved(3) run, of m "[]"] l m(2)
    by (auto simp: NewMessageScheduler_def open_poll_def workbench_store_saved)
  with run show ?thesis by (auto simp: workbench_store_saved)
qed

text \<open>The retry delay doubles from one minute to the cap of thirty. \<open>retryBackoff\<close> is the closed form
  min(30 min, 2^(attempt-1) min) for every attempt, so it never exceeds the cap, never overflows and never shrinks.\<close>

theorem retry_backoff_exact:
  "retryBackoff attempt = min (30 * Minute) (2 ^ nat (attempt - 1) * Minute) \<and>
   Minute \<le> retryBackoff attempt \<and> retryBackoff attempt \<le> 30 * Minute \<and> retryBackoff attempt \<le> retryBackoff (attempt + 1)"
proof -
  have "(1 :: int) * Minute \<le> 2 ^ nat (attempt - 1) * Minute" by (intro mult_right_mono) simp_all
  moreover have "(2 :: int) ^ nat (attempt - 1) * Minute \<le> 2 ^ nat (attempt + 1 - 1) * Minute"
    by (intro mult_right_mono power_increasing) auto
  ultimately show ?thesis unfolding retryBackoff_eq by linarith
qed

text \<open>C35: retries count up and end. When the publication of a claimed service schedule fails as retryable, processing records the
  attempt; below the configured maximum the schedule becomes pending again, due after the back-off of that attempt;
  at the maximum it stays failed, a state no claim takes, so a schedule is published at most that many times.\<close>

theorem retries_end:
  assumes "reach empty_store schedule_step s" and "mget (st_reminders s) i = Some r" and "fromReminder r = Some m"
    and "\<not> ss_WorkbenchOwned (ms_Spec m)" and "TrimSpace i \<noteq> []" and "- 1 \<le> rm_DeliveryAttempt r" and "rm_DeliveryAttempt r < 2 ^ 63 - 1"
    and "sd_publisher sd" and "\<not> je_done je"
    and "je_publish je (scheduledEnvelope m (dedupe_key m) (je_envelope je)) = Some e" and "retryState (Some e) = ''retryable''"
    and "je_save je = (open_ctx, env)" and "je_get je = open_ctx" and "je_resave je = (open_ctx, env')"
  shows "\<exists>d s' r'. process je sd m s = ((d, None), s') \<and> rd_Attempt d = rm_DeliveryAttempt r + 1 \<and>
    mget (st_reminders s') i = Some r' \<and> rm_DeliveryAttempt r' = rm_DeliveryAttempt r + 1 \<and>
    (if sd_maxDeliveryAttempts sd \<le> rm_DeliveryAttempt r + 1
     then rm_Status r' = ''failed'' \<and> (\<forall>now stale. \<not> claimable now stale r')
     else rm_Status r' = ''pending'' \<and> rm_DueTime r' = postgresTime (je_rearm je + retryBackoff (rm_DeliveryAttempt r + 1)))"
proof -
  have inv: "schedules_inv s" using schedules.reach_inv [OF assms(1)] .
  have id: "rm_ID r = i" using schedules_inv_get [OF inv assms(2)] by simp
  note m = fromReminder_Some [OF assms(3)]
  have wb: "\<not> isWorkbenchReminder r" using m assms(4) by (simp add: isWorkbenchReminder_def)
  let ?n = "rm_DeliveryAttempt r + 1" and ?d = "job_record je sd m" and ?now = "postgresTime (en_now env)"
  have n: "wrap64 (ms_DeliveryAttempt m + 1) = ?n" using m assms(6,7) by (simp add: wrap64_id)
  note f = failed_record [OF assms(8,4,10), unfolded n assms(11)]
  let ?p = "prepareReminderDelivery (en_rand env) ?d ?now"
  let ?q = "delivered_reminder ?now ?p r" and ?s = "delivery_store env ?p (delivered_reminder ?now ?p r) s"
  have saved: "SaveReminderDelivery open_ctx env ?d s = (Inr ?p, ?s)"
    by (rule save_delivery_open) (use f(3) m id assms(2) in simp)
  have p: "rd_Status ?p = ''failed''" "rd_RetryState ?p = ''retryable''" "rd_Attempt ?p = ?n"
    using f by (simp_all add: prepared_delivery_fields)
  have q: "rm_Status ?q = ''failed''" "rm_ID ?q = i" "rm_DeliveryAttempt ?q = ?n"
    using p wb id by (auto simp: delivered_reminder_def Let_def isWorkbenchReminder_def)
  have got: "GetReminder open_ctx i ?s = (Inr (Some ?q), ?s)"
    using q(2) by (simp add: GetReminder_def framed_def checked_def delivery_store_reminders)
  have proc: "process je sd m s = (case rearm je sd i ?p ?s of (err, s'') \<Rightarrow> ((?p, err), s''))"
    using saved assms(4,9,12) m id by (simp add: process_def Let_def)
  show ?thesis
  proof (cases "sd_maxDeliveryAttempts sd \<le> ?n")
    case True
    then have "rearm je sd i ?p ?s = (None, ?s)"
      using got p assms(13) by (simp add: rearm_def Let_def)
    then show ?thesis
      using proc p q True by (intro exI [of _ ?p] exI [of _ ?s] exI [of _ ?q]) (simp add: delivery_store_reminders claimable_def)
  next
    case False
    let ?a = "?q\<lparr>rm_Status := ''pending'', rm_DueTime := je_rearm je + retryBackoff ?n, rm_UpdatedAt := je_rearm je\<rparr>"
    let ?b = "prepareReminder (en_rand env') ?a (en_now env')"
    have "rearm je sd i ?p ?s = (None, record_reminder env' ?b ?s)"
      using got p assms(13,14) False by (simp add: rearm_def Let_def save_reminder_open)
    moreover have "rm_ID ?b = i" "rm_Status ?b = ''pending''" "rm_DeliveryAttempt ?b = ?n"
      "rm_DueTime ?b = postgresTime (je_rearm je + retryBackoff ?n)"
      using prepared_reminder_fields [where r = ?a] q assms(5) by simp_all
    moreover have "mget (st_reminders (record_reminder env' ?b ?s)) (rm_ID ?b) = Some ?b"
      by (simp add: record_reminder_def)
    ultimately show ?thesis
      using proc p False by (intro exI [of _ ?p] exI [of _ "record_reminder env' ?b ?s"] exI [of _ ?b]) simp
  qed
qed

definition service_reminder :: Reminder where
  "service_reminder = sample_reminder\<lparr>rm_ScheduleSpec := Some \<lparr>ss_WorkbenchOwned = False, ss_SchemaVersion = 2, ss_OwnerID = [],
     ss_ActorID = [], ss_Payload = \<lparr>sp_Content = \<lparr>ct_Parts = []\<rparr>\<rparr>,
     ss_ReturnRoute = \<lparr>rr_Mode = [], rr_SourceEndpointID = [], rr_EndpointID = [], rr_SourceAdmitted = False\<rparr>,
     ss_Authorization = \<lparr>au_PrincipalID = [], au_Scope = []\<rparr>\<rparr>\<rparr>"

definition poisoned_reminder :: Reminder where
  "poisoned_reminder = workbench_reminder\<lparr>rm_Recurrence := ''every 200000000 minutes'', rm_DueTime := 63000000000000000000,
     rm_ScheduleSpec := Some ((the (rm_ScheduleSpec workbench_reminder))\<lparr>ss_SchemaVersion := 2\<rparr>)\<rparr>"

definition failing_job :: job_env where
  "failing_job = \<lparr>je_platform = plain_platform, je_random = None, je_created = 3000, je_envelope = 3000, je_sent = 3000,
     je_publish = (\<lambda>env. Some (Retryable ''busy'' ''retryable'')), je_done = False, je_save = (open_ctx, sample_env), je_get = open_ctx,
     je_rearm = 4000, je_resave = (open_ctx, sample_env)\<rparr>"

lemma saved_alone:
  assumes "prepareReminder None r 5000 = r"
  shows "\<exists>s. st_reminders s = [(rm_ID r, r)] \<and> st_reminderDelivery s = [] \<and> reach empty_store schedule_step s"
proof -
  let ?s = "record_reminder sample_env r NewMemoryStore"
  have sv: "SaveReminder open_ctx sample_env r NewMemoryStore = (Inr r, ?s)"
    using assms by (simp add: save_reminder_open sample_env_def)
  have "reach empty_store schedule_step ?s"
  proof (rule reach_step)
    show "reach empty_store schedule_step NewMemoryStore" by (rule reach_init) (rule empty_store_New)
    show "schedule_step NewMemoryStore ?s" by (rule step_save_reminder) (rule sv)
  qed
  then show ?thesis by (intro exI [of _ ?s]) (simp add: record_reminder_def)
qed

lemma sample_prepared:
  "prepareReminder None service_reminder 5000 = service_reminder" "prepareReminder None poisoned_reminder 5000 = poisoned_reminder"
proof -
  have "TrimSpace ''rem1'' \<noteq> []" by code_simp
  then show "prepareReminder None service_reminder 5000 = service_reminder" "prepareReminder None poisoned_reminder 5000 = poisoned_reminder"
    by (simp_all add: prepareReminder_def service_reminder_def poisoned_reminder_def workbench_reminder_def sample_reminder_def
        normalizeReminder_def normalizeScheduleTimePointer_def postgresTime_def Truncate_def Let_def)
qed

lemma retries_end_witness:
  "\<exists>s m d s' r'. fromReminder service_reminder = Some m \<and> process failing_job (NewMessageScheduler True True 1) m s = ((d, None), s') \<and>
     mget (st_reminders s') ''rem1'' = Some r' \<and> rm_Status r' = ''failed''"
proof -
  have i: "rm_ID service_reminder = ''rem1''" "rm_DeliveryAttempt service_reminder = 0"
    by (simp_all add: service_reminder_def sample_reminder_def)
  obtain s where s: "st_reminders s = [(''rem1'', service_reminder)]" "reach empty_store schedule_step s"
    using saved_alone [OF sample_prepared(1)] i(1) by auto
  obtain m where m: "fromReminder service_reminder = Some m"
    by (simp add: fromReminder_def service_reminder_def Let_def)
  have "ms_Spec m = the (rm_ScheduleSpec service_reminder)" using fromReminder_Some [OF m] by simp
  then have nw: "\<not> ss_WorkbenchOwned (ms_Spec m)"
    by (simp only: service_reminder_def) simp
  have t: "TrimSpace ''rem1'' \<noteq> []" by code_simp
  have "\<exists>d s' r'. process failing_job (NewMessageScheduler True True 1) m s = ((d, None), s') \<and>
      rd_Attempt d = rm_DeliveryAttempt service_reminder + 1 \<and> mget (st_reminders s') ''rem1'' = Some r' \<and>
      rm_DeliveryAttempt r' = rm_DeliveryAttempt service_reminder + 1 \<and>
      (if sd_maxDeliveryAttempts (NewMessageScheduler True True 1) \<le> rm_DeliveryAttempt service_reminder + 1
       then rm_Status r' = ''failed'' \<and> (\<forall>now stale. \<not> claimable now stale r')
       else rm_Status r' = ''pending'' \<and> rm_DueTime r' = postgresTime (je_rearm failing_job + retryBackoff (rm_DeliveryAttempt service_reminder + 1)))"
    by (rule retries_end [where e = "Retryable ''busy'' ''retryable''", OF s(2) _ m nw t])
       (simp_all add: s(1) i failing_job_def NewMessageScheduler_def retryState_def)
  then show ?thesis using m by (auto simp: i NewMessageScheduler_def)
qed

text \<open>C40: one overflowing recurrence stops every schedule. When the first workbench schedule that is due carries a recurrence
  whose next occurrence is not after its due time, advancing it is refused as invalid, and the poll hands out nothing at
  all, service schedules included, and leaves the store as it was, so every later poll fails in the same way.\<close>

theorem overflowing_recurrence_blocks_polls:
  assumes "reach empty_store schedule_step s" and "sd_schedules sd" and "pe_list pe = open_ctx" and "\<forall>n. pe_advance pe n = open_ctx"
    and "registry_List True open_ctx (workbench_filter (cr_wall pulse)) s = (Inr (m # ms), s)"
    and "ms_Recurrence m = ''every 200000000 minutes''" and "unix_epoch \<le> ms_DueTime m"
    and "mget (st_reminderDelivery s) (workbenchOccurrenceID m) = None"
  shows "\<exists>e sd'. claimDue pe pulse sd s = (([], Some e), sd', s) \<and> StoreErrorCodeOf e = StoreErrorInvalid \<and> sd_unavailable sd'"
proof -
  let ?now = "cr_wall pulse" and ?e = "storeError ''workbench_schedule.advance'' StoreErrorInvalid (Err ''invalid workbench occurrence advancement'')"
  have inv: "schedules_inv s" using schedules.reach_inv [OF assms(1)] .
  have "m \<in> set (schedules_of (clip (normalizeReminderQueryLimit 50) (sortReminders (filter (reminder_selected (workbench_filter ?now)) (mvals (st_reminders s))))))"
    using assms(5) by (auto simp: registry_List_def ListReminders_def framed_def checked_def workbench_filter_def)
  then obtain r where r: "r \<in> set (filter (reminder_selected (workbench_filter ?now)) (mvals (st_reminders s)))" "fromReminder r = Some m"
    using set_clip_subset by (fastforce simp: schedules_of_member sortReminders_def)
  then have sel: "reminder_selected (workbench_filter ?now) r" and got: "mget (st_reminders s) (rm_ID r) = Some r"
    using keyed_vals [OF schedules_inv_keyed [OF inv], of r] by auto
  note m = fromReminder_Some [OF r(2)]
  have due: "\<not> ?now < ms_DueTime m" and pend: "rm_Status r = ''pending''"
    using sel m by (simp_all add: reminder_selected_def workbench_filter_def)
  have up: "rm_UpdatedAt r = postgresTime (rm_UpdatedAt r)"
    using schedules_inv_get [OF inv got] by (simp add: whole_reminder_def)
  have nxt: "next_or_zero (pe_platform pe) m = ms_DueTime m - 6446744073709551616"
    unfolding next_or_zero_def assms(6) overflow_next [OF order.refl] by simp
  have nz: "ms_DueTime m - 6446744073709551616 \<noteq> 0" using assms(7) by (simp add: unix_epoch_def)
  have adv: "AdvanceWorkbenchSchedule open_ctx env (ms_ID m) (ms_UpdatedAt m) (ms_DueTime m - 6446744073709551616) (occurrence_record ?now st m) s =
      (Inl ?e, s)" for env st
    using got m pend up nz assms(8)
    by (simp add: AdvanceWorkbenchSchedule_def framed_def checked_def prepareWorkbenchAdvance_def occurrence_record_def)
  have nc: "\<not> err_is ?e ErrReminderConflict" by (simp add: storeError_def)
  have "claim_occurrences pe sd' ?now m (Suc n) [] s = (Some ?e, n, [], s)" for sd' n
    using due adv nc assms(4) by (simp add: nxt Let_def)
  from this [of _ 49] have claim: "claimWorkbenchDue pe sd' ?now s = (Some ?e, [], s)" if "sd_schedules sd'" for sd'
    using assms(3,5) that by (simp add: claimWorkbenchDue_def numeral_eq_Suc del: claim_occurrences.simps)
  obtain sd1 where obs: "observePollLocked pulse sd = (?now, sd1)" "sd_schedules sd1"
    using assms(2) by (auto simp: observePollLocked_def Let_def)
  have "claimDue pe pulse sd s = (([], Some ?e), sd1\<lparr>sd_unavailable := True\<rparr>, s)"
    using obs claim [of "sd1\<lparr>sd_unavailable := True\<rparr>"] by (simp add: claimDue_def)
  moreover have "StoreErrorCodeOf ?e = StoreErrorInvalid" by (simp add: storeError_def)
  moreover have "sd_unavailable (sd1\<lparr>sd_unavailable := True\<rparr>)" by simp
  ultimately show ?thesis by blast
qed

lemma overflowing_recurrence_blocks_polls_witness:
  "\<exists>s m e sd'. fromReminder poisoned_reminder = Some m \<and> reach empty_store schedule_step s \<and>
    claimDue open_poll \<lparr>cr_wall = 63000000000000000000, cr_mono = 0\<rparr> (NewMessageScheduler True True 1) s = (([], Some e), sd', s) \<and>
    StoreErrorCodeOf e = StoreErrorInvalid"
proof -
  obtain s where s: "st_reminders s = [(rm_ID poisoned_reminder, poisoned_reminder)]" "st_reminderDelivery s = []"
      "reach empty_store schedule_step s"
    using saved_alone [OF sample_prepared(2)] by auto
  obtain m where m: "fromReminder poisoned_reminder = Some m"
    by (simp add: fromReminder_def poisoned_reminder_def workbench_reminder_def Let_def)
  note f = fromReminder_Some [OF m]
  have sel: "reminder_selected (workbench_filter 63000000000000000000) poisoned_reminder"
    by (simp add: reminder_selected_def workbench_filter_def poisoned_reminder_def workbench_reminder_def isWorkbenchReminder_def
        sample_reminder_def)
  have "clip (normalizeReminderQueryLimit 50) (sortReminders [poisoned_reminder]) = [poisoned_reminder]"
    by (simp add: clip_def normalizeReminderQueryLimit_def sortReminders_def SortFunc_def)
  then have l: "registry_List True open_ctx (workbench_filter 63000000000000000000) s = (Inr (m # []), s)"
    using s(1) m sel by (simp add: registry_List_def ListReminders_def framed_def checked_def workbench_filter_def schedules_of_def)
  have "\<exists>e sd'. claimDue open_poll \<lparr>cr_wall = 63000000000000000000, cr_mono = 0\<rparr> (NewMessageScheduler True True 1) s = (([], Some e), sd', s) \<and>
      StoreErrorCodeOf e = StoreErrorInvalid \<and> sd_unavailable sd'"
    by (rule overflowing_recurrence_blocks_polls [where m = m and ms = "[]", OF s(3)])
       (use l f s(2) in \<open>simp_all add: open_poll_def NewMessageScheduler_def poisoned_reminder_def unix_epoch_def\<close>)
  then show ?thesis using m s(3) by blast
qed

end
