(* ===== verification/MCP_Service_Operations.thy ===== *)
theory MCP_Service_Operations
  imports MCP_Repository_Operations Session_Operations Approval_Operations
begin

text \<open>
  The service of external agents, \<open>internal/mcpaccess/service.go\<close>, \<open>operation.go\<close> and the update of \<open>provider.go\<close>: issuing and
  redeeming tickets, starting, finishing, cancelling and resuming operations, revoking bindings. The theory \<open>MCP_Service\<close> shows
  what the service guarantees when these functions run beside each other.

  A service function is a sequence of calls of the repository. Between two calls anything else may happen to the store, so a
  function is run in a world: the store and, for each call to come, the moment at which it is made.
\<close>

section \<open>Calls in a shared world\<close>

text \<open>A moment: what the context reports in a call, the instants and random bytes of the call, what \<open>ctx.Err()\<close> and \<open>time.Now\<close> answer
  the code before the call, and what the rest of the system has done to the store since the call before.\<close>

record moment =
  me_ctx :: op_ctx
  me_env :: op_env
  me_err :: "go_error option"
  me_now :: gotime
  me_others :: "MemoryStore \<Rightarrow> MemoryStore"

record world =
  w_store :: MemoryStore
  w_moments :: "nat \<Rightarrow> moment"

type_synonym 'a proc = "world \<Rightarrow> (go_error + 'a) \<times> world"

definition answer :: "'a \<Rightarrow> 'a proc" where
  "answer x w = (Inr x, w)"

definition refuse :: "go_error \<Rightarrow> 'a proc" where
  "refuse e w = (Inl e, w)"

text \<open>One call of the repository.\<close>

definition call :: "(op_ctx \<Rightarrow> op_env \<Rightarrow> MemoryStore \<Rightarrow> 'a outcome) \<Rightarrow> 'a proc" where
  "call f w = (let m = w_moments w 0; r = f (me_ctx m) (me_env m) (me_others m (w_store w))
     in (fst r, \<lparr>w_store = snd r, w_moments = (\<lambda>k. w_moments w (Suc k))\<rparr>))"

text \<open>\<open>handle p f\<close> continues with whatever \<open>p\<close> answers; \<open>also_do p f\<close> returns the error of \<open>p\<close> if it has one.\<close>

definition handle :: "'a proc \<Rightarrow> (go_error + 'a \<Rightarrow> 'b proc) \<Rightarrow> 'b proc" where
  "handle p f w = (case p w of (r, w') \<Rightarrow> f r w')"

definition also_do :: "'a proc \<Rightarrow> ('a \<Rightarrow> 'b proc) \<Rightarrow> 'b proc" where
  "also_do p f = handle p (\<lambda>r. case r of Inl e \<Rightarrow> refuse e | Inr x \<Rightarrow> f x)"

text \<open>\<open>_ = p\<close>.\<close>

definition ignoring :: "'a proc \<Rightarrow> unit proc" where
  "ignoring p = handle p (\<lambda>_. answer ())"

text \<open>\<open>time.Now().UTC()\<close>, and \<open>if err := ctx.Err(); err != nil { return ... }\<close>.\<close>

definition at_time :: "(gotime \<Rightarrow> 'a proc) \<Rightarrow> 'a proc" where
  "at_time f w = f (me_now (w_moments w 0)) w"

definition unless_done :: "'a proc \<Rightarrow> 'a proc" where
  "unless_done p w = (case me_err (w_moments w 0) of Some e \<Rightarrow> (Inl e, w) | None \<Rightarrow> p w)"

text \<open>
  A write that fails in this repository answers with the zero record. That record has no identity, so the \<open>Reconcile\<close> function
  that follows the write returns the error of the write: it is left out below.
\<close>

lemma reconcile_failed_update: "TrimSpace (mo_ID p) = [] \<Longrightarrow> ReconcileMCPOperationUpdate cx s p (Some e) = Inl e"
  by (simp add: ReconcileMCPOperationUpdate_def reconcilable_def)

section \<open>The states of an operation\<close>

abbreviation (input) WorkflowResultSucceeded :: string where "WorkflowResultSucceeded \<equiv> ''succeeded''"
abbreviation (input) WorkflowResultWaiting :: string where "WorkflowResultWaiting \<equiv> ''waiting''"
abbreviation (input) WorkflowResultBlocked :: string where "WorkflowResultBlocked \<equiv> ''blocked''"
abbreviation (input) WorkflowResultFailed :: string where "WorkflowResultFailed \<equiv> ''failed''"

definition operationTerminal :: "string \<Rightarrow> bool" where
  "operationTerminal state \<longleftrightarrow> state = MCPOperationSucceeded \<or> state = MCPOperationFailed \<or> state = MCPOperationCancelled \<or>
     state = MCPOperationRevoked"

definition applyWorkflowResultToOperation :: "string \<Rightarrow> WorkflowResultError option \<Rightarrow> gotime \<Rightarrow> MCPOperation \<Rightarrow> MCPOperation" where
  "applyWorkflowResultToOperation status resultErr now p =
     (let p = p\<lparr>mo_ErrorCode := [], mo_ErrorMessage := []\<rparr>
      in if status = WorkflowResultSucceeded then p\<lparr>mo_State := MCPOperationSucceeded, mo_CompletedAt := Some now\<rparr>
         else if status = WorkflowResultWaiting then p\<lparr>mo_State := MCPOperationApprovalRequired, mo_CompletedAt := None\<rparr>
         else if status = WorkflowResultBlocked \<or> status = WorkflowResultFailed
         then p\<lparr>mo_State := MCPOperationFailed,
             mo_ErrorCode := (case resultErr of Some e \<Rightarrow> if we_Code e \<noteq> [] then we_Code e else ''workflow_'' @ status
               | None \<Rightarrow> ''workflow_'' @ status),
             mo_ErrorMessage := (case resultErr of Some e \<Rightarrow>
                 if we_Message e \<noteq> [] then we_Message e else ''SparkClaw workflow execution did not succeed''
               | None \<Rightarrow> ''SparkClaw workflow execution did not succeed''),
             mo_CompletedAt := Some now\<rparr>
         else p\<lparr>mo_State := MCPOperationFailed, mo_ErrorCode := ''workflow_result_invalid'',
             mo_ErrorMessage := ''SparkClaw produced an unsupported workflow result state'', mo_CompletedAt := Some now\<rparr>)"

text \<open>What the callers of \<open>updateOperationRecord\<close> make of the operation they read: \<open>None\<close> when they leave it as it is.\<close>

type_synonym mutation = "gotime \<Rightarrow> MCPOperation \<Rightarrow> MCPOperation option"

definition fail_with :: "string \<Rightarrow> string \<Rightarrow> mutation" where
  "fail_with code message now p = (if operationTerminal (mo_State p) then None
     else Some (p\<lparr>mo_State := MCPOperationFailed, mo_ErrorCode := code, mo_ErrorMessage := message, mo_CompletedAt := Some now\<rparr>))"

definition cancelled :: mutation where
  "cancelled now p = (if operationTerminal (mo_State p) then None
     else Some (p\<lparr>mo_State := MCPOperationCancelled, mo_CompletedAt := Some now\<rparr>))"

definition rejected_at :: "gotime \<Rightarrow> mutation" where
  "rejected_at noticed now p = (if mo_State p \<noteq> MCPOperationApprovalRequired then None
     else Some (p\<lparr>mo_State := MCPOperationFailed, mo_ErrorCode := ''approval_rejected'',
       mo_ErrorMessage := ''The local owner rejected the pending action'', mo_CompletedAt := Some noticed\<rparr>))"

definition resumed :: mutation where
  "resumed now p = (if mo_State p = MCPOperationRunning then None else if mo_State p \<noteq> MCPOperationApprovalRequired then None
     else Some (p\<lparr>mo_State := MCPOperationRunning, mo_Result := [], mo_ErrorCode := [], mo_ErrorMessage := [], mo_CompletedAt := None\<rparr>))"

definition parked :: mutation where
  "parked now p = (if mo_State p \<noteq> MCPOperationRunning then None
     else Some (p\<lparr>mo_State := MCPOperationApprovalRequired, mo_Result := [], mo_CompletedAt := None\<rparr>))"

definition runHasApprovedApproval :: "Approval list \<Rightarrow> string \<Rightarrow> bool" where
  "runHasApprovedApproval approvals runID \<longleftrightarrow> (\<exists>a \<in> set approvals. ap_Status a = ApprovalStatusApproved \<and> ap_RunID a = runID)"

definition runHasPendingApproval :: "Approval list \<Rightarrow> string \<Rightarrow> bool" where
  "runHasPendingApproval approvals runID \<longleftrightarrow> (\<exists>a \<in> set approvals. ap_Status a = ApprovalStatusPending \<and> ap_RunID a = runID)"

text \<open>The fields the service reads of a workflow result and of the answer of the agent runtime. The JSON text of the payload is an
  argument, made of the run and either the content or whether a delivery is recorded.\<close>

record WorkflowResult =
  wr_RunID :: string
  wr_Status :: string
  wr_Content :: MessageContent
  wr_ReturnRoute :: ReturnRoute
  wr_Error :: "WorkflowResultError option"
  wr_MCP :: "MCPInvocationRef option"

record AgentResult =
  ar_RunID :: string
  ar_WorkflowResult :: "WorkflowResult option"

type_synonym payload_text = "string \<Rightarrow> MessageContent + bool \<Rightarrow> string"

definition synchronized :: "payload_text \<Rightarrow> Approval list \<Rightarrow> AgentResult \<Rightarrow> bool \<Rightarrow> mutation" where
  "synchronized payload approvals result includeContent now p = (case ar_WorkflowResult result of
     None \<Rightarrow> None
   | Some wr \<Rightarrow>
       if operationTerminal (mo_State p) then None
       else if wr_Status wr = WorkflowResultWaiting \<and> runHasApprovedApproval approvals (ar_RunID result) \<and>
         \<not> runHasPendingApproval approvals (ar_RunID result) then None
       else Some (applyWorkflowResultToOperation (wr_Status wr) (wr_Error wr) now
         (p\<lparr>mo_Result := payload (ar_RunID result)
           (if includeContent then Inl (wr_Content wr) else Inr (wr_Status wr = WorkflowResultSucceeded))\<rparr>)))"

definition delivered :: "string \<Rightarrow> string \<Rightarrow> WorkflowResultError option \<Rightarrow> mutation" where
  "delivered result status resultErr now p = (if operationTerminal (mo_State p) then None
     else Some (applyWorkflowResultToOperation status resultErr now (p\<lparr>mo_Result := result\<rparr>)))"

section \<open>Updating an operation\<close>

abbreviation (input) maxOperationUpdateAttempts :: nat where "maxOperationUpdateAttempts \<equiv> 8"

definition read_operation :: "string \<Rightarrow> MCPOperation option proc" where
  "read_operation i = call (\<lambda>cx env. GetMCPOperation cx i)"

fun update_rounds :: "nat \<Rightarrow> string \<Rightarrow> mutation \<Rightarrow> (MCPOperation \<times> bool) proc" where
  "update_rounds 0 i mutate = unless_done (also_do (read_operation i) (\<lambda>found. case found of
     None \<Rightarrow> refuse (Err ''MCP operation not found after version conflict'')
   | Some p \<Rightarrow> refuse ErrMCPOperationVersionConflict))"
| "update_rounds (Suc n) i mutate = unless_done (also_do (read_operation i) (\<lambda>found. case found of
     None \<Rightarrow> refuse (Err ''MCP operation not found'')
   | Some p \<Rightarrow> at_time (\<lambda>now. case mutate now p of
         None \<Rightarrow> answer (p, False)
       | Some p' \<Rightarrow> handle (call (\<lambda>cx env. UpdateMCPOperation cx env p' (mo_Version p'))) (\<lambda>r. case r of
             Inr updated \<Rightarrow> answer (updated, True)
           | Inl e \<Rightarrow> if \<not> err_is e ErrMCPOperationVersionConflict then refuse e else update_rounds n i mutate))))"

definition updateOperationRecord :: "string \<Rightarrow> mutation \<Rightarrow> (MCPOperation \<times> bool) proc" where
  "updateOperationRecord = update_rounds maxOperationUpdateAttempts"

section \<open>Audit entries\<close>

definition operationSessionID :: "MCPOperation \<Rightarrow> string proc" where
  "operationSessionID p = handle (call (\<lambda>cx env. GetMCPBinding cx (mo_BindingID p))) (\<lambda>r. case r of
     Inr (Some b) \<Rightarrow> answer (bi_LinkedSessionID b) | _ \<Rightarrow> answer [])"

definition operationAuditFields :: "MCPOperation \<Rightarrow> string \<Rightarrow> (string, goany) gomap" where
  "operationAuditFields p iscpSessionID =
     [(''operation_id'', AnyString (mo_ID p)), (''binding_id'', AnyString (mo_BindingID p)),
      (''binding_revision'', AnyNumber (of_int (in_BindingRevision (mo_Invocation p)))),
      (''requester_device_id'', AnyString (in_RequesterDeviceID (mo_Invocation p))),
      (''requester_key_thumbprint'', AnyString (in_RequesterKeyThumbprint (mo_Invocation p))),
      (''iscp_session_id'', AnyString iscpSessionID), (''tool_name'', AnyString (in_ToolName (mo_Invocation p)))]"

definition audit_entry :: "string \<Rightarrow> string \<Rightarrow> string \<Rightarrow> string \<Rightarrow> string \<Rightarrow> (string, goany) gomap \<Rightarrow> unit proc" where
  "audit_entry typ sessionID runID actor summary entry_fields = ignoring (call (\<lambda>cx env. AddAudit cx env
     \<lparr>ae_ID = [], ae_Time = 0, ae_Type = typ, ae_SessionID = sessionID, ae_RunID = runID, ae_Actor = actor, ae_Summary = summary,
      ae_Fields = entry_fields\<rparr>))"

text \<open>An entry that cannot be written is only logged.\<close>

definition auditOperationStore :: "string \<Rightarrow> MCPOperation \<Rightarrow> string \<Rightarrow> (string, goany) gomap \<Rightarrow> unit proc" where
  "auditOperationStore typ p summary extra = also_do (operationSessionID p) (\<lambda>sid.
     audit_entry typ sid (in_RunID (mo_Invocation p)) (in_ActorID (mo_Invocation p)) summary
       (fold (\<lambda>(k, v). mput k v) extra (operationAuditFields p (in_ISCPSessionID (mo_Invocation p)))))"

section \<open>Ending an operation\<close>

abbreviation (input) rejection_note :: string where
  "rejection_note \<equiv> ''MCP operation cannot continue approval-backed execution''"

fun reject_each :: "json_lib \<Rightarrow> string \<Rightarrow> Approval list \<Rightarrow> unit proc" where
  "reject_each lib runID [] = answer ()"
| "reject_each lib runID (a # as) =
     (if ap_RunID a \<noteq> runID then reject_each lib runID as
      else also_do (call (\<lambda>cx env. ResolveApproval lib cx env (ap_ID a) ApprovalStatusRejected rejection_note)) (\<lambda>_.
        also_do (call (\<lambda>cx env. GetToolCall cx (ap_ToolCallID a))) (\<lambda>found. case found of
            None \<Rightarrow> reject_each lib runID as
          | Some c \<Rightarrow>
              if tc_Status c \<noteq> ''approval_pending'' then reject_each lib runID as
              else at_time (\<lambda>now. also_do (call (\<lambda>cx env. SaveToolCall cx env
                  (c\<lparr>tc_Status := ''rejected'', tc_Error := rejection_note, tc_CompletedAt := Some now\<rparr>)))
                (\<lambda>_. reject_each lib runID as)))))"

definition rejectPendingApprovals :: "json_lib \<Rightarrow> MCPOperation \<Rightarrow> unit proc" where
  "rejectPendingApprovals lib p =
     also_do (call (\<lambda>cx env. ListApprovals cx ApprovalStatusPending)) (\<lambda>approvals.
     also_do (reject_each lib (in_RunID (mo_Invocation p)) approvals) (\<lambda>_.
     also_do (call (\<lambda>cx env. GetRun cx (in_RunID (mo_Invocation p)))) (\<lambda>found. case found of
         None \<Rightarrow> answer ()
       | Some run \<Rightarrow>
           if ru_State run \<noteq> ''approval_pending'' then answer ()
           else at_time (\<lambda>now. also_do (call (\<lambda>cx env. SaveRun cx env (run\<lparr>ru_State := ''blocked'', ru_CompletedAt := Some now\<rparr>)))
             (\<lambda>_. answer ())))))"

definition cleanupMCPInvocationSession :: "string \<Rightarrow> unit proc" where
  "cleanupMCPInvocationSession sessionID =
     (if TrimSpace sessionID = [] then answer ()
      else handle (call (\<lambda>cx env. DeleteMCPInvocationSession cx env sessionID)) (\<lambda>r. case r of
          Inr _ \<Rightarrow> answer ()
        | Inl e \<Rightarrow> if StoreErrorCodeOf e = StoreErrorNotFound then answer () else refuse e))"

definition cleanupMCPOperationSession :: "MCPOperation \<Rightarrow> unit proc" where
  "cleanupMCPOperationSession p =
     (if TrimSpace (in_RunID (mo_Invocation p)) = [] then answer ()
      else also_do (call (\<lambda>cx env. GetRun cx (in_RunID (mo_Invocation p)))) (\<lambda>found. case found of
          None \<Rightarrow> answer ()
        | Some run \<Rightarrow>
            if TrimSpace (ru_SessionID run) = [] then answer ()
            else if TrimSpace (mo_BindingID p) = [] then cleanupMCPInvocationSession (ru_SessionID run)
            else also_do (call (\<lambda>cx env. GetMCPBinding cx (mo_BindingID p))) (\<lambda>binding. case binding of
                Some b \<Rightarrow> if bi_LinkedSessionID b = ru_SessionID run then answer () else cleanupMCPInvocationSession (ru_SessionID run)
              | None \<Rightarrow> cleanupMCPInvocationSession (ru_SessionID run))))"

definition finishOperationError :: "json_lib \<Rightarrow> string \<Rightarrow> string \<Rightarrow> string \<Rightarrow> unit proc" where
  "finishOperationError lib i code message = also_do (updateOperationRecord i (fail_with code message)) (\<lambda>(updated, changed).
     if \<not> changed then answer ()
     else also_do (rejectPendingApprovals lib updated) (\<lambda>_.
       also_do (auditOperationStore ''mcp.operation.failed'' updated ''Marked an MCP operation as failed''
         [(''outcome'', AnyString (mo_State updated)), (''error_code'', AnyString code)]) (\<lambda>_.
       cleanupMCPOperationSession updated)))"

definition finishOperationCancelled :: "string \<Rightarrow> unit proc" where
  "finishOperationCancelled i = also_do (updateOperationRecord i cancelled) (\<lambda>(updated, changed).
     if \<not> changed then answer ()
     else also_do (auditOperationStore ''mcp.operation.cancelled'' updated ''Marked an MCP operation as cancelled''
         [(''outcome'', AnyString (mo_State updated))]) (\<lambda>_.
       cleanupMCPOperationSession updated))"

text \<open>The cancellation an agent asks for; \<open>execution.cancel()\<close> is what later contexts of that execution report.\<close>

definition cancelOperation :: "json_lib \<Rightarrow> string \<Rightarrow> MCPOperation proc" where
  "cancelOperation lib i = also_do (updateOperationRecord i cancelled) (\<lambda>(updated, _).
     if mo_State updated \<noteq> MCPOperationCancelled then answer updated
     else also_do (rejectPendingApprovals lib updated) (\<lambda>_.
       also_do (cleanupMCPOperationSession updated) (\<lambda>_. answer updated)))"

text \<open>A waiting operation whose approval the owner rejected fails. The error is returned beside the operation in the code; its caller
  uses the operation only without one.\<close>

definition reconcileOperation :: "MCPOperation \<Rightarrow> MCPOperation proc" where
  "reconcileOperation p =
     (if mo_State p \<noteq> MCPOperationApprovalRequired then answer p
      else also_do (call (\<lambda>cx env. ListApprovals cx [])) (\<lambda>approvals.
        if \<not> (\<exists>a \<in> set approvals. ap_RunID a = in_RunID (mo_Invocation p) \<and> ap_Status a = ApprovalStatusRejected) then answer p
        else at_time (\<lambda>now. handle (updateOperationRecord (mo_ID p) (rejected_at now)) (\<lambda>r. case r of
            Inr (updated, _) \<Rightarrow> also_do (cleanupMCPOperationSession updated) (\<lambda>_. answer updated)
          | Inl _ \<Rightarrow> handle (read_operation (mo_ID p)) (\<lambda>r. case r of
              Inr (Some current) \<Rightarrow> answer current
            | _ \<Rightarrow> answer (p\<lparr>mo_State := MCPOperationFailed, mo_ErrorCode := ''approval_rejected'',
                mo_ErrorMessage := ''The local owner rejected the pending action'', mo_CompletedAt := Some now\<rparr>))))))"

section \<open>Approvals and results\<close>

text \<open>\<open>ref_of\<close> reads the invocation reference of the message context of a run, if it has one.\<close>

definition operationForRun :: "(goany \<Rightarrow> MCPInvocationRef option) \<Rightarrow> string \<Rightarrow> MCPOperation proc" where
  "operationForRun ref_of runID = also_do (call (\<lambda>cx env. GetRun cx runID)) (\<lambda>found.
     case Option.bind found (\<lambda>run. map_option (Pair run) (ref_of (ru_MessageContext run))) of
       None \<Rightarrow> refuse (Err ''MCP run is unavailable'')
     | Some (run, ref) \<Rightarrow> also_do (read_operation (ir_OperationID ref)) (\<lambda>found. case found of
           None \<Rightarrow> refuse (Err ''MCP operation does not match the persisted invocation'')
         | Some p \<Rightarrow>
             if in_RunID (mo_Invocation p) \<noteq> ru_ID run \<or> in_ID (mo_Invocation p) \<noteq> ir_InvocationID ref \<or>
               mo_BindingID p \<noteq> ir_BindingRef ref \<or> in_BindingRevision (mo_Invocation p) \<noteq> ir_BindingRevision ref \<or>
               in_RequesterDeviceID (mo_Invocation p) \<noteq> ir_RequesterDeviceID ref
             then refuse (Err ''MCP operation does not match the persisted invocation'')
             else answer p))"

definition beginApprovalExecution :: "(goany \<Rightarrow> MCPInvocationRef option) \<Rightarrow> string \<Rightarrow> MCPOperation proc" where
  "beginApprovalExecution ref_of runID = also_do (operationForRun ref_of runID) (\<lambda>p.
     also_do (updateOperationRecord (mo_ID p) resumed) (\<lambda>(updated, changed).
       if \<not> changed \<and> mo_State updated \<noteq> MCPOperationRunning
       then refuse (Err ''MCP operation is no longer available for approved execution'')
       else if changed
       then also_do (auditOperationStore ''mcp.operation.approval_resumed'' updated ''Resumed an MCP operation after owner approval''
         [(''outcome'', AnyString (mo_State updated))]) (\<lambda>_. answer updated)
       else answer updated))"

definition StartApprovalExecution :: "json_lib \<Rightarrow> (goany \<Rightarrow> MCPInvocationRef option) \<Rightarrow> string \<Rightarrow> MCPOperation proc" where
  "StartApprovalExecution lib ref_of runID = also_do (beginApprovalExecution ref_of runID) (\<lambda>p.
     handle (unless_done (answer ())) (\<lambda>r. case r of
       Inr _ \<Rightarrow> answer p
     | Inl _ \<Rightarrow> also_do (ignoring (finishOperationError lib (mo_ID p) ''approval_execution_expired''
           ''The MCP operation deadline expired before approved execution could start'')) (\<lambda>_.
         also_do (ignoring (read_operation (mo_ID p))) (\<lambda>_.
           refuse (Err ''MCP operation deadline expired before approved execution could start'')))))"

definition RestoreApprovalRequired :: "(goany \<Rightarrow> MCPInvocationRef option) \<Rightarrow> string \<Rightarrow> unit proc" where
  "RestoreApprovalRequired ref_of runID = also_do (operationForRun ref_of runID) (\<lambda>p.
     also_do (updateOperationRecord (mo_ID p) parked) (\<lambda>(updated, changed).
       if changed
       then auditOperationStore ''mcp.operation.approval_required'' updated ''Parked an MCP operation for another owner approval''
         [(''outcome'', AnyString (mo_State updated))]
       else answer ()))"

definition FailApprovalExecution :: "json_lib \<Rightarrow> (goany \<Rightarrow> MCPInvocationRef option) \<Rightarrow> string \<Rightarrow> string \<Rightarrow> string \<Rightarrow> unit proc" where
  "FailApprovalExecution lib ref_of runID code message = also_do (operationForRun ref_of runID) (\<lambda>p.
     finishOperationError lib (mo_ID p) code message)"

definition syncOperationFromResultWithContent :: "payload_text \<Rightarrow> string \<Rightarrow> AgentResult \<Rightarrow> bool \<Rightarrow> unit proc" where
  "syncOperationFromResultWithContent payload i result includeContent =
     also_do (case ar_WorkflowResult result of
         Some wr \<Rightarrow> if wr_Status wr = WorkflowResultWaiting then call (\<lambda>cx env. ListApprovals cx []) else answer []
       | None \<Rightarrow> answer []) (\<lambda>approvals.
     also_do (updateOperationRecord i (synchronized payload approvals result includeContent)) (\<lambda>(updated, changed).
       if \<not> changed then answer ()
       else also_do (auditOperationStore ''mcp.operation.result_recorded'' updated ''Recorded a Workflow result for an MCP operation''
           [(''outcome'', AnyString (mo_State updated)), (''error_code'', AnyString (mo_ErrorCode updated))]) (\<lambda>_.
         if operationTerminal (mo_State updated) then cleanupMCPOperationSession updated else answer ())))"

definition RecordWorkflowResult :: "payload_text \<Rightarrow> AgentResult \<Rightarrow> unit proc" where
  "RecordWorkflowResult payload result =
     (case Option.bind (ar_WorkflowResult result) (\<lambda>wr. map_option (Pair wr) (wr_MCP wr)) of
        None \<Rightarrow> answer ()
      | Some (wr, ref) \<Rightarrow> also_do (read_operation (ir_OperationID ref)) (\<lambda>found. case found of
            None \<Rightarrow> answer ()
          | Some p \<Rightarrow>
              if in_ID (mo_Invocation p) \<noteq> ir_InvocationID ref \<or> mo_BindingID p \<noteq> ir_BindingRef ref \<or>
                in_BindingRevision (mo_Invocation p) \<noteq> ir_BindingRevision ref \<or>
                in_RequesterDeviceID (mo_Invocation p) \<noteq> ir_RequesterDeviceID ref \<or>
                in_RunID (mo_Invocation p) \<noteq> ar_RunID result \<or> in_RunID (mo_Invocation p) \<noteq> wr_RunID wr
              then answer ()
              else syncOperationFromResultWithContent payload (mo_ID p) result (rr_Mode (wr_ReturnRoute wr) = ''source'')))"

text \<open>
  The goroutine of an operation. The agent runtime and the deliverer are arguments: procedures that call the repository as they
  like. Contexts are what the moments say, so registering the execution has no effect of its own here.
\<close>

definition executeOperation ::
  "json_lib \<Rightarrow> payload_text \<Rightarrow> AgentResult proc \<Rightarrow> (AgentResult \<Rightarrow> unit proc) option \<Rightarrow> string \<Rightarrow> string \<Rightarrow> unit proc" where
  "executeOperation lib payload runtime deliver sessionID i =
     also_do (handle (read_operation i) (\<lambda>r. case r of
         Inr (Some p) \<Rightarrow>
           if operationTerminal (mo_State p) then answer ()
           else handle runtime (\<lambda>r. case r of
               Inl e \<Rightarrow> if err_is e Canceled then ignoring (finishOperationCancelled i)
                 else ignoring (finishOperationError lib i ''workflow_failed'' ''SparkClaw workflow execution failed'')
             | Inr result \<Rightarrow>
                 if ar_WorkflowResult result = None
                 then ignoring (finishOperationError lib i ''workflow_result_missing'' ''SparkClaw workflow produced no result'')
                 else (case deliver of
                     Some d \<Rightarrow> handle (d result) (\<lambda>r. case r of
                         Inl e \<Rightarrow> ignoring (finishOperationError lib i ''delivery_failed'' ''MCP result delivery failed'')
                       | Inr _ \<Rightarrow> answer ())
                   | None \<Rightarrow> ignoring (syncOperationFromResultWithContent payload i result True)))
       | _ \<Rightarrow> answer ())) (\<lambda>_.
     handle (read_operation i) (\<lambda>r. case r of
         Inr (Some p) \<Rightarrow> if operationTerminal (mo_State p) then ignoring (cleanupMCPInvocationSession sessionID) else answer ()
       | _ \<Rightarrow> answer ()))"

section \<open>Tickets and peers\<close>

text \<open>
  \<open>enabled\<close> tells whether the connector of an owner is on; \<open>sha\<close> is the hexadecimal SHA-256 digest of a text. The random secret
  and the random part of the identity are arguments, the secret as it is encoded.
\<close>

record IssueTicketRequest =
  it_DomainID :: string
  it_TTLSeconds :: int

abbreviation (input) defaultTicketTTL :: duration where "defaultTicketTTL \<equiv> 86400000000000"
abbreviation (input) maxTicketTTL :: duration where "maxTicketTTL \<equiv> 86400000000000"
abbreviation (input) maxOperationDuration :: duration where "maxOperationDuration \<equiv> 900000000000"

definition ticket_ttl :: "int \<Rightarrow> duration" where
  "ticket_ttl seconds = (let ttl = wrap64 (seconds * second) in if ttl = 0 then defaultTicketTTL else ttl)"

definition IssueTicket ::
  "(string \<Rightarrow> bool) \<Rightarrow> (string \<Rightarrow> string) \<Rightarrow> go_error + string \<Rightarrow> 8 word list option \<Rightarrow> string \<Rightarrow> string \<Rightarrow> IssueTicketRequest \<Rightarrow>
   gotime \<Rightarrow> (MCPAccessTicket \<times> string) proc" where
  "IssueTicket enabled sha randomSecret randomID ownerID actorID input now =
     (if TrimSpace (it_DomainID input) = [] then refuse (Err ''MCP ticket domain is required'')
      else if \<not> enabled ownerID then refuse (Err ''MCP connector is disabled'')
      else
        let ttl = ticket_ttl (it_TTLSeconds input)
        in if ttl < 60 * second \<or> ttl > maxTicketTTL
           then refuse (Err ''MCP access ticket TTL must be between 60 and 86400 seconds'')
           else (case randomSecret of
               Inl e \<Rightarrow> refuse e
             | Inr secret \<Rightarrow>
                 let ownerID = (if ownerID = [] then DefaultOwnerID else ownerID);
                     actorID = (if TrimSpace actorID = [] then ownerID else TrimSpace actorID)
                 in handle (call (\<lambda>cx env. SaveMCPAccessTicket cx env
                      \<lparr>ti_SchemaVersion = MCPAccessTicketSchemaVersion, ti_ID = NewID randomID ''mcp_ticket'', ti_SecretHash = sha secret,
                       ti_OwnerID = ownerID, ti_ActorID = actorID, ti_DomainID = TrimSpace (it_DomainID input),
                       ti_AuthorizationRevision = 1, ti_Scope = MCPAccessConversation, ti_Status = MCPAccessPending, ti_MaxUses = 1,
                       ti_UseCount = 0, ti_IssuedAt = now, ti_ExpiresAt = now + ttl, ti_ConsumedAt = None, ti_RevokedAt = None\<rparr>)) (\<lambda>r. case r of
                     Inl _ \<Rightarrow> refuse (Err ''MCP access ticket could not be persisted'')
                   | Inr t \<Rightarrow> also_do (audit_entry ''mcp.access_ticket.issued'' [] [] ownerID ''Issued a single-use MCP access ticket''
                         [(''ticket_id'', AnyString (ti_ID t)), (''domain_id'', AnyString (ti_DomainID t)),
                          (''scope'', AnyString (ti_Scope t)), (''expires_at'', AnyTime (ti_ExpiresAt t))]) (\<lambda>_.
                       answer (t\<lparr>ti_SecretHash := []\<rparr>, secret)))))"

definition auditPeerDenied :: "MCPPeerIdentity \<Rightarrow> string \<Rightarrow> string \<Rightarrow> (string, goany) gomap \<Rightarrow> unit proc" where
  "auditPeerDenied peer typ summary extra = audit_entry typ [] [] ''mcp'' summary
     (mput ''iscp_session_id'' (AnyString (pi_ISCPSessionID peer)) (mput ''requester_key_thumbprint'' (AnyString (pi_KeyThumbprint peer))
       (mput ''requester_device_id'' (AnyString (pi_DeviceID peer)) (mput ''domain_id'' (AnyString (pi_DomainID peer)) extra))))"

definition RedeemAccessTicket ::
  "(string \<Rightarrow> bool) \<Rightarrow> (string \<Rightarrow> string) \<Rightarrow> string \<Rightarrow> MCPPeerIdentity \<Rightarrow> MCPBinding proc" where
  "RedeemAccessTicket enabled sha secret peer =
     (if TrimSpace secret = [] \<or> pi_DomainID peer = [] \<or> pi_DeviceID peer = [] \<or> pi_KeyThumbprint peer = [] \<or> pi_ISCPSessionID peer = []
      then refuse ErrMCPAccessTicketInvalid
      else
        let denied = auditPeerDenied peer ''mcp.access_ticket.redeem_denied'' ''MCP access ticket redemption was denied''
        in also_do (call (\<lambda>cx env. FindMCPAccessTicketBySecretHash cx (sha secret))) (\<lambda>found.
           case (case found of None \<Rightarrow> None | Some t \<Rightarrow> if enabled (ti_OwnerID t) then Some t else None) of
             None \<Rightarrow> also_do (denied [(''reason'', AnyString ''invalid_or_unavailable'')]) (\<lambda>_. refuse ErrMCPAccessTicketInvalid)
           | Some t \<Rightarrow> at_time (\<lambda>now. handle (call (\<lambda>cx env. RedeemMCPAccessTicket cx env (sha secret) peer now)) (\<lambda>r. case r of
                 Inl _ \<Rightarrow> also_do (denied [(''ticket_id'', AnyString (ti_ID t)), (''reason'', AnyString ''invalid_or_consumed'')])
                   (\<lambda>_. refuse ErrMCPAccessTicketInvalid)
               | Inr b \<Rightarrow> also_do (audit_entry ''mcp.binding.activated'' (bi_LinkedSessionID b) [] (bi_ActorID b)
                     ''Activated an MCP binding for an authenticated external device''
                     [(''ticket_id'', AnyString (ti_ID t)), (''binding_id'', AnyString (bi_ID b)), (''domain_id'', AnyString (pi_DomainID peer)),
                      (''requester_device_id'', AnyString (pi_DeviceID peer)),
                      (''requester_key_thumbprint'', AnyString (pi_KeyThumbprint peer)),
                      (''iscp_session_id'', AnyString (pi_ISCPSessionID peer)),
                      (''binding_revision'', AnyNumber (of_int (bi_AuthorizationRevision b)))]) (\<lambda>_. answer b)))))"

text \<open>The binding under which the service serves a peer, or none.\<close>

definition ActiveBindingForPeer :: "(string \<Rightarrow> bool) \<Rightarrow> MCPPeerIdentity \<Rightarrow> MCPBinding option proc" where
  "ActiveBindingForPeer enabled peer =
     handle (call (\<lambda>cx env. FindMCPBindingForPeer cx (pi_DomainID peer) (pi_DeviceID peer) (pi_KeyThumbprint peer))) (\<lambda>r. case r of
       Inr (Some b) \<Rightarrow> answer (if bi_SchemaVersion b = MCPBindingSchemaVersion \<and> bi_Scope b = MCPAccessConversation \<and>
           bi_Status b = MCPBindingActive \<and> enabled (bi_OwnerID b) then Some b else None)
     | _ \<Rightarrow> answer None)"

section \<open>Starting an operation\<close>

text \<open>
  The part of \<open>callTool\<close> that makes a conversation call durable, behind its checks of names, arguments and deadline. The binding is
  read again and the operation created while the service holds its mutex, under which the service also revokes and deletes bindings:
  the two are one call here. The identities of an operation are digests of its binding and its idempotency key; \<open>sum256\<close> is the
  SHA-256 digest of a text, as bytes. Nothing is assumed of it.
\<close>

definition stableID :: "(string \<Rightarrow> 8 word list) \<Rightarrow> string \<Rightarrow> string list \<Rightarrow> string" where
  "stableID sum256 pre values =
     pre @ ''_'' @ hex_encode (take 16 (sum256 (concat (map (\<lambda>v. v @ [CHR 0x00]) values))))"

record tool_call =
  tl_Peer :: MCPPeerIdentity
  tl_Binding :: MCPBinding
  tl_SessionID :: string
  tl_IdempotencyKey :: string
  tl_Deadline :: gotime
  tl_RequestID :: string
  tl_Name :: string
  tl_Arguments :: "(string, goany) gomap"
  tl_ArgumentDigest :: string
  tl_Fingerprint :: string

datatype tool_answer =
    ToolRefused int string
  | ToolReplayed MCPOperation
  | ToolFailed MCPOperation
  | ToolStarted MCPOperation Session

definition requested_operation :: "(string \<Rightarrow> 8 word list) \<Rightarrow> tool_call \<Rightarrow> gotime \<Rightarrow> MCPOperation" where
  "requested_operation sum256 t now =
     (let b = tl_Binding t; key = tl_IdempotencyKey t; i = stableID sum256 ''mcp_operation'' [bi_ID b, key]
      in \<lparr>mo_SchemaVersion = MCPOperationSchemaVersion, mo_ID = i, mo_BindingID = bi_ID b, mo_IdempotencyKey = key,
          mo_Fingerprint = tl_Fingerprint t,
          mo_Invocation = \<lparr>in_SchemaVersion = MCPInvocationSchemaVersion, in_ID = stableID sum256 ''mcp_invocation'' [bi_ID b, key],
            in_MCPRequestID = tl_RequestID t, in_MCPSessionID = tl_SessionID t, in_ISCPSessionID = pi_ISCPSessionID (tl_Peer t),
            in_OperationID = i, in_RequesterDeviceID = pi_DeviceID (tl_Peer t), in_RequesterKeyThumbprint = pi_KeyThumbprint (tl_Peer t),
            in_BindingRef = bi_ID b, in_BindingRevision = bi_AuthorizationRevision b, in_OwnerID = bi_OwnerID b, in_ActorID = bi_ActorID b,
            in_ToolName = tl_Name t, in_Arguments = map_norm (tl_Arguments t), in_ArgumentDigest = tl_ArgumentDigest t,
            in_IdempotencyKey = key, in_Deadline = (if IsZero (tl_Deadline t) then now + maxOperationDuration else tl_Deadline t),
            in_MessageID = stableID sum256 ''m_mcp'' [bi_ID b, key], in_RunID = stableID sum256 ''run_mcp'' [bi_ID b, key], in_DeliveryID = [],
            in_CreatedAt = now\<rparr>,
          mo_State = MCPOperationRunning, mo_Result = [], mo_ErrorCode = [], mo_ErrorMessage = [], mo_Version = 0, mo_CreatedAt = 0,
          mo_UpdatedAt = 0, mo_CompletedAt = None\<rparr>)"

definition create_under_binding ::
  "tool_call \<Rightarrow> MCPOperation \<Rightarrow> op_ctx \<Rightarrow> op_env \<Rightarrow> MemoryStore \<Rightarrow> ((go_error + int \<times> string) + MCPOperation \<times> bool) outcome" where
  "create_under_binding t p cx env s = (case fst (GetMCPBinding cx (bi_ID (tl_Binding t)) s) of
     Inl e \<Rightarrow> (Inr (Inl (Inr (-32603, ''MCP binding state is temporarily unavailable''))), s)
   | Inr found \<Rightarrow>
       if (case found of None \<Rightarrow> True | Some b \<Rightarrow>
           bi_Status b \<noteq> MCPBindingActive \<or> bi_AuthorizationRevision b \<noteq> bi_AuthorizationRevision (tl_Binding t) \<or>
           bi_RequesterDeviceID b \<noteq> pi_DeviceID (tl_Peer t) \<or> bi_RequesterKeyThumbprint b \<noteq> pi_KeyThumbprint (tl_Peer t))
       then (Inr (Inl (Inr (-32003, ''active MCP binding is required''))), s)
       else (case CreateMCPOperation cx env p s of
           (Inl e, s') \<Rightarrow> (Inr (Inl (Inl e)), s')
         | (Inr r, s') \<Rightarrow> (Inr (Inr r), s')))"

definition start_operation ::
  "json_lib \<Rightarrow> (string \<Rightarrow> 8 word list) \<Rightarrow> tool_call \<Rightarrow> tool_answer proc" where
  "start_operation lib sum256 t = at_time (\<lambda>now.
     if \<not> IsZero (tl_Deadline t) \<and> now + maxOperationDuration < tl_Deadline t
     then answer (ToolRefused (-32602) ''deadline must be within 15 minutes'')
     else
       let p = requested_operation sum256 t now; b = tl_Binding t
       in also_do (call (create_under_binding t p)) (\<lambda>r. case r of
            Inl (Inr (code, message)) \<Rightarrow> answer (ToolRefused code message)
          | Inl (Inl e) \<Rightarrow>
              if err_is e ErrMCPOperationConflict
              then also_do (audit_entry ''mcp.tool.denied'' (bi_LinkedSessionID b) [] (bi_ActorID b) ''Denied an MCP tool invocation''
                  [(''binding_id'', AnyString (bi_ID b)), (''binding_revision'', AnyNumber (of_int (bi_AuthorizationRevision b))),
                   (''requester_device_id'', AnyString (pi_DeviceID (tl_Peer t))), (''tool_name'', AnyString (tl_Name t)),
                   (''reason'', AnyString ''idempotency_conflict'')])
                (\<lambda>_. answer (ToolRefused (-32004) (error_text e)))
              else answer (ToolRefused (-32603) ''MCP operation could not be persisted'')
          | Inr (stored, False) \<Rightarrow>
              also_do (auditOperationStore ''mcp.operation.replayed'' stored ''Returned the durable result for an idempotent MCP invocation''
                [(''iscp_session_id'', AnyString (pi_ISCPSessionID (tl_Peer t))), (''outcome'', AnyString (mo_State stored))])
              (\<lambda>_. answer (ToolReplayed stored))
          | Inr (stored, True) \<Rightarrow>
              also_do (auditOperationStore ''mcp.operation.created'' stored ''Created a durable MCP invocation''
                [(''iscp_session_id'', AnyString (pi_ISCPSessionID (tl_Peer t))), (''scope'', AnyString (bi_Scope b))]) (\<lambda>_.
              handle (call (\<lambda>cx env. GetSession cx (bi_LinkedSessionID b))) (\<lambda>r.
              let title = (case r of Inr (Some se) \<Rightarrow> if TrimSpace (se_Title se) \<noteq> [] then se_Title se else ''AI'' | _ \<Rightarrow> ''AI'')
              in handle (call (\<lambda>cx env. CreateSessionWithScope cx env title (bi_OwnerID b) [] ''mcp'' True)) (\<lambda>r. case r of
                  Inr session \<Rightarrow> answer (ToolStarted stored session)
                | Inl _ \<Rightarrow>
                    also_do (ignoring (finishOperationError lib (mo_ID p) ''session_create_failed''
                      ''Temporary MCP request state could not be created'')) (\<lambda>_.
                    handle (read_operation (mo_ID p)) (\<lambda>r. case r of
                      Inr (Some failed) \<Rightarrow> answer (ToolFailed failed)
                    | _ \<Rightarrow> answer (ToolRefused (-32603) ''MCP request state could not be created''))))))))"

section \<open>Revoking and deleting\<close>

fun finalizeRevokedOperations :: "json_lib \<Rightarrow> MCPOperation list \<Rightarrow> unit proc" where
  "finalizeRevokedOperations lib [] = answer ()"
| "finalizeRevokedOperations lib (p # ps) =
     (if mo_State p \<noteq> MCPOperationRevoked then finalizeRevokedOperations lib ps
      else also_do (rejectPendingApprovals lib p) (\<lambda>_.
        also_do (auditOperationStore ''mcp.operation.revoked'' p ''Revoked an MCP operation with its binding''
          [(''outcome'', AnyString (mo_State p)), (''error_code'', AnyString (mo_ErrorCode p))]) (\<lambda>_.
        also_do (cleanupMCPOperationSession p) (\<lambda>_. finalizeRevokedOperations lib ps))))"

definition RevokeBinding :: "json_lib \<Rightarrow> string \<Rightarrow> gotime \<Rightarrow> MCPBinding proc" where
  "RevokeBinding lib i now = also_do (call (\<lambda>cx env. RevokeMCPBinding cx i now)) (\<lambda>b.
     also_do (call (\<lambda>cx env. ListMCPOperations cx i)) (\<lambda>ps.
     also_do (finalizeRevokedOperations lib ps) (\<lambda>_. answer b)))"

definition DeleteBinding :: "json_lib \<Rightarrow> string \<Rightarrow> string \<Rightarrow> gotime \<Rightarrow> MCPBinding proc" where
  "DeleteBinding lib ownerID i now = also_do (call (\<lambda>cx env. GetMCPBinding cx i)) (\<lambda>found. case found of
     None \<Rightarrow> refuse ErrMCPBindingUnavailable
   | Some b \<Rightarrow>
       if bi_OwnerID b \<noteq> ownerID then refuse ErrMCPBindingUnavailable
       else also_do (if bi_Status b \<noteq> MCPBindingRevoked then call (\<lambda>cx env. RevokeMCPBinding cx i now) else answer b) (\<lambda>b.
         also_do (call (\<lambda>cx env. ListMCPOperations cx i)) (\<lambda>ps.
         also_do (finalizeRevokedOperations lib ps) (\<lambda>_.
         call (\<lambda>cx env. DeleteMCPBinding cx ownerID i)))))"

fun revoke_each :: "json_lib \<Rightarrow> gotime \<Rightarrow> MCPBinding list \<Rightarrow> unit proc" where
  "revoke_each lib now [] = answer ()"
| "revoke_each lib now (b # bs) =
     also_do (if bi_Status b \<noteq> MCPBindingRevoked then call (\<lambda>cx env. RevokeMCPBinding cx (bi_ID b) now) else answer b) (\<lambda>_.
     also_do (call (\<lambda>cx env. ListMCPOperations cx (bi_ID b))) (\<lambda>ps.
     also_do (finalizeRevokedOperations lib ps) (\<lambda>_. revoke_each lib now bs)))"

definition DeleteAccessRecords :: "json_lib \<Rightarrow> string \<Rightarrow> gotime \<Rightarrow> MCPAccessRecordDeletion proc" where
  "DeleteAccessRecords lib ownerID now = also_do (call (\<lambda>cx env. ListMCPBindings cx ownerID)) (\<lambda>bs.
     also_do (revoke_each lib now bs) (\<lambda>_. call (\<lambda>cx env. DeleteMCPAccessRecords cx ownerID)))"

end
