(* ===== verification/MCP_Service.thy ===== *)
theory MCP_Service
  imports MCP_Service_Operations Repository
begin

text \<open>
  What the service of external agents guarantees while its functions run beside each other. The functions are related to steps of
  one state machine, whose state is the store, the copies of operations that running functions hold, and the identities of the
  bindings issued so far. Shown: an operation that has ended never changes again, an operation that has not belongs to an
  active binding, and an update takes effect once, on the operation as it is stored at that moment.
\<close>

section \<open>The mutations\<close>

definition service_mutation :: "mutation \<Rightarrow> bool" where
  "service_mutation m \<longleftrightarrow> (\<exists>code message. m = fail_with code message) \<or> m = cancelled \<or> (\<exists>at'. m = rejected_at at') \<or> m = resumed \<or>
     m = parked \<or> (\<exists>payload xs result content. m = synchronized payload xs result content) \<or> (\<exists>raw st e. m = delivered raw st e)"

lemma terminal_eq: "operationTerminal = mcpOperationTerminal"
  by (simp add: fun_eq_iff operationTerminal_def mcpOperationTerminal_def)

text \<open>What an operation looks like in every state: it is completed exactly when it has ended.\<close>

definition completed_ok :: "MCPOperation \<Rightarrow> bool" where
  "completed_ok p \<longleftrightarrow> (mo_CompletedAt p \<noteq> None) = operationTerminal (mo_State p) \<and>
     (operationTerminal (mo_State p) \<or> mo_State p \<in> {MCPOperationRunning, MCPOperationApprovalRequired})"

lemma applied_fields:
  "mo_ID (applyWorkflowResultToOperation st e now p) = mo_ID p" "operation_key (applyWorkflowResultToOperation st e now p) = operation_key p"
  "mo_BindingID (applyWorkflowResultToOperation st e now p) = mo_BindingID p"
  "mo_IdempotencyKey (applyWorkflowResultToOperation st e now p) = mo_IdempotencyKey p"
  "mo_Version (applyWorkflowResultToOperation st e now p) = mo_Version p" "completed_ok (applyWorkflowResultToOperation st e now p)"
  by (simp_all add: applyWorkflowResultToOperation_def Let_def operation_key_def completed_ok_def operationTerminal_def)

lemma mutation_fields:
  assumes "service_mutation m" and "m now p = Some p'"
  shows "\<not> operationTerminal (mo_State p) \<and> mo_ID p' = mo_ID p \<and> mo_BindingID p' = mo_BindingID p \<and>
    mo_IdempotencyKey p' = mo_IdempotencyKey p \<and> mo_Version p' = mo_Version p \<and> completed_ok p'"
proof -
  have simple: "\<not> operationTerminal (mo_State p) \<and> mo_ID p' = mo_ID p \<and> mo_BindingID p' = mo_BindingID p \<and>
      mo_IdempotencyKey p' = mo_IdempotencyKey p \<and> mo_Version p' = mo_Version p \<and> completed_ok p'"
    if "fail_with code message now p = Some p' \<or> cancelled now p = Some p' \<or> rejected_at at' now p = Some p' \<or> resumed now p = Some p' \<or>
      parked now p = Some p'" for code message at'
    using that
    by (auto simp: fail_with_def cancelled_def rejected_at_def resumed_def parked_def completed_ok_def operationTerminal_def split: if_splits)
  show ?thesis
    using assms simple
    by (auto simp: service_mutation_def synchronized_def delivered_def applied_fields split: option.splits if_splits)
qed

lemma updated_completed_ok: "completed_ok p \<Longrightarrow> completed_ok (updated_operation env x p)"
  by (simp add: completed_ok_def updated_operation_def normalizeMCPTimePointer_def)

section \<open>The service as a state machine\<close>

record service_state =
  ag_store :: MemoryStore
  ag_reads :: "MCPOperation set"
  ag_issued :: "string set"

text \<open>The calls of the repository the service makes: an operation is created under an active binding, with the identity that its
  binding and key determine, and updated to what a mutation makes of a copy read before.\<close>

fun permitted :: "(string \<Rightarrow> 8 word list) \<Rightarrow> service_state \<Rightarrow> mcp_write \<Rightarrow> bool" where
  "permitted sum256 a (CreateOperation cx env p) \<longleftrightarrow>
     (\<exists>b. mget (st_mcpBindings (ag_store a)) (mo_BindingID p) = Some b \<and> bi_Status b = MCPBindingActive) \<and>
     mo_ID p = stableID sum256 ''mcp_operation'' [mo_BindingID p, mo_IdempotencyKey p] \<and> mo_State p = MCPOperationRunning \<and>
     mo_CompletedAt p = None \<and> mo_Version p = 0"
| "permitted sum256 a (UpdateOperation cx env p v) \<longleftrightarrow>
     v = mo_Version p \<and> (\<exists>x \<in> ag_reads a. \<exists>m now. service_mutation m \<and> m now x = Some p)"
| "permitted sum256 a _ \<longleftrightarrow> True"

definition issued_by :: "mcp_write \<Rightarrow> string set" where
  "issued_by c = (case c of RedeemTicket cx env h peer now \<Rightarrow> {NewID (en_rand env) ''mcp_binding''} | _ \<Rightarrow> {})"

inductive service_step :: "(string \<Rightarrow> 8 word list) \<Rightarrow> service_state \<Rightarrow> service_state \<Rightarrow> bool" for sum256 where
  step_read: "mget (st_mcpOperations (ag_store a)) i = Some p \<Longrightarrow> service_step sum256 a (a\<lparr>ag_reads := insert p (ag_reads a)\<rparr>)"
| step_write: "permitted sum256 a c \<Longrightarrow>
    service_step sum256 a (a\<lparr>ag_store := mcp_call c (ag_store a), ag_issued := issued_by c \<union> ag_issued a\<rparr>)"
| step_elsewhere: "agent_part s = agent_part (ag_store a) \<Longrightarrow> service_step sum256 a (a\<lparr>ag_store := s\<rparr>)"

inductive_cases service_stepE: "service_step sum256 a a'"

text \<open>
  A step is orderly when no version counter is at its last value and no new binding gets the identity of an earlier one: versions
  are 64-bit counters that start at 1, and identities of bindings are random.
\<close>

definition orderly :: "(string \<Rightarrow> 8 word list) \<Rightarrow> service_state \<Rightarrow> service_state \<Rightarrow> bool" where
  "orderly sum256 a a' \<longleftrightarrow> service_step sum256 a a' \<and>
     (\<forall>p \<in> set (mvals (st_mcpOperations (ag_store a))). mo_Version p < 9223372036854775807) \<and>
     (\<forall>i \<in> ag_issued a. mget (st_mcpBindings (ag_store a)) i = None \<longrightarrow> mget (st_mcpBindings (ag_store a')) i = None)"

definition no_agents :: "service_state \<Rightarrow> bool" where
  "no_agents a \<longleftrightarrow> empty_store (ag_store a) \<and> ag_reads a = {} \<and> ag_issued a = {}"

lemma stableID_nonempty: "stableID sum256 pre values \<noteq> []"
  by (simp add: stableID_def)

section \<open>The invariant\<close>

definition operation_ok :: "(string \<Rightarrow> 8 word list) \<Rightarrow> MemoryStore \<Rightarrow> MCPOperation \<Rightarrow> bool" where
  "operation_ok sum256 s p \<longleftrightarrow> completed_ok p \<and> 0 < mo_Version p \<and> mo_ID p = stableID sum256 ''mcp_operation'' [mo_BindingID p, mo_IdempotencyKey p] \<and>
     (\<exists>b. mget (st_mcpBindings s) (mo_BindingID p) = Some b \<and>
       (operationTerminal (mo_State p) \<or> bi_Status b = MCPBindingActive))"

text \<open>
  A copy is the stored operation or an older version of it, or its binding is gone. Digests may collide: an operation of another
  binding may then be stored under the identity of the copy, and only when the binding of the copy is gone.
\<close>

definition copy_ok :: "service_state \<Rightarrow> MCPOperation \<Rightarrow> bool" where
  "copy_ok a x \<longleftrightarrow> mo_BindingID x \<in> ag_issued a \<and>
     (case mget (st_mcpOperations (ag_store a)) (mo_ID x) of
        None \<Rightarrow> mget (st_mcpBindings (ag_store a)) (mo_BindingID x) = None
      | Some p \<Rightarrow> if mo_BindingID p = mo_BindingID x then p = x \<or> mo_Version x < mo_Version p
          else mget (st_mcpBindings (ag_store a)) (mo_BindingID x) = None)"

definition agents_inv :: "(string \<Rightarrow> 8 word list) \<Rightarrow> service_state \<Rightarrow> bool" where
  "agents_inv sum256 a \<longleftrightarrow> mcp_inv (ag_store a) \<and>
     (\<forall>i. mget (st_mcpBindings (ag_store a)) i \<noteq> None \<longrightarrow> i \<in> ag_issued a) \<and>
     (\<forall>i p. mget (st_mcpOperations (ag_store a)) i = Some p \<longrightarrow> operation_ok sum256 (ag_store a) p) \<and>
     (\<forall>x \<in> ag_reads a. copy_ok a x)"

lemma agents_inv_get:
  assumes "agents_inv sum256 a" and "mget (st_mcpOperations (ag_store a)) i = Some p"
  shows "mo_ID p = i" and "operation_ok sum256 (ag_store a) p" and "mo_BindingID p \<in> ag_issued a"
    and "p \<in> set (mvals (st_mcpOperations (ag_store a)))"
proof -
  have k: "keyed mo_ID (st_mcpOperations (ag_store a))"
    using assms(1) by (simp add: agents_inv_def mcp_inv_tables(6))
  show "mo_ID p = i" by (rule keyed_get [OF k assms(2)])
  show ok: "operation_ok sum256 (ag_store a) p" using assms by (simp add: agents_inv_def)
  then show "mo_BindingID p \<in> ag_issued a" using assms(1) by (auto simp: operation_ok_def agents_inv_def)
  show "p \<in> set (mvals (st_mcpOperations (ag_store a)))" using assms(2) by (force simp: mvals_def dest!: map_of_SomeD)
qed

text \<open>How the tables may change: a binding that is gone does not come back, an operation appears only under a stored binding, and
  a stored operation stays, or gets a later version, or goes together with its binding.\<close>

definition tables_move :: "string set \<Rightarrow> MemoryStore \<Rightarrow> MemoryStore \<Rightarrow> bool" where
  "tables_move issued s s' \<longleftrightarrow>
     (\<forall>i \<in> issued. mget (st_mcpBindings s) i = None \<longrightarrow> mget (st_mcpBindings s') i = None) \<and>
     (\<forall>i p. mget (st_mcpOperations s) i = None \<and> mget (st_mcpOperations s') i = Some p \<longrightarrow> mget (st_mcpBindings s) (mo_BindingID p) \<noteq> None) \<and>
     (\<forall>i p. mget (st_mcpOperations s) i = Some p \<longrightarrow> (case mget (st_mcpOperations s') i of
        None \<Rightarrow> mget (st_mcpBindings s') (mo_BindingID p) = None
      | Some p' \<Rightarrow> mo_BindingID p' = mo_BindingID p \<and> (p' = p \<or> mo_Version p < mo_Version p' \<and> \<not> operationTerminal (mo_State p))))"

lemma tables_moveD:
  assumes "tables_move issued s s'"
  shows "j \<in> issued \<Longrightarrow> mget (st_mcpBindings s) j = None \<Longrightarrow> mget (st_mcpBindings s') j = None"
    and "mget (st_mcpOperations s) i = None \<Longrightarrow> mget (st_mcpOperations s') i = Some q \<Longrightarrow> mget (st_mcpBindings s) (mo_BindingID q) \<noteq> None"
    and "mget (st_mcpOperations s) i = Some p \<Longrightarrow> mget (st_mcpOperations s') i = None \<Longrightarrow> mget (st_mcpBindings s') (mo_BindingID p) = None"
    and "mget (st_mcpOperations s) i = Some p \<Longrightarrow> mget (st_mcpOperations s') i = Some q \<Longrightarrow> mo_BindingID q = mo_BindingID p \<and>
      (q = p \<or> mo_Version p < mo_Version q \<and> \<not> operationTerminal (mo_State p))"
proof -
  have m: "case mget (st_mcpOperations s') i of None \<Rightarrow> mget (st_mcpBindings s') (mo_BindingID p) = None
      | Some p' \<Rightarrow> mo_BindingID p' = mo_BindingID p \<and> (p' = p \<or> mo_Version p < mo_Version p' \<and> \<not> operationTerminal (mo_State p))"
    if "mget (st_mcpOperations s) i = Some p"
    using assms that unfolding tables_move_def by blast
  show "mget (st_mcpBindings s') (mo_BindingID p) = None"
    if "mget (st_mcpOperations s) i = Some p" "mget (st_mcpOperations s') i = None"
    using m [OF that(1)] that(2) by simp
  show "mo_BindingID q = mo_BindingID p \<and> (q = p \<or> mo_Version p < mo_Version q \<and> \<not> operationTerminal (mo_State p))"
    if "mget (st_mcpOperations s) i = Some p" "mget (st_mcpOperations s') i = Some q"
    using m [OF that(1)] that(2) by simp
qed (use assms in \<open>auto simp: tables_move_def\<close>)

text \<open>While a binding is gone, no operation of it appears.\<close>

lemma tables_move_gone:
  assumes "tables_move issued s s'" and "mget (st_mcpBindings s) b = None" and "mget (st_mcpOperations s') i = Some q"
    and "\<And>p. mget (st_mcpOperations s) i = Some p \<Longrightarrow> mo_BindingID p \<noteq> b"
  shows "mo_BindingID q \<noteq> b"
proof (cases "mget (st_mcpOperations s) i")
  case None
  then show ?thesis using tables_moveD(2) [OF assms(1) None assms(3)] assms(2) by auto
next
  case (Some p)
  then show ?thesis using tables_moveD(4) [OF assms(1) Some assms(3)] assms(4) by auto
qed

lemma copy_kept:
  assumes c: "copy_ok a x" and move: "tables_move (ag_issued a) (ag_store a) s'" and J: "ag_issued a \<subseteq> J"
  shows "copy_ok \<lparr>ag_store = s', ag_reads = R, ag_issued = J\<rparr> x"
proof (cases "\<exists>p. mget (st_mcpOperations (ag_store a)) (mo_ID x) = Some p \<and> mo_BindingID p = mo_BindingID x")
  case True
  then obtain p where p: "mget (st_mcpOperations (ag_store a)) (mo_ID x) = Some p" "mo_BindingID p = mo_BindingID x" by blast
  then have v: "p = x \<or> mo_Version x < mo_Version p" using c by (simp add: copy_ok_def)
  show ?thesis
    using tables_moveD(3,4) [OF move p(1)] v p(2) c J
    by (cases "mget (st_mcpOperations s') (mo_ID x)") (auto simp: copy_ok_def)
next
  case False
  then have gone: "mget (st_mcpBindings (ag_store a)) (mo_BindingID x) = None" "mo_BindingID x \<in> ag_issued a"
    using c by (auto simp: copy_ok_def split: option.splits if_splits)
  show ?thesis
    using tables_moveD(1) [OF move gone(2,1)] tables_move_gone [OF move gone(1)] False gone(2) J
    by (cases "mget (st_mcpOperations s') (mo_ID x)") (auto simp: copy_ok_def)
qed

lemma agents_inv_move:
  assumes "agents_inv sum256 a" and "tables_move (ag_issued a) (ag_store a) s'" and "mcp_inv s'"
    and "\<forall>i p. mget (st_mcpOperations s') i = Some p \<longrightarrow> operation_ok sum256 s' p"
    and "ag_issued a \<subseteq> J" and "\<forall>i. mget (st_mcpBindings s') i \<noteq> None \<longrightarrow> i \<in> J"
  shows "agents_inv sum256 \<lparr>ag_store = s', ag_reads = ag_reads a, ag_issued = J\<rparr>"
  using assms copy_kept [OF _ assms(2,5)] by (simp add: agents_inv_def)

lemma operation_ok_bindings:
  assumes "operation_ok sum256 s p"
    and "\<And>b. mget (st_mcpBindings s) (mo_BindingID p) = Some b \<Longrightarrow> \<exists>b'. mget (st_mcpBindings s') (mo_BindingID p) = Some b' \<and>
      (operationTerminal (mo_State p) \<or> bi_Status b = MCPBindingActive \<longrightarrow> operationTerminal (mo_State p) \<or> bi_Status b' = MCPBindingActive)"
  shows "operation_ok sum256 s' p"
  using assms unfolding operation_ok_def by (metis (no_types, lifting))

text \<open>What a call of the service does to the tables, and to what they hold.\<close>

definition good_move :: "(string \<Rightarrow> 8 word list) \<Rightarrow> string set \<Rightarrow> string set \<Rightarrow> MemoryStore \<Rightarrow> MemoryStore \<Rightarrow> bool" where
  "good_move sum256 issued later s s' \<longleftrightarrow> tables_move issued s s' \<and>
     (\<forall>i p. mget (st_mcpOperations s') i = Some p \<longrightarrow> operation_ok sum256 s' p) \<and>
     (\<forall>i. mget (st_mcpBindings s') i \<noteq> None \<longrightarrow> i \<in> later)"

abbreviation uncounted :: "MemoryStore \<Rightarrow> bool" where
  "uncounted s \<equiv> \<forall>p \<in> set (mvals (st_mcpOperations s)). mo_Version p < 9223372036854775807"

lemma next_version: "0 < v \<Longrightarrow> v < 9223372036854775807 \<Longrightarrow> v < wrap64 (v + 1)"
  by (simp add: wrap64_def)

lemma revoked_move:
  assumes "operation_ok sum256 s p" and "mo_Version p < 9223372036854775807"
  shows "revoke_operation i t p = p \<or> mo_Version p < mo_Version (revoke_operation i t p) \<and> \<not> operationTerminal (mo_State p)"
    and "completed_ok (revoke_operation i t p) \<and> 0 < mo_Version (revoke_operation i t p)"
  using assms next_version [of "mo_Version p"]
  by (auto simp: operation_ok_def revoke_operation_def terminal_eq completed_ok_def mcpOperationTerminal_def)

lemma revoke_key: "mo_IdempotencyKey (revoke_operation i t p) = mo_IdempotencyKey p"
  by (simp add: revoke_operation_def)

lemma operation_ok_same: "st_mcpBindings s' = st_mcpBindings s \<Longrightarrow> operation_ok sum256 s' p = operation_ok sum256 s p"
  by (simp add: operation_ok_def)

lemma agents_ops:
  assumes "agents_inv sum256 a"
  shows "mget (st_mcpOperations (ag_store a)) i = Some p \<Longrightarrow> operation_ok sum256 (ag_store a) p"
    and "mget (st_mcpBindings (ag_store a)) i = Some b \<Longrightarrow> i \<in> ag_issued a"
    and "keyed mo_ID (st_mcpOperations (ag_store a))" and "keyed bi_ID (st_mcpBindings (ag_store a))"
  using assms mcp_inv_tables(5,6) by (auto simp: agents_inv_def)

lemma revoke_moves:
  assumes inv: "agents_inv sum256 a" and count: "uncounted (ag_store a)" and b: "mget (st_mcpBindings (ag_store a)) i = Some b"
  shows "good_move sum256 (ag_issued a) (ag_issued a) (ag_store a) (revoke_store i b t (ag_store a))"
proof -
  let ?s = "ag_store a" and ?s' = "revoke_store i b t (ag_store a)"
  have ops: "mget (st_mcpOperations ?s') k = map_option (revoke_operation i t) (mget (st_mcpOperations ?s) k)" for k
    by (simp add: revoke_store_def mget_mrewrite)
  have binds: "mget (st_mcpBindings ?s') k = (if k = i then Some (revoked_binding b t) else mget (st_mcpBindings ?s) k)" for k
    using b by (simp add: revoke_store_def revoked_binding_def)
  have small: "mo_Version p < 9223372036854775807" if "mget (st_mcpOperations ?s) k = Some p" for k p
    using count agents_inv_get(4) [OF inv that] by blast
  have "operation_ok sum256 ?s' (revoke_operation i t p)" if "mget (st_mcpOperations ?s) k = Some p" for k p
  proof -
    note ok = agents_ops(1) [OF inv that]
    show ?thesis
    proof (cases "mo_BindingID p = i")
      case True
      then show ?thesis
        using ok revoked_move(2) [OF ok small [OF that], of i t] revoke_operation_fields(5) [OF True, of t]
        by (simp add: operation_ok_def binds revoke_operation_fields revoke_key terminal_eq)
    next
      case False
      then have "revoke_operation i t p = p" by (simp add: revoke_operation_def)
      with False ok show ?thesis by (simp add: operation_ok_def binds)
    qed
  qed
  moreover have "mo_BindingID (revoke_operation i t p) = mo_BindingID p" for p by (simp add: revoke_operation_def)
  then have "tables_move (ag_issued a) ?s ?s'"
    unfolding tables_move_def ops binds using revoked_move(1) [OF agents_ops(1) [OF inv] small] b by auto
  ultimately show ?thesis
    using agents_ops(2) [OF inv] b by (auto simp: good_move_def ops binds)
qed

lemma remove_moves:
  assumes inv: "agents_inv sum256 a"
    and ops: "\<And>k. mget (st_mcpOperations s') k = (case mget (st_mcpOperations (ag_store a)) k of None \<Rightarrow> None
      | Some p \<Rightarrow> if keep (mo_BindingID p) then Some p else None)"
    and binds: "\<And>k. mget (st_mcpBindings s') k = (if keep k then mget (st_mcpBindings (ag_store a)) k else None)"
  shows "good_move sum256 (ag_issued a) (ag_issued a) (ag_store a) s'"
proof -
  have "operation_ok sum256 s' p" if "mget (st_mcpOperations (ag_store a)) k = Some p" "keep (mo_BindingID p)" for k p
    using agents_ops(1) [OF inv that(1)] that(2) by (auto simp: operation_ok_def binds)
  then show ?thesis
    using agents_ops(2) [OF inv] by (auto simp: good_move_def tables_move_def ops binds split: option.splits if_splits)
qed

lemma rebind_moves:
  assumes inv: "agents_inv sum256 a" and ops: "st_mcpOperations s' = st_mcpOperations (ag_store a)"
    and binds: "st_mcpBindings s' = mput i b (st_mcpBindings (ag_store a))" and J: "ag_issued a \<subseteq> J" "i \<in> J"
    and fresh: "i \<in> ag_issued a \<longrightarrow> mget (st_mcpBindings (ag_store a)) i \<noteq> None"
    and active: "bi_Status b = MCPBindingActive"
  shows "good_move sum256 (ag_issued a) J (ag_store a) s'"
proof -
  have "operation_ok sum256 s' p" if "mget (st_mcpOperations (ag_store a)) k = Some p" for k p
    using agents_ops(1) [OF inv that] active by (auto simp: operation_ok_def binds mget_mput)
  then show ?thesis
    using agents_ops(2) [OF inv] J fresh by (auto simp: good_move_def tables_move_def ops binds mget_mput split: option.splits if_splits)
qed

lemma create_moves:
  assumes inv: "agents_inv sum256 a" and ok: "operation_ok sum256 (ag_store a) p" and new: "mget (st_mcpOperations (ag_store a)) (mo_ID p) = None"
  shows "good_move sum256 (ag_issued a) (ag_issued a) (ag_store a)
    ((ag_store a)\<lparr>st_mcpOperations := mput (mo_ID p) p (st_mcpOperations (ag_store a))\<rparr>)"
proof -
  let ?s' = "(ag_store a)\<lparr>st_mcpOperations := mput (mo_ID p) p (st_mcpOperations (ag_store a))\<rparr>"
  have same: "operation_ok sum256 ?s' q = operation_ok sum256 (ag_store a) q" for q by (rule operation_ok_same) simp
  have "\<exists>b. mget (st_mcpBindings (ag_store a)) (mo_BindingID p) = Some b" using ok by (auto simp: operation_ok_def)
  then show ?thesis
    using agents_ops(1,2) [OF inv] ok new
    unfolding good_move_def same by (auto simp: tables_move_def mget_mput split: option.splits if_splits)
qed

lemma update_moves:
  assumes inv: "agents_inv sum256 a" and count: "uncounted (ag_store a)" and x: "mget (st_mcpOperations (ag_store a)) (mo_ID x) = Some x"
    and m: "service_mutation m" "m now x = Some p"
  shows "good_move sum256 (ag_issued a) (ag_issued a) (ag_store a)
    ((ag_store a)\<lparr>st_mcpOperations := mput (mo_ID p) (updated_operation env x p) (st_mcpOperations (ag_store a))\<rparr>)"
proof -
  let ?s' = "(ag_store a)\<lparr>st_mcpOperations := mput (mo_ID p) (updated_operation env x p) (st_mcpOperations (ag_store a))\<rparr>"
  have same: "operation_ok sum256 ?s' q = operation_ok sum256 (ag_store a) q" for q by (rule operation_ok_same) simp
  note f = mutation_fields [OF m]
  have ok: "operation_ok sum256 (ag_store a) x" using agents_ops(1) [OF inv x] .
  have "mo_Version x < 9223372036854775807" using count agents_inv_get(4) [OF inv x] by blast
  then have v: "mo_Version x < mo_Version (updated_operation env x p)"
    using ok next_version by (simp add: operation_ok_def updated_operation_def)
  have "operation_ok sum256 (ag_store a) (updated_operation env x p)"
    using ok f v updated_completed_ok [of p env x] by (auto simp: operation_ok_def updated_operation_def)
  moreover have "mo_ID p = mo_ID x" "\<not> operationTerminal (mo_State x)" "mo_BindingID (updated_operation env x p) = mo_BindingID x"
    using f by (simp_all add: updated_operation_def)
  ultimately show ?thesis
    using agents_ops(1,2) [OF inv] x v
    unfolding good_move_def same by (auto simp: tables_move_def mget_mput split: option.splits if_splits)
qed

lemma good_move_later: "good_move sum256 issued later s s' \<Longrightarrow> later \<subseteq> later' \<Longrightarrow> good_move sum256 issued later' s s'"
  unfolding good_move_def by blast

lemma still_good:
  assumes "agents_inv sum256 a" and "st_mcpOperations s' = st_mcpOperations (ag_store a)" and "st_mcpBindings s' = st_mcpBindings (ag_store a)"
  shows "good_move sum256 (ag_issued a) (ag_issued a) (ag_store a) s'"
  using agents_ops(1,2) [OF assms(1)] operation_ok_same [OF assms(3)]
  by (auto simp: good_move_def tables_move_def assms(2,3) split: option.splits)

lemma copy_current:
  assumes "copy_ok a y" and "mget (st_mcpOperations (ag_store a)) (mo_ID y) = Some x" and "mo_Version x = mo_Version y"
    and "mo_BindingID x = mo_BindingID y" and "mget (st_mcpBindings (ag_store a)) (mo_BindingID x) \<noteq> None"
  shows "x = y"
  using assms(1) unfolding copy_ok_def assms(2) by (simp add: assms(3,4))

lemma call_moves:
  assumes inv: "agents_inv sum256 a" and perm: "permitted sum256 a c" and count: "uncounted (ag_store a)"
    and fresh: "\<forall>i \<in> ag_issued a. mget (st_mcpBindings (ag_store a)) i = None \<longrightarrow> mget (st_mcpBindings (mcp_call c (ag_store a))) i = None"
  shows "good_move sum256 (ag_issued a) (issued_by c \<union> ag_issued a) (ag_store a) (mcp_call c (ag_store a))"
proof (cases "mcp_call c (ag_store a) = ag_store a")
  case True
  then show ?thesis using good_move_later [OF still_good [OF inv, of "ag_store a"]] by simp
next
  case False
  have mcp: "mcp_inv (ag_store a)" using inv by (simp add: agents_inv_def)
  note later = good_move_later [where later = "ag_issued a" and later' = "issued_by c \<union> ag_issued a", OF _ Un_upper2]
  from mcp False show ?thesis
  proof (cases rule: mcp_call_cases)
    case save_ticket
    show ?thesis unfolding save_ticket(5) by (rule later, rule still_good [OF inv]) simp_all
  next
    case revoke_ticket
    show ?thesis unfolding revoke_ticket(4) by (rule later, rule still_good [OF inv]) simp_all
  next
    case delete_ticket
    show ?thesis unfolding delete_ticket(2) by (rule later, rule still_good [OF inv]) simp_all
  next
    case (redeem cx env h peer now t)
    let ?i = "NewID (en_rand env) ''mcp_binding''"
    have b: "st_mcpBindings (mcp_call c (ag_store a)) = mput ?i (redeemed_binding (en_rand env) t peer (normalizeMCPTime now)) (st_mcpBindings (ag_store a))"
      unfolding redeem(5) by (rule redeem_store_fields)
    show ?thesis
    proof (rule rebind_moves [OF inv _ b])
      show "st_mcpOperations (mcp_call c (ag_store a)) = st_mcpOperations (ag_store a)"
        unfolding redeem(5) by (rule redeem_store_fields)
      show "?i \<in> ag_issued a \<longrightarrow> mget (st_mcpBindings (ag_store a)) ?i \<noteq> None"
        using fresh unfolding b by (auto simp: mget_mput)
    qed (simp_all add: redeem(1) issued_by_def redeemed_binding_fields subset_insertI)
  next
    case (revoke_binding cx i now b)
    show ?thesis unfolding revoke_binding(3) by (rule later, rule revoke_moves [OF inv count revoke_binding(2)])
  next
    case (delete_binding cx owner i b)
    show ?thesis unfolding delete_binding(4)
      by (rule later, rule remove_moves [OF inv, of _ "\<lambda>k. k \<noteq> i"])
         (simp_all add: unbind_store_def mget_mdel keyed_mget_mretain [OF agents_ops(3) [OF inv]] split: option.splits)
  next
    case (delete_records cx owner)
    let ?keep = "\<lambda>k. k \<notin> set (mkeys (mretain (\<lambda>b. bi_OwnerID b = owner) (st_mcpBindings (ag_store a))))"
    have keep: "?keep k \<longleftrightarrow> (case mget (st_mcpBindings (ag_store a)) k of None \<Rightarrow> True | Some b \<Rightarrow> bi_OwnerID b \<noteq> owner)" for k
      by (simp add: in_mkeys keyed_mget_mretain [OF agents_ops(4) [OF inv]] split: option.splits)
    show ?thesis unfolding delete_records(2)
    proof (rule later, rule remove_moves [OF inv, of _ ?keep])
      show "mget (st_mcpOperations (purge_store owner (ag_store a))) k = (case mget (st_mcpOperations (ag_store a)) k of None \<Rightarrow> None
          | Some p \<Rightarrow> if ?keep (mo_BindingID p) then Some p else None)" for k
        by (simp add: purge_store_def keyed_mget_mretain [OF agents_ops(3) [OF inv]])
      show "mget (st_mcpBindings (purge_store owner (ag_store a))) k = (if ?keep k then mget (st_mcpBindings (ag_store a)) k else None)" for k
        unfolding keep by (simp add: purge_store_def keyed_mget_mretain [OF agents_ops(4) [OF inv]] split: option.splits)
    qed
  next
    case (touch cx i iscp now b)
    then have "i \<in> ag_issued a" using agents_ops(2) [OF inv touch(2)] by simp
    then show ?thesis unfolding touch(4)
      by (intro later rebind_moves [OF inv, of _ i "touched_binding b iscp now"])
         (simp_all add: touched_binding_fields touch(2,3))
  next
    case (create cx env operation p)
    have q: "permitted sum256 a (CreateOperation cx env operation)" using perm unfolding create(1) .
    then have n: "mo_ID operation \<noteq> []" unfolding permitted.simps by (metis stableID_nonempty)
    have "mo_ID p = mo_ID operation" "mo_BindingID p = mo_BindingID operation" "mo_IdempotencyKey p = mo_IdempotencyKey operation"
      using n by (simp_all add: create(2) normalizeMCPOperation_def)
    moreover have "mo_State p = MCPOperationRunning" "mo_CompletedAt p = None" "mo_Version p = 1"
      using q by (simp_all add: create(2) normalizeMCPOperation_def normalizeMCPTimePointer_def)
    ultimately have "operation_ok sum256 (ag_store a) p"
      using q by (auto simp: operation_ok_def completed_ok_def operationTerminal_def)
    then show ?thesis unfolding create(5) by (rule later [OF create_moves [OF inv _ create(4)]])
  next
    case (update cx env p v x)
    obtain y m at' where y: "y \<in> ag_reads a" "service_mutation m" "m at' y = Some p" "v = mo_Version p"
      using perm update(1) by auto
    note f = mutation_fields [OF y(2,3)]
    have "copy_ok a y" using inv y(1) by (simp add: agents_inv_def)
    moreover have "mo_BindingID x = mo_BindingID y" using update(4) f by (simp add: mcpOperationIdentityEqual_def)
    moreover have "mget (st_mcpBindings (ag_store a)) (mo_BindingID x) \<noteq> None"
      using agents_ops(1) [OF inv update(2)] by (auto simp: operation_ok_def)
    ultimately have "x = y" using copy_current update(2,3) y(4) f by metis
    then show ?thesis unfolding update(5) using update_moves [OF inv count _ y(2,3)] update(2) f by (intro later) simp
  qed
qed

lemma agents_inv_step:
  assumes "orderly sum256 a a'" and "agents_inv sum256 a"
  shows "agents_inv sum256 a'" and "tables_move (ag_issued a) (ag_store a) (ag_store a')"
proof -
  note inv = assms(2)
  have count: "uncounted (ag_store a)" and step: "service_step sum256 a a'"
    and fresh: "\<forall>i \<in> ag_issued a. mget (st_mcpBindings (ag_store a)) i = None \<longrightarrow> mget (st_mcpBindings (ag_store a')) i = None"
    using assms(1) by (simp_all add: orderly_def)
  have moved: "agents_inv sum256 \<lparr>ag_store = s', ag_reads = ag_reads a, ag_issued = J\<rparr> \<and> tables_move (ag_issued a) (ag_store a) s'"
    if "good_move sum256 (ag_issued a) J (ag_store a) s'" "mcp_inv s'" "ag_issued a \<subseteq> J" for s' J
    using agents_inv_move [OF inv _ that(2) _ that(3)] that(1) unfolding good_move_def by blast
  have "agents_inv sum256 a' \<and> tables_move (ag_issued a) (ag_store a) (ag_store a')"
    using step
  proof cases
    case (step_read i p)
    have c: "copy_ok a p"
      using agents_inv_get [OF inv step_read(2)] step_read(2) by (auto simp: copy_ok_def operation_ok_def)
    have "copy_ok (a\<lparr>ag_reads := insert p (ag_reads a)\<rparr>) x = copy_ok a x" for x
      by (simp add: copy_ok_def split: option.split)
    with c inv step_read have "agents_inv sum256 a'" by (auto simp: agents_inv_def)
    then show ?thesis using still_good [OF inv, of "ag_store a"] step_read by (simp add: good_move_def)
  next
    case (step_write c)
    have "good_move sum256 (ag_issued a) (issued_by c \<union> ag_issued a) (ag_store a) (mcp_call c (ag_store a))"
      by (rule call_moves [OF inv step_write(2) count]) (use fresh step_write(1) in simp)
    moreover have "mcp_inv (mcp_call c (ag_store a))" using inv mcp_inv_call by (simp add: agents_inv_def)
    ultimately show ?thesis using moved [of "issued_by c \<union> ag_issued a"] step_write(1) by (cases a) simp
  next
    case (step_elsewhere s)
    have "mcp_inv s" using part_invariants(5) [OF step_elsewhere(2)] inv by (simp add: agents_inv_def)
    moreover have "good_move sum256 (ag_issued a) (ag_issued a) (ag_store a) s"
      by (rule still_good [OF inv]) (use step_elsewhere(2) in \<open>simp_all add: agent_part_def\<close>)
    ultimately show ?thesis using moved [of "ag_issued a" s] step_elsewhere(1) by (cases a) simp
  qed
  then show "agents_inv sum256 a'" "tables_move (ag_issued a) (ag_store a) (ag_store a')" by simp_all
qed

lemma agents_inv_init: "no_agents a \<Longrightarrow> agents_inv sum256 a"
  by (simp add: no_agents_def agents_inv_def mcp_inv_empty empty_store_tables)

interpretation service: invariant_system no_agents "orderly sum256" "agents_inv sum256"
  by unfold_locales (auto simp: agents_inv_init intro: agents_inv_step)

section \<open>The service functions are steps\<close>

text \<open>What the rest of the system does between the calls of a function are steps too.\<close>

definition tame :: "(string \<Rightarrow> 8 word list) \<Rightarrow> world \<Rightarrow> bool" where
  "tame sum256 w \<longleftrightarrow> (\<forall>k a. \<exists>a'. (service_step sum256)\<^sup>*\<^sup>* a a' \<and> ag_store a' = me_others (w_moments w k) (ag_store a))"

text \<open>\<open>performs sum256 R p\<close>: wherever the copies \<open>R\<close> have been read, running \<open>p\<close> is a sequence of steps.\<close>

definition performs :: "(string \<Rightarrow> 8 word list) \<Rightarrow> MCPOperation set \<Rightarrow> 'a proc \<Rightarrow> bool" where
  "performs sum256 R p \<longleftrightarrow> (\<forall>w a. ag_store a = w_store w \<longrightarrow> R \<subseteq> ag_reads a \<longrightarrow> tame sum256 w \<longrightarrow>
     (\<exists>a'. (service_step sum256)\<^sup>*\<^sup>* a a' \<and> ag_store a' = w_store (snd (p w)) \<and> tame sum256 (snd (p w))))"

lemma reads_grow: "(service_step sum256)\<^sup>*\<^sup>* a a' \<Longrightarrow> ag_reads a \<subseteq> ag_reads a'"
proof (induction rule: rtranclp_induct)
  case (step y z)
  have "ag_reads y \<subseteq> ag_reads z" using step(2) by cases auto
  with step(3) show ?case by simp
qed simp

named_theorems performing

lemma performs_answer [performing]: "performs sum256 R (answer x)" "performs sum256 R (refuse e)"
  unfolding performs_def answer_def refuse_def by auto

lemma performs_at_time [performing]: "(\<And>t. performs sum256 R (f t)) \<Longrightarrow> performs sum256 R (at_time f)"
  by (simp add: performs_def at_time_def)

lemma performs_unless_done [performing]: "performs sum256 R p \<Longrightarrow> performs sum256 R (unless_done p)"
  unfolding performs_def unless_done_def by (auto split: option.splits)

lemma performs_handle [performing]:
  assumes "performs sum256 R p" and "\<And>r. performs sum256 R (f r)"
  shows "performs sum256 R (handle p f)"
  unfolding performs_def
proof (intro allI impI)
  fix w :: world and a :: service_state assume w: "ag_store a = w_store w" "R \<subseteq> ag_reads a" "tame sum256 w"
  obtain r w' where p: "p w = (r, w')" by fastforce
  then obtain b where b: "(service_step sum256)\<^sup>*\<^sup>* a b" "ag_store b = w_store w'" "tame sum256 w'"
    using assms(1) w unfolding performs_def by fastforce
  have "R \<subseteq> ag_reads b" using w(2) reads_grow [OF b(1)] by simp
  then obtain c where "(service_step sum256)\<^sup>*\<^sup>* b c" "ag_store c = w_store (snd (f r w'))" "tame sum256 (snd (f r w'))"
    using assms(2) [of r] b(2,3) unfolding performs_def by blast
  with b(1) p show "\<exists>a'. (service_step sum256)\<^sup>*\<^sup>* a a' \<and> ag_store a' = w_store (snd (handle p f w)) \<and> tame sum256 (snd (handle p f w))"
    by (auto simp: handle_def intro: rtranclp_trans)
qed

lemma performs_also_do [performing]:
  "performs sum256 R p \<Longrightarrow> (\<And>x. performs sum256 R (f x)) \<Longrightarrow> performs sum256 R (also_do p f)"
  unfolding also_do_def by (intro performing) (auto split: sum.split intro: performing)

lemma performs_ignoring [performing]: "performs sum256 R p \<Longrightarrow> performs sum256 R (ignoring p)"
  unfolding ignoring_def by (intro performing)

text \<open>A call is performed when what it does to the store is.\<close>

lemma performs_call:
  assumes "\<And>cx env (a :: service_state). R \<subseteq> ag_reads a \<Longrightarrow> \<exists>a'. (service_step sum256)\<^sup>*\<^sup>* a a' \<and> ag_store a' = snd (f cx env (ag_store a))"
  shows "performs sum256 R (call f)"
  unfolding performs_def
proof (intro allI impI)
  fix w :: world and a :: service_state assume w: "ag_store a = w_store w" "R \<subseteq> ag_reads a" "tame sum256 w"
  let ?m = "w_moments w 0"
  obtain b where b: "(service_step sum256)\<^sup>*\<^sup>* a b" "ag_store b = me_others ?m (w_store w)"
    using w(1,3) unfolding tame_def by metis
  then have "R \<subseteq> ag_reads b" using w(2) reads_grow [OF b(1)] by simp
  then obtain c where "(service_step sum256)\<^sup>*\<^sup>* b c" "ag_store c = snd (f (me_ctx ?m) (me_env ?m) (ag_store b))" using assms by blast
  moreover have "tame sum256 (snd (call f w))" using w(3) by (simp add: tame_def call_def Let_def)
  ultimately show "\<exists>a'. (service_step sum256)\<^sup>*\<^sup>* a a' \<and> ag_store a' = w_store (snd (call f w)) \<and> tame sum256 (snd (call f w))"
    using b by (auto simp: call_def Let_def intro: rtranclp_trans)
qed

lemma performs_elsewhere:
  assumes "\<And>cx env. keeps agent_part (f cx env)"
  shows "performs sum256 R (call f)"
proof (rule performs_call)
  fix cx env and a :: service_state
  have "service_step sum256 a (a\<lparr>ag_store := snd (f cx env (ag_store a))\<rparr>)"
    by (rule step_elsewhere) (use assms in \<open>simp add: keeps_def\<close>)
  then show "\<exists>a'. (service_step sum256)\<^sup>*\<^sup>* a a' \<and> ag_store a' = snd (f cx env (ag_store a))"
    by (intro exI [of _ "a\<lparr>ag_store := snd (f cx env (ag_store a))\<rparr>"]) auto
qed

lemma performs_write:
  assumes "\<And>cx env. f cx env = (\<lambda>s. (fst (f cx env s), mcp_call (c cx env) s))" and "\<And>cx env (a :: service_state). R \<subseteq> ag_reads a \<Longrightarrow> permitted sum256 a (c cx env)"
  shows "performs sum256 R (call f)"
proof (rule performs_call)
  fix cx env and a :: service_state assume "R \<subseteq> ag_reads a"
  then have "service_step sum256 a (a\<lparr>ag_store := mcp_call (c cx env) (ag_store a), ag_issued := issued_by (c cx env) \<union> ag_issued a\<rparr>)"
    by (intro step_write assms(2))
  moreover have "snd (f cx env (ag_store a)) = mcp_call (c cx env) (ag_store a)" using assms(1) [of cx env] by (metis snd_conv)
  ultimately show "\<exists>a'. (service_step sum256)\<^sup>*\<^sup>* a a' \<and> ag_store a' = snd (f cx env (ag_store a))" 
    by (intro exI [of _ "a\<lparr>ag_store := mcp_call (c cx env) (ag_store a), ag_issued := issued_by (c cx env) \<union> ag_issued a\<rparr>"]) auto
qed

text \<open>Reading an operation leaves a copy of it with the function.\<close>

lemma performs_read:
  assumes "\<And>r. (\<forall>p. r \<noteq> Inr (Some p)) \<Longrightarrow> performs sum256 R (f r)" and "\<And>p. performs sum256 (insert p R) (f (Inr (Some p)))"
  shows "performs sum256 R (handle (read_operation i) f)"
  unfolding performs_def
proof (intro allI impI)
  fix w :: world and a :: service_state assume w: "ag_store a = w_store w" "R \<subseteq> ag_reads a" "tame sum256 w"
  let ?m = "w_moments w 0"
  obtain b where b: "(service_step sum256)\<^sup>*\<^sup>* a b" "ag_store b = me_others ?m (w_store w)"
    using w(1,3) unfolding tame_def by metis
  then have R: "R \<subseteq> ag_reads b" using w(2) reads_grow [OF b(1)] by simp
  obtain r w' where r: "read_operation i w = (r, w')" by fastforce
  have w': "w_store w' = ag_store b" "tame sum256 w'"
    and found: "\<And>p. r = Inr (Some p) \<Longrightarrow> mget (st_mcpOperations (ag_store b)) i = Some p"
    using r w(3) b(2)
    by (auto simp: read_operation_def call_def Let_def GetMCPOperation_def framed_def checked_def tame_def split: option.splits)
  show "\<exists>a'. (service_step sum256)\<^sup>*\<^sup>* a a' \<and> ag_store a' = w_store (snd (handle (read_operation i) f w)) \<and>
      tame sum256 (snd (handle (read_operation i) f w))"
  proof (cases "\<exists>p. r = Inr (Some p)")
    case True
    then obtain p where p: "r = Inr (Some p)" by blast
    let ?c = "b\<lparr>ag_reads := insert p (ag_reads b)\<rparr>"
    have "service_step sum256 b ?c" by (rule step_read [OF found [OF p]])
    moreover have "insert p R \<subseteq> ag_reads ?c" "ag_store ?c = w_store w'" using R w' by auto
    ultimately show ?thesis
      using assms(2) [of p] w'(2) b(1) r p unfolding performs_def handle_def
      by (metis (no_types, lifting) case_prod_conv rtranclp.rtrancl_into_rtrancl rtranclp_trans)
  next
    case False
    then show ?thesis
      using assms(1) [of r] w' b(1) R r unfolding performs_def handle_def
      by (metis (no_types, lifting) case_prod_conv rtranclp_trans)
  qed
qed

text \<open>Calls of the other repositories leave the tables of the agents alone.\<close>

lemma keeps_pure: "(\<And>s. snd (f s) = s) \<Longrightarrow> keeps part f"
  by (simp add: keeps_def)

lemma keeps_part: "(\<And>s r s'. f s = (r, s') \<Longrightarrow> part s' = part s) \<Longrightarrow> keeps part f"
  unfolding keeps_def by (metis surjective_pairing)

lemma agent_append [simp]:
  "agent_part (appendAuditLocked env a b c d e f s) = agent_part s" "agent_part (appendEventLocked env a b c v s) = agent_part s"
  by (simp_all add: agent_part_def appendAuditLocked_def appendAuditLockedAt_def appendEventLocked_def appendEventLockedAt_def)

lemma reads_keep [performing]:
  "keeps agent_part (GetRun cx i)" "keeps agent_part (GetToolCall cx i)" "keeps agent_part (GetMCPBinding cx i)"
  "keeps agent_part (ListApprovals cx st)" "keeps agent_part (ListMCPOperations cx i)" "keeps agent_part (ListMCPBindings cx i)"
  "keeps agent_part (GetSession cx i)" "keeps agent_part (GetMCPOperation cx i)"
  "keeps agent_part (FindMCPAccessTicketBySecretHash cx i)" "keeps agent_part (FindMCPBindingForPeer cx i i' i'')"
  by (rule keeps_pure, simp add: GetRun_def GetToolCall_def GetMCPBinding_def ListApprovals_def ListMCPOperations_def ListMCPBindings_def
      GetSession_def GetMCPOperation_def FindMCPAccessTicketBySecretHash_def FindMCPBindingForPeer_def framed_def checked_def split: option.splits sum.splits)+

lemma agent_via: "run_rest s' = run_rest s \<Longrightarrow> agent_part s' = agent_part s" "log_rest s' = log_rest s \<Longrightarrow> agent_part s' = agent_part s"
  using agent_part_rest(2) [of s] agent_part_rest(2) [of s'] agent_part_rest(7) [of s] agent_part_rest(7) [of s'] by simp_all

lemma writes_keep [performing]:
  "keeps agent_part (ResolveApproval lib cx env i st note)" "keeps agent_part (SaveToolCall cx env c)" "keeps agent_part (SaveRun cx env run)"
  "keeps agent_part (AddAudit cx env e)" "keeps agent_part (DeleteMCPInvocationSession cx env i)"
  "keeps agent_part (CreateSessionWithScope cx env title owner wroot source hidden)"
proof -
  show "keeps agent_part (ResolveApproval lib cx env i st note)"
    unfolding ResolveApproval_def resolveApprovalInputs_def
    by (intro keeps_framed) (auto simp: keeps_def record_approval_def agent_part_def split: sum.splits option.splits)
  show "keeps agent_part (SaveToolCall cx env c)" "keeps agent_part (SaveRun cx env run)"
    by (rule keeps_part, rule agent_via, rule run_rest_step, erule run_step.intros)+
  show "keeps agent_part (AddAudit cx env e)"
    by (rule keeps_part, rule agent_via, erule log_rest_audit)
  show "keeps agent_part (DeleteMCPInvocationSession cx env i)"
    unfolding DeleteMCPInvocationSession_def
    by (rule keeps_part, drule deleteSession_cases) (auto simp: deleted_store_def agent_part_def erased_tables)
  show "keeps agent_part (CreateSessionWithScope cx env title owner wroot source hidden)"
    unfolding CreateSessionWithScope_def
    by (rule keeps_part, drule createSession_cases) (auto simp: created_store_def agent_part_def put_session_def)
qed

lemma performs_if: "(b \<Longrightarrow> performs sum256 R p) \<Longrightarrow> (\<not> b \<Longrightarrow> performs sum256 R q) \<Longrightarrow> performs sum256 R (if b then p else q)"
  by simp

lemma performs_option: "(x = None \<Longrightarrow> performs sum256 R p) \<Longrightarrow> (\<And>y. x = Some y \<Longrightarrow> performs sum256 R (q y)) \<Longrightarrow>
  performs sum256 R (case x of None \<Rightarrow> p | Some y \<Rightarrow> q y)"
  by (cases x) simp_all

lemma performs_sum: "(\<And>e. r = Inl e \<Longrightarrow> performs sum256 R (p e)) \<Longrightarrow> (\<And>y. r = Inr y \<Longrightarrow> performs sum256 R (q y)) \<Longrightarrow>
  performs sum256 R (case r of Inl e \<Rightarrow> p e | Inr y \<Rightarrow> q y)"
  by (cases r) simp_all

lemma performs_prod: "(\<And>y z. x = (y, z) \<Longrightarrow> performs sum256 R (q y z)) \<Longrightarrow> performs sum256 R (case x of (y, z) \<Rightarrow> q y z)"
  by (cases x) simp

lemma performs_bool: "(b \<Longrightarrow> performs sum256 R p) \<Longrightarrow> (\<not> b \<Longrightarrow> performs sum256 R q) \<Longrightarrow> performs sum256 R (case b of True \<Rightarrow> p | False \<Rightarrow> q)"
  by (cases b) simp_all

lemmas performs_cases = performs_bool performs_if performs_option performs_sum performs_prod

text \<open>An update is a read, which leaves a copy, and a write of what the mutation makes of that copy.\<close>

lemma performs_update_rounds:
  assumes "service_mutation m"
  shows "performs sum256 R (update_rounds n i m)"
proof (induction n arbitrary: R)
  case 0
  show ?case unfolding update_rounds.simps read_operation_def
    by (intro performing performs_elsewhere performs_cases)
next
  case (Suc n)
  let ?upd = "\<lambda>p'. call (\<lambda>cx env. UpdateMCPOperation cx env p' (mo_Version p'))"
  have upd: "performs sum256 (insert p R) (handle (?upd p') (\<lambda>r. case r of Inr updated \<Rightarrow> answer (updated, True)
      | Inl e \<Rightarrow> if \<not> err_is e ErrMCPOperationVersionConflict then refuse e else update_rounds n i m))"
    if "m now p = Some p'" for p p' now
  proof (rule performs_handle)
    show "performs sum256 (insert p R) (?upd p')"
      by (rule performs_write [where c = "\<lambda>cx env. UpdateOperation cx env p' (mo_Version p')"]) (use that assms in auto)
    show "performs sum256 (insert p R) (case r of Inr updated \<Rightarrow> answer (updated, True)
        | Inl e \<Rightarrow> if \<not> err_is e ErrMCPOperationVersionConflict then refuse e else update_rounds n i m)" for r
      by (intro performs_cases performing Suc.IH)
  qed
  show ?case unfolding update_rounds.simps also_do_def
  proof (intro performs_unless_done performs_read)
    fix p
    show "performs sum256 (insert p R) (case Inr (Some p) of Inl e \<Rightarrow> refuse e | Inr x \<Rightarrow> case x of None \<Rightarrow> refuse (Err ''MCP operation not found'')
       | Some p \<Rightarrow> at_time (\<lambda>now. case m now p of None \<Rightarrow> answer (p, False)
           | Some p' \<Rightarrow> handle (?upd p') (\<lambda>r. case r of Inr updated \<Rightarrow> answer (updated, True)
             | Inl e \<Rightarrow> if \<not> err_is e ErrMCPOperationVersionConflict then refuse e else update_rounds n i m)))"
      by (simp, intro performs_at_time performs_option performs_answer upd)
  next
    fix r :: "go_error + MCPOperation option" assume "\<forall>p. r \<noteq> Inr (Some p)"
    then show "performs sum256 R (case r of Inl e \<Rightarrow> refuse e | Inr x \<Rightarrow> case x of None \<Rightarrow> refuse (Err ''MCP operation not found'')
       | Some p \<Rightarrow> at_time (\<lambda>now. case m now p of None \<Rightarrow> answer (p, False)
           | Some p' \<Rightarrow> handle (?upd p') (\<lambda>r. case r of Inr updated \<Rightarrow> answer (updated, True)
             | Inl e \<Rightarrow> if \<not> err_is e ErrMCPOperationVersionConflict then refuse e else update_rounds n i m)))"
      by (intro performs_cases performing) auto
  qed
qed

lemma service_mutations [performing]:
  "service_mutation (fail_with code message)" "service_mutation cancelled" "service_mutation (rejected_at t)" "service_mutation resumed"
  "service_mutation parked" "service_mutation (synchronized payload xs result content)" "service_mutation (delivered raw st e)"
  unfolding service_mutation_def by blast+

lemma performs_update [performing]: "service_mutation m \<Longrightarrow> performs sum256 R (updateOperationRecord i m)"
  unfolding updateOperationRecord_def by (rule performs_update_rounds)

lemma performs_read_operation [performing]: "performs sum256 R (read_operation i)"
  unfolding read_operation_def by (intro performing performs_elsewhere)

lemma performs_reject_each [performing]: "performs sum256 R (reject_each lib runID xs)"
  by (induction xs) (simp_all only: reject_each.simps, (intro performing performs_elsewhere performs_cases | assumption)+)

lemma performs_audit [performing]:
  "performs sum256 R (audit_entry typ sid run actor summary fs)" "performs sum256 R (auditOperationStore typ p summary extra)"
proof -
  show a: "performs sum256 R (audit_entry typ sid run actor summary fs)" for sid run actor fs
    unfolding audit_entry_def by (intro performing performs_elsewhere)
  have "performs sum256 R (operationSessionID p)"
    unfolding operationSessionID_def by (intro performing performs_elsewhere performs_cases)
  then show "performs sum256 R (auditOperationStore typ p summary extra)"
    unfolding auditOperationStore_def by (intro performs_also_do a)
qed

lemma performs_cleanup [performing]:
  "performs sum256 R (rejectPendingApprovals lib p)" "performs sum256 R (cleanupMCPInvocationSession sid)"
  "performs sum256 R (cleanupMCPOperationSession p)"
proof -
  show "performs sum256 R (rejectPendingApprovals lib p)"
    unfolding rejectPendingApprovals_def by (intro performing performs_elsewhere performs_cases)
  show c: "performs sum256 R (cleanupMCPInvocationSession sid)" for sid
    unfolding cleanupMCPInvocationSession_def by (intro performing performs_elsewhere performs_cases)
  show "performs sum256 R (cleanupMCPOperationSession p)"
    unfolding cleanupMCPOperationSession_def by (intro performing performs_elsewhere performs_cases c)
qed

lemma performs_finish [performing]:
  "performs sum256 R (finishOperationError lib i code message)" "performs sum256 R (finishOperationCancelled i)"
  "performs sum256 R (cancelOperation lib i)" "performs sum256 R (reconcileOperation p)"
  unfolding finishOperationError_def finishOperationCancelled_def cancelOperation_def reconcileOperation_def
  by (intro performing performs_elsewhere performs_cases)+

lemma performs_finalize [performing]: "performs sum256 R (finalizeRevokedOperations lib ps)"
  by (induction ps) (simp_all only: finalizeRevokedOperations.simps, (intro performing performs_cases | assumption)+)

lemma performs_agent_call:
  assumes "\<And>cx env. f cx env = (\<lambda>s. (fst (f cx env s), mcp_call (c cx env) s))" and "\<And>a cx env. permitted sum256 a (c cx env)"
  shows "performs sum256 R (call f)"
  by (rule performs_write [OF assms])

lemma performs_revoke [performing]:
  "performs sum256 R (call (\<lambda>cx env. RevokeMCPBinding cx i now))" "performs sum256 R (call (\<lambda>cx env. DeleteMCPBinding cx owner i))"
  "performs sum256 R (call (\<lambda>cx env. DeleteMCPAccessRecords cx owner))"
proof -
  show "performs sum256 R (call (\<lambda>cx env. RevokeMCPBinding cx i now))"
    by (rule performs_agent_call [where c = "\<lambda>cx env. RevokeBinding cx i now"]) simp_all
  show "performs sum256 R (call (\<lambda>cx env. DeleteMCPBinding cx owner i))"
    by (rule performs_agent_call [where c = "\<lambda>cx env. DeleteBinding cx owner i"]) simp_all
  show "performs sum256 R (call (\<lambda>cx env. DeleteMCPAccessRecords cx owner))"
    by (rule performs_agent_call [where c = "\<lambda>cx env. DeleteRecords cx owner"]) simp_all
qed

lemma performs_revoke_each [performing]: "performs sum256 R (revoke_each lib now bs)"
  by (induction bs) (simp_all only: revoke_each.simps, (intro performing performs_elsewhere performs_cases | assumption)+)

lemma performs_bindings [performing]:
  "performs sum256 R (MCP_Service_Operations.RevokeBinding lib i now)" "performs sum256 R (MCP_Service_Operations.DeleteBinding lib owner i now)"
  "performs sum256 R (DeleteAccessRecords lib owner now)"
  unfolding MCP_Service_Operations.RevokeBinding_def MCP_Service_Operations.DeleteBinding_def DeleteAccessRecords_def
  by (intro performing performs_elsewhere performs_cases)+

lemma performs_approvals [performing]:
  "performs sum256 R (operationForRun ref_of run)" "performs sum256 R (beginApprovalExecution ref_of run)"
  "performs sum256 R (StartApprovalExecution lib ref_of run)" "performs sum256 R (RestoreApprovalRequired ref_of run)"
  "performs sum256 R (FailApprovalExecution lib ref_of run code message)"
proof -
  show f: "performs sum256 R (operationForRun ref_of run)"
    unfolding operationForRun_def by (intro performing performs_elsewhere performs_cases)
  show b: "performs sum256 R (beginApprovalExecution ref_of run)"
    unfolding beginApprovalExecution_def by (intro performing performs_cases f)
  show "performs sum256 R (StartApprovalExecution lib ref_of run)"
    unfolding StartApprovalExecution_def by (intro performing performs_cases b)
  show "performs sum256 R (RestoreApprovalRequired ref_of run)" "performs sum256 R (FailApprovalExecution lib ref_of run code message)"
    unfolding RestoreApprovalRequired_def FailApprovalExecution_def by (intro performing performs_cases f)+
qed

lemma performs_results [performing]:
  "performs sum256 R (syncOperationFromResultWithContent payload i result content)" "performs sum256 R (RecordWorkflowResult payload result)"
proof -
  show r: "performs sum256 R (syncOperationFromResultWithContent payload i result content)" for i content
    unfolding syncOperationFromResultWithContent_def by (intro performing performs_elsewhere performs_cases)
  show "performs sum256 R (RecordWorkflowResult payload result)"
    unfolding RecordWorkflowResult_def by (intro performing performs_cases r)
qed

lemma performs_execute:
  assumes "\<And>R. performs sum256 R runtime" and "\<And>d result R. deliver = Some d \<Longrightarrow> performs sum256 R (d result)"
  shows "performs sum256 R (executeOperation lib payload runtime deliver sid i)"
  unfolding executeOperation_def by (intro performing performs_cases assms)

lemma create_under_binding_store:
  "snd (create_under_binding t p cx env s) = s \<or>
   (\<exists>b. mget (st_mcpBindings s) (bi_ID (tl_Binding t)) = Some b \<and> bi_Status b = MCPBindingActive \<and>
     snd (create_under_binding t p cx env s) = snd (CreateMCPOperation cx env p s))"
  by (auto simp: create_under_binding_def GetMCPBinding_def framed_def checked_def split: option.splits sum.splits prod.splits)

lemma performs_create:
  shows "performs sum256 R (call (create_under_binding t (requested_operation sum256 t now)))"
proof (rule performs_call)
  fix cx env and a :: service_state
  let ?p = "requested_operation sum256 t now" and ?step = "service_step sum256"
  let ?f = "create_under_binding t ?p cx env (ag_store a)"
  consider "snd ?f = ag_store a" | b where "mget (st_mcpBindings (ag_store a)) (bi_ID (tl_Binding t)) = Some b"
    "bi_Status b = MCPBindingActive" "snd ?f = snd (CreateMCPOperation cx env ?p (ag_store a))"
    using create_under_binding_store by blast
  then show "\<exists>a'. ?step\<^sup>*\<^sup>* a a' \<and> ag_store a' = snd ?f"
  proof cases
    case 1
    then show ?thesis by (intro exI [of _ a]) simp
  next
    case 2
    let ?c = "CreateOperation cx env ?p"
    have "?step a (a\<lparr>ag_store := mcp_call ?c (ag_store a), ag_issued := issued_by ?c \<union> ag_issued a\<rparr>)"
      by (rule step_write) (use 2(1,2) in \<open>simp add: requested_operation_def Let_def\<close>)
    then show ?thesis
      using 2(3) by (intro exI [of _ "a\<lparr>ag_store := mcp_call ?c (ag_store a), ag_issued := issued_by ?c \<union> ag_issued a\<rparr>"]) auto
  qed
qed

lemma performs_tickets [performing]:
  "performs sum256 R (IssueTicket enabled sha randomSecret ri owner actor input at')"
  "performs sum256 R (RedeemAccessTicket enabled sha secret peer)" "performs sum256 R (ActiveBindingForPeer enabled peer)"
proof -
  have save: "performs sum256 R (call (\<lambda>cx env. SaveMCPAccessTicket cx env ticket))" for R ticket
    by (rule performs_agent_call [where c = "\<lambda>cx env. SaveTicket cx env ticket"]) simp_all
  have redeem: "performs sum256 R (call (\<lambda>cx env. RedeemMCPAccessTicket cx env h peer now))" for R h now
    by (rule performs_agent_call [where c = "\<lambda>cx env. RedeemTicket cx env h peer now"]) simp_all
  have denied: "performs sum256 R (auditPeerDenied peer typ summary extra)" for R "typ" summary extra
    unfolding auditPeerDenied_def by (intro performing)
  show "performs sum256 R (IssueTicket enabled sha randomSecret ri owner actor input at')"
    unfolding IssueTicket_def Let_def by (intro performing performs_cases save)
  show "performs sum256 R (RedeemAccessTicket enabled sha secret peer)"
    unfolding RedeemAccessTicket_def Let_def by (intro performing performs_elsewhere performs_cases redeem denied)
  show "performs sum256 R (ActiveBindingForPeer enabled peer)"
    unfolding ActiveBindingForPeer_def by (intro performing performs_elsewhere performs_cases)
qed

lemma performs_start [performing]:
  shows "performs sum256 R (start_operation lib sum256 t)"
  unfolding start_operation_def Let_def
  by (intro performing performs_elsewhere performs_cases performs_create)

section \<open>Properties\<close>

text \<open>\<open>kept i p a\<close>: the operation \<open>p\<close> is stored under \<open>i\<close>, or its binding is gone and with it every operation it had there.\<close>

definition kept :: "string \<Rightarrow> MCPOperation \<Rightarrow> service_state \<Rightarrow> bool" where
  "kept i p a \<longleftrightarrow> mget (st_mcpOperations (ag_store a)) i = Some p \<or>
     mget (st_mcpBindings (ag_store a)) (mo_BindingID p) = None \<and>
     (\<forall>q. mget (st_mcpOperations (ag_store a)) i = Some q \<longrightarrow> mo_BindingID q \<noteq> mo_BindingID p)"

lemma kept_step:
  assumes step: "orderly sum256 a a'" and inv: "agents_inv sum256 a" and k: "kept i p a"
    and p: "operationTerminal (mo_State p)" "mo_BindingID p \<in> ag_issued a"
  shows "kept i p a'"
proof -
  note move = agents_inv_step(2) [OF step inv]
  show ?thesis
  proof (cases "mget (st_mcpOperations (ag_store a)) i = Some p")
    case True
    then show ?thesis
      using tables_moveD(3,4) [OF move True] p(1) by (cases "mget (st_mcpOperations (ag_store a')) i") (auto simp: kept_def)
  next
    case False
    then have gone: "mget (st_mcpBindings (ag_store a)) (mo_BindingID p) = None"
        "\<And>q. mget (st_mcpOperations (ag_store a)) i = Some q \<Longrightarrow> mo_BindingID q \<noteq> mo_BindingID p"
      using k by (auto simp: kept_def)
    show ?thesis
      using tables_moveD(1) [OF move p(2) gone(1)] tables_move_gone [OF move gone(1) _ gone(2)] by (auto simp: kept_def)
  qed
qed

lemma issued_grow: "orderly sum256 a a' \<Longrightarrow> ag_issued a \<subseteq> ag_issued a'"
  unfolding orderly_def by (elim conjE service_stepE) auto

text \<open>C12: the service acts only by steps. Whatever the contexts report and whatever the clocks read, running a function of the service is a
  sequence of steps: reads of operations, writes of what a mutation makes of a copy so read, creations under an active binding, and
  the writes of tickets and bindings. This holds when what the rest of the system does to the store between two calls is itself made of
  such steps and of changes to other tables, and when the agent runtime and the deliverer, which may be any procedures, are too. The
  functions are the issue and the redemption of a ticket, the lookup of a peer's binding, the start, execution, update by a delivery,
  cancellation, failure and reconciliation of an operation, the three approval callbacks, the recording of a result, and the revocation
  and deletion of bindings.\<close>

theorem service_runs_as_steps:
  assumes "\<And>R. performs sum256 R runtime" and "\<And>d result R. deliver = Some d \<Longrightarrow> performs sum256 R (d result)"
  shows "performs sum256 {} (IssueTicket enabled sha randomSecret ri owner actor input at') \<and>
    performs sum256 {} (RedeemAccessTicket enabled sha secret peer) \<and> performs sum256 {} (ActiveBindingForPeer enabled peer) \<and>
    performs sum256 {} (start_operation lib sum256 t) \<and>
    performs sum256 {} (executeOperation lib payload runtime deliver sid i) \<and>
    performs sum256 {} (updateOperationRecord i (delivered raw st e)) \<and>
    performs sum256 {} (cancelOperation lib i) \<and> performs sum256 {} (finishOperationCancelled i) \<and>
    performs sum256 {} (finishOperationError lib i code message) \<and> performs sum256 {} (reconcileOperation p) \<and>
    performs sum256 {} (StartApprovalExecution lib ref_of run) \<and> performs sum256 {} (RestoreApprovalRequired ref_of run) \<and>
    performs sum256 {} (FailApprovalExecution lib ref_of run code message) \<and> performs sum256 {} (RecordWorkflowResult payload result) \<and>
    performs sum256 {} (MCP_Service_Operations.RevokeBinding lib j now) \<and>
    performs sum256 {} (MCP_Service_Operations.DeleteBinding lib owner j now) \<and>
    performs sum256 {} (DeleteAccessRecords lib owner now)"
proof -
  have "performs sum256 {} (executeOperation lib payload runtime deliver sid i)"
    by (rule performs_execute) (use assms in auto)
  then show ?thesis by (intro conjI performing)
qed

text \<open>C8: an operation that has ended never changes again. In every state the service reaches by orderly steps of functions that run
  beside each other, once an operation succeeded, failed, was cancelled or revoked, it is stored unchanged ever after, until it is
  deleted together with its binding. From then on no operation of that binding is stored under its identity; the identity being a
  digest, one of another binding may be.\<close>

theorem ended_operations_stay:
  assumes "reach no_agents (orderly sum256) a" and "(orderly sum256)\<^sup>*\<^sup>* a a'"
    and "mget (st_mcpOperations (ag_store a)) i = Some p" and "operationTerminal (mo_State p)"
  shows "mget (st_mcpOperations (ag_store a')) i = Some p \<or>
    mget (st_mcpBindings (ag_store a')) (mo_BindingID p) = None \<and>
    (\<forall>q. mget (st_mcpOperations (ag_store a')) i = Some q \<longrightarrow> mo_BindingID q \<noteq> mo_BindingID p)"
proof -
  have inv: "agents_inv sum256 a" using service.reach_inv [OF assms(1)] .
  note p = agents_inv_get [OF inv assms(3)]
  have "kept i p a' \<and> agents_inv sum256 a' \<and> mo_BindingID p \<in> ag_issued a'"
    using assms(2)
  proof (induction rule: rtranclp_induct)
    case base
    then show ?case using assms(3) inv p(3) by (simp add: kept_def)
  next
    case (step y z)
    then show ?case using kept_step [OF step(2) _ _ assms(4)] agents_inv_step(1) [OF step(2)] issued_grow [OF step(2)] by blast
  qed
  then show ?thesis by (simp add: kept_def)
qed

text \<open>C9: operations live under active bindings. In every state the service reaches, an operation is stored under the digest of its binding
  and its idempotency key; while it has not ended it belongs to a stored active binding and has no time of completion, and once it
  has ended it has one.\<close>

theorem open_operations_bound:
  assumes "reach no_agents (orderly sum256) a" and "mget (st_mcpOperations (ag_store a)) i = Some p"
  shows "i = stableID sum256 ''mcp_operation'' [mo_BindingID p, mo_IdempotencyKey p] \<and>
    (mo_CompletedAt p \<noteq> None \<longleftrightarrow> operationTerminal (mo_State p)) \<and>
    (\<exists>b. mget (st_mcpBindings (ag_store a)) (mo_BindingID p) = Some b \<and> (\<not> operationTerminal (mo_State p) \<longrightarrow> bi_Status b = MCPBindingActive))"
  using agents_inv_get(1,2) [OF service.reach_inv [OF assms(1)] assms(2)] by (auto simp: operation_ok_def completed_ok_def)

section \<open>Updates under interference\<close>

abbreviation keyed_operations :: "MemoryStore \<Rightarrow> bool" where
  "keyed_operations s \<equiv> keyed mo_ID (st_mcpOperations s)"

text \<open>Between two calls the rest of the system may change the operation, but every change gives it another version; this is what the
  steps of the service do (\<open>tables_move\<close>).\<close>

definition versioned :: "string \<Rightarrow> world \<Rightarrow> bool" where
  "versioned i w \<longleftrightarrow> (\<forall>k s. keyed_operations s \<longrightarrow> keyed_operations (me_others (w_moments w k) s) \<and>
     (\<forall>x y. mget (st_mcpOperations s) i = Some x \<and> mget (st_mcpOperations (me_others (w_moments w k) s)) i = Some y \<and>
       mo_Version y = mo_Version x \<longrightarrow> y = x))"

text \<open>The world after a call, and the read and the write of a round.\<close>

definition later :: "world \<Rightarrow> MemoryStore \<Rightarrow> world" where
  "later w s = \<lparr>w_store = s, w_moments = (\<lambda>k. w_moments w (Suc k))\<rparr>"

definition seen :: "world \<Rightarrow> MemoryStore" where
  "seen w = me_others (w_moments w 0) (w_store w)"

text \<open>What the rest of the system has made of the store of a world before call number \<open>k\<close> is made, counting from 1, if the function that
  makes the calls has changed nothing itself.\<close>

fun store_at :: "world \<Rightarrow> nat \<Rightarrow> MemoryStore" where
  "store_at w 0 = w_store w"
| "store_at w (Suc k) = me_others (w_moments w k) (store_at w k)"

lemma store_at_later: "store_at (later w (seen w)) k = store_at w (Suc k)"
  by (induction k) (simp_all add: later_def seen_def)

lemma seen_store_at: "seen w = store_at w 1"
  by (simp add: seen_def)

lemma later_world [simp]:
  "w_store (later w s) = s" "w_moments (later w s) k = w_moments w (Suc k)" "seen (later w s) = me_others (w_moments w 1) s"
  "versioned i w \<Longrightarrow> versioned i (later w s)"
  by (auto simp: later_def seen_def versioned_def)

lemma versioned_seen: "versioned i w \<Longrightarrow> keyed_operations (w_store w) \<Longrightarrow> keyed_operations (seen w)"
  by (simp add: versioned_def seen_def)

lemma read_cases:
  assumes "read_operation i w = (r, w')"
  shows "w' = later w (seen w) \<and> ((\<exists>e. r = Inl e) \<or> r = Inr (mget (st_mcpOperations (seen w)) i))"
  using assms by (auto simp: read_operation_def call_def Let_def later_def seen_def GetMCPOperation_def framed_def checked_def split: option.splits)

lemma write_cases:
  fixes w :: world
  defines "env \<equiv> me_env (w_moments w 0)"
  assumes "call (\<lambda>cx env. UpdateMCPOperation cx env p v) w = (r, w')"
  shows "w' = later w (seen w) \<and> (\<exists>e. r = Inl e) \<or>
    (\<exists>x. mget (st_mcpOperations (seen w)) (mo_ID p) = Some x \<and> mo_Version x = v \<and> r = Inr (updated_operation env x p) \<and>
      w' = later w ((seen w)\<lparr>st_mcpOperations := mput (mo_ID p) (updated_operation env x p) (st_mcpOperations (seen w))\<rparr>))"
proof -
  let ?m = "w_moments w 0"
  obtain res t where u: "UpdateMCPOperation (me_ctx ?m) env p v (seen w) = (res, t)" by fastforce
  have w': "r = res" "w' = later w t" using assms(2) u by (simp_all add: call_def Let_def later_def seen_def env_def)
  from UpdateMCPOperation_cases [OF u] show ?thesis unfolding w' by auto
qed

text \<open>A round in which the operation was found and is to be changed writes what the mutation makes of the operation as it is stored when
  the write is made.\<close>

lemma round_write:
  assumes "versioned i w" and "keyed_operations (w_store w)" and p: "mget (st_mcpOperations (seen w)) i = Some p"
    and m: "service_mutation m" "m now p = Some p'"
    and "call (\<lambda>cx env. UpdateMCPOperation cx env p' (mo_Version p')) (later w (seen w)) = (Inr u, w')"
  shows "mget (st_mcpOperations (store_at w 2)) i = Some p \<and> u = updated_operation (me_env (w_moments w 1)) p p' \<and>
    w_store w' = (store_at w 2)\<lparr>st_mcpOperations := mput i u (st_mcpOperations (store_at w 2))\<rparr>"
proof -
  let ?s = "seen (later w (seen w))"
  have at2: "?s = store_at w 2" by (simp add: seen_def later_def numeral_2_eq_2)
  have keyed: "keyed_operations (seen w)" using versioned_seen [OF assms(1,2)] .
  have id: "mo_ID p' = i" "mo_Version p' = mo_Version p" using mutation_fields [OF m] keyed_get [OF keyed p] by simp_all
  obtain x where x: "mget (st_mcpOperations ?s) i = Some x" "mo_Version x = mo_Version p" "u = updated_operation (me_env (w_moments w 1)) x p'"
    "w_store w' = ?s\<lparr>st_mcpOperations := mput i u (st_mcpOperations ?s)\<rparr>"
    using write_cases [OF assms(6)] id by auto
  have "x = p" using assms(1) keyed p x(1,2) by (simp add: versioned_def)
  then show ?thesis using x unfolding at2 by simp
qed

text \<open>What a sequence of rounds answers and leaves.\<close>

definition update_outcome :: "nat \<Rightarrow> string \<Rightarrow> mutation \<Rightarrow> world \<Rightarrow> go_error + MCPOperation \<times> bool \<Rightarrow> MemoryStore \<Rightarrow> bool" where
  "update_outcome n i m w r s' \<longleftrightarrow> (case r of
     Inl e \<Rightarrow> \<exists>j \<le> 2 * n + 1. s' = store_at w j
   | Inr (p, False) \<Rightarrow> \<exists>k < n. s' = store_at w (2 * k + 1) \<and> mget (st_mcpOperations s') i = Some p \<and>
       m (me_now (w_moments w (2 * k + 1))) p = None
   | Inr (p, True) \<Rightarrow> \<exists>k < n. \<exists>x x'. mget (st_mcpOperations (store_at w (2 * k + 2))) i = Some x \<and>
       m (me_now (w_moments w (2 * k + 1))) x = Some x' \<and> p = updated_operation (me_env (w_moments w (2 * k + 1))) x x' \<and>
       s' = (store_at w (2 * k + 2))\<lparr>st_mcpOperations := mput i p (st_mcpOperations (store_at w (2 * k + 2)))\<rparr>)"

lemma update_outcome_later:
  assumes "update_outcome n i m (later (later w (seen w)) (seen (later w (seen w)))) r s'"
  shows "update_outcome (Suc n) i m w r s'"
proof -
  let ?w = "later (later w (seen w)) (seen (later w (seen w)))"
  have at: "store_at ?w k = store_at w (Suc (Suc k))" for k
    by (simp only: store_at_later)
  have mo: "w_moments ?w k = w_moments w (Suc (Suc k))" for k by simp
  show ?thesis
  proof (cases r)
    case (Inl e)
    then obtain j where "j \<le> 2 * n + 1" "s' = store_at ?w j" using assms by (auto simp: update_outcome_def)
    then show ?thesis unfolding at using Inl by (auto simp: update_outcome_def intro!: exI [of _ "Suc (Suc j)"])
  next
    case (Inr pc)
    obtain p c where pc: "pc = (p, c)" by fastforce
    show ?thesis
    proof (cases c)
      case True
      then obtain k x x' where "k < n" "mget (st_mcpOperations (store_at ?w (2 * k + 2))) i = Some x"
          "m (me_now (w_moments ?w (2 * k + 1))) x = Some x'" "p = updated_operation (me_env (w_moments ?w (2 * k + 1))) x x'"
          "s' = (store_at ?w (2 * k + 2))\<lparr>st_mcpOperations := mput i p (st_mcpOperations (store_at ?w (2 * k + 2)))\<rparr>"
        using assms Inr pc by (auto simp: update_outcome_def)
      then show ?thesis
        unfolding at mo using Inr pc True
        by (auto simp: update_outcome_def simp del: store_at.simps intro!: exI [of _ "Suc k"])
    next
      case False
      then obtain k where "k < n" "s' = store_at ?w (2 * k + 1)" "mget (st_mcpOperations s') i = Some p"
          "m (me_now (w_moments ?w (2 * k + 1))) p = None"
        using assms Inr pc by (auto simp: update_outcome_def)
      then show ?thesis
        unfolding at mo using Inr pc False
        by (auto simp: update_outcome_def simp del: store_at.simps intro!: exI [of _ "Suc k"])
    qed
  qed
qed

lemma update_rounds_result:
  assumes "update_rounds n i m w = (res, w')" and "versioned i w" and "keyed_operations (w_store w)" and m: "service_mutation m"
  shows "update_outcome n i m w res (w_store w')"
  using assms(1-3)
proof (induction n arbitrary: w)
  case 0
  obtain r w1 where r: "read_operation i w = (r, w1)" by fastforce
  have "w1 = later w (seen w)" using read_cases [OF r] by simp
  then have "w_store w1 = store_at w 1" by (simp add: seen_store_at)
  then show ?case
    using 0(1) r
    by (auto simp: update_outcome_def unless_done_def also_do_def handle_def refuse_def split: option.splits sum.splits
        intro: exI [of _ "0 :: nat"] exI [of _ "1 :: nat"])
next
  case (Suc n)
  obtain r w1 where r: "read_operation i w = (r, w1)" by fastforce
  note rd = read_cases [OF r]
  have w1: "w1 = later w (seen w)" using rd by simp
  have at1: "w_store w1 = store_at w 1" unfolding w1 by (simp add: seen_store_at)
  show ?case
  proof (cases "me_err (w_moments w 0) = None \<and> (\<exists>x. r = Inr (Some x))")
    case False
    then have e: "(\<exists>e. res = Inl e) \<and> (w' = w \<or> w' = w1)"
      using Suc.prems(1) r by (auto simp: unless_done_def also_do_def handle_def refuse_def split: option.splits sum.splits)
    then have "w_store w' = store_at w 0 \<or> w_store w' = store_at w 1" using at1 by auto
    then have "\<exists>j \<le> 2 * Suc n + 1. w_store w' = store_at w j"
    proof
      assume "w_store w' = store_at w 0"
      then show ?thesis by blast
    next
      assume "w_store w' = store_at w 1"
      moreover have "(1 :: nat) \<le> 2 * Suc n + 1" by simp
      ultimately show ?thesis by blast
    qed
    moreover obtain er where "res = Inl er" using e by blast
    ultimately show ?thesis unfolding update_outcome_def by simp
  next
    case True
    then obtain x where go: "me_err (w_moments w 0) = None" and rx: "r = Inr (Some x)" by blast
    then have x: "mget (st_mcpOperations (seen w)) i = Some x" using rd by auto
    define now where "now = me_now (w_moments w 1)"
    have now1: "me_now (w_moments w1 0) = now" by (simp add: w1 now_def)
    show ?thesis
    proof (cases "m now x")
      case None
      then have "res = Inr (x, False) \<and> w' = w1"
        using Suc.prems(1) r go rx by (auto simp: unless_done_def also_do_def handle_def answer_def at_time_def now1)
      then show ?thesis
        using x None at1 unfolding seen_store_at by (auto simp: update_outcome_def now_def intro!: exI [of _ "0 :: nat"])
    next
      case (Some x')
      obtain wr w2 where wr: "call (\<lambda>cx env. UpdateMCPOperation cx env x' (mo_Version x')) w1 = (wr, w2)" by fastforce
      show ?thesis
      proof (cases wr)
        case (Inr u)
        then have u: "res = Inr (u, True)" "w' = w2"
          using Suc.prems(1) r go rx Some wr by (auto simp: unless_done_def also_do_def handle_def answer_def at_time_def now1)
        from round_write [OF Suc.prems(2,3) x m Some, of u w2] wr Inr w1
        show ?thesis
          using Some u by (auto simp: update_outcome_def now_def numeral_2_eq_2 intro!: exI [of _ "0 :: nat"])
      next
        case (Inl e)
        have w2: "w2 = later w1 (seen w1)" using write_cases [OF wr] Inl by auto
        have step: "res = Inl e \<and> w' = w2 \<or> update_rounds n i m w2 = (res, w')"
          using Suc.prems(1) r go rx Some wr Inl
          by (auto simp: unless_done_def also_do_def handle_def refuse_def at_time_def now1 split: if_splits)
        have at2: "w_store w2 = store_at w 2" unfolding w2 w1 by (simp add: seen_def later_def numeral_2_eq_2)
        have v1: "versioned i w1" and k1: "keyed_operations (w_store w1)"
          unfolding w1 using Suc.prems(2,3) by (simp_all add: versioned_seen)
        have v2: "versioned i w2" "keyed_operations (w_store w2)"
          unfolding w2 using v1 versioned_seen [OF v1 k1] by simp_all
        from step show ?thesis
        proof
          assume stop: "res = Inl e \<and> w' = w2"
          have "(2 :: nat) \<le> 2 * Suc n + 1" by simp
          then have "\<exists>j \<le> 2 * Suc n + 1. w_store w' = store_at w j" using stop at2 by blast
          then show ?thesis using stop unfolding update_outcome_def by simp
        next
          assume "update_rounds n i m w2 = (res, w')"
          from Suc.IH [OF this v2] show ?thesis unfolding w2 w1 by (rule update_outcome_later)
        qed
      qed
    qed
  qed
qed

text \<open>C11: an update takes effect once, on the operation as it is stored. However the rest of the system interferes between the calls of
  \<open>updateOperationRecord\<close>, as long as every change it makes to the operation gives it another version, one of three things happens, in
  the store \<open>store_at w k\<close> that the interference alone has made. A reported change is one write, made by the last call, in one of eight
  rounds: it replaces the operation stored at that very moment by what the mutation makes of exactly that operation. Without a change
  nothing is written, and the operation answered is stored and refused by the mutation. With an error nothing is written either.\<close>

theorem update_applies_once:
  assumes "updateOperationRecord i m w = (r, w')" and "versioned i w" and "keyed_operations (w_store w)" and "service_mutation m"
  shows "case r of
     Inl e \<Rightarrow> \<exists>j \<le> 17. w_store w' = store_at w j
   | Inr (p, False) \<Rightarrow> \<exists>k < 8. w_store w' = store_at w (2 * k + 1) \<and> mget (st_mcpOperations (w_store w')) i = Some p \<and>
       m (me_now (w_moments w (2 * k + 1))) p = None
   | Inr (p, True) \<Rightarrow> \<exists>k < 8. \<exists>x x'. mget (st_mcpOperations (store_at w (2 * k + 2))) i = Some x \<and>
       m (me_now (w_moments w (2 * k + 1))) x = Some x' \<and> p = updated_operation (me_env (w_moments w (2 * k + 1))) x x' \<and>
       w_store w' = (store_at w (2 * k + 2))\<lparr>st_mcpOperations := mput i p (st_mcpOperations (store_at w (2 * k + 2)))\<rparr>"
proof -
  have n: "2 * 8 + 1 = (17 :: nat)" by simp
  from update_rounds_result [OF assms(1) [unfolded updateOperationRecord_def] assms(2-4)]
  show ?thesis unfolding update_outcome_def n .
qed

text \<open>No trouble from contexts, and the operation stays, with arguments that can be encoded.\<close>

definition untroubled :: "string \<Rightarrow> world \<Rightarrow> bool" where
  "untroubled i w \<longleftrightarrow> (\<forall>k. me_err (w_moments w k) = None \<and>
     (\<forall>op. entry_error op (me_ctx (w_moments w k)) = None \<and> locked_error op (me_ctx (w_moments w k)) = None) \<and>
     (\<forall>s. (\<exists>p. mget (st_mcpOperations s) i = Some p \<and> invocation_ok (mo_Invocation p)) \<longrightarrow>
       (\<exists>p. mget (st_mcpOperations (me_others (w_moments w k) s)) i = Some p \<and> invocation_ok (mo_Invocation p))))"

definition there :: "string \<Rightarrow> MemoryStore \<Rightarrow> bool" where
  "there i s \<longleftrightarrow> keyed_operations s \<and> (\<exists>p. mget (st_mcpOperations s) i = Some p \<and> invocation_ok (mo_Invocation p))"

lemma untroubled_later [simp]: "untroubled i w \<Longrightarrow> untroubled i (later w s)"
  by (simp add: untroubled_def)

lemma there_seen: "untroubled i w \<Longrightarrow> versioned i w \<Longrightarrow> there i (w_store w) \<Longrightarrow> there i (seen w)"
  unfolding there_def untroubled_def versioned_def seen_def by blast

lemma mutation_identity:
  assumes "service_mutation m" and "m now p = Some p'" and "invocation_ok (mo_Invocation p)"
  shows "mcpOperationIdentityEqual p p'"
proof -
  have a: "mcpOperationIdentityEqual p (applyWorkflowResultToOperation st e now (p\<lparr>mo_Result := raw\<rparr>))" for st e raw
    using assms(3)
    by (simp add: mcpOperationIdentityEqual_def applyWorkflowResultToOperation_def Let_def mcpRecordsEqual_def invocation_norm_def)
  show ?thesis
    using assms a
    by (auto simp: service_mutation_def fail_with_def cancelled_def rejected_at_def resumed_def parked_def synchronized_def delivered_def
      mcpOperationIdentityEqual_def mcpRecordsEqual_def split: if_splits option.splits)
qed

lemma read_untroubled:
  assumes "untroubled i w"
  shows "read_operation i w = (Inr (mget (st_mcpOperations (seen w)) i), later w (seen w))"
proof -
  have "entry_error op (me_ctx (w_moments w 0)) = None \<and> locked_error op (me_ctx (w_moments w 0)) = None" for op
    using assms unfolding untroubled_def by blast
  then show ?thesis by (simp add: read_operation_def call_def Let_def later_def seen_def GetMCPOperation_def framed_def checked_def)
qed

lemma write_untroubled:
  assumes "untroubled i w" and "mget (st_mcpOperations (seen w)) (mo_ID p) = Some x"
  shows "mo_Version x \<noteq> v \<Longrightarrow> call (\<lambda>cx env. UpdateMCPOperation cx env p v) w =
      (Inl (storeError ''mcp_operation.update'' StoreErrorConflict ErrMCPOperationVersionConflict), later w (seen w))"
    and "mo_Version x = v \<Longrightarrow> mcpOperationIdentityEqual x p \<Longrightarrow> \<exists>u s. call (\<lambda>cx env. UpdateMCPOperation cx env p v) w = (Inr u, later w s)"
proof -
  have "entry_error op (me_ctx (w_moments w 0)) = None \<and> locked_error op (me_ctx (w_moments w 0)) = None" for op
    using assms(1) unfolding untroubled_def by blast
  then have c: "call (\<lambda>cx env. UpdateMCPOperation cx env p v) w = (let r = UpdateMCPOperation open_ctx (me_env (w_moments w 0)) p v (seen w)
      in (fst r, later w (snd r)))"
    by (simp add: call_def Let_def later_def seen_def UpdateMCPOperation_def framed_def checked_def)
  show "mo_Version x \<noteq> v \<Longrightarrow> call (\<lambda>cx env. UpdateMCPOperation cx env p v) w =
      (Inl (storeError ''mcp_operation.update'' StoreErrorConflict ErrMCPOperationVersionConflict), later w (seen w))"
    unfolding c using assms(2) by (simp add: UpdateMCPOperation_def framed_def checked_def Let_def)
  assume "mo_Version x = v" "mcpOperationIdentityEqual x p"
  then obtain u s where "UpdateMCPOperation open_ctx (me_env (w_moments w 0)) p v (seen w) = (Inr u, s)"
    using assms(2) by (simp add: UpdateMCPOperation_def framed_def checked_def Let_def)
  then show "\<exists>u s. call (\<lambda>cx env. UpdateMCPOperation cx env p v) w = (Inr u, later w s)" unfolding c by auto
qed

lemma update_rounds_answer:
  assumes "untroubled i w" and "versioned i w" and "there i (w_store w)" and m: "service_mutation m" and "k < n"
    and "\<And>s. mget (st_mcpOperations (me_others (w_moments w (2 * k + 1)) s)) i = mget (st_mcpOperations s) i"
  shows "\<exists>r. fst (update_rounds n i m w) = Inr r"
  using assms(1-3,5,6)
proof (induction n arbitrary: w k)
  case (Suc n)
  let ?w1 = "later w (seen w)"
  have go: "me_err (w_moments w 0) = None" using Suc.prems(1) by (simp add: untroubled_def)
  have th: "there i (seen w)" by (rule there_seen [OF Suc.prems(1-3)])
  then obtain x where k: "keyed_operations (seen w)" and x0: "mget (st_mcpOperations (seen w)) i = Some x" "invocation_ok (mo_Invocation x)"
    unfolding there_def by blast
  have x: "mget (st_mcpOperations (seen w)) i = Some x" "mo_ID x = i" "invocation_ok (mo_Invocation x)"
    using x0 keyed_get [OF k x0(1)] by simp_all
  note rd = read_untroubled [OF Suc.prems(1)]
  define now where "now = me_now (w_moments ?w1 0)"
  show ?case
  proof (cases "m now x")
    case None
    then show ?thesis using go rd x(1) by (auto simp: unless_done_def also_do_def handle_def answer_def at_time_def now_def)
  next
    case (Some x')
    note f = mutation_fields [OF m Some]
    have w1: "untroubled i ?w1" "versioned i ?w1" "there i (w_store ?w1)" using Suc.prems(1,2) th by simp_all
    have th1: "there i (seen ?w1)" by (rule there_seen [OF w1])
    then obtain y where y: "mget (st_mcpOperations (seen ?w1)) i = Some y" unfolding there_def by blast
    note wr = write_untroubled [OF w1(1), of x' y "mo_Version x'"]
    show ?thesis
    proof (cases "mo_Version y = mo_Version x")
      case True
      have "y = x" using w1(2) th x(1) y True Suc.prems(2) by (auto simp: versioned_def there_def)
      then have "mcpOperationIdentityEqual y x'" using mutation_identity [OF m Some x(3)] by simp
      then obtain u t where "call (\<lambda>cx env. UpdateMCPOperation cx env x' (mo_Version x')) ?w1 = (Inr u, later ?w1 t)"
        using wr(2) y f x(2) True by auto
      then show ?thesis using go rd x(1) Some by (auto simp: unless_done_def also_do_def handle_def answer_def at_time_def now_def)
    next
      case False
      let ?w2 = "later ?w1 (seen ?w1)"
      have k: "k \<noteq> 0"
      proof
        assume "k = 0"
        then have "mget (st_mcpOperations (seen ?w1)) i = mget (st_mcpOperations (seen w)) i" using Suc.prems(5) [of "seen w"] by simp
        then show False using x(1) y False by simp
      qed
      have w2: "untroubled i ?w2" "versioned i ?w2" "there i (w_store ?w2)" using w1 th1 by simp_all
      have quiet: "mget (st_mcpOperations (me_others (w_moments ?w2 (2 * (k - 1) + 1)) s)) i = mget (st_mcpOperations s) i" for s
      proof -
        have "Suc (Suc (2 * (k - 1) + 1)) = 2 * k + 1" using k by simp
        then show ?thesis using Suc.prems(5) [of s] by (simp only: later_world)
      qed
      have "\<exists>r. fst (update_rounds n i m ?w2) = Inr r"
        by (rule Suc.IH [OF w2 _ quiet]) (use Suc.prems(4) k in simp)
      moreover have "call (\<lambda>cx env. UpdateMCPOperation cx env x' (mo_Version x')) ?w1 =
          (Inl (storeError ''mcp_operation.update'' StoreErrorConflict ErrMCPOperationVersionConflict), ?w2)"
        using wr(1) y f x(2) False by simp
      ultimately show ?thesis
        using go rd x(1) Some by (simp add: unless_done_def also_do_def handle_def at_time_def now_def storeError_def)
    qed
  qed
qed simp

text \<open>C34: an update gives up only under constant interference. When no context ends, the operation stays, and in at least one of the eight
  rounds nothing touches the operation between the read and the write, \<open>updateOperationRecord\<close> returns a result and no error.\<close>

theorem undisturbed_update_returns:
  assumes "untroubled i w" and "versioned i w" and "there i (w_store w)" and "service_mutation m" and "k < maxOperationUpdateAttempts"
    and "\<And>s. mget (st_mcpOperations (me_others (w_moments w (2 * k + 1)) s)) i = mget (st_mcpOperations s) i"
  shows "\<exists>r. fst (updateOperationRecord i m w) = Inr r"
  unfolding updateOperationRecord_def by (rule update_rounds_answer [OF assms])

lemma audit_entry_runs:
  obtains s where "audit_entry typ sid run actor summary fs w = (Inr (), later w s)"
    "st_mcpAccessTickets s = st_mcpAccessTickets (seen w)"
proof -
  let ?m = "w_moments w 0"
  let ?e = "\<lparr>ae_ID = [], ae_Time = 0, ae_Type = typ, ae_SessionID = sid, ae_RunID = run, ae_Actor = actor, ae_Summary = summary, ae_Fields = fs\<rparr>"
  obtain r s where a: "AddAudit (me_ctx ?m) (me_env ?m) ?e (seen w) = (r, s)" by fastforce
  then have "st_mcpAccessTickets s = st_mcpAccessTickets (seen w)"
    by (auto simp: AddAudit_def checked_def framed_def split: if_splits option.splits sum.splits)
  moreover have "audit_entry typ sid run actor summary fs w = (Inr (), later w s)"
    using a by (simp add: audit_entry_def ignoring_def handle_def answer_def call_def Let_def later_def seen_def)
  ultimately show thesis using that by blast
qed

text \<open>C33: a ticket lives between a minute and a day. Whatever lifetime is asked for, however large, the lifetime of a ticket that is issued is,
  after the wrap-around of the nanosecond count, between 60 seconds and 24 hours. The ticket is pending, for one use and not yet
  used, no other stored ticket has the hash of its secret, and while nothing else touches the tickets it is stored with the hash of
  the secret, which the answer carries itself but not its hash.\<close>

theorem issued_ticket_bounds:
  assumes "IssueTicket enabled sha randomSecret ri ownerID actorID input now w = (Inr (t, secret), w')" and "\<not> IsZero now"
    and "\<And>s. st_mcpAccessTickets (me_others (w_moments w 1) s) = st_mcpAccessTickets s"
  shows "\<exists>ttl. 60 * second \<le> ttl \<and> ttl \<le> 86400 * second \<and> ti_IssuedAt t = normalizeMCPTime now \<and>
    ti_ExpiresAt t = normalizeMCPTime (now + ttl) \<and> ti_Status t = MCPAccessPending \<and> ti_MaxUses t = 1 \<and> ti_UseCount t = 0 \<and>
    randomSecret = Inr secret \<and> ti_SecretHash t = [] \<and>
    mget (st_mcpAccessTickets (w_store w')) (ti_ID t) = Some (t\<lparr>ti_SecretHash := sha secret\<rparr>) \<and>
    (\<forall>(i, x) \<in> set (st_mcpAccessTickets (seen w)). i \<noteq> ti_ID t \<longrightarrow> ti_SecretHash x \<noteq> sha secret)"
proof -
  define ttl where "ttl = ticket_ttl (it_TTLSeconds input)"
  have bounds: "60 * second \<le> ttl \<and> ttl \<le> 86400 * second"
    using assms(1) unfolding ttl_def IssueTicket_def Let_def by (simp add: refuse_def split: if_splits)
  obtain secret' where secret': "randomSecret = Inr secret'"
    using assms(1) unfolding IssueTicket_def Let_def by (cases randomSecret) (simp_all add: refuse_def split: if_splits)
  obtain owner actor ticket where ticket: "ticket = \<lparr>ti_SchemaVersion = MCPAccessTicketSchemaVersion, ti_ID = NewID ri ''mcp_ticket'',
      ti_SecretHash = sha secret', ti_OwnerID = owner, ti_ActorID = actor, ti_DomainID = TrimSpace (it_DomainID input),
      ti_AuthorizationRevision = 1, ti_Scope = MCPAccessConversation, ti_Status = MCPAccessPending, ti_MaxUses = 1,
      ti_UseCount = 0, ti_IssuedAt = now, ti_ExpiresAt = now + ttl, ti_ConsumedAt = None, ti_RevokedAt = None\<rparr>"
    and run: "handle (call (\<lambda>cx env. SaveMCPAccessTicket cx env ticket)) (\<lambda>r. case r of
        Inl _ \<Rightarrow> refuse (Err ''MCP access ticket could not be persisted'')
      | Inr t \<Rightarrow> also_do (audit_entry ''mcp.access_ticket.issued'' [] [] owner ''Issued a single-use MCP access ticket''
            [(''ticket_id'', AnyString (ti_ID t)), (''domain_id'', AnyString (ti_DomainID t)),
             (''scope'', AnyString (ti_Scope t)), (''expires_at'', AnyTime (ti_ExpiresAt t))]) (\<lambda>_.
          answer (t\<lparr>ti_SecretHash := []\<rparr>, secret'))) w = (Inr (t, secret), w')"
    using assms(1) unfolding IssueTicket_def Let_def secret' ttl_def by (simp only: refuse_def sum.case split: if_splits prod.splits) auto
  obtain r w1 where c: "call (\<lambda>cx env. SaveMCPAccessTicket cx env ticket) w = (r, w1)" by fastforce
  then obtain t0 where t0: "r = Inr t0" using run by (cases r) (simp_all add: handle_def refuse_def)
  obtain s2 where s2: "st_mcpAccessTickets s2 = st_mcpAccessTickets (seen w1)" "t = t0\<lparr>ti_SecretHash := []\<rparr>" "secret = secret'" "w' = later w1 s2"
  proof -
    obtain s2 where "st_mcpAccessTickets s2 = st_mcpAccessTickets (seen w1)"
      and a: "audit_entry ''mcp.access_ticket.issued'' [] [] owner ''Issued a single-use MCP access ticket''
            [(''ticket_id'', AnyString (ti_ID t0)), (''domain_id'', AnyString (ti_DomainID t0)),
             (''scope'', AnyString (ti_Scope t0)), (''expires_at'', AnyTime (ti_ExpiresAt t0))] w1 = (Inr (), later w1 s2)"
      by (rule audit_entry_runs)
    then show thesis using that [of s2] run by (simp add: handle_def c t0 also_do_def answer_def a)
  qed
  let ?env = "me_env (w_moments w 0)"
  have s1: "SaveMCPAccessTicket (me_ctx (w_moments w 0)) ?env ticket (seen w) = (Inr t0, w_store w1)" "w1 = later w (w_store w1)"
    using c t0 by (auto simp: call_def Let_def seen_def later_def prod_eq_iff)
  from SaveMCPAccessTicket_cases [OF s1(1)] have saved: "t0 = normalizeMCPAccessTicket (en_rand ?env) ticket (en_now ?env)"
    "\<forall>(i, x) \<in> set (st_mcpAccessTickets (seen w)). i \<noteq> ti_ID t0 \<longrightarrow> ti_SecretHash x \<noteq> ti_SecretHash t0"
    "w_store w1 = (seen w)\<lparr>st_mcpAccessTickets := mput (ti_ID t0) t0 (st_mcpAccessTickets (seen w))\<rparr>"
    by auto
  have "seen w1 = me_others (w_moments w 1) (w_store w1)" by (subst s1(2)) simp
  then have kept: "st_mcpAccessTickets (w_store w') = st_mcpAccessTickets (w_store w1)"
    using s2(1,4) assms(3) by simp
  show ?thesis
    by (rule exI [of _ ttl]) (use bounds secret' s2(2,3) saved kept assms(2) in \<open>simp add: ticket normalizeMCPAccessTicket_def Let_def\<close>)
qed

section \<open>A sample run\<close>

text \<open>Identities that determine the binding and the key, and a world in which the operation is touched once, between the read and the
  write of the first round of an update.\<close>

definition sample_sha :: "string \<Rightarrow> 8 word list" where
  "sample_sha s = map (\<lambda>c. word_of_nat (byte c)) (take 32 (s @ replicate 32 (CHR 0x00)))"

lemma sample_operation_id: "stableID sample_sha ''mcp_operation'' [''mcp_binding_fallback'', ''k1''] = sample_op"
  by code_simp

definition touched :: "MemoryStore \<Rightarrow> MemoryStore" where
  "touched s = (case mget (st_mcpOperations s) sample_op of
     None \<Rightarrow> s
   | Some p \<Rightarrow> s\<lparr>st_mcpOperations := mput sample_op (p\<lparr>mo_Version := mo_Version p + 1\<rparr>) (st_mcpOperations s)\<rparr>)"

definition sample_world :: "MemoryStore \<Rightarrow> world" where
  "sample_world s = \<lparr>w_store = s, w_moments = (\<lambda>k. \<lparr>me_ctx = open_ctx, me_env = other_env, me_err = None, me_now = 8000,
     me_others = (if k = 1 then touched else id)\<rparr>)\<rparr>"

lemma touched_operation:
  "mget (st_mcpOperations (touched s)) sample_op = map_option (\<lambda>p. p\<lparr>mo_Version := mo_Version p + 1\<rparr>) (mget (st_mcpOperations s) sample_op)"
  by (cases "mget (st_mcpOperations s) sample_op") (simp_all add: touched_def mget_mput)

lemma touched_keyed:
  assumes "keyed_operations s"
  shows "keyed_operations (touched s)"
proof (cases "mget (st_mcpOperations s) sample_op")
  case (Some p)
  have "keyed_operations (s\<lparr>st_mcpOperations := mput sample_op (p\<lparr>mo_Version := mo_Version p + 1\<rparr>) (st_mcpOperations s)\<rparr>)"
    using keyed_put [OF assms, of "p\<lparr>mo_Version := mo_Version p + 1\<rparr>" "sample_op"] keyed_get [OF assms Some] by simp
  then show ?thesis by (simp add: touched_def Some)
qed (use assms in \<open>simp add: touched_def\<close>)

lemma sample_world_versioned: "versioned sample_op (sample_world s)"
  by (auto simp: versioned_def sample_world_def touched_keyed touched_operation)

lemma sample_world_untroubled: "untroubled sample_op (sample_world s)"
  by (auto simp: untroubled_def sample_world_def touched_operation)

lemma sample_there: "keyed_operations agent_store" "there sample_op (w_store (sample_world agent_store))"
proof -
  have "invocation_ok sample_invocation" by code_simp
  moreover show k: "keyed_operations agent_store" by (simp add: keyed_def agent_store_operations agent_fields)
  ultimately show "there sample_op (w_store (sample_world agent_store))"
    using k by (simp add: there_def sample_world_def agent_store_operations sample_operation_def)
qed

lemma undisturbed_update_returns_witness:
  "\<exists>r. fst (updateOperationRecord sample_op cancelled (sample_world agent_store)) = Inr r"
  by (rule undisturbed_update_returns [OF sample_world_untroubled sample_world_versioned sample_there(2), where k = 1])
     (auto simp: service_mutation_def sample_world_def)

lemma sample_update:
  "\<exists>p w'. updateOperationRecord sample_op cancelled (sample_world agent_store) = (Inr (p, True), w')"
proof -
  have "invocation_ok sample_invocation" by code_simp
  moreover have "mo_State sample_operation = ''running''" "mo_Invocation sample_operation = sample_invocation" "mo_Version sample_operation = 1"
    by (simp_all add: sample_operation_def)
  ultimately show ?thesis
    by (simp add: updateOperationRecord_def numeral_eq_Suc unless_done_def also_do_def handle_def read_operation_def call_def sample_world_def
        GetMCPOperation_def framed_def checked_def agent_store_operations at_time_def cancelled_def operationTerminal_def touched_operation
        UpdateMCPOperation_def storeError_def refuse_def answer_def Let_def agent_fields mcpOperationIdentityEqual_def mcpRecordsEqual_def)
qed

lemma update_applies_once_witness:
  "\<exists>p w' k x x'. updateOperationRecord sample_op cancelled (sample_world agent_store) = (Inr (p, True), w') \<and> k < 8 \<and>
     mget (st_mcpOperations (store_at (sample_world agent_store) (2 * k + 2))) sample_op = Some x \<and>
     cancelled (me_now (w_moments (sample_world agent_store) (2 * k + 1))) x = Some x' \<and>
     p = updated_operation (me_env (w_moments (sample_world agent_store) (2 * k + 1))) x x'"
proof -
  obtain p w' where u: "updateOperationRecord sample_op cancelled (sample_world agent_store) = (Inr (p, True), w')" using sample_update by blast
  have "keyed_operations (w_store (sample_world agent_store))" using sample_there by (simp add: sample_world_def)
  then show ?thesis
    using update_applies_once [OF u sample_world_versioned _ service_mutations(2)] u by auto
qed

text \<open>A ticket is issued and redeemed, the agent starts an operation, a function reads it, and then it is cancelled.\<close>

definition new_operation :: MCPOperation where
  "new_operation = sample_operation\<lparr>mo_Version := 0\<rparr>"

lemma new_operation_call: "mcp_call (CreateOperation open_ctx sample_env new_operation) bound_store = agent_store"
proof -
  have n: "normalizeMCPOperation None new_operation 5000 = sample_operation" by code_simp
  have "mcp_call (CreateOperation open_ctx sample_env new_operation) bound_store =
      bound_store\<lparr>st_mcpOperations := mput (mo_ID sample_operation) sample_operation (st_mcpOperations bound_store)\<rparr>"
    by (simp add: CreateMCPOperation_def framed_def checked_def operation_with_def bound_store_tables sample_env_def n)
  also have "\<dots> = agent_store"
    by (simp add: agent_store_def CreateMCPOperation_def framed_def checked_def operation_with_def bound_store_tables sample_env_def sample_normal)
  finally show ?thesis .
qed

definition sample_agents :: "MemoryStore \<Rightarrow> service_state" where
  "sample_agents s = \<lparr>ag_store = s, ag_reads = {}, ag_issued = {''mcp_binding_fallback''}\<rparr>"

lemma sample_agents_reach: "reach no_agents (orderly sample_sha) (sample_agents agent_store)"
proof -
  let ?a = "\<lambda>s. \<lparr>ag_store = s, ag_reads = {}, ag_issued = {}\<rparr>"
  have 0: "reach no_agents (orderly sample_sha) (?a NewMemoryStore)"
    by (rule reach.intros(1)) (simp add: no_agents_def empty_store_New)
  have "service_step sample_sha (?a NewMemoryStore) (?a ticket_store)"
    using step_write [of sample_sha "?a NewMemoryStore" "SaveTicket open_ctx sample_env sample_ticket"]
    by (simp add: ticket_store_def issued_by_def)
  then have "orderly sample_sha (?a NewMemoryStore) (?a ticket_store)" by (simp add: orderly_def)
  then have 1: "reach no_agents (orderly sample_sha) (?a ticket_store)" using 0 by (rule reach.intros(2) [rotated])
  have "service_step sample_sha (?a ticket_store) (sample_agents bound_store)"
    using step_write [of sample_sha "?a ticket_store" "RedeemTicket open_ctx sample_env '' hash '' sample_peer 5000"]
    by (simp add: bound_store_def issued_by_def sample_agents_def sample_env_def sample_normal)
  then have "orderly sample_sha (?a ticket_store) (sample_agents bound_store)" by (simp add: orderly_def ticket_store_eq)
  then have 2: "reach no_agents (orderly sample_sha) (sample_agents bound_store)" using 1 by (rule reach.intros(2) [rotated])
  have active: "bi_Status sample_binding = MCPBindingActive" using agent_fields(2) by (simp add: active_for_def)
  have "permitted sample_sha (sample_agents bound_store) (CreateOperation open_ctx sample_env new_operation)"
    by (simp add: sample_agents_def bound_store_tables new_operation_def sample_operation_def sample_operation_id active)
  from step_write [OF this] have "service_step sample_sha (sample_agents bound_store) (sample_agents agent_store)"
    using new_operation_call by (simp add: issued_by_def sample_agents_def)
  then have "orderly sample_sha (sample_agents bound_store) (sample_agents agent_store)"
    by (simp add: orderly_def sample_agents_def bound_store_tables agent_store_operations)
  then show ?thesis using 2 by (rule reach.intros(2) [rotated])
qed

lemma open_operations_bound_witness:
  "mget (st_mcpOperations (ag_store (sample_agents agent_store))) sample_op = Some sample_operation \<and> \<not> operationTerminal (mo_State sample_operation) \<and>
   (\<exists>b. mget (st_mcpBindings (ag_store (sample_agents agent_store))) (mo_BindingID sample_operation) = Some b \<and> bi_Status b = MCPBindingActive)"
proof -
  have g: "mget (st_mcpOperations (ag_store (sample_agents agent_store))) sample_op = Some sample_operation"
    by (simp add: sample_agents_def agent_store_operations)
  have "\<not> operationTerminal (mo_State sample_operation)" by (simp add: sample_operation_def operationTerminal_def)
  with open_operations_bound [OF sample_agents_reach g] g show ?thesis by blast
qed

definition sample_cancelled :: service_state where
  "sample_cancelled = (let a = sample_agents agent_store in
     a\<lparr>ag_store := mcp_call (UpdateOperation open_ctx other_env (sample_operation\<lparr>mo_State := ''cancelled'', mo_CompletedAt := Some 8000\<rparr>) 1) agent_store,
       ag_reads := {sample_operation}\<rparr>)"

lemma sample_cancelled_reach: "reach no_agents (orderly sample_sha) sample_cancelled"
proof -
  let ?p = "sample_operation\<lparr>mo_State := ''cancelled'', mo_CompletedAt := Some 8000\<rparr>"
  let ?a = "sample_agents agent_store" and ?b = "sample_agents agent_store\<lparr>ag_reads := {sample_operation}\<rparr>"
  have "mget (st_mcpOperations (ag_store ?a)) sample_op = Some sample_operation" by (simp add: sample_agents_def agent_store_operations)
  from step_read [OF this] have "service_step sample_sha ?a ?b" by (simp add: sample_agents_def)
  then have "orderly sample_sha ?a ?b" by (simp add: orderly_def sample_agents_def agent_store_operations) (simp add: sample_operation_def)
  with sample_agents_reach have 1: "reach no_agents (orderly sample_sha) ?b" by (rule reach_step)
  have "cancelled 8000 sample_operation = Some ?p" by (simp add: cancelled_def operationTerminal_def sample_operation_def)
  then have "permitted sample_sha ?b (UpdateOperation open_ctx other_env ?p 1)"
    by (auto simp: service_mutation_def sample_operation_def)
  from step_write [OF this] have "service_step sample_sha ?b sample_cancelled"
    by (simp add: issued_by_def sample_cancelled_def sample_agents_def Let_def)
  moreover have "mget (st_mcpBindings (ag_store ?b)) ''mcp_binding_fallback'' \<noteq> None"
    by (simp add: sample_agents_def agent_store_operations)
  ultimately have "orderly sample_sha ?b sample_cancelled"
    by (simp add: orderly_def sample_agents_def agent_store_operations) (simp add: sample_operation_def)
  with 1 show ?thesis by (rule reach_step)
qed

definition cancelled_operation :: MCPOperation where
  "cancelled_operation = updated_operation other_env sample_operation (sample_operation\<lparr>mo_State := ''cancelled'', mo_CompletedAt := Some 8000\<rparr>)"

lemma sample_cancelled_operation:
  "st_mcpOperations (ag_store sample_cancelled) = [(sample_op, cancelled_operation)]" "operationTerminal (mo_State cancelled_operation)"
  "mo_Version cancelled_operation = 2" "ag_issued sample_cancelled = {''mcp_binding_fallback''}"
  "st_mcpBindings (ag_store sample_cancelled) = [(''mcp_binding_fallback'', sample_binding)]"
proof -
  let ?p = "sample_operation\<lparr>mo_State := ''cancelled'', mo_CompletedAt := Some 8000\<rparr>"
  have "invocation_ok sample_invocation" by code_simp
  then have eq: "mcpOperationIdentityEqual sample_operation ?p"
    by (simp add: mcpOperationIdentityEqual_def mcpRecordsEqual_def sample_operation_def)
  have v: "mo_Version sample_operation = 1" by (simp add: sample_operation_def)
  note run = sample_cancelled_def sample_agents_def UpdateMCPOperation_def framed_def checked_def agent_store_operations agent_fields Let_def
    cancelled_operation_def updated_operation_def
  show "st_mcpOperations (ag_store sample_cancelled) = [(sample_op, cancelled_operation)]" "ag_issued sample_cancelled = {''mcp_binding_fallback''}"
    "st_mcpBindings (ag_store sample_cancelled) = [(''mcp_binding_fallback'', sample_binding)]"
    using eq v by (simp_all add: run)
  have "wrap64 2 = 2" by code_simp
  with v show "mo_Version cancelled_operation = 2" "operationTerminal (mo_State cancelled_operation)"
    by (simp_all add: cancelled_operation_def updated_operation_def operationTerminal_def)
qed

text \<open>Then the binding is deleted, and the operation goes with it.\<close>

lemma ended_operations_stay_witness:
  "mget (st_mcpOperations (ag_store sample_cancelled)) sample_op = Some cancelled_operation \<and> operationTerminal (mo_State cancelled_operation) \<and>
     (let s = mcp_call (DeleteBinding open_ctx ''owner'' ''mcp_binding_fallback'') (ag_store sample_cancelled)
      in mget (st_mcpOperations s) sample_op = Some cancelled_operation \<or>
        mget (st_mcpBindings s) (mo_BindingID cancelled_operation) = None \<and>
        (case mget (st_mcpOperations s) sample_op of None \<Rightarrow> True | Some q \<Rightarrow> mo_BindingID q \<noteq> mo_BindingID cancelled_operation))"
proof -
  let ?s = "mcp_call (DeleteBinding open_ctx ''owner'' ''mcp_binding_fallback'') (ag_store sample_cancelled)"
  have g: "mget (st_mcpOperations (ag_store sample_cancelled)) sample_op = Some cancelled_operation"
    by (simp add: sample_cancelled_operation)
  have "service_step sample_sha sample_cancelled (sample_cancelled\<lparr>ag_store := ?s\<rparr>)"
    using step_write [of sample_sha sample_cancelled "DeleteBinding open_ctx ''owner'' ''mcp_binding_fallback''"] by (simp add: issued_by_def)
  then have "orderly sample_sha sample_cancelled (sample_cancelled\<lparr>ag_store := ?s\<rparr>)"
    unfolding orderly_def by (simp add: sample_cancelled_operation del: mcp_call.simps)
  then have "(orderly sample_sha)\<^sup>*\<^sup>* sample_cancelled (sample_cancelled\<lparr>ag_store := ?s\<rparr>)" by blast
  from ended_operations_stay [OF sample_cancelled_reach this g sample_cancelled_operation(2)]
  have c: "mget (st_mcpOperations ?s) sample_op = Some cancelled_operation \<or>
      mget (st_mcpBindings ?s) (mo_BindingID cancelled_operation) = None \<and>
      (\<forall>q. mget (st_mcpOperations ?s) sample_op = Some q \<longrightarrow> mo_BindingID q \<noteq> mo_BindingID cancelled_operation)"
    by (simp del: mcp_call.simps)
  have "mget (st_mcpOperations ?s) sample_op = Some cancelled_operation \<or>
      mget (st_mcpBindings ?s) (mo_BindingID cancelled_operation) = None \<and>
      (case mget (st_mcpOperations ?s) sample_op of None \<Rightarrow> True | Some q \<Rightarrow> mo_BindingID q \<noteq> mo_BindingID cancelled_operation)"
  proof (cases "mget (st_mcpOperations ?s) sample_op")
    case None
    then show ?thesis using c by (simp only: option.case option.simps simp_thms)
  next
    case (Some q)
    then show ?thesis using c by (simp only: option.case option.inject) blast
  qed
  then show ?thesis using g sample_cancelled_operation(2) unfolding Let_def by blast
qed

lemma service_runs_as_steps_witness:
  "\<forall>lib payload sid i. performs sample_sha {} (executeOperation lib payload (refuse (Err ''the agent is not available'')) None sid i)"
  using service_runs_as_steps [of sample_sha "refuse (Err ''the agent is not available'')" None] by (simp add: performs_answer(2))

definition issue_request :: IssueTicketRequest where
  "issue_request = \<lparr>it_DomainID = ''home'', it_TTLSeconds = 3600\<rparr>"

lemma audited_answer:
  "also_do (audit_entry typ sid r actor summary fs) (\<lambda>_. answer x) w = (Inr x, snd (audit_entry typ sid r actor summary fs w))"
  by (rule audit_entry_runs [of "typ" sid r actor summary fs w]) (simp add: also_do_def handle_def answer_def)

lemma sample_issue:
  "\<exists>t w'. IssueTicket (\<lambda>_. True) (\<lambda>s. s @ ''#'') (Inr ''secret'') None ''owner'' [] issue_request 5000 (sample_world NewMemoryStore) =
      (Inr (t, ''secret''), w')"
proof -
  have c: "ticket_ttl 3600 = 3600000000000" "TrimSpace ''home'' = ''home''" "TrimSpace [] = []" "NewID None ''mcp_ticket'' = ''mcp_ticket_fallback''"
    by code_simp+
  show ?thesis
    by (simp add: issue_request_def IssueTicket_def c handle_def call_def sample_world_def audited_answer SaveMCPAccessTicket_def framed_def
        checked_def normalizeMCPAccessTicket_def Let_def)
qed

lemma issued_ticket_bounds_witness:
  "\<exists>t w' ttl. IssueTicket (\<lambda>_. True) (\<lambda>s. s @ ''#'') (Inr ''secret'') None ''owner'' [] issue_request 5000 (sample_world NewMemoryStore) =
      (Inr (t, ''secret''), w') \<and>
     ttl \<le> 86400 * second \<and> ti_ExpiresAt t = normalizeMCPTime (5000 + ttl) \<and> ti_SecretHash t = []"
proof -
  obtain t w' where i: "IssueTicket (\<lambda>_. True) (\<lambda>s. s @ ''#'') (Inr ''secret'') None ''owner'' [] issue_request 5000 (sample_world NewMemoryStore) =
      (Inr (t, ''secret''), w')" using sample_issue by blast
  have "st_mcpAccessTickets (me_others (w_moments (sample_world NewMemoryStore) 1) s) = st_mcpAccessTickets s" for s
    by (simp add: sample_world_def touched_def split: option.splits)
  from issued_ticket_bounds [OF i _ this] i show ?thesis by auto
qed

end
