(* ===== verification/Spec2Isabelle.thy ===== *)
theory Spec2Isabelle
  imports Policy Supervisor Repository Scheduler MCP_Service
begin

text \<open>
  Verification of the core of the SparkClaw gateway (Go, under \<open>src/services/gateway/internal\<close>).

  The gateway runs an assistant for one owner. Every tool call passes a policy engine; calls that need consent wait as
  approvals; sessions, messages, runs, tool calls, reminders, deliveries and the audit trail are kept by a repository; a supervisor
  admits every repository operation and shuts the repository down; a timer runtime publishes due schedules to the message
  runtime; external agents get access by tickets and run operations under a binding; the accounts of messaging connectors are
  bindings with a life cycle of their own. This development models those parts as the code has them and proves what each promises.

  Parts and theories, in the order of their dependencies (each theory opens with what it holds).

  \<^item> \<open>Go_Prelude\<close>, \<open>Go_Time\<close>, \<open>Go_Errors\<close>, \<open>Go_Contracts\<close>: the Go the code rests on. Strings are byte strings, ints of Go
    are \<open>int\<close> with the wrap-around written out (\<open>wrap64\<close>) where it can matter, a map is an association list in the iteration order
    of one run, so that a result that holds for every list holds for every order; an instant is the number of nanoseconds since the
    zero time, and durations are signed 64-bit counts; errors are a datatype with \<open>errors.Is\<close> and \<open>errors.As\<close>. \<open>Go_Contracts\<close>
    states the interfaces (locales) the components share: sort orders, sorted tables, failing operations, reachable states
    and invariants.
  \<^item> \<open>App_Types\<close>, \<open>App_Records\<close>, \<open>App_JSON\<close>, \<open>JSON_Text\<close>: the records of \<open>app/\<close>, what encoding them as JSON does to them, and the scanner
    of \<open>encoding/json\<close> as far as \<open>json.Valid\<close> and \<open>json.Compact\<close> are used.
  \<^item> \<open>Policy\<close>: \<open>policy/\<close> with the operator controls of \<open>config/\<close>. A decision is computed by \<open>Decide\<close> from one snapshot. Shown:
    denial is absolute and agrees with exposure, tightening the configuration only makes decisions stricter, the facts of an
    invocation only strengthen them, and the resources named are exact.
  \<^item> \<open>Operation_Specs\<close>, \<open>Supervisor\<close>: \<open>store/operation.go\<close> and \<open>store/supervisor.go\<close>. The
    supervisor and the spans it hands out are one state machine; its steps are opening, marking, finishing and joining spans,
    probing and closing. Finishing a span, which in the code sets the flag of the span and then enters the mutex of the supervisor,
    is one step. Shown: the active counter accounts for exactly the unfinished spans, no send on a closed channel, the
    drain ends, when the store is ready, and what time a degradation reports.
  \<^item> \<open>Store_State\<close>, \<open>Audit_Log\<close>: the state of \<open>store/memory.go\<close> (the record \<open>MemoryStore\<close>), the frame of its operations, the
    audit and event logs and the event window. An operation returns a sum of an error and a result, with the store after it. Shown:
    reading window after window reproduces the log.
  \<^item> \<open>Approval_Inputs\<close>, \<open>Approval_Operations\<close>, \<open>Approvals\<close>: \<open>store/approval_*.go\<close>. Shown: a resolved approval never changes and
    is resolved once, what is approved is what was submitted, accepted inputs answer the form, external references are unique,
    listings are sorted.
  \<^item> \<open>Session_Index\<close>, \<open>Run_Operations\<close>, \<open>Runs\<close>: \<open>store/run_*.go\<close> and \<open>store/history_recent.go\<close>. Shown: the session indexes are
    exact, so that a bounded scan of an index agrees with sorting and filtering the table.
  \<^item> \<open>Schedule_Operations\<close>, \<open>Schedules\<close>: \<open>store/schedule_*.go\<close> and \<open>store/workbench_schedule.go\<close>. Shown: a claim takes the due
    reminders, overlapping ticks claim disjoint sets, edits are optimistic, a workbench occurrence is consumed once.
  \<^item> \<open>Delivery_Operations\<close>, \<open>Deliveries\<close>: \<open>store/delivery_record_*.go\<close>, three ledgers with one contract (the locale \<open>ledger\<close>).
    Shown: one record per natural key whose history only grows, idempotent deliveries, absorbed redeliveries, exact
    lookups, reconciliation of writes whose outcome is unknown.
  \<^item> \<open>Session_Operations\<close>, \<open>Sessions\<close>, \<open>Session_Deletion\<close>: \<open>store/session_*.go\<close>, \<open>store/conversation_*.go\<close> and
    \<open>store/workbench_draft.go\<close>. Shown: a message is stored once, conversations are listed in order and in full, pages of message
    events lose nothing and end, conversation writes keep owner and origin of a session while its times grow, a stale draft is
    refused, and deleting a session removes exactly what is its own from every table, its draft included, but never the session a
    binding is linked to.
  \<^item> \<open>Go_Maps\<close>, \<open>MCP_Repository_Operations\<close>, \<open>MCP_Repository\<close>: \<open>store/mcp_access.go\<close>, the tickets, bindings and operations
    of external agents. Shown: a ticket is redeemed once and binds the peer that redeemed it, a peer has at most one active
    binding, revoking ends the operations, an operation is created once per key, and updates are optimistic.
  \<^item> \<open>MCP_Service_Operations\<close>, \<open>MCP_Service\<close>: \<open>mcpaccess/service.go\<close>, \<open>operation.go\<close> and \<open>audit.go\<close>. A function of the service is a
    procedure over a world whose moments say what the rest of the system did to the store before each of its calls. Shown: beside
    an environment that makes the same steps, the functions are runs of one state machine, in which an ended operation never changes
    and an open one has an active binding; an update takes effect once, on the operation stored when it is written, and returns unless
    each of its eight rounds is disturbed. Identities of operations are \<open>stableID\<close>, digests of which nothing is assumed.
  \<^item> \<open>Connector_Operations\<close>, \<open>Connectors\<close>: \<open>store/connector_contract.go\<close> and \<open>connector_memory.go\<close>, the settings of connectors
    and the bindings of accounts. Shown: a binding is never lost, keeps its owner and moves forward through its life cycle one version
    at a time, its end is final, an update is applied once because the bytes of its digest determine the binding, a credential has one
    owner and a channel one default, and listings are exact; and what a binding created with a blank scope does to them.
  \<^item> \<open>Repository\<close>: the groups together. Every write reads and changes the tables of its group and the logs only (the locale
    \<open>part_of\<close>), so invariants and every property of reachable states carry over to any interleaving.
  \<^item> \<open>Recurrence\<close>, \<open>Scheduler_Operations\<close>, \<open>Scheduler\<close>: \<open>reminder/\<close> and the reads of \<open>messagecontrol/schedule_registry.go\<close>.
    \<open>Tick\<close> is \<open>claimDue\<close> followed by \<open>process\<close> on every claimed schedule, over the schedule repository. Shown: the next
    occurrence is the first after now, workbench occurrences run only inside the availability window and at most once, an
    offline boundary runs no backlog, retries back off and end, and an overflowing recurrence blocks the polls.

  Interfaces. Each locale is interpreted on the definitions of the model in the theory that provides them: \<open>invariant_system\<close>
  (runtime, approvals, runs, schedules, ledgers, external agents, connectors, conversations, the service and the repository), \<open>failing_operation\<close> and \<open>reconciler\<close> (the writes and their reconciliation),
  \<open>ledger\<close> (receives, deliveries, inbox), the sort orders and tables of the listings, the session indexes (tool calls, episodes) and \<open>part_of\<close> (the six groups).

  Bounds and fuel. Loops are structural recursions or have a measure. \<open>seek\<close> takes the 10000 steps of \<open>nextOccurrence\<close>;
  \<open>claim_occurrences\<close> recurses on the batch limit of the code; \<open>duration_terms\<close> has the length of its input as fuel, which suffices
  because every term consumes a character (\<open>duration_terms_fuel\<close>); the JSON scanner keeps the nesting limit of the library.
  \<open>update_rounds\<close> takes the 8 attempts of \<open>updateOperationRecord\<close>. What is shown of runs of the service is for orderly steps: no version
  counter at its last 64-bit value, and no new binding with the identity of an earlier one. The steps of connectors are for
  versions below the last 64-bit value, and for new bindings whose scopes validate and whose owner is free of the byte that separates
  the names of a key; the creation itself checks neither. The invariants of the six groups hold together under every interleaving;
  that of the conversations is shown for conversation writes and deletions alone, because the redemption of a ticket writes a session
  under an identity drawn at random, and \<open>SaveExternalChatSession\<close>, which rewrites the session of a chat, is not modelled.

  Parameters. What \<open>time.Now\<close> and \<open>rand.Read\<close> answer (\<open>op_env\<close>), what a context reports (\<open>op_ctx\<close>), digests and JSON text of values
  (\<open>json_lib\<close>), the mapping of non-ASCII letters to lower case, time zones and the rune tables (\<open>platform\<close>), the answer of the
  publisher (\<open>je_publish\<close>), and for the service of external agents the SHA-256 digests, the agent runtime, the deliverer and the
  interference between calls, and for connectors the digest function and the identities of the log entries of a demotion are arguments
  of the definitions that use them. Messages that quote a value are abbreviated to their text.

  Not modelled. Locks, since each operation holds one from its second check on; the goroutines of \<open>Scheduler.Run\<close>, which hand the
  schedules that \<open>claimDue\<close> returns to workers that call \<open>process\<close>; the difference between nil and empty slices; years too large
  for the calendar; the migrations of a loaded snapshot; decoding MCP requests and shaping their responses, and the contexts that
  \<open>mcpaccess\<close> cancels, since a cancelled context shows as a failing call; the bodies of database drivers and the other two store backends; the agent runtime, tools, browser, mail,
  the connectors themselves and their providers, HTTP handlers and clients, which the manifest lists with their reasons.
\<close>

section \<open>The repository as a whole\<close>

text \<open>C17: the groups of the repository are independent. In every state the whole repository can reach by any interleaving of
  approval, run, schedule, delivery, agent, connector, session and audit writes, failed ones included, the tables of each of the first six
  groups are tables that the group's own operations reach from an empty store by themselves.\<close>

theorem repository_groups_independent:
  assumes "reach empty_store (store_step lib unicode sha) s"
  shows "(\<exists>t. reach empty_store (approval_step lib) t \<and> approval_part t = approval_part s) \<and>
    (\<exists>t. reach empty_store run_step t \<and> run_part t = run_part s) \<and>
    (\<exists>t. reach empty_store schedule_step t \<and> schedule_part t = schedule_part s) \<and>
    (\<exists>t. reach empty_store delivery_step t \<and> delivery_part t = delivery_part s) \<and>
    (\<exists>t. reach empty_store mcp_step t \<and> agent_part t = agent_part s) \<and>
    (\<exists>t. reachable_connectors unicode sha t \<and> connector_part t = connector_part s)"
  using approval_group.simulated [OF assms] run_group.simulated [OF assms] schedule_group.simulated [OF assms]
    delivery_group.simulated [OF assms] agent_group.simulated [OF assms] connector_group.simulated [OF assms] by blast

definition two_groups :: MemoryStore where
  "two_groups = snd (SaveReminder open_ctx sample_env sample_reminder approval_store)"

lemma two_groups_step: "store_step sample_lib id id approval_store two_groups"
  by (rule by_schedule, rule step_save_reminder [where res = "fst (SaveReminder open_ctx sample_env sample_reminder approval_store)"])
     (simp add: two_groups_def)

lemma two_groups_reach: "reach empty_store (store_step sample_lib id id) two_groups"
proof (rule reach_step)
  have "reach empty_store (store_step lib unicode sha) t" if "reach empty_store (approval_step lib) t"
    for lib unicode sha t
    using that by (induction rule: reach.induct) (auto intro: reach.intros by_approval)
  then show "reach empty_store (store_step sample_lib id id) approval_store" using sample_reach .
  show "store_step sample_lib id id approval_store two_groups" by (rule two_groups_step)
qed

lemma two_groups_tables:
  "st_approvals two_groups = st_approvals approval_store" "\<exists>i. mget (st_reminders two_groups) i \<noteq> None"
  by (simp_all add: two_groups_def save_reminder_open record_reminder_def mget_mput, blast)

lemma repository_groups_independent_witness:
  "(\<exists>i. mget (st_reminders two_groups) i \<noteq> None) \<and>
   (\<exists>t. reach empty_store (approval_step sample_lib) t \<and> st_approvals t = st_approvals two_groups)"
  using repository_groups_independent [OF two_groups_reach] two_groups_tables(2) by (auto simp: approval_part_def)

text \<open>C18: the invariants of six groups hold together. Whatever the interleaving of writes and of deletions of sessions, the invariants of
  approvals, runs, schedules, deliveries, external agents and connectors hold in every state the repository reaches: keyed tables,
  normalised records, unique external references of approvals, exact session indexes, ordered instants of reminders, ledgers, tickets,
  bindings and operations with at most one record per identity, and bindings of accounts with one owner per credential and one default
  per channel. The steps of connectors are restricted: new bindings have scopes that validate and an owner free of the separator of
  keys, and no version is at its last value; an unrestricted creation can break the invariant of connectors. The invariant of
  conversations is not part of the claim.\<close>

theorem repository_invariant:
  assumes "reach empty_store (lifecycle_step lib unicode sha) s"
  shows "approvals_inv lib s \<and> runs_inv s \<and> schedules_inv s \<and> deliveries_inv s \<and> mcp_inv s \<and> connectors_inv unicode s"
  using repository.reach_inv [OF assms] by (simp add: store_inv_def)

lemma lifecycle_reach: "reach empty_store (store_step lib unicode sha) s \<Longrightarrow> reach empty_store (lifecycle_step lib unicode sha) s"
  by (induction rule: reach.induct) (auto intro: reach.intros by_write)

lemma repository_invariant_witness:
  "(\<exists>i. mget (st_reminders two_groups) i \<noteq> None) \<and> approvals_inv sample_lib two_groups \<and> schedules_inv two_groups"
  using repository_invariant [OF lifecycle_reach [OF two_groups_reach]] two_groups_tables(2) by simp

text \<open>The audit log and the event log only grow. No sequence of repository writes removes, reorders or changes an entry
  either log already holds; only the deletion of a session does, as stated there.\<close>

theorem repository_logs_append_only:
  assumes "(store_step lib unicode sha)\<^sup>*\<^sup>* s t"
  shows "(\<exists>audits. st_auditEvents t = st_auditEvents s @ audits) \<and> (\<exists>events. st_events t = st_events s @ events)"
proof -
  have "logs_extend s t"
    using assms by (induction rule: rtranclp_induct) (auto intro: logs_extend_trans store_step_logs)
  then show ?thesis by (auto simp: logs_extend_def prefix_def)
qed

lemma repository_logs_append_only_witness:
  "\<exists>audits. st_auditEvents two_groups = st_auditEvents approval_store @ audits"
  using repository_logs_append_only [OF r_into_rtranclp [of "store_step sample_lib id id", OF two_groups_step]] ..

end
